(* ===== verification/Prelude.thy ===== *)
theory Prelude
  imports Main "HOL-Library.Word"
begin

text \<open>
  Shared vocabulary of the development: machine integer types, the kernel's return codes,
  little-endian byte strings, fixed-size byte buffers, and the keyed slot table (an array of
  slots in which the key 0 marks a free slot) that the resource pool and the per-client
  backing table both use. The interface locale \<open>keyed_table\<close> states what the clients of such a
  table rely on.
\<close>

unbundle bit_operations_syntax

section \<open>Machine integers and return codes\<close>

type_synonym u8 = "8 word"
type_synonym u16 = "16 word"
type_synonym u32 = "32 word"
type_synonym u64 = "64 word"
type_synonym bytes = "8 word list"

text \<open>
  The \<open>IOReturn\<close> values the modelled code returns. \<open>Kernel_panic\<close> is not one of them: it marks an
  execution that dereferences a null pointer or copies beyond a buffer, so that its absence can be stated and proved.
\<close>

datatype io_return =
    kIOReturnSuccess
  | kIOReturnError
  | kIOReturnNoMemory
  | kIOReturnNoResources
  | kIOReturnBadArgument
  | kIOReturnUnsupported
  | kIOReturnVMError
  | kIOReturnTimeout
  | kIOReturnNotReady
  | kIOReturnNoSpace
  | kIOReturnNotFound
  | kIOReturnBusy
  | kIOReturnNotPermitted
  | kIOReturnUnsupportedMode
  | kIOReturnNoDevice
  | kIOReturnInternalError
  | kIOReturnIOError
  | kIOReturnNotOpen
  | kIOReturnExclusiveAccess
  | kIOReturnInvalid
  | kIOReturnNotAttached
  | Kernel_panic

named_theorems wire_simps \<open>layout of the wire structures\<close>
named_theorems frame_simps \<open>fields an operation leaves alone\<close>
named_theorems safe_rules
named_theorems inv_intros \<open>preservation of invariants\<close>

section \<open>Little-endian byte strings\<close>

fun le_bytes :: "nat \<Rightarrow> nat \<Rightarrow> bytes" where
  "le_bytes 0 x = []"
| "le_bytes (Suc n) x = word_of_nat x # le_bytes n (x div 256)"

fun le_value :: "bytes \<Rightarrow> nat" where
  "le_value [] = 0"
| "le_value (b # bs) = unat b + 256 * le_value bs"

definition le32 :: "u32 \<Rightarrow> bytes" where
  "le32 w = le_bytes 4 (unat w)"

definition le64 :: "u64 \<Rightarrow> bytes" where
  "le64 w = le_bytes 8 (unat w)"

definition rd32 :: "bytes \<Rightarrow> u32" where
  "rd32 bs = word_of_nat (le_value (take 4 bs))"

definition rd64 :: "bytes \<Rightarrow> u64" where
  "rd64 bs = word_of_nat (le_value (take 8 bs))"

lemma length_le_bytes [simp]: "length (le_bytes n x) = n"
  by (induction n arbitrary: x) auto

lemma length_le32 [simp, wire_simps]: "length (le32 w) = 4"
  by (simp add: le32_def)

lemma length_le64 [simp, wire_simps]: "length (le64 w) = 8"
  by (simp add: le64_def)

lemma le_value_le_bytes: "le_value (le_bytes n x) = x mod 256 ^ n"
proof (induction n arbitrary: x)
  case 0
  then show ?case by simp
next
  case (Suc n)
  have "le_value (le_bytes (Suc n) x) = x mod 256 + 256 * (x div 256 mod 256 ^ n)"
    by (simp add: Suc.IH unat_of_nat)
  also have "\<dots> = x mod (256 * 256 ^ n)"
    by (metis add.commute mod_mult2_eq)
  finally show ?case by simp
qed

lemma unat_bound16: "unat (w :: u16) < 65536"
  using unsigned_less [of w] by simp

lemma unat_bound32: "unat (w :: u32) < 4294967296"
  using unsigned_less [of w] by simp

lemma unat_bound64: "unat (w :: u64) < 18446744073709551616"
  using unsigned_less [of w] by simp

lemma rd32_le32 [simp]: "rd32 (le32 w @ bs) = w"
  using unat_bound32 [of w]
  by (simp add: rd32_def le32_def le_value_le_bytes)

lemma rd64_le64 [simp]: "rd64 (le64 w @ bs) = w"
  using unat_bound64 [of w]
  by (simp add: rd64_def le64_def le_value_le_bytes)

lemma rd32_prefix: "4 \<le> length xs \<Longrightarrow> rd32 (xs @ ys) = rd32 xs"
  by (simp add: rd32_def)

lemma rd32_take: "4 \<le> n \<Longrightarrow> rd32 (take n xs) = rd32 xs"
  by (simp add: rd32_def min_def)

lemma list_update_unchanged: "xs ! i = v \<Longrightarrow> xs[i := v] = xs"
  by auto

section \<open>Byte buffers\<close>

text \<open>\<open>memcpy(dst, src, length src)\<close> at offset 0: the prefix is replaced, the rest stays.\<close>

definition overwrite :: "bytes \<Rightarrow> bytes \<Rightarrow> bytes" where
  "overwrite src dst = src @ drop (length src) dst"

lemma length_overwrite [simp]: "length (overwrite src dst) = max (length src) (length dst)"
  by (simp add: overwrite_def)

lemma take_overwrite [simp]: "n \<le> length src \<Longrightarrow> take n (overwrite src dst) = take n src"
  by (simp add: overwrite_def)

text \<open>Reading \<open>n\<close> bytes from the start of a buffer; bytes never written are zero.\<close>

definition buf_read :: "nat \<Rightarrow> bytes \<Rightarrow> bytes" where
  "buf_read n bs = take n (bs @ replicate n 0)"

lemma length_buf_read [simp]: "length (buf_read n bs) = n"
  by (simp add: buf_read_def)

lemma buf_read_overwrite [simp]: "n = length src \<Longrightarrow> buf_read n (overwrite src dst) = src"
  by (simp add: buf_read_def overwrite_def)

lemma buf_read_exact [simp]: "n = length src \<Longrightarrow> buf_read n src = src"
  by (simp add: buf_read_def)

definition zeros :: "nat \<Rightarrow> bytes" where
  "zeros n = replicate n 0"

lemma length_zeros [simp]: "length (zeros n) = n"
  by (simp add: zeros_def)

section \<open>Slot tables keyed by a 32-bit id, with 0 as the free key\<close>

text \<open>
  The driver keeps its resources and its wired user buffers in arrays of 64 slots. A slot whose
  id is 0 is free; insertion takes the first free slot, lookup and removal take the first slot
  with the given id. \<open>key\<close> reads a slot's id.
\<close>

fun slot_find :: "('s \<Rightarrow> u32) \<Rightarrow> u32 \<Rightarrow> 's list \<Rightarrow> 's option" where
  "slot_find key k [] = None"
| "slot_find key k (s # ss) = (if key s = k then Some s else slot_find key k ss)"

fun slot_index :: "('s \<Rightarrow> u32) \<Rightarrow> u32 \<Rightarrow> 's list \<Rightarrow> nat option" where
  "slot_index key k [] = None"
| "slot_index key k (s # ss) =
     (if key s = k then Some 0 else map_option Suc (slot_index key k ss))"

definition slots_ok :: "('s \<Rightarrow> u32) \<Rightarrow> 's list \<Rightarrow> bool" where
  "slots_ok key ss \<longleftrightarrow> distinct (filter (\<lambda>k. k \<noteq> 0) (map key ss))"

text \<open>What a table means: the finite map from live ids to slots.\<close>

definition slots_map :: "('s \<Rightarrow> u32) \<Rightarrow> 's list \<Rightarrow> u32 \<Rightarrow> 's option" where
  "slots_map key ss k = (if k = 0 then None else slot_find key k ss)"

lemma slot_index_bound: "slot_index key k ss = Some i \<Longrightarrow> i < length ss"
  by (induction ss arbitrary: i) (auto split: if_splits)

lemma slot_index_key: "slot_index key k ss = Some i \<Longrightarrow> key (ss ! i) = k"
  by (induction ss arbitrary: i) (auto split: if_splits)

lemma slot_index_None: "slot_index key k ss = None \<longleftrightarrow> k \<notin> key ` set ss"
  by (induction ss) (auto split: if_splits)

lemma slot_index_before:
  "slot_index key k ss = Some i \<Longrightarrow> j < i \<Longrightarrow> key (ss ! j) \<noteq> k"
proof (induction ss arbitrary: i j)
  case Nil
  then show ?case by simp
next
  case (Cons s ss)
  then show ?case by (cases j) (auto split: if_splits)
qed

lemma slot_find_index:
  "slot_find key k ss = map_option (\<lambda>i. ss ! i) (slot_index key k ss)"
  by (induction ss) (auto simp: option.map_comp comp_def)

lemma slot_find_None: "slot_find key k ss = None \<longleftrightarrow> k \<notin> key ` set ss"
  by (simp add: slot_find_index slot_index_None)

lemma slot_find_Some: "slot_find key k ss = Some s \<Longrightarrow> s \<in> set ss \<and> key s = k"
  by (induction ss) (auto split: if_splits)

lemma slots_ok_Cons [simp]:
  "slots_ok key (s # ss) \<longleftrightarrow> (key s = 0 \<or> key s \<notin> key ` set ss) \<and> slots_ok key ss"
  by (auto simp: slots_ok_def)

lemma slots_ok_Nil [simp]: "slots_ok key []"
  by (simp add: slots_ok_def)

lemma slot_find_update_free:
  assumes "slot_index key 0 ss = Some i" "key s \<noteq> 0" "slot_find key (key s) ss = None" "k \<noteq> 0"
  shows "slot_find key k (ss[i := s]) = (if k = key s then Some s else slot_find key k ss)"
  using assms
proof (induction ss arbitrary: i)
  case Nil
  then show ?case by simp
next
  case (Cons t ss)
  then show ?case
    by (cases i) (auto split: if_splits)
qed

lemma slots_ok_update_free:
  assumes "slot_index key 0 ss = Some i" "slot_find key (key s) ss = None \<or> key s = 0"
    and "slots_ok key ss"
  shows "slots_ok key (ss[i := s])"
  using assms
proof (induction ss arbitrary: i)
  case Nil
  then show ?case by simp
next
  case (Cons t ss)
  show ?case
  proof (cases i)
    case 0
    with Cons.prems show ?thesis
      by (auto simp: slot_find_None split: if_splits)
  next
    case (Suc j)
    with Cons.prems have j: "slot_index key 0 ss = Some j" and t: "key t \<noteq> 0"
      by (auto split: if_splits)
    from Cons.prems t have ns: "key s \<noteq> key t"
      by (auto split: if_splits)
    have "key ` set (ss[j := s]) \<subseteq> insert (key s) (key ` set ss)"
      using set_update_subset_insert [of ss j s] by auto
    moreover have "slots_ok key (ss[j := s])"
      using Cons.IH [OF j] Cons.prems by (auto split: if_splits)
    ultimately show ?thesis
      using Suc Cons.prems t ns by auto
  qed
qed

lemma slot_find_update_remove:
  assumes "slot_index key r ss = Some i" "key s = 0" "slots_ok key ss" "r \<noteq> 0" "k \<noteq> 0"
  shows "slot_find key k (ss[i := s]) = (if k = r then None else slot_find key k ss)"
  using assms
proof (induction ss arbitrary: i)
  case Nil
  then show ?case by simp
next
  case (Cons t ss)
  then show ?case
    by (cases i) (auto simp: slot_find_None split: if_splits)
qed

lemma slots_ok_update_remove:
  assumes "key s = 0" "slots_ok key ss"
  shows "slots_ok key (ss[i := s])"
  using assms
proof (induction ss arbitrary: i)
  case Nil
  then show ?case by simp
next
  case (Cons t ss)
  show ?case
  proof (cases i)
    case 0
    with Cons.prems show ?thesis by simp
  next
    case (Suc j)
    have "key ` set (ss[j := s]) \<subseteq> insert 0 (key ` set ss)"
      using set_update_subset_insert [of ss j s] Cons.prems(1) by auto
    with Suc Cons show ?thesis by auto
  qed
qed

lemma slots_ok_all_free: "(\<And>s. s \<in> set ss \<Longrightarrow> key s = 0) \<Longrightarrow> slots_ok key ss"
  by (induction ss) auto

section \<open>The interface of a keyed table\<close>

text \<open>
  What a client of a slot table relies on. \<open>ins\<close> answers \<open>None\<close> when the id is already present
  or when there is no room; otherwise exactly one binding is added. \<open>del\<close> drops exactly one.
\<close>

locale keyed_table =
  fixes look :: "'t \<Rightarrow> u32 \<Rightarrow> 'v option"
    and ins :: "u32 \<Rightarrow> 'v \<Rightarrow> 't \<Rightarrow> 't option"
    and del :: "u32 \<Rightarrow> 't \<Rightarrow> 't"
    and invar :: "'t \<Rightarrow> bool"
  assumes look_zero: "look t 0 = None"
    and ins_look: "invar t \<Longrightarrow> ins k v t = Some t' \<Longrightarrow> look t' = (look t)(k \<mapsto> v)"
    and ins_fresh: "invar t \<Longrightarrow> ins k v t = Some t' \<Longrightarrow> look t k = None"
    and ins_invar: "invar t \<Longrightarrow> ins k v t = Some t' \<Longrightarrow> invar t'"
    and del_look: "invar t \<Longrightarrow> k \<noteq> 0 \<Longrightarrow> look (del k t) = (look t)(k := None)"
    and del_invar: "invar t \<Longrightarrow> invar (del k t)"
begin

lemma ins_then_look: "invar t \<Longrightarrow> ins k v t = Some t' \<Longrightarrow> look t' k = Some v"
  by (simp add: ins_look)

lemma ins_duplicate: "invar t \<Longrightarrow> look t k \<noteq> None \<Longrightarrow> ins k v t = None"
  using ins_fresh by (cases "ins k v t") auto

lemma ins_then_del:
  assumes "invar t" "ins k v t = Some t'" "k \<noteq> 0"
  shows "look (del k t') = look t"
proof -
  have "look (del k t') = ((look t)(k \<mapsto> v))(k := None)"
    using assms del_look ins_invar ins_look by metis
  also have "\<dots> = look t"
    using ins_fresh [OF assms(1,2)] by auto
  finally show ?thesis .
qed

lemma ins_other: "invar t \<Longrightarrow> ins k v t = Some t' \<Longrightarrow> j \<noteq> k \<Longrightarrow> look t' j = look t j"
  by (simp add: ins_look)

lemma ins_nonzero: "invar t \<Longrightarrow> ins k v t = Some t' \<Longrightarrow> k \<noteq> 0"
  using ins_look [of t k v t'] look_zero [of t'] by (auto simp: fun_upd_def fun_eq_iff)

end

end
