(* ===== verification/Virtqueue.thy ===== *)
theory Virtqueue
  imports Prelude
begin

text \<open>
  The split virtqueue of \<^verbatim>\<open>FB/VMVirtIOGPU.cpp\<close>: the descriptor, available and used rings as the
  device sees them, the driver's descriptor free list, the negotiation of the queue size and the
  layout of the ring memory. The control queue (queue 0) and the cursor queue (queue 1) are two
  values of the same record, since the driver keeps the same fields twice.
\<close>

section \<open>Ring memory\<close>

abbreviation (input) VRING_DESC_F_NEXT :: u16 where "VRING_DESC_F_NEXT \<equiv> 1"
abbreviation (input) VRING_DESC_F_WRITE :: u16 where "VRING_DESC_F_WRITE \<equiv> 2"
abbreviation FREE_END :: u16 where "FREE_END \<equiv> 0xFFFF"

record VRingDesc =
  vd_addr :: u64
  vd_len :: u32
  vd_flags :: u16
  vd_next :: u16

record VRingUsedElem =
  ue_id :: u32
  ue_len :: u32

text \<open>
  The memory the driver and the device share. The three rings are tables indexed the way the code
  indexes them; \<open>dma\<close> gives the contents of the physically contiguous buffer that starts at an
  address (distinct allocations do not overlap, so a buffer is named by its first address).
\<close>

record vring_mem =
  desc_tab :: "u16 \<Rightarrow> VRingDesc"
  avail_flags_idx :: u16
  avail_ring :: "u16 \<Rightarrow> u16"
  used_idx :: u16
  used_ring :: "u16 \<Rightarrow> VRingUsedElem"
  dma :: "u64 \<Rightarrow> bytes"

text \<open>
  The driver's side of one queue. \<open>vq_mapped\<close>: the pointers into the ring memory are set (they
  are assigned together and cleared together). \<open>vq_free_next\<close>: the free-list chain array, \<open>[]\<close> when
  the pointer is null. \<open>vq_cmd_buf\<close> and \<open>vq_resp_buf\<close>: physical address and length of the
  pre-allocated buffers, \<open>None\<close> when the pointer is null.
\<close>

record virtqueue =
  vq_initialized :: bool
  vq_mapped :: bool
  vq_size :: u16
  vq_free_head :: u16
  vq_free_next :: "u16 list"
  vq_last_used :: u16
  vq_avail_idx :: u16
  vq_mem :: vring_mem
  vq_cmd_buf :: "(u64 \<times> nat) option"
  vq_resp_buf :: "(u64 \<times> nat) option"

definition zero_desc :: VRingDesc where
  "zero_desc = \<lparr>vd_addr = 0, vd_len = 0, vd_flags = 0, vd_next = 0\<rparr>"

definition zero_used_elem :: VRingUsedElem where
  "zero_used_elem = \<lparr>ue_id = 0, ue_len = 0\<rparr>"

section \<open>Queue size and layout\<close>

function pow2_loop :: "nat \<Rightarrow> nat \<Rightarrow> nat" where
  "pow2_loop p n = (if 0 < p \<and> p * 2 \<le> n then pow2_loop (p * 2) n else p)"
  by pat_completeness auto
termination
  by (relation "measure (\<lambda>(p, n). n - p)") auto

declare pow2_loop.simps [simp del]

definition clamp_qsize :: "u16 \<Rightarrow> u16 \<Rightarrow> u16" where
  "clamp_qsize limit offered =
     (let qsize = (if offered > limit then limit else offered)
      in word_of_nat (pow2_loop 1 (unat qsize)))"

record vring_layout =
  desc_size :: u32
  avail_offset :: u32
  avail_size :: u32
  used_offset :: u32
  used_size :: u32
  total_size :: u32

definition layout_vring :: "u16 \<Rightarrow> vring_layout" where
  "layout_vring qsize =
     (let q = ucast qsize :: u32;
          dsz = q * 16;
          asz = 4 + 2 * q + 2;
          usz = 4 + 8 * q + 2;
          aoff = (dsz + 1) AND NOT 1;
          uoff = (aoff + asz + 3) AND NOT 3;
          tot = (uoff + usz + 4095) AND NOT 4095
      in \<lparr>desc_size = dsz, avail_offset = aoff, avail_size = asz,
          used_offset = uoff, used_size = usz, total_size = tot\<rparr>)"

section \<open>The descriptor free list\<close>

definition init_free_next :: "u16 \<Rightarrow> u16 list" where
  "init_free_next qsize =
     map (\<lambda>i. if i + 1 < unat qsize then word_of_nat (i + 1) else FREE_END) [0..<unat qsize]"

function depth_walk :: "u16 list \<Rightarrow> u16 \<Rightarrow> u16 \<Rightarrow> nat \<Rightarrow> nat" where
  "depth_walk nxt qsize i d =
     (if i \<noteq> FREE_END \<and> i < qsize \<and> d \<le> unat qsize
      then depth_walk nxt qsize (nxt ! unat i) (d + 1) else d)"
  by pat_completeness auto
termination
  by (relation "measure (\<lambda>(nxt, q, i, d). unat q + 1 - d)") auto

declare depth_walk.simps [simp del]

definition vringFreeDepth :: "virtqueue \<Rightarrow> nat" where
  "vringFreeDepth q =
     (if vq_free_next q = [] \<or> vq_size q = 0 then 0
      else depth_walk (vq_free_next q) (vq_size q) (vq_free_head q) 0)"

definition pop_free :: "virtqueue \<Rightarrow> (u16 \<times> virtqueue) option" where
  "pop_free q =
     (let d = vq_free_head q
      in if d = FREE_END then None
         else Some (d, q\<lparr>vq_free_head := vq_free_next q ! unat d\<rparr>))"

definition push_free :: "u16 \<Rightarrow> virtqueue \<Rightarrow> virtqueue" where
  "push_free d q =
     q\<lparr>vq_free_next := (vq_free_next q)[unat d := vq_free_head q], vq_free_head := d\<rparr>"

text \<open>Two descriptors per command: the command and its response. With only one left, it is put back.\<close>

definition pop_pair :: "virtqueue \<Rightarrow> virtqueue + (u16 \<times> u16 \<times> virtqueue)" where
  "pop_pair q =
     (case pop_free q of
        None \<Rightarrow> Inl q
      | Some (cmd_desc, q1) \<Rightarrow>
          (case pop_free q1 of
             None \<Rightarrow> Inl (push_free cmd_desc q1)
           | Some (resp_desc, q2) \<Rightarrow> Inr (cmd_desc, resp_desc, q2)))"

definition push_pair :: "u16 \<Rightarrow> u16 \<Rightarrow> virtqueue \<Rightarrow> virtqueue" where
  "push_pair cmd_desc resp_desc q = push_free cmd_desc (push_free resp_desc q)"

section \<open>Publishing a chain\<close>

definition fill_descs :: "u16 \<Rightarrow> u16 \<Rightarrow> u64 \<Rightarrow> nat \<Rightarrow> u64 \<Rightarrow> nat \<Rightarrow> virtqueue \<Rightarrow> virtqueue" where
  "fill_descs cmd_desc resp_desc cmd_phys cmd_len resp_phys resp_len q =
     q\<lparr>vq_mem := (vq_mem q)\<lparr>desc_tab := (desc_tab (vq_mem q))
         (cmd_desc := \<lparr>vd_addr = cmd_phys, vd_len = word_of_nat cmd_len,
                        vd_flags = VRING_DESC_F_NEXT, vd_next = resp_desc\<rparr>,
          resp_desc := \<lparr>vd_addr = resp_phys, vd_len = word_of_nat resp_len,
                         vd_flags = VRING_DESC_F_WRITE, vd_next = 0\<rparr>)\<rparr>\<rparr>"

definition push_avail :: "u16 \<Rightarrow> virtqueue \<Rightarrow> virtqueue" where
  "push_avail cmd_desc q =
     (let slot = vq_avail_idx q mod vq_size q
      in q\<lparr>vq_mem := (vq_mem q)\<lparr>avail_ring := (avail_ring (vq_mem q))(slot := cmd_desc),
                                  avail_flags_idx := vq_avail_idx q + 1\<rparr>,
           vq_avail_idx := vq_avail_idx q + 1\<rparr>)"

definition vq_drain :: "virtqueue \<Rightarrow> virtqueue" where
  "vq_drain q =
     (if vq_last_used q \<noteq> used_idx (vq_mem q)
      then q\<lparr>vq_last_used := used_idx (vq_mem q)\<rparr> else q)"

text \<open>What the device finds in the slot of the available ring that the last publication filled.\<close>

definition chain_cmd :: "vring_mem \<Rightarrow> u16 \<Rightarrow> bytes" where
  "chain_cmd m head = (let d = desc_tab m head in buf_read (unat (vd_len d)) (dma m (vd_addr d)))"

definition chain_resp :: "vring_mem \<Rightarrow> u16 \<Rightarrow> VRingDesc option" where
  "chain_resp m head =
     (let d = desc_tab m head
      in if vd_flags d AND VRING_DESC_F_NEXT = 0 then None
         else let r = desc_tab m (vd_next d)
              in if vd_flags r AND VRING_DESC_F_WRITE = 0 then None else Some r)"

section \<open>Lemmas on sizes and layout\<close>

lemma pow2_loop_pow: "\<exists>k. pow2_loop (2 ^ j) n = 2 ^ k"
proof (induction "(2::nat) ^ j" n arbitrary: j rule: pow2_loop.induct)
  case (1 n)
  show ?case
  proof (cases "2 ^ j * 2 \<le> n")
    case True
    then have "pow2_loop (2 ^ j) n = pow2_loop (2 ^ Suc j) n"
      by (subst pow2_loop.simps) (simp add: mult.commute)
    moreover have "\<exists>k. pow2_loop (2 ^ Suc j) n = 2 ^ k"
      using 1 [of "Suc j"] True by (simp add: mult.commute)
    ultimately show ?thesis by simp
  next
    case False
    then have "pow2_loop (2 ^ j) n = 2 ^ j"
      by (subst pow2_loop.simps) simp
    then show ?thesis by blast
  qed
qed

lemma pow2_loop_bounds:
  "0 < p \<Longrightarrow> p \<le> n \<Longrightarrow> pow2_loop p n \<le> n \<and> n < 2 * pow2_loop p n \<and> p \<le> pow2_loop p n"
proof (induction p n rule: pow2_loop.induct)
  case (1 p n)
  show ?case
  proof (cases "p * 2 \<le> n")
    case True
    with 1 show ?thesis by (subst (1 2 3) pow2_loop.simps) auto
  next
    case False
    with 1 show ?thesis by (subst (1 2 3) pow2_loop.simps) auto
  qed
qed

lemma unat_min_pos: "0 < (a :: u16) \<Longrightarrow> 0 < b \<Longrightarrow> 1 \<le> unat (min b a)"
  by (auto simp: min_def Suc_le_eq unat_gt_0 word_gt_0)

lemma clamp_qsize_min:
  "clamp_qsize limit offered = word_of_nat (pow2_loop 1 (unat (min limit offered)))"
proof -
  have "min limit offered = (if offered > limit then limit else offered)"
    by (auto simp: min_def)
  then show ?thesis by (simp only: clamp_qsize_def Let_def)
qed

lemma clamp_qsize_unat:
  assumes "0 < offered" "0 < limit"
  shows "unat (clamp_qsize limit offered) = pow2_loop 1 (unat (min limit offered))"
proof -
  let ?m = "min limit offered"
  have "1 \<le> unat ?m" using assms by (rule unat_min_pos)
  then have "pow2_loop 1 (unat ?m) \<le> unat ?m"
    using pow2_loop_bounds [of 1 "unat ?m"] by simp
  then have "pow2_loop 1 (unat ?m) < 2 ^ 16"
    using unat_bound16 [of ?m] by simp
  then show ?thesis
    by (simp add: clamp_qsize_min unat_of_nat)
qed

text \<open>Queue size negotiation: whatever non-zero size the device offers, the size written back is a
  power of two, at most the driver's limit (256 for the control queue, 16 for the cursor queue) and
  at most the offer, and it is the largest such power.\<close>

theorem clamp_qsize_largest_pow2:
  assumes "0 < offered" "0 < limit"
  shows "\<exists>k. unat (clamp_qsize limit offered) = 2 ^ k
             \<and> clamp_qsize limit offered \<le> limit
             \<and> clamp_qsize limit offered \<le> offered
             \<and> unat (min limit offered) < 2 ^ Suc k"
proof -
  let ?m = "min limit offered" and ?q = "clamp_qsize limit offered"
  have "1 \<le> unat ?m" using assms by (rule unat_min_pos)
  then have b: "pow2_loop 1 (unat ?m) \<le> unat ?m" "unat ?m < 2 * pow2_loop 1 (unat ?m)"
    using pow2_loop_bounds [of 1 "unat ?m"] by simp_all
  obtain k where k: "pow2_loop 1 (unat ?m) = 2 ^ k"
    using pow2_loop_pow [of 0 "unat ?m"] by auto
  have "?q \<le> ?m"
    using b(1) by (simp add: word_le_nat_alt clamp_qsize_unat [OF assms])
  then show ?thesis
    using b k clamp_qsize_unat [OF assms] by (intro exI [of _ k]) (auto simp: min_def split: if_splits)
qed

theorem clamp_qsize_largest_pow2_witness:
  "clamp_qsize 256 100 = 64 \<and>
   (\<exists>k. unat (clamp_qsize 256 (100 :: u16)) = 2 ^ k
        \<and> clamp_qsize 256 (100 :: u16) \<le> 256 \<and> clamp_qsize 256 (100 :: u16) \<le> 100
        \<and> unat (min 256 (100 :: u16)) < 2 ^ Suc k)"
proof (rule conjI)
  show "clamp_qsize 256 100 = 64"
    by (simp add: clamp_qsize_def pow2_loop.simps)
  show "\<exists>k. unat (clamp_qsize 256 (100 :: u16)) = 2 ^ k
        \<and> clamp_qsize 256 (100 :: u16) \<le> 256 \<and> clamp_qsize 256 (100 :: u16) \<le> 100
        \<and> unat (min 256 (100 :: u16)) < 2 ^ Suc k"
    by (rule clamp_qsize_largest_pow2) simp_all
qed

lemma clamp_qsize_cases:
  assumes "0 < offered" "0 < limit" "limit \<le> 256"
  shows "clamp_qsize limit offered \<in> {1, 2, 4, 8, 16, 32, 64, 128, 256}"
proof -
  let ?q = "clamp_qsize limit offered"
  obtain j where j: "pow2_loop 1 (unat (min limit offered)) = 2 ^ j"
    using pow2_loop_pow [of 0 "unat (min limit offered)"] by auto
  have "1 \<le> unat (min limit offered)"
    using assms(1,2) by (rule unat_min_pos)
  then have "2 ^ j \<le> unat (min limit offered)"
    using pow2_loop_bounds [of 1 "unat (min limit offered)"] j by simp
  also have "\<dots> \<le> 256"
    using assms(3) by (simp add: word_le_nat_alt min_def)
  finally have "(2::nat) ^ j \<le> 2 ^ 8" by simp
  then have "j \<le> 8" by (metis le_less_linear numeral_le_one_iff one_less_numeral_iff
        power_strict_increasing_iff semiring_norm(69) semiring_norm(76) not_less)
  then have "j \<in> {0, 1, 2, 3, 4, 5, 6, 7, 8}" by auto
  moreover have "?q = word_of_nat (2 ^ j)"
    by (simp only: clamp_qsize_min j)
  ultimately show ?thesis by auto
qed

text \<open>C8. Ring layout: for every size the negotiation can choose, the three rings lie in that order without
  overlap inside the allocation, each at the alignment the device requires (descriptors 16, available
  ring 2, used ring 4), with room for the event fields, and the allocation is a whole number of pages.\<close>

theorem layout_vring_disjoint:
  assumes "0 < offered" "0 < limit" "limit \<le> 256"
  shows "let q = clamp_qsize limit offered; L = layout_vring q in
           unat (desc_size L) = 16 * unat q
         \<and> desc_size L \<le> avail_offset L \<and> unat (avail_offset L) mod 2 = 0
         \<and> unat (avail_size L) = 6 + 2 * unat q
         \<and> unat (avail_offset L) + unat (avail_size L) \<le> unat (used_offset L)
         \<and> unat (used_offset L) mod 4 = 0
         \<and> unat (used_size L) = 6 + 8 * unat q
         \<and> unat (used_offset L) + unat (used_size L) \<le> unat (total_size L)
         \<and> unat (total_size L) mod 4096 = 0 \<and> unat (total_size L) \<le> 8192"
  using clamp_qsize_cases [OF assms]
  by (elim insertE; simp add: layout_vring_def Let_def)

theorem layout_vring_disjoint_witness:
  "let q = clamp_qsize 256 64; L = layout_vring q in
           unat (desc_size L) = 16 * unat q
         \<and> desc_size L \<le> avail_offset L \<and> unat (avail_offset L) mod 2 = 0
         \<and> unat (avail_size L) = 6 + 2 * unat q
         \<and> unat (avail_offset L) + unat (avail_size L) \<le> unat (used_offset L)
         \<and> unat (used_offset L) mod 4 = 0
         \<and> unat (used_size L) = 6 + 8 * unat q
         \<and> unat (used_offset L) + unat (used_size L) \<le> unat (total_size L)
         \<and> unat (total_size L) mod 4096 = 0 \<and> unat (total_size L) \<le> 8192"
  by (rule layout_vring_disjoint) simp_all

section \<open>The free list as a list\<close>

text \<open>\<open>fl_chain nxt h xs\<close>: following \<open>nxt\<close> from \<open>h\<close> visits exactly \<open>xs\<close> and ends at the end mark.\<close>

fun fl_chain :: "u16 list \<Rightarrow> u16 \<Rightarrow> u16 list \<Rightarrow> bool" where
  "fl_chain nxt h [] \<longleftrightarrow> h = FREE_END"
| "fl_chain nxt h (x # xs) \<longleftrightarrow>
     h = x \<and> x \<noteq> FREE_END \<and> unat x < length nxt \<and> fl_chain nxt (nxt ! unat x) xs"

definition vq_inv :: "u16 list \<Rightarrow> virtqueue \<Rightarrow> bool" where
  "vq_inv free q \<longleftrightarrow>
     length (vq_free_next q) = unat (vq_size q) \<and> 0 < vq_size q \<and> vq_size q \<le> 256
     \<and> distinct free \<and> fl_chain (vq_free_next q) (vq_free_head q) free"

lemma fl_chain_bound: "fl_chain nxt h xs \<Longrightarrow> x \<in> set xs \<Longrightarrow> unat x < length nxt \<and> x \<noteq> FREE_END"
  by (induction xs arbitrary: h) auto

lemma length_init_free_next [simp]: "length (init_free_next q) = unat q"
  by (simp add: init_free_next_def)

lemma fl_chain_init_from:
  assumes "unat q \<le> 256" "k \<le> unat q"
  shows "fl_chain (init_free_next q) (if k < unat q then word_of_nat k else FREE_END)
           (map word_of_nat [k..<unat q])"
  using assms(2)
proof (induction "unat q - k" arbitrary: k)
  case 0
  then show ?case by simp
next
  case (Suc n)
  then have lt: "k < unat q" and n: "n = unat q - Suc k" and le: "Suc k \<le> unat q" by linarith+
  have uk: "unat (word_of_nat k :: u16) = k"
    using lt assms(1) by (simp add: unat_of_nat)
  then have "(word_of_nat k :: u16) \<noteq> FREE_END"
    using lt assms(1) by (auto simp: word_unat_eq_iff)
  moreover have "init_free_next q ! k = (if Suc k < unat q then word_of_nat (Suc k) else FREE_END)"
    using lt by (simp add: init_free_next_def)
  ultimately show ?case
    using Suc.hyps(1) [OF n le] lt uk by (simp add: upt_conv_Cons)
qed

lemma depth_walk_chain:
  assumes "length nxt = unat q"
  shows "fl_chain nxt h xs \<Longrightarrow> d + length xs \<le> unat q \<Longrightarrow> depth_walk nxt q h d = d + length xs"
proof (induction xs arbitrary: h d)
  case Nil
  then show ?case by (subst depth_walk.simps) simp
next
  case (Cons x xs)
  then have "h < q" using assms by (simp add: word_less_nat_alt)
  with Cons show ?case by (subst depth_walk.simps) simp
qed

lemma fl_chain_length:
  assumes "vq_inv free q"
  shows "length free \<le> unat (vq_size q)"
proof -
  have "unat ` set free \<subseteq> {..<unat (vq_size q)}"
    using assms fl_chain_bound by (fastforce simp: vq_inv_def)
  then have "card (unat ` set free) \<le> card {..<unat (vq_size q)}"
    by (rule card_mono [rotated]) simp
  moreover have "card (unat ` set free) = length free"
    using assms by (subst card_image) (auto simp: distinct_card vq_inv_def inj_on_def word_unat_eq_iff)
  ultimately show ?thesis by simp
qed

lemma free_depth: "vq_inv free q \<Longrightarrow> vringFreeDepth q = length free"
  using depth_walk_chain [of "vq_free_next q" "vq_size q" "vq_free_head q" free 0]
    fl_chain_length [of free q]
  by (auto simp: vringFreeDepth_def vq_inv_def word_gt_0)

text \<open>The depth the diagnostic walk reports is the number of free descriptors: for every
  queue whose free list is well formed the walk ends and counts it exactly.\<close>

theorem vringFreeDepth_counts:
  assumes "vq_inv free q"
  shows "vringFreeDepth q = length free"
  using assms by (rule free_depth)

theorem vringFreeDepth_counts_witness:
  "vringFreeDepth \<lparr>vq_initialized = True, vq_mapped = True, vq_size = 4, vq_free_head = 0,
     vq_free_next = init_free_next 4, vq_last_used = 0, vq_avail_idx = 0,
     vq_mem = \<lparr>desc_tab = (\<lambda>_. zero_desc), avail_flags_idx = 0, avail_ring = (\<lambda>_. 0), used_idx = 0,
                used_ring = (\<lambda>_. zero_used_elem), dma = (\<lambda>_. [])\<rparr>,
     vq_cmd_buf = None, vq_resp_buf = None\<rparr> = length [0 :: u16, 1, 2, 3]"
  by (rule vringFreeDepth_counts)
    (simp add: vq_inv_def init_free_next_def upt_rec_numeral)

lemma init_free_chain:
  assumes "0 < q" "q \<le> 256"
  shows "fl_chain (init_free_next q) 0 (map word_of_nat [0..<unat q])"
  using fl_chain_init_from [of q 0] assms by (simp add: word_le_nat_alt unat_gt_0 word_gt_0)

lemma distinct_init_free:
  assumes "q \<le> (256 :: u16)"
  shows "distinct (map (word_of_nat :: nat \<Rightarrow> u16) [0..<unat q])"
proof -
  have "inj_on (word_of_nat :: nat \<Rightarrow> u16) {0..<unat q}"
    using assms unat_bound16 [of q]
    by (auto simp: inj_on_def word_of_nat_eq_iff take_bit_nat_eq_self word_le_nat_alt)
  then show ?thesis by (simp add: distinct_map)
qed

section \<open>Popping and returning descriptors\<close>

lemma push_pair_pop_pair:
  assumes "pop_pair q = Inr (c, r, q2)"
    and "vq_free_head q3 = vq_free_head q2" "vq_free_next q3 = vq_free_next q2"
  shows "vq_free_head (push_pair c r q3) = vq_free_head q"
    and "vq_free_next (push_pair c r q3) = vq_free_next q"
  using assms by (auto simp: pop_pair_def pop_free_def push_pair_def push_free_def Let_def
      split: if_splits option.splits prod.splits)

lemma pop_pair_none:
  assumes "pop_pair q = Inl q1"
  shows "q1 = q"
  using assms by (auto simp: pop_pair_def pop_free_def push_free_def Let_def list_update_unchanged
      split: if_splits option.splits prod.splits)

lemma pop_pair_other:
  assumes "pop_pair q = Inr (c, r, q2)"
  shows "q2 = q\<lparr>vq_free_head := vq_free_head q2\<rparr>" "vq_free_next q2 = vq_free_next q"
  using assms by (auto simp: pop_pair_def pop_free_def Let_def
      split: if_splits option.splits prod.splits)

lemma pop_pair_bufs:
  assumes "pop_pair q = Inr (c, r, q2)"
  shows "vq_cmd_buf q2 = vq_cmd_buf q" "vq_resp_buf q2 = vq_resp_buf q" "vq_size q2 = vq_size q"
    "vq_mem q2 = vq_mem q" "vq_last_used q2 = vq_last_used q" "vq_avail_idx q2 = vq_avail_idx q"
    "vq_initialized q2 = vq_initialized q" "vq_mapped q2 = vq_mapped q"
  using assms by (auto simp: pop_pair_def pop_free_def Let_def
      split: if_splits option.splits prod.splits)

lemma pop_pair_inv:
  assumes "vq_inv (c # r # free) q"
  shows "\<exists>q2. pop_pair q = Inr (c, r, q2) \<and> vq_inv free q2"
  using assms by (auto simp: vq_inv_def pop_pair_def pop_free_def Let_def)

lemma pop_pair_short:
  assumes "vq_inv free q" "length free < 2"
  shows "pop_pair q = Inl q"
  using assms
  by (cases free; cases "tl free")
    (auto simp: vq_inv_def pop_pair_def pop_free_def push_free_def Let_def list_update_unchanged)

lemma pop_pair_inv_rev:
  assumes "vq_inv free q" "pop_pair q = Inr (c, r, q2)"
  shows "\<exists>rest. free = c # r # rest"
  using assms
  by (cases free; cases "tl free")
    (auto simp: vq_inv_def pop_pair_def pop_free_def Let_def split: if_splits)

end
