(* ===== verification/Wire.thy ===== *)
theory Wire
  imports Prelude
begin

text \<open>
  The virtio-gpu wire protocol of \<^verbatim>\<open>FB/virtio_gpu.h\<close>: the control types, the command header, the
  command structures and their memory layout (x86, little-endian, no padding beyond the
  declared padding fields). \<open>wire_encode\<close> lays a command out exactly as the structures do;
  \<open>wire_decode\<close> is how a device that follows the header file reads it back.
\<close>

section \<open>Control types\<close>

datatype virtio_gpu_ctrl_type =
    VIRTIO_GPU_CMD_GET_DISPLAY_INFO
  | VIRTIO_GPU_CMD_RESOURCE_CREATE_2D
  | VIRTIO_GPU_CMD_RESOURCE_UNREF
  | VIRTIO_GPU_CMD_SET_SCANOUT
  | VIRTIO_GPU_CMD_RESOURCE_FLUSH
  | VIRTIO_GPU_CMD_TRANSFER_TO_HOST_2D
  | VIRTIO_GPU_CMD_RESOURCE_ATTACH_BACKING
  | VIRTIO_GPU_CMD_RESOURCE_DETACH_BACKING
  | VIRTIO_GPU_CMD_GET_CAPSET_INFO
  | VIRTIO_GPU_CMD_GET_CAPSET
  | VIRTIO_GPU_CMD_GET_EDID
  | VIRTIO_GPU_CMD_RESOURCE_ASSIGN_UUID
  | VIRTIO_GPU_CMD_RESOURCE_CREATE_BLOB
  | VIRTIO_GPU_CMD_SET_SCANOUT_BLOB
  | VIRTIO_GPU_CMD_CTX_CREATE
  | VIRTIO_GPU_CMD_CTX_DESTROY
  | VIRTIO_GPU_CMD_CTX_ATTACH_RESOURCE
  | VIRTIO_GPU_CMD_CTX_DETACH_RESOURCE
  | VIRTIO_GPU_CMD_RESOURCE_CREATE_3D
  | VIRTIO_GPU_CMD_TRANSFER_TO_HOST_3D
  | VIRTIO_GPU_CMD_TRANSFER_FROM_HOST_3D
  | VIRTIO_GPU_CMD_SUBMIT_3D
  | VIRTIO_GPU_CMD_RESOURCE_MAP_BLOB
  | VIRTIO_GPU_CMD_RESOURCE_UNMAP_BLOB
  | VIRTIO_GPU_CMD_UPDATE_CURSOR
  | VIRTIO_GPU_CMD_MOVE_CURSOR
  | VIRTIO_GPU_RESP_OK_NODATA
  | VIRTIO_GPU_RESP_OK_DISPLAY_INFO
  | VIRTIO_GPU_RESP_OK_CAPSET_INFO
  | VIRTIO_GPU_RESP_OK_CAPSET
  | VIRTIO_GPU_RESP_OK_EDID
  | VIRTIO_GPU_RESP_OK_RESOURCE_UUID
  | VIRTIO_GPU_RESP_OK_MAP_INFO
  | VIRTIO_GPU_RESP_ERR_UNSPEC
  | VIRTIO_GPU_RESP_ERR_OUT_OF_MEMORY
  | VIRTIO_GPU_RESP_ERR_INVALID_SCANOUT_ID
  | VIRTIO_GPU_RESP_ERR_INVALID_RESOURCE_ID
  | VIRTIO_GPU_RESP_ERR_INVALID_CONTEXT_ID
  | VIRTIO_GPU_RESP_ERR_INVALID_PARAMETER

fun ctrl_code :: "virtio_gpu_ctrl_type \<Rightarrow> u32" where
  "ctrl_code VIRTIO_GPU_CMD_GET_DISPLAY_INFO = 0x0100"
| "ctrl_code VIRTIO_GPU_CMD_RESOURCE_CREATE_2D = 0x0101"
| "ctrl_code VIRTIO_GPU_CMD_RESOURCE_UNREF = 0x0102"
| "ctrl_code VIRTIO_GPU_CMD_SET_SCANOUT = 0x0103"
| "ctrl_code VIRTIO_GPU_CMD_RESOURCE_FLUSH = 0x0104"
| "ctrl_code VIRTIO_GPU_CMD_TRANSFER_TO_HOST_2D = 0x0105"
| "ctrl_code VIRTIO_GPU_CMD_RESOURCE_ATTACH_BACKING = 0x0106"
| "ctrl_code VIRTIO_GPU_CMD_RESOURCE_DETACH_BACKING = 0x0107"
| "ctrl_code VIRTIO_GPU_CMD_GET_CAPSET_INFO = 0x0108"
| "ctrl_code VIRTIO_GPU_CMD_GET_CAPSET = 0x0109"
| "ctrl_code VIRTIO_GPU_CMD_GET_EDID = 0x010a"
| "ctrl_code VIRTIO_GPU_CMD_RESOURCE_ASSIGN_UUID = 0x010b"
| "ctrl_code VIRTIO_GPU_CMD_RESOURCE_CREATE_BLOB = 0x010c"
| "ctrl_code VIRTIO_GPU_CMD_SET_SCANOUT_BLOB = 0x010d"
| "ctrl_code VIRTIO_GPU_CMD_CTX_CREATE = 0x0200"
| "ctrl_code VIRTIO_GPU_CMD_CTX_DESTROY = 0x0201"
| "ctrl_code VIRTIO_GPU_CMD_CTX_ATTACH_RESOURCE = 0x0202"
| "ctrl_code VIRTIO_GPU_CMD_CTX_DETACH_RESOURCE = 0x0203"
| "ctrl_code VIRTIO_GPU_CMD_RESOURCE_CREATE_3D = 0x0204"
| "ctrl_code VIRTIO_GPU_CMD_TRANSFER_TO_HOST_3D = 0x0205"
| "ctrl_code VIRTIO_GPU_CMD_TRANSFER_FROM_HOST_3D = 0x0206"
| "ctrl_code VIRTIO_GPU_CMD_SUBMIT_3D = 0x0207"
| "ctrl_code VIRTIO_GPU_CMD_RESOURCE_MAP_BLOB = 0x0208"
| "ctrl_code VIRTIO_GPU_CMD_RESOURCE_UNMAP_BLOB = 0x0209"
| "ctrl_code VIRTIO_GPU_CMD_UPDATE_CURSOR = 0x0300"
| "ctrl_code VIRTIO_GPU_CMD_MOVE_CURSOR = 0x0301"
| "ctrl_code VIRTIO_GPU_RESP_OK_NODATA = 0x1100"
| "ctrl_code VIRTIO_GPU_RESP_OK_DISPLAY_INFO = 0x1101"
| "ctrl_code VIRTIO_GPU_RESP_OK_CAPSET_INFO = 0x1102"
| "ctrl_code VIRTIO_GPU_RESP_OK_CAPSET = 0x1103"
| "ctrl_code VIRTIO_GPU_RESP_OK_EDID = 0x1104"
| "ctrl_code VIRTIO_GPU_RESP_OK_RESOURCE_UUID = 0x1105"
| "ctrl_code VIRTIO_GPU_RESP_OK_MAP_INFO = 0x1106"
| "ctrl_code VIRTIO_GPU_RESP_ERR_UNSPEC = 0x1200"
| "ctrl_code VIRTIO_GPU_RESP_ERR_OUT_OF_MEMORY = 0x1201"
| "ctrl_code VIRTIO_GPU_RESP_ERR_INVALID_SCANOUT_ID = 0x1202"
| "ctrl_code VIRTIO_GPU_RESP_ERR_INVALID_RESOURCE_ID = 0x1203"
| "ctrl_code VIRTIO_GPU_RESP_ERR_INVALID_CONTEXT_ID = 0x1204"
| "ctrl_code VIRTIO_GPU_RESP_ERR_INVALID_PARAMETER = 0x1205"

abbreviation (input) VIRTIO_GPU_FLAG_FENCE :: u32 where "VIRTIO_GPU_FLAG_FENCE \<equiv> 1"
abbreviation (input) VIRTIO_GPU_FLAG_INFO_RING_IDX :: u32 where "VIRTIO_GPU_FLAG_INFO_RING_IDX \<equiv> 2"
abbreviation (input) VIRTIO_GPU_FORMAT_B8G8R8A8_UNORM :: u32 where "VIRTIO_GPU_FORMAT_B8G8R8A8_UNORM \<equiv> 1"
abbreviation (input) VIRTIO_GPU_RESOURCE_TARGET_2D :: u32 where "VIRTIO_GPU_RESOURCE_TARGET_2D \<equiv> 1"

section \<open>Structures\<close>

record virtio_gpu_ctrl_hdr =
  hdr_type :: u32
  hdr_flags :: u32
  hdr_fence_id :: u64
  hdr_ctx_id :: u32
  hdr_ring_idx :: u8
  hdr_padding :: "u8 \<times> u8 \<times> u8"

record virtio_gpu_rect =
  rect_x :: u32
  rect_y :: u32
  rect_width :: u32
  rect_height :: u32

record virtio_gpu_box =
  box_x :: u32
  box_y :: u32
  box_z :: u32
  box_w :: u32
  box_h :: u32
  box_d :: u32

record virtio_gpu_mem_entry =
  me_addr :: u64
  me_length :: u32
  me_padding :: u32

record virtio_gpu_cursor_pos =
  cp_scanout_id :: u32
  cp_x :: u32
  cp_y :: u32
  cp_padding :: u32

text \<open>
  What follows the header, one constructor per command structure; the arguments are the fields
  in the order of the structure, without the final \<open>padding\<close> where every sender zeroes it.
  \<open>Resource_attach_backing\<close> and \<open>Cmd_submit\<close> carry their variable-length tail.
\<close>

datatype gpu_body =
    Hdr_only
  | Resource_create_2d u32 u32 u32 u32
  | Resource_create_3d u32 u32 u32 u32 u32 u32 u32 u32 u32 u32 u32
  | Resource_unref u32
  | Set_scanout virtio_gpu_rect u32 u32
  | Resource_flush virtio_gpu_rect u32
  | Transfer_to_host_2d virtio_gpu_rect u64 u32
  | Transfer_host_3d virtio_gpu_box u64 u32 u32 u32 u32
  | Resource_attach_backing u32 u32 "virtio_gpu_mem_entry list"
  | Resource_detach_backing u32
  | Ctx_create u32 u32 bytes
  | Ctx_destroy
  | Ctx_resource u32
  | Cmd_submit u32 u32 bytes
  | Get_capset_info u32
  | Get_capset u32 u32
  | Update_cursor virtio_gpu_cursor_pos u32 u32 u32

abbreviation (input) sizeof_hdr :: nat where "sizeof_hdr \<equiv> 24"

section \<open>Layout\<close>

definition enc_hdr :: "virtio_gpu_ctrl_hdr \<Rightarrow> bytes" where
  "enc_hdr h = le32 (hdr_type h) @ le32 (hdr_flags h) @ le64 (hdr_fence_id h) @ le32 (hdr_ctx_id h)
     @ [hdr_ring_idx h] @ (case hdr_padding h of (a, b, c) \<Rightarrow> [a, b, c])"

definition enc_rect :: "virtio_gpu_rect \<Rightarrow> bytes" where
  "enc_rect r = le32 (rect_x r) @ le32 (rect_y r) @ le32 (rect_width r) @ le32 (rect_height r)"

definition enc_box :: "virtio_gpu_box \<Rightarrow> bytes" where
  "enc_box b = le32 (box_x b) @ le32 (box_y b) @ le32 (box_z b)
     @ le32 (box_w b) @ le32 (box_h b) @ le32 (box_d b)"

definition enc_mem_entry :: "virtio_gpu_mem_entry \<Rightarrow> bytes" where
  "enc_mem_entry e = le64 (me_addr e) @ le32 (me_length e) @ le32 (me_padding e)"

definition enc_cursor_pos :: "virtio_gpu_cursor_pos \<Rightarrow> bytes" where
  "enc_cursor_pos p = le32 (cp_scanout_id p) @ le32 (cp_x p) @ le32 (cp_y p) @ le32 (cp_padding p)"

fun enc_body :: "gpu_body \<Rightarrow> bytes" where
  "enc_body Hdr_only = []"
| "enc_body (Resource_create_2d res fmt w h) = le32 res @ le32 fmt @ le32 w @ le32 h"
| "enc_body (Resource_create_3d res target fmt bnd w h d arr lst nr fl) =
     le32 res @ le32 target @ le32 fmt @ le32 bnd @ le32 w @ le32 h @ le32 d
     @ le32 arr @ le32 lst @ le32 nr @ le32 fl @ le32 0"
| "enc_body (Resource_unref res) = le32 res @ le32 0"
| "enc_body (Set_scanout r scanout res) = enc_rect r @ le32 scanout @ le32 res"
| "enc_body (Resource_flush r res) = enc_rect r @ le32 res @ le32 0"
| "enc_body (Transfer_to_host_2d r off res) = enc_rect r @ le64 off @ le32 res @ le32 0"
| "enc_body (Transfer_host_3d b off res level stride layer) =
     enc_box b @ le64 off @ le32 res @ le32 level @ le32 stride @ le32 layer"
| "enc_body (Resource_attach_backing res nr es) =
     le32 res @ le32 nr @ concat (map enc_mem_entry es)"
| "enc_body (Resource_detach_backing res) = le32 res @ le32 0"
| "enc_body (Ctx_create nlen ctxinit name) = le32 nlen @ le32 ctxinit @ name"
| "enc_body Ctx_destroy = []"
| "enc_body (Ctx_resource res) = le32 res @ le32 0"
| "enc_body (Cmd_submit sz pad payload) = le32 sz @ le32 pad @ payload"
| "enc_body (Get_capset_info index) = le32 index @ le32 0"
| "enc_body (Get_capset cid version) = le32 cid @ le32 version"
| "enc_body (Update_cursor pos res hx hy) =
     enc_cursor_pos pos @ le32 res @ le32 hx @ le32 hy @ le32 0"

definition wire_encode :: "virtio_gpu_ctrl_hdr \<Rightarrow> gpu_body \<Rightarrow> bytes" where
  "wire_encode h b = enc_hdr h @ enc_body b"

text \<open>The header of a zero-initialised command (\<^verbatim>\<open>cmd = {}\<close>) with its type and context set.\<close>

definition mk_hdr :: "virtio_gpu_ctrl_type \<Rightarrow> u32 \<Rightarrow> virtio_gpu_ctrl_hdr" where
  "mk_hdr t ctx = \<lparr>hdr_type = ctrl_code t, hdr_flags = 0, hdr_fence_id = 0, hdr_ctx_id = ctx,
                    hdr_ring_idx = 0, hdr_padding = (0, 0, 0)\<rparr>"

definition mk_rect :: "u32 \<Rightarrow> u32 \<Rightarrow> u32 \<Rightarrow> u32 \<Rightarrow> virtio_gpu_rect" where
  "mk_rect x y w h = \<lparr>rect_x = x, rect_y = y, rect_width = w, rect_height = h\<rparr>"

definition mk_box :: "u32 \<Rightarrow> u32 \<Rightarrow> u32 \<Rightarrow> u32 \<Rightarrow> u32 \<Rightarrow> u32 \<Rightarrow> virtio_gpu_box" where
  "mk_box x y z w h d =
     \<lparr>box_x = x, box_y = y, box_z = z, box_w = w, box_h = h, box_d = d\<rparr>"

section \<open>Reading a command\<close>

definition dec_hdr :: "bytes \<Rightarrow> virtio_gpu_ctrl_hdr" where
  "dec_hdr bs = \<lparr>hdr_type = rd32 bs, hdr_flags = rd32 (drop 4 bs), hdr_fence_id = rd64 (drop 8 bs),
     hdr_ctx_id = rd32 (drop 16 bs), hdr_ring_idx = bs ! 20,
     hdr_padding = (bs ! 21, bs ! 22, bs ! 23)\<rparr>"

definition dec_rect :: "bytes \<Rightarrow> virtio_gpu_rect" where
  "dec_rect bs = mk_rect (rd32 bs) (rd32 (drop 4 bs)) (rd32 (drop 8 bs)) (rd32 (drop 12 bs))"

definition dec_box :: "bytes \<Rightarrow> virtio_gpu_box" where
  "dec_box bs = mk_box (rd32 bs) (rd32 (drop 4 bs)) (rd32 (drop 8 bs))
     (rd32 (drop 12 bs)) (rd32 (drop 16 bs)) (rd32 (drop 20 bs))"

definition dec_mem_entry :: "bytes \<Rightarrow> virtio_gpu_mem_entry" where
  "dec_mem_entry bs =
     \<lparr>me_addr = rd64 bs, me_length = rd32 (drop 8 bs), me_padding = rd32 (drop 12 bs)\<rparr>"

definition dec_cursor_pos :: "bytes \<Rightarrow> virtio_gpu_cursor_pos" where
  "dec_cursor_pos bs = \<lparr>cp_scanout_id = rd32 bs, cp_x = rd32 (drop 4 bs), cp_y = rd32 (drop 8 bs),
     cp_padding = rd32 (drop 12 bs)\<rparr>"

fun dec_entries :: "nat \<Rightarrow> bytes \<Rightarrow> virtio_gpu_mem_entry list" where
  "dec_entries 0 bs = []"
| "dec_entries (Suc n) bs = dec_mem_entry bs # dec_entries n (drop 16 bs)"

text \<open>
  The device selects the structure by the header's type. A command whose length is not that of its
  structure, or whose type is none of the command types the driver uses, is rejected.
\<close>

definition dec_body :: "u32 \<Rightarrow> bytes \<Rightarrow> gpu_body option" where
  "dec_body t bs =
    (let n = length bs; f = (\<lambda>k. rd32 (drop (4 * k) bs)) in
     if t = ctrl_code VIRTIO_GPU_CMD_RESOURCE_CREATE_2D \<and> n = 16
       then Some (Resource_create_2d (f 0) (f 1) (f 2) (f 3))
     else if t = ctrl_code VIRTIO_GPU_CMD_RESOURCE_CREATE_3D \<and> n = 48
       then Some (Resource_create_3d (f 0) (f 1) (f 2) (f 3) (f 4) (f 5) (f 6) (f 7) (f 8) (f 9) (f 10))
     else if t = ctrl_code VIRTIO_GPU_CMD_RESOURCE_UNREF \<and> n = 8 then Some (Resource_unref (f 0))
     else if t = ctrl_code VIRTIO_GPU_CMD_SET_SCANOUT \<and> n = 24
       then Some (Set_scanout (dec_rect bs) (f 4) (f 5))
     else if t = ctrl_code VIRTIO_GPU_CMD_RESOURCE_FLUSH \<and> n = 24
       then Some (Resource_flush (dec_rect bs) (f 4))
     else if t = ctrl_code VIRTIO_GPU_CMD_TRANSFER_TO_HOST_2D \<and> n = 32
       then Some (Transfer_to_host_2d (dec_rect bs) (rd64 (drop 16 bs)) (f 6))
     else if (t = ctrl_code VIRTIO_GPU_CMD_TRANSFER_TO_HOST_3D
              \<or> t = ctrl_code VIRTIO_GPU_CMD_TRANSFER_FROM_HOST_3D) \<and> n = 48
       then Some (Transfer_host_3d (dec_box bs) (rd64 (drop 24 bs)) (f 8) (f 9) (f 10) (f 11))
     else if t = ctrl_code VIRTIO_GPU_CMD_RESOURCE_ATTACH_BACKING \<and> n = 8 + 16 * unat (f 1)
       then Some (Resource_attach_backing (f 0) (f 1) (dec_entries (unat (f 1)) (drop 8 bs)))
     else if t = ctrl_code VIRTIO_GPU_CMD_RESOURCE_DETACH_BACKING \<and> n = 8
       then Some (Resource_detach_backing (f 0))
     else if t = ctrl_code VIRTIO_GPU_CMD_CTX_CREATE \<and> n = 72
       then Some (Ctx_create (f 0) (f 1) (drop 8 bs))
     else if t = ctrl_code VIRTIO_GPU_CMD_CTX_DESTROY \<and> n = 0 then Some Ctx_destroy
     else if (t = ctrl_code VIRTIO_GPU_CMD_CTX_ATTACH_RESOURCE
              \<or> t = ctrl_code VIRTIO_GPU_CMD_CTX_DETACH_RESOURCE) \<and> n = 8 then Some (Ctx_resource (f 0))
     else if t = ctrl_code VIRTIO_GPU_CMD_SUBMIT_3D \<and> n = 8 + unat (f 0)
       then Some (Cmd_submit (f 0) (f 1) (drop 8 bs))
     else if t = ctrl_code VIRTIO_GPU_CMD_GET_CAPSET_INFO \<and> n = 8 then Some (Get_capset_info (f 0))
     else if t = ctrl_code VIRTIO_GPU_CMD_GET_CAPSET \<and> n = 8 then Some (Get_capset (f 0) (f 1))
     else if (t = ctrl_code VIRTIO_GPU_CMD_UPDATE_CURSOR \<or> t = ctrl_code VIRTIO_GPU_CMD_MOVE_CURSOR)
              \<and> n = 32
       then Some (Update_cursor (dec_cursor_pos bs) (f 4) (f 5) (f 6))
     else None)"

definition wire_decode :: "bytes \<Rightarrow> (virtio_gpu_ctrl_hdr \<times> gpu_body) option" where
  "wire_decode bs = (if length bs < sizeof_hdr then None
     else map_option (Pair (dec_hdr bs)) (dec_body (rd32 bs) (drop sizeof_hdr bs)))"

text \<open>
  The types each structure belongs to, and its variable-length tails. \<open>Hdr_only\<close>, the bare header that
  \<^verbatim>\<open>flushCommands\<close> sends with the type of a resource detach, belongs to none: the header file gives that
  type eight more bytes. (A context is destroyed by a structure that is just a header, \<open>Ctx_destroy\<close>.)
\<close>

fun body_ok :: "u32 \<Rightarrow> gpu_body \<Rightarrow> bool" where
  "body_ok t Hdr_only = False"
| "body_ok t (Resource_create_2d _ _ _ _) = (t = ctrl_code VIRTIO_GPU_CMD_RESOURCE_CREATE_2D)"
| "body_ok t (Resource_create_3d _ _ _ _ _ _ _ _ _ _ _) =
     (t = ctrl_code VIRTIO_GPU_CMD_RESOURCE_CREATE_3D)"
| "body_ok t (Resource_unref _) = (t = ctrl_code VIRTIO_GPU_CMD_RESOURCE_UNREF)"
| "body_ok t (Set_scanout _ _ _) = (t = ctrl_code VIRTIO_GPU_CMD_SET_SCANOUT)"
| "body_ok t (Resource_flush _ _) = (t = ctrl_code VIRTIO_GPU_CMD_RESOURCE_FLUSH)"
| "body_ok t (Transfer_to_host_2d _ _ _) = (t = ctrl_code VIRTIO_GPU_CMD_TRANSFER_TO_HOST_2D)"
| "body_ok t (Transfer_host_3d _ _ _ _ _ _) =
     (t = ctrl_code VIRTIO_GPU_CMD_TRANSFER_TO_HOST_3D
      \<or> t = ctrl_code VIRTIO_GPU_CMD_TRANSFER_FROM_HOST_3D)"
| "body_ok t (Resource_attach_backing _ nr es) =
     (t = ctrl_code VIRTIO_GPU_CMD_RESOURCE_ATTACH_BACKING \<and> length es = unat nr)"
| "body_ok t (Resource_detach_backing _) = (t = ctrl_code VIRTIO_GPU_CMD_RESOURCE_DETACH_BACKING)"
| "body_ok t (Ctx_create _ _ name) = (t = ctrl_code VIRTIO_GPU_CMD_CTX_CREATE \<and> length name = 64)"
| "body_ok t Ctx_destroy = (t = ctrl_code VIRTIO_GPU_CMD_CTX_DESTROY)"
| "body_ok t (Ctx_resource _) =
     (t = ctrl_code VIRTIO_GPU_CMD_CTX_ATTACH_RESOURCE \<or> t = ctrl_code VIRTIO_GPU_CMD_CTX_DETACH_RESOURCE)"
| "body_ok t (Cmd_submit sz _ payload) =
     (t = ctrl_code VIRTIO_GPU_CMD_SUBMIT_3D \<and> length payload = unat sz)"
| "body_ok t (Get_capset_info _) = (t = ctrl_code VIRTIO_GPU_CMD_GET_CAPSET_INFO)"
| "body_ok t (Get_capset _ _) = (t = ctrl_code VIRTIO_GPU_CMD_GET_CAPSET)"
| "body_ok t (Update_cursor _ _ _ _) =
     (t = ctrl_code VIRTIO_GPU_CMD_UPDATE_CURSOR \<or> t = ctrl_code VIRTIO_GPU_CMD_MOVE_CURSOR)"

section \<open>Sizes\<close>

lemma length_enc_hdr [simp, wire_simps]: "length (enc_hdr h) = 24"
  by (cases "hdr_padding h") (simp add: enc_hdr_def)

lemma length_enc_rect [simp, wire_simps]: "length (enc_rect r) = 16"
  by (simp add: enc_rect_def)

lemma length_enc_box [simp, wire_simps]: "length (enc_box b) = 24"
  by (simp add: enc_box_def)

lemma length_enc_mem_entry [simp, wire_simps]: "length (enc_mem_entry e) = 16"
  by (simp add: enc_mem_entry_def)

lemma length_enc_cursor_pos [simp, wire_simps]: "length (enc_cursor_pos p) = 16"
  by (simp add: enc_cursor_pos_def)

lemma length_enc_entries [simp, wire_simps]:
  "length (concat (map enc_mem_entry es)) = 16 * length es"
  by (induction es) auto

lemma length_wire_encode: "length (wire_encode h b) = 24 + length (enc_body b)"
  by (simp add: wire_encode_def)

lemma wire_encode_hdr_size: "24 \<le> length (wire_encode h b)"
  by (simp add: length_wire_encode)

lemma rd32_wire_encode [simp, wire_simps]: "rd32 (wire_encode h b) = hdr_type h"
  by (simp add: wire_encode_def enc_hdr_def)

section \<open>Round trip\<close>

lemma drop_le32 [simp]: "drop 4 (le32 w @ bs) = bs" "drop 4 (le32 w) = []"
  by simp_all

lemma dec_enc_hdr [simp]: "dec_hdr (enc_hdr h @ bs) = h"
proof -
  obtain a b c where p: "hdr_padding h = (a, b, c)" by (cases "hdr_padding h")
  show ?thesis
    by (simp add: dec_hdr_def enc_hdr_def p nth_append)
qed

lemma dec_enc_rect [simp]: "dec_rect (enc_rect r @ bs) = r"
  by (simp add: dec_rect_def enc_rect_def mk_rect_def)

lemma dec_enc_box [simp]: "dec_box (enc_box b @ bs) = b"
  by (simp add: dec_box_def enc_box_def mk_box_def)

lemma dec_enc_mem_entry [simp]: "dec_mem_entry (enc_mem_entry e @ bs) = e"
  by (simp add: dec_mem_entry_def enc_mem_entry_def)

lemma dec_enc_cursor_pos [simp]: "dec_cursor_pos (enc_cursor_pos p @ bs) = p"
  by (simp add: dec_cursor_pos_def enc_cursor_pos_def)

lemma dec_enc_entries [simp]: "dec_entries (length es) (concat (map enc_mem_entry es)) = es"
  by (induction es) auto

lemma rd32_le32_end [simp]: "rd32 (le32 w) = w"
  using rd32_le32 [of w "[]"] by simp

lemma dec_enc_ends [simp]:
  "dec_rect (enc_rect r) = r" "dec_box (enc_box b) = b" "dec_cursor_pos (enc_cursor_pos p) = p"
  using dec_enc_rect [of r "[]"] dec_enc_box [of b "[]"] dec_enc_cursor_pos [of p "[]"]
  by simp_all

lemma dec_enc_entries_eq:
  "n = length es \<Longrightarrow> dec_entries n (concat (map enc_mem_entry es)) = es"
  by simp

lemma dec_enc_body: "body_ok t b \<Longrightarrow> dec_body t (enc_body b) = Some b"
  by (cases b) (auto simp: dec_body_def Let_def dec_enc_entries_eq)

lemma wire_dec_enc: "body_ok (hdr_type h) b \<Longrightarrow> wire_decode (wire_encode h b) = Some (h, b)"
  using dec_enc_body [of "hdr_type h" b] rd32_wire_encode [of h b]
  by (simp add: wire_decode_def wire_encode_def)

lemma if_SomeE:
  "(if c then Some x else r) = Some b \<Longrightarrow> (c \<Longrightarrow> b = x \<Longrightarrow> P) \<Longrightarrow> (r = Some b \<Longrightarrow> P) \<Longrightarrow> P"
  by (metis option.inject)

lemma length_dec_entries [simp]: "length (dec_entries n bs) = n"
  by (induction n arbitrary: bs) auto

lemma dec_body_ok: "dec_body t bs = Some b \<Longrightarrow> body_ok t b"
  unfolding dec_body_def Let_def
  by (elim if_SomeE conjE; simp only: body_ok.simps length_dec_entries length_drop option.distinct; simp)

text \<open>C9. Wire round trip: for every header and every structure of the protocol, a device that reads commands
  by the structures of the header file reads back exactly the header and the fields that were put in, the
  scatter list and the 3D payload included, precisely when the structure belongs to the header's type and its
  counts match its tails. So a malformed command, like the bare header of \<^verbatim>\<open>flushCommands\<close> or an attach that
  announces an entry it does not carry, is never read back as what was sent.\<close>

theorem wire_roundtrip:
  "wire_decode (wire_encode h b) = Some (h, b) \<longleftrightarrow> body_ok (hdr_type h) b"
proof
  assume "wire_decode (wire_encode h b) = Some (h, b)"
  then have "dec_body (hdr_type h) (drop sizeof_hdr (wire_encode h b)) = Some b"
    using rd32_wire_encode [of h b] by (auto simp: wire_decode_def split: if_splits)
  then show "body_ok (hdr_type h) b" by (rule dec_body_ok)
qed (rule wire_dec_enc)

theorem wire_roundtrip_witness:
  "wire_decode (wire_encode (mk_hdr VIRTIO_GPU_CMD_RESOURCE_ATTACH_BACKING 0)
      (Resource_attach_backing 7 1 [\<lparr>me_addr = 0x1000, me_length = 64, me_padding = 0\<rparr>]))
   = Some (mk_hdr VIRTIO_GPU_CMD_RESOURCE_ATTACH_BACKING 0,
      Resource_attach_backing 7 1 [\<lparr>me_addr = 0x1000, me_length = 64, me_padding = 0\<rparr>])
   \<and> wire_decode (wire_encode (mk_hdr VIRTIO_GPU_CMD_CTX_DETACH_RESOURCE 0) Hdr_only)
       \<noteq> Some (mk_hdr VIRTIO_GPU_CMD_CTX_DETACH_RESOURCE 0, Hdr_only)"
  by (simp only: wire_roundtrip) (simp add: mk_hdr_def)

end
