(* ===== verification/Transport.thy ===== *)
theory Transport
  imports Virtqueue Wire
begin

text \<open>
  Command submission, \<^verbatim>\<open>submitCommand\<close> and \<^verbatim>\<open>submitCursorCommand\<close> of \<^verbatim>\<open>FB/VMVirtIOGPU.cpp\<close>, stage by
  stage, against an arbitrary device. The device and the kernel's allocator are parameters; the
  device may change the shared memory in any way at every point where the driver looks at it.
\<close>

section \<open>Parameters and state\<close>

datatype queue_id = Control | Cursor

text \<open>
  An \<^verbatim>\<open>IOMemoryDescriptor\<close>, as far as the driver looks at it: an identity, \<^verbatim>\<open>getLength()\<close>,
  \<^verbatim>\<open>getPhysicalSegment(off)\<close> (address, 0 when there is none, and length of the segment from \<open>off\<close>), the
  result of \<^verbatim>\<open>prepare()\<close>, and what \<^verbatim>\<open>map()\<close> gives (\<open>None\<close> when it fails).
\<close>

record memdesc =
  md_id :: nat
  md_length :: nat
  md_seg :: "nat \<Rightarrow> u64 \<times> nat"
  md_prepare :: io_return
  md_map :: "bytes option"

text \<open>
  \<open>dev_step e q n m\<close>: the shared memory of queue \<open>q\<close> after the device's activity up to the driver's
  \<open>n\<close>-th observation. \<open>temp_alloc e n size\<close>: the outcome of allocating and preparing a temporary command
  buffer (\<open>None\<close>: no memory; otherwise its physical address, 0 when there is none).
  \<open>cursor_reads e n\<close>: how many times the cursor loop reads the used index before 150 ms of uptime
  have passed, beyond the first. The remaining fields are the kernel's allocators, again indexed by
  the observation count: \<open>kmalloc\<close> (\<^verbatim>\<open>IOMalloc\<close>: memory with arbitrary contents), \<open>bmd_alloc\<close>
  (\<^verbatim>\<open>withCapacity\<close>), \<open>bytes_desc\<close> (\<^verbatim>\<open>withBytes\<close> and \<^verbatim>\<open>withAddress\<close>) and \<open>user_desc\<close> (\<^verbatim>\<open>withAddressRange\<close> of
  the client's task).
\<close>

record device_env =
  dev_step :: "queue_id \<Rightarrow> nat \<Rightarrow> vring_mem \<Rightarrow> vring_mem"
  temp_alloc :: "nat \<Rightarrow> nat \<Rightarrow> u64 option"
  cursor_reads :: "nat \<Rightarrow> nat"
  kmalloc :: "nat \<Rightarrow> nat \<Rightarrow> bytes option"
  bmd_alloc :: "nat \<Rightarrow> nat \<Rightarrow> memdesc option"
  bytes_desc :: "nat \<Rightarrow> bytes \<Rightarrow> memdesc option"
  user_desc :: "nat \<Rightarrow> u64 \<Rightarrow> u64 \<Rightarrow> memdesc option"

datatype io_event =
    Doorbell u64 u32
  | Cfg_write8 nat u8
  | Cfg_write16 nat u16
  | Cfg_write32 nat u32

text \<open>
  The transport's members of the class. \<open>m_notify_base\<close> and \<open>m_notify_map\<close> record whether the pointer is
  non-null. The last four fields are bookkeeping of the model: the driver's observations so far, the
  register writes in order, the commands made visible to the device, and the temporary command
  buffers allocated and not yet released.
\<close>

record transport =
  m_vq :: virtqueue
  m_cursor_vq :: virtqueue
  m_notify_base :: bool
  m_notify_map :: bool
  m_notify_cap_offset :: u32
  m_notify_offset :: u32
  m_cursor_notify_offset :: u32
  m_notify_off_multiplier :: u32
  m_submit_count :: u32
  m_notify_count :: u32
  tr_tick :: nat
  tr_trace :: "io_event list"
  tr_sent :: "(queue_id \<times> bytes) list"
  tr_temp :: nat

fun the_q :: "queue_id \<Rightarrow> transport \<Rightarrow> virtqueue" where
  "the_q Control t = m_vq t"
| "the_q Cursor t = m_cursor_vq t"

fun upd_q :: "queue_id \<Rightarrow> (virtqueue \<Rightarrow> virtqueue) \<Rightarrow> transport \<Rightarrow> transport" where
  "upd_q Control f t = t\<lparr>m_vq := f (m_vq t)\<rparr>"
| "upd_q Cursor f t = t\<lparr>m_cursor_vq := f (m_cursor_vq t)\<rparr>"

definition device_runs :: "device_env \<Rightarrow> queue_id \<Rightarrow> transport \<Rightarrow> transport" where
  "device_runs e qi t =
     (upd_q qi (\<lambda>q. q\<lparr>vq_mem := dev_step e qi (tr_tick t) (vq_mem q)\<rparr>) t)\<lparr>tr_tick := tr_tick t + 1\<rparr>"

section \<open>The stages both queues share\<close>

definition dma_write :: "u64 \<Rightarrow> bytes \<Rightarrow> virtqueue \<Rightarrow> virtqueue" where
  "dma_write a bs q =
     q\<lparr>vq_mem := (vq_mem q)\<lparr>dma := (dma (vq_mem q))(a := overwrite bs (dma (vq_mem q) a))\<rparr>\<rparr>"

definition publish ::
  "queue_id \<Rightarrow> u16 \<Rightarrow> u16 \<Rightarrow> bytes \<Rightarrow> u64 \<Rightarrow> u64 \<Rightarrow> nat \<Rightarrow> transport \<Rightarrow> transport" where
  "publish qi cmd_desc resp_desc cmd cmd_phys resp_phys resp_len t =
     (upd_q qi (\<lambda>q. push_avail cmd_desc
                      (fill_descs cmd_desc resp_desc cmd_phys (length cmd) resp_phys resp_len q)) t)
       \<lparr>tr_sent := tr_sent t @ [(qi, cmd)]\<rparr>"

text \<open>The doorbell register of a queue, relative to the start of the notify region's mapping.\<close>

definition doorbell_addr :: "u32 \<Rightarrow> transport \<Rightarrow> u64" where
  "doorbell_addr q_off t =
     ucast (m_notify_cap_offset t) + ucast (q_off * m_notify_off_multiplier t)"

definition notify_device :: "queue_id \<Rightarrow> transport \<Rightarrow> transport option" where
  "notify_device qi t =
     (let q_off = (case qi of Control \<Rightarrow> m_notify_offset t | Cursor \<Rightarrow> m_cursor_notify_offset t);
          val = (case qi of Control \<Rightarrow> 0 | Cursor \<Rightarrow> 1);
          rung = t\<lparr>tr_trace := tr_trace t @ [Doorbell (doorbell_addr q_off t) val]\<rparr>
      in if m_notify_base t \<and> m_notify_off_multiplier t > 0 then Some rung
         else if m_notify_map t then Some rung
         else None)"

fun poll_used :: "device_env \<Rightarrow> queue_id \<Rightarrow> nat \<Rightarrow> transport \<Rightarrow> bool \<times> transport" where
  "poll_used e qi 0 t = (False, t)"
| "poll_used e qi (Suc n) t =
     (let t' = device_runs e qi t
      in if used_idx (vq_mem (the_q qi t')) \<noteq> vq_last_used (the_q qi t') then (True, t')
         else poll_used e qi n t')"

definition give_back :: "queue_id \<Rightarrow> u16 \<Rightarrow> u16 \<Rightarrow> transport \<Rightarrow> transport" where
  "give_back qi cmd_desc resp_desc t = upd_q qi (push_pair cmd_desc resp_desc) t"

text \<open>\<^verbatim>\<open>memcpy(resp, resp_buf, min(resp_size, cap))\<close> when the caller passed a response buffer.\<close>

definition copy_resp :: "nat \<Rightarrow> bytes \<Rightarrow> bytes option \<Rightarrow> bytes option" where
  "copy_resp cap buf resp =
     map_option (\<lambda>r. overwrite (buf_read (min (length r) cap) buf) r) resp"

definition resp_size :: "bytes option \<Rightarrow> nat" where
  "resp_size resp = (case resp of None \<Rightarrow> 0 | Some r \<Rightarrow> length r)"

section \<open>The control queue\<close>

abbreviation (input) VIRTIO_GPU_RESP_BUF_SIZE :: nat where "VIRTIO_GPU_RESP_BUF_SIZE \<equiv> 4096"

type_synonym submit_result = "io_return \<times> bytes option \<times> transport"

definition release_temp :: "bool \<Rightarrow> transport \<Rightarrow> transport" where
  "release_temp temp t = (if temp then t\<lparr>tr_temp := tr_temp t - 1\<rparr> else t)"

definition resp_status :: "bytes option \<Rightarrow> io_return" where
  "resp_status resp =
     (case resp of
        None \<Rightarrow> kIOReturnSuccess
      | Some r \<Rightarrow>
          let ty = rd32 r
          in if 0x1100 \<le> ty \<and> ty < 0x1200 then kIOReturnSuccess
             else if ty \<ge> 0x1200 then kIOReturnError
             else kIOReturnError)"

text \<open>Steps 8 to 12: consume the used element, copy the response, return descriptors, classify.\<close>

definition submit_complete ::
  "u16 \<Rightarrow> u16 \<Rightarrow> bool \<Rightarrow> u64 \<Rightarrow> bytes option \<Rightarrow> transport \<Rightarrow> submit_result" where
  "submit_complete cmd_desc resp_desc temp resp_phys resp t =
     (let t1 = t\<lparr>m_vq := (m_vq t)\<lparr>vq_last_used := vq_last_used (m_vq t) + 1\<rparr>\<rparr>;
          resp' = copy_resp VIRTIO_GPU_RESP_BUF_SIZE (dma (vq_mem (m_vq t1)) resp_phys) resp;
          t2 = give_back Control cmd_desc resp_desc t1
      in (resp_status resp', resp', release_temp temp t2))"

text \<open>Steps 3 to 7: fill and publish the chain, ring the doorbell, poll at most 150 times.\<close>

definition submit_publish ::
  "device_env \<Rightarrow> bytes \<Rightarrow> bytes option \<Rightarrow> u16 \<Rightarrow> u16 \<Rightarrow> bool \<Rightarrow> u64 \<Rightarrow> u64 \<Rightarrow> transport \<Rightarrow> submit_result" where
  "submit_publish e cmd resp cmd_desc resp_desc temp cmd_phys resp_phys t =
     (let t1 = publish Control cmd_desc resp_desc cmd cmd_phys resp_phys
                 (min (resp_size resp) VIRTIO_GPU_RESP_BUF_SIZE) t;
          t2 = t1\<lparr>m_notify_count := m_notify_count t1 + 1\<rparr>
      in case notify_device Control t2 of
           None \<Rightarrow> (kIOReturnNotReady, resp, give_back Control cmd_desc resp_desc t2)
         | Some t3 \<Rightarrow>
             (case poll_used e Control 150 t3 of
                (False, t4) \<Rightarrow> (kIOReturnTimeout, resp, give_back Control cmd_desc resp_desc t4)
              | (True, t4) \<Rightarrow> submit_complete cmd_desc resp_desc temp resp_phys resp t4))"

text \<open>The two checks of physical addresses that follow the copy.\<close>

definition submit_phys ::
  "device_env \<Rightarrow> bytes \<Rightarrow> bytes option \<Rightarrow> u16 \<Rightarrow> u16 \<Rightarrow> bool \<Rightarrow> u64 \<Rightarrow> transport \<Rightarrow> submit_result" where
  "submit_phys e cmd resp cmd_desc resp_desc temp cmd_phys t =
     (if cmd_phys = 0
      then (kIOReturnNoMemory, resp, give_back Control cmd_desc resp_desc (release_temp temp t))
      else case vq_resp_buf (m_vq t) of
             None \<Rightarrow> (Kernel_panic, resp, t)
           | Some (resp_phys, _) \<Rightarrow>
               if resp_phys = 0
               then (kIOReturnNoMemory, resp, give_back Control cmd_desc resp_desc t)
               else submit_publish e cmd resp cmd_desc resp_desc temp cmd_phys resp_phys t)"

text \<open>Step 2: copy the command into the static buffer, or into a temporary one when it does not fit.\<close>

definition submit_stage ::
  "device_env \<Rightarrow> bytes \<Rightarrow> bytes option \<Rightarrow> u16 \<Rightarrow> u16 \<Rightarrow> transport \<Rightarrow> submit_result" where
  "submit_stage e cmd resp cmd_desc resp_desc t =
     (case vq_cmd_buf (m_vq t) of
        None \<Rightarrow> (Kernel_panic, resp, t)
      | Some (static_phys, cap) \<Rightarrow>
          if length cmd \<le> cap
          then submit_phys e cmd resp cmd_desc resp_desc False static_phys
                 (upd_q Control (dma_write static_phys cmd) t)
          else case temp_alloc e (tr_tick t) (length cmd) of
                 None \<Rightarrow> (kIOReturnNoMemory, resp, give_back Control cmd_desc resp_desc t)
               | Some temp_phys \<Rightarrow>
                   submit_phys e cmd resp cmd_desc resp_desc True temp_phys
                     (upd_q Control (dma_write temp_phys cmd) (t\<lparr>tr_temp := tr_temp t + 1\<rparr>)))"

text \<open>With the queue's lock held: drain stale completions, then take two descriptors.\<close>

definition submit_locked :: "device_env \<Rightarrow> bytes \<Rightarrow> bytes option \<Rightarrow> transport \<Rightarrow> submit_result" where
  "submit_locked e cmd resp t =
     (let t1 = upd_q Control vq_drain (device_runs e Control t)
      in case pop_pair (m_vq t1) of
           Inl q \<Rightarrow> (kIOReturnNoResources, resp, t1\<lparr>m_vq := q\<rparr>)
         | Inr (cmd_desc, resp_desc, q) \<Rightarrow>
             submit_stage e cmd resp cmd_desc resp_desc (t1\<lparr>m_vq := q\<rparr>))"

definition submitCommand ::
  "device_env \<Rightarrow> bytes option \<Rightarrow> bytes option \<Rightarrow> transport \<Rightarrow> submit_result" where
  "submitCommand e cmd resp t =
     (case cmd of
        None \<Rightarrow> (kIOReturnBadArgument, resp, t)
      | Some c \<Rightarrow>
          if length c < sizeof_hdr then (kIOReturnBadArgument, resp, t)
          else if \<not> vq_initialized (m_vq t) \<or> \<not> vq_mapped (m_vq t) then (kIOReturnNotReady, resp, t)
          else submit_locked e c resp (t\<lparr>m_submit_count := m_submit_count t + 1\<rparr>))"

section \<open>The cursor queue\<close>

definition cursor_publish ::
  "device_env \<Rightarrow> bytes \<Rightarrow> bytes option \<Rightarrow> u16 \<Rightarrow> u16 \<Rightarrow> u64 \<Rightarrow> u64 \<Rightarrow> transport \<Rightarrow> submit_result" where
  "cursor_publish e cmd resp cmd_desc resp_desc cmd_phys resp_phys t =
     (let t1 = publish Cursor cmd_desc resp_desc cmd cmd_phys resp_phys (min (resp_size resp) 64) t;
          t2 = (case notify_device Cursor t1 of None \<Rightarrow> t1 | Some rung \<Rightarrow> rung)
      in case poll_used e Cursor (Suc (cursor_reads e (tr_tick t2))) t2 of
           (False, t3) \<Rightarrow> (kIOReturnTimeout, resp, give_back Cursor cmd_desc resp_desc t3)
         | (True, t3) \<Rightarrow>
             let resp' = copy_resp 64 (dma (vq_mem (m_cursor_vq t3)) resp_phys) resp;
                 t4 = t3\<lparr>m_cursor_vq := (m_cursor_vq t3)
                           \<lparr>vq_last_used := vq_last_used (m_cursor_vq t3) + 1\<rparr>\<rparr>
             in (kIOReturnSuccess, resp', give_back Cursor cmd_desc resp_desc t4))"

definition submitCursorCommand ::
  "device_env \<Rightarrow> bytes \<Rightarrow> bytes option \<Rightarrow> transport \<Rightarrow> submit_result" where
  "submitCursorCommand e cmd resp t =
     (if \<not> vq_initialized (m_cursor_vq t) \<or> \<not> vq_mapped (m_cursor_vq t)
      then (kIOReturnNotReady, resp, t)
      else case pop_pair (m_cursor_vq t) of
             Inl q \<Rightarrow> (kIOReturnNoResources, resp, t\<lparr>m_cursor_vq := q\<rparr>)
           | Inr (cmd_desc, resp_desc, q) \<Rightarrow>
               let t1 = t\<lparr>m_cursor_vq := q\<rparr>
               in case (vq_cmd_buf q, vq_resp_buf q) of
                    (Some (cmd_phys, _), Some (resp_phys, _)) \<Rightarrow>
                      cursor_publish e cmd resp cmd_desc resp_desc cmd_phys resp_phys
                        (upd_q Cursor (dma_write cmd_phys cmd) t1)
                  | _ \<Rightarrow> (Kernel_panic, resp, t1))"

section \<open>What a submission leaves alone\<close>

text \<open>Everything of a queue but the ring indices and the shared memory.\<close>

definition vq_core ::
  "virtqueue \<Rightarrow> bool \<times> bool \<times> u16 \<times> u16 \<times> u16 list \<times> (u64 \<times> nat) option \<times> (u64 \<times> nat) option" where
  "vq_core q = (vq_initialized q, vq_mapped q, vq_size q, vq_free_head q, vq_free_next q,
                vq_cmd_buf q, vq_resp_buf q)"

lemma the_q_upd_q [simp]: "the_q qi (upd_q qi f t) = f (the_q qi t)"
  by (cases qi) simp_all

lemma the_q_upd_q_other [simp]: "qj \<noteq> qi \<Longrightarrow> the_q qj (upd_q qi f t) = the_q qj t"
  by (cases qi; cases qj) simp_all

lemma the_q_tick [simp]: "the_q qi (t\<lparr>tr_tick := n\<rparr>) = the_q qi t"
  and the_q_sent [simp]: "the_q qi (t\<lparr>tr_sent := s\<rparr>) = the_q qi t"
  and the_q_trace [simp]: "the_q qi (t\<lparr>tr_trace := tr\<rparr>) = the_q qi t"
  and the_q_temp [simp]: "the_q qi (t\<lparr>tr_temp := k\<rparr>) = the_q qi t"
  and the_q_notify_count [simp]: "the_q qi (t\<lparr>m_notify_count := c\<rparr>) = the_q qi t"
  and the_q_submit_count [simp]: "the_q qi (t\<lparr>m_submit_count := c\<rparr>) = the_q qi t"
  by (cases qi; simp)+

lemma the_q_set [simp]:
  "the_q Control (t\<lparr>m_vq := q\<rparr>) = q" "the_q Cursor (t\<lparr>m_vq := q\<rparr>) = the_q Cursor t"
  "the_q Cursor (t\<lparr>m_cursor_vq := q\<rparr>) = q" "the_q Control (t\<lparr>m_cursor_vq := q\<rparr>) = the_q Control t"
  by simp_all

lemma core_device_runs [frame_simps]:
  "vq_core (the_q qj (device_runs e qi t)) = vq_core (the_q qj t)"
  by (cases qi; cases qj) (simp_all add: device_runs_def vq_core_def)

lemma core_publish [frame_simps]:
  "vq_core (the_q qj (publish qi c r cmd cp rp rl t)) = vq_core (the_q qj t)"
  by (cases qi; cases qj)
    (simp_all add: publish_def vq_core_def push_avail_def fill_descs_def Let_def)

lemma core_dma_write [frame_simps]: "vq_core (dma_write a bs q) = vq_core q"
  by (simp add: dma_write_def vq_core_def)

lemma core_vq_drain [frame_simps]: "vq_core (vq_drain q) = vq_core q"
  by (simp add: vq_drain_def vq_core_def)

lemma core_last_used [frame_simps]: "vq_core (q\<lparr>vq_last_used := n\<rparr>) = vq_core q"
  by (simp add: vq_core_def)

lemma core_release_temp [frame_simps]: "the_q qj (release_temp temp t) = the_q qj t"
  by (simp add: release_temp_def)

lemma core_notify [frame_simps]: "notify_device qi t = Some t' \<Longrightarrow> the_q qj t' = the_q qj t"
  by (auto simp: notify_device_def Let_def split: if_splits)

lemma core_poll [frame_simps]:
  "poll_used e qi n t = (b, t') \<Longrightarrow> vq_core (the_q qj t') = vq_core (the_q qj t)"
  by (induction n arbitrary: t) (auto simp: Let_def core_device_runs split: if_splits)

lemma core_give_back:
  assumes "pop_pair q = Inr (c, r, q2)" "vq_core (the_q qi t) = vq_core q2"
  shows "vq_core (the_q qi (give_back qi c r t)) = vq_core q"
proof -
  have "vq_core q2 = vq_core (q\<lparr>vq_free_head := vq_free_head q2\<rparr>)"
    using pop_pair_other(1) [OF assms(1)] by simp
  then show ?thesis
    using assms push_pair_pop_pair [OF assms(1), of "the_q qi t"]
    by (auto simp: give_back_def vq_core_def push_pair_def push_free_def)
qed

lemma give_back_other [simp]: "qj \<noteq> qi \<Longrightarrow> the_q qj (give_back qi c r t) = the_q qj t"
  by (simp add: give_back_def)

lemma core_submit_publish:
  assumes "submit_publish e cmd resp c r temp cp rp t = (ret, resp', t')"
    and "pop_pair q = Inr (c, r, q2)" "vq_core (m_vq t) = vq_core q2"
  shows "vq_core (m_vq t') = vq_core q \<and> ret \<noteq> Kernel_panic"
proof -
  let ?len = "min (resp_size resp) VIRTIO_GPU_RESP_BUF_SIZE"
  let ?t2 = "(publish Control c r cmd cp rp ?len t)\<lparr>m_notify_count := m_notify_count
               (publish Control c r cmd cp rp ?len t) + 1\<rparr>"
  have c2: "vq_core (the_q Control ?t2) = vq_core q2"
    using assms(3) by (simp add: core_publish del: the_q.simps) simp
  show ?thesis
  proof (cases "notify_device Control ?t2")
    case None
    then have "t' = give_back Control c r ?t2" "ret = kIOReturnNotReady"
      using assms(1) by (auto simp: submit_publish_def Let_def)
    then show ?thesis
      using core_give_back [OF assms(2) c2] by simp
  next
    case (Some t3)
    obtain b t4 where p: "poll_used e Control 150 t3 = (b, t4)" by fastforce
    have c4: "vq_core (the_q Control t4) = vq_core q2"
      using core_poll [OF p, of Control] core_notify [OF Some, of Control] c2 by simp
    show ?thesis
    proof (cases b)
      case False
      then have "t' = give_back Control c r t4" "ret = kIOReturnTimeout"
        using assms(1) p Some by (auto simp: submit_publish_def Let_def)
      then show ?thesis
        using core_give_back [OF assms(2) c4] by simp
    next
      case True
      let ?t5 = "t4\<lparr>m_vq := (m_vq t4)\<lparr>vq_last_used := vq_last_used (m_vq t4) + 1\<rparr>\<rparr>"
      have "vq_core (the_q Control ?t5) = vq_core q2"
        using c4 by (simp add: core_last_used)
      moreover have "t' = release_temp temp (give_back Control c r ?t5)" "ret \<noteq> Kernel_panic"
        using assms(1) p Some True
        by (auto simp: submit_publish_def submit_complete_def Let_def resp_status_def
            split: option.splits if_splits)
      ultimately show ?thesis
        using core_give_back [OF assms(2)] core_release_temp [of Control] by fastforce
    qed
  qed
qed

lemma core_submit_phys:
  assumes "submit_phys e cmd resp c r temp cp t = (ret, resp', t')"
    and "pop_pair q = Inr (c, r, q2)" "vq_core (m_vq t) = vq_core q2" "vq_resp_buf q \<noteq> None"
  shows "vq_core (m_vq t') = vq_core q \<and> ret \<noteq> Kernel_panic"
proof -
  have "vq_resp_buf (m_vq t) = vq_resp_buf q"
    using assms(3) pop_pair_bufs [OF assms(2)] by (simp add: vq_core_def)
  then show ?thesis
    using assms core_submit_publish [of e cmd resp c r temp cp _ t ret resp' t', OF _ assms(2,3)]
      core_give_back [OF assms(2), of Control t]
      core_give_back [OF assms(2), of Control "release_temp temp t"] core_release_temp [of Control]
    by (auto simp: submit_phys_def split: if_splits)
qed

lemma core_submit_stage:
  assumes "submit_stage e cmd resp c r t = (ret, resp', t')"
    and "pop_pair q = Inr (c, r, m_vq t)" "vq_cmd_buf q \<noteq> None" "vq_resp_buf q \<noteq> None"
  shows "vq_core (m_vq t') = vq_core q \<and> ret \<noteq> Kernel_panic"
proof -
  obtain sp cap where b: "vq_cmd_buf (m_vq t) = Some (sp, cap)"
    using assms(3) pop_pair_bufs(1) [OF assms(2)] by auto
  have w: "vq_core (m_vq (upd_q Control (dma_write a cmd) (t\<lparr>tr_temp := k\<rparr>))) = vq_core (m_vq t)"
    for a k by (simp add: core_dma_write)
  show ?thesis
  proof (cases "length cmd \<le> cap")
    case True
    with assms(1) b have "submit_phys e cmd resp c r False sp
        (upd_q Control (dma_write sp cmd) t) = (ret, resp', t')"
      by (simp add: submit_stage_def)
    from core_submit_phys [OF this assms(2) _ assms(4)] show ?thesis
      by (simp add: core_dma_write)
  next
    case False
    show ?thesis
    proof (cases "temp_alloc e (tr_tick t) (length cmd)")
      case None
      with assms(1) b False have "t' = give_back Control c r t" "ret = kIOReturnNoMemory"
        by (simp_all add: submit_stage_def)
      then show ?thesis
        using core_give_back [OF assms(2), of Control t] by simp
    next
      case (Some tp)
      with assms(1) b False have "submit_phys e cmd resp c r True tp
          (upd_q Control (dma_write tp cmd) (t\<lparr>tr_temp := tr_temp t + 1\<rparr>)) = (ret, resp', t')"
        by (simp add: submit_stage_def)
      from core_submit_phys [OF this assms(2) w assms(4)] show ?thesis .
    qed
  qed
qed

lemma core_submit_locked:
  assumes "submit_locked e cmd resp t = (ret, resp', t')"
    and "vq_cmd_buf (m_vq t) \<noteq> None" "vq_resp_buf (m_vq t) \<noteq> None"
  shows "vq_core (m_vq t') = vq_core (m_vq t) \<and> ret \<noteq> Kernel_panic"
proof -
  define t1 where "t1 = upd_q Control vq_drain (device_runs e Control t)"
  have c1: "vq_core (m_vq t1) = vq_core (m_vq t)"
    using core_device_runs [of Control e Control t] by (simp add: t1_def core_vq_drain)
  then have b1: "vq_cmd_buf (m_vq t1) \<noteq> None" "vq_resp_buf (m_vq t1) \<noteq> None"
    using assms(2,3) by (auto simp: vq_core_def)
  show ?thesis
  proof (cases "pop_pair (m_vq t1)")
    case (Inl q)
    then have "t' = t1\<lparr>m_vq := q\<rparr>" "ret = kIOReturnNoResources" "q = m_vq t1"
      using assms(1) pop_pair_none by (auto simp: submit_locked_def Let_def t1_def)
    then show ?thesis using c1 by simp
  next
    case (Inr p)
    obtain c r q where p: "p = (c, r, q)" by (cases p)
    from Inr p assms(1) have "submit_stage e cmd resp c r (t1\<lparr>m_vq := q\<rparr>) = (ret, resp', t')"
      by (simp add: submit_locked_def Let_def t1_def)
    from core_submit_stage [OF this, of "m_vq t1"] show ?thesis
      using Inr p b1 c1 by simp
  qed
qed

text \<open>The buffers a live queue needs; \<^verbatim>\<open>setupControlVirtQueue\<close> and \<^verbatim>\<open>setupCursorQueue\<close> establish it.\<close>

definition bufs_ok :: "virtqueue \<Rightarrow> bool" where
  "bufs_ok q \<longleftrightarrow> (vq_initialized q \<longrightarrow> vq_cmd_buf q \<noteq> None \<and> vq_resp_buf q \<noteq> None)"

lemma core_submitCommand:
  assumes "submitCommand e cmd resp t = (ret, resp', t')" "bufs_ok (m_vq t)"
  shows "vq_core (m_vq t') = vq_core (m_vq t) \<and> ret \<noteq> Kernel_panic"
  using assms core_submit_locked [of e _ resp "t\<lparr>m_submit_count := m_submit_count t + 1\<rparr>" ret resp' t']
  by (auto simp: submitCommand_def bufs_ok_def split: option.splits if_splits)

lemma core_cursor_publish:
  assumes "cursor_publish e cmd resp c r cp rp t = (ret, resp', t')"
    and "pop_pair q = Inr (c, r, q2)" "vq_core (m_cursor_vq t) = vq_core q2"
  shows "vq_core (m_cursor_vq t') = vq_core q \<and> ret \<noteq> Kernel_panic"
proof -
  define t1 where "t1 = publish Cursor c r cmd cp rp (min (resp_size resp) 64) t"
  define t2 where "t2 = (case notify_device Cursor t1 of None \<Rightarrow> t1 | Some rung \<Rightarrow> rung)"
  obtain b t3 where p: "poll_used e Cursor (Suc (cursor_reads e (tr_tick t2))) t2 = (b, t3)"
    by fastforce
  have "vq_core (the_q Cursor t2) = vq_core (the_q Cursor t1)"
    using core_notify [of Cursor t1 _ Cursor] by (auto simp: t2_def split: option.splits)
  then have c3: "vq_core (the_q Cursor t3) = vq_core q2"
    using core_poll [OF p, of Cursor] assms(3) core_publish [of Cursor Cursor c r cmd cp rp _ t]
    by (simp add: t1_def)
  let ?t4 = "t3\<lparr>m_cursor_vq := (m_cursor_vq t3)\<lparr>vq_last_used := vq_last_used (m_cursor_vq t3) + 1\<rparr>\<rparr>"
  have c4: "vq_core (the_q Cursor ?t4) = vq_core q2"
    using c3 by (simp add: core_last_used)
  have "(ret, resp', t') = (case (b, t3) of (False, t3) \<Rightarrow> (kIOReturnTimeout, resp, give_back Cursor c r t3)
     | (True, t3) \<Rightarrow> (kIOReturnSuccess, copy_resp 64 (dma (vq_mem (m_cursor_vq t3)) rp) resp,
         give_back Cursor c r (t3\<lparr>m_cursor_vq := (m_cursor_vq t3)
           \<lparr>vq_last_used := vq_last_used (m_cursor_vq t3) + 1\<rparr>\<rparr>)))"
    using assms(1)
    by (simp only: cursor_publish_def Let_def t1_def [symmetric] t2_def [symmetric] p)
  then have "t' = give_back Cursor c r (if b then ?t4 else t3)" "ret \<noteq> Kernel_panic"
    by (cases b; simp)+
  then show ?thesis
    using core_give_back [OF assms(2) c3] core_give_back [OF assms(2) c4] by (cases b) simp_all
qed

lemma core_submitCursorCommand:
  assumes "submitCursorCommand e cmd resp t = (ret, resp', t')" "bufs_ok (m_cursor_vq t)"
  shows "vq_core (m_cursor_vq t') = vq_core (m_cursor_vq t) \<and> ret \<noteq> Kernel_panic"
proof (cases "vq_initialized (m_cursor_vq t) \<and> vq_mapped (m_cursor_vq t)")
  case False
  then show ?thesis using assms by (auto simp: submitCursorCommand_def)
next
  case live: True
  show ?thesis
  proof (cases "pop_pair (m_cursor_vq t)")
    case (Inl q)
    with assms(1) live pop_pair_none [OF Inl] show ?thesis
      by (auto simp: submitCursorCommand_def)
  next
    case (Inr p)
    obtain c r q where p: "p = (c, r, q)" by (cases p)
    then have pp: "pop_pair (m_cursor_vq t) = Inr (c, r, q)" using Inr by simp
    obtain cp cl rp rl where b: "vq_cmd_buf q = Some (cp, cl)" "vq_resp_buf q = Some (rp, rl)"
      using live assms(2) pop_pair_bufs(1,2) [OF pp] by (auto simp: bufs_ok_def)
    have "cursor_publish e cmd resp c r cp rp
        (upd_q Cursor (dma_write cp cmd) (t\<lparr>m_cursor_vq := q\<rparr>)) = (ret, resp', t')"
      using assms(1) live pp b by (auto simp: submitCursorCommand_def)
    from core_cursor_publish [OF this pp] show ?thesis
      by (simp add: core_dma_write)
  qed
qed

section \<open>A device that serves the queue\<close>

text \<open>
  The abstract contract of the control queue is a remote procedure call: a device that answers
  every command \<open>c\<close> with the bytes \<open>f c\<close>. \<open>serve\<close> is such a device as the virtio specification
  describes it: it takes the next entry of the available ring, reads the readable descriptor, writes
  as much of the answer as the writable descriptor has room for, and reports the chain in the
  used ring. It may be slow: it acts only at the observations where \<open>ready\<close> holds.
\<close>

definition serve :: "(bytes \<Rightarrow> bytes) \<Rightarrow> u16 \<Rightarrow> vring_mem \<Rightarrow> vring_mem" where
  "serve f sz m =
     (if avail_flags_idx m = used_idx m then m
      else let slot = used_idx m mod sz; head = avail_ring m slot
           in case chain_resp m head of
                None \<Rightarrow> m
              | Some d \<Rightarrow>
                  let out = take (unat (vd_len d)) (f (chain_cmd m head))
                  in m\<lparr>dma := (dma m)(vd_addr d := overwrite out (dma m (vd_addr d))),
                       used_ring := (used_ring m)
                         (slot := \<lparr>ue_id = ucast head, ue_len = word_of_nat (length out)\<rparr>),
                       used_idx := used_idx m + 1\<rparr>)"

definition serving :: "(bytes \<Rightarrow> bytes) \<Rightarrow> u16 \<Rightarrow> (nat \<Rightarrow> bool) \<Rightarrow> device_env \<Rightarrow> bool" where
  "serving f sz ready e \<longleftrightarrow>
     (\<forall>n m. dev_step e Control n m = (if ready n then serve f sz m else m))"

definition vq_idle :: "virtqueue \<Rightarrow> bool" where
  "vq_idle q \<longleftrightarrow> avail_flags_idx (vq_mem q) = vq_avail_idx q \<and> used_idx (vq_mem q) = vq_avail_idx q"

definition can_notify :: "transport \<Rightarrow> bool" where
  "can_notify t \<longleftrightarrow> m_notify_map t \<or> (m_notify_base t \<and> m_notify_off_multiplier t > 0)"

lemma serve_idle: "avail_flags_idx m = used_idx m \<Longrightarrow> serve f sz m = m"
  by (simp add: serve_def)

lemma device_runs_serving:
  assumes "serving f sz ready e"
  shows "device_runs e Control t =
    t\<lparr>m_vq := (m_vq t)\<lparr>vq_mem := (if ready (tr_tick t) then serve f sz (vq_mem (m_vq t))
                                    else vq_mem (m_vq t))\<rparr>, tr_tick := tr_tick t + 1\<rparr>"
  using assms by (simp add: device_runs_def serving_def)

lemma poll_serving:
  assumes "serving f sz ready e"
  shows "\<exists>k<n. ready (tr_tick t + k) \<Longrightarrow> used_idx (vq_mem (m_vq t)) = vq_last_used (m_vq t)
    \<Longrightarrow> used_idx (serve f sz (vq_mem (m_vq t))) \<noteq> vq_last_used (m_vq t)
    \<Longrightarrow> \<exists>j. poll_used e Control n t =
          (True, t\<lparr>m_vq := (m_vq t)\<lparr>vq_mem := serve f sz (vq_mem (m_vq t))\<rparr>, tr_tick := j\<rparr>)"
proof (induction n arbitrary: t)
  case 0
  then show ?case by simp
next
  case (Suc n)
  show ?case
  proof (cases "ready (tr_tick t)")
    case True
    with Suc.prems show ?thesis
      by (simp add: device_runs_serving [OF assms] Let_def) blast
  next
    case False
    let ?t = "t\<lparr>tr_tick := tr_tick t + 1\<rparr>"
    have run: "device_runs e Control t = ?t"
      using False by (simp add: device_runs_serving [OF assms])
    obtain k where k: "k < Suc n" "ready (tr_tick t + k)" using Suc.prems(1) by blast
    then have "\<exists>k<n. ready (tr_tick ?t + k)"
      using False by (cases k) auto
    then obtain j where "poll_used e Control n ?t =
          (True, ?t\<lparr>m_vq := (m_vq ?t)\<lparr>vq_mem := serve f sz (vq_mem (m_vq ?t))\<rparr>, tr_tick := j\<rparr>)"
      using Suc.IH [of ?t] Suc.prems(2,3) by auto
    then show ?thesis
      using run Suc.prems(2) by (auto simp: Let_def)
  qed
qed

text \<open>What one publication puts before the device.\<close>

lemma publish_chain:
  assumes "c \<noteq> r" "length cmd < 2 ^ 32" "n < 2 ^ 32"
    and "buf_read (length cmd) (dma (vq_mem (m_vq t)) cp) = cmd"
    and "m = vq_mem (m_vq (publish Control c r cmd cp rp n t))"
  shows "avail_ring m (vq_avail_idx (m_vq t) mod vq_size (m_vq t)) = c"
    and "avail_flags_idx m = vq_avail_idx (m_vq t) + 1"
    and "chain_cmd m c = cmd"
    and "chain_resp m c = Some \<lparr>vd_addr = rp, vd_len = word_of_nat n, vd_flags = 2, vd_next = 0\<rparr>"
    and "dma m = dma (vq_mem (m_vq t))" and "used_idx m = used_idx (vq_mem (m_vq t))"
  using assms
  by (simp_all add: publish_def push_avail_def fill_descs_def Let_def chain_cmd_def chain_resp_def
      unat_of_nat)

lemma serve_publish:
  assumes "c \<noteq> r" "length cmd < 2 ^ 32" "n < 2 ^ 32"
    and "buf_read (length cmd) (dma (vq_mem (m_vq t)) cp) = cmd"
    and "m = vq_mem (m_vq (publish Control c r cmd cp rp n t))"
    and "used_idx (vq_mem (m_vq t)) = vq_avail_idx (m_vq t)"
  shows "dma (serve f (vq_size (m_vq t)) m) rp
           = overwrite (take n (f cmd)) (dma (vq_mem (m_vq t)) rp)"
    and "used_idx (serve f (vq_size (m_vq t)) m) = vq_avail_idx (m_vq t) + 1"
    and "avail_flags_idx (serve f (vq_size (m_vq t)) m) = vq_avail_idx (m_vq t) + 1"
  using publish_chain [OF assms(1-5)] assms(3,6)
  by (simp_all add: serve_def Let_def unat_of_nat)

lemma notify_device_ok:
  "can_notify t \<Longrightarrow> notify_device Control t =
     Some (t\<lparr>tr_trace := tr_trace t @ [Doorbell (doorbell_addr (m_notify_offset t) t) 0]\<rparr>)"
  by (auto simp: notify_device_def can_notify_def Let_def)

lemma publish_frame [frame_simps]:
  "m_notify_base (publish Control c r cmd cp rp n t) = m_notify_base t"
  "m_notify_map (publish Control c r cmd cp rp n t) = m_notify_map t"
  "m_notify_off_multiplier (publish Control c r cmd cp rp n t) = m_notify_off_multiplier t"
  "tr_tick (publish Control c r cmd cp rp n t) = tr_tick t"
  "tr_sent (publish Control c r cmd cp rp n t) = tr_sent t @ [(Control, cmd)]"
  "vq_last_used (m_vq (publish Control c r cmd cp rp n t)) = vq_last_used (m_vq t)"
  "vq_avail_idx (m_vq (publish Control c r cmd cp rp n t)) = vq_avail_idx (m_vq t) + 1"
  by (simp_all add: publish_def push_avail_def fill_descs_def Let_def)

lemma rpc_submit_publish:
  assumes dev: "serving f (vq_size (m_vq t)) ready e" "\<exists>k<150. ready (tr_tick t + k)"
    and cr: "c \<noteq> r" "length cmd < 2 ^ 32" "buf_read (length cmd) (dma (vq_mem (m_vq t)) cp) = cmd"
    and idle: "vq_idle (m_vq t)" "vq_last_used (m_vq t) = vq_avail_idx (m_vq t)"
    and bell: "can_notify t"
    and n: "n = min (resp_size resp) VIRTIO_GPU_RESP_BUF_SIZE"
  shows "\<exists>t4. submit_publish e cmd resp c r temp cp rp t = submit_complete c r temp rp resp t4
    \<and> dma (vq_mem (m_vq t4)) rp = overwrite (take n (f cmd)) (dma (vq_mem (m_vq t)) rp)
    \<and> vq_idle (m_vq t4) \<and> tr_sent t4 = tr_sent t @ [(Control, cmd)]"
proof -
  let ?p = "publish Control c r cmd cp rp n t"
  let ?t2 = "?p\<lparr>m_notify_count := m_notify_count ?p + 1\<rparr>"
  define t3 where "t3 = ?t2\<lparr>tr_trace := tr_trace ?t2
      @ [Doorbell (doorbell_addr (m_notify_offset ?t2) ?t2) 0]\<rparr>"
  have nt: "notify_device Control ?t2 = Some t3"
    using notify_device_ok [of ?t2] bell by (simp add: t3_def can_notify_def publish_frame)
  have n32: "n < 2 ^ 32" using n by simp
  have vq3: "m_vq t3 = m_vq ?p" and tick3: "tr_tick t3 = tr_tick t"
    by (simp_all add: t3_def publish_frame)
  note sp = serve_publish [OF cr(1,2) n32 cr(3), where m = "vq_mem (m_vq ?p)" and rp = rp and f = f]
  have used: "used_idx (vq_mem (m_vq t)) = vq_avail_idx (m_vq t)"
    using idle(1) by (simp add: vq_idle_def)
  have "used_idx (vq_mem (m_vq t3)) = vq_last_used (m_vq t3)"
    using publish_chain(6) [OF cr(1,2) n32 cr(3) refl] used idle(2) by (simp add: vq3 publish_frame)
  moreover have "used_idx (serve f (vq_size (m_vq t)) (vq_mem (m_vq t3))) \<noteq> vq_last_used (m_vq t3)"
    using sp(2) [OF refl used] idle(2) by (simp add: vq3 publish_frame)
  ultimately obtain j where j: "poll_used e Control 150 t3 = (True, t3\<lparr>m_vq := (m_vq t3)
      \<lparr>vq_mem := serve f (vq_size (m_vq t)) (vq_mem (m_vq t3))\<rparr>, tr_tick := j\<rparr>)"
    using poll_serving [OF dev(1), of 150 t3] dev(2) by (auto simp: tick3)
  let ?t4 = "t3\<lparr>m_vq := (m_vq t3)\<lparr>vq_mem := serve f (vq_size (m_vq t)) (vq_mem (m_vq t3))\<rparr>,
      tr_tick := j\<rparr>"
  have "submit_publish e cmd resp c r temp cp rp t = submit_complete c r temp rp resp ?t4"
    using nt j n by (simp add: submit_publish_def Let_def)
  moreover have "dma (vq_mem (m_vq ?t4)) rp = overwrite (take n (f cmd)) (dma (vq_mem (m_vq t)) rp)"
    using sp(1) [OF refl used] by (simp add: vq3)
  moreover have "vq_idle (m_vq ?t4)"
    using sp(2,3) [OF refl used] by (simp add: vq3 vq_idle_def publish_frame)
  moreover have "tr_sent ?t4 = tr_sent t @ [(Control, cmd)]"
    by (simp add: t3_def publish_frame)
  ultimately show ?thesis by blast
qed

text \<open>
  The state in which the control queue can take a command: set up, at least two free descriptors,
  both buffers mapped for the device, no command outstanding, and a doorbell to ring.
\<close>

definition queue_usable :: "transport \<Rightarrow> bool" where
  "queue_usable t \<longleftrightarrow> vq_initialized (m_vq t) \<and> vq_mapped (m_vq t)
     \<and> (\<exists>free. 2 \<le> length free \<and> vq_inv free (m_vq t))
     \<and> (\<exists>cp rp rl. vq_cmd_buf (m_vq t) = Some (cp, 4096) \<and> vq_resp_buf (m_vq t) = Some (rp, rl)
          \<and> cp \<noteq> 0 \<and> rp \<noteq> 0 \<and> cp \<noteq> rp)
     \<and> can_notify t"

definition queue_live :: "transport \<Rightarrow> bool" where
  "queue_live t \<longleftrightarrow> queue_usable t \<and> vq_idle (m_vq t)"

definition resp_dma :: "transport \<Rightarrow> bytes" where
  "resp_dma t = (case vq_resp_buf (m_vq t) of None \<Rightarrow> [] | Some (rp, _) \<Rightarrow> dma (vq_mem (m_vq t)) rp)"

definition rpc_answer :: "(bytes \<Rightarrow> bytes) \<Rightarrow> bytes \<Rightarrow> bytes option \<Rightarrow> transport \<Rightarrow> bytes option" where
  "rpc_answer f cmd resp t =
     copy_resp VIRTIO_GPU_RESP_BUF_SIZE
       (overwrite (take (min (resp_size resp) VIRTIO_GPU_RESP_BUF_SIZE) (f cmd)) (resp_dma t)) resp"

lemma two_free:
  assumes "vq_inv free q" "2 \<le> length free"
  shows "\<exists>c r q2. pop_pair q = Inr (c, r, q2) \<and> c \<noteq> r"
proof -
  obtain c r rest where "free = c # r # rest"
    using assms(2) by (cases free; cases "tl free") auto
  then show ?thesis
    using assms(1) pop_pair_inv [of c r rest q] by (auto simp: vq_inv_def)
qed

lemma vq_idle_push_pair [simp]: "vq_idle (push_pair c r q) = vq_idle q"
  by (simp add: vq_idle_def push_pair_def push_free_def)

lemma submit_complete_eq:
  "submit_complete c r False rp resp t =
     (let a = copy_resp VIRTIO_GPU_RESP_BUF_SIZE (dma (vq_mem (m_vq t)) rp) resp
      in (resp_status a, a, give_back Control c r
           (t\<lparr>m_vq := (m_vq t)\<lparr>vq_last_used := vq_last_used (m_vq t) + 1\<rparr>\<rparr>)))"
  by (simp add: submit_complete_def release_temp_def Let_def)

text \<open>A command that fits the static buffer reaches publication on every usable queue.\<close>

lemma submit_reaches_publish:
  assumes use: "queue_usable t" and cmd: "24 \<le> length cmd" "length cmd \<le> 4096"
    and m: "m = dev_step e Control (tr_tick t) (vq_mem (m_vq t))"
  obtains c r cp rp rl t2 where
    "submitCommand e (Some cmd) resp t = submit_publish e cmd resp c r False cp rp t2"
    "c \<noteq> r" "vq_resp_buf (m_vq t) = Some (rp, rl)" "cp \<noteq> rp" "can_notify t2"
    "tr_tick t2 = tr_tick t + 1" "tr_sent t2 = tr_sent t"
    "vq_size (m_vq t2) = vq_size (m_vq t)" "vq_avail_idx (m_vq t2) = vq_avail_idx (m_vq t)"
    "vq_last_used (m_vq t2) = used_idx m"
    "vq_mem (m_vq t2) = m\<lparr>dma := (dma m)(cp := overwrite cmd (dma m cp))\<rparr>"
proof -
  obtain free where fr: "vq_inv free (m_vq t)" "2 \<le> length free"
    using use by (auto simp: queue_usable_def)
  obtain cp rp rl where b: "vq_cmd_buf (m_vq t) = Some (cp, 4096)"
    "vq_resp_buf (m_vq t) = Some (rp, rl)" "cp \<noteq> 0" "rp \<noteq> 0" "cp \<noteq> rp"
    using use by (auto simp: queue_usable_def)
  define t0 where "t0 = t\<lparr>m_submit_count := m_submit_count t + 1\<rparr>"
  define t1 where "t1 = upd_q Control vq_drain (device_runs e Control t0)"
  have t1: "vq_inv free (m_vq t1)" "vq_cmd_buf (m_vq t1) = Some (cp, 4096)"
    "vq_resp_buf (m_vq t1) = Some (rp, rl)" "vq_last_used (m_vq t1) = used_idx m"
    "vq_mem (m_vq t1) = m" "tr_tick t1 = tr_tick t + 1" "tr_sent t1 = tr_sent t"
    "vq_size (m_vq t1) = vq_size (m_vq t)" "vq_avail_idx (m_vq t1) = vq_avail_idx (m_vq t)"
    "can_notify t1 = can_notify t"
    using fr(1) b
    by (simp_all add: t1_def t0_def device_runs_def vq_drain_def m vq_inv_def can_notify_def)
  obtain c r q2 where pop: "pop_pair (m_vq t1) = Inr (c, r, q2)" "c \<noteq> r"
    using two_free t1(1) fr(2) by blast
  note q2 = pop_pair_bufs [OF pop(1)]
  define t2 where "t2 = upd_q Control (dma_write cp cmd) (t1\<lparr>m_vq := q2\<rparr>)"
  have "submitCommand e (Some cmd) resp t = submit_locked e cmd resp t0"
    using use cmd by (simp add: submitCommand_def queue_usable_def t0_def)
  also have "\<dots> = submit_stage e cmd resp c r (t1\<lparr>m_vq := q2\<rparr>)"
    using pop(1) by (simp only: submit_locked_def Let_def t1_def [symmetric] sum.case prod.case)
  also have "\<dots> = submit_publish e cmd resp c r False cp rp t2"
    using q2(1,2) t1(2,3) b(3,4) cmd(2)
    by (simp add: submit_stage_def submit_phys_def t2_def dma_write_def)
  finally show ?thesis
    using that pop(2) b(2,5) q2(3-6) t1 use
    by (simp add: t2_def dma_write_def can_notify_def queue_usable_def)
qed

lemma submit_rpc_full:
  assumes live: "queue_live t"
    and cmd: "24 \<le> length cmd" "length cmd \<le> 4096"
    and dev: "serving f (vq_size (m_vq t)) ready e" "\<exists>k<150. ready (tr_tick t + 1 + k)"
  shows "\<exists>t'. submitCommand e (Some cmd) resp t
                = (resp_status (rpc_answer f cmd resp t), rpc_answer f cmd resp t, t')
           \<and> vq_idle (m_vq t') \<and> tr_sent t' = tr_sent t @ [(Control, cmd)]"
proof -
  have idle: "avail_flags_idx (vq_mem (m_vq t)) = vq_avail_idx (m_vq t)"
    "used_idx (vq_mem (m_vq t)) = vq_avail_idx (m_vq t)" and use: "queue_usable t"
    using live by (auto simp: queue_live_def vq_idle_def)
  have m: "vq_mem (m_vq t) = dev_step e Control (tr_tick t) (vq_mem (m_vq t))"
    using dev(1) idle by (simp add: serving_def serve_idle)
  obtain c r cp rp rl t2 where
    eq: "submitCommand e (Some cmd) resp t = submit_publish e cmd resp c r False cp rp t2"
    and cr: "c \<noteq> r" and rb: "vq_resp_buf (m_vq t) = Some (rp, rl)" and ne: "cp \<noteq> rp"
    and t2: "can_notify t2" "tr_tick t2 = tr_tick t + 1" "tr_sent t2 = tr_sent t"
      "vq_size (m_vq t2) = vq_size (m_vq t)" "vq_avail_idx (m_vq t2) = vq_avail_idx (m_vq t)"
      "vq_last_used (m_vq t2) = used_idx (vq_mem (m_vq t))"
      "vq_mem (m_vq t2) = (vq_mem (m_vq t))
         \<lparr>dma := (dma (vq_mem (m_vq t)))(cp := overwrite cmd (dma (vq_mem (m_vq t)) cp))\<rparr>"
    by (rule submit_reaches_publish [OF use cmd m])
  have "\<exists>t4. submit_publish e cmd resp c r False cp rp t2 = submit_complete c r False rp resp t4
    \<and> dma (vq_mem (m_vq t4)) rp = overwrite (take (min (resp_size resp) VIRTIO_GPU_RESP_BUF_SIZE)
          (f cmd)) (dma (vq_mem (m_vq t2)) rp)
    \<and> vq_idle (m_vq t4) \<and> tr_sent t4 = tr_sent t2 @ [(Control, cmd)]"
    by (rule rpc_submit_publish) (use dev cr cmd t2 idle in \<open>simp_all add: vq_idle_def\<close>)
  then obtain t4 where t4: "submit_publish e cmd resp c r False cp rp t2
        = submit_complete c r False rp resp t4"
    "dma (vq_mem (m_vq t4)) rp = overwrite (take (min (resp_size resp) VIRTIO_GPU_RESP_BUF_SIZE)
          (f cmd)) (dma (vq_mem (m_vq t2)) rp)"
    "vq_idle (m_vq t4)" "tr_sent t4 = tr_sent t2 @ [(Control, cmd)]" by blast
  have "copy_resp VIRTIO_GPU_RESP_BUF_SIZE (dma (vq_mem (m_vq t4)) rp) resp = rpc_answer f cmd resp t"
    using t4(2) t2(7) rb ne by (simp add: rpc_answer_def resp_dma_def)
  with eq t4 t2(3) show ?thesis
    by (simp add: submit_complete_eq Let_def give_back_def) (simp add: vq_idle_def)
qed

section \<open>Effects of a submission on the rest of the transport\<close>

text \<open>The members no submission on the control queue changes.\<close>

definition tr_fixed :: "transport \<Rightarrow> virtqueue \<times> bool \<times> bool \<times> u32 \<times> u32 \<times> u32 \<times> u32" where
  "tr_fixed t = (m_cursor_vq t, m_notify_base t, m_notify_map t, m_notify_cap_offset t,
                 m_notify_offset t, m_cursor_notify_offset t, m_notify_off_multiplier t)"

lemma poll_frame:
  "poll_used e Control n t = (b, t') \<Longrightarrow>
     tr_fixed t' = tr_fixed t \<and> tr_sent t' = tr_sent t \<and> tr_trace t' = tr_trace t
     \<and> tr_temp t' = tr_temp t \<and> tr_tick t' \<le> tr_tick t + n"
proof (induction n arbitrary: t)
  case 0
  then show ?case by simp
next
  case (Suc n)
  let ?t = "device_runs e Control t"
  have f: "tr_fixed ?t = tr_fixed t" "tr_sent ?t = tr_sent t" "tr_trace ?t = tr_trace t"
    "tr_temp ?t = tr_temp t" "tr_tick ?t = tr_tick t + 1"
    by (simp_all add: device_runs_def tr_fixed_def)
  show ?case
  proof (cases "used_idx (vq_mem (m_vq ?t)) = vq_last_used (m_vq ?t)")
    case True
    then have "poll_used e Control n ?t = (b, t')" using Suc.prems by (simp add: Let_def)
    from Suc.IH [OF this] f show ?thesis by simp
  next
    case False
    then show ?thesis using Suc.prems f by (auto simp: Let_def)
  qed
qed

lemma length_copy_resp [simp]: "map_option length (copy_resp cap buf resp) = map_option length resp"
  by (cases resp) (auto simp: copy_resp_def)

text \<open>The write that rings the control queue's doorbell, and the caller's buffer after a copied response.\<close>

definition bell :: "transport \<Rightarrow> io_event" where
  "bell t = Doorbell (doorbell_addr (m_notify_offset t) t) 0"

definition answered :: "bytes option \<Rightarrow> transport \<Rightarrow> bytes option \<Rightarrow> transport \<Rightarrow> bool" where
  "answered resp t resp' t' \<longleftrightarrow> (\<exists>rp rl. vq_resp_buf (m_vq t) = Some (rp, rl)
     \<and> resp' = copy_resp VIRTIO_GPU_RESP_BUF_SIZE (dma (vq_mem (m_vq t')) rp) resp)"

definition completed :: "io_return \<Rightarrow> bool" where
  "completed ret \<longleftrightarrow> ret \<in> {kIOReturnSuccess, kIOReturnError}"

text \<open>
  What a submission does from the copied command on: \<open>temp\<close> says whether the command is in a temporary buffer,
  \<open>cp\<close> is the physical address it was given.
\<close>

definition effect_ok ::
  "bytes \<Rightarrow> bytes option \<Rightarrow> bool \<Rightarrow> u64 \<Rightarrow> transport \<Rightarrow> io_return \<Rightarrow> bytes option \<Rightarrow> transport \<Rightarrow> bool" where
  "effect_ok cmd resp temp cp t ret resp' t' \<longleftrightarrow>
     tr_fixed t' = tr_fixed t \<and> map_option length resp' = map_option length resp
     \<and> (ret \<in> {kIOReturnSuccess, kIOReturnError, kIOReturnTimeout} \<longrightarrow>
          tr_sent t' = tr_sent t @ [(Control, cmd)] \<and> tr_trace t' = tr_trace t @ [bell t])
     \<and> (ret \<in> {kIOReturnNoMemory, Kernel_panic} \<longrightarrow> tr_sent t' = tr_sent t \<and> tr_trace t' = tr_trace t)
     \<and> (ret = kIOReturnNotReady \<longrightarrow>
          \<not> can_notify t \<and> tr_sent t' = tr_sent t @ [(Control, cmd)] \<and> tr_trace t' = tr_trace t)
     \<and> (if completed ret then ret = resp_status resp' \<and> answered resp t resp' t' else resp' = resp)
     \<and> ret \<in> {kIOReturnSuccess, kIOReturnError, kIOReturnTimeout, kIOReturnNoMemory,
              kIOReturnNotReady, Kernel_panic}
     \<and> (cp = 0 \<longrightarrow> ret = kIOReturnNoMemory) \<and> (ret = Kernel_panic \<longrightarrow> vq_resp_buf (m_vq t) = None)
     \<and> tr_temp t' = tr_temp t - (if temp \<and> (completed ret \<or> cp = 0) then 1 else 0)
     \<and> tr_tick t' \<le> tr_tick t + 150"

lemma bell_cong: "tr_fixed t = tr_fixed u \<Longrightarrow> bell t = bell u \<and> can_notify t = can_notify u"
  by (simp add: bell_def doorbell_addr_def can_notify_def tr_fixed_def)

lemma notify_device_None: "notify_device Control t = None \<longleftrightarrow> \<not> can_notify t"
  by (auto simp: notify_device_def can_notify_def Let_def)

lemma notify_device_Some:
  "notify_device Control t = Some t' \<Longrightarrow> tr_fixed t' = tr_fixed t \<and> tr_sent t' = tr_sent t
     \<and> tr_temp t' = tr_temp t \<and> tr_tick t' = tr_tick t \<and> tr_trace t' = tr_trace t @ [bell t]"
  by (auto simp: notify_device_def Let_def tr_fixed_def bell_def split: if_splits)

lemma give_back_frame [simp]:
  "tr_fixed (give_back Control c r t) = tr_fixed t" "tr_sent (give_back Control c r t) = tr_sent t"
  "tr_trace (give_back Control c r t) = tr_trace t" "tr_temp (give_back Control c r t) = tr_temp t"
  "tr_tick (give_back Control c r t) = tr_tick t" "can_notify (give_back Control c r t) = can_notify t"
  "vq_mem (m_vq (give_back Control c r t)) = vq_mem (m_vq t)"
  by (simp_all add: give_back_def tr_fixed_def can_notify_def push_pair_def push_free_def)

lemma release_temp_frame [simp]:
  "tr_fixed (release_temp b t) = tr_fixed t" "tr_sent (release_temp b t) = tr_sent t"
  "tr_trace (release_temp b t) = tr_trace t" "tr_tick (release_temp b t) = tr_tick t"
  "tr_temp (release_temp b t) = tr_temp t - (if b then 1 else 0)"
  "can_notify (release_temp b t) = can_notify t" "m_vq (release_temp b t) = m_vq t"
  by (simp_all add: release_temp_def tr_fixed_def can_notify_def)

lemma resp_status_cases: "resp_status r = kIOReturnSuccess \<or> resp_status r = kIOReturnError"
  by (simp add: resp_status_def Let_def split: option.splits)

lemma effect_submit_publish:
  assumes "submit_publish e cmd resp c r temp cp rp t = (ret, resp', t')"
    and "cp \<noteq> 0" "vq_resp_buf (m_vq t) = Some (rp, rl)"
  shows "effect_ok cmd resp temp cp t ret resp' t'"
proof -
  let ?n = "min (resp_size resp) VIRTIO_GPU_RESP_BUF_SIZE"
  define p where "p = publish Control c r cmd cp rp ?n t"
  define t2 where "t2 = p\<lparr>m_notify_count := m_notify_count p + 1\<rparr>"
  have p2: "tr_fixed t2 = tr_fixed t" "tr_sent t2 = tr_sent t @ [(Control, cmd)]"
    "tr_trace t2 = tr_trace t" "tr_temp t2 = tr_temp t" "tr_tick t2 = tr_tick t"
    by (simp_all add: t2_def p_def publish_def tr_fixed_def)
  note b2 = bell_cong [OF p2(1)]
  have eq: "submit_publish e cmd resp c r temp cp rp t = (case notify_device Control t2 of
           None \<Rightarrow> (kIOReturnNotReady, resp, give_back Control c r t2)
         | Some t3 \<Rightarrow>
             (case poll_used e Control 150 t3 of
                (False, t4) \<Rightarrow> (kIOReturnTimeout, resp, give_back Control c r t4)
              | (True, t4) \<Rightarrow> submit_complete c r temp rp resp t4))"
    by (simp only: submit_publish_def Let_def t2_def p_def)
  show ?thesis
  proof (cases "notify_device Control t2")
    case None
    with assms eq p2 b2 show ?thesis
      by (auto simp: effect_ok_def notify_device_None completed_def)
  next
    case (Some t3)
    obtain b t4 where q: "poll_used e Control 150 t3 = (b, t4)" by fastforce
    note f = notify_device_Some [OF Some] poll_frame [OF q]
    show ?thesis
    proof (cases b)
      case False
      with assms eq p2 b2 Some q f show ?thesis by (auto simp: effect_ok_def completed_def)
    next
      case True
      let ?a = "copy_resp VIRTIO_GPU_RESP_BUF_SIZE (dma (vq_mem (m_vq t4)) rp) resp"
      let ?t5 = "t4\<lparr>m_vq := (m_vq t4)\<lparr>vq_last_used := vq_last_used (m_vq t4) + 1\<rparr>\<rparr>"
      have "tr_fixed ?t5 = tr_fixed t4" by (simp add: tr_fixed_def)
      moreover have r: "ret = resp_status ?a" "resp' = ?a"
        "t' = release_temp temp (give_back Control c r ?t5)"
        using assms(1) eq Some q True by (auto simp: submit_complete_def Let_def)
      moreover have "answered resp t resp' t'" "completed ret"
        using r assms(3) resp_status_cases [of ?a] by (simp_all add: answered_def completed_def)
      ultimately show ?thesis
        using f p2 b2 assms(2) resp_status_cases [of ?a] by (auto simp: effect_ok_def)
    qed
  qed
qed

lemma effect_submit_phys:
  assumes "submit_phys e cmd resp c r temp cp t = (ret, resp', t')"
  shows "effect_ok cmd resp temp cp t ret resp' t'"
proof (cases "cp = 0 \<or> vq_resp_buf (m_vq t) = None \<or> (\<exists>rl. vq_resp_buf (m_vq t) = Some (0, rl))")
  case True
  with assms show ?thesis
    by (auto simp: submit_phys_def effect_ok_def completed_def split: if_splits)
next
  case False
  then obtain rp rl where b: "vq_resp_buf (m_vq t) = Some (rp, rl)" "rp \<noteq> 0" "cp \<noteq> 0"
    by (cases "vq_resp_buf (m_vq t)") auto
  with assms have "submit_publish e cmd resp c r temp cp rp t = (ret, resp', t')"
    by (simp add: submit_phys_def)
  then show ?thesis using effect_submit_publish b by blast
qed

text \<open>
  The effect of the whole call, per return code. \<open>temp_taken\<close>: the command does not fit the static buffer and
  was given a temporary one with a physical address.
\<close>

definition queue_up :: "transport \<Rightarrow> bool" where
  "queue_up t \<longleftrightarrow> vq_initialized (m_vq t) \<and> vq_mapped (m_vq t)"

definition temp_taken :: "device_env \<Rightarrow> bytes \<Rightarrow> nat \<Rightarrow> transport \<Rightarrow> bool" where
  "temp_taken e cmd n t \<longleftrightarrow>
     (\<exists>sp cap tp. vq_cmd_buf (m_vq t) = Some (sp, cap) \<and> cap < length cmd
        \<and> temp_alloc e n (length cmd) = Some tp \<and> tp \<noteq> 0)"

definition leaving :: "io_return \<Rightarrow> bool" where
  "leaving ret \<longleftrightarrow> ret \<in> {kIOReturnTimeout, kIOReturnNotReady, kIOReturnNoMemory, Kernel_panic}"

definition buffers_missing :: "transport \<Rightarrow> bool" where
  "buffers_missing t \<longleftrightarrow> vq_cmd_buf (m_vq t) = None \<or> vq_resp_buf (m_vq t) = None"

definition submit_effect ::
  "device_env \<Rightarrow> bytes \<Rightarrow> bytes option \<Rightarrow> transport \<Rightarrow> io_return \<Rightarrow> bytes option \<Rightarrow> transport \<Rightarrow> bool" where
  "submit_effect e cmd resp t ret resp' t' \<longleftrightarrow>
     tr_fixed t' = tr_fixed t \<and> map_option length resp' = map_option length resp
     \<and> (ret \<in> {kIOReturnSuccess, kIOReturnError, kIOReturnTimeout} \<longrightarrow>
          tr_sent t' = tr_sent t @ [(Control, cmd)] \<and> tr_trace t' = tr_trace t @ [bell t])
     \<and> (ret \<in> {kIOReturnNoMemory, kIOReturnNoResources, kIOReturnBadArgument, Kernel_panic} \<longrightarrow>
          tr_sent t' = tr_sent t \<and> tr_trace t' = tr_trace t)
     \<and> (ret = kIOReturnNotReady \<longrightarrow> tr_trace t' = tr_trace t
          \<and> (if queue_up t then \<not> can_notify t \<and> tr_sent t' = tr_sent t @ [(Control, cmd)]
              else tr_sent t' = tr_sent t))
     \<and> (ret = kIOReturnBadArgument \<longleftrightarrow> length cmd < sizeof_hdr)
     \<and> (if completed ret then ret = resp_status resp' \<and> answered resp t resp' t' else resp' = resp)
     \<and> ret \<in> {kIOReturnSuccess, kIOReturnError, kIOReturnTimeout, kIOReturnNoMemory,
              kIOReturnNoResources, kIOReturnNotReady, kIOReturnBadArgument, Kernel_panic}
     \<and> (ret = Kernel_panic \<longrightarrow> buffers_missing t)
     \<and> tr_temp t' = tr_temp t
          + (if queue_up t \<and> temp_taken e cmd (tr_tick t + 1) t \<and> leaving ret then 1 else 0)
     \<and> tr_tick t' \<le> tr_tick t + 151"

text \<open>The part of it from the descriptors on, where the queue is known to be up.\<close>

definition stage_effect ::
  "device_env \<Rightarrow> bytes \<Rightarrow> bytes option \<Rightarrow> transport \<Rightarrow> io_return \<Rightarrow> bytes option \<Rightarrow> transport \<Rightarrow> bool" where
  "stage_effect e cmd resp t ret resp' t' \<longleftrightarrow>
     tr_fixed t' = tr_fixed t \<and> map_option length resp' = map_option length resp
     \<and> (ret \<in> {kIOReturnSuccess, kIOReturnError, kIOReturnTimeout} \<longrightarrow>
          tr_sent t' = tr_sent t @ [(Control, cmd)] \<and> tr_trace t' = tr_trace t @ [bell t])
     \<and> (ret \<in> {kIOReturnNoMemory, Kernel_panic} \<longrightarrow> tr_sent t' = tr_sent t \<and> tr_trace t' = tr_trace t)
     \<and> (ret = kIOReturnNotReady \<longrightarrow>
          \<not> can_notify t \<and> tr_sent t' = tr_sent t @ [(Control, cmd)] \<and> tr_trace t' = tr_trace t)
     \<and> (if completed ret then ret = resp_status resp' \<and> answered resp t resp' t' else resp' = resp)
     \<and> ret \<in> {kIOReturnSuccess, kIOReturnError, kIOReturnTimeout, kIOReturnNoMemory,
              kIOReturnNotReady, Kernel_panic}
     \<and> (ret = Kernel_panic \<longrightarrow> buffers_missing t)
     \<and> tr_temp t' = tr_temp t + (if temp_taken e cmd (tr_tick t) t \<and> leaving ret then 1 else 0)
     \<and> tr_tick t' \<le> tr_tick t + 150"

lemma effect_submit_stage:
  assumes "submit_stage e cmd resp c r t = (ret, resp', t')"
  shows "stage_effect e cmd resp t ret resp' t'"
proof -
  have f: "tr_fixed (upd_q Control (dma_write a cmd) (t\<lparr>tr_temp := k\<rparr>)) = tr_fixed t"
    "vq_resp_buf (m_vq (upd_q Control (dma_write a cmd) (t\<lparr>tr_temp := k\<rparr>))) = vq_resp_buf (m_vq t)" for a k
    by (simp_all add: tr_fixed_def dma_write_def)
  have g: "answered resp (upd_q Control (dma_write a cmd) (t\<lparr>tr_temp := k\<rparr>)) resp' t' = answered resp t resp' t'" for a k
    by (simp only: answered_def f)
  note bc = bell_cong [OF f(1)]
  show ?thesis
  proof (cases "vq_cmd_buf (m_vq t)")
    case None
    with assms show ?thesis
      by (auto simp: submit_stage_def stage_effect_def completed_def temp_taken_def buffers_missing_def)
  next
    case (Some b)
    obtain sp cap where b: "b = (sp, cap)" by (cases b)
    show ?thesis
    proof (cases "length cmd \<le> cap")
      case True
      let ?t = "upd_q Control (dma_write sp cmd) (t\<lparr>tr_temp := tr_temp t\<rparr>)"
      have "submit_phys e cmd resp c r False sp ?t = (ret, resp', t')"
        using assms Some b True by (simp add: submit_stage_def)
      note ph = effect_submit_phys [OF this]
      have "\<not> temp_taken e cmd (tr_tick t) t" using Some b True by (auto simp: temp_taken_def)
      moreover have "ret \<in> {kIOReturnSuccess, kIOReturnError, kIOReturnTimeout, kIOReturnNoMemory,
          kIOReturnNotReady, Kernel_panic}" using ph by (simp add: effect_ok_def)
      ultimately show ?thesis
        using ph f [of sp "tr_temp t"] g [of sp "tr_temp t"] bc [of sp "tr_temp t"]
        unfolding effect_ok_def stage_effect_def
        by (elim insertE; simp add: completed_def leaving_def buffers_missing_def)
    next
      case big: False
      show ?thesis
      proof (cases "temp_alloc e (tr_tick t) (length cmd)")
        case None
        with assms Some b big show ?thesis
          by (auto simp: submit_stage_def stage_effect_def completed_def temp_taken_def)
      next
        case tp: (Some tp)
        let ?t = "upd_q Control (dma_write tp cmd) (t\<lparr>tr_temp := tr_temp t + 1\<rparr>)"
        have "submit_phys e cmd resp c r True tp ?t = (ret, resp', t')"
          using assms Some tp b big by (simp add: submit_stage_def)
        note ph = effect_submit_phys [OF this]
        have "temp_taken e cmd (tr_tick t) t = (tp \<noteq> 0)" using Some b big tp by (auto simp: temp_taken_def)
        moreover have "ret \<in> {kIOReturnSuccess, kIOReturnError, kIOReturnTimeout, kIOReturnNoMemory,
            kIOReturnNotReady, Kernel_panic}" using ph by (simp add: effect_ok_def)
        ultimately show ?thesis
          using ph f [of tp "tr_temp t + 1"] g [of tp "tr_temp t + 1"] bc [of tp "tr_temp t + 1"]
          unfolding effect_ok_def stage_effect_def
          by (elim insertE; simp add: completed_def leaving_def buffers_missing_def)
      qed
    qed
  qed
qed

lemma stage_submit_effect:
  assumes st: "stage_effect e cmd resp u ret resp' t'"
    and same: "tr_fixed u = tr_fixed t" "tr_sent u = tr_sent t" "tr_trace u = tr_trace t" "tr_temp u = tr_temp t"
      "tr_tick u = tr_tick t + 1" "vq_cmd_buf (m_vq u) = vq_cmd_buf (m_vq t)" "vq_resp_buf (m_vq u) = vq_resp_buf (m_vq t)"
    and up: "queue_up t" "\<not> length cmd < 24"
  shows "submit_effect e cmd resp t ret resp' t'"
proof -
  have eqs: "temp_taken e cmd n u = temp_taken e cmd n t" "buffers_missing u = buffers_missing t"
    "answered resp u resp' t' = answered resp t resp' t'" "bell u = bell t" "can_notify u = can_notify t" for n
    using same bell_cong [OF same(1)] by (simp_all add: temp_taken_def buffers_missing_def answered_def)
  have "ret \<in> {kIOReturnSuccess, kIOReturnError, kIOReturnTimeout, kIOReturnNoMemory,
              kIOReturnNotReady, Kernel_panic}" using st by (simp add: stage_effect_def)
  then show ?thesis
    using st up unfolding submit_effect_def stage_effect_def same eqs by (elim insertE; simp add: completed_def)
qed

lemma effect_submitCommand:
  assumes "submitCommand e (Some cmd) resp t = (ret, resp', t')"
  shows "submit_effect e cmd resp t ret resp' t'"
proof (cases "length cmd < 24 \<or> \<not> vq_initialized (m_vq t) \<or> \<not> vq_mapped (m_vq t)")
  case True
  with assms show ?thesis
    by (auto simp: submitCommand_def submit_effect_def completed_def leaving_def queue_up_def split: if_splits)
next
  case False
  define t1 where "t1 = upd_q Control vq_drain
      (device_runs e Control (t\<lparr>m_submit_count := m_submit_count t + 1\<rparr>))"
  have f: "tr_fixed (t1\<lparr>m_vq := q\<rparr>) = tr_fixed t" "tr_sent t1 = tr_sent t" "tr_trace t1 = tr_trace t"
    "tr_temp t1 = tr_temp t" "tr_tick t1 = tr_tick t + 1" "vq_core (m_vq t1) = vq_core (m_vq t)" for q
    using core_device_runs [of Control e Control "t\<lparr>m_submit_count := m_submit_count t + 1\<rparr>"]
    by (simp_all add: t1_def device_runs_def tr_fixed_def core_vq_drain)
  note bc = bell_cong [OF f(1)]
  have up: "queue_up t" "\<not> length cmd < 24" using False by (auto simp: queue_up_def)
  have "submit_locked e cmd resp (t\<lparr>m_submit_count := m_submit_count t + 1\<rparr>) = (ret, resp', t')"
    using assms False by (simp add: submitCommand_def)
  then have eq: "(case pop_pair (m_vq t1) of
           Inl q \<Rightarrow> (kIOReturnNoResources, resp, t1\<lparr>m_vq := q\<rparr>)
         | Inr (c, r, q) \<Rightarrow> submit_stage e cmd resp c r (t1\<lparr>m_vq := q\<rparr>)) = (ret, resp', t')"
    by (simp only: submit_locked_def Let_def t1_def)
  show ?thesis
  proof (cases "pop_pair (m_vq t1)")
    case (Inl q)
    with eq f up show ?thesis by (auto simp: submit_effect_def completed_def leaving_def)
  next
    case (Inr p)
    obtain c r q where p: "p = (c, r, q)" by (cases p)
    with Inr eq have st: "submit_stage e cmd resp c r (t1\<lparr>m_vq := q\<rparr>) = (ret, resp', t')" by simp
    have q: "vq_cmd_buf q = vq_cmd_buf (m_vq t)" "vq_resp_buf q = vq_resp_buf (m_vq t)"
      using f(6) Inr p pop_pair_bufs(1,2) [of "m_vq t1" c r q] by (auto simp: vq_core_def)
    show ?thesis
      by (rule stage_submit_effect [OF effect_submit_stage [OF st]]) (simp_all add: f q up)
  qed
qed

section \<open>The contract of a command channel\<close>

text \<open>A history of submissions on one channel, with the result of each.\<close>

fun run_submits ::
  "(bytes \<Rightarrow> bytes option \<Rightarrow> transport \<Rightarrow> submit_result) \<Rightarrow> (bytes \<times> bytes option) list \<Rightarrow> transport
     \<Rightarrow> (io_return \<times> bytes option) list \<times> transport" where
  "run_submits submit [] t = ([], t)"
| "run_submits submit ((c, r) # cs) t =
     (case submit c r t of
        (ret, r', t') \<Rightarrow>
          (case run_submits submit cs t' of (rs, t'') \<Rightarrow> ((ret, r') # rs, t'')))"

locale command_channel =
  fixes submit :: "bytes \<Rightarrow> bytes option \<Rightarrow> transport \<Rightarrow> submit_result"
    and qi :: queue_id
  assumes core_kept: "submit c r t = (ret, r', t') \<Longrightarrow> bufs_ok (the_q qi t) \<Longrightarrow>
      vq_core (the_q qi t') = vq_core (the_q qi t)"
    and no_panic: "submit c r t = (ret, r', t') \<Longrightarrow> bufs_ok (the_q qi t) \<Longrightarrow> ret \<noteq> Kernel_panic"
    and other_kept: "submit c r t = (ret, r', t') \<Longrightarrow> qj \<noteq> qi \<Longrightarrow> the_q qj t' = the_q qj t"
    and resp_kept: "submit c r t = (ret, r', t') \<Longrightarrow> map_option length r' = map_option length r"
begin

lemma bufs_kept: "submit c r t = (ret, r', t') \<Longrightarrow> bufs_ok (the_q qi t) \<Longrightarrow> bufs_ok (the_q qi t')"
  using core_kept [of c r t ret r' t'] by (simp add: bufs_ok_def vq_core_def)

lemma run_core:
  "run_submits submit cs t = (rs, t') \<Longrightarrow> bufs_ok (the_q qi t) \<Longrightarrow>
     vq_core (the_q qi t') = vq_core (the_q qi t) \<and> bufs_ok (the_q qi t')
     \<and> Kernel_panic \<notin> fst ` set rs"
proof (induction cs arbitrary: t rs)
  case Nil
  then show ?case by simp
next
  case (Cons cr cs)
  obtain c r where cr: "cr = (c, r)" by (cases cr)
  obtain ret r' t1 where s: "submit c r t = (ret, r', t1)" by (cases "submit c r t")
  obtain rs' where rs: "run_submits submit cs t1 = (rs', t')" "rs = (ret, r') # rs'"
    using Cons.prems(1) cr s by (auto split: prod.splits)
  have ih: "vq_core (the_q qi t') = vq_core (the_q qi t1)" "bufs_ok (the_q qi t')"
    "Kernel_panic \<notin> fst ` set rs'"
    using Cons.IH [OF rs(1) bufs_kept [OF s Cons.prems(2)]] by simp_all
  show ?case
    using ih core_kept [OF s Cons.prems(2)] no_panic [OF s Cons.prems(2)] rs(2) by simp
qed

lemma run_inv:
  assumes "run_submits submit cs t = (rs, t')" "bufs_ok (the_q qi t)" "vq_inv free (the_q qi t)"
  shows "vq_inv free (the_q qi t')"
  using run_core [OF assms(1,2)] assms(3) by (simp add: vq_core_def vq_inv_def)

lemma run_other:
  "run_submits submit cs t = (rs, t') \<Longrightarrow> qj \<noteq> qi \<Longrightarrow> the_q qj t' = the_q qj t"
proof (induction cs arbitrary: t rs)
  case Nil
  then show ?case by simp
next
  case (Cons cr cs)
  obtain c r where cr: "cr = (c, r)" by (cases cr)
  obtain ret r' t1 where s: "submit c r t = (ret, r', t1)" by (cases "submit c r t")
  then obtain rs' where rs: "run_submits submit cs t1 = (rs', t')"
    using Cons.prems(1) cr by (auto split: prod.splits)
  show ?case using Cons.IH [OF rs Cons.prems(2)] other_kept [OF s Cons.prems(2)] by simp
qed

end

lemma cursor_frame:
  assumes "cursor_publish e cmd resp c r cp rp t = (ret, resp', t')"
  shows "m_vq t' = m_vq t \<and> map_option length resp' = map_option length resp"
proof -
  define t2 where "t2 = (case notify_device Cursor (publish Cursor c r cmd cp rp (min (resp_size resp) 64) t)
     of None \<Rightarrow> publish Cursor c r cmd cp rp (min (resp_size resp) 64) t | Some rung \<Rightarrow> rung)"
  have t2: "m_vq t2 = m_vq t"
    using core_notify [of Cursor _ _ Control]
    by (auto simp: t2_def publish_def split: option.splits)
  have poll: "poll_used e Cursor n u = (b, u') \<Longrightarrow> m_vq u' = m_vq u" for n b u u'
    by (induction n arbitrary: u) (auto simp: Let_def device_runs_def split: if_splits)
  obtain b t3 where p: "poll_used e Cursor (Suc (cursor_reads e (tr_tick t2))) t2 = (b, t3)"
    by fastforce
  have "(case (b, t3) of (False, t3) \<Rightarrow> (kIOReturnTimeout, resp, give_back Cursor c r t3)
     | (True, t3) \<Rightarrow> (kIOReturnSuccess, copy_resp 64 (dma (vq_mem (m_cursor_vq t3)) rp) resp,
         give_back Cursor c r (t3\<lparr>m_cursor_vq := (m_cursor_vq t3)
           \<lparr>vq_last_used := vq_last_used (m_cursor_vq t3) + 1\<rparr>\<rparr>))) = (ret, resp', t')"
    using assms by (simp only: cursor_publish_def Let_def t2_def [symmetric] p)
  then show ?thesis
    using poll [OF p] t2 by (cases b) (auto simp: give_back_def)
qed

interpretation ctl: command_channel "\<lambda>c. submitCommand e (Some c)" Control
proof
  fix c r t ret r' t' qj
  assume s: "submitCommand e (Some c) r t = (ret, r', t')"
  show "bufs_ok (the_q Control t) \<Longrightarrow> vq_core (the_q Control t') = vq_core (the_q Control t)"
    "bufs_ok (the_q Control t) \<Longrightarrow> ret \<noteq> Kernel_panic"
    using core_submitCommand [OF s] by simp_all
  show "qj \<noteq> Control \<Longrightarrow> the_q qj t' = the_q qj t" "map_option length r' = map_option length r"
    using effect_submitCommand [OF s]
    by (cases qj; simp add: submit_effect_def tr_fixed_def)+
qed

interpretation cur: command_channel "submitCursorCommand e" Cursor
proof
  fix c r t ret r' t' qj
  assume s: "submitCursorCommand e c r t = (ret, r', t')"
  show "bufs_ok (the_q Cursor t) \<Longrightarrow> vq_core (the_q Cursor t') = vq_core (the_q Cursor t)"
    "bufs_ok (the_q Cursor t) \<Longrightarrow> ret \<noteq> Kernel_panic"
    using core_submitCursorCommand [OF s] by simp_all
  have "m_vq t' = m_vq t \<and> map_option length r' = map_option length r"
    using s cursor_frame
    by (fastforce simp: submitCursorCommand_def Let_def split: if_splits sum.splits option.splits)
  then show "qj \<noteq> Cursor \<Longrightarrow> the_q qj t' = the_q qj t" "map_option length r' = map_option length r"
    by (cases qj; simp)+
qed

section \<open>A concrete transport\<close>

text \<open>
  A queue of four descriptors with its buffers at 0x10000 and 0x20000, and a device that answers
  every command with the 24 bytes of an \<open>OK_NODATA\<close> header at its third observation. They
  instantiate the hypotheses below.
\<close>

definition sample_queue :: virtqueue where
  "sample_queue = \<lparr>vq_initialized = True, vq_mapped = True, vq_size = 4, vq_free_head = 0,
     vq_free_next = [1, 2, 3, FREE_END], vq_last_used = 0, vq_avail_idx = 0,
     vq_mem = \<lparr>desc_tab = (\<lambda>_. zero_desc), avail_flags_idx = 0, avail_ring = (\<lambda>_. 0), used_idx = 0,
                used_ring = (\<lambda>_. zero_used_elem), dma = (\<lambda>_. [])\<rparr>,
     vq_cmd_buf = Some (0x10000, 4096), vq_resp_buf = Some (0x20000, 4096)\<rparr>"

definition sample_transport :: transport where
  "sample_transport = \<lparr>m_vq = sample_queue, m_cursor_vq = sample_queue, m_notify_base = True,
     m_notify_map = True, m_notify_cap_offset = 0x3000, m_notify_offset = 0,
     m_cursor_notify_offset = 1, m_notify_off_multiplier = 4, m_submit_count = 0, m_notify_count = 0,
     tr_tick = 0, tr_trace = [], tr_sent = [], tr_temp = 0\<rparr>"

definition ok_reply :: bytes where
  "ok_reply = enc_hdr (mk_hdr VIRTIO_GPU_RESP_OK_NODATA 0)"

text \<open>A descriptor of \<open>len\<close> bytes in pages of 4096 bytes at 0x40000000.\<close>

definition sample_desc :: "nat \<Rightarrow> nat \<Rightarrow> memdesc" where
  "sample_desc n len = \<lparr>md_id = n, md_length = len,
     md_seg = (\<lambda>off. if off < len then (0x40000000 + word_of_nat off, min (4096 - off mod 4096) (len - off))
                       else (0, 0)),
     md_prepare = kIOReturnSuccess, md_map = None\<rparr>"

definition sample_env :: device_env where
  "sample_env = \<lparr>dev_step = (\<lambda>qi n m. if 2 \<le> n then serve (\<lambda>_. ok_reply) 4 m else m),
     temp_alloc = (\<lambda>_ _. None), cursor_reads = (\<lambda>_. 10),
     kmalloc = (\<lambda>_ n. Some (replicate n 0)),
     bmd_alloc = (\<lambda>n len. if len < 0x100000 then Some (sample_desc n len) else None),
     bytes_desc = (\<lambda>n bs. Some ((sample_desc n (length bs))\<lparr>md_map := Some bs\<rparr>)),
     user_desc = (\<lambda>n _ len. if len < 0x100000 then Some (sample_desc n (unat len)) else None)\<rparr>"

lemma sample_inv: "vq_inv [0, 1, 2, 3] sample_queue"
  by (simp add: vq_inv_def sample_queue_def)

lemma sample_bufs: "bufs_ok sample_queue"
  by (simp add: bufs_ok_def sample_queue_def)

lemma sample_live: "queue_live sample_transport"
proof -
  have "\<exists>free. 2 \<le> length free \<and> vq_inv free (m_vq sample_transport)"
    using sample_inv by (intro exI [of _ "[0, 1, 2, 3]"]) (simp add: sample_transport_def)
  then show ?thesis
    by (simp add: queue_live_def queue_usable_def)
      (simp add: sample_transport_def sample_queue_def vq_idle_def can_notify_def)
qed

lemma sample_serving: "serving (\<lambda>_. ok_reply) 4 (\<lambda>n. 2 \<le> n) sample_env"
  by (simp add: serving_def sample_env_def)

section \<open>Properties\<close>

text \<open>C5. Descriptor conservation on the control queue: after any history of submissions, with any device
  behaviour and whatever each submission returns (success, device error, timeout, no memory, no
  doorbell), the free list is the list it was before, no call dereferences a missing buffer, and the
  cursor queue is untouched.\<close>

theorem control_free_list_restored:
  assumes "bufs_ok (m_vq t)" "vq_inv free (m_vq t)"
    and "run_submits (\<lambda>c. submitCommand e (Some c)) cmds t = (rs, t')"
  shows "vq_inv free (m_vq t') \<and> vringFreeDepth (m_vq t') = length free
         \<and> Kernel_panic \<notin> fst ` set rs \<and> m_cursor_vq t' = m_cursor_vq t"
  using ctl.run_core [OF assms(3)] ctl.run_inv [OF assms(3)] ctl.run_other [OF assms(3), of Cursor]
    free_depth [of free "m_vq t'"] assms(1,2)
  by simp

theorem control_free_list_restored_witness:
  "\<exists>rs t'. run_submits (\<lambda>c. submitCommand sample_env (Some c)) [(ok_reply, None), (ok_reply, None)]
      sample_transport = (rs, t') \<and> vq_inv [0, 1, 2, 3] (m_vq t')"
proof -
  obtain rs t' where r: "run_submits (\<lambda>c. submitCommand sample_env (Some c))
      [(ok_reply, None), (ok_reply, None)] sample_transport = (rs, t')" by fastforce
  have "vq_inv [0, 1, 2, 3] (m_vq t')"
    using control_free_list_restored [OF _ _ r] sample_inv sample_bufs
    by (simp add: sample_transport_def)
  with r show ?thesis by blast
qed

text \<open>Descriptor conservation on the cursor queue: the same for any history of cursor commands; the
  control queue is untouched.\<close>

theorem cursor_free_list_restored:
  assumes "bufs_ok (m_cursor_vq t)" "vq_inv free (m_cursor_vq t)"
    and "run_submits (submitCursorCommand e) cmds t = (rs, t')"
  shows "vq_inv free (m_cursor_vq t') \<and> Kernel_panic \<notin> fst ` set rs \<and> m_vq t' = m_vq t"
  using cur.run_core [OF assms(3)] cur.run_inv [OF assms(3)] cur.run_other [OF assms(3), of Control]
    assms(1,2)
  by simp

theorem cursor_free_list_restored_witness:
  "\<exists>rs t'. run_submits (submitCursorCommand sample_env) [(ok_reply, None)] sample_transport = (rs, t')
      \<and> vq_inv [0, 1, 2, 3] (m_cursor_vq t')"
proof -
  obtain rs t' where r: "run_submits (submitCursorCommand sample_env) [(ok_reply, None)]
      sample_transport = (rs, t')" by fastforce
  have "vq_inv [0, 1, 2, 3] (m_cursor_vq t')"
    using cursor_free_list_restored [OF _ _ r] sample_inv sample_bufs
    by (simp add: sample_transport_def)
  with r show ?thesis by blast
qed

text \<open>C6. Effect of one submission, for any device, per return code. Success, device error and timeout: the
  command was published exactly once and the control doorbell rung exactly once, at its address with its value.
  \<open>NotReady\<close>: the doorbell was not rung, and the command was published exactly when the queue was up and it is
  the doorbell that is missing. \<open>NoMemory\<close>, \<open>NoResources\<close>, \<open>BadArgument\<close> (exactly for a command shorter than a
  header): neither. Only on completion is the caller's buffer written, with what the response buffer holds, and
  the code is the status of that response. A temporary command buffer that was obtained stays allocated on a
  timeout, \<open>NotReady\<close> and \<open>NoMemory\<close>, and in no other case does the number of buffers change. The code
  dereferences a missing buffer only if one is missing. The call looks at the device at most 151 times.\<close>

theorem submitCommand_effect:
  assumes "submitCommand e (Some cmd) resp t = (ret, resp', t')"
  shows "submit_effect e cmd resp t ret resp' t'"
  using assms by (rule effect_submitCommand)

theorem submitCommand_effect_witness:
  "\<exists>ret resp' t'. submitCommand sample_env (Some ok_reply) (Some (zeros 24)) sample_transport
       = (ret, resp', t') \<and> submit_effect sample_env ok_reply (Some (zeros 24)) sample_transport ret resp' t'"
proof -
  obtain ret resp' t' where r: "submitCommand sample_env (Some ok_reply) (Some (zeros 24))
      sample_transport = (ret, resp', t')" by (rule prod_cases3)
  with submitCommand_effect [OF r] show ?thesis by blast
qed

lemma live_kept:
  assumes "queue_live t" "submitCommand e (Some cmd) resp t = (ret, resp', t')" "vq_idle (m_vq t')"
  shows "queue_live t' \<and> vq_size (m_vq t') = vq_size (m_vq t)"
proof -
  have "bufs_ok (m_vq t)" using assms(1) by (auto simp: queue_live_def queue_usable_def bufs_ok_def)
  then have c: "vq_core (m_vq t') = vq_core (m_vq t)"
    using core_submitCommand [OF assms(2)] by simp
  have "can_notify t' = can_notify t"
    using effect_submitCommand [OF assms(2)] by (simp add: submit_effect_def tr_fixed_def can_notify_def)
  moreover have "vq_inv free (m_vq t') = vq_inv free (m_vq t)" for free
    using c by (simp add: vq_inv_def vq_core_def)
  ultimately show ?thesis
    using assms(1,3) c by (auto simp: queue_live_def queue_usable_def vq_core_def)
qed

lemma rpc_answer_full:
  assumes "length r \<le> length (f cmd)" "length r \<le> 4096"
  shows "rpc_answer f cmd (Some r) t = Some (take (length r) (f cmd))"
  using assms by (simp add: rpc_answer_def copy_resp_def resp_size_def overwrite_def buf_read_def min_def)

text \<open>C4. Remote procedure call: against a device that answers every command \<open>c\<close> with \<open>f c\<close>, at its own pace
  but within 150 of the driver's observations, any sequence of commands submitted on a live queue
  returns, for each command in turn, exactly the prefix of \<open>f c\<close> that fits the caller's buffer and
  the status of that answer; the device sees exactly those commands in that order, and the queue is
  live again.\<close>

theorem submit_refines_rpc:
  assumes "queue_live t" "serving f (vq_size (m_vq t)) ready e" "\<forall>n. \<exists>k<150. ready (n + k)"
    and "\<forall>(c, r) \<in> set cmds. 24 \<le> length c \<and> length c \<le> 4096
           \<and> (\<exists>b. r = Some b \<and> length b \<le> length (f c) \<and> length b \<le> 4096)"
  shows "\<exists>t'. run_submits (\<lambda>c. submitCommand e (Some c)) cmds t
           = (map (\<lambda>(c, r). (resp_status (Some (take (resp_size r) (f c))),
                              Some (take (resp_size r) (f c)))) cmds, t')
         \<and> queue_live t' \<and> tr_sent t' = tr_sent t @ map (\<lambda>(c, r). (Control, c)) cmds"
  using assms
proof (induction cmds arbitrary: t)
  case Nil
  then show ?case by simp
next
  case (Cons cr cmds)
  obtain c r where cr: "cr = (c, Some r)" "24 \<le> length c" "length c \<le> 4096"
    "length r \<le> length (f c)" "length r \<le> 4096"
    using Cons.prems(4) by (cases cr) auto
  obtain t1 where t1: "submitCommand e (Some c) (Some r) t
       = (resp_status (Some (take (length r) (f c))), Some (take (length r) (f c)), t1)"
    "vq_idle (m_vq t1)" "tr_sent t1 = tr_sent t @ [(Control, c)]"
    using submit_rpc_full [OF Cons.prems(1) cr(2,3) Cons.prems(2) spec [OF Cons.prems(3)], of "Some r"]
      rpc_answer_full [where f = f and cmd = c and t = t, OF cr(4,5)] by auto
  have l: "queue_live t1" "vq_size (m_vq t1) = vq_size (m_vq t)"
    using live_kept [OF Cons.prems(1) t1(1,2)] by simp_all
  from Cons.IH [OF l(1)] Cons.prems l(2)
  obtain t' where "run_submits (\<lambda>c. submitCommand e (Some c)) cmds t1
           = (map (\<lambda>(c, r). (resp_status (Some (take (resp_size r) (f c))),
                              Some (take (resp_size r) (f c)))) cmds, t')"
    "queue_live t'" "tr_sent t' = tr_sent t1 @ map (\<lambda>(c, r). (Control, c)) cmds" by auto
  with cr(1) t1 show ?case by (simp add: resp_size_def)
qed

theorem submit_refines_rpc_witness:
  "\<exists>t'. run_submits (\<lambda>c. submitCommand sample_env (Some c)) [(ok_reply, Some (zeros 24))] sample_transport
     = (map (\<lambda>(c, r). (resp_status (Some (take (resp_size r) ok_reply)),
                         Some (take (resp_size r) ok_reply))) [(ok_reply, Some (zeros 24))], t')
   \<and> queue_live t' \<and> tr_sent t' = tr_sent sample_transport
        @ map (\<lambda>(c, r). (Control, c)) [(ok_reply, Some (zeros 24))]"
proof (rule submit_refines_rpc [where ready = "\<lambda>n. 2 \<le> n" and f = "\<lambda>_. ok_reply"])
  show "queue_live sample_transport" by (rule sample_live)
  show "serving (\<lambda>_. ok_reply) (vq_size (m_vq sample_transport)) (\<lambda>n. 2 \<le> n) sample_env"
    using sample_serving by (simp add: sample_transport_def sample_queue_def)
  show "\<forall>n :: nat. \<exists>k<150. 2 \<le> n + k" by (intro allI exI [of _ 2]) simp
qed (simp add: ok_reply_def)

lemma poll_silent:
  assumes "\<forall>n m. used_idx (dev_step e Control n m) = used_idx m"
  shows "used_idx (vq_mem (m_vq t)) = vq_last_used (m_vq t) \<Longrightarrow>
     \<exists>t'. poll_used e Control n t = (False, t') \<and> tr_tick t' = tr_tick t + n"
proof (induction n arbitrary: t)
  case 0
  then show ?case by simp
next
  case (Suc n)
  let ?t = "device_runs e Control t"
  have u: "used_idx (vq_mem (m_vq ?t)) = vq_last_used (m_vq ?t)" "tr_tick ?t = tr_tick t + 1"
    using assms Suc.prems by (simp_all add: device_runs_def)
  from Suc.IH [OF u(1)] u show ?case by (auto simp: Let_def)
qed

text \<open>C7. Bounded wait: if the device completes nothing while the driver watches, the call returns a timeout
  after exactly 150 polls (and the one look that drains the ring), leaves the caller's buffer alone, the
  command stays visible to the device with the doorbell rung once, and both descriptors are back: whatever
  the free list was, it is the same list again. The loop cannot hang on a dead device.\<close>

theorem submit_times_out:
  assumes "queue_usable t" "24 \<le> length cmd" "length cmd \<le> 4096"
    and "\<forall>n m. used_idx (dev_step e Control n m) = used_idx m"
  shows "\<exists>t'. submitCommand e (Some cmd) resp t = (kIOReturnTimeout, resp, t')
           \<and> tr_tick t' = tr_tick t + 151 \<and> tr_sent t' = tr_sent t @ [(Control, cmd)]
           \<and> tr_trace t' = tr_trace t @ [bell t]
           \<and> (\<forall>free. vq_inv free (m_vq t') = vq_inv free (m_vq t)) \<and> vringFreeDepth (m_vq t') = vringFreeDepth (m_vq t)"
proof -
  let ?m = "dev_step e Control (tr_tick t) (vq_mem (m_vq t))"
  obtain c r cp rp rl t2 where
    eq: "submitCommand e (Some cmd) resp t = submit_publish e cmd resp c r False cp rp t2"
    and t2: "can_notify t2" "tr_tick t2 = tr_tick t + 1"
      "vq_last_used (m_vq t2) = used_idx ?m"
      "vq_mem (m_vq t2) = ?m\<lparr>dma := (dma ?m)(cp := overwrite cmd (dma ?m cp))\<rparr>"
    by (rule submit_reaches_publish [OF assms(1-3) refl])
  let ?p = "publish Control c r cmd cp rp (min (resp_size resp) VIRTIO_GPU_RESP_BUF_SIZE) t2"
  let ?p1 = "?p\<lparr>m_notify_count := m_notify_count ?p + 1\<rparr>"
  have note_some: "\<exists>t3. notify_device Control ?p1 = Some t3 \<and> m_vq t3 = m_vq ?p \<and> tr_tick t3 = tr_tick t2"
    using notify_device_ok [of ?p1] t2(1) by (simp add: can_notify_def publish_frame)
  then obtain t3 where t3: "notify_device Control ?p1 = Some t3" "m_vq t3 = m_vq ?p"
    "tr_tick t3 = tr_tick t2" by blast
  have "used_idx (vq_mem (m_vq t3)) = vq_last_used (m_vq t3)"
    using t2(3,4) t3(2)
    by (simp add: publish_def push_avail_def fill_descs_def Let_def)
  from poll_silent [OF assms(4) this, of 150] obtain t4 where
    t4: "poll_used e Control 150 t3 = (False, t4)" "tr_tick t4 = tr_tick t3 + 150" by blast
  have r: "submitCommand e (Some cmd) resp t = (kIOReturnTimeout, resp, give_back Control c r t4)"
    using eq t3(1) t4(1) by (simp add: submit_publish_def Let_def)
  have "bufs_ok (m_vq t)" using assms(1) by (auto simp: queue_usable_def bufs_ok_def)
  then have core: "vq_core (m_vq (give_back Control c r t4)) = vq_core (m_vq t)"
    using core_submitCommand [OF r] by simp
  then have inv: "\<forall>free. vq_inv free (m_vq (give_back Control c r t4)) = vq_inv free (m_vq t)"
    by (simp add: vq_inv_def vq_core_def)
  obtain free where fr: "vq_inv free (m_vq t)" using assms(1) by (auto simp: queue_usable_def)
  have "vringFreeDepth (m_vq (give_back Control c r t4)) = vringFreeDepth (m_vq t)"
    using free_depth [OF fr] free_depth [of free "m_vq (give_back Control c r t4)"] fr inv by simp
  with inv r effect_submitCommand [OF r] t4(2) t3(3) t2(2) show ?thesis
    by (simp add: submit_effect_def)
qed

theorem submit_times_out_witness:
  "\<exists>t'. submitCommand (sample_env\<lparr>dev_step := (\<lambda>_ _ m. m)\<rparr>) (Some ok_reply) None sample_transport
       = (kIOReturnTimeout, None, t')
     \<and> tr_tick t' = tr_tick sample_transport + 151
     \<and> tr_sent t' = tr_sent sample_transport @ [(Control, ok_reply)]
     \<and> tr_trace t' = tr_trace sample_transport @ [bell sample_transport]
     \<and> (\<forall>free. vq_inv free (m_vq t') = vq_inv free (m_vq sample_transport))
     \<and> vringFreeDepth (m_vq t') = vringFreeDepth (m_vq sample_transport)"
  by (rule submit_times_out) (use sample_live in \<open>simp_all add: queue_live_def ok_reply_def\<close>)

text \<open>Late completions: a submission takes the first completion the device reports after the drain as
  the answer to its own command. When an earlier command has timed out and is still outstanding, and
  the device finishes that one while the driver polls, its answer \<open>x\<close> is returned for the new
  command, which is itself still outstanding when the call returns. (The used element's id is
  compared with the submitted descriptor, but a mismatch is only logged.)\<close>

theorem late_completion_taken:
  assumes use: "queue_usable t" and cmd: "24 \<le> length cmd" "length cmd \<le> 4096"
    and out: "used_idx (vq_mem (m_vq t)) + 1 = vq_avail_idx (m_vq t)"
    and rb: "vq_resp_buf (m_vq t) = Some (rp, rl)"
    and quiet: "dev_step e Control (tr_tick t) = (\<lambda>m. m)"
    and late: "dev_step e Control (tr_tick t + 1)
                 = (\<lambda>m. m\<lparr>dma := (dma m)(rp := x), used_idx := used_idx m + 1\<rparr>)"
    and len: "length r \<le> length x" "length r \<le> 4096"
  shows "\<exists>t'. submitCommand e (Some cmd) (Some r) t
                = (resp_status (Some (take (length r) x)), Some (take (length r) x), t')
           \<and> avail_flags_idx (vq_mem (m_vq t')) = used_idx (vq_mem (m_vq t')) + 1"
proof -
  let ?m = "vq_mem (m_vq t)" and ?n = "min (length r) VIRTIO_GPU_RESP_BUF_SIZE"
  have m: "?m = dev_step e Control (tr_tick t) ?m" using quiet by simp
  obtain c d cp rp' rl' t2 where
    eq: "submitCommand e (Some cmd) (Some r) t = submit_publish e cmd (Some r) c d False cp rp' t2"
    and rb': "vq_resp_buf (m_vq t) = Some (rp', rl')"
    and t2: "can_notify t2" "tr_tick t2 = tr_tick t + 1" "vq_avail_idx (m_vq t2) = vq_avail_idx (m_vq t)"
      "vq_last_used (m_vq t2) = used_idx ?m"
      "vq_mem (m_vq t2) = ?m\<lparr>dma := (dma ?m)(cp := overwrite cmd (dma ?m cp))\<rparr>"
    by (rule submit_reaches_publish [OF use cmd m])
  define p where "p = publish Control c d cmd cp rp ?n t2"
  define p1 where "p1 = p\<lparr>m_notify_count := m_notify_count p + 1\<rparr>"
  define t3 where "t3 = p1\<lparr>tr_trace := tr_trace p1 @ [Doorbell (doorbell_addr (m_notify_offset p1) p1) 0]\<rparr>"
  have n3: "notify_device Control p1 = Some t3"
    using notify_device_ok [of p1] t2(1) by (simp add: t3_def p1_def p_def can_notify_def publish_frame)
  have t3: "tr_tick t3 = tr_tick t + 1" "vq_last_used (m_vq t3) = used_idx ?m"
    "used_idx (vq_mem (m_vq t3)) = used_idx ?m"
    "avail_flags_idx (vq_mem (m_vq t3)) = vq_avail_idx (m_vq t) + 1"
    using t2 by (simp_all add: t3_def p1_def p_def publish_def push_avail_def fill_descs_def Let_def)
  define t4 where "t4 = device_runs e Control t3"
  have t4: "used_idx (vq_mem (m_vq t4)) = used_idx ?m + 1" "vq_last_used (m_vq t4) = used_idx ?m"
    "dma (vq_mem (m_vq t4)) rp = x"
    "avail_flags_idx (vq_mem (m_vq t4)) = vq_avail_idx (m_vq t) + 1"
    using t3 late by (simp_all add: t4_def device_runs_def)
  have "poll_used e Control (Suc 149) t3 = (True, t4)"
    using t4(1,2) by (simp only: poll_used.simps(2) Let_def t4_def [symmetric]) simp
  then have p150: "poll_used e Control 150 t3 = (True, t4)" by simp
  have "submitCommand e (Some cmd) (Some r) t = submit_complete c d False rp (Some r) t4"
    using eq rb rb' n3 p150
    by (simp add: submit_publish_def Let_def resp_size_def p1_def p_def)
  moreover have "copy_resp VIRTIO_GPU_RESP_BUF_SIZE x (Some r) = Some (take (length r) x)"
    using len by (simp add: copy_resp_def overwrite_def buf_read_def)
  ultimately show ?thesis
    using t4 out by (simp add: submit_complete_eq Let_def give_back_def push_pair_def push_free_def)
qed

theorem late_completion_taken_witness:
  "\<exists>t'. submitCommand (sample_env\<lparr>dev_step := (\<lambda>_ n m. if n = 1
           then m\<lparr>dma := (dma m)(0x20000 := ok_reply), used_idx := used_idx m + 1\<rparr> else m)\<rparr>)
         (Some (enc_hdr (mk_hdr VIRTIO_GPU_CMD_GET_CAPSET 7))) (Some (zeros 24))
         (sample_transport\<lparr>m_vq := sample_queue\<lparr>vq_avail_idx := 1\<rparr>\<rparr>)
       = (resp_status (Some (take (length (zeros 24)) ok_reply)), Some (take (length (zeros 24)) ok_reply), t')
     \<and> avail_flags_idx (vq_mem (m_vq t')) = used_idx (vq_mem (m_vq t')) + 1"
proof (rule late_completion_taken [where rp = "0x20000" and rl = 4096])
  have "\<exists>free. 2 \<le> length free \<and> vq_inv free (sample_queue\<lparr>vq_avail_idx := 1\<rparr>)"
    using sample_inv by (intro exI [of _ "[0, 1, 2, 3]"]) (simp add: vq_inv_def)
  then show "queue_usable (sample_transport\<lparr>m_vq := sample_queue\<lparr>vq_avail_idx := 1\<rparr>\<rparr>)"
    by (simp add: queue_usable_def) (simp add: sample_transport_def sample_queue_def can_notify_def)
qed (simp_all add: sample_transport_def sample_queue_def ok_reply_def)

text \<open>The cursor queue never reports a device error: a submission succeeds as soon as the device returns the chain,
  whatever response type it wrote; the other outcomes are a timeout, a queue that is not set up and a queue with
  fewer than two free descriptors, and none of these touches the caller's response.\<close>

theorem cursor_ignores_answer:
  assumes "bufs_ok (m_cursor_vq t)" "submitCursorCommand e cmd resp t = (ret, resp', t')"
  shows "ret \<in> {kIOReturnSuccess, kIOReturnTimeout, kIOReturnNotReady, kIOReturnNoResources}
     \<and> (ret \<noteq> kIOReturnSuccess \<longrightarrow> resp' = resp)"
proof -
  have "r \<in> {kIOReturnSuccess, kIOReturnTimeout} \<and> (r \<noteq> kIOReturnSuccess \<longrightarrow> a = resp)"
    if "cursor_publish e cmd resp c d cp rp u = (r, a, u')" for c d cp rp u r a u'
    using that by (auto simp: cursor_publish_def Let_def split: prod.splits bool.splits)
  moreover have "vq_initialized (m_cursor_vq t) \<longrightarrow> vq_cmd_buf q \<noteq> None \<and> vq_resp_buf q \<noteq> None"
    if "pop_pair (m_cursor_vq t) = Inr (c, d, q)" for c d q
    using pop_pair_bufs(1,2) [OF that] assms(1) by (simp add: bufs_ok_def)
  ultimately show ?thesis
    using assms by (fastforce simp: submitCursorCommand_def Let_def bufs_ok_def split: if_splits sum.splits prod.splits option.splits)
qed

theorem cursor_ignores_answer_witness:
  "\<exists>ret resp' t'. submitCursorCommand sample_env (replicate 56 0) (Some (zeros 24)) sample_transport = (ret, resp', t')
     \<and> ret \<in> {kIOReturnSuccess, kIOReturnTimeout, kIOReturnNotReady, kIOReturnNoResources}"
proof -
  obtain ret resp' t' where r: "submitCursorCommand sample_env (replicate 56 0) (Some (zeros 24)) sample_transport
      = (ret, resp', t')" by (rule prod_cases3)
  have "bufs_ok (m_cursor_vq sample_transport)" using sample_bufs by (simp add: sample_transport_def)
  from cursor_ignores_answer [OF this r] r show ?thesis by blast
qed

end
