(* ===== verification/Gpu.thy ===== *)
theory Gpu
  imports Transport
begin

text \<open>
  The state of the driver object \<^verbatim>\<open>VMVirtIOGPU\<close> beyond the transport: the resource pool, the id
  counters, the contexts and the device limits; its initialisation, the command header helper and
  the relay \<^verbatim>\<open>sendDisplayCommand\<close>. Also the walk over the physical segments of a memory
  descriptor, which the kernel-side and the client-side attach both perform.
\<close>

section \<open>State\<close>

record gpu_resource =
  resource_id :: u32
  res_width :: u32
  res_height :: u32
  res_format :: u32
  backing_memory :: "memdesc option"
  is_3d :: bool
  in_use :: bool

record gpu_3d_context =
  context_id :: u32
  ctx_resource_id :: u32
  ctx_active :: bool

text \<open>
  \<open>m_pci_device\<close>, \<open>m_control_queue\<close> and \<open>m_framebuffer\<close> record whether the pointer is non-null;
  \<open>fb_taken_by_3d\<close> is the framebuffer's flag that \<^verbatim>\<open>setScanoutTakenOverBy3D\<close> sets. The last three fields
  are bookkeeping of the model: how often each memory descriptor is wired (\<^verbatim>\<open>prepare\<close> minus
  \<^verbatim>\<open>complete\<close>), the references the driver holds to it, and the \<^verbatim>\<open>IOMalloc\<close> blocks not freed.
\<close>

record gpu =
  g_tr :: transport
  m_pci_device :: bool
  m_control_queue :: bool
  m_framebuffer :: bool
  fb_taken_by_3d :: bool
  m_max_scanouts :: u32
  m_num_capsets :: u32
  m_fence_id :: u64
  m_is_mock_device :: bool
  m_resource_pool :: "gpu_resource list"
  m_resource_count :: u32
  m_next_resource_id :: u32
  m_next_user_resource_id :: u32
  m_display_resource_id :: u32
  m_contexts :: "gpu_3d_context list"
  m_next_context_id :: u32
  s_next_user_ctx_id :: u32
  g_wired :: "nat \<Rightarrow> int"
  g_refs :: "nat \<Rightarrow> int"
  g_heap :: nat

definition free_slot :: gpu_resource where
  "free_slot = \<lparr>resource_id = 0, res_width = 0, res_height = 0, res_format = 0,
     backing_memory = None, is_3d = False, in_use = False\<rparr>"

definition init_queue :: virtqueue where
  "init_queue = \<lparr>vq_initialized = False, vq_mapped = False, vq_size = 0, vq_free_head = 0,
     vq_free_next = [], vq_last_used = 0, vq_avail_idx = 0,
     vq_mem = \<lparr>desc_tab = (\<lambda>_. zero_desc), avail_flags_idx = 0, avail_ring = (\<lambda>_. 0), used_idx = 0,
                used_ring = (\<lambda>_. zero_used_elem), dma = (\<lambda>_. [])\<rparr>,
     vq_cmd_buf = None, vq_resp_buf = None\<rparr>"

text \<open>\<^verbatim>\<open>init\<close>: every member at its initial value (the locks and the array are allocated).\<close>

definition gpu_init :: gpu where
  "gpu_init = \<lparr>g_tr = \<lparr>m_vq = init_queue, m_cursor_vq = init_queue, m_notify_base = False,
       m_notify_map = False, m_notify_cap_offset = 0, m_notify_offset = 0,
       m_cursor_notify_offset = 0, m_notify_off_multiplier = 0, m_submit_count = 0,
       m_notify_count = 0, tr_tick = 0, tr_trace = [], tr_sent = [], tr_temp = 0\<rparr>,
     m_pci_device = False, m_control_queue = False, m_framebuffer = False, fb_taken_by_3d = False,
     m_max_scanouts = 0, m_num_capsets = 0, m_fence_id = 0, m_is_mock_device = False,
     m_resource_pool = replicate 64 free_slot, m_resource_count = 0, m_next_resource_id = 1,
     m_next_user_resource_id = 0x100, m_display_resource_id = 0, m_contexts = [],
     m_next_context_id = 1, s_next_user_ctx_id = 0x100,
     g_wired = (\<lambda>_. 0), g_refs = (\<lambda>_. 0), g_heap = 0\<rparr>"

definition supports3D :: "gpu \<Rightarrow> bool" where
  "supports3D g \<longleftrightarrow> m_num_capsets g > 0"

definition allocateUserResourceId :: "gpu \<Rightarrow> u32 \<times> gpu" where
  "allocateUserResourceId g =
     (m_next_user_resource_id g, g\<lparr>m_next_user_resource_id := m_next_user_resource_id g + 1\<rparr>)"

section \<open>Headers and sending\<close>

text \<open>\<^verbatim>\<open>initializeCommandHeader\<close>; it advances the fence counter when a fence is asked for.\<close>

definition initializeCommandHeader ::
  "virtio_gpu_ctrl_type \<Rightarrow> u32 \<Rightarrow> bool \<Rightarrow> gpu \<Rightarrow> virtio_gpu_ctrl_hdr \<times> gpu" where
  "initializeCommandHeader ty ctx use_fence g =
     (let g' = (if use_fence then g\<lparr>m_fence_id := m_fence_id g + 1\<rparr> else g)
      in (\<lparr>hdr_type = ctrl_code ty,
           hdr_flags = (if use_fence then VIRTIO_GPU_FLAG_INFO_RING_IDX OR VIRTIO_GPU_FLAG_FENCE
                        else VIRTIO_GPU_FLAG_INFO_RING_IDX),
           hdr_fence_id = (if use_fence then m_fence_id g' else 0), hdr_ctx_id = ctx,
           hdr_ring_idx = (if ty = VIRTIO_GPU_CMD_UPDATE_CURSOR \<or> ty = VIRTIO_GPU_CMD_MOVE_CURSOR
                           then 1 else 0),
           hdr_padding = (0, 0, 0)\<rparr>, g'))"

text \<open>\<^verbatim>\<open>submitCommand\<close> with a zeroed response structure of \<open>n\<close> bytes, as every caller uses it.\<close>

definition send :: "device_env \<Rightarrow> bytes \<Rightarrow> nat \<Rightarrow> gpu \<Rightarrow> io_return \<times> bytes \<times> gpu" where
  "send e cmd n g =
     (case submitCommand e (Some cmd) (Some (zeros n)) (g_tr g) of
        (ret, resp, t) \<Rightarrow> (ret, (case resp of None \<Rightarrow> zeros n | Some r \<Rightarrow> r), g\<lparr>g_tr := t\<rparr>))"

definition send_hdr :: "device_env \<Rightarrow> bytes \<Rightarrow> gpu \<Rightarrow> io_return \<times> u32 \<times> gpu" where
  "send_hdr e cmd g = (case send e cmd sizeof_hdr g of (ret, resp, g') \<Rightarrow> (ret, rd32 resp, g'))"

text \<open>\<^verbatim>\<open>sendDisplayCommand\<close>: the relay for the framebuffer and the user client.\<close>

definition sendDisplayCommand ::
  "device_env \<Rightarrow> bytes option \<Rightarrow> bytes option \<Rightarrow> gpu \<Rightarrow> io_return \<times> bytes option \<times> gpu" where
  "sendDisplayCommand e cmd resp g =
     (case cmd of
        None \<Rightarrow> (kIOReturnBadArgument, resp, g)
      | Some c \<Rightarrow>
          if length c = 0 then (kIOReturnBadArgument, resp, g)
          else case submitCommand e (Some c) resp (g_tr g) of
                 (ret, resp', t) \<Rightarrow> (ret, resp', g\<lparr>g_tr := t\<rparr>))"

section \<open>Memory descriptors\<close>

definition md_do_prepare :: "memdesc \<Rightarrow> gpu \<Rightarrow> gpu" where
  "md_do_prepare d g = g\<lparr>g_wired := (g_wired g)(md_id d := g_wired g (md_id d) + 1)\<rparr>"

definition md_complete :: "memdesc \<Rightarrow> gpu \<Rightarrow> gpu" where
  "md_complete d g = g\<lparr>g_wired := (g_wired g)(md_id d := g_wired g (md_id d) - 1)\<rparr>"

definition md_retain :: "memdesc \<Rightarrow> gpu \<Rightarrow> gpu" where
  "md_retain d g = g\<lparr>g_refs := (g_refs g)(md_id d := g_refs g (md_id d) + 1)\<rparr>"

definition md_release :: "memdesc \<Rightarrow> gpu \<Rightarrow> gpu" where
  "md_release d g = g\<lparr>g_refs := (g_refs g)(md_id d := g_refs g (md_id d) - 1)\<rparr>"

text \<open>
  The counting pass over the segments. The loop of the code runs until \<^verbatim>\<open>getPhysicalSegment\<close> answers
  0 or reports an empty segment; \<open>fuel\<close> bounds it, and \<open>None\<close> stands for running longer.
\<close>

fun seg_count :: "nat \<Rightarrow> memdesc \<Rightarrow> nat \<Rightarrow> nat \<Rightarrow> nat \<Rightarrow> (nat \<times> nat) option" where
  "seg_count 0 d off nr tot = None"
| "seg_count (Suc fuel) d off nr tot =
     (case md_seg d off of (a, len) \<Rightarrow>
        if a = 0 then Some (nr, tot)
        else if len = 0 then Some (nr + 1, tot)
        else seg_count fuel d (off + len) (nr + 1) (tot + len))"

text \<open>The filling pass: one entry per segment, in order.\<close>

fun seg_entries :: "memdesc \<Rightarrow> nat \<Rightarrow> nat \<Rightarrow> virtio_gpu_mem_entry list" where
  "seg_entries d off 0 = []"
| "seg_entries d off (Suc n) =
     (case md_seg d off of (a, len) \<Rightarrow>
        \<lparr>me_addr = a, me_length = word_of_nat len, me_padding = 0\<rparr> # seg_entries d (off + len) n)"

text \<open>
  The command block of an attach. The buffer comes from \<^verbatim>\<open>IOMalloc\<close> and only the listed fields are
  assigned, so \<open>ring_idx\<close> and the padding of the header keep what the memory held.
\<close>

definition junk_hdr :: "virtio_gpu_ctrl_type \<Rightarrow> u32 \<Rightarrow> bytes \<Rightarrow> virtio_gpu_ctrl_hdr" where
  "junk_hdr ty ctx mem = (mk_hdr ty ctx)\<lparr>hdr_ring_idx := buf_read 24 mem ! 20,
     hdr_padding := (buf_read 24 mem ! 21, buf_read 24 mem ! 22, buf_read 24 mem ! 23)\<rparr>"

definition attach_command :: "bytes \<Rightarrow> u32 \<Rightarrow> memdesc \<Rightarrow> nat \<Rightarrow> bytes" where
  "attach_command mem res d nr =
     wire_encode (junk_hdr VIRTIO_GPU_CMD_RESOURCE_ATTACH_BACKING 0 mem)
       (Resource_attach_backing res (word_of_nat nr) (seg_entries d 0 nr))"

text \<open>
  The contract of \<^verbatim>\<open>getPhysicalSegment\<close> on a prepared descriptor: at every offset inside it a non-empty
  segment that stays inside and is contiguous, and 0 past the end. The address of byte \<open>i\<close> is
  \<open>fst (md_seg d i)\<close>.
\<close>

definition seg_contract :: "memdesc \<Rightarrow> bool" where
  "seg_contract d \<longleftrightarrow>
     (\<forall>off. if off < md_length d
            then fst (md_seg d off) \<noteq> 0 \<and> 0 < snd (md_seg d off)
                 \<and> off + snd (md_seg d off) \<le> md_length d \<and> snd (md_seg d off) < 2 ^ 32
                 \<and> (\<forall>i < snd (md_seg d off).
                       fst (md_seg d (off + i)) = fst (md_seg d off) + word_of_nat i)
            else fst (md_seg d off) = 0)"

section \<open>The segment walk covers the descriptor\<close>

text \<open>The bytes of physical memory a scatter list names, in order.\<close>

definition entry_addrs :: "virtio_gpu_mem_entry \<Rightarrow> u64 list" where
  "entry_addrs en = map (\<lambda>i. me_addr en + word_of_nat i) [0..<unat (me_length en)]"

definition entries_total :: "virtio_gpu_mem_entry list \<Rightarrow> nat" where
  "entries_total es = sum_list (map (\<lambda>en. unat (me_length en)) es)"

lemma length_seg_entries [simp]: "length (seg_entries d off n) = n"
  by (induction n arbitrary: off) (auto split: prod.splits)

lemma seg_count_covers:
  assumes "seg_contract d"
  shows "off \<le> md_length d \<Longrightarrow> md_length d - off < fuel \<Longrightarrow>
    \<exists>k. seg_count fuel d off nr tot = Some (nr + k, tot + (md_length d - off))
      \<and> entries_total (seg_entries d off k) = md_length d - off
      \<and> concat (map entry_addrs (seg_entries d off k)) = map (\<lambda>i. fst (md_seg d i)) [off..<md_length d]
      \<and> (off < md_length d \<longrightarrow> 0 < k) \<and> k \<le> md_length d - off"
proof (induction fuel arbitrary: off nr tot)
  case 0
  then show ?case by simp
next
  case (Suc fuel)
  obtain a len where s: "md_seg d off = (a, len)" by fastforce
  show ?case
  proof (cases "off < md_length d")
    case False
    then have "a = 0" using assms s by (auto simp: seg_contract_def dest: spec [of _ off])
    then show ?thesis
      using Suc.prems False s by (intro exI [of _ 0]) (simp add: entries_total_def)
  next
    case True
    then have c: "a \<noteq> 0" "0 < len" "off + len \<le> md_length d" "len < 2 ^ 32"
      and lin: "\<forall>i<len. fst (md_seg d (off + i)) = a + word_of_nat i"
      using assms s by (auto simp: seg_contract_def dest!: spec [of _ off])
    have "off + len \<le> md_length d" "md_length d - (off + len) < fuel"
      using c Suc.prems True by auto
    from Suc.IH [OF this, of "nr + 1" "tot + len"] obtain k where
      k: "seg_count fuel d (off + len) (nr + 1) (tot + len)
            = Some (nr + 1 + k, tot + len + (md_length d - (off + len)))"
        "entries_total (seg_entries d (off + len) k) = md_length d - (off + len)"
        "concat (map entry_addrs (seg_entries d (off + len) k))
           = map (\<lambda>i. fst (md_seg d i)) [off + len..<md_length d]"
        "k \<le> md_length d - (off + len)" by blast
    have "[off..<md_length d] = [off..<off + len] @ [off + len..<md_length d]"
      using upt_add_eq_append [of off "off + len" "md_length d - (off + len)"] c(3) by simp
    then have split: "[off..<md_length d] = map (\<lambda>i. i + off) [0..<len] @ [off + len..<md_length d]"
      by (simp add: map_add_upt add.commute)
    have "entry_addrs \<lparr>me_addr = a, me_length = word_of_nat len, me_padding = 0\<rparr>
        = map (\<lambda>i. fst (md_seg d i)) (map (\<lambda>i. i + off) [0..<len])"
      using lin c(4) by (auto simp: entry_addrs_def unat_of_nat add.commute [of _ off])
    then show ?thesis
      using s c k True
      by (intro exI [of _ "Suc k"]) (simp add: entries_total_def unat_of_nat split)
  qed
qed

section \<open>What sending leaves alone\<close>

lemma send_frame: "send e cmd n g = (ret, resp, g') \<Longrightarrow> g' = g\<lparr>g_tr := g_tr g'\<rparr> \<and> length resp = n"
proof -
  assume s: "send e cmd n g = (ret, resp, g')"
  obtain r t where r: "submitCommand e (Some cmd) (Some (zeros n)) (g_tr g) = (ret, r, t)"
    and g': "g' = g\<lparr>g_tr := t\<rparr>" and resp: "resp = (case r of None \<Rightarrow> zeros n | Some b \<Rightarrow> b)"
    using s by (auto simp: send_def split: prod.splits)
  have "map_option length r = Some n"
    using effect_submitCommand [OF r] by (simp add: submit_effect_def)
  then show ?thesis using g' resp by auto
qed

lemma send_hdr_frame: "send_hdr e cmd g = (ret, ty, g') \<Longrightarrow> g' = g\<lparr>g_tr := g_tr g'\<rparr>"
  using send_frame by (auto simp: send_hdr_def split: prod.splits)

lemma send_hdr_no_panic:
  assumes "send_hdr e c g = (r, ty, g')" "bufs_ok (m_vq (g_tr g))"
  shows "r \<noteq> Kernel_panic \<and> vq_core (m_vq (g_tr g')) = vq_core (m_vq (g_tr g))"
proof -
  obtain a resp t where s: "submitCommand e (Some c) (Some (zeros 24)) (g_tr g) = (a, resp, t)"
    by (rule prod_cases3)
  then have "r = a" "g' = g\<lparr>g_tr := t\<rparr>" using assms(1) by (auto simp: send_hdr_def send_def)
  with core_submitCommand [OF s assms(2)] show ?thesis by simp
qed

lemma send_hdr_sent:
  assumes "send_hdr e c g = (ret, ty, g')" "ret \<in> {kIOReturnSuccess, kIOReturnError, kIOReturnTimeout}"
  shows "tr_sent (g_tr g') = tr_sent (g_tr g) @ [(Control, c)]"
proof -
  obtain a resp t where s: "submitCommand e (Some c) (Some (zeros 24)) (g_tr g) = (a, resp, t)"
    by (rule prod_cases3)
  then have "ret = a" "g' = g\<lparr>g_tr := t\<rparr>" using assms(1) by (auto simp: send_hdr_def send_def)
  with effect_submitCommand [OF s] assms(2) show ?thesis by (auto simp: submit_effect_def)
qed

lemma send_hdr_keeps:
  assumes "send_hdr e cmd g = (ret, ty, g')"
  shows "m_resource_pool g' = m_resource_pool g" "m_resource_count g' = m_resource_count g"
    "g_wired g' = g_wired g" "g_refs g' = g_refs g" "g_heap g' = g_heap g"
    "m_num_capsets g' = m_num_capsets g" "m_pci_device g' = m_pci_device g"
    "m_control_queue g' = m_control_queue g" "m_contexts g' = m_contexts g"
    "m_next_resource_id g' = m_next_resource_id g" "m_max_scanouts g' = m_max_scanouts g"
    "m_next_user_resource_id g' = m_next_user_resource_id g"
    "m_display_resource_id g' = m_display_resource_id g" "m_next_context_id g' = m_next_context_id g"
  using send_hdr_frame [OF assms] by (metis gpu.select_convs gpu.update_convs(1) gpu.surjective)+

lemma md_frame [simp]:
  "m_resource_pool (md_do_prepare d g) = m_resource_pool g" "m_resource_pool (md_complete d g) = m_resource_pool g"
  "m_resource_pool (md_retain d g) = m_resource_pool g" "m_resource_pool (md_release d g) = m_resource_pool g"
  "m_resource_count (md_do_prepare d g) = m_resource_count g" "m_resource_count (md_complete d g) = m_resource_count g"
  "m_resource_count (md_retain d g) = m_resource_count g" "m_resource_count (md_release d g) = m_resource_count g"
  "g_tr (md_do_prepare d g) = g_tr g" "g_tr (md_complete d g) = g_tr g"
  "g_tr (md_retain d g) = g_tr g" "g_tr (md_release d g) = g_tr g"
  "g_wired (md_retain d g) = g_wired g" "g_wired (md_release d g) = g_wired g"
  "g_refs (md_do_prepare d g) = g_refs g" "g_refs (md_complete d g) = g_refs g"
  "g_heap (md_do_prepare d g) = g_heap g" "g_heap (md_complete d g) = g_heap g"
  "g_heap (md_retain d g) = g_heap g" "g_heap (md_release d g) = g_heap g"
  "m_pci_device (md_do_prepare d g) = m_pci_device g" "m_pci_device (md_retain d g) = m_pci_device g"
  "m_control_queue (md_do_prepare d g) = m_control_queue g" "m_control_queue (md_retain d g) = m_control_queue g"
  by (simp_all add: md_do_prepare_def md_complete_def md_retain_def md_release_def)

lemma md_balance [simp]: "md_complete d (md_do_prepare d g) = g"
  by (simp add: md_complete_def md_do_prepare_def)

lemma md_ref_balance [simp]: "md_release d (md_retain d g) = g"
  by (simp add: md_release_def md_retain_def)

section \<open>Panic freedom\<close>

text \<open>An outcome is safe when a driver whose control queue has its buffers neither panics nor loses them.\<close>

definition safe :: "io_return \<Rightarrow> gpu \<Rightarrow> gpu \<Rightarrow> bool" where
  "safe ret g g' \<longleftrightarrow> (bufs_ok (m_vq (g_tr g)) \<longrightarrow> ret \<noteq> Kernel_panic \<and> bufs_ok (m_vq (g_tr g')))"

lemma safe_send_hdr [safe_rules]: "send_hdr e c g = (ret, ty, g') \<Longrightarrow> safe ret g g'"
  using send_hdr_no_panic [of e c g ret ty g'] by (auto simp: safe_def bufs_ok_def vq_core_def)

lemma safe_refl [simp]: "safe ret g g = (bufs_ok (m_vq (g_tr g)) \<longrightarrow> ret \<noteq> Kernel_panic)"
  by (simp add: safe_def)

lemma seg_terminates: "seg_contract d \<Longrightarrow> seg_count (Suc (md_length d)) d 0 0 0 \<noteq> None"
  using seg_count_covers [of d 0 "Suc (md_length d)" 0 0] by auto

section \<open>A device that accepts everything\<close>

text \<open>The driver is connected to a device that answers every command with \<open>OK_NODATA\<close> in time.\<close>

definition good_device :: "device_env \<Rightarrow> gpu \<Rightarrow> bool" where
  "good_device e g \<longleftrightarrow> queue_live (g_tr g)
     \<and> (\<exists>ready. serving (\<lambda>_. ok_reply) (vq_size (m_vq (g_tr g))) ready e \<and> (\<forall>n. \<exists>k<150. ready (n + k)))"

lemma rd32_ok_reply [simp]: "rd32 ok_reply = ctrl_code VIRTIO_GPU_RESP_OK_NODATA"
  by (simp add: ok_reply_def enc_hdr_def mk_hdr_def)

lemma length_ok_reply [simp]: "length ok_reply = 24"
  by (simp add: ok_reply_def)

lemma send_hdr_ok:
  assumes "good_device e g" "24 \<le> length cmd" "length cmd \<le> 4096"
  shows "\<exists>t. send_hdr e cmd g = (kIOReturnSuccess, ctrl_code VIRTIO_GPU_RESP_OK_NODATA, g\<lparr>g_tr := t\<rparr>)
     \<and> good_device e (g\<lparr>g_tr := t\<rparr>) \<and> tr_sent t = tr_sent (g_tr g) @ [(Control, cmd)]"
proof -
  obtain ready where live: "queue_live (g_tr g)"
    and dev: "serving (\<lambda>_. ok_reply) (vq_size (m_vq (g_tr g))) ready e" "\<forall>n. \<exists>k<150. ready (n + k)"
    using assms(1) by (auto simp: good_device_def)
  let ?a = "rpc_answer (\<lambda>_. ok_reply) cmd (Some (zeros 24)) (g_tr g)"
  obtain t where t: "submitCommand e (Some cmd) (Some (zeros 24)) (g_tr g) = (resp_status ?a, ?a, t)"
    "vq_idle (m_vq t)" "tr_sent t = tr_sent (g_tr g) @ [(Control, cmd)]"
    using submit_rpc_full [OF live assms(2,3) dev(1) spec [OF dev(2)]] by blast
  have a: "?a = Some ok_reply"
    by (subst rpc_answer_full) simp_all
  have "queue_live t \<and> vq_size (m_vq t) = vq_size (m_vq (g_tr g))"
    using live_kept [OF live t(1,2)] .
  then have "good_device e (g\<lparr>g_tr := t\<rparr>)"
    using dev by (auto simp: good_device_def)
  then show ?thesis
    using t a by (auto simp: send_hdr_def send_def resp_status_def Let_def)
qed

definition sample_gpu :: gpu where
  "sample_gpu = gpu_init\<lparr>g_tr := sample_transport, m_pci_device := True, m_control_queue := True,
     m_max_scanouts := 1, m_num_capsets := 1\<rparr>"

lemma sample_good: "good_device sample_env sample_gpu"
proof -
  have "\<forall>n :: nat. \<exists>k<150. 2 \<le> n + k" by (intro allI exI [of _ 2]) simp
  then show ?thesis
    using sample_live sample_serving
    by (auto simp: good_device_def sample_gpu_def sample_transport_def sample_queue_def
        intro!: exI [of _ "\<lambda>n. 2 \<le> n"])
qed

lemma sample_contract: "len < 2 ^ 30 \<Longrightarrow> seg_contract (sample_desc n len)"
  by (auto simp: seg_contract_def sample_desc_def word_unat_eq_iff unat_word_ariths unat_of_nat)

end
