(* ===== verification/Resources.thy ===== *)
theory Resources
  imports Gpu
begin

text \<open>
  The resource side of \<^verbatim>\<open>VMVirtIOGPU\<close>: the pool of 64 slots in which resource id 0 marks a free one,
  creation of 2D and 3D resources with their backing, release, the guest memory mapping and the
  driver's own self-check of the pool. The pool is an instance of the keyed table interface.
\<close>

section \<open>The pool\<close>

text \<open>\<^verbatim>\<open>findResource\<close>: free slots are skipped, so id 0 is never found.\<close>

fun find_slot :: "u32 \<Rightarrow> gpu_resource list \<Rightarrow> gpu_resource option" where
  "find_slot rid [] = None"
| "find_slot rid (s # ss) =
     (if resource_id s = 0 then find_slot rid ss
      else if resource_id s = rid then Some s
      else find_slot rid ss)"

definition findResource :: "gpu \<Rightarrow> u32 \<Rightarrow> gpu_resource option" where
  "findResource g rid = find_slot rid (m_resource_pool g)"

text \<open>Take the first free slot and raise the high-water mark; \<open>None\<close> when the pool is full.\<close>

definition pool_register :: "gpu_resource \<Rightarrow> gpu \<Rightarrow> gpu option" where
  "pool_register r g =
     (case slot_index resource_id 0 (m_resource_pool g) of
        None \<Rightarrow> None
      | Some i \<Rightarrow> Some (g\<lparr>m_resource_pool := (m_resource_pool g)[i := r],
                          m_resource_count := (if word_of_nat i \<ge> m_resource_count g
                                               then word_of_nat i + 1 else m_resource_count g)\<rparr>))"

section \<open>Backing memory\<close>

definition attachBacking :: "device_env \<Rightarrow> u32 \<Rightarrow> memdesc option \<Rightarrow> gpu \<Rightarrow> io_return \<times> gpu" where
  "attachBacking e rid backing g =
     (if \<not> m_pci_device g \<or> \<not> m_control_queue g then (kIOReturnNotReady, g)
      else case backing of
        None \<Rightarrow> (kIOReturnBadArgument, g)
      | Some d \<Rightarrow>
          if md_prepare d \<noteq> kIOReturnSuccess then (md_prepare d, g)
          else let g1 = md_do_prepare d g in
            case seg_count (Suc (md_length d)) d 0 0 0 of
              None \<Rightarrow> (Kernel_panic, g1)
            | Some (nr_entries, total_length) \<Rightarrow>
                if nr_entries = 0 \<or> total_length = 0 then (kIOReturnNoMemory, md_complete d g1)
                else case kmalloc e (tr_tick (g_tr g1)) (32 + nr_entries * 16) of
                  None \<Rightarrow> (kIOReturnNoMemory, md_complete d g1)
                | Some mem \<Rightarrow>
                    (case send_hdr e (attach_command mem rid d nr_entries) g1 of
                       (attach_ret, _, g2) \<Rightarrow> (attach_ret, md_complete d g2)))"

section \<open>Creating resources\<close>

definition unref_command :: "u32 \<Rightarrow> bytes" where
  "unref_command rid = wire_encode (mk_hdr VIRTIO_GPU_CMD_RESOURCE_UNREF 0) (Resource_unref rid)"

definition create2d_command :: "u32 \<Rightarrow> u32 \<Rightarrow> u32 \<Rightarrow> u32 \<Rightarrow> bytes" where
  "create2d_command rid fmt w h =
     wire_encode (mk_hdr VIRTIO_GPU_CMD_RESOURCE_CREATE_2D 0) (Resource_create_2d rid fmt w h)"

text \<open>The second half of \<^verbatim>\<open>createResource2D\<close>: attach the chosen backing, then register the resource.\<close>

definition create2d_attach ::
  "device_env \<Rightarrow> u32 \<Rightarrow> u32 \<Rightarrow> u32 \<Rightarrow> u32 \<Rightarrow> memdesc \<Rightarrow> bool \<Rightarrow> gpu \<Rightarrow> io_return \<times> gpu" where
  "create2d_attach e rid fmt w h d driver_owns g =
     (case attachBacking e rid (Some d) g of (attach_ret, g1) \<Rightarrow>
        if attach_ret \<noteq> kIOReturnSuccess
        then (attach_ret, if driver_owns then md_release d (md_complete d g1) else g1)
        else case pool_register
                    \<lparr>resource_id = rid, res_width = w, res_height = h, res_format = fmt,
                     backing_memory = (if driver_owns then Some d else None),
                     is_3d = False, in_use = True\<rparr> g1 of
               Some g2 \<Rightarrow> (kIOReturnSuccess, g2)
             | None \<Rightarrow>
                 (case send_hdr e (unref_command rid) g1 of
                    (_, _, g2) \<Rightarrow> (kIOReturnNoSpace, if driver_owns then md_release d g2 else g2)))"

definition createResource2D ::
  "device_env \<Rightarrow> u32 \<Rightarrow> u32 \<Rightarrow> u32 \<Rightarrow> u32 \<Rightarrow> memdesc option \<Rightarrow> gpu \<Rightarrow> io_return \<times> gpu" where
  "createResource2D e rid fmt w h backing g =
     (if findResource g rid \<noteq> None then (kIOReturnBadArgument, g)
      else case send_hdr e (create2d_command rid fmt w h) g of
        (ret, ty, g1) \<Rightarrow>
          if ret \<noteq> kIOReturnSuccess \<or> ty \<noteq> ctrl_code VIRTIO_GPU_RESP_OK_NODATA then (ret, g1)
          else case backing of
            Some d \<Rightarrow> create2d_attach e rid fmt w h d False g1
          | None \<Rightarrow>
              (case bmd_alloc e (tr_tick (g_tr g1)) (unat (w * h * 4)) of
                 None \<Rightarrow> (kIOReturnNoMemory, g1)
               | Some d \<Rightarrow> create2d_attach e rid fmt w h d True (md_retain d g1)))"

definition create3d_body ::
  "u32 \<Rightarrow> u32 \<Rightarrow> u32 \<Rightarrow> u32 \<Rightarrow> u32 \<Rightarrow> u32 \<Rightarrow> u32 \<Rightarrow> gpu_body" where
  "create3d_body rid target fmt bnd w h d = Resource_create_3d rid target fmt bnd w h d 1 0 0 0"

text \<open>The temporary entry comes from \<^verbatim>\<open>IOMalloc\<close>, is copied into the pool and never freed.\<close>

definition createResource3D ::
  "device_env \<Rightarrow> u32 \<Rightarrow> u32 \<Rightarrow> u32 \<Rightarrow> u32 \<Rightarrow> u32 \<Rightarrow> u32 \<Rightarrow> u32 \<Rightarrow> gpu \<Rightarrow> io_return \<times> gpu" where
  "createResource3D e rid target fmt bnd w h d g =
     (if \<not> supports3D g then (kIOReturnUnsupported, g)
      else if findResource g rid \<noteq> None then (kIOReturnBadArgument, g)
      else case send_hdr e (wire_encode (mk_hdr VIRTIO_GPU_CMD_RESOURCE_CREATE_3D 0)
                              (create3d_body rid target fmt bnd w h d)) g of
        (ret, ty, g1) \<Rightarrow>
          if ret = kIOReturnSuccess \<and> ty = ctrl_code VIRTIO_GPU_RESP_OK_NODATA
          then case kmalloc e (tr_tick (g_tr g1)) 32 of
                 None \<Rightarrow> (ret, g1)
               | Some mem \<Rightarrow>
                   let g2 = g1\<lparr>g_heap := g_heap g1 + 1\<rparr> in
                   (ret, case pool_register
                           \<lparr>resource_id = rid, res_width = w, res_height = h, res_format = fmt,
                            backing_memory = None, is_3d = True, in_use = True\<rparr> g2 of
                           None \<Rightarrow> g2 | Some g3 \<Rightarrow> g3)
          else (ret, g1))"

definition allocateResource3D ::
  "device_env \<Rightarrow> u32 \<Rightarrow> u32 \<Rightarrow> u32 \<Rightarrow> u32 \<Rightarrow> u32 \<Rightarrow> gpu \<Rightarrow> io_return \<times> u32 \<times> gpu" where
  "allocateResource3D e target fmt w h d g =
     (let rid = m_next_resource_id g + 1
      in case createResource3D e rid target fmt 0 w h d (g\<lparr>m_next_resource_id := rid\<rparr>) of
           (ret, g') \<Rightarrow> (ret, rid, g'))"

definition allocateGPUMemory :: "device_env \<Rightarrow> nat \<Rightarrow> gpu \<Rightarrow> io_return \<times> memdesc option \<times> gpu" where
  "allocateGPUMemory e len g =
     (case bmd_alloc e (tr_tick (g_tr g)) len of
        None \<Rightarrow> (kIOReturnNoMemory, None, g)
      | Some d \<Rightarrow> (kIOReturnSuccess, Some d, md_retain d g))"

section \<open>Releasing and mapping\<close>

text \<open>Clearing a slot; a backing the driver owns is released.\<close>

definition pool_tombstone :: "u32 \<Rightarrow> gpu \<Rightarrow> gpu" where
  "pool_tombstone rid g =
     (case slot_index resource_id rid (m_resource_pool g) of
        None \<Rightarrow> g
      | Some i \<Rightarrow>
          let s = m_resource_pool g ! i;
              g1 = (case backing_memory s of None \<Rightarrow> g | Some d \<Rightarrow> md_release d g)
          in g1\<lparr>m_resource_pool := (m_resource_pool g1)
                  [i := s\<lparr>resource_id := 0, in_use := False, backing_memory := None\<rparr>]\<rparr>)"

definition deallocateResource :: "device_env \<Rightarrow> u32 \<Rightarrow> gpu \<Rightarrow> io_return \<times> gpu" where
  "deallocateResource e rid g =
     (case send_hdr e (unref_command rid) g of
        (ret, _, g1) \<Rightarrow> (ret, if ret = kIOReturnSuccess then pool_tombstone rid g1 else g1))"

text \<open>
  \<^verbatim>\<open>mapGuestMemory\<close>. The command is the bare attach structure with \<open>nr_entries\<close> 1 and no entry; the
  slot is the one at the high-water mark, without a search; \<open>is_3d\<close> is what the memory held.
\<close>

definition mapGuestMemory ::
  "device_env \<Rightarrow> memdesc option \<Rightarrow> gpu \<Rightarrow> io_return \<times> u64 \<times> gpu" where
  "mapGuestMemory e guest_memory g =
     (case guest_memory of
        None \<Rightarrow> (kIOReturnBadArgument, 0, g)
      | Some d \<Rightarrow>
          if md_length d = 0 then (kIOReturnBadArgument, 0, g)
          else if md_prepare d \<noteq> kIOReturnSuccess then (md_prepare d, 0, g)
          else let g1 = md_do_prepare d g in
            case md_seg d 0 of (phys_addr, phys_length) \<Rightarrow>
            if phys_addr = 0 \<or> phys_length = 0 then (kIOReturnNoMemory, 0, md_complete d g1)
            else let rid = m_next_resource_id g1 + 1; g2 = g1\<lparr>m_next_resource_id := rid\<rparr> in
              case send_hdr e (wire_encode (mk_hdr VIRTIO_GPU_CMD_RESOURCE_ATTACH_BACKING 0)
                                 (Resource_attach_backing rid 1 [])) g2 of
                (ret, _, g3) \<Rightarrow>
                  if ret \<noteq> kIOReturnSuccess then (ret, 0, md_complete d g3)
                  else case kmalloc e (tr_tick (g_tr g3)) 32 of
                    None \<Rightarrow> (kIOReturnNoMemory, 0, md_complete d g3)
                  | Some mem \<Rightarrow>
                      let g4 = md_retain d (g3\<lparr>g_heap := g_heap g3 + 1\<rparr>);
                          r = \<lparr>resource_id = rid, res_width = 0, res_height = 0, res_format = 0,
                               backing_memory = Some d, is_3d = (buf_read 32 mem ! 24 \<noteq> 0),
                               in_use = True\<rparr>
                      in (kIOReturnSuccess, phys_addr,
                          if m_resource_count g4 < 64
                          then g4\<lparr>m_resource_pool := (m_resource_pool g4)
                                    [unat (m_resource_count g4) := r],
                                  m_resource_count := m_resource_count g4 + 1\<rparr>
                          else g4))"

section \<open>The self-check of the pool\<close>

datatype probe_outcome = Probe_pass | Probe_fail_create | Probe_fail_duplicate | Probe_fail_destroy
  | Probe_fail_found

definition probeResourceTracking :: "device_env \<Rightarrow> gpu \<Rightarrow> probe_outcome \<times> gpu" where
  "probeResourceTracking e g =
     (case createResource2D e 0xFFFE 1 1 1 None g of (create1, g1) \<Rightarrow>
        if create1 \<noteq> kIOReturnSuccess then (Probe_fail_create, g1)
        else case createResource2D e 0xFFFE 1 1 1 None g1 of (create2, g2) \<Rightarrow>
          if create2 \<noteq> kIOReturnBadArgument
          then (Probe_fail_duplicate, snd (deallocateResource e 0xFFFE g2))
          else case deallocateResource e 0xFFFE g2 of (destroy_ret, g3) \<Rightarrow>
            if destroy_ret \<noteq> kIOReturnSuccess then (Probe_fail_destroy, g3)
            else if findResource g3 0xFFFE \<noteq> None then (Probe_fail_found, g3)
            else (Probe_pass, g3))"

section \<open>The pool as a keyed table\<close>

definition pool_ins :: "u32 \<Rightarrow> gpu_resource \<Rightarrow> gpu_resource list \<Rightarrow> gpu_resource list option" where
  "pool_ins k r pool =
     (if k = 0 \<or> resource_id r \<noteq> k \<or> find_slot k pool \<noteq> None then None
      else map_option (\<lambda>i. pool[i := r]) (slot_index resource_id 0 pool))"

definition pool_del :: "u32 \<Rightarrow> gpu_resource list \<Rightarrow> gpu_resource list" where
  "pool_del k pool =
     (case slot_index resource_id k pool of
        None \<Rightarrow> pool
      | Some i \<Rightarrow> pool[i := (pool ! i)\<lparr>resource_id := 0, in_use := False, backing_memory := None\<rparr>])"

lemma find_slot_slots_map: "find_slot k pool = slots_map resource_id pool k"
  by (induction pool) (auto simp: slots_map_def)

lemma find_slot_nonzero: "k \<noteq> 0 \<Longrightarrow> find_slot k pool = slot_find resource_id k pool"
  by (simp add: find_slot_slots_map slots_map_def)

lemma find_slot_zero [simp]: "find_slot 0 pool = None"
  by (simp add: find_slot_slots_map slots_map_def)

lemma pool_del_find:
  assumes "slots_ok resource_id pool" "k \<noteq> 0"
  shows "find_slot j (pool_del k pool) = (if j = k then None else find_slot j pool)"
proof (cases "slot_index resource_id k pool")
  case None
  then have "slot_find resource_id k pool = None" by (simp add: slot_find_index)
  with None assms(2) show ?thesis
    by (auto simp: pool_del_def find_slot_slots_map slots_map_def)
next
  case (Some i)
  then show ?thesis
    using slot_find_update_remove [OF Some _ assms, of
        "(pool ! i)\<lparr>resource_id := 0, in_use := False, backing_memory := None\<rparr>" j] assms(2)
    by (auto simp: pool_del_def find_slot_slots_map slots_map_def)
qed

lemma pool_del_ok: "slots_ok resource_id pool \<Longrightarrow> slots_ok resource_id (pool_del k pool)"
  by (simp add: pool_del_def slots_ok_update_remove split: option.splits)

interpretation pool: keyed_table "\<lambda>t k. find_slot k t" pool_ins pool_del "slots_ok resource_id"
proof
  fix t t' :: "gpu_resource list" and k v
  show "find_slot 0 t = None" by simp
  assume inv: "slots_ok resource_id t"
  show "slots_ok resource_id (pool_del k t)" using inv by (rule pool_del_ok)
  show "(\<lambda>j. find_slot j (pool_del k t)) = (\<lambda>j. find_slot j t)(k := None)" if "k \<noteq> 0"
    using pool_del_find [OF inv that] by auto
  assume ins: "pool_ins k v t = Some t'"
  then obtain i where i: "slot_index resource_id 0 t = Some i" "t' = t[i := v]" "k \<noteq> 0"
    "resource_id v = k" "find_slot k t = None"
    by (auto simp: pool_ins_def split: if_splits)
  then show "find_slot k t = None" by simp
  have f: "slot_find resource_id (resource_id v) t = None"
    using i by (simp add: find_slot_nonzero)
  show "slots_ok resource_id t'"
    using slots_ok_update_free [OF i(1) _ inv, of v] f i(2) by simp
  show "(\<lambda>j. find_slot j t') = (\<lambda>j. find_slot j t)(k \<mapsto> v)"
    using slot_find_update_free [OF i(1) _ f] i by (auto simp: find_slot_slots_map slots_map_def)
qed

text \<open>
  The invariant of the pool: 64 slots, no id twice, and every live slot below the high-water mark
  (which \<^verbatim>\<open>mapGuestMemory\<close> relies on when it writes at the mark).
\<close>

definition pool_ok :: "gpu \<Rightarrow> bool" where
  "pool_ok g \<longleftrightarrow> length (m_resource_pool g) = 64 \<and> slots_ok resource_id (m_resource_pool g)
     \<and> unat (m_resource_count g) \<le> 64
     \<and> (\<forall>i<64. resource_id (m_resource_pool g ! i) \<noteq> 0 \<longrightarrow> i < unat (m_resource_count g))"

lemma pool_ok_frame:
  "m_resource_pool g' = m_resource_pool g \<Longrightarrow> m_resource_count g' = m_resource_count g
     \<Longrightarrow> pool_ok g' = pool_ok g"
  by (simp add: pool_ok_def)

lemma pool_register_ins:
  assumes "findResource g (resource_id r) = None" "resource_id r \<noteq> 0" "pool_register r g = Some g'"
  shows "pool_ins (resource_id r) r (m_resource_pool g) = Some (m_resource_pool g')"
  using assms by (auto simp: pool_register_def pool_ins_def findResource_def split: option.splits)

lemma pool_register_ok:
  assumes "pool_ok g" "findResource g (resource_id r) = None" "pool_register r g = Some g'"
  shows "pool_ok g'"
proof -
  let ?p = "m_resource_pool g" and ?c = "m_resource_count g"
  obtain i where i: "slot_index resource_id 0 ?p = Some i"
    and g': "g' = g\<lparr>m_resource_pool := ?p[i := r], m_resource_count :=
       (if word_of_nat i \<ge> ?c then word_of_nat i + 1 else ?c)\<rparr>"
    using assms(3) by (auto simp: pool_register_def split: option.splits)
  have "i < 64" using slot_index_bound [OF i] assms(1) by (simp add: pool_ok_def)
  then have u: "unat (word_of_nat i :: u32) = i" "unat (word_of_nat i + 1 :: u32) = i + 1"
    by (simp_all add: unat_of_nat unat_word_ariths)
  have "slots_ok resource_id (?p[i := r])"
  proof (rule slots_ok_update_free [OF i])
    show "slots_ok resource_id ?p" using assms(1) by (simp add: pool_ok_def)
    show "slot_find resource_id (resource_id r) ?p = None \<or> resource_id r = 0"
      using assms(2) by (auto simp: findResource_def find_slot_nonzero)
  qed
  then show ?thesis
    using assms(1) u \<open>i < 64\<close>
    by (auto simp: pool_ok_def g' nth_list_update word_le_nat_alt not_le)
qed

section \<open>Frames of the operations\<close>

lemma attachBacking_keeps:
  assumes "attachBacking e rid b g = (ret, g')"
  shows "m_resource_pool g' = m_resource_pool g" "m_resource_count g' = m_resource_count g"
    "g_refs g' = g_refs g" "g_heap g' = g_heap g"
  using assms send_hdr_keeps
  by (auto simp: attachBacking_def Let_def split: if_splits option.splits prod.splits)

lemma attachBacking_wired:
  assumes "attachBacking e rid b g = (ret, g')" "ret \<noteq> Kernel_panic"
  shows "g_wired g' = g_wired g"
  using assms send_hdr_keeps(3)
  by (auto simp: attachBacking_def Let_def md_complete_def md_do_prepare_def fun_upd_def
      split: if_splits option.splits prod.splits)

definition res2d :: "u32 \<Rightarrow> u32 \<Rightarrow> u32 \<Rightarrow> u32 \<Rightarrow> memdesc option \<Rightarrow> gpu_resource" where
  "res2d rid fmt w h b = \<lparr>resource_id = rid, res_width = w, res_height = h, res_format = fmt,
     backing_memory = b, is_3d = False, in_use = True\<rparr>"

lemma create2d_attach_cases:
  assumes "create2d_attach e rid fmt w h d own g = (ret, g')"
  shows "(m_resource_pool g' = m_resource_pool g \<and> m_resource_count g' = m_resource_count g
            \<and> ret \<noteq> kIOReturnSuccess)
       \<or> (ret = kIOReturnSuccess \<and> (\<exists>g1 b. m_resource_pool g1 = m_resource_pool g
            \<and> m_resource_count g1 = m_resource_count g
            \<and> pool_register (res2d rid fmt w h b) g1 = Some g'))"
  using assms attachBacking_keeps(1,2) send_hdr_keeps(1,2)
  by (fastforce simp: create2d_attach_def res2d_def split: if_splits option.splits prod.splits)

lemma createResource2D_cases:
  assumes "createResource2D e rid fmt w h b g = (ret, g')"
  shows "(m_resource_pool g' = m_resource_pool g \<and> m_resource_count g' = m_resource_count g
            \<and> (ret = kIOReturnSuccess \<longrightarrow> fst (snd (send_hdr e (create2d_command rid fmt w h) g))
                 \<noteq> ctrl_code VIRTIO_GPU_RESP_OK_NODATA))
       \<or> (ret = kIOReturnSuccess \<and> findResource g rid = None
            \<and> (\<exists>g1 c. m_resource_pool g1 = m_resource_pool g \<and> m_resource_count g1 = m_resource_count g
            \<and> pool_register (res2d rid fmt w h c) g1 = Some g'))"
proof -
  obtain r ty g1 where s: "send_hdr e (create2d_command rid fmt w h) g = (r, ty, g1)"
    by (rule prod_cases3)
  note k = send_hdr_keeps(1,2) [OF s]
  show ?thesis
    using assms s k create2d_attach_cases
    by (fastforce simp: createResource2D_def split: if_splits option.splits)
qed

lemma findResource_eq: "m_resource_pool g' = m_resource_pool g \<Longrightarrow> findResource g' = findResource g"
  by (simp add: findResource_def fun_eq_iff)

lemma register_find:
  assumes "pool_ok g" "findResource g (resource_id r) = None" "resource_id r \<noteq> 0"
    "pool_register r g = Some g'"
  shows "findResource g' = (findResource g)(resource_id r \<mapsto> r)"
proof -
  have "slots_ok resource_id (m_resource_pool g)" using assms(1) by (simp add: pool_ok_def)
  from pool.ins_look [OF this pool_register_ins [OF assms(2-4)]] show ?thesis
    by (simp add: findResource_def fun_eq_iff)
qed

lemma tombstone_pool: "m_resource_pool (pool_tombstone rid g) = pool_del rid (m_resource_pool g)"
  by (simp add: pool_tombstone_def pool_del_def Let_def split: option.splits)

lemma tombstone_count: "m_resource_count (pool_tombstone rid g) = m_resource_count g"
  by (simp add: pool_tombstone_def Let_def split: option.splits)

lemma tombstone_find:
  assumes "pool_ok g" "rid \<noteq> 0"
  shows "findResource (pool_tombstone rid g) = (findResource g)(rid := None)"
proof -
  have "slots_ok resource_id (m_resource_pool g)" using assms(1) by (simp add: pool_ok_def)
  from pool.del_look [OF this assms(2)] show ?thesis
    by (simp add: findResource_def tombstone_pool fun_eq_iff)
qed

lemma tombstone_tr: "g_tr (pool_tombstone rid g) = g_tr g"
  by (simp add: pool_tombstone_def Let_def split: option.splits)

lemma tombstone_ok: "pool_ok g \<Longrightarrow> pool_ok (pool_tombstone rid g)"
proof -
  assume ok: "pool_ok g"
  have "slots_ok resource_id (pool_del rid (m_resource_pool g))"
    using ok pool_del_ok by (simp add: pool_ok_def)
  moreover have "resource_id (pool_del rid (m_resource_pool g) ! i) \<noteq> 0 \<Longrightarrow>
      resource_id (m_resource_pool g ! i) \<noteq> 0" if "i < 64" for i
    using ok that
    by (auto simp: pool_del_def pool_ok_def nth_list_update dest: slot_index_bound
        split: option.splits if_splits)
  moreover have "length (pool_del rid (m_resource_pool g)) = length (m_resource_pool g)"
    by (simp add: pool_del_def split: option.splits)
  ultimately show ?thesis
    using ok by (auto simp: pool_ok_def tombstone_pool tombstone_count)
qed

section \<open>Properties\<close>

text \<open>Creating a 2D resource, for any device and any outcome: the pool invariant is kept; either the
  call succeeds, the id was not in use, and the pool now maps it to exactly the requested dimensions
  and format and is otherwise unchanged; or the pool maps ids exactly as before, and then a reported
  success means the device's answer was a success code other than \<open>OK_NODATA\<close>.\<close>

theorem createResource2D_refines_map:
  assumes "pool_ok g" "rid \<noteq> 0" "createResource2D e rid fmt w h backing g = (ret, g')"
  shows "pool_ok g' \<and>
     ((ret = kIOReturnSuccess \<and> findResource g rid = None
         \<and> (\<exists>b. findResource g' = (findResource g)(rid \<mapsto> res2d rid fmt w h b)))
      \<or> (findResource g' = findResource g
         \<and> (ret = kIOReturnSuccess \<longrightarrow> fst (snd (send_hdr e (create2d_command rid fmt w h) g))
              \<noteq> ctrl_code VIRTIO_GPU_RESP_OK_NODATA)))"
  using createResource2D_cases [OF assms(3)]
proof (elim disjE conjE exE)
  assume "m_resource_pool g' = m_resource_pool g" "m_resource_count g' = m_resource_count g"
    "ret = kIOReturnSuccess \<longrightarrow> fst (snd (send_hdr e (create2d_command rid fmt w h) g))
              \<noteq> ctrl_code VIRTIO_GPU_RESP_OK_NODATA"
  then show ?thesis
    using assms(1) pool_ok_frame findResource_eq by blast
next
  fix g1 c
  assume k: "ret = kIOReturnSuccess" "findResource g rid = None"
    "m_resource_pool g1 = m_resource_pool g" "m_resource_count g1 = m_resource_count g"
    "pool_register (res2d rid fmt w h c) g1 = Some g'"
  have ok: "pool_ok g1" "findResource g1 (resource_id (res2d rid fmt w h c)) = None"
    using k assms(1) pool_ok_frame [of g1 g] findResource_eq [of g1 g] by (simp_all add: res2d_def)
  have "pool_ok g'" using pool_register_ok [OF ok k(5)] .
  moreover have "findResource g' = (findResource g)(rid \<mapsto> res2d rid fmt w h c)"
    using register_find [OF ok _ k(5)] assms(2) findResource_eq [OF k(3)] by (simp add: res2d_def)
  ultimately show ?thesis using k(1,2) by blast
qed

lemma sample_pool_ok: "pool_ok sample_gpu"
proof -
  have "slots_ok resource_id (replicate 64 free_slot)"
    by (rule slots_ok_all_free) (simp add: free_slot_def)
  then show ?thesis
    by (simp add: pool_ok_def sample_gpu_def gpu_init_def free_slot_def)
qed

theorem createResource2D_refines_map_witness:
  "\<exists>ret g'. createResource2D sample_env 5 1 16 16 None sample_gpu = (ret, g') \<and> pool_ok g'"
proof -
  obtain ret g' where r: "createResource2D sample_env 5 1 16 16 None sample_gpu = (ret, g')"
    by fastforce
  with createResource2D_refines_map [OF sample_pool_ok _ r] show ?thesis by auto
qed

text \<open>A duplicate id is refused before anything is sent: the whole driver state is unchanged.\<close>

theorem createResource2D_duplicate:
  assumes "findResource g rid = Some r"
  shows "createResource2D e rid fmt w h backing g = (kIOReturnBadArgument, g)
       \<and> (supports3D g \<longrightarrow> createResource3D e rid target fmt bnd w h d g = (kIOReturnBadArgument, g))"
  using assms by (simp add: createResource2D_def createResource3D_def)

theorem createResource2D_duplicate_witness:
  "\<exists>g. createResource2D sample_env 5 1 16 16 None g = (kIOReturnBadArgument, g)
     \<and> (supports3D g \<longrightarrow> createResource3D sample_env 5 1 1 1 16 16 1 g = (kIOReturnBadArgument, g))"
proof -
  let ?g = "sample_gpu\<lparr>m_resource_pool := [res2d 5 1 16 16 None]\<rparr>"
  have "findResource ?g 5 = Some (res2d 5 1 16 16 None)"
    by (simp add: findResource_def res2d_def)
  from createResource2D_duplicate [OF this] show ?thesis by blast
qed

text \<open>C10. Releasing a resource. For any device: the pool invariant is kept, what happens on the queue is the
  submission of one \<^verbatim>\<open>RESOURCE_UNREF\<close> of that id, sent whether or not the pool knows it, on success the id is no
  longer found and every other id is found as before, on any failure the pool is unchanged. On a live queue whose
  device answers the unref with \<open>f\<close>, success, and with it the deletion, happens exactly when the type of that answer
  is one of the success codes.\<close>

theorem deallocateResource_refines_map:
  assumes "pool_ok g" "rid \<noteq> 0" "deallocateResource e rid g = (ret, g')"
  shows "pool_ok g' \<and> findResource g' =
     (if ret = kIOReturnSuccess then (findResource g)(rid := None) else findResource g)
     \<and> (\<exists>resp. submit_effect e (unref_command rid) (Some (zeros 24)) (g_tr g) ret resp (g_tr g'))
     \<and> (queue_live (g_tr g) \<and> serving f (vq_size (m_vq (g_tr g))) ready e
           \<and> (\<exists>k<150. ready (tr_tick (g_tr g) + 1 + k)) \<and> 24 \<le> length (f (unref_command rid)) \<longrightarrow>
         tr_sent (g_tr g') = tr_sent (g_tr g) @ [(Control, unref_command rid)]
         \<and> (ret = kIOReturnSuccess \<longleftrightarrow>
              0x1100 \<le> rd32 (f (unref_command rid)) \<and> rd32 (f (unref_command rid)) < 0x1200))"
proof -
  obtain r ty g1 where s: "send_hdr e (unref_command rid) g = (r, ty, g1)" by (rule prod_cases3)
  note k = send_hdr_keeps(1,2) [OF s]
  have ok: "pool_ok g1" using assms(1) pool_ok_frame [OF k] by simp
  have d: "ret = r" "g' = (if r = kIOReturnSuccess then pool_tombstone rid g1 else g1)"
    using assms(3) s by (auto simp: deallocateResource_def)
  then have tr: "g_tr g' = g_tr g1" by (simp add: tombstone_tr)
  obtain resp where c: "submitCommand e (Some (unref_command rid)) (Some (zeros 24)) (g_tr g) = (ret, resp, g_tr g')"
    using s d(1) tr by (auto simp: send_hdr_def send_def split: prod.splits)
  have "ret = kIOReturnSuccess \<longleftrightarrow> 0x1100 \<le> rd32 (f (unref_command rid)) \<and> rd32 (f (unref_command rid)) < 0x1200"
      "tr_sent (g_tr g') = tr_sent (g_tr g) @ [(Control, unref_command rid)]"
    if live: "queue_live (g_tr g)" and dev: "serving f (vq_size (m_vq (g_tr g))) ready e"
      "\<exists>k<150. ready (tr_tick (g_tr g) + 1 + k)" and len: "24 \<le> length (f (unref_command rid))"
  proof -
    let ?a = "rpc_answer f (unref_command rid) (Some (zeros 24)) (g_tr g)"
    have "?a = Some (take 24 (f (unref_command rid)))" using len by (subst rpc_answer_full) simp_all
    then have "resp_status ?a = kIOReturnSuccess \<longleftrightarrow>
        0x1100 \<le> rd32 (f (unref_command rid)) \<and> rd32 (f (unref_command rid)) < 0x1200"
      by (auto simp: resp_status_def Let_def rd32_take)
    moreover have "24 \<le> length (unref_command rid)" "length (unref_command rid) \<le> 4096"
      by (simp_all add: unref_command_def length_wire_encode)
    ultimately
    show "ret = kIOReturnSuccess \<longleftrightarrow> 0x1100 \<le> rd32 (f (unref_command rid)) \<and> rd32 (f (unref_command rid)) < 0x1200"
      "tr_sent (g_tr g') = tr_sent (g_tr g) @ [(Control, unref_command rid)]"
      using submit_rpc_full [OF live _ _ dev, of "unref_command rid" "Some (zeros 24)"] c by auto
  qed
  then show ?thesis
    using ok tombstone_ok [OF ok] tombstone_find [OF ok assms(2)] findResource_eq [OF k(1)] d effect_submitCommand [OF c]
    by auto
qed

theorem deallocateResource_refines_map_witness:
  "\<exists>g'. deallocateResource sample_env 5 sample_gpu = (kIOReturnSuccess, g') \<and> pool_ok g'
     \<and> findResource g' = (findResource sample_gpu)(5 := None)
     \<and> tr_sent (g_tr g') = [(Control, unref_command 5)]"
proof -
  obtain ret g' where r: "deallocateResource sample_env 5 sample_gpu = (ret, g')" by fastforce
  have live: "queue_live (g_tr sample_gpu)" "serving (\<lambda>_. ok_reply) (vq_size (m_vq (g_tr sample_gpu))) (\<lambda>n. 2 \<le> n) sample_env"
    "\<exists>k<150. 2 \<le> tr_tick (g_tr sample_gpu) + 1 + k" "tr_sent (g_tr sample_gpu) = []"
    using sample_live sample_serving
    by (auto simp: sample_gpu_def sample_transport_def sample_queue_def intro!: exI [of _ 2])
  have "rd32 ok_reply = 0x1100" by (simp add: ok_reply_def enc_hdr_def mk_hdr_def)
  with deallocateResource_refines_map [OF sample_pool_ok _ r, of "\<lambda>_. ok_reply" "\<lambda>n. 2 \<le> n"] r live
  show ?thesis by (simp add: length_ok_reply)
qed

text \<open>
  A descriptor the attach accepts: it prepares, its segments can be counted and fit the static command
  buffer, and memory for the command is there.
\<close>

definition attachable :: "device_env \<Rightarrow> memdesc \<Rightarrow> bool" where
  "attachable e d \<longleftrightarrow> md_prepare d = kIOReturnSuccess \<and> (\<forall>n k. kmalloc e n k \<noteq> None)
     \<and> (\<exists>nr tot. seg_count (Suc (md_length d)) d 0 0 0 = Some (nr, tot) \<and> 0 < nr \<and> nr \<le> 254 \<and> 0 < tot)"

lemma length_attach_command: "length (attach_command mem rid d nr) = 32 + 16 * nr"
  by (simp add: attach_command_def length_wire_encode)

lemma length_commands [simp]:
  "length (unref_command rid) = 32" "length (create2d_command rid fmt w h) = 40"
  by (simp_all add: unref_command_def create2d_command_def length_wire_encode)

lemma attachBacking_ok:
  assumes "good_device e g" "m_pci_device g" "m_control_queue g" "attachable e d"
  shows "\<exists>t mem nr. attachBacking e rid (Some d) g = (kIOReturnSuccess, g\<lparr>g_tr := t\<rparr>)
     \<and> good_device e (g\<lparr>g_tr := t\<rparr>)
     \<and> tr_sent t = tr_sent (g_tr g) @ [(Control, attach_command mem rid d nr)]"
proof -
  obtain nr tot where s: "seg_count (Suc (md_length d)) d 0 0 0 = Some (nr, tot)"
    "0 < nr" "nr \<le> 254" "0 < tot"
    using assms(4) by (auto simp: attachable_def)
  let ?g1 = "md_do_prepare d g"
  obtain mem where m: "kmalloc e (tr_tick (g_tr ?g1)) (32 + nr * 16) = Some mem"
    using assms(4) by (auto simp: attachable_def)
  have "good_device e ?g1" using assms(1) by (simp add: good_device_def)
  from send_hdr_ok [OF this, of "attach_command mem rid d nr"] s(3) obtain t where
    t: "send_hdr e (attach_command mem rid d nr) ?g1
          = (kIOReturnSuccess, ctrl_code VIRTIO_GPU_RESP_OK_NODATA, ?g1\<lparr>g_tr := t\<rparr>)"
      "good_device e (?g1\<lparr>g_tr := t\<rparr>)"
      "tr_sent t = tr_sent (g_tr g) @ [(Control, attach_command mem rid d nr)]"
    by (auto simp: length_attach_command)
  have "md_complete d (?g1\<lparr>g_tr := t\<rparr>) = g\<lparr>g_tr := t\<rparr>"
    by (simp add: md_complete_def md_do_prepare_def)
  moreover have "good_device e (g\<lparr>g_tr := t\<rparr>)" using t(2) by (simp add: good_device_def)
  ultimately show ?thesis
    using assms(2-4) s m t by (auto simp: attachBacking_def attachable_def Let_def)
qed

lemma good_device_frame [simp]:
  "good_device e (md_retain d g) = good_device e g" "good_device e (md_release d g) = good_device e g"
  by (simp_all add: good_device_def)

text \<open>What a creation sends before it registers the resource, on a device that accepts everything.\<close>

lemma create2D_reaches_register:
  assumes "good_device e g" "m_pci_device g" "m_control_queue g" "findResource g rid = None"
    and "\<forall>n k. \<exists>d. bmd_alloc e n k = Some d \<and> attachable e d"
  shows "\<exists>d t mem nr.
     (let g1 = md_retain d (g\<lparr>g_tr := t\<rparr>) in
        good_device e g1
      \<and> tr_sent t = tr_sent (g_tr g) @ [(Control, create2d_command rid fmt w h),
                                         (Control, attach_command mem rid d nr)]
      \<and> createResource2D e rid fmt w h None g =
          (case pool_register (res2d rid fmt w h (Some d)) g1 of
             Some g2 \<Rightarrow> (kIOReturnSuccess, g2)
           | None \<Rightarrow> (case send_hdr e (unref_command rid) g1 of
                        (_, _, g2) \<Rightarrow> (kIOReturnNoSpace, md_release d g2))))"
proof -
  obtain t where t: "send_hdr e (create2d_command rid fmt w h) g
      = (kIOReturnSuccess, ctrl_code VIRTIO_GPU_RESP_OK_NODATA, g\<lparr>g_tr := t\<rparr>)"
    "good_device e (g\<lparr>g_tr := t\<rparr>)" "tr_sent t = tr_sent (g_tr g) @ [(Control, create2d_command rid fmt w h)]"
    using send_hdr_ok [OF assms(1), of "create2d_command rid fmt w h"] by auto
  obtain d where d: "bmd_alloc e (tr_tick t) (unat (w * h * 4)) = Some d" "attachable e d"
    using assms(5) by blast
  let ?g = "md_retain d (g\<lparr>g_tr := t\<rparr>)"
  obtain u mem nr where u: "attachBacking e rid (Some d) ?g = (kIOReturnSuccess, ?g\<lparr>g_tr := u\<rparr>)"
    "good_device e (?g\<lparr>g_tr := u\<rparr>)"
    "tr_sent u = tr_sent (g_tr ?g) @ [(Control, attach_command mem rid d nr)]"
    using attachBacking_ok [of e ?g d rid] t(2) d(2) assms(2,3) by auto
  have eq: "?g\<lparr>g_tr := u\<rparr> = md_retain d (g\<lparr>g_tr := u\<rparr>)" by (simp add: md_retain_def)
  show ?thesis
    using t d u assms(4)
    by (intro exI [of _ d] exI [of _ u] exI [of _ mem] exI [of _ nr])
      (auto simp: Let_def eq createResource2D_def create2d_attach_def res2d_def
        split: option.splits prod.splits)
qed

lemma sample_seg_page: "\<exists>k. seg_count (Suc 4) (sample_desc n 4) 0 0 0 = Some (k, 4) \<and> 0 < k \<and> k \<le> 4"
proof -
  have l: "md_length (sample_desc n 4) = 4" by (simp add: sample_desc_def)
  have "seg_contract (sample_desc n 4)" by (rule sample_contract) simp
  from seg_count_covers [OF this, of 0 "Suc 4" 0 0] show ?thesis by (auto simp: l)
qed

lemma sample_alloc: "\<forall>n k. \<exists>d. bmd_alloc (sample_env\<lparr>bmd_alloc := \<lambda>n _. Some (sample_desc n 4)\<rparr>) n k = Some d
    \<and> attachable (sample_env\<lparr>bmd_alloc := \<lambda>n _. Some (sample_desc n 4)\<rparr>) d"
proof (intro allI)
  fix n k :: nat
  have "md_length (sample_desc n 4) = 4" "md_prepare (sample_desc n 4) = kIOReturnSuccess"
    by (simp_all add: sample_desc_def)
  then have "attachable (sample_env\<lparr>bmd_alloc := \<lambda>n _. Some (sample_desc n 4)\<rparr>) (sample_desc n 4)"
    using sample_seg_page [of n] by (auto simp: attachable_def sample_env_def)
  then show "\<exists>d. bmd_alloc (sample_env\<lparr>bmd_alloc := \<lambda>n _. Some (sample_desc n 4)\<rparr>) n k = Some d
    \<and> attachable (sample_env\<lparr>bmd_alloc := \<lambda>n _. Some (sample_desc n 4)\<rparr>) d" by simp
qed

lemma sample_good_alloc:
  "good_device (sample_env\<lparr>bmd_alloc := \<lambda>n _. Some (sample_desc n 4)\<rparr>) g = good_device sample_env g"
  by (simp add: good_device_def serving_def)

text \<open>A full pool is an error and not a leak on the host: with a device that accepts everything and no free
  slot, creation sends the create, the attach and then the unref of the same id, reports no space, and
  leaves the pool, the references and the wiring as they were.\<close>

theorem create2D_pool_full:
  assumes "good_device e g" "m_pci_device g" "m_control_queue g" "findResource g rid = None"
    and "\<forall>n k. \<exists>d. bmd_alloc e n k = Some d \<and> attachable e d"
    and "slot_index resource_id 0 (m_resource_pool g) = None"
  shows "\<exists>t d mem nr. createResource2D e rid fmt w h None g = (kIOReturnNoSpace, g\<lparr>g_tr := t\<rparr>)
     \<and> tr_sent t = tr_sent (g_tr g) @ [(Control, create2d_command rid fmt w h),
                                        (Control, attach_command mem rid d nr),
                                        (Control, unref_command rid)]"
proof -
  obtain d t mem nr where r: "good_device e (md_retain d (g\<lparr>g_tr := t\<rparr>))"
    "tr_sent t = tr_sent (g_tr g) @ [(Control, create2d_command rid fmt w h),
                                      (Control, attach_command mem rid d nr)]"
    "createResource2D e rid fmt w h None g =
       (case pool_register (res2d rid fmt w h (Some d)) (md_retain d (g\<lparr>g_tr := t\<rparr>)) of
          Some g2 \<Rightarrow> (kIOReturnSuccess, g2)
        | None \<Rightarrow> (case send_hdr e (unref_command rid) (md_retain d (g\<lparr>g_tr := t\<rparr>)) of
                     (_, _, g2) \<Rightarrow> (kIOReturnNoSpace, md_release d g2)))"
    using create2D_reaches_register [OF assms(1-5), of fmt w h] by (auto simp: Let_def)
  obtain u where u: "send_hdr e (unref_command rid) (md_retain d (g\<lparr>g_tr := t\<rparr>)) =
      (kIOReturnSuccess, ctrl_code VIRTIO_GPU_RESP_OK_NODATA, (md_retain d (g\<lparr>g_tr := t\<rparr>))\<lparr>g_tr := u\<rparr>)"
    "tr_sent u = tr_sent t @ [(Control, unref_command rid)]"
    using send_hdr_ok [OF r(1), of "unref_command rid"] by auto
  have "md_release d ((md_retain d (g\<lparr>g_tr := t\<rparr>))\<lparr>g_tr := u\<rparr>) = g\<lparr>g_tr := u\<rparr>"
    by (simp add: md_release_def md_retain_def)
  moreover have "pool_register (res2d rid fmt w h (Some d)) (md_retain d (g\<lparr>g_tr := t\<rparr>)) = None"
    using assms(6) by (simp add: pool_register_def)
  ultimately show ?thesis
    using r u by (intro exI [of _ u] exI [of _ d] exI [of _ mem] exI [of _ nr]) simp
qed

theorem create2D_pool_full_witness:
  "\<exists>t d mem nr. createResource2D (sample_env\<lparr>bmd_alloc := \<lambda>n _. Some (sample_desc n 4)\<rparr>) 5 1 1 1 None
        (sample_gpu\<lparr>m_resource_pool := [res2d 7 1 1 1 None]\<rparr>)
      = (kIOReturnNoSpace, sample_gpu\<lparr>m_resource_pool := [res2d 7 1 1 1 None]\<rparr>\<lparr>g_tr := t\<rparr>)
     \<and> tr_sent t = tr_sent (g_tr (sample_gpu\<lparr>m_resource_pool := [res2d 7 1 1 1 None]\<rparr>))
          @ [(Control, create2d_command 5 1 1 1), (Control, attach_command mem 5 d nr),
             (Control, unref_command 5)]"
proof (rule create2D_pool_full)
  show "good_device (sample_env\<lparr>bmd_alloc := \<lambda>n _. Some (sample_desc n 4)\<rparr>)
      (sample_gpu\<lparr>m_resource_pool := [res2d 7 1 1 1 None]\<rparr>)"
    using sample_good by (simp add: sample_good_alloc) (simp add: good_device_def)
qed (use sample_alloc in \<open>simp_all add: sample_gpu_def findResource_def res2d_def\<close>)

text \<open>The driver's self-check of the pool passes: with a device that accepts everything, a free slot and the
  probe id unused, create, duplicate create, destroy and lookup give the outcomes the check expects, the
  pool maps ids as before, and the duplicate create sent nothing.\<close>

theorem probeResourceTracking_passes:
  assumes "good_device e g" "m_pci_device g" "m_control_queue g" "pool_ok g" "findResource g 0xFFFE = None"
    and "\<forall>n k. \<exists>d. bmd_alloc e n k = Some d \<and> attachable e d"
    and "slot_index resource_id 0 (m_resource_pool g) \<noteq> None"
  shows "\<exists>g' d mem nr. probeResourceTracking e g = (Probe_pass, g') \<and> pool_ok g'
     \<and> findResource g' = findResource g
     \<and> tr_sent (g_tr g') = tr_sent (g_tr g) @ [(Control, create2d_command 0xFFFE 1 1 1),
          (Control, attach_command mem 0xFFFE d nr), (Control, unref_command 0xFFFE)]"
proof -
  obtain d t mem nr where r: "good_device e (md_retain d (g\<lparr>g_tr := t\<rparr>))"
    "tr_sent t = tr_sent (g_tr g) @ [(Control, create2d_command 0xFFFE 1 1 1),
                                      (Control, attach_command mem 0xFFFE d nr)]"
    "createResource2D e 0xFFFE 1 1 1 None g =
       (case pool_register (res2d 0xFFFE 1 1 1 (Some d)) (md_retain d (g\<lparr>g_tr := t\<rparr>)) of
          Some g2 \<Rightarrow> (kIOReturnSuccess, g2)
        | None \<Rightarrow> (case send_hdr e (unref_command 0xFFFE) (md_retain d (g\<lparr>g_tr := t\<rparr>)) of
                     (_, _, g2) \<Rightarrow> (kIOReturnNoSpace, md_release d g2)))"
    using create2D_reaches_register [OF assms(1-3,5,6), of 1 1 1] by (auto simp: Let_def)
  let ?r = "res2d 0xFFFE 1 1 1 (Some d)"
  obtain g1 where g1: "pool_register ?r (md_retain d (g\<lparr>g_tr := t\<rparr>)) = Some g1" "g_tr g1 = t"
    using assms(7) by (auto simp: pool_register_def)
  have ok0: "pool_ok (md_retain d (g\<lparr>g_tr := t\<rparr>))"
    "findResource (md_retain d (g\<lparr>g_tr := t\<rparr>)) = findResource g"
    using assms(4) by (simp_all add: pool_ok_def findResource_def fun_eq_iff)
  have ok1: "pool_ok g1" "findResource g1 = (findResource g)(0xFFFE \<mapsto> ?r)"
    using pool_register_ok [OF ok0(1) _ g1(1)] register_find [OF ok0(1) _ _ g1(1)] ok0(2) assms(5)
    by (simp_all add: res2d_def)
  have dup: "createResource2D e 0xFFFE 1 1 1 None g1 = (kIOReturnBadArgument, g1)"
    using ok1(2) by (simp add: createResource2D_def)
  have good1: "good_device e g1" using r(1) g1(2) by (simp add: good_device_def)
  obtain u where u: "send_hdr e (unref_command 0xFFFE) g1
      = (kIOReturnSuccess, ctrl_code VIRTIO_GPU_RESP_OK_NODATA, g1\<lparr>g_tr := u\<rparr>)"
    "tr_sent u = tr_sent t @ [(Control, unref_command 0xFFFE)]"
    using send_hdr_ok [OF good1, of "unref_command 0xFFFE"] g1(2) by auto
  let ?g2 = "g1\<lparr>g_tr := u\<rparr>" and ?g3 = "pool_tombstone 0xFFFE (g1\<lparr>g_tr := u\<rparr>)"
  have ok2: "pool_ok ?g2" "findResource ?g2 = findResource g1"
    using ok1(1) by (simp_all add: pool_ok_def findResource_def fun_eq_iff)
  have f3: "findResource ?g3 = findResource g" "pool_ok ?g3"
    using tombstone_find [OF ok2(1), of "0xFFFE"] tombstone_ok [OF ok2(1)] ok1(2) ok2(2) assms(5)
    by (auto simp: fun_upd_def fun_eq_iff)
  have "g_tr ?g3 = u" by (simp add: pool_tombstone_def Let_def split: option.splits)
  then show ?thesis
    using r g1 dup u f3 assms(5)
    by (intro exI [of _ ?g3] exI [of _ d] exI [of _ mem] exI [of _ nr])
      (simp add: probeResourceTracking_def deallocateResource_def)
qed

theorem probeResourceTracking_passes_witness:
  "\<exists>g' d mem nr. probeResourceTracking (sample_env\<lparr>bmd_alloc := \<lambda>n _. Some (sample_desc n 4)\<rparr>) sample_gpu
      = (Probe_pass, g') \<and> pool_ok g' \<and> findResource g' = findResource sample_gpu
     \<and> tr_sent (g_tr g') = tr_sent (g_tr sample_gpu) @ [(Control, create2d_command 0xFFFE 1 1 1),
          (Control, attach_command mem 0xFFFE d nr), (Control, unref_command 0xFFFE)]"
proof (rule probeResourceTracking_passes)
  have "find_slot k (replicate n free_slot) = None" for k n
    by (induction n) (simp_all add: free_slot_def)
  then show "findResource sample_gpu 0xFFFE = None"
    by (simp add: findResource_def sample_gpu_def gpu_init_def)
  show "slot_index resource_id 0 (m_resource_pool sample_gpu) \<noteq> None"
    by (simp add: slot_index_None sample_gpu_def gpu_init_def free_slot_def)
qed (use sample_good sample_pool_ok sample_alloc in \<open>simp_all add: sample_good_alloc sample_gpu_def\<close>)

lemma junk_hdr_type [simp]: "hdr_type (junk_hdr ty ctx mem) = ctrl_code ty"
  by (simp add: junk_hdr_def mk_hdr_def)

text \<open>The scatter list of an attach is complete and in order: for a descriptor that keeps its contract, the
  counting pass ends and counts the whole length, and the command built from it is read by the device as an
  attach of that resource whose entries name exactly the physical bytes of the descriptor, first to last.\<close>

theorem attach_command_covers:
  assumes "seg_contract d" "0 < md_length d" "md_length d < 2 ^ 32"
  shows "\<exists>nr. seg_count (Suc (md_length d)) d 0 0 0 = Some (nr, md_length d) \<and> 0 < nr
     \<and> wire_decode (attach_command mem rid d nr) =
         Some (junk_hdr VIRTIO_GPU_CMD_RESOURCE_ATTACH_BACKING 0 mem,
               Resource_attach_backing rid (word_of_nat nr) (seg_entries d 0 nr))
     \<and> concat (map entry_addrs (seg_entries d 0 nr)) = map (\<lambda>i. fst (md_seg d i)) [0..<md_length d]"
proof -
  obtain nr where nr: "seg_count (Suc (md_length d)) d 0 0 0 = Some (nr, md_length d)" "0 < nr"
    "nr \<le> md_length d"
    "concat (map entry_addrs (seg_entries d 0 nr)) = map (\<lambda>i. fst (md_seg d i)) [0..<md_length d]"
    using seg_count_covers [OF assms(1), of 0 "Suc (md_length d)" 0 0] assms(2) by auto
  have "unat (word_of_nat nr :: u32) = nr"
    using nr(3) assms(3) by (simp add: unat_of_nat)
  then have "wire_decode (attach_command mem rid d nr) =
      Some (junk_hdr VIRTIO_GPU_CMD_RESOURCE_ATTACH_BACKING 0 mem,
            Resource_attach_backing rid (word_of_nat nr) (seg_entries d 0 nr))"
    by (simp add: attach_command_def wire_dec_enc)
  with nr show ?thesis by blast
qed

theorem attach_command_covers_witness:
  "\<exists>nr. seg_count (Suc (md_length (sample_desc 1 10000))) (sample_desc 1 10000) 0 0 0
        = Some (nr, md_length (sample_desc 1 10000)) \<and> 0 < nr
     \<and> wire_decode (attach_command [] 9 (sample_desc 1 10000) nr) =
         Some (junk_hdr VIRTIO_GPU_CMD_RESOURCE_ATTACH_BACKING 0 [],
               Resource_attach_backing 9 (word_of_nat nr) (seg_entries (sample_desc 1 10000) 0 nr))
     \<and> concat (map entry_addrs (seg_entries (sample_desc 1 10000) 0 nr))
         = map (\<lambda>i. fst (md_seg (sample_desc 1 10000) i)) [0..<md_length (sample_desc 1 10000)]"
  by (rule attach_command_covers) (use sample_contract in \<open>simp_all add: sample_desc_def\<close>)

text \<open>Kernel-side attach is balanced and cannot run away: for a descriptor that keeps its contract, any device
  and any outcome, every descriptor is wired exactly as often after the call as before, no reference is
  gained or lost, and the segment loop ends.\<close>

theorem attachBacking_balanced:
  assumes "seg_contract d" "bufs_ok (m_vq (g_tr g))" "md_prepare d \<noteq> Kernel_panic"
    and "attachBacking e rid (Some d) g = (ret, g')"
  shows "ret \<noteq> Kernel_panic \<and> g_wired g' = g_wired g \<and> g_refs g' = g_refs g"
proof -
  obtain nr where nr: "seg_count (Suc (md_length d)) d 0 0 0 = Some (nr, md_length d)"
    using seg_count_covers [OF assms(1), of 0 "Suc (md_length d)" 0 0] by auto
  have send: "r \<noteq> Kernel_panic" if "send_hdr e c (md_do_prepare d g) = (r, ty, g2)" for c r ty g2
    using send_hdr_no_panic [OF that] assms(2) by simp
  have "ret \<noteq> Kernel_panic"
    using assms(3,4) nr
    by (auto simp: attachBacking_def Let_def dest: send split: if_splits option.splits prod.splits)
  then show ?thesis
    using attachBacking_wired [OF assms(4)] attachBacking_keeps(3) [OF assms(4)] by simp
qed

theorem attachBacking_balanced_witness:
  "\<exists>ret g'. attachBacking sample_env 9 (Some (sample_desc 1 10000)) sample_gpu = (ret, g')
     \<and> ret \<noteq> Kernel_panic \<and> g_wired g' = g_wired sample_gpu \<and> g_refs g' = g_refs sample_gpu"
proof -
  obtain ret g' where r: "attachBacking sample_env 9 (Some (sample_desc 1 10000)) sample_gpu = (ret, g')"
    by fastforce
  have "ret \<noteq> Kernel_panic \<and> g_wired g' = g_wired sample_gpu \<and> g_refs g' = g_refs sample_gpu"
  proof (rule attachBacking_balanced [OF _ _ _ r])
    show "seg_contract (sample_desc 1 10000)" by (rule sample_contract) simp
    show "bufs_ok (m_vq (g_tr sample_gpu))"
      using sample_bufs by (simp add: sample_gpu_def sample_transport_def)
    show "md_prepare (sample_desc 1 10000) \<noteq> Kernel_panic" by (simp add: sample_desc_def)
  qed
  with r show ?thesis by blast
qed

text \<open>Creating a 3D resource: the pool invariant is kept for any device; a reported success with the pool
  unchanged means that the answer was a different success code, that no memory was left for the entry, or
  that the pool was full, in which case the host keeps a resource the driver does not know.\<close>

theorem createResource3D_refines_map:
  assumes "pool_ok g" "rid \<noteq> 0" "createResource3D e rid target fmt bnd w h d g = (ret, g')"
  shows "pool_ok g' \<and>
     (findResource g' = findResource g
      \<or> (ret = kIOReturnSuccess \<and> findResource g rid = None \<and> findResource g' = (findResource g)(rid \<mapsto>
           \<lparr>resource_id = rid, res_width = w, res_height = h, res_format = fmt,
            backing_memory = None, is_3d = True, in_use = True\<rparr>)))
     \<and> (ret = kIOReturnSuccess \<and> findResource g' = findResource g \<longrightarrow>
          slot_index resource_id 0 (m_resource_pool g) = None \<or> (\<exists>n. kmalloc e n 32 = None)
          \<or> fst (snd (send_hdr e (wire_encode (mk_hdr VIRTIO_GPU_CMD_RESOURCE_CREATE_3D 0)
                (create3d_body rid target fmt bnd w h d)) g)) \<noteq> ctrl_code VIRTIO_GPU_RESP_OK_NODATA)"
proof -
  let ?r = "\<lparr>resource_id = rid, res_width = w, res_height = h, res_format = fmt,
            backing_memory = None, is_3d = True, in_use = True\<rparr>"
  obtain r ty g1 where s: "send_hdr e (wire_encode (mk_hdr VIRTIO_GPU_CMD_RESOURCE_CREATE_3D 0)
                (create3d_body rid target fmt bnd w h d)) g = (r, ty, g1)" by (rule prod_cases3)
  note k = send_hdr_keeps(1,2) [OF s]
  let ?g2 = "g1\<lparr>g_heap := g_heap g1 + 1\<rparr>"
  have frame: "pool_ok x \<and> findResource x = findResource g"
    if "m_resource_pool x = m_resource_pool g" "m_resource_count x = m_resource_count g" for x
    using that assms(1) pool_ok_frame findResource_eq by blast
  have ok2: "pool_ok ?g2" "findResource ?g2 = findResource g" using frame [of ?g2] k by simp_all
  have reg: "pool_ok g3 \<and> findResource g3 = (findResource g)(rid \<mapsto> ?r)"
    if "pool_register ?r ?g2 = Some g3" "findResource g rid = None" for g3
    using pool_register_ok [OF ok2(1) _ that(1)] register_find [OF ok2(1) _ _ that(1)] ok2(2) that(2)
      assms(2) by simp
  have slot: "pool_register ?r ?g2 = None \<Longrightarrow> slot_index resource_id 0 (m_resource_pool g) = None"
    using k(1) by (simp add: pool_register_def split: option.splits)
  have new: "(findResource g)(rid \<mapsto> ?r) \<noteq> findResource g" if "findResource g rid = None"
    using that by (metis fun_upd_same option.distinct(1))
  show ?thesis
    using assms(1,3) s frame [of g1] k ok2 reg slot new
    by (simp add: createResource3D_def Let_def split: if_splits option.splits) auto
qed

theorem createResource3D_refines_map_witness:
  "\<exists>ret g'. createResource3D sample_env 5 1 1 10 16 16 1 sample_gpu = (ret, g') \<and> pool_ok g'"
proof -
  obtain ret g' where r: "createResource3D sample_env 5 1 1 10 16 16 1 sample_gpu = (ret, g')"
    by fastforce
  with createResource3D_refines_map [OF sample_pool_ok _ r] show ?thesis by auto
qed

text \<open>\<^verbatim>\<open>mapGuestMemory\<close> attaches nothing: whenever it sends its command, the device sees an attach that
  announces one entry and carries none, which is not a well-formed command.\<close>

theorem mapGuestMemory_malformed:
  assumes "mapGuestMemory e (Some d) g = (kIOReturnSuccess, addr, g')"
  shows "tr_sent (g_tr g') = tr_sent (g_tr g) @ [(Control,
           wire_encode (mk_hdr VIRTIO_GPU_CMD_RESOURCE_ATTACH_BACKING 0)
             (Resource_attach_backing (m_next_resource_id g + 1) 1 []))]
       \<and> wire_decode (wire_encode (mk_hdr VIRTIO_GPU_CMD_RESOURCE_ATTACH_BACKING 0)
             (Resource_attach_backing (m_next_resource_id g + 1) 1 [])) = None
       \<and> g_wired g' (md_id d) = g_wired g (md_id d) + 1"
proof -
  let ?c = "wire_encode (mk_hdr VIRTIO_GPU_CMD_RESOURCE_ATTACH_BACKING 0)
             (Resource_attach_backing (m_next_resource_id g + 1) 1 [])"
  let ?g2 = "(md_do_prepare d g)\<lparr>m_next_resource_id := m_next_resource_id g + 1\<rparr>"
  obtain r ty g3 where s: "send_hdr e ?c ?g2 = (r, ty, g3)" by (rule prod_cases3)
  have n: "m_next_resource_id (md_do_prepare d g) = m_next_resource_id g"
    by (simp add: md_do_prepare_def)
  have ok: "r = kIOReturnSuccess \<and> g_tr g' = g_tr g3 \<and> g_wired g' = g_wired g3"
    using assms s n
    by (auto simp: mapGuestMemory_def Let_def split: if_splits option.splits prod.splits)
  obtain a resp t where sub: "submitCommand e (Some ?c) (Some (zeros 24)) (g_tr g) = (a, resp, t)"
    by (rule prod_cases3)
  then have "a = r" "g_tr g3 = t" using s by (auto simp: send_hdr_def send_def)
  with effect_submitCommand [OF sub] ok have "tr_sent (g_tr g') = tr_sent (g_tr g) @ [(Control, ?c)]"
    by (simp add: submit_effect_def)
  moreover have "g_wired g' (md_id d) = g_wired g (md_id d) + 1"
    using ok send_hdr_keeps(3) [OF s] by (simp add: md_do_prepare_def)
  moreover have "wire_decode ?c = None"
  proof -
    have "drop 24 ?c = le32 (m_next_resource_id g + 1) @ le32 1"
      by (simp add: wire_encode_def)
    moreover have "rd32 ?c = ctrl_code VIRTIO_GPU_CMD_RESOURCE_ATTACH_BACKING"
      by (simp add: mk_hdr_def)
    moreover have "length ?c = 32" by (simp add: length_wire_encode)
    ultimately show ?thesis
      by (simp add: wire_decode_def dec_body_def Let_def)
  qed
  ultimately show ?thesis by blast
qed

lemma sample_map_guest:
  "\<exists>addr g'. mapGuestMemory sample_env (Some (sample_desc 1 4096)) sample_gpu = (kIOReturnSuccess, addr, g')"
proof -
  let ?d = "sample_desc 1 4096"
  let ?g = "(md_do_prepare ?d sample_gpu)\<lparr>m_next_resource_id := 2\<rparr>"
  let ?c = "wire_encode (mk_hdr VIRTIO_GPU_CMD_RESOURCE_ATTACH_BACKING 0) (Resource_attach_backing 2 1 [])"
  have "good_device sample_env ?g"
    using sample_good by (simp add: good_device_def)
  from send_hdr_ok [OF this, of ?c] obtain t where
    "send_hdr sample_env ?c ?g = (kIOReturnSuccess, ctrl_code VIRTIO_GPU_RESP_OK_NODATA, ?g\<lparr>g_tr := t\<rparr>)"
    by (auto simp: length_wire_encode)
  moreover have "m_next_resource_id (md_do_prepare ?d sample_gpu) + 1 = 2"
    by (simp add: md_do_prepare_def sample_gpu_def gpu_init_def)
  moreover have "md_length ?d \<noteq> 0" "md_prepare ?d = kIOReturnSuccess" "md_seg ?d 0 = (0x40000000, 4096)"
    by (simp_all add: sample_desc_def)
  moreover have "\<exists>mem. kmalloc sample_env n 32 = Some mem" for n
    by (simp add: sample_env_def)
  ultimately show ?thesis
    by (auto simp: mapGuestMemory_def Let_def split: option.splits)
qed

theorem mapGuestMemory_malformed_witness:
  "\<exists>addr g'. mapGuestMemory sample_env (Some (sample_desc 1 4096)) sample_gpu = (kIOReturnSuccess, addr, g')
     \<and> g_wired g' (md_id (sample_desc 1 4096)) = g_wired sample_gpu (md_id (sample_desc 1 4096)) + 1"
proof -
  obtain addr g' where r: "mapGuestMemory sample_env (Some (sample_desc 1 4096)) sample_gpu
      = (kIOReturnSuccess, addr, g')" using sample_map_guest by blast
  with mapGuestMemory_malformed [OF r] show ?thesis by blast
qed

section \<open>Resource ids\<close>

fun alloc_many :: "device_env \<Rightarrow> nat \<Rightarrow> gpu \<Rightarrow> gpu" where
  "alloc_many e 0 g = g"
| "alloc_many e (Suc n) g = snd (snd (allocateResource3D e 2 1 64 64 1 (alloc_many e n g)))"

lemma allocate3D_ids:
  assumes "allocateResource3D e t f w h d g = (ret, rid, g')"
  shows "rid = m_next_resource_id g + 1 \<and> m_next_resource_id g' = m_next_resource_id g + 1
     \<and> m_next_user_resource_id g' = m_next_user_resource_id g"
proof -
  have reg: "m_next_resource_id h' = m_next_resource_id h \<and> m_next_user_resource_id h' = m_next_user_resource_id h"
    if "pool_register r h = Some h'" for r h h'
    using that by (auto simp: pool_register_def split: option.splits)
  show ?thesis
    using assms send_hdr_keeps(10,12) reg
    by (fastforce simp: allocateResource3D_def createResource3D_def Let_def split: if_splits option.splits prod.splits)
qed

lemma alloc_many_ids:
  "m_next_resource_id (alloc_many e n g) = m_next_resource_id g + word_of_nat n
   \<and> m_next_user_resource_id (alloc_many e n g) = m_next_user_resource_id g"
proof (induction n)
  case (Suc n)
  obtain ret rid g' where a: "allocateResource3D e 2 1 64 64 1 (alloc_many e n g) = (ret, rid, g')"
    by (rule prod_cases3)
  then show ?case using allocate3D_ids [OF a] Suc by simp
qed simp

text \<open>The ranges of resource ids are not disjoint: the driver's own ids count up from 2 without a bound, so after 254
  allocations, whatever the device answers, the next one gets the very id 0x100 that the next client is given.\<close>

theorem id_ranges_collide:
  assumes "m_next_resource_id g = 1" "m_next_user_resource_id g = 0x100"
    and "allocateResource3D e t f w h d (alloc_many e 254 g) = (ret, rid, g')"
  shows "rid = fst (allocateUserResourceId (alloc_many e 254 g))"
  using allocate3D_ids [OF assms(3)] alloc_many_ids [of e 254 g] assms(1,2)
  by (simp add: allocateUserResourceId_def)

theorem id_ranges_collide_witness:
  "\<exists>ret rid g'. allocateResource3D sample_env 2 1 64 64 1 (alloc_many sample_env 254 gpu_init) = (ret, rid, g')
     \<and> rid = fst (allocateUserResourceId (alloc_many sample_env 254 gpu_init))"
proof -
  obtain ret rid g' where r: "allocateResource3D sample_env 2 1 64 64 1 (alloc_many sample_env 254 gpu_init)
      = (ret, rid, g')" by (rule prod_cases3)
  from id_ranges_collide [OF _ _ r] r show ?thesis by (simp add: gpu_init_def)
qed

end
