(* ===== verification/Contexts.thy ===== *)
theory Contexts
  imports Gpu
begin

text \<open>
  Rendering contexts and command execution of \<^verbatim>\<open>VMVirtIOGPU\<close>: \<^verbatim>\<open>createRenderContext\<close>, \<^verbatim>\<open>create3DContext\<close>,
  \<^verbatim>\<open>destroy3DContext\<close>, \<^verbatim>\<open>destroyRenderContext\<close>, \<^verbatim>\<open>executeCommands\<close>, and the two operations that only wait for
  the device, \<^verbatim>\<open>flushCommands\<close> and \<^verbatim>\<open>waitForIdle\<close>.
\<close>

section \<open>The debug name of a context\<close>

text \<open>\<^verbatim>\<open>snprintf(debug_name, 64, "macOS_3D_ctx_%d", id)\<close>: the id is printed as a signed decimal.\<close>

fun dec_nat :: "nat \<Rightarrow> bytes" where
  "dec_nat n = (if n < 10 then [48 + word_of_nat n] else dec_nat (n div 10) @ [48 + word_of_nat (n mod 10)])"

declare dec_nat.simps [simp del]

definition dec_signed :: "u32 \<Rightarrow> bytes" where
  "dec_signed w = (if sint w < 0 then 45 # dec_nat (nat (- sint w)) else dec_nat (nat (sint w)))"

definition ctx_name :: "u32 \<Rightarrow> bytes" where
  "ctx_name cid = map of_char ''macOS_3D_ctx_'' @ dec_signed cid"

definition snprintf64 :: "bytes \<Rightarrow> bytes" where
  "snprintf64 s = take 63 s @ replicate (64 - length (take 63 s)) 0"

section \<open>Operations\<close>

definition findContext :: "gpu \<Rightarrow> u32 \<Rightarrow> gpu_3d_context option" where
  "findContext g cid = find (\<lambda>c. context_id c = cid) (m_contexts g)"

definition createRenderContext :: "device_env \<Rightarrow> gpu \<Rightarrow> io_return \<times> u32 option \<times> gpu" where
  "createRenderContext e g =
     (if \<not> supports3D g then (kIOReturnBadArgument, None, g)
      else let cid = m_next_context_id g + 1; g1 = g\<lparr>m_next_context_id := cid\<rparr> in
        case initializeCommandHeader VIRTIO_GPU_CMD_CTX_CREATE cid False g1 of (hdr, g2) \<Rightarrow>
        case send_hdr e (wire_encode hdr (Ctx_create (word_of_nat (length (ctx_name cid))) 0
                           (snprintf64 (ctx_name cid)))) g2 of
          (ret, _, g3) \<Rightarrow> (ret, Some cid, g3))"

definition create3DContext :: "device_env \<Rightarrow> gpu \<Rightarrow> io_return \<times> u32 option \<times> gpu" where
  "create3DContext e g = createRenderContext e g"

definition destroy3DContext :: "device_env \<Rightarrow> u32 \<Rightarrow> gpu \<Rightarrow> io_return \<times> gpu" where
  "destroy3DContext e cid g =
     (if \<not> supports3D g then (kIOReturnBadArgument, g)
      else if cid = 0 then (kIOReturnBadArgument, g)
      else case initializeCommandHeader VIRTIO_GPU_CMD_CTX_DESTROY cid False g of (hdr, g1) \<Rightarrow>
        case send_hdr e (wire_encode hdr Ctx_destroy) g1 of (ret, _, g2) \<Rightarrow> (ret, g2))"

text \<open>Removing the first context with the id, as the loop after the destroy command does.\<close>

fun remove_context :: "u32 \<Rightarrow> gpu_3d_context list \<Rightarrow> gpu_3d_context list" where
  "remove_context cid [] = []"
| "remove_context cid (c # cs) = (if context_id c = cid then cs else c # remove_context cid cs)"

definition destroyRenderContext :: "device_env \<Rightarrow> u32 \<Rightarrow> gpu \<Rightarrow> io_return \<times> gpu" where
  "destroyRenderContext e cid g =
     (if \<not> supports3D g then (kIOReturnUnsupported, g)
      else case findContext g cid of
        None \<Rightarrow> (kIOReturnNotFound, g)
      | Some _ \<Rightarrow>
          (case send_hdr e (wire_encode (mk_hdr VIRTIO_GPU_CMD_CTX_DESTROY cid) Ctx_destroy) g of
             (ret, _, g1) \<Rightarrow>
               (ret, if ret = kIOReturnSuccess
                     then g1\<lparr>m_contexts := remove_context cid (m_contexts g1)\<rparr> else g1)))"

text \<open>
  \<^verbatim>\<open>executeCommands\<close>. The block comes from \<^verbatim>\<open>IOMalloc\<close> and only the type, the context and the size are
  assigned: the flags, the fence id, the ring index and both paddings are what the memory held.
\<close>

definition submit3d_command :: "bytes \<Rightarrow> u32 \<Rightarrow> bytes \<Rightarrow> bytes" where
  "submit3d_command mem ctx payload =
     (let m = buf_read 32 mem
      in wire_encode
           \<lparr>hdr_type = ctrl_code VIRTIO_GPU_CMD_SUBMIT_3D, hdr_flags = rd32 (drop 4 m),
            hdr_fence_id = rd64 (drop 8 m), hdr_ctx_id = ctx, hdr_ring_idx = m ! 20,
            hdr_padding = (m ! 21, m ! 22, m ! 23)\<rparr>
           (Cmd_submit (word_of_nat (length payload)) (rd32 (drop 28 m)) payload))"

definition executeCommands :: "device_env \<Rightarrow> u32 \<Rightarrow> memdesc option \<Rightarrow> gpu \<Rightarrow> io_return \<times> gpu" where
  "executeCommands e ctx commands g =
     (case commands of
        None \<Rightarrow> (kIOReturnBadArgument, g)
      | Some d \<Rightarrow>
          if \<not> supports3D g then (kIOReturnBadArgument, g)
          else case md_map d of
            None \<Rightarrow> (kIOReturnVMError, g)
          | Some data \<Rightarrow>
              if md_length d = 0 then (kIOReturnBadArgument, g)
              else case kmalloc e (tr_tick (g_tr g)) (32 + md_length d) of
                None \<Rightarrow> (kIOReturnNoMemory, g)
              | Some mem \<Rightarrow>
                  (case send_hdr e (submit3d_command mem ctx (buf_read (md_length d) data)) g of
                     (ret, _, g1) \<Rightarrow> (ret, g1)))"

definition flushCommands :: "device_env \<Rightarrow> gpu \<Rightarrow> io_return \<times> gpu" where
  "flushCommands e g =
     (if m_is_mock_device g then (kIOReturnSuccess, g)
      else case send_hdr e (wire_encode (mk_hdr VIRTIO_GPU_CMD_CTX_DETACH_RESOURCE 0) Hdr_only) g of
             (ret, _, g1) \<Rightarrow> (ret, g1))"

definition waitForIdle :: "device_env \<Rightarrow> gpu \<Rightarrow> io_return \<times> gpu" where
  "waitForIdle e g =
     (if m_is_mock_device g then (kIOReturnSuccess, g)
      else let f = m_fence_id g + 1; g1 = g\<lparr>m_fence_id := f\<rparr> in
        case send_hdr e (wire_encode ((mk_hdr VIRTIO_GPU_CMD_SUBMIT_3D 0)
               \<lparr>hdr_flags := VIRTIO_GPU_FLAG_FENCE, hdr_fence_id := f\<rparr>) (Cmd_submit 0 0 [])) g1 of
          (ret, _, g2) \<Rightarrow> (ret, g2))"

section \<open>Lemmas\<close>

lemma length_dec_nat: "n < 10 ^ Suc k \<Longrightarrow> length (dec_nat n) \<le> Suc k"
proof (induction k arbitrary: n)
  case 0
  then show ?case by (subst dec_nat.simps) simp
next
  case (Suc k)
  show ?case
  proof (cases "n < 10")
    case True
    then show ?thesis by (subst dec_nat.simps) simp
  next
    case False
    have "n div 10 < 10 ^ Suc k" using Suc.prems by (simp add: less_mult_imp_div_less)
    then show ?thesis using Suc.IH False by (subst dec_nat.simps) simp
  qed
qed

lemma length_ctx_name: "length (ctx_name cid) \<le> 24"
proof -
  have b: "\<bar>sint cid\<bar> \<le> 2 ^ 31"
    using sint_greater_eq [of cid] sint_less [of cid] by (simp add: abs_le_iff)
  then have "nat (- sint cid) < 10 ^ Suc 9" "nat (sint cid) < 10 ^ Suc 9"
    by (simp_all add: nat_less_iff)
  then have "length (dec_nat (nat (- sint cid))) \<le> 10" "length (dec_nat (nat (sint cid))) \<le> 10"
    using length_dec_nat [of _ 9] by simp_all
  then show ?thesis by (auto simp: ctx_name_def dec_signed_def)
qed

lemma length_snprintf64 [simp]: "length (snprintf64 s) = 64"
  by (simp add: snprintf64_def)

lemma ctx_create_decodes:
  assumes "initializeCommandHeader VIRTIO_GPU_CMD_CTX_CREATE cid f g = (hdr, g')"
  shows "wire_decode (wire_encode hdr (Ctx_create nlen ci (snprintf64 s)))
       = Some (hdr, Ctx_create nlen ci (snprintf64 s)) \<and> hdr_ctx_id hdr = cid"
proof -
  have h: "hdr_type hdr = ctrl_code VIRTIO_GPU_CMD_CTX_CREATE" "hdr_ctx_id hdr = cid"
    using assms by (auto simp: initializeCommandHeader_def Let_def)
  then show ?thesis by (simp add: wire_dec_enc)
qed

section \<open>Properties\<close>

text \<open>Creating a context: the id is the successor of the last one, whatever the device answers; the command
  the device sees, if the call got as far as publishing, is a \<open>CTX_CREATE\<close> for that id whose name is the
  zero-terminated \<open>macOS_3D_ctx_<id>\<close>, never cut by the 64-byte field, with its exact length in \<open>nlen\<close>.\<close>

theorem createRenderContext_command:
  assumes "supports3D g" "createRenderContext e g = (ret, cid, g')"
  shows "cid = Some (m_next_context_id g + 1) \<and> m_next_context_id g' = m_next_context_id g + 1
     \<and> (ret \<in> {kIOReturnSuccess, kIOReturnError, kIOReturnTimeout} \<longrightarrow>
         (\<exists>cmd hdr. tr_sent (g_tr g') = tr_sent (g_tr g) @ [(Control, cmd)]
            \<and> hdr_ctx_id hdr = m_next_context_id g + 1
            \<and> wire_decode cmd = Some (hdr, Ctx_create
                (word_of_nat (length (ctx_name (m_next_context_id g + 1)))) 0
                (ctx_name (m_next_context_id g + 1)
                 @ replicate (64 - length (ctx_name (m_next_context_id g + 1))) 0))))"
proof -
  let ?c = "m_next_context_id g + 1" and ?g1 = "g\<lparr>m_next_context_id := m_next_context_id g + 1\<rparr>"
  obtain hdr g2 where h: "initializeCommandHeader VIRTIO_GPU_CMD_CTX_CREATE ?c False ?g1 = (hdr, g2)"
    by fastforce
  then have g2: "g2 = ?g1" by (simp add: initializeCommandHeader_def Let_def)
  let ?cmd = "wire_encode hdr (Ctx_create (word_of_nat (length (ctx_name ?c))) 0 (snprintf64 (ctx_name ?c)))"
  obtain r ty g3 where s: "send_hdr e ?cmd g2 = (r, ty, g3)" by (rule prod_cases3)
  have res: "ret = r" "cid = Some ?c" "g' = g3"
    using assms h s by (auto simp: createRenderContext_def Let_def)
  have name: "snprintf64 (ctx_name ?c) = ctx_name ?c @ replicate (64 - length (ctx_name ?c)) 0"
    using length_ctx_name [of ?c] by (simp add: snprintf64_def)
  have "wire_decode ?cmd = Some (hdr, Ctx_create (word_of_nat (length (ctx_name ?c))) 0
      (ctx_name ?c @ replicate (64 - length (ctx_name ?c)) 0)) \<and> hdr_ctx_id hdr = ?c"
    unfolding name [symmetric] by (rule ctx_create_decodes [OF h])
  then show ?thesis
    using res send_hdr_sent [OF s] send_hdr_keeps(14) [OF s] g2 by auto
qed

theorem createRenderContext_command_witness:
  "\<exists>ret cid g'. createRenderContext sample_env sample_gpu = (ret, cid, g')
     \<and> cid = Some (m_next_context_id sample_gpu + 1)"
proof -
  obtain ret cid g' where r: "createRenderContext sample_env sample_gpu = (ret, cid, g')"
    by (rule prod_cases3)
  have "supports3D sample_gpu" by (simp add: supports3D_def sample_gpu_def)
  from createRenderContext_command [OF this r] r show ?thesis by blast
qed

text \<open>Contexts cannot be destroyed through \<^verbatim>\<open>destroyRenderContext\<close>: creation never records a context in the
  list (it is empty from initialisation on), so the lookup fails, the call reports \<open>NotFound\<close>, and no destroy
  command is sent for a context the host holds.\<close>

theorem destroyRenderContext_never_finds:
  assumes "m_contexts g = []" "supports3D g" "createRenderContext e g = (ret, cid, g')"
  shows "m_contexts g' = [] \<and> destroyRenderContext e c g' = (kIOReturnNotFound, g')"
proof -
  let ?g1 = "g\<lparr>m_next_context_id := m_next_context_id g + 1\<rparr>"
  obtain hdr g2 where h: "initializeCommandHeader VIRTIO_GPU_CMD_CTX_CREATE (m_next_context_id g + 1) False ?g1
      = (hdr, g2)" by fastforce
  then have g2: "g2 = ?g1" by (simp add: initializeCommandHeader_def Let_def)
  obtain cmd r ty g3 where s: "send_hdr e cmd g2 = (r, ty, g3)" "g' = g3"
    using assms h by (auto simp: createRenderContext_def Let_def split: prod.splits)
  have "m_contexts g' = []" "m_num_capsets g' = m_num_capsets g"
    using send_hdr_keeps(6,9) [OF s(1)] s(2) g2 assms(1) by simp_all
  then show ?thesis
    using assms(2) by (simp add: destroyRenderContext_def supports3D_def findContext_def)
qed

theorem destroyRenderContext_never_finds_witness:
  "\<exists>ret cid g'. createRenderContext sample_env sample_gpu = (ret, cid, g')
     \<and> destroyRenderContext sample_env 2 g' = (kIOReturnNotFound, g')"
proof -
  obtain ret cid g' where r: "createRenderContext sample_env sample_gpu = (ret, cid, g')"
    by (rule prod_cases3)
  have "supports3D sample_gpu" "m_contexts sample_gpu = []"
    by (simp_all add: supports3D_def sample_gpu_def gpu_init_def)
  from destroyRenderContext_never_finds [OF this(2,1) r] r show ?thesis by blast
qed

text \<open>Executing a command buffer delivers it intact: when the submission is published, the device reads a
  \<open>SUBMIT_3D\<close> for the given context whose payload is exactly the mapped bytes and whose size field is
  their number; the flags and the fence id of its header are whatever the freshly allocated memory held.\<close>

theorem executeCommands_payload:
  assumes "supports3D g" "md_map d = Some data" "length data = md_length d" "0 < md_length d"
    "md_length d < 2 ^ 32" "kmalloc e (tr_tick (g_tr g)) (32 + md_length d) = Some mem"
    and "executeCommands e ctx (Some d) g = (ret, g')"
    and "ret \<in> {kIOReturnSuccess, kIOReturnError, kIOReturnTimeout}"
  shows "\<exists>cmd hdr pad. tr_sent (g_tr g') = tr_sent (g_tr g) @ [(Control, cmd)]
     \<and> wire_decode cmd = Some (hdr, Cmd_submit (word_of_nat (length data)) pad data)
     \<and> hdr_type hdr = ctrl_code VIRTIO_GPU_CMD_SUBMIT_3D \<and> hdr_ctx_id hdr = ctx
     \<and> hdr_flags hdr = rd32 (drop 4 (buf_read 32 mem)) \<and> hdr_fence_id hdr = rd64 (drop 8 (buf_read 32 mem))"
proof -
  let ?m = "buf_read 32 mem"
  let ?hdr = "\<lparr>hdr_type = ctrl_code VIRTIO_GPU_CMD_SUBMIT_3D, hdr_flags = rd32 (drop 4 ?m),
            hdr_fence_id = rd64 (drop 8 ?m), hdr_ctx_id = ctx, hdr_ring_idx = ?m ! 20,
            hdr_padding = (?m ! 21, ?m ! 22, ?m ! 23)\<rparr>"
  let ?b = "Cmd_submit (word_of_nat (length data)) (rd32 (drop 28 ?m)) data"
  obtain r ty g1 where s: "send_hdr e (wire_encode ?hdr ?b) g = (r, ty, g1)" by (rule prod_cases3)
  have res: "ret = r" "g' = g1"
    using assms(1-7) s by (auto simp: executeCommands_def submit3d_command_def Let_def)
  have "body_ok (hdr_type ?hdr) ?b"
    using assms(3,5) by (simp add: unat_of_nat)
  then have "wire_decode (wire_encode ?hdr ?b) = Some (?hdr, ?b)"
    by (rule wire_dec_enc)
  moreover have "tr_sent (g_tr g') = tr_sent (g_tr g) @ [(Control, wire_encode ?hdr ?b)]"
    using send_hdr_sent [OF s] res assms(8) by simp
  ultimately show ?thesis
    by (intro exI [of _ "wire_encode ?hdr ?b"] exI [of _ ?hdr] exI [of _ "rd32 (drop 28 ?m)"]) simp
qed

lemma sample_execute:
  "\<exists>g'. executeCommands sample_env 2 (Some ((sample_desc 1 8)\<lparr>md_map := Some [1, 2, 3, 4, 5, 6, 7, 8]\<rparr>)) sample_gpu
     = (kIOReturnSuccess, g')"
proof -
  let ?d = "(sample_desc 1 8)\<lparr>md_map := Some [1, 2, 3, 4, 5, 6, 7, 8]\<rparr>"
  let ?c = "submit3d_command (replicate 40 0) 2 (buf_read 8 [1, 2, 3, 4, 5, 6, 7, 8])"
  have "24 \<le> length ?c" "length ?c \<le> 4096"
    by (simp_all add: submit3d_command_def Let_def length_wire_encode)
  from send_hdr_ok [OF sample_good this] obtain t where "send_hdr sample_env ?c sample_gpu
      = (kIOReturnSuccess, ctrl_code VIRTIO_GPU_RESP_OK_NODATA, sample_gpu\<lparr>g_tr := t\<rparr>)" by blast
  moreover have "kmalloc sample_env n k = Some (replicate k 0)" for n k by (simp add: sample_env_def)
  moreover have "md_length ?d = 8" "md_map ?d = Some [1, 2, 3, 4, 5, 6, 7, 8]" "supports3D sample_gpu"
    by (simp_all add: sample_desc_def supports3D_def sample_gpu_def)
  ultimately show ?thesis by (simp add: executeCommands_def)
qed

theorem executeCommands_payload_witness:
  "\<exists>g' cmd hdr pad. executeCommands sample_env 2
        (Some ((sample_desc 1 8)\<lparr>md_map := Some [1, 2, 3, 4, 5, 6, 7, 8]\<rparr>)) sample_gpu = (kIOReturnSuccess, g')
     \<and> tr_sent (g_tr g') = tr_sent (g_tr sample_gpu) @ [(Control, cmd)]
     \<and> wire_decode cmd = Some (hdr, Cmd_submit (word_of_nat (length [1 :: u8, 2, 3, 4, 5, 6, 7, 8])) pad
          [1, 2, 3, 4, 5, 6, 7, 8])"
proof -
  let ?d = "(sample_desc 1 8)\<lparr>md_map := Some [1, 2, 3, 4, 5, 6, 7, 8]\<rparr>"
  obtain g' where r: "executeCommands sample_env 2 (Some ?d) sample_gpu = (kIOReturnSuccess, g')"
    using sample_execute by blast
  have "supports3D sample_gpu" by (simp add: supports3D_def sample_gpu_def)
  moreover have "kmalloc sample_env (tr_tick (g_tr sample_gpu)) (32 + md_length ?d)
      = Some (replicate (32 + md_length ?d) 0)" by (simp add: sample_env_def)
  ultimately show ?thesis
    using executeCommands_payload [of sample_gpu ?d "[1, 2, 3, 4, 5, 6, 7, 8]" sample_env _ 2 _ g', OF _ _ _ _ _ _ r] r
    by (auto simp: sample_desc_def)
qed

end
