(* ===== verification/Display.thy ===== *)
theory Display
  imports Resources Contexts
begin

text \<open>
  The display side of \<^verbatim>\<open>VMVirtIOGPU\<close>: transfers, flushes, scanouts, the display resource, the hardware
  cursor, and the feature queries. Each operation builds one or two commands and sends them; what the
  device finally reads is stated through the wire decoder.
\<close>

section \<open>Transfers and flushes\<close>

definition send_ret :: "device_env \<Rightarrow> bytes \<Rightarrow> gpu \<Rightarrow> io_return \<times> gpu" where
  "send_ret e cmd g = (case send_hdr e cmd g of (ret, _, g') \<Rightarrow> (ret, g'))"

definition transfer2d_command :: "u32 \<Rightarrow> u64 \<Rightarrow> u32 \<Rightarrow> u32 \<Rightarrow> u32 \<Rightarrow> u32 \<Rightarrow> bytes" where
  "transfer2d_command rid off x y w h =
     wire_encode (mk_hdr VIRTIO_GPU_CMD_TRANSFER_TO_HOST_2D 0) (Transfer_to_host_2d (mk_rect x y w h) off rid)"

definition flush_command :: "u32 \<Rightarrow> u32 \<Rightarrow> u32 \<Rightarrow> u32 \<Rightarrow> u32 \<Rightarrow> bytes" where
  "flush_command rid x y w h =
     wire_encode (mk_hdr VIRTIO_GPU_CMD_RESOURCE_FLUSH 0) (Resource_flush (mk_rect x y w h) rid)"

definition transferToHost2D ::
  "device_env \<Rightarrow> u32 \<Rightarrow> u64 \<Rightarrow> u32 \<Rightarrow> u32 \<Rightarrow> u32 \<Rightarrow> u32 \<Rightarrow> gpu \<Rightarrow> io_return \<times> gpu" where
  "transferToHost2D e rid off x y w h g =
     (if \<not> m_pci_device g \<or> \<not> m_control_queue g then (kIOReturnNotReady, g)
      else send_ret e (transfer2d_command rid off x y w h) g)"

definition transferToHost3D ::
  "device_env \<Rightarrow> u32 \<Rightarrow> u32 \<Rightarrow> virtio_gpu_box \<Rightarrow> u32 \<Rightarrow> gpu \<Rightarrow> io_return \<times> gpu" where
  "transferToHost3D e rid level b ctx g =
     (if \<not> m_pci_device g \<or> \<not> m_control_queue g then (kIOReturnNotReady, g)
      else send_ret e (wire_encode (mk_hdr VIRTIO_GPU_CMD_TRANSFER_TO_HOST_3D ctx)
                         (Transfer_host_3d b 0 rid level 0 0)) g)"

definition transferFromHost3D ::
  "device_env \<Rightarrow> u32 \<Rightarrow> u32 \<Rightarrow> virtio_gpu_box \<Rightarrow> u32 \<Rightarrow> gpu \<Rightarrow> io_return \<times> gpu" where
  "transferFromHost3D e rid level b ctx g =
     (if \<not> m_pci_device g \<or> \<not> m_control_queue g then (kIOReturnNotReady, g)
      else send_ret e (wire_encode (mk_hdr VIRTIO_GPU_CMD_TRANSFER_FROM_HOST_3D ctx)
                         (Transfer_host_3d b 0 rid level 0 0)) g)"

definition flushResource ::
  "device_env \<Rightarrow> u32 \<Rightarrow> u32 \<Rightarrow> u32 \<Rightarrow> u32 \<Rightarrow> u32 \<Rightarrow> gpu \<Rightarrow> io_return \<times> gpu" where
  "flushResource e rid x y w h g =
     (if \<not> m_pci_device g \<or> \<not> m_control_queue g then (kIOReturnNotReady, g)
      else send_ret e (flush_command rid x y w h) g)"

text \<open>\<^verbatim>\<open>updateDisplay\<close>: validate the scanout, the resource and the rectangle, transfer, then flush.\<close>

definition updateDisplay ::
  "device_env \<Rightarrow> u32 \<Rightarrow> u32 \<Rightarrow> u32 \<Rightarrow> u32 \<Rightarrow> u32 \<Rightarrow> u32 \<Rightarrow> gpu \<Rightarrow> io_return \<times> gpu" where
  "updateDisplay e scanout rid x y w h g =
     (if scanout \<ge> m_max_scanouts g then (kIOReturnBadArgument, g)
      else if findResource g rid = None then (kIOReturnNotFound, g)
      else if w = 0 \<or> h = 0 then (kIOReturnBadArgument, g)
      else case send_ret e (transfer2d_command rid 0 x y w h) g of (transfer_ret, g1) \<Rightarrow>
        if transfer_ret \<noteq> kIOReturnSuccess then (transfer_ret, g1)
        else send_ret e (flush_command rid x y w h) g1)"

section \<open>Scanouts\<close>

definition scanout_command :: "u32 \<Rightarrow> u32 \<Rightarrow> u32 \<Rightarrow> u32 \<Rightarrow> u32 \<Rightarrow> u32 \<Rightarrow> bytes" where
  "scanout_command scanout rid x y w h =
     wire_encode (mk_hdr VIRTIO_GPU_CMD_SET_SCANOUT 0) (Set_scanout (mk_rect x y w h) scanout rid)"

definition setupScanout :: "device_env \<Rightarrow> u32 \<Rightarrow> u32 \<Rightarrow> u32 \<Rightarrow> gpu \<Rightarrow> io_return \<times> gpu" where
  "setupScanout e scanout w h g =
     (if scanout \<ge> m_max_scanouts g then (kIOReturnBadArgument, g)
      else let rid = m_next_resource_id g + 1 in
        case createResource2D e rid VIRTIO_GPU_FORMAT_B8G8R8A8_UNORM w h None
               (g\<lparr>m_next_resource_id := rid\<rparr>) of (ret, g1) \<Rightarrow>
        if ret \<noteq> kIOReturnSuccess then (ret, g1)
        else send_ret e (scanout_command scanout rid 0 0 w h) g1)"

definition setupDisplayResource :: "device_env \<Rightarrow> u32 \<Rightarrow> u32 \<Rightarrow> gpu \<Rightarrow> io_return \<times> gpu" where
  "setupDisplayResource e w h g =
     (if \<not> m_pci_device g \<or> \<not> m_control_queue g then (kIOReturnNotReady, g)
      else let rid = m_next_resource_id g + 1 in
        case createResource2D e rid VIRTIO_GPU_FORMAT_B8G8R8A8_UNORM w h None
               (g\<lparr>m_next_resource_id := rid\<rparr>) of (ret, g1) \<Rightarrow>
        if ret \<noteq> kIOReturnSuccess then (ret, g1)
        else let g2 = g1\<lparr>m_display_resource_id := rid\<rparr> in
          (kIOReturnSuccess,
           if w \<ge> 1920 \<and> h \<ge> 1080
           then let rid2 = m_next_resource_id g2 + 1 in
             snd (createResource2D e rid2 VIRTIO_GPU_FORMAT_B8G8R8A8_UNORM (w div 2) h None
                    (g2\<lparr>m_next_resource_id := rid2\<rparr>))
           else g2))"

text \<open>\<open>secondary\<close>: the registry property \<open>secondary-display-resource-id\<close>, when it is set.\<close>

definition enableScanout ::
  "device_env \<Rightarrow> u32 option \<Rightarrow> u32 \<Rightarrow> u32 \<Rightarrow> u32 \<Rightarrow> gpu \<Rightarrow> io_return \<times> gpu" where
  "enableScanout e secondary scanout w h g =
     (if \<not> m_pci_device g \<or> \<not> m_control_queue g then (kIOReturnNotReady, g)
      else if m_display_resource_id g = 0 then (kIOReturnNotReady, g)
      else let rid = (if scanout = 1
                      then (case secondary of None \<Rightarrow> m_display_resource_id g | Some r \<Rightarrow> r)
                      else m_display_resource_id g)
           in send_ret e (scanout_command scanout rid 0 0 w h) g)"

text \<open>\<^verbatim>\<open>setscanout\<close>: on success the framebuffer learns whether a resource other than 0 and 1 took over.\<close>

definition setscanout ::
  "device_env \<Rightarrow> u32 \<Rightarrow> u32 \<Rightarrow> u32 \<Rightarrow> u32 \<Rightarrow> u32 \<Rightarrow> u32 \<Rightarrow> gpu \<Rightarrow> io_return \<times> gpu" where
  "setscanout e scanout rid x y w h g =
     (if \<not> m_pci_device g \<or> \<not> m_control_queue g then (kIOReturnNotReady, g)
      else case send_ret e (scanout_command scanout rid x y w h) g of (ret, g1) \<Rightarrow>
        if ret \<noteq> kIOReturnSuccess then (ret, g1)
        else (kIOReturnSuccess,
              if m_framebuffer g1 then g1\<lparr>fb_taken_by_3d := (rid \<noteq> 1 \<and> rid \<noteq> 0)\<rparr> else g1))"

definition setFramebuffer :: "bool \<Rightarrow> gpu \<Rightarrow> gpu" where
  "setFramebuffer fb g = g\<lparr>m_framebuffer := fb\<rparr>"

definition setMockMode :: "bool \<Rightarrow> gpu \<Rightarrow> gpu" where
  "setMockMode enabled g = g\<lparr>m_is_mock_device := enabled\<rparr>"

definition blitRect :: "gpu \<Rightarrow> io_return" where
  "blitRect g = (if m_is_mock_device g then kIOReturnUnsupported else kIOReturnUnsupported)"

definition fillRect :: "gpu \<Rightarrow> io_return" where
  "fillRect g = (if m_is_mock_device g then kIOReturnUnsupported else kIOReturnUnsupported)"

section \<open>Features\<close>

abbreviation (input) VIRTIO_GPU_FEATURE_VIRGL :: u32 where "VIRTIO_GPU_FEATURE_VIRGL \<equiv> 1"
abbreviation (input) VIRTIO_GPU_FEATURE_RESOURCE_BLOB :: u32 where "VIRTIO_GPU_FEATURE_RESOURCE_BLOB \<equiv> 8"
abbreviation (input) VIRTIO_GPU_FEATURE_CONTEXT_INIT :: u32 where "VIRTIO_GPU_FEATURE_CONTEXT_INIT \<equiv> 16"
abbreviation (input) VIRTIO_GPU_FEATURE_3D :: u32 where "VIRTIO_GPU_FEATURE_3D \<equiv> VIRTIO_GPU_FEATURE_VIRGL"

definition enableFeature :: "u32 \<Rightarrow> gpu \<Rightarrow> io_return" where
  "enableFeature flags g =
     (if \<not> m_pci_device g then kIOReturnNotReady
      else if flags = VIRTIO_GPU_FEATURE_3D
      then (if m_num_capsets g > 0 then kIOReturnSuccess else kIOReturnUnsupported)
      else kIOReturnSuccess)"

definition supportsFeature :: "u32 \<Rightarrow> gpu \<Rightarrow> bool" where
  "supportsFeature flags g =
     (let s3d = flags AND VIRTIO_GPU_FEATURE_3D \<noteq> 0;
          svirgl = flags AND VIRTIO_GPU_FEATURE_VIRGL \<noteq> 0;
          sblob = flags AND VIRTIO_GPU_FEATURE_RESOURCE_BLOB \<noteq> 0;
          sinit = flags AND VIRTIO_GPU_FEATURE_CONTEXT_INIT \<noteq> 0;
          r = (s3d \<and> supports3D g) \<or> (svirgl \<and> supports3D g) \<or> (sblob \<and> supports3D g)
              \<or> (sinit \<and> supports3D g)
      in if flags AND (VIRTIO_GPU_FEATURE_3D OR VIRTIO_GPU_FEATURE_VIRGL
                       OR VIRTIO_GPU_FEATURE_RESOURCE_BLOB OR VIRTIO_GPU_FEATURE_CONTEXT_INIT) \<noteq> 0
            \<and> \<not> s3d \<and> \<not> svirgl \<and> \<not> sblob \<and> \<not> sinit
         then supports3D g else r)"

text \<open>One round of the capability query of \<^verbatim>\<open>enableVirgl\<close>: info by index, then the set by the returned id.\<close>

definition capset_info_command :: "u32 \<Rightarrow> bytes" where
  "capset_info_command index =
     wire_encode (mk_hdr VIRTIO_GPU_CMD_GET_CAPSET_INFO 0) (Get_capset_info index)"

definition capset_command :: "u32 \<Rightarrow> u32 \<Rightarrow> bytes" where
  "capset_command cid version =
     wire_encode (mk_hdr VIRTIO_GPU_CMD_GET_CAPSET 0) (Get_capset cid version)"

definition query_capset :: "device_env \<Rightarrow> u32 \<Rightarrow> gpu \<Rightarrow> gpu" where
  "query_capset e index g =
     (case send e (capset_info_command index) 40 g of (info_ret, resp, g1) \<Rightarrow>
        if info_ret \<noteq> kIOReturnSuccess then g1
        else let cid = rd32 (drop 24 resp); version = rd32 (drop 28 resp); sz = rd32 (drop 32 resp)
          in if sz > 0 \<and> sz < 65536
             then case kmalloc e (tr_tick (g_tr g1)) (24 + unat sz) of
                    None \<Rightarrow> g1
                  | Some mem \<Rightarrow>
                      (case submitCommand e (Some (capset_command cid version))
                              (Some (buf_read (24 + unat sz) mem)) (g_tr g1) of
                         (_, _, t) \<Rightarrow> g1\<lparr>g_tr := t\<rparr>)
             else g1)"

fun query_capsets :: "device_env \<Rightarrow> nat \<Rightarrow> u32 \<Rightarrow> gpu \<Rightarrow> gpu" where
  "query_capsets e 0 index g = g"
| "query_capsets e (Suc n) index g = query_capsets e n (index + 1) (query_capset e index g)"

definition enableVirgl :: "device_env \<Rightarrow> gpu \<Rightarrow> gpu" where
  "enableVirgl e g =
     (if \<not> m_pci_device g then g
      else if \<not> supports3D g then g
      else if enableFeature VIRTIO_GPU_FEATURE_VIRGL g \<noteq> kIOReturnSuccess then g
      else query_capsets e (unat (m_num_capsets g)) 0 g)"

section \<open>The hardware cursor\<close>

definition send_cursor :: "device_env \<Rightarrow> bytes \<Rightarrow> gpu \<Rightarrow> io_return \<times> gpu" where
  "send_cursor e cmd g =
     (case submitCursorCommand e cmd (Some (zeros sizeof_hdr)) (g_tr g) of
        (ret, _, t) \<Rightarrow> (ret, g\<lparr>g_tr := t\<rparr>))"

definition mk_cursor_pos :: "u32 \<Rightarrow> u32 \<Rightarrow> u32 \<Rightarrow> virtio_gpu_cursor_pos" where
  "mk_cursor_pos scanout x y = \<lparr>cp_scanout_id = scanout, cp_x = x, cp_y = y, cp_padding = 0\<rparr>"

definition updateCursor ::
  "device_env \<Rightarrow> u32 \<Rightarrow> u32 \<Rightarrow> u32 \<Rightarrow> u32 \<Rightarrow> u32 \<Rightarrow> u32 \<Rightarrow> gpu \<Rightarrow> io_return \<times> gpu" where
  "updateCursor e rid hot_x hot_y scanout x y g =
     (if \<not> vq_initialized (m_cursor_vq (g_tr g)) then (kIOReturnNotReady, g)
      else send_cursor e (wire_encode (mk_hdr VIRTIO_GPU_CMD_UPDATE_CURSOR 0)
             (Update_cursor (mk_cursor_pos scanout x y) rid hot_x hot_y)) g)"

definition moveCursor :: "device_env \<Rightarrow> u32 \<Rightarrow> u32 \<Rightarrow> u32 \<Rightarrow> gpu \<Rightarrow> io_return \<times> gpu" where
  "moveCursor e scanout x y g =
     (if \<not> vq_initialized (m_cursor_vq (g_tr g)) then (kIOReturnNotReady, g)
      else send_cursor e (wire_encode (mk_hdr VIRTIO_GPU_CMD_MOVE_CURSOR 0)
             (Update_cursor (mk_cursor_pos scanout x y) 0 0 0)) g)"

text \<open>The boot-time probe of the cursor queue; the constructors name the step that failed.\<close>

datatype cursor_probe = Cursor_pass | Cursor_no_queue | Cursor_fail_create | Cursor_fail_backing
  | Cursor_fail_transfer | Cursor_fail_update | Cursor_fail_move

definition probeCursorTransport :: "device_env \<Rightarrow> gpu \<Rightarrow> cursor_probe \<times> gpu" where
  "probeCursorTransport e g =
     (if \<not> vq_initialized (m_cursor_vq (g_tr g)) then (Cursor_no_queue, g)
      else case createResource2D e 0xFFFD 1 64 64 None g of (cr, g1) \<Rightarrow>
        if cr \<noteq> kIOReturnSuccess then (Cursor_fail_create, g1)
        else if (case findResource g1 0xFFFD of None \<Rightarrow> True | Some r \<Rightarrow> backing_memory r = None)
        then (Cursor_fail_backing, g1)
        else case transferToHost2D e 0xFFFD 0 0 0 64 64 g1 of (xr, g2) \<Rightarrow>
          if xr \<noteq> kIOReturnSuccess then (Cursor_fail_transfer, g2)
          else case updateCursor e 0xFFFD 0 0 0 100 100 g2 of (ur, g3) \<Rightarrow>
            if ur \<noteq> kIOReturnSuccess then (Cursor_fail_update, g3)
            else case moveCursor e 0 200 200 g3 of (m1, g4) \<Rightarrow>
              case moveCursor e 0 300 300 g4 of (m2, g5) \<Rightarrow>
                if m1 \<noteq> kIOReturnSuccess \<or> m2 \<noteq> kIOReturnSuccess then (Cursor_fail_move, g5)
                else (Cursor_pass, g5))"

section \<open>What the device reads\<close>

lemma transfer2d_decodes [wire_simps]:
  "wire_decode (transfer2d_command rid off x y w h) =
     Some (mk_hdr VIRTIO_GPU_CMD_TRANSFER_TO_HOST_2D 0, Transfer_to_host_2d (mk_rect x y w h) off rid)"
  unfolding transfer2d_command_def by (rule wire_dec_enc) (simp add: mk_hdr_def)

lemma flush_decodes [wire_simps]:
  "wire_decode (flush_command rid x y w h) =
     Some (mk_hdr VIRTIO_GPU_CMD_RESOURCE_FLUSH 0, Resource_flush (mk_rect x y w h) rid)"
  unfolding flush_command_def by (rule wire_dec_enc) (simp add: mk_hdr_def)

lemma scanout_decodes [wire_simps]:
  "wire_decode (scanout_command sc rid x y w h) =
     Some (mk_hdr VIRTIO_GPU_CMD_SET_SCANOUT 0, Set_scanout (mk_rect x y w h) sc rid)"
  unfolding scanout_command_def by (rule wire_dec_enc) (simp add: mk_hdr_def)

lemma display_command_lengths [simp]:
  "length (transfer2d_command rid off x y w h) = 56" "length (flush_command rid x y w h) = 48"
  "length (scanout_command sc rid x y w h) = 48"
  by (simp_all add: transfer2d_command_def flush_command_def scanout_command_def length_wire_encode)

text \<open>The commands of a state that the device reads, and how one call extends them.\<close>

definition seen :: "gpu \<Rightarrow> (virtio_gpu_ctrl_hdr \<times> gpu_body) option list" where
  "seen g = map (\<lambda>(_, c). wire_decode c) (tr_sent (g_tr g))"

lemma send_ret_seen:
  assumes "send_ret e cmd g = (ret, g')"
  shows "ret \<in> {kIOReturnSuccess, kIOReturnError, kIOReturnTimeout} \<Longrightarrow> seen g' = seen g @ [wire_decode cmd]"
    and "g' = g\<lparr>g_tr := g_tr g'\<rparr>"
proof -
  obtain ty where s: "send_hdr e cmd g = (ret, ty, g')"
    using assms by (auto simp: send_ret_def split: prod.splits)
  show "g' = g\<lparr>g_tr := g_tr g'\<rparr>" using send_hdr_frame [OF s] .
  show "seen g' = seen g @ [wire_decode cmd]"
    if "ret \<in> {kIOReturnSuccess, kIOReturnError, kIOReturnTimeout}"
    using send_hdr_sent [OF s that] by (simp add: seen_def)
qed

lemma send_ret_ok:
  assumes "good_device e g" "24 \<le> length cmd" "length cmd \<le> 4096"
  shows "\<exists>t. send_ret e cmd g = (kIOReturnSuccess, g\<lparr>g_tr := t\<rparr>) \<and> good_device e (g\<lparr>g_tr := t\<rparr>)
     \<and> tr_sent t = tr_sent (g_tr g) @ [(Control, cmd)]"
  using send_hdr_ok [OF assms] by (auto simp: send_ret_def)

section \<open>Properties\<close>

text \<open>C12. Display update: a bad scanout, an unknown resource or an empty rectangle changes nothing and sends
  nothing; on success the device has read exactly a transfer and then a flush, both of the given resource and
  the same rectangle; after a failed transfer no flush is sent.\<close>

theorem updateDisplay_transfer_then_flush:
  assumes "updateDisplay e sc rid x y w h g = (ret, g')"
  shows "(sc \<ge> m_max_scanouts g \<or> findResource g rid = None \<or> w = 0 \<or> h = 0 \<longrightarrow>
            g' = g \<and> ret \<in> {kIOReturnBadArgument, kIOReturnNotFound})
       \<and> (ret = kIOReturnSuccess \<longrightarrow> seen g' = seen g
            @ [Some (mk_hdr VIRTIO_GPU_CMD_TRANSFER_TO_HOST_2D 0, Transfer_to_host_2d (mk_rect x y w h) 0 rid),
               Some (mk_hdr VIRTIO_GPU_CMD_RESOURCE_FLUSH 0, Resource_flush (mk_rect x y w h) rid)])
       \<and> (fst (send_ret e (transfer2d_command rid 0 x y w h) g) \<noteq> kIOReturnSuccess \<longrightarrow>
            ret \<noteq> kIOReturnSuccess \<and> (g' = g \<or> g' = snd (send_ret e (transfer2d_command rid 0 x y w h) g)))"
proof -
  obtain tr g1 where s: "send_ret e (transfer2d_command rid 0 x y w h) g = (tr, g1)" by fastforce
  obtain fr g2 where f: "send_ret e (flush_command rid x y w h) g1 = (fr, g2)" by fastforce
  have "seen g2 = seen g @ [Some (mk_hdr VIRTIO_GPU_CMD_TRANSFER_TO_HOST_2D 0,
            Transfer_to_host_2d (mk_rect x y w h) 0 rid),
               Some (mk_hdr VIRTIO_GPU_CMD_RESOURCE_FLUSH 0, Resource_flush (mk_rect x y w h) rid)]"
    if "tr = kIOReturnSuccess" "fr = kIOReturnSuccess"
    using send_ret_seen(1) [OF s] send_ret_seen(1) [OF f] that
    by (simp add: transfer2d_decodes flush_decodes)
  then show ?thesis
    using assms s f by (auto simp: updateDisplay_def split: if_splits)
qed

theorem updateDisplay_transfer_then_flush_witness:
  "\<exists>ret g'. updateDisplay sample_env 0 9 0 0 8 8 sample_gpu = (ret, g') \<and> g' = sample_gpu
     \<and> ret \<in> {kIOReturnBadArgument, kIOReturnNotFound}"
proof -
  obtain ret g' where r: "updateDisplay sample_env 0 9 0 0 8 8 sample_gpu = (ret, g')" by fastforce
  have "find_slot k (replicate n free_slot) = None" for k n
    by (induction n) (simp_all add: free_slot_def)
  then have "findResource sample_gpu 9 = None"
    by (simp add: findResource_def sample_gpu_def gpu_init_def)
  with updateDisplay_transfer_then_flush [OF r] r show ?thesis by blast
qed

text \<open>Scanout hand-over: the framebuffer's refresh is paused exactly when a resource other than 0 and the
  2D framebuffer's resource 1 was accepted on the scanout; a refused scanout leaves the flag as it was; on
  success the device has read the given rectangle, scanout and resource.\<close>

theorem setscanout_hand_over:
  assumes "setscanout e sc rid x y w h g = (ret, g')"
  shows "(ret = kIOReturnSuccess \<longrightarrow>
            (m_framebuffer g \<longrightarrow> fb_taken_by_3d g' = (rid \<noteq> 1 \<and> rid \<noteq> 0))
            \<and> seen g' = seen g @ [Some (mk_hdr VIRTIO_GPU_CMD_SET_SCANOUT 0,
                                         Set_scanout (mk_rect x y w h) sc rid)])
       \<and> (ret \<noteq> kIOReturnSuccess \<or> \<not> m_framebuffer g \<longrightarrow> fb_taken_by_3d g' = fb_taken_by_3d g)"
proof -
  obtain sr g1 where s: "send_ret e (scanout_command sc rid x y w h) g = (sr, g1)" by fastforce
  have fr: "m_framebuffer g1 = m_framebuffer g" "fb_taken_by_3d g1 = fb_taken_by_3d g"
    by (subst send_ret_seen(2) [OF s], simp)+
  have "seen g1 = seen g @ [Some (mk_hdr VIRTIO_GPU_CMD_SET_SCANOUT 0,
                                         Set_scanout (mk_rect x y w h) sc rid)]" if "sr = kIOReturnSuccess"
    using send_ret_seen(1) [OF s] that by (simp add: scanout_decodes)
  then show ?thesis
    using assms s fr by (auto simp: setscanout_def seen_def split: if_splits)
qed

lemma sample_setscanout:
  "\<exists>g'. setscanout sample_env 0 7 0 0 8 8 (setFramebuffer True sample_gpu) = (kIOReturnSuccess, g')"
proof -
  have "good_device sample_env (setFramebuffer True sample_gpu)"
    using sample_good by (simp add: good_device_def setFramebuffer_def)
  from send_ret_ok [OF this, of "scanout_command 0 7 0 0 8 8"] show ?thesis
    by (auto simp: setscanout_def setFramebuffer_def sample_gpu_def)
qed

theorem setscanout_hand_over_witness:
  "\<exists>g'. setscanout sample_env 0 7 0 0 8 8 (setFramebuffer True sample_gpu) = (kIOReturnSuccess, g')
     \<and> fb_taken_by_3d g'"
proof -
  obtain g' where r: "setscanout sample_env 0 7 0 0 8 8 (setFramebuffer True sample_gpu) = (kIOReturnSuccess, g')"
    using sample_setscanout by blast
  have "m_framebuffer (setFramebuffer True sample_gpu)" by (simp add: setFramebuffer_def)
  with setscanout_hand_over [OF r] r show ?thesis by auto
qed

text \<open>Feature query: the answer is yes exactly when one of the four 3D flags is asked for and the device
  offered a capability set.\<close>

theorem supportsFeature_any:
  "supportsFeature flags g \<longleftrightarrow> supports3D g \<and> flags AND (1 OR 8 OR 16) \<noteq> 0"
proof -
  have "(flags AND 1) OR (flags AND 8) OR (flags AND 16) = flags AND (1 OR 8 OR 16)"
    by (simp only: bit.conj_disj_distrib)
  then have "flags AND 25 = (flags AND 1) OR (flags AND 8) OR (flags AND 16)"
    by simp
  then have "flags AND 25 = 0 \<longleftrightarrow> flags AND 1 = 0 \<and> flags AND 8 = 0 \<and> flags AND 16 = 0"
    by (simp add: or_eq_0_iff)
  then show ?thesis
    by (auto simp: supportsFeature_def Let_def)
qed

lemma md_keeps_ids [simp]:
  "m_next_resource_id (md_retain d g) = m_next_resource_id g"
  "m_display_resource_id (md_retain d g) = m_display_resource_id g"
  by (simp_all add: md_retain_def)

lemma create2D_good:
  assumes "good_device e g" "m_pci_device g" "m_control_queue g" "pool_ok g" "findResource g rid = None"
    "rid \<noteq> 0" and "\<forall>n k. \<exists>d. bmd_alloc e n k = Some d \<and> attachable e d"
    and "slot_index resource_id 0 (m_resource_pool g) \<noteq> None"
  shows "\<exists>g' d mem nr. createResource2D e rid fmt w h None g = (kIOReturnSuccess, g')
     \<and> good_device e g' \<and> m_pci_device g' \<and> m_control_queue g' \<and> pool_ok g'
     \<and> m_next_resource_id g' = m_next_resource_id g
     \<and> findResource g' = (findResource g)(rid \<mapsto> res2d rid fmt w h (Some d))
     \<and> tr_sent (g_tr g') = tr_sent (g_tr g) @ [(Control, create2d_command rid fmt w h),
                                (Control, attach_command mem rid d nr)]"
proof -
  obtain d t mem nr where r: "good_device e (md_retain d (g\<lparr>g_tr := t\<rparr>))"
    "tr_sent t = tr_sent (g_tr g) @ [(Control, create2d_command rid fmt w h),
                                      (Control, attach_command mem rid d nr)]"
    "createResource2D e rid fmt w h None g =
       (case pool_register (res2d rid fmt w h (Some d)) (md_retain d (g\<lparr>g_tr := t\<rparr>)) of
          Some g2 \<Rightarrow> (kIOReturnSuccess, g2)
        | None \<Rightarrow> (case send_hdr e (unref_command rid) (md_retain d (g\<lparr>g_tr := t\<rparr>)) of
                     (_, _, g2) \<Rightarrow> (kIOReturnNoSpace, md_release d g2)))"
    using create2D_reaches_register [OF assms(1-3,5,7), of fmt w h] by (auto simp: Let_def)
  let ?g0 = "md_retain d (g\<lparr>g_tr := t\<rparr>)" and ?r = "res2d rid fmt w h (Some d)"
  obtain g1 where g1: "pool_register ?r ?g0 = Some g1" "g_tr g1 = t" "m_pci_device g1" "m_control_queue g1"
    "m_next_resource_id g1 = m_next_resource_id g"
    using assms(2,3,8) by (auto simp: pool_register_def)
  have ok0: "pool_ok ?g0" "findResource ?g0 = findResource g"
    using assms(4) by (simp_all add: pool_ok_def findResource_def fun_eq_iff)
  have "pool_ok g1" "findResource g1 = (findResource g)(rid \<mapsto> ?r)"
    using pool_register_ok [OF ok0(1) _ g1(1)] register_find [OF ok0(1) _ _ g1(1)] ok0(2) assms(5,6)
    by (simp_all add: res2d_def)
  moreover have "good_device e g1" using r(1) g1(2) by (simp add: good_device_def)
  ultimately show ?thesis using r g1 by auto
qed

text \<open>Bringing up the display: on a device that accepts everything, with a free slot and the next id unused,
  setting up the display resource and enabling scanout 0 makes the device read, in order, the creation of a
  resource of the requested size in the BGRA format, the attach of its memory, and the scanout of exactly that
  resource; the driver then knows that resource under that id.\<close>

theorem display_bring_up:
  assumes "good_device e g" "m_pci_device g" "m_control_queue g" "pool_ok g"
    and "findResource g (m_next_resource_id g + 1) = None" "m_next_resource_id g + 1 \<noteq> 0"
    and "\<forall>n k. \<exists>d. bmd_alloc e n k = Some d \<and> attachable e d"
    and "slot_index resource_id 0 (m_resource_pool g) \<noteq> None" and "w < 1920 \<or> h < 1080"
  shows "\<exists>g1 g2 d mem nr. setupDisplayResource e w h g = (kIOReturnSuccess, g1)
     \<and> enableScanout e sec 0 w h g1 = (kIOReturnSuccess, g2)
     \<and> findResource g2 (m_next_resource_id g + 1) = Some (res2d (m_next_resource_id g + 1) 1 w h (Some d))
     \<and> m_display_resource_id g2 = m_next_resource_id g + 1
     \<and> tr_sent (g_tr g2) = tr_sent (g_tr g)
          @ [(Control, create2d_command (m_next_resource_id g + 1) 1 w h),
             (Control, attach_command mem (m_next_resource_id g + 1) d nr),
             (Control, scanout_command 0 (m_next_resource_id g + 1) 0 0 w h)]"
proof -
  let ?rid = "m_next_resource_id g + 1" and ?g0 = "g\<lparr>m_next_resource_id := m_next_resource_id g + 1\<rparr>"
  have g0: "good_device e ?g0" "pool_ok ?g0" "findResource ?g0 ?rid = None"
    using assms(1,4,5) by (simp_all add: good_device_def pool_ok_def findResource_def)
  from create2D_good [OF g0(1) _ _ g0(2,3) assms(6,7), of 1 w h] assms(2,3,8)
  obtain gc d mem nr where c: "createResource2D e ?rid 1 w h None ?g0 = (kIOReturnSuccess, gc)"
    "good_device e gc" "m_pci_device gc" "m_control_queue gc"
    "findResource gc = (findResource ?g0)(?rid \<mapsto> res2d ?rid 1 w h (Some d))"
    "tr_sent (g_tr gc) = tr_sent (g_tr g) @ [(Control, create2d_command ?rid 1 w h),
                                (Control, attach_command mem ?rid d nr)]" by auto
  let ?g1 = "gc\<lparr>m_display_resource_id := ?rid\<rparr>"
  have s1: "setupDisplayResource e w h g = (kIOReturnSuccess, ?g1)"
    using c(1) assms(2,3,9) by (auto simp: setupDisplayResource_def Let_def not_le)
  have "good_device e ?g1" using c(2) by (simp add: good_device_def)
  from send_ret_ok [OF this, of "scanout_command 0 ?rid 0 0 w h"] obtain t where
    t: "send_ret e (scanout_command 0 ?rid 0 0 w h) ?g1 = (kIOReturnSuccess, ?g1\<lparr>g_tr := t\<rparr>)"
      "tr_sent t = tr_sent (g_tr gc) @ [(Control, scanout_command 0 ?rid 0 0 w h)]" by auto
  have "enableScanout e sec 0 w h ?g1 = (kIOReturnSuccess, ?g1\<lparr>g_tr := t\<rparr>)"
    using t(1) c(3,4) assms(6) by (simp add: enableScanout_def)
  moreover have "findResource (?g1\<lparr>g_tr := t\<rparr>) ?rid = Some (res2d ?rid 1 w h (Some d))"
    using c(5) by (simp add: findResource_def fun_eq_iff)
  ultimately show ?thesis
    using s1 t(2) c(6)
    by (intro exI [of _ ?g1] exI [of _ "?g1\<lparr>g_tr := t\<rparr>"] exI [of _ d] exI [of _ mem] exI [of _ nr]) simp
qed

theorem display_bring_up_witness:
  "\<exists>g1 g2 d mem nr.
     setupDisplayResource (sample_env\<lparr>bmd_alloc := \<lambda>n _. Some (sample_desc n 4)\<rparr>) 640 480 sample_gpu
       = (kIOReturnSuccess, g1)
     \<and> enableScanout (sample_env\<lparr>bmd_alloc := \<lambda>n _. Some (sample_desc n 4)\<rparr>) None 0 640 480 g1
       = (kIOReturnSuccess, g2)
     \<and> findResource g2 (m_next_resource_id sample_gpu + 1)
         = Some (res2d (m_next_resource_id sample_gpu + 1) 1 640 480 (Some d))
     \<and> m_display_resource_id g2 = m_next_resource_id sample_gpu + 1
     \<and> tr_sent (g_tr g2) = tr_sent (g_tr sample_gpu)
          @ [(Control, create2d_command (m_next_resource_id sample_gpu + 1) 1 640 480),
             (Control, attach_command mem (m_next_resource_id sample_gpu + 1) d nr),
             (Control, scanout_command 0 (m_next_resource_id sample_gpu + 1) 0 0 640 480)]"
proof (rule display_bring_up)
  have "find_slot k (replicate n free_slot) = None" for k n
    by (induction n) (simp_all add: free_slot_def)
  then show "findResource sample_gpu (m_next_resource_id sample_gpu + 1) = None"
    by (simp add: findResource_def sample_gpu_def gpu_init_def)
  show "slot_index resource_id 0 (m_resource_pool sample_gpu) \<noteq> None"
    by (simp add: slot_index_None sample_gpu_def gpu_init_def free_slot_def)
  show "m_next_resource_id sample_gpu + 1 \<noteq> 0" by (simp add: sample_gpu_def gpu_init_def)
  show "(640 :: u32) < 1920 \<or> (480 :: u32) < 1080" by simp
qed (use sample_good sample_pool_ok sample_alloc in \<open>simp_all add: sample_good_alloc sample_gpu_def\<close>)

end
