(* ===== verification/User_Client.thy ===== *)
theory User_Client
  imports Display
begin

text \<open>
  The user client \<^verbatim>\<open>VMVirtIOGPUUserClient\<close>: the per-client table of wired user buffers, the selectors of
  the winsys (0x6000 to 0x6009), the two-phase attach probe (0x5000), surfaces, the legacy virgl
  selectors and the life cycle of a client.
\<close>

section \<open>State\<close>

record user_backing_entry =
  ub_id :: u32
  ub_desc :: "memdesc option"

text \<open>
  \<open>uc_gpu\<close> and \<open>uc_accel\<close>: the pointers \<^verbatim>\<open>m_gpu_device\<close> and \<^verbatim>\<open>m_accelerator\<close> are non-null. \<open>uc_surfaces\<close> and
  \<open>uc_contexts\<close>: the element counts of the two arrays.
\<close>

record user_client =
  uc_gpu :: bool
  uc_accel :: bool
  m_probe_descriptor :: "memdesc option"
  m_probe_resource_id :: u32
  m_probe_ctx_id :: u32
  m_probe_in_progress :: bool
  m_user_backings :: "user_backing_entry list"
  uc_surfaces :: nat
  uc_contexts :: nat
  m_next_surface_id :: u32
  uc_next_context_id :: u32

definition free_backing :: user_backing_entry where
  "free_backing = \<lparr>ub_id = 0, ub_desc = None\<rparr>"

definition uc_initWithTask :: user_client where
  "uc_initWithTask = \<lparr>uc_gpu = False, uc_accel = False, m_probe_descriptor = None,
     m_probe_resource_id = 0, m_probe_ctx_id = 0, m_probe_in_progress = False,
     m_user_backings = replicate 64 free_backing, uc_surfaces = 0, uc_contexts = 0,
     m_next_surface_id = 1, uc_next_context_id = 1\<rparr>"

text \<open>\<^verbatim>\<open>sendDisplayCommand\<close> with a zeroed header as response: the return code and the response type.\<close>

definition relay :: "device_env \<Rightarrow> bytes \<Rightarrow> gpu \<Rightarrow> io_return \<times> gpu" where
  "relay e cmd g =
     (case sendDisplayCommand e (Some cmd) (Some (zeros sizeof_hdr)) g of (ret, _, g') \<Rightarrow> (ret, g'))"

section \<open>The backing table\<close>

definition findUserBacking :: "u32 \<Rightarrow> user_backing_entry list \<Rightarrow> memdesc option" where
  "findUserBacking rid tab =
     (if rid = 0 then None
      else case slot_find ub_id rid tab of None \<Rightarrow> None | Some s \<Rightarrow> ub_desc s)"

definition addUserBacking :: "u32 \<Rightarrow> memdesc \<Rightarrow> user_backing_entry list \<Rightarrow> user_backing_entry list option" where
  "addUserBacking rid d tab =
     (if rid = 0 then None
      else if findUserBacking rid tab \<noteq> None then None
      else case slot_index ub_id 0 tab of
        None \<Rightarrow> None
      | Some i \<Rightarrow> Some (tab[i := \<lparr>ub_id = rid, ub_desc = Some d\<rparr>]))"

definition md_drop :: "memdesc \<Rightarrow> gpu \<Rightarrow> gpu" where
  "md_drop d g = md_release d (md_complete d g)"

definition drop_opt :: "memdesc option \<Rightarrow> gpu \<Rightarrow> gpu" where
  "drop_opt d g = (case d of None \<Rightarrow> g | Some x \<Rightarrow> md_drop x g)"

definition removeUserBacking :: "u32 \<Rightarrow> user_client \<Rightarrow> gpu \<Rightarrow> user_client \<times> gpu" where
  "removeUserBacking rid uc g =
     (if rid = 0 then (uc, g)
      else case slot_index ub_id rid (m_user_backings uc) of
        None \<Rightarrow> (uc, g)
      | Some i \<Rightarrow> (uc\<lparr>m_user_backings := (m_user_backings uc)[i := free_backing]\<rparr>,
                    drop_opt (ub_desc (m_user_backings uc ! i)) g))"

fun drop_all :: "user_backing_entry list \<Rightarrow> gpu \<Rightarrow> gpu" where
  "drop_all [] g = g"
| "drop_all (s # ss) g = drop_all ss (if ub_id s \<noteq> 0 then drop_opt (ub_desc s) g else g)"

definition removeAllUserBackings :: "user_client \<Rightarrow> gpu \<Rightarrow> user_client \<times> gpu" where
  "removeAllUserBackings uc g =
     (uc\<lparr>m_user_backings := map (\<lambda>_. free_backing) (m_user_backings uc)\<rparr>,
      drop_all (m_user_backings uc) g)"

section \<open>Wiring a user buffer\<close>

text \<open>
  From a prepared descriptor to an attach the device accepted; on every failure the descriptor is
  completed and released.
\<close>

definition attach_user_desc :: "device_env \<Rightarrow> u32 \<Rightarrow> memdesc \<Rightarrow> gpu \<Rightarrow> io_return \<times> gpu" where
  "attach_user_desc e rid d g =
     (case seg_count (Suc (md_length d)) d 0 0 0 of
        None \<Rightarrow> (Kernel_panic, g)
      | Some (nr_entries, total_length) \<Rightarrow>
          if nr_entries = 0 \<or> total_length \<noteq> md_length d then (kIOReturnNoMemory, md_drop d g)
          else case kmalloc e (tr_tick (g_tr g)) (32 + nr_entries * 16) of
            None \<Rightarrow> (kIOReturnNoMemory, md_drop d g)
          | Some mem \<Rightarrow>
              (case relay e (attach_command mem rid d nr_entries) g of (ret, g1) \<Rightarrow>
                 if ret \<noteq> kIOReturnSuccess then (ret, md_drop d g1) else (kIOReturnSuccess, g1)))"

definition wire_user :: "device_env \<Rightarrow> u32 \<Rightarrow> u64 \<Rightarrow> u64 \<Rightarrow> gpu \<Rightarrow> (io_return + memdesc) \<times> gpu" where
  "wire_user e rid addr len g =
     (case user_desc e (tr_tick (g_tr g)) addr len of
        None \<Rightarrow> (Inl kIOReturnNoMemory, g)
      | Some d \<Rightarrow>
          let g1 = md_retain d g in
          if md_prepare d \<noteq> kIOReturnSuccess then (Inl (md_prepare d), md_release d g1)
          else case attach_user_desc e rid d (md_do_prepare d g1) of (ret, g2) \<Rightarrow>
            if ret \<noteq> kIOReturnSuccess then (Inl ret, g2) else (Inr d, g2))"

section \<open>The winsys selectors\<close>

definition createVirglContextEx :: "device_env \<Rightarrow> user_client \<Rightarrow> gpu \<Rightarrow> io_return \<times> u32 option \<times> gpu" where
  "createVirglContextEx e uc g =
     (if \<not> uc_gpu uc then (kIOReturnBadArgument, None, g)
      else let cid = s_next_user_ctx_id g; g1 = g\<lparr>s_next_user_ctx_id := cid + 1\<rparr> in
        case initializeCommandHeader VIRTIO_GPU_CMD_CTX_CREATE cid False g1 of (hdr, g2) \<Rightarrow>
        case relay e (wire_encode hdr (Ctx_create 0 0 (zeros 64))) g2 of (ret, g3) \<Rightarrow>
          if ret \<noteq> kIOReturnSuccess then (ret, None, g3) else (kIOReturnSuccess, Some cid, g3))"

definition destroyVirglContextEx :: "device_env \<Rightarrow> u32 \<Rightarrow> user_client \<Rightarrow> gpu \<Rightarrow> io_return \<times> gpu" where
  "destroyVirglContextEx e cid uc g =
     (if \<not> uc_gpu uc then (kIOReturnNotReady, g)
      else case initializeCommandHeader VIRTIO_GPU_CMD_CTX_DESTROY cid False g of (hdr, g1) \<Rightarrow>
        relay e (wire_encode hdr Ctx_destroy) g1)"

text \<open>The eleven scalars are ctx, target, format, bind, width, height, depth, array size, last level,
  samples and flags.\<close>

definition createResource3DEx ::
  "device_env \<Rightarrow> u32 \<Rightarrow> u32 \<Rightarrow> u32 \<Rightarrow> u32 \<Rightarrow> u32 \<Rightarrow> u32 \<Rightarrow> u32 \<Rightarrow> u32 \<Rightarrow> u32 \<Rightarrow> u32 \<Rightarrow> u32
     \<Rightarrow> user_client \<Rightarrow> gpu \<Rightarrow> io_return \<times> u32 option \<times> gpu" where
  "createResource3DEx e ctx target fmt bnd w h d arr lst nr fl uc g =
     (if \<not> uc_gpu uc then (kIOReturnBadArgument, None, g)
      else case allocateUserResourceId g of (rid, g1) \<Rightarrow>
        case relay e (wire_encode (mk_hdr VIRTIO_GPU_CMD_RESOURCE_CREATE_3D ctx)
               (Resource_create_3d rid target fmt bnd w h d arr lst nr fl)) g1 of (ret, g2) \<Rightarrow>
          if ret \<noteq> kIOReturnSuccess then (ret, None, g2) else (kIOReturnSuccess, Some rid, g2))"

definition attachBackingUser ::
  "device_env \<Rightarrow> u32 \<Rightarrow> u64 \<Rightarrow> u64 \<Rightarrow> user_client \<Rightarrow> gpu \<Rightarrow> io_return \<times> user_client \<times> gpu" where
  "attachBackingUser e rid addr len uc g =
     (if \<not> uc_gpu uc then (kIOReturnNotReady, uc, g)
      else if rid = 0 \<or> addr = 0 \<or> len = 0 then (kIOReturnBadArgument, uc, g)
      else if findUserBacking rid (m_user_backings uc) \<noteq> None then (kIOReturnBusy, uc, g)
      else case wire_user e rid addr len g of
        (Inl ret, g1) \<Rightarrow> (ret, uc, g1)
      | (Inr d, g1) \<Rightarrow>
          (case addUserBacking rid d (m_user_backings uc) of
             None \<Rightarrow> (kIOReturnNoResources, uc, md_drop d g1)
           | Some tab \<Rightarrow> (kIOReturnSuccess, uc\<lparr>m_user_backings := tab\<rparr>, g1)))"

definition detach_command :: "u32 \<Rightarrow> bytes" where
  "detach_command rid =
     wire_encode (mk_hdr VIRTIO_GPU_CMD_RESOURCE_DETACH_BACKING 0) (Resource_detach_backing rid)"

definition detachBackingUser ::
  "device_env \<Rightarrow> u32 \<Rightarrow> user_client \<Rightarrow> gpu \<Rightarrow> io_return \<times> user_client \<times> gpu" where
  "detachBackingUser e rid uc g =
     (if \<not> uc_gpu uc then (kIOReturnNotReady, uc, g)
      else case relay e (detach_command rid) g of (ret, g1) \<Rightarrow>
        case removeUserBacking rid uc g1 of (uc', g2) \<Rightarrow> (ret, uc', g2))"

definition resourceUnref ::
  "device_env \<Rightarrow> u32 \<Rightarrow> user_client \<Rightarrow> gpu \<Rightarrow> io_return \<times> user_client \<times> gpu" where
  "resourceUnref e rid uc g =
     (if \<not> uc_gpu uc then (kIOReturnNotReady, uc, g)
      else if rid = 0 then (kIOReturnBadArgument, uc, g)
      else case (if findUserBacking rid (m_user_backings uc) \<noteq> None
                 then removeUserBacking rid uc g else (uc, g)) of (uc', g1) \<Rightarrow>
        case relay e (unref_command rid) g1 of (ret, g2) \<Rightarrow> (ret, uc', g2))"

definition getCapsetInfo ::
  "device_env \<Rightarrow> u32 \<Rightarrow> user_client \<Rightarrow> gpu \<Rightarrow> io_return \<times> (u32 \<times> u32 \<times> u32) option \<times> gpu" where
  "getCapsetInfo e index uc g =
     (if \<not> uc_gpu uc then (kIOReturnBadArgument, None, g)
      else case sendDisplayCommand e (Some (capset_info_command index)) (Some (zeros 40)) g of
        (ret, resp, g1) \<Rightarrow>
          if ret \<noteq> kIOReturnSuccess then (ret, None, g1)
          else let r = (case resp of None \<Rightarrow> zeros 40 | Some b \<Rightarrow> b)
            in (kIOReturnSuccess, Some (rd32 (drop 24 r), rd32 (drop 28 r), rd32 (drop 32 r)), g1))"

text \<open>\<open>out\<close>: the client's output structure; the blob overwrites its beginning.\<close>

definition getCapset ::
  "device_env \<Rightarrow> u32 \<Rightarrow> u32 \<Rightarrow> bytes option \<Rightarrow> user_client \<Rightarrow> gpu
     \<Rightarrow> io_return \<times> (bytes \<times> nat) option \<times> gpu" where
  "getCapset e cid version out uc g =
     (case out of
        None \<Rightarrow> (kIOReturnBadArgument, None, g)
      | Some o1 \<Rightarrow>
          if \<not> uc_gpu uc \<or> length o1 = 0 then (kIOReturnBadArgument, None, g)
          else case sendDisplayCommand e (Some (capset_command cid version)) (Some (zeros 2072)) g of
            (ret, resp, g1) \<Rightarrow>
              if ret \<noteq> kIOReturnSuccess then (ret, None, g1)
              else let r = (case resp of None \<Rightarrow> zeros 2072 | Some b \<Rightarrow> b);
                       n = min 2048 (length o1)
                in (kIOReturnSuccess, Some (overwrite (take n (drop 24 r)) o1, n), g1))"

definition submitVirglCommandsEx ::
  "device_env \<Rightarrow> u32 \<Rightarrow> bytes option \<Rightarrow> user_client \<Rightarrow> gpu \<Rightarrow> io_return \<times> gpu" where
  "submitVirglCommandsEx e ctx commands uc g =
     (if \<not> uc_gpu uc then (kIOReturnNotReady, g)
      else case commands of
        None \<Rightarrow> (kIOReturnBadArgument, g)
      | Some bs \<Rightarrow>
          if length bs = 0 then (kIOReturnBadArgument, g)
          else if \<not> supports3D g then (kIOReturnUnsupported, g)
          else if length bs > 1024 * 1024 then (kIOReturnBadArgument, g)
          else case bytes_desc e (tr_tick (g_tr g)) bs of
            None \<Rightarrow> (kIOReturnNoMemory, g)
          | Some d \<Rightarrow>
              (case executeCommands e ctx (Some d) (md_retain d g) of (ret, g1) \<Rightarrow>
                 (ret, md_release d g1)))"

definition ctxAttachResource ::
  "device_env \<Rightarrow> u32 \<Rightarrow> u32 \<Rightarrow> user_client \<Rightarrow> gpu \<Rightarrow> io_return \<times> gpu" where
  "ctxAttachResource e ctx rid uc g =
     (if \<not> uc_gpu uc then (kIOReturnNotReady, g)
      else case initializeCommandHeader VIRTIO_GPU_CMD_CTX_ATTACH_RESOURCE ctx False g of (hdr, g1) \<Rightarrow>
        relay e (wire_encode hdr (Ctx_resource rid)) g1)"

section \<open>The two-phase attach probe\<close>

abbreviation (input) PROBE_CTX :: u32 where "PROBE_CTX \<equiv> 0xFFF9"
abbreviation (input) PROBE_RES :: u32 where "PROBE_RES \<equiv> 0xFFF8"

definition ctx_destroy_cmd :: "u32 \<Rightarrow> gpu \<Rightarrow> bytes \<times> gpu" where
  "ctx_destroy_cmd cid g =
     (case initializeCommandHeader VIRTIO_GPU_CMD_CTX_DESTROY cid False g of (hdr, g1) \<Rightarrow>
        (wire_encode hdr Ctx_destroy, g1))"

text \<open>Best-effort teardown: the unref (when the resource exists) and the context, results ignored.\<close>

definition probe_teardown :: "device_env \<Rightarrow> bool \<Rightarrow> u32 \<Rightarrow> u32 \<Rightarrow> gpu \<Rightarrow> gpu" where
  "probe_teardown e resource_created rid cid g =
     (let g1 = (if resource_created then snd (relay e (unref_command rid) g) else g)
      in case ctx_destroy_cmd cid g1 of (cmd, g2) \<Rightarrow> snd (relay e cmd g2))"

definition probe_transfer :: "virtio_gpu_ctrl_type \<Rightarrow> u32 \<Rightarrow> u32 \<Rightarrow> bytes" where
  "probe_transfer ty cid rid = wire_encode (mk_hdr ty cid)
     (Transfer_host_3d (mk_box 0 0 0 64 64 1) 0 rid 0 0 0)"

text \<open>Phase 1, steps A to C: create the context and the resource, bind them.\<close>

definition probe_phase1_create :: "device_env \<Rightarrow> gpu \<Rightarrow> io_return \<times> gpu" where
  "probe_phase1_create e g =
     (case initializeCommandHeader VIRTIO_GPU_CMD_CTX_CREATE PROBE_CTX False g of (hdr, g0) \<Rightarrow>
      case relay e (wire_encode hdr (Ctx_create 0 0 (zeros 64))) g0 of (ra, g1) \<Rightarrow>
        if ra \<noteq> kIOReturnSuccess then (ra, g1)
        else case relay e (wire_encode (mk_hdr VIRTIO_GPU_CMD_RESOURCE_CREATE_3D PROBE_CTX)
                     (Resource_create_3d PROBE_RES 2 67 2 64 64 1 1 0 0 0)) g1 of (rb, g2) \<Rightarrow>
          if rb \<noteq> kIOReturnSuccess then (rb, probe_teardown e False PROBE_RES PROBE_CTX g2)
          else case initializeCommandHeader VIRTIO_GPU_CMD_CTX_ATTACH_RESOURCE PROBE_CTX False g2 of
            (hdr2, g3) \<Rightarrow> (kIOReturnSuccess, snd (relay e (wire_encode hdr2 (Ctx_resource PROBE_RES)) g3)))"

text \<open>Phase 1, steps D and E: wire the buffer, attach it, transfer; keep the descriptor prepared.\<close>

definition probe_phase1 ::
  "device_env \<Rightarrow> u64 \<Rightarrow> u64 \<Rightarrow> user_client \<Rightarrow> gpu \<Rightarrow> io_return \<times> user_client \<times> gpu" where
  "probe_phase1 e addr len uc g =
     (if m_probe_in_progress uc then (kIOReturnBusy, uc, g)
      else if len \<noteq> 16384 then (kIOReturnBadArgument, uc, g)
      else if addr = 0 then (kIOReturnBadArgument, uc, g)
      else case probe_phase1_create e g of (rc, g1) \<Rightarrow>
        if rc \<noteq> kIOReturnSuccess then (rc, uc, g1)
        else case wire_user e PROBE_RES addr len g1 of
          (Inl ret, g2) \<Rightarrow> (ret, uc, probe_teardown e True PROBE_RES PROBE_CTX g2)
        | (Inr d, g2) \<Rightarrow>
            (case relay e (probe_transfer VIRTIO_GPU_CMD_TRANSFER_TO_HOST_3D PROBE_CTX PROBE_RES) g2 of
               (re, g3) \<Rightarrow>
                 if re \<noteq> kIOReturnSuccess
                 then (re, uc, probe_teardown e True PROBE_RES PROBE_CTX (md_drop d g3))
                 else (kIOReturnSuccess,
                       uc\<lparr>m_probe_descriptor := Some d, m_probe_resource_id := PROBE_RES,
                          m_probe_ctx_id := PROBE_CTX, m_probe_in_progress := True\<rparr>, g3)))"

definition probe_phase2 ::
  "device_env \<Rightarrow> user_client \<Rightarrow> gpu \<Rightarrow> io_return \<times> user_client \<times> gpu" where
  "probe_phase2 e uc g =
     (case m_probe_descriptor uc of
        None \<Rightarrow> (kIOReturnNotReady, uc, g)
      | Some d \<Rightarrow>
          if \<not> m_probe_in_progress uc then (kIOReturnNotReady, uc, g)
          else case relay e (probe_transfer VIRTIO_GPU_CMD_TRANSFER_FROM_HOST_3D (m_probe_ctx_id uc)
                       (m_probe_resource_id uc)) g of (xfer_ret, g1) \<Rightarrow>
            (xfer_ret,
             uc\<lparr>m_probe_descriptor := None, m_probe_in_progress := False,
                m_probe_resource_id := 0, m_probe_ctx_id := 0\<rparr>,
             probe_teardown e True (m_probe_resource_id uc) (m_probe_ctx_id uc) (md_drop d g1)))"

definition probeAttachBackingUser ::
  "device_env \<Rightarrow> u32 \<Rightarrow> u64 \<Rightarrow> u64 \<Rightarrow> user_client \<Rightarrow> gpu \<Rightarrow> io_return \<times> user_client \<times> gpu" where
  "probeAttachBackingUser e phase addr len uc g =
     (if \<not> uc_gpu uc then (kIOReturnNotReady, uc, g)
      else if phase = 1 then probe_phase1 e addr len uc g
      else if phase = 2 then probe_phase2 e uc g
      else (kIOReturnBadArgument, uc, g))"

definition probeAttachBackingUserCleanup :: "device_env \<Rightarrow> user_client \<Rightarrow> gpu \<Rightarrow> user_client \<times> gpu" where
  "probeAttachBackingUserCleanup e uc g =
     (case m_probe_descriptor uc of
        None \<Rightarrow> (uc, g)
      | Some d \<Rightarrow>
          if \<not> m_probe_in_progress uc then (uc, g)
          else (uc\<lparr>m_probe_descriptor := None, m_probe_in_progress := False,
                   m_probe_resource_id := 0, m_probe_ctx_id := 0\<rparr>,
                if uc_gpu uc
                then probe_teardown e True (m_probe_resource_id uc) (m_probe_ctx_id uc) (md_drop d g)
                else md_drop d g))"

section \<open>Life cycle\<close>

definition clientClose :: "device_env \<Rightarrow> user_client \<Rightarrow> gpu \<Rightarrow> io_return \<times> user_client \<times> gpu" where
  "clientClose e uc g =
     (case probeAttachBackingUserCleanup e uc g of (uc1, g1) \<Rightarrow>
      case removeAllUserBackings uc1 g1 of (uc2, g2) \<Rightarrow>
        (kIOReturnSuccess, uc2\<lparr>uc_surfaces := 0, uc_contexts := 0\<rparr>, g2))"

definition clientDied :: "device_env \<Rightarrow> user_client \<Rightarrow> gpu \<Rightarrow> io_return \<times> user_client \<times> gpu" where
  "clientDied e uc g = clientClose e uc g"

definition uc_stop :: "user_client \<Rightarrow> user_client" where
  "uc_stop uc = uc\<lparr>uc_surfaces := 0, uc_contexts := 0, uc_accel := False, uc_gpu := False\<rparr>"

definition uc_free :: "device_env \<Rightarrow> user_client \<Rightarrow> gpu \<Rightarrow> user_client \<times> gpu" where
  "uc_free e uc g =
     (case probeAttachBackingUserCleanup e uc g of (uc1, g1) \<Rightarrow> removeAllUserBackings uc1 g1)"

section \<open>Surfaces and the legacy selectors\<close>

definition surface_resource :: "u32 \<Rightarrow> u32" where
  "surface_resource sid = sid OR 0x10000"

definition createSurface ::
  "device_env \<Rightarrow> u32 \<Rightarrow> u32 \<Rightarrow> u32 \<Rightarrow> user_client \<Rightarrow> gpu \<Rightarrow> io_return \<times> u32 option \<times> user_client \<times> gpu" where
  "createSurface e w h fmt uc g =
     (if \<not> uc_gpu uc then (kIOReturnBadArgument, None, uc, g)
      else if w = 0 \<or> h = 0 \<or> w > 8192 \<or> h > 8192 then (kIOReturnBadArgument, None, uc, g)
      else if uc_surfaces uc > 1000 then (kIOReturnNoMemory, None, uc, g)
      else let sid = m_next_surface_id uc;
               uc1 = uc\<lparr>m_next_surface_id := (if sid = 0xFFFFFFFF then 1 else sid + 1)\<rparr>;
               vfmt = (if fmt = 0 then VIRTIO_GPU_FORMAT_B8G8R8A8_UNORM else fmt)
        in case createResource2D e (surface_resource sid) vfmt w h None g of (ret, g1) \<Rightarrow>
          (ret, Some sid, uc1, g1))"

definition destroySurface :: "device_env \<Rightarrow> u32 \<Rightarrow> user_client \<Rightarrow> gpu \<Rightarrow> io_return \<times> gpu" where
  "destroySurface e sid uc g =
     (if \<not> uc_gpu uc then (kIOReturnBadArgument, g)
      else if sid = 0 \<or> sid \<ge> m_next_surface_id uc then (kIOReturnBadArgument, g)
      else deallocateResource e (surface_resource sid) g)"

definition clearSurface :: "user_client \<Rightarrow> io_return" where
  "clearSurface uc = (if \<not> uc_gpu uc then kIOReturnBadArgument else kIOReturnSuccess)"

definition presentSurface :: "user_client \<Rightarrow> io_return" where
  "presentSurface uc = (if \<not> uc_gpu uc then kIOReturnBadArgument else kIOReturnSuccess)"

definition uc_create3DContext :: "device_env \<Rightarrow> user_client \<Rightarrow> gpu \<Rightarrow> io_return \<times> u32 option \<times> gpu" where
  "uc_create3DContext e uc g =
     (if \<not> uc_gpu uc then (kIOReturnBadArgument, None, g)
      else if \<not> supports3D g then (kIOReturnUnsupported, None, g)
      else create3DContext e g)"

definition uc_destroy3DContext :: "user_client \<Rightarrow> io_return" where
  "uc_destroy3DContext uc = (if \<not> uc_gpu uc then kIOReturnBadArgument else kIOReturnSuccess)"

definition submitVirglCommands ::
  "device_env \<Rightarrow> bytes option \<Rightarrow> user_client \<Rightarrow> gpu \<Rightarrow> io_return \<times> gpu" where
  "submitVirglCommands e commands uc g =
     (case commands of
        None \<Rightarrow> (kIOReturnBadArgument, g)
      | Some bs \<Rightarrow>
          if \<not> uc_gpu uc \<or> length bs = 0 then (kIOReturnBadArgument, g)
          else if \<not> supports3D g then (kIOReturnUnsupported, g)
          else if length bs > 1024 * 1024 then (kIOReturnBadArgument, g)
          else case bytes_desc e (tr_tick (g_tr g)) bs of
            None \<Rightarrow> (kIOReturnNoMemory, g)
          | Some d \<Rightarrow>
              (case executeCommands e 1 (Some d) (md_retain d g) of (ret, g1) \<Rightarrow>
                 (ret, md_release d g1)))"

definition createVirglResource ::
  "device_env \<Rightarrow> u32 \<Rightarrow> u32 \<Rightarrow> u32 \<Rightarrow> u32 \<Rightarrow> user_client \<Rightarrow> gpu \<Rightarrow> io_return \<times> gpu" where
  "createVirglResource e rid w h fmt uc g =
     (if \<not> uc_gpu uc then (kIOReturnBadArgument, g)
      else if w = 0 \<or> h = 0 \<or> w > 8192 \<or> h > 8192 then (kIOReturnBadArgument, g)
      else createResource3D e rid VIRTIO_GPU_RESOURCE_TARGET_2D fmt (2 OR 8 OR 0x40000) w h 1 g)"

text \<open>The id the caller passes is only logged; the context gets the driver's next id.\<close>

definition createVirglContext :: "device_env \<Rightarrow> u32 \<Rightarrow> user_client \<Rightarrow> gpu \<Rightarrow> io_return \<times> gpu" where
  "createVirglContext e cid uc g =
     (if \<not> uc_gpu uc then (kIOReturnBadArgument, g)
      else if \<not> supports3D g then (kIOReturnUnsupported, g)
      else case createRenderContext e g of (ret, _, g1) \<Rightarrow> (ret, g1))"

definition attachVirglResource :: "user_client \<Rightarrow> io_return" where
  "attachVirglResource uc = (if \<not> uc_gpu uc then kIOReturnBadArgument else kIOReturnSuccess)"

definition getVirglCapability :: "u32 \<Rightarrow> user_client \<Rightarrow> gpu \<Rightarrow> u32" where
  "getVirglCapability cap uc g =
     (if \<not> uc_gpu uc then 0
      else if cap = 0 then 8192
      else if cap = 1 then (if supports3D g then 1 else 0)
      else if cap = 2 then 8
      else 0)"

section \<open>What relaying a command leaves alone\<close>

lemma init_hdr_False [simp]: "snd (initializeCommandHeader ty ctx False g) = g"
  by (simp add: initializeCommandHeader_def Let_def)

lemma relay_send_ret: "length cmd \<noteq> 0 \<Longrightarrow> relay e cmd g = send_ret e cmd g"
  by (simp add: relay_def sendDisplayCommand_def send_ret_def send_hdr_def send_def split: prod.splits)

lemma relay_keeps:
  assumes "relay e cmd g = (ret, g')"
  shows "g' = g\<lparr>g_tr := g_tr g'\<rparr>" "safe ret g g'"
proof -
  have "g' = g\<lparr>g_tr := g_tr g'\<rparr> \<and> safe ret g g'"
  proof (cases "length cmd = 0")
    case True
    then show ?thesis using assms by (auto simp: relay_def sendDisplayCommand_def safe_def)
  next
    case False
    then obtain ty where "send_hdr e cmd g = (ret, ty, g')"
      using assms by (auto simp: relay_send_ret send_ret_def split: prod.splits)
    then show ?thesis using send_hdr_frame safe_send_hdr by blast
  qed
  then show "g' = g\<lparr>g_tr := g_tr g'\<rparr>" "safe ret g g'" by blast+
qed


lemma relay_bal: "relay e cmd g = (ret, g') \<Longrightarrow> g_wired g' = g_wired g \<and> g_refs g' = g_refs g"
  using relay_keeps(1) by (metis gpu.select_convs gpu.update_convs(1) gpu.surjective)

section \<open>The backing table as a keyed table\<close>

definition backing_del :: "u32 \<Rightarrow> user_backing_entry list \<Rightarrow> user_backing_entry list" where
  "backing_del k tab =
     (if k = 0 then tab else case slot_index ub_id k tab of None \<Rightarrow> tab | Some i \<Rightarrow> tab[i := free_backing])"

definition backings_ok :: "user_backing_entry list \<Rightarrow> bool" where
  "backings_ok tab \<longleftrightarrow> slots_ok ub_id tab \<and> list_all (\<lambda>s. (ub_id s = 0) = (ub_desc s = None)) tab"

lemma backings_desc: "backings_ok tab \<Longrightarrow> slot_find ub_id k tab = Some s \<Longrightarrow> k \<noteq> 0 \<Longrightarrow> ub_desc s \<noteq> None"
  using slot_find_Some [of ub_id k tab s] by (auto simp: backings_ok_def list_all_iff)

lemma find_None: "backings_ok tab \<Longrightarrow> k \<noteq> 0 \<Longrightarrow> findUserBacking k tab = None \<longleftrightarrow> slot_find ub_id k tab = None"
  using backings_desc by (fastforce simp: findUserBacking_def split: option.splits)

lemma backings_ok_update:
  "backings_ok tab \<Longrightarrow> slots_ok ub_id (tab[i := s]) \<Longrightarrow> (ub_id s = 0) = (ub_desc s = None) \<Longrightarrow> backings_ok (tab[i := s])"
  using set_update_subset_insert [of tab i s] by (auto simp: backings_ok_def list_all_iff)

lemma free_backing_simps [simp]: "ub_id free_backing = 0" "ub_desc free_backing = None"
  by (simp_all add: free_backing_def)

interpretation backing: keyed_table "\<lambda>t k. findUserBacking k t" addUserBacking backing_del backings_ok
proof
  fix t t' :: "user_backing_entry list" and k v
  show "findUserBacking 0 t = None" by (simp add: findUserBacking_def)
  assume inv: "backings_ok t"
  then have ok: "slots_ok ub_id t" by (simp add: backings_ok_def)
  show "backings_ok (backing_del k t)"
    using inv backings_ok_update [OF inv slots_ok_update_remove [OF _ ok], of free_backing]
    by (simp add: backing_del_def split: option.splits)
  show "(\<lambda>j. findUserBacking j (backing_del k t)) = (\<lambda>j. findUserBacking j t)(k := None)" if "k \<noteq> 0"
  proof (cases "slot_index ub_id k t")
    case None
    then show ?thesis using that by (auto simp: backing_del_def findUserBacking_def slot_find_index)
  next
    case (Some i)
    then show ?thesis
      using slot_find_update_remove [OF Some _ ok that, of free_backing] that
      by (auto simp: backing_del_def findUserBacking_def)
  qed
  assume ins: "addUserBacking k v t = Some t'"
  then obtain i where i: "slot_index ub_id 0 t = Some i" "t' = t[i := \<lparr>ub_id = k, ub_desc = Some v\<rparr>]" "k \<noteq> 0"
    "findUserBacking k t = None"
    by (auto simp: addUserBacking_def split: if_splits option.splits)
  then show "findUserBacking k t = None" by simp
  have f: "slot_find ub_id (ub_id \<lparr>ub_id = k, ub_desc = Some v\<rparr>) t = None"
    using i(3,4) find_None [OF inv] by simp
  show "backings_ok t'"
    unfolding i(2)
    by (rule backings_ok_update [OF inv slots_ok_update_free [OF i(1) _ ok]]) (use f i(3) in simp_all)
  show "(\<lambda>j. findUserBacking j t') = (\<lambda>j. findUserBacking j t)(k \<mapsto> v)"
    using slot_find_update_free [OF i(1) _ f] i by (auto simp: findUserBacking_def)
qed

section \<open>Accounting of wired memory\<close>

definition mult :: "memdesc option \<Rightarrow> nat \<Rightarrow> int" where
  "mult d n = (case d of None \<Rightarrow> 0 | Some x \<Rightarrow> if md_id x = n then 1 else 0)"

definition held_tab :: "user_backing_entry list \<Rightarrow> nat \<Rightarrow> int" where
  "held_tab tab n = sum_list (map (\<lambda>s. mult (ub_desc s) n) tab)"

definition held :: "user_client \<Rightarrow> nat \<Rightarrow> int" where
  "held uc n = held_tab (m_user_backings uc) n + mult (m_probe_descriptor uc) n"

definition client_inv :: "(nat \<Rightarrow> int) \<Rightarrow> (nat \<Rightarrow> int) \<Rightarrow> user_client \<Rightarrow> gpu \<Rightarrow> bool" where
  "client_inv w r uc g \<longleftrightarrow>
     backings_ok (m_user_backings uc) \<and> m_probe_in_progress uc = (m_probe_descriptor uc \<noteq> None)
     \<and> g_wired g = (\<lambda>n. w n + held uc n) \<and> g_refs g = (\<lambda>n. r n + held uc n)"

lemma mult_None [simp]: "mult None n = 0"
  by (simp add: mult_def)

lemma md_drop_bal [simp]:
  "g_wired (md_drop d g) = (\<lambda>n. g_wired g n - mult (Some d) n)"
  "g_refs (md_drop d g) = (\<lambda>n. g_refs g n - mult (Some d) n)"
  by (auto simp: md_drop_def md_release_def md_complete_def mult_def)

lemma drop_opt_bal [simp]:
  "g_wired (drop_opt d g) = (\<lambda>n. g_wired g n - mult d n)"
  "g_refs (drop_opt d g) = (\<lambda>n. g_refs g n - mult d n)"
  by (simp_all add: drop_opt_def split: option.splits)

lemma drop_all_bal:
  assumes "backings_ok tab"
  shows "g_wired (drop_all tab g) = (\<lambda>n. g_wired g n - held_tab tab n)
       \<and> g_refs (drop_all tab g) = (\<lambda>n. g_refs g n - held_tab tab n)"
  using assms
proof (induction tab arbitrary: g)
  case Nil
  then show ?case by (simp add: held_tab_def)
next
  case (Cons s ss)
  then have "backings_ok ss" "ub_id s = 0 \<Longrightarrow> ub_desc s = None" by (auto simp: backings_ok_def)
  with Cons.IH show ?case by (auto simp: held_tab_def)
qed

lemma held_tab_update:
  "i < length tab \<Longrightarrow> held_tab (tab[i := s]) n = held_tab tab n - mult (ub_desc (tab ! i)) n + mult (ub_desc s) n"
  by (induction tab arbitrary: i) (auto simp: held_tab_def split: nat.splits)

lemma held_tab_free [simp]: "held_tab (map (\<lambda>_. free_backing) tab) n = 0"
  by (induction tab) (simp_all add: held_tab_def)


lemma attach_user_desc_bal:
  assumes "attach_user_desc e rid d g = (ret, g')" "ret \<noteq> Kernel_panic"
  shows "g_wired g' = (if ret = kIOReturnSuccess then g_wired g else (\<lambda>n. g_wired g n - mult (Some d) n))
       \<and> g_refs g' = (if ret = kIOReturnSuccess then g_refs g else (\<lambda>n. g_refs g n - mult (Some d) n))"
  using assms relay_bal
  by (auto simp: attach_user_desc_def split: option.splits prod.splits if_splits)

lemma wire_user_bal:
  assumes "wire_user e rid addr len g = (res, g')" "res \<noteq> Inl Kernel_panic"
  shows "case res of Inl ret \<Rightarrow> g_wired g' = g_wired g \<and> g_refs g' = g_refs g
       | Inr d \<Rightarrow> g_wired g' = (\<lambda>n. g_wired g n + mult (Some d) n)
               \<and> g_refs g' = (\<lambda>n. g_refs g n + mult (Some d) n)"
proof (cases "user_desc e (tr_tick (g_tr g)) addr len")
  case None
  then show ?thesis using assms by (auto simp: wire_user_def)
next
  case (Some d)
  let ?g1 = "md_do_prepare d (md_retain d g)"
  obtain ret g2 where a: "attach_user_desc e rid d ?g1 = (ret, g2)" by fastforce
  have m: "g_wired ?g1 = (\<lambda>n. g_wired g n + mult (Some d) n)" "g_refs ?g1 = (\<lambda>n. g_refs g n + mult (Some d) n)"
    by (auto simp: md_do_prepare_def md_retain_def mult_def)
  show ?thesis
  proof (cases "md_prepare d = kIOReturnSuccess")
    case True
    then have res: "res = (if ret \<noteq> kIOReturnSuccess then Inl ret else Inr d)" "g' = g2"
      using assms(1) Some a by (auto simp: wire_user_def Let_def split: if_splits)
    then have "ret \<noteq> Kernel_panic" using assms(2) by (auto split: if_splits)
    from attach_user_desc_bal [OF a this] m res show ?thesis by (auto split: if_splits)
  next
    case False
    then show ?thesis using assms(1) Some by (auto simp: wire_user_def Let_def)
  qed
qed

lemma add_backing_held:
  assumes "addUserBacking rid d tab = Some tab'" "backings_ok tab"
  shows "held_tab tab' n = held_tab tab n + mult (Some d) n"
proof -
  obtain i where i: "slot_index ub_id 0 tab = Some i" "tab' = tab[i := \<lparr>ub_id = rid, ub_desc = Some d\<rparr>]"
    using assms(1) by (auto simp: addUserBacking_def split: if_splits option.splits)
  have "ub_desc (tab ! i) = None"
    using slot_index_bound [OF i(1)] slot_index_key [OF i(1)] assms(2) by (auto simp: backings_ok_def list_all_length)
  then show ?thesis using slot_index_bound [OF i(1)] i(2) by (simp add: held_tab_update)
qed

lemma inv_attachBackingUser [inv_intros]:
  assumes "attachBackingUser e rid addr len uc g = (ret, uc', g')" "ret \<noteq> Kernel_panic" "client_inv w r uc g"
  shows "client_inv w r uc' g'"
proof -
  obtain res g1 where u: "wire_user e rid addr len g = (res, g1)" by fastforce
  have ok: "backings_ok (m_user_backings uc)" using assms(3) by (simp add: client_inv_def)
  show ?thesis
  proof (cases res)
    case (Inl x)
    then show ?thesis
      using assms u wire_user_bal [OF u] by (auto simp: attachBackingUser_def client_inv_def split: if_splits)
  next
    case (Inr d)
    then show ?thesis
      using assms u wire_user_bal [OF u] add_backing_held [OF _ ok] backing.ins_invar [OF ok]
      by (auto simp: attachBackingUser_def client_inv_def held_def fun_eq_iff split: if_splits option.splits)
  qed
qed

lemma inv_removeUserBacking [inv_intros]:
  assumes "removeUserBacking rid uc g = (uc', g')" "client_inv w r uc g"
  shows "client_inv w r uc' g'"
proof -
  have ok: "backings_ok (m_user_backings uc)" using assms(2) by (simp add: client_inv_def)
  then have "backings_ok (m_user_backings uc')"
    using backing.del_invar [OF ok, of rid] assms(1)
    by (auto simp: removeUserBacking_def backing_del_def split: if_splits option.splits)
  then show ?thesis
    using assms slot_index_bound [of ub_id rid "m_user_backings uc"]
    by (auto simp: removeUserBacking_def client_inv_def held_def held_tab_update fun_eq_iff
        split: if_splits option.splits)
qed

lemma inv_relay:
  "relay e c g = (ret, g') \<Longrightarrow> client_inv w r uc g' = client_inv w r uc g"
  using relay_bal by (auto simp: client_inv_def)

lemma inv_detachBackingUser [inv_intros]:
  assumes "detachBackingUser e rid uc g = (ret, uc', g')" "client_inv w r uc g"
  shows "client_inv w r uc' g'"
  using assms inv_relay inv_removeUserBacking
  by (fastforce simp: detachBackingUser_def split: if_splits prod.splits)

lemma inv_resourceUnref [inv_intros]:
  assumes "resourceUnref e rid uc g = (ret, uc', g')" "client_inv w r uc g"
  shows "client_inv w r uc' g'"
  using assms inv_relay inv_removeUserBacking
  by (fastforce simp: resourceUnref_def split: if_splits prod.splits)

lemma probe_teardown_bal [simp]:
  "g_wired (probe_teardown e b rid cid g) = g_wired g" "g_refs (probe_teardown e b rid cid g) = g_refs g"
proof -
  have s: "g_wired (snd (relay e c h)) = g_wired h" "g_refs (snd (relay e c h)) = g_refs h" for c h
    using relay_bal [of e c h] by (metis prod.collapse)+
  show "g_wired (probe_teardown e b rid cid g) = g_wired g" "g_refs (probe_teardown e b rid cid g) = g_refs g"
    by (auto simp: probe_teardown_def ctx_destroy_cmd_def initializeCommandHeader_def Let_def s)
qed

lemma probe_create_bal:
  assumes "probe_phase1_create e g = (ret, g')"
  shows "g_wired g' = g_wired g \<and> g_refs g' = g_refs g"
proof -
  have s: "g_wired (snd (relay e c h)) = g_wired h" "g_refs (snd (relay e c h)) = g_refs h" for c h
    using relay_bal [of e c h] by (metis prod.collapse)+
  show ?thesis
    using assms relay_bal
    by (fastforce simp: probe_phase1_create_def initializeCommandHeader_def Let_def s split: prod.splits if_splits)
qed

lemma inv_probe_phase1:
  assumes "probe_phase1 e addr len uc g = (ret, uc', g')" "ret \<noteq> Kernel_panic" "client_inv w r uc g"
  shows "client_inv w r uc' g'"
proof -
  obtain rc g1 where c: "probe_phase1_create e g = (rc, g1)" by fastforce
  obtain res g2 where u: "wire_user e PROBE_RES addr len g1 = (res, g2)" by fastforce
  note b = probe_create_bal [OF c] wire_user_bal [OF u]
  show ?thesis
  proof (cases res)
    case (Inl x)
    then show ?thesis
      using assms c u b by (auto simp: probe_phase1_def client_inv_def split: if_splits)
  next
    case (Inr d)
    then show ?thesis
      using assms c u b relay_bal
      by (fastforce simp: probe_phase1_def client_inv_def held_def fun_eq_iff split: if_splits prod.splits)
  qed
qed

lemma inv_probe_phase2:
  assumes "probe_phase2 e uc g = (ret, uc', g')" "client_inv w r uc g"
  shows "client_inv w r uc' g'"
  using assms relay_bal
  by (fastforce simp: probe_phase2_def client_inv_def held_def fun_eq_iff split: if_splits prod.splits option.splits)

lemma inv_probeAttachBackingUser [inv_intros]:
  assumes "probeAttachBackingUser e ph addr len uc g = (ret, uc', g')" "ret \<noteq> Kernel_panic" "client_inv w r uc g"
  shows "client_inv w r uc' g'"
  using assms inv_probe_phase1 inv_probe_phase2
  by (auto simp: probeAttachBackingUser_def split: if_splits)

lemma clientClose_releases:
  assumes "clientClose e uc g = (ret, uc', g')" "client_inv w r uc g"
  shows "client_inv w r uc' g' \<and> held uc' = (\<lambda>_. 0) \<and> ret = kIOReturnSuccess"
proof -
  obtain uc1 g1 where p: "probeAttachBackingUserCleanup e uc g = (uc1, g1)" by fastforce
  have "client_inv w r uc1 g1 \<and> m_probe_descriptor uc1 = None"
    using assms(2) p
    by (auto simp: probeAttachBackingUserCleanup_def client_inv_def held_def fun_eq_iff split: option.splits if_splits)
  moreover have "backings_ok (map (\<lambda>_. free_backing) tab)" for tab :: "user_backing_entry list"
    by (auto simp: backings_ok_def list_all_iff intro!: slots_ok_all_free)
  ultimately show ?thesis
    using assms(1) p drop_all_bal [of "m_user_backings uc1" g1]
    by (auto simp: clientClose_def removeAllUserBackings_def client_inv_def held_def fun_eq_iff)
qed

lemma md_tr [simp]: "g_tr (md_drop d g) = g_tr g" "g_tr (drop_opt x g) = g_tr g"
  by (simp_all add: md_drop_def drop_opt_def split: option.splits)

lemma drop_all_tr [simp]: "g_tr (drop_all tab g) = g_tr g"
  by (induction tab arbitrary: g) auto

lemma removeUserBacking_tr: "removeUserBacking rid uc g = (uc', g') \<Longrightarrow> g_tr g' = g_tr g"
  by (auto simp: removeUserBacking_def split: if_splits option.splits)

definition opened_client :: user_client where
  "opened_client = uc_initWithTask\<lparr>uc_gpu := True\<rparr>"

lemma opened_inv: "client_inv (g_wired g) (g_refs g) opened_client g"
proof -
  have "held_tab (replicate k free_backing) n = 0" for k n
    by (induction k) (simp_all add: held_tab_def)
  moreover have "backings_ok (replicate 64 free_backing)"
    by (auto simp: backings_ok_def list_all_iff intro!: slots_ok_all_free)
  ultimately show ?thesis
    by (simp add: client_inv_def opened_client_def uc_initWithTask_def held_def)
qed

lemma relay_sent:
  assumes "relay e cmd g = (ret, g')" "length cmd \<noteq> 0"
    "ret \<in> {kIOReturnSuccess, kIOReturnError, kIOReturnTimeout}"
  shows "tr_sent (g_tr g') = tr_sent (g_tr g) @ [(Control, cmd)]"
proof -
  obtain ty where "send_hdr e cmd g = (ret, ty, g')"
    using assms(1,2) by (auto simp: relay_send_ret send_ret_def split: prod.splits)
  then show ?thesis using assms(3) by (rule send_hdr_sent)
qed

lemma wire_user_attached:
  assumes "wire_user e rid addr len g = (Inr d, g')"
  shows "user_desc e (tr_tick (g_tr g)) addr len = Some d
     \<and> (\<exists>mem nr. seg_count (Suc (md_length d)) d 0 0 0 = Some (nr, md_length d)
          \<and> tr_sent (g_tr g') = tr_sent (g_tr g) @ [(Control, attach_command mem rid d nr)])"
proof -
  obtain x where x: "user_desc e (tr_tick (g_tr g)) addr len = Some x"
    using assms by (auto simp: wire_user_def split: option.splits)
  let ?g1 = "md_do_prepare x (md_retain x g)"
  have a: "attach_user_desc e rid x ?g1 = (kIOReturnSuccess, g')" "d = x"
    using assms x by (auto simp: wire_user_def Let_def split: if_splits prod.splits)
  then obtain nr mem where m: "seg_count (Suc (md_length x)) x 0 0 0 = Some (nr, md_length x)"
    "relay e (attach_command mem rid x nr) ?g1 = (kIOReturnSuccess, g')"
    by (auto simp: attach_user_desc_def split: option.splits if_splits prod.splits)
  have "attach_command mem rid x nr \<noteq> []"
    using length_attach_command [of mem rid x nr] by auto
  with relay_sent [OF m(2)] m(1) x a(2) show ?thesis by auto
qed

lemma wire_user_Inl: "wire_user e rid addr len g = (Inl ret, g') \<Longrightarrow> ret \<noteq> kIOReturnSuccess"
  by (auto simp: wire_user_def Let_def split: option.splits if_splits prod.splits)

lemma relay_ok:
  assumes "good_device e g" "24 \<le> length cmd" "length cmd \<le> 4096"
  shows "\<exists>t. relay e cmd g = (kIOReturnSuccess, g\<lparr>g_tr := t\<rparr>) \<and> good_device e (g\<lparr>g_tr := t\<rparr>)
     \<and> tr_sent t = tr_sent (g_tr g) @ [(Control, cmd)]"
  using send_ret_ok [OF assms] assms(2) relay_send_ret [of cmd e g] by (cases cmd) auto

lemma wire_user_ok:
  assumes "good_device e g" "user_desc e (tr_tick (g_tr g)) addr len = Some d" "md_prepare d = kIOReturnSuccess"
    "seg_count (Suc (md_length d)) d 0 0 0 = Some (nr, md_length d)" "0 < nr" "nr \<le> 254"
    and "\<forall>n k. kmalloc e n k \<noteq> None"
  shows "\<exists>t mem. wire_user e rid addr len g = (Inr d, (md_do_prepare d (md_retain d g))\<lparr>g_tr := t\<rparr>)
     \<and> good_device e ((md_do_prepare d (md_retain d g))\<lparr>g_tr := t\<rparr>)
     \<and> tr_sent t = tr_sent (g_tr g) @ [(Control, attach_command mem rid d nr)]"
proof -
  let ?g1 = "md_do_prepare d (md_retain d g)"
  obtain mem where m: "kmalloc e (tr_tick (g_tr ?g1)) (32 + nr * 16) = Some mem" using assms(7) by blast
  have "good_device e ?g1" using assms(1) by (simp add: good_device_def)
  from relay_ok [OF this, of "attach_command mem rid d nr"] assms(6) obtain t where
    "relay e (attach_command mem rid d nr) ?g1 = (kIOReturnSuccess, ?g1\<lparr>g_tr := t\<rparr>)"
    "good_device e (?g1\<lparr>g_tr := t\<rparr>)" "tr_sent t = tr_sent (g_tr g) @ [(Control, attach_command mem rid d nr)]"
    by (auto simp: length_attach_command)
  then show ?thesis
    using assms m by (auto simp: wire_user_def attach_user_desc_def Let_def)
qed

lemma succ_gt32: "(x :: u32) < 0xFFFFFFFF \<Longrightarrow> x < x + 1"
  by (simp add: word_less_nat_alt unat_word_ariths)

lemma opened_table:
  "m_user_backings opened_client = replicate 64 free_backing" "uc_gpu opened_client"
  "backings_ok (m_user_backings opened_client)"
  by (auto simp: opened_client_def uc_initWithTask_def backings_ok_def list_all_iff intro!: slots_ok_all_free)

lemma sample_segs: "seg_count (Suc (md_length (sample_desc n 4096))) (sample_desc n 4096) 0 0 0
    = Some (1, md_length (sample_desc n 4096))"
proof -
  have "seg_count (Suc (Suc (Suc k))) (sample_desc n 4096) 0 0 0 = Some (1, 4096)" for k
    by (simp add: sample_desc_def)
  from this [of 4094] show ?thesis
    by (simp add: sample_desc_def eval_nat_numeral del: seg_count.simps)
qed

lemma sample_wire:
  "\<exists>t mem. wire_user sample_env rid addr 4096 sample_gpu
       = (Inr (sample_desc 0 4096), (md_do_prepare (sample_desc 0 4096) (md_retain (sample_desc 0 4096) sample_gpu))\<lparr>g_tr := t\<rparr>)
     \<and> tr_sent t = [(Control, attach_command mem rid (sample_desc 0 4096) 1)]"
proof -
  let ?d = "sample_desc 0 4096"
  have "seg_count (Suc (Suc (Suc k))) ?d 0 0 0 = Some (1, 4096)" for k
    by (simp add: sample_desc_def)
  from this [of 4094] have s: "seg_count (Suc (md_length ?d)) ?d 0 0 0 = Some (1, md_length ?d)"
    by (simp add: sample_desc_def eval_nat_numeral del: seg_count.simps)
  have "user_desc sample_env (tr_tick (g_tr sample_gpu)) addr 4096 = Some ?d"
    by (simp add: sample_env_def sample_gpu_def sample_transport_def)
  moreover have "md_prepare ?d = kIOReturnSuccess" "\<forall>n k. kmalloc sample_env n k \<noteq> None" "tr_sent (g_tr sample_gpu) = []"
    by (simp_all add: sample_desc_def sample_env_def sample_gpu_def sample_transport_def)
  ultimately show ?thesis
    using wire_user_ok [OF sample_good _ _ s, of addr 4096 rid] by auto
qed

lemma sample_attach:
  "\<exists>uc' g'. attachBackingUser sample_env 0x100 0x1000 4096 opened_client sample_gpu = (kIOReturnSuccess, uc', g')
     \<and> findUserBacking 0x100 (m_user_backings uc') = Some (sample_desc 0 4096)
     \<and> g_wired g' 0 = 1"
proof -
  let ?d = "sample_desc 0 4096"
  obtain t where w: "wire_user sample_env 0x100 0x1000 4096 sample_gpu
      = (Inr ?d, (md_do_prepare ?d (md_retain ?d sample_gpu))\<lparr>g_tr := t\<rparr>)" using sample_wire by blast
  have none: "findUserBacking 0x100 (m_user_backings opened_client) = None"
    using slot_find_None [of ub_id "0x100" "replicate 64 free_backing"]
    by (simp add: opened_table findUserBacking_def)
  obtain tab where tab: "addUserBacking 0x100 ?d (m_user_backings opened_client) = Some tab"
    using none slot_index_None [of ub_id 0 "replicate 64 free_backing"]
    by (cases "slot_index ub_id 0 (replicate 64 free_backing)") (simp_all add: addUserBacking_def opened_table)
  have "findUserBacking 0x100 tab = Some ?d"
    using backing.ins_then_look [OF opened_table(3) tab] .
  then show ?thesis
    using w none tab opened_table(2)
    by (simp add: attachBackingUser_def md_do_prepare_def md_retain_def sample_desc_def sample_gpu_def gpu_init_def)
qed

definition full_client :: user_client where
  "full_client = opened_client\<lparr>m_user_backings :=
     map (\<lambda>i. \<lparr>ub_id = word_of_nat i, ub_desc = Some (sample_desc i 4096)\<rparr>) [1..<65]\<rparr>"

lemma full_ids: "ub_id ` set (m_user_backings full_client) = word_of_nat ` {1..<65}"
  by (simp add: full_client_def image_image del: upt_Suc upt_rec_numeral)

section \<open>Properties\<close>

text \<open>C11. Attaching a client buffer: a success binds exactly the given id to the new descriptor, which was not bound before,
  and the device has read one attach whose entries name the physical bytes of the buffer, first to last; every
  failure leaves the client's table as it was, and an id already bound is refused before anything is done.\<close>

theorem attachBackingUser_refines:
  assumes "backings_ok (m_user_backings uc)" "attachBackingUser e rid addr len uc g = (ret, uc', g')"
    and "\<forall>d. user_desc e (tr_tick (g_tr g)) addr len = Some d \<longrightarrow> seg_contract d"
  shows "backings_ok (m_user_backings uc')
     \<and> (ret \<noteq> kIOReturnSuccess \<longrightarrow> uc' = uc)
     \<and> (ret = kIOReturnSuccess \<longrightarrow> findUserBacking rid (m_user_backings uc) = None
          \<and> (\<exists>d mem nr. user_desc e (tr_tick (g_tr g)) addr len = Some d
               \<and> (\<lambda>k. findUserBacking k (m_user_backings uc')) = (\<lambda>k. findUserBacking k (m_user_backings uc))(rid \<mapsto> d)
               \<and> tr_sent (g_tr g') = tr_sent (g_tr g) @ [(Control, attach_command mem rid d nr)]
               \<and> concat (map entry_addrs (seg_entries d 0 nr)) = map (\<lambda>i. fst (md_seg d i)) [0..<md_length d]))
     \<and> (findUserBacking rid (m_user_backings uc) \<noteq> None \<longrightarrow> ret \<noteq> kIOReturnSuccess \<and> g' = g)"
proof -
  obtain res g1 where u: "wire_user e rid addr len g = (res, g1)" by fastforce
  show ?thesis
  proof (cases "ret = kIOReturnSuccess")
    case False
    then show ?thesis
      using assms(1,2) by (auto simp: attachBackingUser_def split: if_splits option.splits prod.splits sum.splits)
  next
    case True
    then obtain d tab where d: "res = Inr d" "g' = g1" "findUserBacking rid (m_user_backings uc) = None"
      "addUserBacking rid d (m_user_backings uc) = Some tab" "m_user_backings uc' = tab"
      using assms(2) u wire_user_Inl
      by (cases res) (auto simp: attachBackingUser_def split: if_splits option.splits)
    obtain mem nr where a: "user_desc e (tr_tick (g_tr g)) addr len = Some d"
      "seg_count (Suc (md_length d)) d 0 0 0 = Some (nr, md_length d)"
      "tr_sent (g_tr g1) = tr_sent (g_tr g) @ [(Control, attach_command mem rid d nr)]"
      using wire_user_attached u d(1) by blast
    have "concat (map entry_addrs (seg_entries d 0 nr)) = map (\<lambda>i. fst (md_seg d i)) [0..<md_length d]"
      using seg_count_covers [of d 0 "Suc (md_length d)" 0 0] assms(3) a(1,2) by auto
    then show ?thesis
      using backing.ins_look [OF assms(1) d(4)] backing.ins_invar [OF assms(1) d(4)] a d True by auto
  qed
qed

theorem attachBackingUser_refines_witness:
  "\<exists>uc' g' d. attachBackingUser sample_env 0x100 0x1000 4096 opened_client sample_gpu = (kIOReturnSuccess, uc', g')
     \<and> findUserBacking 0x100 (m_user_backings uc') = Some d"
proof -
  obtain uc' g' where r: "attachBackingUser sample_env 0x100 0x1000 4096 opened_client sample_gpu
      = (kIOReturnSuccess, uc', g')" using sample_attach by blast
  have "\<forall>d. user_desc sample_env (tr_tick (g_tr sample_gpu)) 0x1000 4096 = Some d \<longrightarrow> seg_contract d"
    by (simp add: sample_env_def sample_contract)
  from attachBackingUser_refines [OF opened_table(3) r this] r show ?thesis by (auto simp: fun_eq_iff)
qed

text \<open>Detaching: whatever the device answers, the id is unbound, no other binding changes, the buffer's pages are unwired
  once, and a command that was published is the detach of exactly this resource.\<close>

theorem detach_always_unbinds:
  assumes "backings_ok (m_user_backings uc)" "uc_gpu uc" "rid \<noteq> 0"
    and "detachBackingUser e rid uc g = (ret, uc', g')"
  shows "backings_ok (m_user_backings uc')
     \<and> (\<lambda>k. findUserBacking k (m_user_backings uc')) = (\<lambda>k. findUserBacking k (m_user_backings uc))(rid := None)
     \<and> (ret \<in> {kIOReturnSuccess, kIOReturnError, kIOReturnTimeout} \<longrightarrow>
          tr_sent (g_tr g') = tr_sent (g_tr g) @ [(Control, detach_command rid)])
     \<and> (\<forall>d. findUserBacking rid (m_user_backings uc) = Some d \<longrightarrow>
          g_wired g' (md_id d) = g_wired g (md_id d) - 1)"
proof -
  obtain r1 g1 where r: "relay e (detach_command rid) g = (r1, g1)" by fastforce
  obtain uc2 g2 where m: "removeUserBacking rid uc g1 = (uc2, g2)" by fastforce
  have res: "ret = r1" "uc' = uc2" "g' = g2" using assms(2,4) r m by (auto simp: detachBackingUser_def)
  have tab: "m_user_backings uc2 = backing_del rid (m_user_backings uc)"
    using m assms(3) by (auto simp: removeUserBacking_def backing_del_def split: option.splits)
  have tr: "g_tr g2 = g_tr g1"
    using removeUserBacking_tr [OF m] .
  have "g_wired g2 (md_id d) = g_wired g1 (md_id d) - 1"
    if "findUserBacking rid (m_user_backings uc) = Some d" for d
    using m assms(3) that
    by (auto simp: removeUserBacking_def findUserBacking_def slot_find_index mult_def split: option.splits)
  then show ?thesis
    using res tab tr relay_bal [OF r] relay_sent [OF r] backing.del_invar [OF assms(1)]
      backing.del_look [OF assms(1,3)]
    by (simp add: detach_command_def length_wire_encode)
qed

theorem detach_always_unbinds_witness:
  "\<exists>ret uc' g'. detachBackingUser sample_env 0x100 opened_client sample_gpu = (ret, uc', g')
     \<and> findUserBacking 0x100 (m_user_backings uc') = None"
proof -
  obtain ret uc' g' where r: "detachBackingUser sample_env 0x100 opened_client sample_gpu = (ret, uc', g')"
    by (rule prod_cases3)
  from detach_always_unbinds [OF opened_table(3,2) _ r] r show ?thesis by (auto simp: fun_eq_iff)
qed

text \<open>Attaching with a full table: the call reports that there are no resources and unwires the pages, but the device
  has accepted the attach and is sent no detach, so it keeps the addresses of memory that is no longer wired.\<close>

theorem attach_full_leaves_host_attached:
  assumes "good_device e g" "uc_gpu uc" "rid \<noteq> 0" "addr \<noteq> 0" "len \<noteq> 0"
    and "findUserBacking rid (m_user_backings uc) = None" "slot_index ub_id 0 (m_user_backings uc) = None"
    and "user_desc e (tr_tick (g_tr g)) addr len = Some d" "md_prepare d = kIOReturnSuccess"
      "seg_count (Suc (md_length d)) d 0 0 0 = Some (nr, md_length d)" "0 < nr" "nr \<le> 254"
      "\<forall>n k. kmalloc e n k \<noteq> None"
  shows "\<exists>g' mem. attachBackingUser e rid addr len uc g = (kIOReturnNoResources, uc, g')
     \<and> tr_sent (g_tr g') = tr_sent (g_tr g) @ [(Control, attach_command mem rid d nr)]
     \<and> g_wired g' = g_wired g \<and> g_refs g' = g_refs g"
proof -
  obtain t mem where w: "wire_user e rid addr len g = (Inr d, (md_do_prepare d (md_retain d g))\<lparr>g_tr := t\<rparr>)"
    "tr_sent t = tr_sent (g_tr g) @ [(Control, attach_command mem rid d nr)]"
    using wire_user_ok [OF assms(1,8-13)] by blast
  let ?g' = "md_drop d ((md_do_prepare d (md_retain d g))\<lparr>g_tr := t\<rparr>)"
  have "attachBackingUser e rid addr len uc g = (kIOReturnNoResources, uc, ?g')"
    using assms(2-7) w(1) by (simp add: attachBackingUser_def addUserBacking_def)
  moreover have "g_wired ?g' = g_wired g \<and> g_refs ?g' = g_refs g"
    by (auto simp: md_drop_def md_do_prepare_def md_retain_def md_release_def md_complete_def)
  ultimately show ?thesis using w(2) by (auto simp: md_drop_def)
qed

theorem attach_full_leaves_host_attached_witness:
  "\<exists>g' mem. attachBackingUser sample_env 0x200 0x1000 4096 full_client sample_gpu
        = (kIOReturnNoResources, full_client, g')
     \<and> tr_sent (g_tr g') = tr_sent (g_tr sample_gpu) @ [(Control, attach_command mem 0x200 (sample_desc 0 4096) 1)]
     \<and> g_wired g' = g_wired sample_gpu \<and> g_refs g' = g_refs sample_gpu"
proof (rule attach_full_leaves_host_attached [OF sample_good])
  have "(0x200 :: u32) \<notin> word_of_nat ` {1..<65}" "(0 :: u32) \<notin> word_of_nat ` {1..<65}"
    by (auto simp: word_unat_eq_iff unat_of_nat)
  then have "(0x200 :: u32) \<notin> ub_id ` set (m_user_backings full_client)"
    "(0 :: u32) \<notin> ub_id ` set (m_user_backings full_client)" unfolding full_ids by blast+
  then show "findUserBacking 0x200 (m_user_backings full_client) = None"
    "slot_index ub_id 0 (m_user_backings full_client) = None"
    by (simp_all add: findUserBacking_def slot_find_None [THEN iffD2] slot_index_None)
  show "uc_gpu full_client" by (simp add: full_client_def opened_table)
qed (use sample_segs in \<open>simp_all add: sample_env_def sample_gpu_def sample_transport_def, simp add: sample_desc_def\<close>)

text \<open>Surface ids alias: the resource of surface \<open>sid\<close> is \<open>sid\<close> with bit 16 set, so when the counter reaches the
  live id with that bit set, creation is refused although it hands out the id, and destroying the handed-out id
  deallocates the resource of the live surface.\<close>

theorem surface_ids_alias:
  assumes "uc_gpu uc" "w \<noteq> 0" "w \<le> 8192" "h \<noteq> 0" "h \<le> 8192" "uc_surfaces uc \<le> 1000"
    and "m_next_surface_id uc = sid OR 0x10000" "sid \<noteq> 0" "sid OR 0x10000 < 0xFFFFFFFF"
    and "findResource g (surface_resource sid) \<noteq> None"
  shows "\<exists>uc'. createSurface e w h fmt uc g = (kIOReturnBadArgument, Some (sid OR 0x10000), uc', g)
     \<and> destroySurface e (sid OR 0x10000) uc' g = deallocateResource e (surface_resource sid) g"
proof -
  have nz: "sid OR 0x10000 \<noteq> 0" using assms(8) by (simp add: or_eq_0_iff)
  have al: "surface_resource (sid OR 0x10000) = surface_resource sid"
    by (simp add: surface_resource_def or.assoc)
  have lt: "sid OR 0x10000 < (sid OR 0x10000) + 1" using assms(9) by (rule succ_gt32)
  show ?thesis
    using assms nz al lt by (auto simp: createSurface_def destroySurface_def createResource2D_def Let_def not_le)
qed

theorem surface_ids_alias_witness:
  "\<exists>uc'. createSurface sample_env 64 64 0 (opened_client\<lparr>m_next_surface_id := 1 OR 0x10000\<rparr>)
        (sample_gpu\<lparr>m_resource_pool := [res2d (surface_resource 1) 1 64 64 None]\<rparr>)
      = (kIOReturnBadArgument, Some (1 OR 0x10000), uc',
         sample_gpu\<lparr>m_resource_pool := [res2d (surface_resource 1) 1 64 64 None]\<rparr>)
     \<and> destroySurface sample_env (1 OR 0x10000) uc'
         (sample_gpu\<lparr>m_resource_pool := [res2d (surface_resource 1) 1 64 64 None]\<rparr>)
       = deallocateResource sample_env (surface_resource 1)
         (sample_gpu\<lparr>m_resource_pool := [res2d (surface_resource 1) 1 64 64 None]\<rparr>)"
  by (rule surface_ids_alias)
    (simp_all add: opened_client_def uc_initWithTask_def findResource_def res2d_def surface_resource_def)

text \<open>Legacy command submission: the first context the driver creates has id 2, but the legacy selector always submits
  to context 1, which creation never produces first.\<close>

theorem legacy_submit_targets_context_1:
  assumes "uc_gpu uc" "supports3D g" "m_next_context_id g = 1" "createVirglContext e cid uc g = (ret, g')"
  shows "m_next_context_id g' = 2 \<and> submitVirglCommands e (Some c) uc g' = submitVirglCommandsEx e 1 (Some c) uc g'"
proof -
  obtain x where "createRenderContext e g = (ret, x, g')"
    using assms(1,2,4) by (auto simp: createVirglContext_def split: prod.splits)
  then have "m_next_context_id g' = 2"
    using assms(2,3) send_hdr_keeps(14)
    by (fastforce simp: createRenderContext_def initializeCommandHeader_def Let_def split: prod.splits)
  then show ?thesis using assms(1) by (simp add: submitVirglCommands_def submitVirglCommandsEx_def)
qed

theorem legacy_submit_targets_context_1_witness:
  "\<exists>ret g'. createVirglContext sample_env 7 opened_client sample_gpu = (ret, g') \<and> m_next_context_id g' = 2"
proof -
  obtain ret g' where r: "createVirglContext sample_env 7 opened_client sample_gpu = (ret, g')" by fastforce
  have "supports3D sample_gpu" "m_next_context_id sample_gpu = 1"
    by (simp_all add: supports3D_def sample_gpu_def gpu_init_def)
  from legacy_submit_targets_context_1 [OF opened_table(2) this r] r show ?thesis by blast
qed

end
