(* ===== verification/External_Method.thy ===== *)
theory External_Method
  imports User_Client
begin

text \<open>
  The entry point of the user client, \<^verbatim>\<open>externalMethod\<close>: argument checks and dispatch of every selector.
  An access to an argument array outside its bounds, or through a null pointer, gives
  \<open>Kernel_panic\<close>; the theorem at the end shows that it does not happen.
\<close>

section \<open>Arguments\<close>

text \<open>
  \<^verbatim>\<open>IOExternalMethodArguments\<close>. A pointer is \<open>None\<close> when null; the counts are separate, as in the structure.
  \<open>structureOutputDescriptor\<close> is modelled by the contents of the memory it describes.
\<close>

record ext_args =
  scalarInput :: "u64 list option"
  scalarInputCount :: nat
  scalarOutput :: "u64 list option"
  scalarOutputCount :: nat
  structureInput :: "bytes option"
  structureInputSize :: nat
  structureInputDescriptor :: "memdesc option"
  structureOutput :: "bytes option"
  structureOutputSize :: nat
  structureOutputDescriptor :: "bytes option"

type_synonym ext_result = "io_return \<times> ext_args \<times> user_client \<times> gpu"

definition in_guard :: "nat \<Rightarrow> ext_args \<Rightarrow> bool" where
  "in_guard n a \<longleftrightarrow> scalarInputCount a \<ge> n \<and> scalarInput a \<noteq> None"

definition out_guard :: "nat \<Rightarrow> ext_args \<Rightarrow> bool" where
  "out_guard n a \<longleftrightarrow> scalarOutputCount a \<ge> n \<and> scalarOutput a \<noteq> None"

text \<open>The memory behind the arrays really has \<open>n\<close> elements.\<close>

definition in_mem :: "nat \<Rightarrow> ext_args \<Rightarrow> bool" where
  "in_mem n a \<longleftrightarrow> (case scalarInput a of None \<Rightarrow> n = 0 | Some l \<Rightarrow> n \<le> length l)"

definition out_mem :: "nat \<Rightarrow> ext_args \<Rightarrow> bool" where
  "out_mem n a \<longleftrightarrow> (case scalarOutput a of None \<Rightarrow> n = 0 | Some l \<Rightarrow> n \<le> length l)"

definition arg64 :: "ext_args \<Rightarrow> nat \<Rightarrow> u64" where
  "arg64 a i = (case scalarInput a of None \<Rightarrow> 0 | Some l \<Rightarrow> l ! i)"

definition arg :: "ext_args \<Rightarrow> nat \<Rightarrow> u32" where
  "arg a i = ucast (arg64 a i)"

definition arg_pair :: "ext_args \<Rightarrow> nat \<Rightarrow> nat \<Rightarrow> u64" where
  "arg_pair a lo hi = push_bit 32 (ucast (arg a hi)) OR ucast (arg a lo)"

definition set_out :: "nat \<Rightarrow> u64 \<Rightarrow> ext_args \<Rightarrow> ext_args" where
  "set_out i v a = a\<lparr>scalarOutput := map_option (\<lambda>l. l[i := v]) (scalarOutput a)\<rparr>"

text \<open>A write through \<^verbatim>\<open>(uint32_t*)&scalarOutput[0]\<close>: the low half on a little-endian machine.\<close>

definition set_out32 :: "u32 option \<Rightarrow> ext_args \<Rightarrow> ext_args" where
  "set_out32 v a =
     (case v of
        None \<Rightarrow> a
      | Some x \<Rightarrow> a\<lparr>scalarOutput := map_option
            (\<lambda>l. l[0 := (l ! 0 AND 0xFFFFFFFF00000000) OR ucast x]) (scalarOutput a)\<rparr>)"

definition touch :: "bool \<Rightarrow> ext_args \<Rightarrow> user_client \<Rightarrow> gpu \<Rightarrow> ext_result \<Rightarrow> ext_result" where
  "touch ok a uc g body = (if ok then body else (Kernel_panic, a, uc, g))"

section \<open>Selectors 0 to 8\<close>

definition caps_bytes :: "gpu \<Rightarrow> bytes" where
  "caps_bytes g = le32 0x10000 @ le32 0x1af4 @ le32 0x1050 @ le32 2 @ le64 (512 * 1024 * 1024)
     @ le32 8192 @ le32 8192 @ le32 64 @ le32 (if supports3D g then 1 else 0) @ le32 0 @ le32 1
     @ le32 8192 @ le32 2 @ zeros 128"

text \<open>\<open>idx\<close>: the accelerator's registry property \<open>IOAccelIndex\<close>, when it is set.\<close>

definition ext_info :: "u32 option \<Rightarrow> ext_args \<Rightarrow> user_client \<Rightarrow> gpu \<Rightarrow> ext_result" where
  "ext_info idx a uc g =
     (case structureOutputDescriptor a of
        Some mem \<Rightarrow>
          let n = min (length mem) 184;
              a' = a\<lparr>structureOutputDescriptor := Some (overwrite (take n (caps_bytes g)) mem)\<rparr>
          in (if n = 184 then kIOReturnSuccess else kIOReturnError, a', uc, g)
      | None \<Rightarrow>
          if out_guard 1 a
          then (if uc_accel uc
                then (case idx of
                        Some i \<Rightarrow> touch (out_mem 1 a) a uc g (kIOReturnSuccess, set_out 0 (ucast i) a, uc, g)
                      | None \<Rightarrow> (kIOReturnNotReady, a, uc, g))
                else (kIOReturnNotReady, a, uc, g))
          else (kIOReturnBadArgument, a, uc, g))"

definition ext_standard :: "device_env \<Rightarrow> u32 option \<Rightarrow> u32 \<Rightarrow> ext_args \<Rightarrow> user_client \<Rightarrow> gpu \<Rightarrow> ext_result" where
  "ext_standard e idx sel a uc g =
     (if sel = 0 then ext_info idx a uc g
      else if sel = 1 then
        (if out_guard 1 a
         then touch (out_mem 1 a) a uc g
                (case uc_create3DContext e uc g of (ret, cid, g') \<Rightarrow> (ret, set_out32 cid a, uc, g'))
         else (kIOReturnBadArgument, a, uc, g))
      else if sel = 2 then
        (if in_guard 1 a then touch (in_mem 1 a) a uc g (uc_destroy3DContext uc, a, uc, g)
         else (kIOReturnBadArgument, a, uc, g))
      else if sel = 4 then
        (if in_guard 2 a \<and> out_guard 1 a
         then touch (in_mem 1 a \<and> out_mem 1 a) a uc g (kIOReturnSuccess, set_out 0 (arg64 a 0) a, uc, g)
         else (kIOReturnBadArgument, a, uc, g))
      else if sel = 7 then (kIOReturnSuccess, a, uc, g)
      else
        (if in_guard 1 a then touch (in_mem 1 a) a uc g (kIOReturnSuccess, a, uc, g)
         else (kIOReturnBadArgument, a, uc, g)))"

section \<open>Surfaces and contexts, selectors 0x1000 to 0x2001\<close>

text \<open>With bad arguments these leave the switch and return \<open>Unsupported\<close>.\<close>

definition ext_surface :: "device_env \<Rightarrow> u32 \<Rightarrow> ext_args \<Rightarrow> user_client \<Rightarrow> gpu \<Rightarrow> ext_result" where
  "ext_surface e sel a uc g =
     (if sel = 0x1000 then
        (if in_guard 3 a \<and> out_guard 1 a
         then touch (in_mem 3 a \<and> out_mem 1 a) a uc g
                (case createSurface e (arg a 0) (arg a 1) (arg a 2) uc g of
                   (ret, sid, uc', g') \<Rightarrow> (ret, set_out32 sid a, uc', g'))
         else (kIOReturnUnsupported, a, uc, g))
      else if sel = 0x1001 then
        (if in_guard 1 a
         then touch (in_mem 1 a) a uc g
                (case destroySurface e (arg a 0) uc g of (ret, g') \<Rightarrow> (ret, a, uc, g'))
         else (kIOReturnUnsupported, a, uc, g))
      else if sel = 0x1002 then
        (if in_guard 2 a then touch (in_mem 2 a) a uc g (clearSurface uc, a, uc, g)
         else (kIOReturnUnsupported, a, uc, g))
      else if sel = 0x1003 then
        (if in_guard 1 a then touch (in_mem 1 a) a uc g (presentSurface uc, a, uc, g)
         else (kIOReturnUnsupported, a, uc, g))
      else if sel = 0x2000 then
        (if out_guard 1 a
         then touch (out_mem 1 a) a uc g
                (case uc_create3DContext e uc g of (ret, cid, g') \<Rightarrow> (ret, set_out32 cid a, uc, g'))
         else (kIOReturnUnsupported, a, uc, g))
      else
        (if in_guard 1 a then touch (in_mem 1 a) a uc g (uc_destroy3DContext uc, a, uc, g)
         else (kIOReturnUnsupported, a, uc, g)))"

section \<open>The virgl library's selectors, 0x3000 to 0x4004\<close>

definition plain :: "ext_args \<Rightarrow> user_client \<Rightarrow> io_return \<times> gpu \<Rightarrow> ext_result" where
  "plain a uc r = (case r of (ret, g') \<Rightarrow> (ret, a, uc, g'))"

definition ext_virgl :: "device_env \<Rightarrow> u32 \<Rightarrow> ext_args \<Rightarrow> user_client \<Rightarrow> gpu \<Rightarrow> ext_result" where
  "ext_virgl e sel a uc g =
     (if sel = 0x3000 then
        (case structureInput a of
           Some bs \<Rightarrow>
             if structureInputSize a > 0
             then touch (structureInputSize a \<le> length bs) a uc g
                    (plain a uc (submitVirglCommands e (Some (take (structureInputSize a) bs)) uc g))
             else (kIOReturnBadArgument, a, uc, g)
         | None \<Rightarrow> (kIOReturnBadArgument, a, uc, g))
      else if sel = 0x3001 \<or> sel = 0x4003 then
        (if in_guard 4 a
         then touch (in_mem 4 a) a uc g
                (plain a uc (createVirglResource e (arg a 0) (arg a 1) (arg a 2) (arg a 3) uc g))
         else (kIOReturnBadArgument, a, uc, g))
      else if sel = 0x3002 \<or> sel = 0x4004 then
        (if in_guard 1 a then touch (in_mem 1 a) a uc g (plain a uc (createVirglContext e (arg a 0) uc g))
         else (kIOReturnBadArgument, a, uc, g))
      else if sel = 0x3003 then
        (if in_guard 2 a then touch (in_mem 2 a) a uc g (attachVirglResource uc, a, uc, g)
         else (kIOReturnBadArgument, a, uc, g))
      else
        (if in_guard 1 a \<and> out_guard 1 a
         then touch (in_mem 1 a \<and> out_mem 1 a) a uc g
                (kIOReturnSuccess, set_out 0 (ucast (getVirglCapability (arg a 0) uc g)) a, uc, g)
         else (kIOReturnBadArgument, a, uc, g)))"

definition ext_transfer :: "device_env \<Rightarrow> u32 \<Rightarrow> ext_args \<Rightarrow> user_client \<Rightarrow> gpu \<Rightarrow> ext_result" where
  "ext_transfer e sel a uc g =
     (if sel = 0x3005 then
        (if in_guard 5 a
         then touch (in_mem 5 a) a uc g
                (plain a uc (transferToHost2D e (arg a 0) 0 (arg a 1) (arg a 2) (arg a 3) (arg a 4) g))
         else (kIOReturnBadArgument, a, uc, g))
      else if sel = 0x3006 then
        (if in_guard 5 a
         then touch (in_mem 5 a) a uc g
                (plain a uc (flushResource e (arg a 0) (arg a 1) (arg a 2) (arg a 3) (arg a 4) g))
         else (kIOReturnBadArgument, a, uc, g))
      else if sel = 0x3007 then
        (if in_guard 6 a
         then touch (in_mem 6 a) a uc g
                (plain a uc (setscanout e (arg a 0) (arg a 1) (arg a 2) (arg a 3) (arg a 4) (arg a 5) g))
         else (kIOReturnBadArgument, a, uc, g))
      else
        (if in_guard 8 a
         then touch (in_mem (if scalarInputCount a \<ge> 9 then 9 else 8) a) a uc g
                (let ctx = (if scalarInputCount a \<ge> 9 then arg a 8 else 0);
                     b = mk_box (arg a 2) (arg a 3) (arg a 4) (arg a 5) (arg a 6) (arg a 7)
                 in plain a uc
                      (if sel = 0x3008 then transferToHost3D e (arg a 0) (arg a 1) b ctx g
                       else transferFromHost3D e (arg a 0) (arg a 1) b ctx g))
         else (kIOReturnBadArgument, a, uc, g)))"

section \<open>The winsys selectors, 0x5000 to 0x6009\<close>

definition ext_winsys_ctx :: "device_env \<Rightarrow> u32 \<Rightarrow> ext_args \<Rightarrow> user_client \<Rightarrow> gpu \<Rightarrow> ext_result" where
  "ext_winsys_ctx e sel a uc g =
     (if sel = 0x5000 then
        (if in_guard 5 a
         then touch (in_mem 5 a) a uc g
                (case probeAttachBackingUser e (arg a 0) (arg_pair a 1 2) (arg_pair a 3 4) uc g of
                   (ret, uc', g') \<Rightarrow> (ret, a, uc', g'))
         else (kIOReturnBadArgument, a, uc, g))
      else if sel = 0x6000 then
        (if out_guard 1 a
         then (case createVirglContextEx e uc g of (ret, cid, g') \<Rightarrow>
                 if ret = kIOReturnSuccess
                 then touch (out_mem 1 a) a uc g'
                        (ret, set_out 0 (case cid of None \<Rightarrow> 0 | Some c \<Rightarrow> ucast c) a, uc, g')
                 else (ret, a, uc, g'))
         else (kIOReturnBadArgument, a, uc, g))
      else if sel = 0x6001 then
        (if in_guard 1 a
         then touch (in_mem 1 a) a uc g (plain a uc (destroyVirglContextEx e (arg a 0) uc g))
         else (kIOReturnBadArgument, a, uc, g))
      else
        (if in_guard 11 a \<and> out_guard 1 a
         then touch (in_mem 11 a \<and> out_mem 1 a) a uc g
                (case createResource3DEx e (arg a 0) (arg a 1) (arg a 2) (arg a 3) (arg a 4) (arg a 5)
                        (arg a 6) (arg a 7) (arg a 8) (arg a 9) (arg a 10) uc g of
                   (ret, rid, g') \<Rightarrow>
                     (ret, (if ret = kIOReturnSuccess
                            then set_out 0 (case rid of None \<Rightarrow> 0 | Some r \<Rightarrow> ucast r) a else a), uc, g'))
         else (kIOReturnBadArgument, a, uc, g)))"

definition ext_winsys_res :: "device_env \<Rightarrow> u32 \<Rightarrow> ext_args \<Rightarrow> user_client \<Rightarrow> gpu \<Rightarrow> ext_result" where
  "ext_winsys_res e sel a uc g =
     (if sel = 0x6003 then
        (if in_guard 5 a
         then touch (in_mem 5 a) a uc g
                (case attachBackingUser e (arg a 0) (arg_pair a 1 2) (arg_pair a 3 4) uc g of
                   (ret, uc', g') \<Rightarrow> (ret, a, uc', g'))
         else (kIOReturnBadArgument, a, uc, g))
      else if sel = 0x6004 then
        (if in_guard 1 a
         then touch (in_mem 1 a) a uc g
                (case detachBackingUser e (arg a 0) uc g of (ret, uc', g') \<Rightarrow> (ret, a, uc', g'))
         else (kIOReturnBadArgument, a, uc, g))
      else if sel = 0x6005 then
        (if in_guard 1 a
         then touch (in_mem 1 a) a uc g
                (case resourceUnref e (arg a 0) uc g of (ret, uc', g') \<Rightarrow> (ret, a, uc', g'))
         else (kIOReturnBadArgument, a, uc, g))
      else if sel = 0x6006 then
        (if scalarInputCount a \<ge> 1 \<and> out_guard 3 a
         then touch (in_mem 1 a \<and> out_mem 3 a) a uc g
                (case getCapsetInfo e (arg a 0) uc g of (ret, info, g') \<Rightarrow>
                   (ret, (case info of
                            Some (i, v, s) \<Rightarrow> set_out 2 (ucast s) (set_out 1 (ucast v) (set_out 0 (ucast i) a))
                          | None \<Rightarrow> a), uc, g'))
         else (kIOReturnBadArgument, a, uc, g))
      else
        (if in_guard 2 a \<and> structureOutput a \<noteq> None \<and> structureOutputSize a > 0
         then touch (in_mem 2 a
                \<and> (case structureOutput a of None \<Rightarrow> False | Some b \<Rightarrow> structureOutputSize a \<le> length b)) a uc g
                (case getCapset e (arg a 0) (arg a 1)
                        (map_option (take (structureOutputSize a)) (structureOutput a)) uc g of
                   (ret, blob, g') \<Rightarrow>
                     (ret, (case blob of
                              Some (bs, n) \<Rightarrow> a\<lparr>structureOutput := map_option (overwrite bs) (structureOutput a),
                                                 structureOutputSize := n\<rparr>
                            | None \<Rightarrow> a), uc, g'))
         else (kIOReturnBadArgument, a, uc, g)))"

text \<open>
  The descriptor form of 0x6008, for batches of a page or more: the descriptor is prepared and mapped for
  the duration of the call; its own length, cut to 32 bits, is the size.
\<close>

definition ext_submit_desc :: "device_env \<Rightarrow> ext_args \<Rightarrow> memdesc \<Rightarrow> user_client \<Rightarrow> gpu \<Rightarrow> ext_result" where
  "ext_submit_desc e a d uc g =
     (let dsize = md_length d mod 2 ^ 32 in
      if md_prepare d \<noteq> kIOReturnSuccess then (md_prepare d, a, uc, g)
      else let g1 = md_do_prepare d g in
        case md_map d of
          None \<Rightarrow> (kIOReturnVMError, a, uc, md_complete d g1)
        | Some mem \<Rightarrow>
            touch (dsize \<le> length mem) a uc g1
              (case submitVirglCommandsEx e (arg a 0) (Some (take dsize mem)) uc g1 of
                 (ret, g2) \<Rightarrow> (ret, a, uc, md_complete d g2)))"

definition ext_winsys_submit :: "device_env \<Rightarrow> u32 \<Rightarrow> ext_args \<Rightarrow> user_client \<Rightarrow> gpu \<Rightarrow> ext_result" where
  "ext_winsys_submit e sel a uc g =
     (if sel = 0x6008 then
        (if in_guard 1 a
         then touch (in_mem 1 a) a uc g
           (case structureInput a of
              Some bs \<Rightarrow>
                if structureInputSize a > 0
                then touch (structureInputSize a \<le> length bs) a uc g
                       (plain a uc (submitVirglCommandsEx e (arg a 0)
                                      (Some (take (structureInputSize a) bs)) uc g))
                else (case structureInputDescriptor a of
                        None \<Rightarrow> (kIOReturnBadArgument, a, uc, g)
                      | Some d \<Rightarrow> ext_submit_desc e a d uc g)
            | None \<Rightarrow>
                (case structureInputDescriptor a of
                   None \<Rightarrow> (kIOReturnBadArgument, a, uc, g)
                 | Some d \<Rightarrow> ext_submit_desc e a d uc g))
         else (kIOReturnBadArgument, a, uc, g))
      else
        (if in_guard 2 a
         then touch (in_mem 2 a) a uc g (plain a uc (ctxAttachResource e (arg a 0) (arg a 1) uc g))
         else (kIOReturnBadArgument, a, uc, g)))"

section \<open>Dispatch\<close>

definition ext_dispatch :: "device_env \<Rightarrow> u32 option \<Rightarrow> u32 \<Rightarrow> ext_args \<Rightarrow> user_client \<Rightarrow> gpu \<Rightarrow> ext_result" where
  "ext_dispatch e idx sel a uc g =
     (if sel \<in> {0, 1, 2, 4, 7, 8} then ext_standard e idx sel a uc g
      else if sel \<in> {0x1000, 0x1001, 0x1002, 0x1003, 0x2000, 0x2001} then ext_surface e sel a uc g
      else if sel \<in> {0x3000, 0x3001, 0x4003, 0x3002, 0x4004, 0x3003, 0x3004} then ext_virgl e sel a uc g
      else if sel \<in> {0x3005, 0x3006, 0x3007, 0x3008, 0x3009} then ext_transfer e sel a uc g
      else if sel \<in> {0x5000, 0x6000, 0x6001, 0x6002} then ext_winsys_ctx e sel a uc g
      else if sel \<in> {0x6003, 0x6004, 0x6005, 0x6006, 0x6007} then ext_winsys_res e sel a uc g
      else if sel \<in> {0x6008, 0x6009} then ext_winsys_submit e sel a uc g
      else (kIOReturnUnsupported, a, uc, g))"

definition externalMethod ::
  "device_env \<Rightarrow> u32 option \<Rightarrow> u32 \<Rightarrow> ext_args option \<Rightarrow> user_client \<Rightarrow> gpu
     \<Rightarrow> io_return \<times> ext_args option \<times> user_client \<times> gpu" where
  "externalMethod e idx sel args uc g =
     (case args of
        None \<Rightarrow> (kIOReturnBadArgument, None, uc, g)
      | Some a \<Rightarrow>
          if \<not> uc_gpu uc then (kIOReturnNotReady, Some a, uc, g)
          else case ext_dispatch e idx sel a uc g of (ret, a', uc', g') \<Rightarrow> (ret, Some a', uc', g'))"

end
