(* ===== verification/Client_Safety.thy ===== *)
theory Client_Safety
  imports External_Method
begin

text \<open>
  What the user client guarantees to the kernel: no selector panics, and the memory a client wires through the
  winsys selectors is accounted for at every moment and released when the client closes or dies. The calls of a
  client are a step relation; the accounting is an invariant of it, by rule induction.
\<close>

section \<open>No driver operation panics\<close>

text \<open>What the kernel's memory descriptors promise: segments that cover them and a \<^verbatim>\<open>prepare\<close> that returns.\<close>

definition env_ok :: "device_env \<Rightarrow> bool" where
  "env_ok e \<longleftrightarrow>
     (\<forall>n k d. bmd_alloc e n k = Some d \<longrightarrow> seg_contract d \<and> md_prepare d \<noteq> Kernel_panic)
   \<and> (\<forall>n a l d. user_desc e n a l = Some d \<longrightarrow> seg_contract d \<and> md_prepare d \<noteq> Kernel_panic)"

lemma safe_send_ret [safe_rules]: "send_ret e c g = (ret, g') \<Longrightarrow> safe ret g g'"
  using safe_send_hdr by (auto simp: send_ret_def split: prod.splits)

lemma safe_attachBacking [safe_rules]:
  assumes "attachBacking e rid (Some d) g = (ret, g')" "seg_contract d" "md_prepare d \<noteq> Kernel_panic"
  shows "safe ret g g'"
  using assms seg_terminates [OF assms(2)] safe_send_hdr
  by (fastforce simp: attachBacking_def Let_def safe_def split: if_splits option.splits prod.splits)

lemma pool_register_tr: "pool_register r g = Some g' \<Longrightarrow> g_tr g' = g_tr g"
  by (auto simp: pool_register_def split: option.splits)

lemma safe_create2d_attach:
  assumes "create2d_attach e rid fmt w h d own g = (ret, g')" "seg_contract d" "md_prepare d \<noteq> Kernel_panic"
  shows "safe ret g g'"
proof -
  obtain ar g1 where a: "attachBacking e rid (Some d) g = (ar, g1)" by fastforce
  note s1 = safe_attachBacking [OF a assms(2,3)]
  obtain r2 ty g2 where u: "send_hdr e (unref_command rid) g1 = (r2, ty, g2)" by (rule prod_cases3)
  note s2 = safe_send_hdr [OF u]
  show ?thesis
    using assms(1) a u s1 s2 pool_register_tr
    by (fastforce simp: create2d_attach_def safe_def split: if_splits option.splits)
qed

lemma safe_createResource2D [safe_rules]:
  assumes "createResource2D e rid fmt w h None g = (ret, g')" "env_ok e"
  shows "safe ret g g'"
proof -
  obtain r ty g1 where s: "send_hdr e (create2d_command rid fmt w h) g = (r, ty, g1)" by (rule prod_cases3)
  note s1 = safe_send_hdr [OF s]
  show ?thesis
  proof (cases "bmd_alloc e (tr_tick (g_tr g1)) (unat (w * h * 4))")
    case None
    then show ?thesis using assms(1) s s1 by (auto simp: createResource2D_def safe_def split: if_splits)
  next
    case (Some d)
    then have d: "seg_contract d" "md_prepare d \<noteq> Kernel_panic" using assms(2) by (auto simp: env_ok_def)
    obtain r2 g2 where c: "create2d_attach e rid fmt w h d True (md_retain d g1) = (r2, g2)" by fastforce
    show ?thesis
      using assms(1) s s1 Some c safe_create2d_attach [OF c d]
      by (auto simp: createResource2D_def safe_def split: if_splits)
  qed
qed

lemma safe_createResource3D [safe_rules]:
  assumes "createResource3D e rid t fmt b w h d g = (ret, g')"
  shows "safe ret g g'"
proof -
  obtain r ty g1 where s: "send_hdr e (wire_encode (mk_hdr VIRTIO_GPU_CMD_RESOURCE_CREATE_3D 0)
      (create3d_body rid t fmt b w h d)) g = (r, ty, g1)" by (rule prod_cases3)
  show ?thesis
    using assms s safe_send_hdr [OF s] pool_register_tr
    by (fastforce simp: createResource3D_def safe_def Let_def split: if_splits option.splits)
qed

lemma safe_deallocateResource [safe_rules]: "deallocateResource e rid g = (ret, g') \<Longrightarrow> safe ret g g'"
  using safe_send_hdr by (fastforce simp: deallocateResource_def safe_def tombstone_tr split: prod.splits if_splits)

lemma safe_createRenderContext [safe_rules]:
  "createRenderContext e g = (ret, cid, g') \<Longrightarrow> safe ret g g'"
  using safe_send_hdr
  by (fastforce simp: createRenderContext_def initializeCommandHeader_def Let_def safe_def split: prod.splits if_splits)

lemma safe_executeCommands [safe_rules]: "executeCommands e ctx d g = (ret, g') \<Longrightarrow> safe ret g g'"
  using safe_send_hdr
  by (fastforce simp: executeCommands_def split: prod.splits if_splits option.splits)

lemma safe_display [safe_rules]:
  "transferToHost2D e rid off x y w h g = (ret, g') \<Longrightarrow> safe ret g g'"
  "transferToHost3D e rid lvl b ctx g = (ret, g') \<Longrightarrow> safe ret g g'"
  "transferFromHost3D e rid lvl b ctx g = (ret, g') \<Longrightarrow> safe ret g g'"
  "flushResource e rid x y w h g = (ret, g') \<Longrightarrow> safe ret g g'"
  using safe_send_ret
  by (auto simp: transferToHost2D_def transferToHost3D_def transferFromHost3D_def flushResource_def split: if_splits)

lemma safe_setscanout [safe_rules]: "setscanout e sc rid x y w h g = (ret, g') \<Longrightarrow> safe ret g g'"
  using safe_send_ret by (fastforce simp: setscanout_def safe_def split: if_splits prod.splits)

section \<open>The client's operations\<close>

lemma safe_attach_user_desc:
  assumes "attach_user_desc e rid d g = (ret, g')" "seg_contract d"
  shows "safe ret g g'"
  using assms(1) seg_terminates [OF assms(2)] relay_keeps(2)
  by (fastforce simp: attach_user_desc_def safe_def split: if_splits option.splits prod.splits)

definition res_code :: "io_return + memdesc \<Rightarrow> io_return" where
  "res_code r = (case r of Inl x \<Rightarrow> x | Inr _ \<Rightarrow> kIOReturnSuccess)"

lemma safe_wire_user:
  assumes "wire_user e rid addr len g = (res, g')" "env_ok e"
  shows "safe (res_code res) g g'"
proof (cases "user_desc e (tr_tick (g_tr g)) addr len")
  case None
  then show ?thesis using assms(1) by (auto simp: wire_user_def res_code_def)
next
  case (Some d)
  then have d: "seg_contract d" "md_prepare d \<noteq> Kernel_panic" using assms(2) by (auto simp: env_ok_def)
  obtain ret g2 where a: "attach_user_desc e rid d (md_do_prepare d (md_retain d g)) = (ret, g2)" by fastforce
  show ?thesis
    using assms(1) Some a d safe_attach_user_desc [OF a d(1)]
    by (auto simp: wire_user_def Let_def safe_def res_code_def split: if_splits)
qed

lemma safe_attachBackingUser [safe_rules]:
  assumes "attachBackingUser e rid addr len uc g = (ret, uc', g')" "env_ok e"
  shows "safe ret g g'"
proof -
  obtain res g1 where u: "wire_user e rid addr len g = (res, g1)" by fastforce
  show ?thesis
    using assms(1) u safe_wire_user [OF u assms(2)]
    by (cases res) (auto simp: attachBackingUser_def safe_def res_code_def split: if_splits option.splits)
qed

lemma safe_winsys [safe_rules]:
  "createVirglContextEx e uc g = (ret, cid, g') \<Longrightarrow> safe ret g g'"
  "destroyVirglContextEx e c uc g = (ret, g') \<Longrightarrow> safe ret g g'"
  "createResource3DEx e ctx t fmt b w h d arr lst nr fl uc g = (ret, rid, g') \<Longrightarrow> safe ret g g'"
  "ctxAttachResource e ctx rr uc g = (ret, g') \<Longrightarrow> safe ret g g'"
  using relay_keeps(2)
  by (fastforce simp: createVirglContextEx_def destroyVirglContextEx_def createResource3DEx_def ctxAttachResource_def
      initializeCommandHeader_def allocateUserResourceId_def Let_def safe_def split: if_splits prod.splits)+

lemma safe_detach [safe_rules]:
  "detachBackingUser e rid uc g = (ret, uc', g') \<Longrightarrow> safe ret g g'"
  "resourceUnref e rid uc g = (ret, uc', g') \<Longrightarrow> safe ret g g'"
  using relay_keeps(2) removeUserBacking_tr
  by (fastforce simp: detachBackingUser_def resourceUnref_def safe_def split: if_splits prod.splits)+

lemma sendDisplay_safe:
  assumes "sendDisplayCommand e c r g = (ret, r', g')"
  shows "g' = g\<lparr>g_tr := g_tr g'\<rparr> \<and> safe ret g g'"
  using assms core_submitCommand
  by (fastforce simp: sendDisplayCommand_def safe_def bufs_ok_def vq_core_def split: option.splits if_splits prod.splits)

lemma safe_capset [safe_rules]:
  "getCapsetInfo e i uc g = (ret, info, g') \<Longrightarrow> safe ret g g'"
  "getCapset e i v out uc g = (ret, blob, g') \<Longrightarrow> safe ret g g'"
  using sendDisplay_safe
  by (fastforce simp: getCapsetInfo_def getCapset_def Let_def split: if_splits prod.splits option.splits)+

lemma safe_submitVirgl [safe_rules]:
  "submitVirglCommandsEx e ctx c uc g = (ret, g') \<Longrightarrow> safe ret g g'"
  "submitVirglCommands e c uc g = (ret, g') \<Longrightarrow> safe ret g g'"
  using safe_executeCommands
  by (fastforce simp: submitVirglCommandsEx_def submitVirglCommands_def safe_def split: if_splits prod.splits option.splits)+

lemma teardown_live: "bufs_ok (m_vq (g_tr g)) \<Longrightarrow> bufs_ok (m_vq (g_tr (probe_teardown e b rid cid g)))"
proof -
  have s: "bufs_ok (m_vq (g_tr h)) \<Longrightarrow> bufs_ok (m_vq (g_tr (snd (relay e c h))))" for c h
    using relay_keeps(2) [of e c h] by (metis prod.collapse safe_def)
  then show "bufs_ok (m_vq (g_tr g)) \<Longrightarrow> bufs_ok (m_vq (g_tr (probe_teardown e b rid cid g)))"
    by (auto simp: probe_teardown_def ctx_destroy_cmd_def initializeCommandHeader_def Let_def)
qed

lemma relay_live: "bufs_ok (m_vq (g_tr g)) \<Longrightarrow> relay e c g = (ret, g') \<Longrightarrow> ret \<noteq> Kernel_panic \<and> bufs_ok (m_vq (g_tr g'))"
  using relay_keeps(2) by (simp add: safe_def)

lemma safe_probe_create:
  assumes "probe_phase1_create e g = (ret, g')"
  shows "safe ret g g'"
proof -
  obtain h1 where h1: "initializeCommandHeader VIRTIO_GPU_CMD_CTX_CREATE PROBE_CTX False g = (h1, g)"
    by (simp add: initializeCommandHeader_def)
  obtain ra g1 where a: "relay e (wire_encode h1 (Ctx_create 0 0 (zeros 64))) g = (ra, g1)" by fastforce
  obtain rb g2 where b: "relay e (wire_encode (mk_hdr VIRTIO_GPU_CMD_RESOURCE_CREATE_3D PROBE_CTX)
      (Resource_create_3d PROBE_RES 2 67 2 64 64 1 1 0 0 0)) g1 = (rb, g2)" by fastforce
  obtain h2 where h2: "initializeCommandHeader VIRTIO_GPU_CMD_CTX_ATTACH_RESOURCE PROBE_CTX False g2 = (h2, g2)"
    by (simp add: initializeCommandHeader_def)
  obtain rc g3 where c: "relay e (wire_encode h2 (Ctx_resource PROBE_RES)) g2 = (rc, g3)" by fastforce
  have eq: "(ret, g') = (if ra \<noteq> kIOReturnSuccess then (ra, g1)
      else if rb \<noteq> kIOReturnSuccess then (rb, probe_teardown e False PROBE_RES PROBE_CTX g2)
      else (kIOReturnSuccess, g3))"
    using assms
    by (cases "ra = kIOReturnSuccess"; cases "rb = kIOReturnSuccess") (simp_all add: probe_phase1_create_def h1 h2 a b c)
  show ?thesis
    using eq relay_live [OF _ a] relay_live [OF _ b] relay_live [OF _ c] teardown_live [of g2]
    by (auto simp: safe_def split: if_splits)
qed

lemma safe_probe [safe_rules]:
  assumes "probeAttachBackingUser e ph addr len uc g = (ret, uc', g')" "env_ok e"
  shows "safe ret g g'"
proof -
  obtain rc g1 where c: "probe_phase1_create e g = (rc, g1)" by fastforce
  obtain res g2 where u: "wire_user e PROBE_RES addr len g1 = (res, g2)" by fastforce
  note s = safe_probe_create [OF c] safe_wire_user [OF u assms(2)]
  have "probe_phase1 e addr len uc g = (ret, uc', g') \<Longrightarrow> safe ret g g'"
    using c u s relay_keeps(2) teardown_live
    by (cases res) (fastforce simp: probe_phase1_def safe_def res_code_def split: if_splits prod.splits)+
  moreover have "probe_phase2 e uc g = (ret, uc', g') \<Longrightarrow> safe ret g g'"
    using relay_keeps(2) teardown_live
    by (fastforce simp: probe_phase2_def safe_def split: if_splits prod.splits option.splits)
  ultimately show ?thesis
    using assms(1) by (auto simp: probeAttachBackingUser_def split: if_splits)
qed

lemma safe_surface [safe_rules]:
  assumes "env_ok e"
  shows "createSurface e w h fmt uc g = (ret, sid, uc', g') \<Longrightarrow> safe ret g g'"
    "destroySurface e s uc g = (ret, g') \<Longrightarrow> safe ret g g'"
  using safe_createResource2D [OF _ assms] safe_deallocateResource
  by (auto simp: createSurface_def destroySurface_def Let_def split: if_splits prod.splits)

lemma safe_legacy [safe_rules]:
  "uc_create3DContext e uc g = (ret, cid, g') \<Longrightarrow> safe ret g g'"
  "createVirglResource e rid w h fmt uc g = (ret, g') \<Longrightarrow> safe ret g g'"
  "createVirglContext e c uc g = (ret, g') \<Longrightarrow> safe ret g g'"
  using safe_createRenderContext safe_createResource3D
  by (auto simp: uc_create3DContext_def create3DContext_def createVirglResource_def createVirglContext_def
      split: if_splits prod.splits)

section \<open>No selector panics\<close>

text \<open>
  The argument block as IOKit delivers it: each array holds at least as many elements as its count, each structure
  as many bytes as its size, and a mapping of the input descriptor is as long as the descriptor.
\<close>

definition args_ok :: "ext_args \<Rightarrow> bool" where
  "args_ok a \<longleftrightarrow> in_mem (scalarInputCount a) a \<and> out_mem (scalarOutputCount a) a
     \<and> (case structureInput a of None \<Rightarrow> True | Some b \<Rightarrow> structureInputSize a \<le> length b)
     \<and> (case structureOutput a of None \<Rightarrow> True | Some b \<Rightarrow> structureOutputSize a \<le> length b)
     \<and> (case structureInputDescriptor a of None \<Rightarrow> True
        | Some d \<Rightarrow> md_prepare d \<noteq> Kernel_panic \<and> (\<forall>mem. md_map d = Some mem \<longrightarrow> md_length d \<le> length mem))"

lemma in_mem_guard: "args_ok a \<Longrightarrow> n \<le> scalarInputCount a \<Longrightarrow> in_mem n a"
  by (auto simp: args_ok_def in_mem_def split: option.splits)

lemma out_mem_guard: "args_ok a \<Longrightarrow> n \<le> scalarOutputCount a \<Longrightarrow> out_mem n a"
  by (auto simp: args_ok_def out_mem_def split: option.splits)

lemma struct_guard:
  "args_ok a \<Longrightarrow> structureInput a = Some b \<Longrightarrow> structureInputSize a \<le> length b"
  "args_ok a \<Longrightarrow> structureOutput a = Some c \<Longrightarrow> structureOutputSize a \<le> length c"
  by (auto simp: args_ok_def)

definition ext_safe :: "gpu \<Rightarrow> ext_result \<Rightarrow> bool" where
  "ext_safe g r = (case r of (ret, _, _, g') \<Rightarrow> safe ret g g')"

lemma ext_safe_simps [simp]: "ext_safe g (ret, a, uc, g') = safe ret g g'"
  by (simp add: ext_safe_def)

lemmas guard_simps = touch_def plain_def in_guard_def out_guard_def in_mem_guard out_mem_guard struct_guard

lemma ext_safe_standard: "args_ok a \<Longrightarrow> ext_safe g (ext_standard e idx sel a uc g)"
  using safe_legacy(1) [of e uc g]
  by (auto simp: ext_standard_def ext_info_def Let_def guard_simps uc_destroy3DContext_def split: prod.split option.split)

lemma ext_safe_surface: "args_ok a \<Longrightarrow> env_ok e \<Longrightarrow> ext_safe g (ext_surface e sel a uc g)"
  using safe_legacy(1) [of e uc g] safe_surface(1) [of e _ _ _ uc g] safe_surface(2) [of e _ uc g]
  by (auto simp: ext_surface_def guard_simps uc_destroy3DContext_def clearSurface_def presentSurface_def
      split: prod.split)

lemma ext_safe_virgl: "args_ok a \<Longrightarrow> ext_safe g (ext_virgl e sel a uc g)"
  using safe_legacy(2) [of e _ _ _ _ uc g] safe_legacy(3) [of e _ uc g] safe_submitVirgl(2) [of e _ uc g]
  by (auto simp: ext_virgl_def guard_simps attachVirglResource_def split: prod.split option.split)

lemma ext_safe_transfer: "args_ok a \<Longrightarrow> ext_safe g (ext_transfer e sel a uc g)"
  using safe_display(1) [of e _ _ _ _ _ _ g] safe_display(2,3) [of e _ _ _ _ g] safe_display(4) [of e _ _ _ _ _ g]
    safe_setscanout [of e _ _ _ _ _ _ g]
  by (auto simp: ext_transfer_def Let_def guard_simps split: prod.split)

lemma ext_safe_winsys_ctx: "args_ok a \<Longrightarrow> env_ok e \<Longrightarrow> ext_safe g (ext_winsys_ctx e sel a uc g)"
  using safe_probe [of e _ _ _ uc g] safe_winsys(1) [of e uc g] safe_winsys(2) [of e _ uc g]
    safe_winsys(3) [of e _ _ _ _ _ _ _ _ _ _ _ uc g]
  by (auto simp: ext_winsys_ctx_def guard_simps split: prod.split)

lemma ext_safe_winsys_res: "args_ok a \<Longrightarrow> env_ok e \<Longrightarrow> ext_safe g (ext_winsys_res e sel a uc g)"
  using safe_attachBackingUser [of e _ _ _ uc g] safe_detach [of e _ uc g] safe_capset(1) [of e _ uc g]
    safe_capset(2) [of e _ _ _ uc g]
  by (auto simp: ext_winsys_res_def guard_simps split: prod.split option.split)

lemma ext_safe_submit_desc:
  assumes "args_ok a" "structureInputDescriptor a = Some d"
  shows "ext_safe g (ext_submit_desc e a d uc g)"
proof -
  have d: "md_prepare d \<noteq> Kernel_panic" "\<And>mem. md_map d = Some mem \<Longrightarrow> md_length d \<le> length mem"
    using assms by (auto simp: args_ok_def)
  have len: "md_length d mod 4294967296 \<le> length mem" if "md_map d = Some mem" for mem
    using d(2) [OF that] by (meson le_trans mod_less_eq_dividend)
  show ?thesis
    using d(1) len safe_submitVirgl(1)
    by (fastforce simp: ext_submit_desc_def touch_def Let_def safe_def split: prod.splits option.splits)
qed

lemma ext_safe_winsys_submit: "args_ok a \<Longrightarrow> ext_safe g (ext_winsys_submit e sel a uc g)"
  using safe_submitVirgl(1) [of e _ _ uc g] safe_winsys(4) [of e _ _ uc g]
  by (auto simp: ext_winsys_submit_def guard_simps ext_safe_submit_desc split: prod.split option.split)

lemma ext_safe_dispatch:
  assumes "args_ok a" "env_ok e"
  shows "ext_safe g (ext_dispatch e idx sel a uc g)"
  unfolding ext_dispatch_def
  by (simp del: insert_iff add: ext_safe_standard ext_safe_surface ext_safe_virgl ext_safe_transfer
      ext_safe_winsys_ctx ext_safe_winsys_res ext_safe_winsys_submit assms)

lemma externalMethod_dispatch:
  assumes "externalMethod e idx sel (Some a) uc g = (ret, a', uc', g')" "uc_gpu uc"
  obtains b where "ext_dispatch e idx sel a uc g = (ret, b, uc', g')" "a' = Some b"
  using assms by (auto simp: externalMethod_def split: prod.splits)

lemma externalMethod_safe:
  assumes "args_ok a" "env_ok e" "externalMethod e idx sel (Some a) uc g = (ret, a', uc', g')"
  shows "safe ret g g'"
proof (cases "uc_gpu uc")
  case True
  then obtain b where "ext_dispatch e idx sel a uc g = (ret, b, uc', g')"
    using externalMethod_dispatch [OF assms(3)] by blast
  then show ?thesis using ext_safe_dispatch [OF assms(1,2), of g idx sel uc] by simp
next
  case False
  then show ?thesis using assms(3) by (simp add: externalMethod_def)
qed

section \<open>Sequences of winsys calls\<close>

definition winsys_selectors :: "u32 set" where
  "winsys_selectors = {0x5000, 0x6000, 0x6001, 0x6002, 0x6003, 0x6004, 0x6005, 0x6006, 0x6007, 0x6008, 0x6009}"

text \<open>
  One step of the system a client sees: a call of a winsys selector with any admissible arguments and any outcome, or
  activity of the rest of the driver that is itself balanced.
\<close>

inductive winsys_step :: "device_env \<Rightarrow> user_client \<times> gpu \<Rightarrow> user_client \<times> gpu \<Rightarrow> bool" for e where
  winsys_call: "sel \<in> winsys_selectors \<Longrightarrow> args_ok a \<Longrightarrow>
     externalMethod e idx sel (Some a) uc g = (ret, a', uc', g') \<Longrightarrow> winsys_step e (uc, g) (uc', g')"
| driver_activity: "g_wired g' = g_wired g \<Longrightarrow> g_refs g' = g_refs g \<Longrightarrow>
     (bufs_ok (m_vq (g_tr g)) \<Longrightarrow> bufs_ok (m_vq (g_tr g'))) \<Longrightarrow> winsys_step e (uc, g) (uc, g')"

inductive_cases winsys_stepE: "winsys_step e s s'"

definition ext_inv :: "(nat \<Rightarrow> int) \<Rightarrow> (nat \<Rightarrow> int) \<Rightarrow> ext_result \<Rightarrow> bool" where
  "ext_inv w r res = (case res of (ret, _, uc', g') \<Rightarrow> ret \<noteq> Kernel_panic \<longrightarrow> client_inv w r uc' g')"

lemma ext_inv_simp [simp]: "ext_inv w r (ret, a, uc, g) = (ret \<noteq> Kernel_panic \<longrightarrow> client_inv w r uc g)"
  by (simp add: ext_inv_def)

lemma inv_same: "client_inv w r uc g \<Longrightarrow> g_wired g' = g_wired g \<Longrightarrow> g_refs g' = g_refs g \<Longrightarrow> client_inv w r uc g'"
  by (simp add: client_inv_def)

lemma bal_winsys:
  "createVirglContextEx e uc g = (ret, cid, g') \<Longrightarrow> g_wired g' = g_wired g \<and> g_refs g' = g_refs g"
  "destroyVirglContextEx e c uc g = (ret, g') \<Longrightarrow> g_wired g' = g_wired g \<and> g_refs g' = g_refs g"
  "createResource3DEx e ctx t fmt b w h d arr lst nr fl uc g = (ret, rid, g') \<Longrightarrow> g_wired g' = g_wired g \<and> g_refs g' = g_refs g"
  "ctxAttachResource e ctx rr uc g = (ret, g') \<Longrightarrow> g_wired g' = g_wired g \<and> g_refs g' = g_refs g"
  using relay_bal
  by (fastforce simp: createVirglContextEx_def destroyVirglContextEx_def createResource3DEx_def ctxAttachResource_def
      initializeCommandHeader_def allocateUserResourceId_def Let_def split: if_splits prod.splits)+

lemma sendDisplay_bal: "sendDisplayCommand e c r g = (ret, r', g') \<Longrightarrow> g_wired g' = g_wired g \<and> g_refs g' = g_refs g"
  by (auto simp: sendDisplayCommand_def split: option.splits if_splits prod.splits)

lemma bal_capset:
  "getCapsetInfo e i uc g = (ret, info, g') \<Longrightarrow> g_wired g' = g_wired g \<and> g_refs g' = g_refs g"
  "getCapset e i v out uc g = (ret, blob, g') \<Longrightarrow> g_wired g' = g_wired g \<and> g_refs g' = g_refs g"
  using sendDisplay_bal
  by (fastforce simp: getCapsetInfo_def getCapset_def Let_def split: if_splits prod.splits option.splits)+

lemma bal_execute: "executeCommands e ctx d g = (ret, g') \<Longrightarrow> g_wired g' = g_wired g \<and> g_refs g' = g_refs g"
  using send_hdr_keeps(3,4)
  by (fastforce simp: executeCommands_def split: if_splits prod.splits option.splits)

lemma bal_submit:
  assumes "submitVirglCommandsEx e ctx c uc g = (ret, g')"
  shows "g_wired g' = g_wired g \<and> g_refs g' = g_refs g"
proof -
  have "g_wired (md_release d h) = g_wired g \<and> g_refs (md_release d h) = g_refs g"
    if "executeCommands e ctx x (md_retain d g) = (q, h)" for d h q x
    using bal_execute [OF that] by (auto simp: md_release_def md_retain_def)
  then show ?thesis
    using assms by (fastforce simp: submitVirglCommandsEx_def split: if_splits prod.splits option.splits)
qed

lemma inv_quiet [inv_intros]:
  assumes "client_inv w r uc g"
  shows "createVirglContextEx e uc g = (ret, cid, g') \<Longrightarrow> client_inv w r uc g'"
    "destroyVirglContextEx e c uc g = (ret, g') \<Longrightarrow> client_inv w r uc g'"
    "createResource3DEx e ctx t fmt b wd h d arr lst nr fl uc g = (ret, rid, g') \<Longrightarrow> client_inv w r uc g'"
    "ctxAttachResource e ctx rr uc g = (ret, g') \<Longrightarrow> client_inv w r uc g'"
    "getCapsetInfo e i uc g = (ret, info, g') \<Longrightarrow> client_inv w r uc g'"
    "getCapset e i v out uc g = (ret, blob, g') \<Longrightarrow> client_inv w r uc g'"
    "submitVirglCommandsEx e ctx cmds uc g = (ret, g') \<Longrightarrow> client_inv w r uc g'"
  using assms by (auto intro: inv_same dest: bal_winsys bal_capset bal_submit)

lemma inv_winsys_ctx:
  assumes "client_inv w r uc g"
  shows "ext_inv w r (ext_winsys_ctx e sel a uc g)"
  using assms inv_quiet(1-3) [OF assms] inv_probeAttachBackingUser [OF _ _ assms]
  by (auto simp: ext_winsys_ctx_def touch_def plain_def split: prod.split)

lemma inv_winsys_res:
  assumes "client_inv w r uc g"
  shows "ext_inv w r (ext_winsys_res e sel a uc g)"
  using assms inv_quiet(5,6) [OF assms] inv_attachBackingUser [OF _ _ assms] inv_detachBackingUser [OF _ assms]
    inv_resourceUnref [OF _ assms]
  by (auto simp: ext_winsys_res_def touch_def split: prod.split)

lemma inv_submit_desc: "client_inv w r uc g \<Longrightarrow> ext_inv w r (ext_submit_desc e a d uc g)"
proof -
  assume i: "client_inv w r uc g"
  have "client_inv w r uc (md_complete d h)" if "submitVirglCommandsEx e x y uc (md_do_prepare d g) = (q, h)" for x y q h
    using i bal_submit [OF that] by (auto simp: client_inv_def md_complete_def md_do_prepare_def)
  then show "ext_inv w r (ext_submit_desc e a d uc g)"
    using i by (auto simp: ext_submit_desc_def touch_def Let_def split: prod.splits option.splits)
qed

lemma inv_winsys_submit:
  assumes "client_inv w r uc g"
  shows "ext_inv w r (ext_winsys_submit e sel a uc g)"
  using assms inv_quiet(4,7) [OF assms] inv_submit_desc [OF assms]
  by (auto simp: ext_winsys_submit_def touch_def plain_def split: prod.split option.split)

lemma inv_winsys_call:
  assumes "sel \<in> winsys_selectors" "externalMethod e idx sel (Some a) uc g = (ret, a', uc', g')"
    and "ret \<noteq> Kernel_panic" "client_inv w r uc g"
  shows "client_inv w r uc' g'"
proof (cases "uc_gpu uc")
  case False
  then show ?thesis using assms by (simp add: externalMethod_def)
next
  case True
  then obtain b where d: "ext_dispatch e idx sel a uc g = (ret, b, uc', g')"
    using externalMethod_dispatch [OF assms(2)] by blast
  have "ext_inv w r (ext_dispatch e idx sel a uc g)"
    using assms(1) inv_winsys_ctx [OF assms(4)] inv_winsys_res [OF assms(4)] inv_winsys_submit [OF assms(4)]
    by (auto simp: ext_dispatch_def winsys_selectors_def)
  then show ?thesis using d assms(3) by simp
qed

lemma winsys_step_inv:
  assumes "winsys_step e (uc, g) (uc', g')" "env_ok e" "client_inv w r uc g" "bufs_ok (m_vq (g_tr g))"
  shows "client_inv w r uc' g' \<and> bufs_ok (m_vq (g_tr g'))"
  using assms(1)
proof (cases rule: winsys_step.cases)
  case (winsys_call sel a idx ret a')
  from externalMethod_safe [OF winsys_call(2) assms(2) winsys_call(3)] assms(4)
  have "ret \<noteq> Kernel_panic" "bufs_ok (m_vq (g_tr g'))" by (simp_all add: safe_def)
  with inv_winsys_call [OF winsys_call(1,3) _ assms(3)] show ?thesis by blast
next
  case driver_activity
  then show ?thesis using assms inv_same by blast
qed

lemma winsys_run_inv:
  assumes "(winsys_step e)\<^sup>*\<^sup>* s s'" "env_ok e" "client_inv w r (fst s) (snd s)" "bufs_ok (m_vq (g_tr (snd s)))"
  shows "client_inv w r (fst s') (snd s') \<and> bufs_ok (m_vq (g_tr (snd s')))"
  using assms
proof (induction rule: rtranclp_induct)
  case base
  then show ?case by simp
next
  case (step y z)
  then show ?case using winsys_step_inv [of e "fst y" "snd y" "fst z" "snd z" w r] by simp
qed

lemma held_live:
  assumes "findUserBacking rid tab = Some d"
  shows "1 \<le> held_tab tab (md_id d)"
proof -
  obtain s where "s \<in> set tab" "ub_desc s = Some d"
    using assms slot_find_Some [of ub_id rid tab] by (auto simp: findUserBacking_def split: if_splits option.splits)
  moreover have "0 \<le> held_tab t n" for t n
    by (induction t) (auto simp: held_tab_def mult_def split: option.splits)
  ultimately show ?thesis
  proof (induction tab)
    case (Cons x xs)
    from Cons.prems(3) [of xs "md_id d"] have "0 \<le> held_tab xs (md_id d)" .
    moreover have "0 \<le> mult (ub_desc x) (md_id d)" by (auto simp: mult_def split: option.splits)
    ultimately show ?case
      using Cons by (auto simp: held_tab_def mult_def split: option.splits)
  qed simp
qed

section \<open>Sample calls\<close>

lemma sample_prepare [simp]: "md_prepare (sample_desc n len) = kIOReturnSuccess"
  by (simp add: sample_desc_def)

lemma sample_env_ok: "env_ok sample_env"
proof -
  have "unat len < 2 ^ 30" if "len < 0x100000" for len :: u64
    using that by (simp add: word_less_nat_alt)
  then show ?thesis
    by (auto simp: env_ok_def sample_env_def sample_prepare
        intro!: sample_contract split: if_splits)
qed

definition attach_args :: ext_args where
  "attach_args = \<lparr>scalarInput = Some [0x100, 0x1000, 0, 4096, 0], scalarInputCount = 5,
     scalarOutput = None, scalarOutputCount = 0, structureInput = None, structureInputSize = 0,
     structureInputDescriptor = None, structureOutput = None, structureOutputSize = 0,
     structureOutputDescriptor = None\<rparr>"

lemma attach_args_ok: "args_ok attach_args"
  by (simp add: args_ok_def attach_args_def in_mem_def out_mem_def)

lemma sample_gpu_bufs: "bufs_ok (m_vq (g_tr sample_gpu))"
  using sample_bufs by (simp add: sample_gpu_def sample_transport_def)

lemma attach_by_selector:
  "uc_gpu uc \<Longrightarrow> externalMethod e idx 0x6003 (Some attach_args) uc g =
     (case attachBackingUser e 0x100 0x1000 4096 uc g of (ret, uc', g') \<Rightarrow> (ret, Some attach_args, uc', g'))"
  by (simp add: externalMethod_def ext_dispatch_def ext_winsys_res_def in_guard_def in_mem_def touch_def
      attach_args_def arg_def arg64_def arg_pair_def split: prod.split)

lemma sample_run:
  "\<exists>uc g. (winsys_step sample_env)\<^sup>*\<^sup>* (opened_client, sample_gpu) (uc, g)
     \<and> findUserBacking 0x100 (m_user_backings uc) = Some (sample_desc 0 4096)"
proof -
  obtain uc g where a: "attachBackingUser sample_env 0x100 0x1000 4096 opened_client sample_gpu = (kIOReturnSuccess, uc, g)"
    "findUserBacking 0x100 (m_user_backings uc) = Some (sample_desc 0 4096)" using sample_attach by blast
  have x: "externalMethod sample_env None 0x6003 (Some attach_args) opened_client sample_gpu
      = (kIOReturnSuccess, Some attach_args, uc, g)"
    using attach_by_selector [OF opened_table(2)] a(1) by simp
  have "0x6003 \<in> winsys_selectors" by (simp add: winsys_selectors_def)
  from winsys_call [OF this attach_args_ok x] have "winsys_step sample_env (opened_client, sample_gpu) (uc, g)" .
  with a(2) show ?thesis by blast
qed

section \<open>Properties\<close>

text \<open>C1. No call from user space can panic the kernel: for every selector, every argument block that IOKit can deliver (its
  arrays as long as their counts say), every device behaviour and every memory shortage, the call returns an
  ordinary code, every loop in it ends, and the control queue keeps its buffers.\<close>

theorem externalMethod_no_panic:
  assumes "env_ok e" "bufs_ok (m_vq (g_tr g))" "case args of None \<Rightarrow> True | Some a \<Rightarrow> args_ok a"
    and "externalMethod e idx sel args uc g = (ret, args', uc', g')"
  shows "ret \<noteq> Kernel_panic \<and> bufs_ok (m_vq (g_tr g'))"
  using assms externalMethod_safe [of _ e idx sel uc g ret args' uc' g']
  by (auto simp: safe_def externalMethod_def split: option.splits)

theorem externalMethod_no_panic_witness:
  "\<exists>ret args' uc' g'. externalMethod sample_env None 0x6003 (Some attach_args) opened_client sample_gpu
      = (ret, args', uc', g') \<and> ret \<noteq> Kernel_panic"
proof -
  obtain ret args' uc' g' where r: "externalMethod sample_env None 0x6003 (Some attach_args) opened_client sample_gpu
      = (ret, args', uc', g')" by (rule prod_cases4)
  from externalMethod_no_panic [OF sample_env_ok sample_gpu_bufs _ r] r attach_args_ok show ?thesis by auto
qed

text \<open>C2. Wired memory is accounted for: after any sequence of winsys calls with any arguments and outcomes, interleaved
  with any other balanced activity of the driver, each descriptor is wired and referenced exactly as often as
  before the client opened, plus once per place where the client's table or its probe holds it; so a buffer in
  the table is still wired.\<close>

theorem winsys_memory_accounted:
  assumes "env_ok e" "bufs_ok (m_vq (g_tr g0))" "(winsys_step e)\<^sup>*\<^sup>* (opened_client, g0) (uc, g)"
  shows "(\<forall>n. g_wired g n = g_wired g0 n + held uc n) \<and> (\<forall>n. g_refs g n = g_refs g0 n + held uc n)
     \<and> (\<forall>rid d. findUserBacking rid (m_user_backings uc) = Some d \<longrightarrow> g_wired g (md_id d) > g_wired g0 (md_id d))"
proof -
  have i: "client_inv (g_wired g0) (g_refs g0) uc g"
    using winsys_run_inv [OF assms(3,1)] opened_inv [of g0] assms(2) by simp
  have "0 \<le> mult x n" for x n by (auto simp: mult_def split: option.splits)
  then show ?thesis
    using i held_live by (fastforce simp: client_inv_def held_def add_strict_increasing)
qed

theorem winsys_memory_accounted_witness:
  "\<exists>uc g. (winsys_step sample_env)\<^sup>*\<^sup>* (opened_client, sample_gpu) (uc, g)
     \<and> findUserBacking 0x100 (m_user_backings uc) = Some (sample_desc 0 4096)
     \<and> g_wired g (md_id (sample_desc 0 4096)) > g_wired sample_gpu (md_id (sample_desc 0 4096))"
proof -
  obtain uc g where r: "(winsys_step sample_env)\<^sup>*\<^sup>* (opened_client, sample_gpu) (uc, g)"
    "findUserBacking 0x100 (m_user_backings uc) = Some (sample_desc 0 4096)" using sample_run by blast
  from winsys_memory_accounted [OF sample_env_ok sample_gpu_bufs r(1)] r show ?thesis by blast
qed

text \<open>C3. Closing releases everything: after any such sequence, closing the client (which also runs when its process dies)
  succeeds and leaves every descriptor wired and referenced exactly as before the client opened, with nothing held.\<close>

theorem winsys_close_releases:
  assumes "env_ok e" "bufs_ok (m_vq (g_tr g0))" "(winsys_step e)\<^sup>*\<^sup>* (opened_client, g0) (uc, g)"
    and "clientClose e uc g = (ret, uc', g')"
  shows "ret = kIOReturnSuccess \<and> g_wired g' = g_wired g0 \<and> g_refs g' = g_refs g0 \<and> (\<forall>n. held uc' n = 0)"
proof -
  have i: "client_inv (g_wired g0) (g_refs g0) uc g"
    using winsys_run_inv [OF assms(3,1)] opened_inv [of g0] assms(2) by simp
  from clientClose_releases [OF assms(4) i] show ?thesis
    by (simp add: client_inv_def fun_eq_iff)
qed

theorem winsys_close_releases_witness:
  "\<exists>uc g ret uc' g'. (winsys_step sample_env)\<^sup>*\<^sup>* (opened_client, sample_gpu) (uc, g)
     \<and> findUserBacking 0x100 (m_user_backings uc) = Some (sample_desc 0 4096)
     \<and> clientClose sample_env uc g = (ret, uc', g') \<and> g_wired g' = g_wired sample_gpu"
proof -
  obtain uc g where r: "(winsys_step sample_env)\<^sup>*\<^sup>* (opened_client, sample_gpu) (uc, g)"
    "findUserBacking 0x100 (m_user_backings uc) = Some (sample_desc 0 4096)" using sample_run by blast
  obtain ret uc' g' where c: "clientClose sample_env uc g = (ret, uc', g')" by (rule prod_cases3)
  from winsys_close_releases [OF sample_env_ok sample_gpu_bufs r(1) c] r c show ?thesis by blast
qed

end
