(* ===== verification/Pci_Caps.thy ===== *)
theory Pci_Caps
  imports Prelude
begin

text \<open>
  How the driver finds its registers: the walk over the PCI capability list in configuration space with
  the fixed layout it falls back to, the translation of BAR numbers to IOKit mappings with its cache, and the
  location of the common and notify configuration.
\<close>

unbundle bit_operations_syntax

section \<open>The device as the PCI family presents it\<close>

text \<open>
  A mapping: the IOKit index it was made from, its physical address and its length. \<open>cfg8\<close> and \<open>cfg32\<close>:
  configuration space reads. \<open>dev_mem i\<close>: the physical address of \<^verbatim>\<open>getDeviceMemoryWithIndex(i)\<close>;
  \<open>dev_map i\<close>: \<^verbatim>\<open>mapDeviceMemoryWithIndex(i)\<close>.
\<close>

record pci_map =
  pm_index :: nat
  pm_phys :: u64
  pm_len :: nat

record pci_dev =
  cfg8 :: "nat \<Rightarrow> u8"
  cfg32 :: "nat \<Rightarrow> u32"
  dev_mem :: "nat \<Rightarrow> u64 option"
  dev_map :: "nat \<Rightarrow> pci_map option"

abbreviation (input) VIRTIO_PCI_CAP_COMMON_CFG :: u8 where "VIRTIO_PCI_CAP_COMMON_CFG \<equiv> 1"
abbreviation (input) VIRTIO_PCI_CAP_NOTIFY_CFG :: u8 where "VIRTIO_PCI_CAP_NOTIFY_CFG \<equiv> 2"
abbreviation (input) VIRTIO_PCI_CAP_ISR_CFG :: u8 where "VIRTIO_PCI_CAP_ISR_CFG \<equiv> 3"
abbreviation (input) VIRTIO_PCI_CAP_DEVICE_CFG :: u8 where "VIRTIO_PCI_CAP_DEVICE_CFG \<equiv> 4"

section \<open>The capability list\<close>

definition in_caps :: "u8 \<Rightarrow> bool" where
  "in_caps p \<longleftrightarrow> p \<ge> 0x40 \<and> p < 0xfc"

definition cap_matches :: "pci_dev \<Rightarrow> u8 \<Rightarrow> u8 \<Rightarrow> bool" where
  "cap_matches d ty p \<longleftrightarrow> cfg8 d (unat p) = 0x09 \<and> cfg8 d (unat p + 3) = ty"

definition cap_data :: "pci_dev \<Rightarrow> u8 \<Rightarrow> u8 \<times> u32 \<times> u32" where
  "cap_data d p = (cfg8 d (unat p + 4), cfg32 d (unat p + 8), cfg32 d (unat p + 12))"

text \<open>
  The walk. \<open>fuel\<close> bounds the number of capabilities visited; the outer \<open>None\<close> means the loop is still
  running, the inner one that the list ended without a match.
\<close>

fun cap_walk :: "nat \<Rightarrow> pci_dev \<Rightarrow> u8 \<Rightarrow> u8 \<Rightarrow> u8 option option" where
  "cap_walk 0 d ty p = None"
| "cap_walk (Suc fuel) d ty p =
     (if \<not> in_caps p then Some None
      else if cap_matches d ty p then Some (Some p)
      else let cap_next = cfg8 d (unat p + 1)
           in if cap_next = 0 \<or> cap_next = p then Some None else cap_walk fuel d ty cap_next)"

text \<open>The layout used when the list has no match.\<close>

definition cap_fallback :: "u8 \<Rightarrow> (u8 \<times> u32 \<times> u32) option" where
  "cap_fallback ty =
     (if ty = VIRTIO_PCI_CAP_COMMON_CFG then Some (2, 0x1000, 0x800)
      else if ty = VIRTIO_PCI_CAP_ISR_CFG then Some (2, 0x1800, 0x800)
      else if ty = VIRTIO_PCI_CAP_DEVICE_CFG then Some (2, 0x2000, 0x1000)
      else if ty = VIRTIO_PCI_CAP_NOTIFY_CFG then Some (2, 0x3000, 0x1000)
      else None)"

text \<open>There are 188 possible positions; 189 steps are enough for every list that ends.\<close>

definition findVirtIOCapability :: "pci_dev option \<Rightarrow> u8 \<Rightarrow> (u8 \<times> u32 \<times> u32) option option" where
  "findVirtIOCapability pd ty =
     (case pd of
        None \<Rightarrow> Some None
      | Some d \<Rightarrow>
          (case cap_walk 189 d ty (cfg8 d 0x34) of
             None \<Rightarrow> None
           | Some (Some p) \<Rightarrow> Some (Some (cap_data d p))
           | Some None \<Rightarrow> Some (cap_fallback ty)))"

text \<open>The second walk, for the notify multiplier. It has no check for a capability that points to itself.\<close>

fun mult_walk :: "nat \<Rightarrow> pci_dev \<Rightarrow> u8 \<Rightarrow> u32 option" where
  "mult_walk 0 d p = None"
| "mult_walk (Suc fuel) d p =
     (if \<not> in_caps p then Some 0
      else if cap_matches d VIRTIO_PCI_CAP_NOTIFY_CFG p then Some (cfg32 d (unat p + 16))
      else mult_walk fuel d (cfg8 d (unat p + 1)))"

definition readNotifyConfig :: "pci_dev option \<Rightarrow> (u8 \<times> u32 \<times> u32) option option" where
  "readNotifyConfig pd =
     (case pd of
        None \<Rightarrow> Some None
      | Some d \<Rightarrow>
          (case findVirtIOCapability pd VIRTIO_PCI_CAP_NOTIFY_CFG of
             None \<Rightarrow> None
           | Some None \<Rightarrow> Some None
           | Some (Some (bar_idx, offset, _)) \<Rightarrow>
               map_option (\<lambda>mult. Some (bar_idx, offset, mult)) (mult_walk 189 d (cfg8 d 0x34))))"

section \<open>Mapping a BAR\<close>

text \<open>
  \<open>m_bar_maps\<close>: the cache, one entry per BAR. \<open>map_refs i\<close>: the references held to mappings made from
  index \<open>i\<close> (making a mapping counts one).
\<close>

record bar_cache =
  m_bar_maps :: "nat \<Rightarrow> pci_map option"
  map_refs :: "nat \<Rightarrow> int"

definition pm_retain :: "pci_map \<Rightarrow> bar_cache \<Rightarrow> bar_cache" where
  "pm_retain m c = c\<lparr>map_refs := (map_refs c)(pm_index m := map_refs c (pm_index m) + 1)\<rparr>"

definition pm_release :: "pci_map \<Rightarrow> bar_cache \<Rightarrow> bar_cache" where
  "pm_release m c = c\<lparr>map_refs := (map_refs c)(pm_index m := map_refs c (pm_index m) - 1)\<rparr>"

text \<open>
  The loop over the six indices: each is mapped and compared; the first with the address is kept with its
  reference, the others are released.
\<close>

fun match_index :: "pci_dev \<Rightarrow> u64 \<Rightarrow> nat list \<Rightarrow> bar_cache \<Rightarrow> pci_map option \<times> bar_cache" where
  "match_index d phys [] c = (None, c)"
| "match_index d phys (i # is) c =
     (case dev_map d i of
        None \<Rightarrow> match_index d phys is c
      | Some m \<Rightarrow>
          let c1 = pm_retain m c
          in if pm_phys m = phys then (Some m, c1) else match_index d phys is (pm_release m c1))"

definition bar_address :: "pci_dev \<Rightarrow> u8 \<Rightarrow> u64 option" where
  "bar_address d bar =
     (let bar_offset = 0x10 + unat bar * 4; bar_low = cfg32 d bar_offset
      in if bar_low = 0 \<or> bar_low = 0xFFFFFFFF then None
         else if bar_low AND 1 \<noteq> 0 then None
         else let phys = (if bar_low AND 6 = 4
                          then push_bit 32 (ucast (cfg32 d (bar_offset + 4))) OR ucast (bar_low AND 0xFFFFFFF0)
                          else ucast (bar_low AND 0xFFFFFFF0))
              in if phys = 0 then None else Some phys)"

text \<open>\<open>want_index\<close>: the caller passed a place for the IOKit index; on a cache hit it is found by walking again.\<close>

definition mapBarByNumber ::
  "pci_dev option \<Rightarrow> u8 \<Rightarrow> bool \<Rightarrow> bar_cache \<Rightarrow> pci_map option \<times> nat option \<times> bar_cache" where
  "mapBarByNumber pd bar want_index c =
     (case pd of
        None \<Rightarrow> (None, None, c)
      | Some d \<Rightarrow>
          if bar \<ge> 6 then (None, None, c)
          else case m_bar_maps c (unat bar) of
            Some m \<Rightarrow>
              (case (if want_index then match_index d (pm_phys m) [0..<6] c else (None, c)) of
                 (None, c1) \<Rightarrow> (Some m, None, pm_retain m c1)
               | (Some t, c1) \<Rightarrow> (Some m, Some (pm_index t), pm_retain m (pm_release t c1)))
          | None \<Rightarrow>
              (case bar_address d bar of
                 None \<Rightarrow> (None, None, c)
               | Some phys \<Rightarrow>
                   (case match_index d phys [0..<6] c of
                      (None, c1) \<Rightarrow> (None, None, c1)
                    | (Some m, c1) \<Rightarrow>
                        (Some m, if want_index then Some (pm_index m) else None,
                         pm_retain m (c1\<lparr>m_bar_maps := (m_bar_maps c1)(unat bar \<mapsto> m)\<rparr>)))))"

section \<open>The common configuration\<close>

text \<open>The loop over device memory: it stops at the first gap and compares the low 32 bits of the address.\<close>

definition common_bar_address :: "pci_dev \<Rightarrow> u8 \<Rightarrow> u64" where
  "common_bar_address d bar =
     (let r = cfg32 d (0x10 + unat bar * 4)
      in if r AND 4 \<noteq> 0
         then push_bit 32 (ucast (cfg32 d (0x10 + (unat bar + 1) * 4))) OR (ucast r AND 0xFFFFFFF0)
         else ucast r AND 0xFFFFFFF0)"

fun match_memory :: "pci_dev \<Rightarrow> u64 \<Rightarrow> nat list \<Rightarrow> pci_map option" where
  "match_memory d phys [] = None"
| "match_memory d phys (i # is) =
     (case dev_mem d i of
        None \<Rightarrow> None
      | Some a \<Rightarrow> if a AND 0xFFFFFFF0 = phys AND 0xFFFFFFF0 then dev_map d i else match_memory d phys is)"

text \<open>The result: offset, BAR and mapping. The sum in the size check is a 32-bit one.\<close>

definition readCommonConfig :: "pci_dev option \<Rightarrow> (u32 \<times> u8 \<times> pci_map) option option" where
  "readCommonConfig pd =
     (case pd of
        None \<Rightarrow> Some None
      | Some d \<Rightarrow>
          (case findVirtIOCapability pd VIRTIO_PCI_CAP_COMMON_CFG of
             None \<Rightarrow> None
           | Some None \<Rightarrow> Some None
           | Some (Some (bar_idx, offset, _)) \<Rightarrow>
               let m1 = match_memory d (common_bar_address d bar_idx) [0..<6];
                   m2 = (case m1 of Some m \<Rightarrow> Some m | None \<Rightarrow> dev_map d (unat bar_idx));
                   m3 = (case m2 of Some m \<Rightarrow> Some m | None \<Rightarrow> if bar_idx = 4 then dev_map d 1 else None)
               in case m3 of
                    None \<Rightarrow> Some None
                  | Some m \<Rightarrow>
                      if pm_len m < unat (offset + 0x38) then Some None
                      else Some (Some (offset, bar_idx, m))))"

section \<open>The list as a specification\<close>

text \<open>\<open>cap_chain d p cs\<close>: starting at \<open>p\<close>, the list consists of exactly the capabilities at \<open>cs\<close> and ends.\<close>

fun cap_chain :: "pci_dev \<Rightarrow> u8 \<Rightarrow> u8 list \<Rightarrow> bool" where
  "cap_chain d p [] \<longleftrightarrow> \<not> in_caps p"
| "cap_chain d p (c # cs) \<longleftrightarrow> c = p \<and> in_caps p \<and>
     (let n = cfg8 d (unat p + 1) in if n = 0 \<or> n = p then cs = [] else cap_chain d n cs)"

lemma cap_chain_unique: "cap_chain d p cs \<Longrightarrow> cap_chain d p cs' \<Longrightarrow> cs = cs'"
proof (induction cs arbitrary: p cs')
  case Nil
  then show ?case by (cases cs') auto
next
  case (Cons c cs)
  then show ?case by (cases cs') (auto simp: Let_def split: if_splits)
qed

lemma cap_chain_suffix:
  "cap_chain d p cs \<Longrightarrow> x \<in> set cs \<Longrightarrow> \<exists>ys zs. cs = ys @ zs \<and> cap_chain d x zs \<and> zs \<noteq> []"
proof (induction cs arbitrary: p)
  case (Cons c cs)
  show ?case
  proof (cases "x = c")
    case True
    then show ?thesis using Cons.prems by (intro exI [of _ "[]"] exI [of _ "c # cs"]) auto
  next
    case False
    with Cons.prems obtain n where "cap_chain d n cs" "x \<in> set cs"
      by (auto simp: Let_def split: if_splits)
    with Cons.IH obtain ys zs where "cs = ys @ zs" "cap_chain d x zs" "zs \<noteq> []" by blast
    then show ?thesis by (intro exI [of _ "c # ys"] exI [of _ zs]) simp
  qed
qed simp

lemma cap_chain_distinct: "cap_chain d p cs \<Longrightarrow> distinct cs"
proof (induction cs arbitrary: p)
  case (Cons c cs)
  have "c \<notin> set cs"
  proof
    assume "c \<in> set cs"
    then obtain n where n: "cap_chain d n cs" using Cons.prems by (auto simp: Let_def split: if_splits)
    from cap_chain_suffix [OF this \<open>c \<in> set cs\<close>] obtain ys zs where z: "cs = ys @ zs" "cap_chain d c zs" by blast
    have "cap_chain d c (c # cs)" using Cons.prems by simp
    from cap_chain_unique [OF this z(2)] z(1) show False by (metis append_eq_Cons_conv length_append
        length_Cons less_add_same_cancel2 not_add_less2 Suc_n_not_le_n le_add2)
  qed
  moreover have "distinct cs" using Cons by (cases cs) (auto simp: Let_def split: if_splits)
  ultimately show ?case by simp
qed simp

lemma cap_chain_range: "cap_chain d p cs \<Longrightarrow> x \<in> set cs \<Longrightarrow> in_caps x"
  by (induction cs arbitrary: p) (auto simp: Let_def split: if_splits)

lemma cap_chain_short:
  assumes "cap_chain d p cs"
  shows "length cs \<le> 188"
proof -
  have "unat ` set cs \<subseteq> {64..<252}"
    using cap_chain_range [OF assms] by (auto simp: in_caps_def word_le_nat_alt word_less_nat_alt)
  then have "card (unat ` set cs) \<le> 188" using card_mono [of "{64..<252 :: nat}"] by fastforce
  moreover have "inj_on unat (set cs)" by (simp add: inj_on_def word_unat_eq_iff)
  ultimately show ?thesis
    using distinct_card [OF cap_chain_distinct [OF assms]] by (simp add: card_image)
qed

lemma cap_walk_chain:
  "cap_chain d p cs \<Longrightarrow> length cs < fuel \<Longrightarrow> cap_walk fuel d ty p = Some (find (cap_matches d ty) cs)"
proof (induction cs arbitrary: p fuel)
  case Nil
  then show ?case by (cases fuel) auto
next
  case (Cons c cs)
  then show ?case by (cases fuel) (auto simp: Let_def split: if_splits)
qed


lemma mult_walk_chain:
  "cap_chain d p cs \<Longrightarrow> length cs < fuel \<Longrightarrow> find (cap_matches d VIRTIO_PCI_CAP_NOTIFY_CFG) cs = Some c
     \<Longrightarrow> mult_walk fuel d p = Some (cfg32 d (unat c + 16))"
proof (induction cs arbitrary: p fuel)
  case (Cons x cs)
  then show ?case by (cases fuel) (auto simp: Let_def split: if_splits)
qed simp

lemma pm_balance [simp]: "pm_release m (pm_retain m c) = c"
  by (simp add: pm_release_def pm_retain_def)

lemma match_index_result:
  assumes "match_index d phys is c = (r, c')"
  shows "case r of None \<Rightarrow> c' = c
       | Some m \<Rightarrow> c' = pm_retain m c \<and> pm_phys m = phys \<and> (\<exists>i\<in>set is. dev_map d i = Some m)"
  using assms
proof (induction "is")
  case Nil
  then show ?case by auto
next
  case (Cons i "is")
  show ?case
  proof (cases "\<exists>m. dev_map d i = Some m \<and> pm_phys m = phys")
    case True
    then obtain m where m: "dev_map d i = Some m" "pm_phys m = phys" by blast
    then have "r = Some m" "c' = pm_retain m c" using Cons.prems by (simp_all add: Let_def)
    with m show ?thesis by simp
  next
    case False
    then have "match_index d phys is c = (r, c')"
      using Cons.prems by (auto simp: Let_def split: option.splits)
    from Cons.IH [OF this] show ?thesis by (auto split: option.splits)
  qed
qed

section \<open>Properties\<close>

text \<open>The capability search is correct on every list that ends, however its entries are ordered: it returns the
  location stored in the first vendor capability of the wanted type, or the fixed layout if there is none, and it
  always returns; in particular a list that ends has at most 188 entries, none visited twice.\<close>

theorem capability_first_match:
  assumes "cap_chain d (cfg8 d 0x34) cs"
  shows "findVirtIOCapability (Some d) ty =
           Some (case find (cap_matches d ty) cs of Some p \<Rightarrow> Some (cap_data d p) | None \<Rightarrow> cap_fallback ty)
     \<and> length cs \<le> 188 \<and> distinct cs"
proof -
  have "cap_walk 189 d ty (cfg8 d 0x34) = Some (find (cap_matches d ty) cs)"
    using cap_walk_chain [OF assms] cap_chain_short [OF assms] by simp
  then have "findVirtIOCapability (Some d) ty =
           Some (case find (cap_matches d ty) cs of Some p \<Rightarrow> Some (cap_data d p) | None \<Rightarrow> cap_fallback ty)"
    by (cases "find (cap_matches d ty) cs") (simp_all add: findVirtIOCapability_def)
  then show ?thesis using cap_chain_short [OF assms] cap_chain_distinct [OF assms] by blast
qed

text \<open>A device whose list is 0x40 (another vendor's capability), then 0x50 (the common configuration), then the end.\<close>

definition sample_pci :: pci_dev where
  "sample_pci = \<lparr>cfg8 = (\<lambda>n. if n = 0x34 then 0x40 else if n = 0x40 then 0x09 else if n = 0x41 then 0x50
       else if n = 0x43 then 5 else if n = 0x50 then 0x09 else if n = 0x53 then 1 else if n = 0x54 then 4 else 0),
     cfg32 = (\<lambda>n. if n = 0x58 then 0x1000 else if n = 0x5c then 0x38 else if n = 0x20 then 0x10000004
       else if n = 0x24 then 0xff else 0),
     dev_mem = (\<lambda>i. if i = 0 then Some 0x80000000 else if i = 1 then Some 0xff10000000 else None),
     dev_map = (\<lambda>i. if i = 0 then Some \<lparr>pm_index = 0, pm_phys = 0x80000000, pm_len = 0x1000\<rparr>
       else if i = 1 then Some \<lparr>pm_index = 1, pm_phys = 0xff10000000, pm_len = 0x4000\<rparr> else None)\<rparr>"

lemma sample_chain: "cap_chain sample_pci (cfg8 sample_pci 0x34) [0x40, 0x50]"
  by (simp add: sample_pci_def in_caps_def Let_def)

theorem capability_first_match_witness:
  "findVirtIOCapability (Some sample_pci) 1 = Some (Some (4, 0x1000, 0x38))"
proof -
  have "find (cap_matches sample_pci 1) [0x40, 0x50] = Some 0x50"
    by (simp add: cap_matches_def sample_pci_def)
  moreover have "cap_data sample_pci 0x50 = (4, 0x1000, 0x38)"
    by (simp add: cap_data_def sample_pci_def)
  ultimately show ?thesis using capability_first_match [OF sample_chain, of 1] by simp
qed

text \<open>A list with a cycle hangs the driver: two capabilities that point to each other keep the search running for
  ever, and one that points to itself, which the search detects, keeps the notify walk running for ever.\<close>

theorem capability_cycle_hangs:
  assumes "in_caps p" "in_caps q" "\<not> cap_matches d ty p" "\<not> cap_matches d ty q"
    "cfg8 d (unat p + 1) = q" "cfg8 d (unat q + 1) = p" "p \<noteq> q"
    and "in_caps s" "\<not> cap_matches d VIRTIO_PCI_CAP_NOTIFY_CFG s" "cfg8 d (unat s + 1) = s"
  shows "cap_walk fuel d ty p = None \<and> cap_walk fuel d ty q = None \<and> mult_walk fuel d s = None
     \<and> cap_walk (Suc fuel) d VIRTIO_PCI_CAP_NOTIFY_CFG s = Some None"
proof -
  have "p \<noteq> 0" "q \<noteq> 0" using assms(1,2) by (auto simp: in_caps_def)
  then have "cap_walk fuel d ty p = None \<and> cap_walk fuel d ty q = None"
    using assms(1-7) by (induction fuel) (simp_all add: Let_def)
  moreover have "mult_walk fuel d s = None"
    using assms(8-10) by (induction fuel) simp_all
  ultimately show ?thesis using assms(8-10) by (simp add: Let_def)
qed

definition cyclic_pci :: pci_dev where
  "cyclic_pci = sample_pci\<lparr>cfg8 := (\<lambda>n. if n = 0x34 then 0x40 else if n = 0x41 then 0x50 else if n = 0x51 then 0x40
     else if n = 0x61 then 0x60 else 0)\<rparr>"

theorem capability_cycle_hangs_witness:
  "cap_walk 1000 cyclic_pci 1 0x40 = None \<and> cap_walk 1000 cyclic_pci 1 0x50 = None
     \<and> mult_walk 1000 cyclic_pci 0x60 = None \<and> cap_walk (Suc 1000) cyclic_pci 2 0x60 = Some None"
  by (rule capability_cycle_hangs) (simp_all add: in_caps_def cap_matches_def cyclic_pci_def)

text \<open>Mapping a BAR is cached and balanced: a success returns a mapping whose physical address is the BAR's or is the
  cached one; the caller gains exactly one reference, the cache one more on the first call, no other mapping's
  references change, and asking again returns the same mapping. A failure changes nothing.\<close>

theorem mapBarByNumber_cached:
  assumes "mapBarByNumber (Some d) bar want c = (r, ix, c')"
  shows "case r of None \<Rightarrow> c' = c
     | Some m \<Rightarrow> m_bar_maps c' = (m_bar_maps c)(unat bar \<mapsto> m)
         \<and> (m_bar_maps c (unat bar) = None \<longrightarrow> Some (pm_phys m) = bar_address d bar)
         \<and> map_refs c' = (map_refs c)(pm_index m := map_refs c (pm_index m)
              + (if m_bar_maps c (unat bar) = None then 2 else 1))
         \<and> fst (mapBarByNumber (Some d) bar want' c') = Some m"
proof (cases "bar \<ge> 6")
  case True
  then show ?thesis using assms by (simp add: mapBarByNumber_def)
next
  case low: False
  have again: "fst (mapBarByNumber (Some d) bar want' h) = Some m" if "m_bar_maps h (unat bar) = Some m" for h m
    using low that by (simp add: mapBarByNumber_def split: prod.splits option.splits)
  show ?thesis
  proof (cases "m_bar_maps c (unat bar)")
    case (Some m)
    obtain t c1 where x: "(if want then match_index d (pm_phys m) [0..<6] c else (None, c)) = (t, c1)" by fastforce
    have c1: "case t of None \<Rightarrow> c1 = c | Some y \<Rightarrow> c1 = pm_retain y c"
      using x match_index_result [of d "pm_phys m" "[0..<6]" c t c1] by (auto split: if_splits option.splits)
    have "r = Some m \<and> c' = pm_retain m c"
      using assms low Some c1 by (auto simp: mapBarByNumber_def x split: option.splits)
    then show ?thesis using Some again by (simp add: pm_retain_def fun_upd_idem)
  next
    case None
    show ?thesis
    proof (cases "bar_address d bar")
      case None
      then show ?thesis using assms low \<open>m_bar_maps c (unat bar) = None\<close> by (simp add: mapBarByNumber_def)
    next
      case (Some phys)
      obtain t c1 where x: "match_index d phys [0..<6] c = (t, c1)" by fastforce
      show ?thesis
      proof (cases t)
        case None
        then show ?thesis
          using assms low Some x match_index_result [OF x] \<open>m_bar_maps c (unat bar) = None\<close>
          by (simp add: mapBarByNumber_def)
      next
        case (Some m)
        have c1: "c1 = pm_retain m c" "pm_phys m = phys" using match_index_result [OF x] Some by auto
        have "r = Some m \<and> c' = pm_retain m (c1\<lparr>m_bar_maps := (m_bar_maps c1)(unat bar \<mapsto> m)\<rparr>)"
          using assms low x Some \<open>bar_address d bar = Some phys\<close> \<open>m_bar_maps c (unat bar) = None\<close>
          by (auto simp: mapBarByNumber_def)
        then show ?thesis
          using c1 again \<open>bar_address d bar = Some phys\<close> \<open>m_bar_maps c (unat bar) = None\<close>
          by (simp add: pm_retain_def add.commute)
      qed
    qed
  qed
qed

theorem mapBarByNumber_cached_witness:
  "\<exists>r ix c'. mapBarByNumber (Some sample_pci) 4 True \<lparr>m_bar_maps = \<lambda>_. None, map_refs = \<lambda>_. 0\<rparr> = (r, ix, c')
     \<and> r = Some \<lparr>pm_index = 1, pm_phys = 0xff10000000, pm_len = 0x4000\<rparr> \<and> map_refs c' 1 = 2
     \<and> fst (mapBarByNumber (Some sample_pci) 4 False c') = r"
proof -
  let ?c = "\<lparr>m_bar_maps = \<lambda>_. None, map_refs = \<lambda>_. 0\<rparr> :: bar_cache"
  obtain r ix c' where x: "mapBarByNumber (Some sample_pci) 4 True ?c = (r, ix, c')" by (rule prod_cases3)
  have "[0..<6 :: nat] = [0, 1, 2, 3, 4, 5]" by (simp add: upt_rec)
  then have r: "r = Some \<lparr>pm_index = 1, pm_phys = 0xff10000000, pm_len = 0x4000\<rparr>"
    using x by (simp add: mapBarByNumber_def bar_address_def sample_pci_def Let_def)
  from mapBarByNumber_cached [OF x, of False] x r show ?thesis by simp
qed

text \<open>The common configuration lies inside its mapping, provided the capability's offset does not make the 32-bit
  sum of the check wrap around.\<close>

theorem readCommonConfig_bounds:
  assumes "readCommonConfig (Some d) = Some (Some (offset, bar, m))" "unat offset + 0x38 < 2 ^ 32"
  shows "unat offset + 0x38 \<le> pm_len m \<and> (\<exists>i. dev_map d i = Some m)"
proof -
  have u: "unat (offset + 0x38) = unat offset + 0x38" using assms(2) by (simp add: unat_word_ariths)
  have mm: "match_memory d phys is = Some x \<Longrightarrow> \<exists>i. dev_map d i = Some x" for phys "is" x
    by (induction "is") (auto split: option.splits if_splits)
  show ?thesis
    using assms(1) u mm by (auto simp: readCommonConfig_def Let_def split: option.splits if_splits prod.splits)
qed

lemma sample_common:
  assumes "cfg8 d = cfg8 sample_pci" "dev_mem d = dev_mem sample_pci" "dev_map d = dev_map sample_pci"
    "cfg32 d 0x20 = 0x10000004" "cfg32 d 0x24 = 0xff" "unat (cfg32 d 0x58 + 0x38) \<le> 0x4000"
  shows "readCommonConfig (Some d)
     = Some (Some (cfg32 d 0x58, 4, \<lparr>pm_index = 1, pm_phys = 0xff10000000, pm_len = 0x4000\<rparr>))"
proof -
  have "cap_chain d (cfg8 d 0x34) [0x40, 0x50]" by (simp add: assms(1) sample_pci_def in_caps_def Let_def)
  then have "findVirtIOCapability (Some d) 1 = Some (Some (cap_data d 0x50))"
    using cap_walk_chain [of d _ "[0x40, 0x50]" 189 1]
    by (simp add: findVirtIOCapability_def cap_matches_def assms(1) sample_pci_def)
  moreover have "cap_data d 0x50 = (4, cfg32 d 0x58, cfg32 d 0x5c)"
    by (simp add: cap_data_def assms(1) sample_pci_def)
  moreover have "common_bar_address d 4 = 0xff10000000"
    by (simp add: common_bar_address_def assms(4,5))
  moreover have "[0..<6 :: nat] = [0, 1, 2, 3, 4, 5]" by (simp add: upt_rec)
  then have "match_memory d 0xff10000000 [0..<6] = Some \<lparr>pm_index = 1, pm_phys = 0xff10000000, pm_len = 0x4000\<rparr>"
    by (simp add: assms(2,3) sample_pci_def)
  ultimately show ?thesis using assms(6) by (simp add: readCommonConfig_def Let_def)
qed

theorem readCommonConfig_bounds_witness:
  "readCommonConfig (Some sample_pci) = Some (Some (0x1000, 4, \<lparr>pm_index = 1, pm_phys = 0xff10000000, pm_len = 0x4000\<rparr>))
     \<and> unat (0x1000 :: u32) + 0x38 \<le> pm_len \<lparr>pm_index = 1, pm_phys = 0xff10000000, pm_len = 0x4000\<rparr>"
proof -
  have r: "readCommonConfig (Some sample_pci)
      = Some (Some (0x1000, 4, \<lparr>pm_index = 1, pm_phys = 0xff10000000, pm_len = 0x4000\<rparr>))"
    using sample_common [of sample_pci] by (simp add: sample_pci_def)
  with readCommonConfig_bounds [OF r] show ?thesis by simp
qed

text \<open>With an offset near the top of the 32-bit range the check passes for registers far outside the mapping.\<close>

lemma common_config_check_wraps:
  "readCommonConfig (Some (sample_pci\<lparr>cfg32 := (cfg32 sample_pci)(0x58 := 0xFFFFFFD0)\<rparr>))
     = Some (Some (0xFFFFFFD0, 4, \<lparr>pm_index = 1, pm_phys = 0xff10000000, pm_len = 0x4000\<rparr>))"
  using sample_common [of "sample_pci\<lparr>cfg32 := (cfg32 sample_pci)(0x58 := 0xFFFFFFD0)\<rparr>"]
  by (simp add: sample_pci_def)

end
