(* ===== verification/Queue_Setup.thy ===== *)
theory Queue_Setup
  imports Gpu Pci_Caps
begin

text \<open>
  Bringing the device up: feature negotiation, the set-up of the control and the cursor queue through the common
  configuration registers, and their teardown. The registers are read as a function of the writes so far, so
  the device may react to them in any way.
\<close>

section \<open>Parameters and state\<close>

text \<open>
  \<open>reg8\<close>, \<open>reg16\<close> and \<open>reg32\<close>: register reads at an offset of the common configuration after a history of writes.
  \<open>vring_alloc\<close>: physical address of the contiguous ring memory of the given size. \<open>free_alloc\<close>: whether the
  array of the free list could be allocated. \<open>cmd_alloc\<close> and \<open>resp_alloc\<close>: physical addresses of the buffers.
\<close>

record setup_env =
  reg8 :: "io_event list \<Rightarrow> nat \<Rightarrow> u8"
  reg16 :: "io_event list \<Rightarrow> nat \<Rightarrow> u16"
  reg32 :: "io_event list \<Rightarrow> nat \<Rightarrow> u32"
  vring_alloc :: "queue_id \<Rightarrow> u32 \<Rightarrow> u64 option"
  free_alloc :: "queue_id \<Rightarrow> bool"
  cmd_alloc :: "queue_id \<Rightarrow> u64 option"
  resp_alloc :: "queue_id \<Rightarrow> u64 option"

text \<open>
  \<open>m_common_cfg\<close>: the offset of the mapped registers, \<open>None\<close> when the pointer is null. \<open>m_vring_mem\<close> and
  \<open>m_cursor_vring_mem\<close>: the ring allocations.
\<close>

record hw =
  hw_tr :: transport
  m_common_cfg :: "u32 option"
  m_common_map :: "pci_map option"
  m_vring_mem :: "u64 option"
  m_cursor_vring_mem :: "u64 option"

abbreviation (input) VIRTIO_COMMON_DF_SELECT :: nat where "VIRTIO_COMMON_DF_SELECT \<equiv> 0x00"
abbreviation (input) VIRTIO_COMMON_DF :: nat where "VIRTIO_COMMON_DF \<equiv> 0x04"
abbreviation (input) VIRTIO_COMMON_TF_SELECT :: nat where "VIRTIO_COMMON_TF_SELECT \<equiv> 0x08"
abbreviation (input) VIRTIO_COMMON_TF :: nat where "VIRTIO_COMMON_TF \<equiv> 0x0C"
abbreviation (input) VIRTIO_COMMON_DEVICE_STATUS :: nat where "VIRTIO_COMMON_DEVICE_STATUS \<equiv> 0x14"
abbreviation (input) VIRTIO_COMMON_Q_SELECT :: nat where "VIRTIO_COMMON_Q_SELECT \<equiv> 0x16"
abbreviation (input) VIRTIO_COMMON_Q_SIZE :: nat where "VIRTIO_COMMON_Q_SIZE \<equiv> 0x18"
abbreviation (input) VIRTIO_COMMON_Q_ENABLE :: nat where "VIRTIO_COMMON_Q_ENABLE \<equiv> 0x1C"
abbreviation (input) VIRTIO_COMMON_Q_NOTIFY_OFF :: nat where "VIRTIO_COMMON_Q_NOTIFY_OFF \<equiv> 0x1E"
abbreviation (input) VIRTIO_COMMON_Q_DESC_LOW :: nat where "VIRTIO_COMMON_Q_DESC_LOW \<equiv> 0x20"
abbreviation (input) VIRTIO_STATUS_ACKNOWLEDGE :: u8 where "VIRTIO_STATUS_ACKNOWLEDGE \<equiv> 1"
abbreviation (input) VIRTIO_STATUS_DRIVER :: u8 where "VIRTIO_STATUS_DRIVER \<equiv> 2"
abbreviation (input) VIRTIO_STATUS_FEATURES_OK :: u8 where "VIRTIO_STATUS_FEATURES_OK \<equiv> 8"
abbreviation (input) VIRTIO_STATUS_DRIVER_OK :: u8 where "VIRTIO_STATUS_DRIVER_OK \<equiv> 4"

definition reg_write :: "io_event list \<Rightarrow> transport \<Rightarrow> transport" where
  "reg_write ws t = t\<lparr>tr_trace := tr_trace t @ ws\<rparr>"

section \<open>Feature negotiation\<close>

definition negotiate_regs :: "setup_env \<Rightarrow> transport \<Rightarrow> bool \<times> transport" where
  "negotiate_regs e t =
     (let t1 = reg_write [Cfg_write32 VIRTIO_COMMON_DF_SELECT 0] t;
          dev_feat0 = reg32 e (tr_trace t1) VIRTIO_COMMON_DF;
          t2 = reg_write [Cfg_write32 VIRTIO_COMMON_DF_SELECT 1] t1;
          dev_feat1 = reg32 e (tr_trace t2) VIRTIO_COMMON_DF;
          drv_feat1 = (if dev_feat1 AND 1 \<noteq> 0 then 1 else 0);
          drv_feat0 = (if dev_feat0 AND 1 \<noteq> 0 then 1 else 0);
          t3 = reg_write [Cfg_write32 VIRTIO_COMMON_TF_SELECT 0, Cfg_write32 VIRTIO_COMMON_TF drv_feat0,
                          Cfg_write32 VIRTIO_COMMON_TF_SELECT 1, Cfg_write32 VIRTIO_COMMON_TF drv_feat1] t2;
          status = reg8 e (tr_trace t3) VIRTIO_COMMON_DEVICE_STATUS;
          t4 = reg_write [Cfg_write8 VIRTIO_COMMON_DEVICE_STATUS (status OR VIRTIO_STATUS_FEATURES_OK)] t3
      in (reg8 e (tr_trace t4) VIRTIO_COMMON_DEVICE_STATUS AND VIRTIO_STATUS_FEATURES_OK \<noteq> 0, t4))"

definition negotiateFeatures :: "setup_env \<Rightarrow> hw \<Rightarrow> bool \<times> hw" where
  "negotiateFeatures e s =
     (if m_common_cfg s = None then (False, s)
      else case negotiate_regs e (hw_tr s) of (ok, t) \<Rightarrow> (ok, s\<lparr>hw_tr := t\<rparr>))"

section \<open>One ring\<close>

text \<open>The addresses of the three parts, low and high words, written to the queue's registers.\<close>

definition ring_addresses :: "u64 \<Rightarrow> vring_layout \<Rightarrow> io_event list" where
  "ring_addresses phys lay =
     (let pair = (\<lambda>off (a :: u64). [Cfg_write32 off (ucast a), Cfg_write32 (off + 4) (ucast (drop_bit 32 a))])
      in pair 0x20 phys @ pair 0x28 (phys + ucast (avail_offset lay)) @ pair 0x30 (phys + ucast (used_offset lay)))"

text \<open>The zeroed ring memory and the queue's members after the pointers are set.\<close>

definition fresh_mem :: "vring_mem \<Rightarrow> vring_mem" where
  "fresh_mem m = \<lparr>desc_tab = (\<lambda>_. zero_desc), avail_flags_idx = 0, avail_ring = (\<lambda>_. 0), used_idx = 0,
     used_ring = (\<lambda>_. zero_used_elem), dma = dma m\<rparr>"

definition place_ring :: "u16 \<Rightarrow> virtqueue \<Rightarrow> virtqueue" where
  "place_ring qsize q = q\<lparr>vq_mapped := True, vq_size := qsize, vq_free_head := 0, vq_last_used := 0,
     vq_avail_idx := 0, vq_mem := fresh_mem (vq_mem q)\<rparr>"

section \<open>The cursor queue\<close>

definition setupCursorQueue :: "setup_env \<Rightarrow> hw \<Rightarrow> bool \<times> hw" where
  "setupCursorQueue e s =
     (let t1 = reg_write [Cfg_write16 VIRTIO_COMMON_Q_SELECT 1] (hw_tr s);
          offered = reg16 e (tr_trace t1) VIRTIO_COMMON_Q_SIZE
      in if offered = 0 then (False, s\<lparr>hw_tr := t1\<rparr>)
         else let qsize = clamp_qsize 16 offered;
                  t2 = reg_write [Cfg_write16 VIRTIO_COMMON_Q_SIZE qsize] t1;
                  t3 = t2\<lparr>m_cursor_notify_offset := ucast (reg16 e (tr_trace t2) VIRTIO_COMMON_Q_NOTIFY_OFF)\<rparr>;
                  lay = layout_vring qsize
              in case vring_alloc e Cursor (total_size lay) of
                   None \<Rightarrow> (False, s\<lparr>hw_tr := t3, m_cursor_vring_mem := None\<rparr>)
                 | Some phys \<Rightarrow>
                     let t4 = t3\<lparr>m_cursor_vq := place_ring qsize (m_cursor_vq t3)\<rparr>
                     in if \<not> free_alloc e Cursor
                        then (False, s\<lparr>hw_tr := t4\<lparr>m_cursor_vq := (m_cursor_vq t4)\<lparr>vq_free_next := []\<rparr>\<rparr>,
                                       m_cursor_vring_mem := None\<rparr>)
                        else
                          let q = (m_cursor_vq t4)\<lparr>vq_free_next := init_free_next qsize,
                                     vq_cmd_buf := map_option (\<lambda>a. (a, 128)) (cmd_alloc e Cursor),
                                     vq_resp_buf := map_option (\<lambda>a. (a, 64)) (resp_alloc e Cursor)\<rparr>;
                              s5 = s\<lparr>hw_tr := t4\<lparr>m_cursor_vq := q\<rparr>, m_cursor_vring_mem := Some phys\<rparr>
                          in if vq_cmd_buf q = None \<or> vq_resp_buf q = None then (False, s5)
                             else (True, s5\<lparr>hw_tr := reg_write (ring_addresses phys lay
                                     @ [Cfg_write16 VIRTIO_COMMON_Q_ENABLE 1, Cfg_write16 VIRTIO_COMMON_Q_SELECT 1])
                                   (t4\<lparr>m_cursor_vq := q\<lparr>vq_initialized := True\<rparr>\<rparr>)\<rparr>))"

section \<open>The control queue\<close>

text \<open>Steps 1 and 2: where the registers and the doorbells are.\<close>

definition setup_notify :: "pci_dev \<Rightarrow> (u8 \<times> u32 \<times> u32) option \<Rightarrow> transport \<Rightarrow> transport" where
  "setup_notify d cfg t =
     (case cfg of
        None \<Rightarrow> t
      | Some (notify_bar, notify_off, notify_mult) \<Rightarrow>
          let t1 = t\<lparr>m_notify_cap_offset := notify_off, m_notify_off_multiplier := notify_mult\<rparr>;
              t2 = (if m_notify_map t1 then t1
                    else t1\<lparr>m_notify_map := (dev_map d (unat notify_bar) \<noteq> None)\<rparr>)
          in if m_notify_map t2 then t2\<lparr>m_notify_base := True\<rparr> else t2)"

text \<open>Step 3: reset, acknowledge, negotiate; a failed negotiation is ignored.\<close>

definition setup_status :: "setup_env \<Rightarrow> transport \<Rightarrow> transport" where
  "setup_status e t =
     snd (negotiate_regs e (reg_write
       [Cfg_write8 VIRTIO_COMMON_DEVICE_STATUS 0, Cfg_write8 VIRTIO_COMMON_DEVICE_STATUS VIRTIO_STATUS_ACKNOWLEDGE,
        Cfg_write8 VIRTIO_COMMON_DEVICE_STATUS (VIRTIO_STATUS_ACKNOWLEDGE OR VIRTIO_STATUS_DRIVER)] t))"

text \<open>Steps 5 to 10: size, ring memory, free list, addresses and enable; the result carries the notify offset.\<close>

definition setup_ring :: "setup_env \<Rightarrow> hw \<Rightarrow> u16 option \<times> hw" where
  "setup_ring e s =
     (let t1 = reg_write [Cfg_write16 VIRTIO_COMMON_Q_SELECT 0] (hw_tr s);
          offered = reg16 e (tr_trace t1) VIRTIO_COMMON_Q_SIZE
      in if offered = 0 then (None, s\<lparr>hw_tr := t1\<rparr>)
         else let qsize = clamp_qsize 256 offered;
                  t2 = reg_write [Cfg_write16 VIRTIO_COMMON_Q_SIZE qsize] t1;
                  q_notify_off = reg16 e (tr_trace t2) VIRTIO_COMMON_Q_NOTIFY_OFF;
                  lay = layout_vring qsize
              in case vring_alloc e Control (total_size lay) of
                   None \<Rightarrow> (None, s\<lparr>hw_tr := t2, m_vring_mem := None\<rparr>)
                 | Some phys \<Rightarrow>
                     let t3 = t2\<lparr>m_vq := place_ring qsize (m_vq t2)\<rparr>
                     in if \<not> free_alloc e Control
                        then (None, s\<lparr>hw_tr := t3\<lparr>m_vq := (m_vq t3)\<lparr>vq_free_next := []\<rparr>\<rparr>, m_vring_mem := None\<rparr>)
                        else (Some q_notify_off,
                              s\<lparr>hw_tr := reg_write (ring_addresses phys lay @ [Cfg_write16 VIRTIO_COMMON_Q_ENABLE 1])
                                   (t3\<lparr>m_vq := (m_vq t3)\<lparr>vq_free_next := init_free_next qsize\<rparr>\<rparr>),
                                m_vring_mem := Some phys\<rparr>))"

text \<open>Steps 11 and 12: the cursor queue, driver-ready, the buffers.\<close>

definition setup_finish :: "setup_env \<Rightarrow> u16 \<Rightarrow> hw \<Rightarrow> bool \<times> hw" where
  "setup_finish e q_notify_off s =
     (let s1 = snd (setupCursorQueue e s); t1 = hw_tr s1;
          status = reg8 e (tr_trace t1) VIRTIO_COMMON_DEVICE_STATUS;
          t2 = reg_write [Cfg_write8 VIRTIO_COMMON_DEVICE_STATUS (status OR VIRTIO_STATUS_DRIVER_OK)] t1;
          q = (m_vq t2)\<lparr>vq_cmd_buf := map_option (\<lambda>a. (a, 4096)) (cmd_alloc e Control),
                        vq_resp_buf := map_option (\<lambda>a. (a, 4096)) (resp_alloc e Control)\<rparr>
      in if vq_cmd_buf q = None \<or> vq_resp_buf q = None then (False, s1\<lparr>hw_tr := t2\<lparr>m_vq := q\<rparr>\<rparr>)
         else (True, s1\<lparr>hw_tr := t2\<lparr>m_vq := q\<lparr>vq_initialized := True\<rparr>,
                                     m_notify_offset := ucast q_notify_off\<rparr>\<rparr>))"

definition setupControlVirtQueue :: "setup_env \<Rightarrow> pci_dev option \<Rightarrow> hw \<Rightarrow> (bool \<times> hw) option" where
  "setupControlVirtQueue e pd s =
     (case pd of
        None \<Rightarrow> Some (False, s)
      | Some d \<Rightarrow>
          (case readCommonConfig pd of
             None \<Rightarrow> None
           | Some None \<Rightarrow> Some (False, s)
           | Some (Some (common_off, _, common_map)) \<Rightarrow>
               (case readNotifyConfig pd of
                  None \<Rightarrow> None
                | Some cfg \<Rightarrow>
                    let s1 = s\<lparr>m_common_cfg := Some common_off, m_common_map := Some common_map,
                               hw_tr := setup_status e (setup_notify d cfg (hw_tr s))\<rparr>
                    in Some (case setup_ring e s1 of
                               (None, s2) \<Rightarrow> (False, s2)
                             | (Some q_notify_off, s2) \<Rightarrow> setup_finish e q_notify_off s2))))"

section \<open>Teardown\<close>

definition teardownControlVirtQueue :: "hw \<Rightarrow> hw" where
  "teardownControlVirtQueue s =
     (let t1 = (if vq_initialized (m_vq (hw_tr s)) \<and> m_common_cfg s \<noteq> None
                then reg_write [Cfg_write16 VIRTIO_COMMON_Q_SELECT 0, Cfg_write16 VIRTIO_COMMON_Q_ENABLE 0] (hw_tr s)
                else hw_tr s)
      in s\<lparr>hw_tr := t1\<lparr>m_vq := (m_vq t1)\<lparr>vq_initialized := False, vq_cmd_buf := None, vq_resp_buf := None,
                                  vq_free_next := [], vq_mapped := False, vq_size := 0\<rparr>\<rparr>,
           m_vring_mem := None, m_common_map := None, m_common_cfg := None\<rparr>)"

text \<open>The legacy queue buffers and the configuration map are dropped too; they hold no state the model has.\<close>

definition cleanupVirtIOGPU :: "hw \<Rightarrow> hw" where
  "cleanupVirtIOGPU s =
     (let s1 = teardownControlVirtQueue s
      in s1\<lparr>hw_tr := (hw_tr s1)\<lparr>m_notify_map := False\<rparr>\<rparr>)"

text \<open>The queue part of \<^verbatim>\<open>free\<close>.\<close>

definition free_cursor_queue :: "hw \<Rightarrow> hw" where
  "free_cursor_queue s = s\<lparr>hw_tr := (hw_tr s)\<lparr>m_cursor_vq := (m_cursor_vq (hw_tr s))\<lparr>vq_initialized := False,
     vq_free_next := [], vq_cmd_buf := None, vq_resp_buf := None\<rparr>\<rparr>, m_cursor_vring_mem := None\<rparr>"

section \<open>Lemmas\<close>

lemma reg_write_simps [simp]:
  "tr_trace (reg_write ws t) = tr_trace t @ ws" "m_vq (reg_write ws t) = m_vq t"
  "m_cursor_vq (reg_write ws t) = m_cursor_vq t" "m_notify_map (reg_write ws t) = m_notify_map t"
  "m_notify_base (reg_write ws t) = m_notify_base t"
  "m_notify_off_multiplier (reg_write ws t) = m_notify_off_multiplier t"
  by (simp_all add: reg_write_def)

lemma and_one_cases: "(if x AND 1 \<noteq> 0 then 1 else 0) = (x AND 1 :: u32)"
  by (simp add: and_one_eq odd_iff_mod_2_eq_one even_iff_mod_2_eq_zero)

text \<open>Negotiation makes seven register writes and changes nothing else.\<close>

lemma negotiate_frame:
  assumes "negotiate_regs e t = (ok, t')"
  shows "\<exists>ws. t' = reg_write ws t \<and> length ws = 7"
  using assms by (auto simp: negotiate_regs_def Let_def reg_write_def)

lemma setup_status_frame: "\<exists>ws. setup_status e t = reg_write (Cfg_write8 0x14 0 # ws) t"
proof -
  let ?t0 = "reg_write [Cfg_write8 0x14 0, Cfg_write8 0x14 1, Cfg_write8 0x14 (1 OR 2)] t"
  obtain ok t' where n: "negotiate_regs e ?t0 = (ok, t')" by fastforce
  from negotiate_frame [OF n] obtain ws where "t' = reg_write ws ?t0" by blast
  then show ?thesis using n by (auto simp: setup_status_def reg_write_def)
qed

lemma setup_notify_frame [simp]:
  "m_vq (setup_notify d cfg t) = m_vq t" "m_cursor_vq (setup_notify d cfg t) = m_cursor_vq t"
  "tr_trace (setup_notify d cfg t) = tr_trace t"
  by (auto simp: setup_notify_def Let_def split: option.splits prod.splits)

text \<open>What the cursor queue's set-up leaves: the control queue, and a cursor queue with buffers if it is live.\<close>

lemma setupCursorQueue_frame:
  assumes "setupCursorQueue e s = (ok, s')"
  shows "m_vq (hw_tr s') = m_vq (hw_tr s) \<and> m_vring_mem s' = m_vring_mem s
     \<and> m_notify_map (hw_tr s') = m_notify_map (hw_tr s) \<and> m_notify_base (hw_tr s') = m_notify_base (hw_tr s)
     \<and> m_notify_off_multiplier (hw_tr s') = m_notify_off_multiplier (hw_tr s)
     \<and> (\<exists>ws. tr_trace (hw_tr s') = tr_trace (hw_tr s) @ ws)
     \<and> (\<not> vq_initialized (m_cursor_vq (hw_tr s)) \<longrightarrow>
          vq_initialized (m_cursor_vq (hw_tr s')) = ok \<and> bufs_ok (m_cursor_vq (hw_tr s')))"
  using assms
  by (auto simp: setupCursorQueue_def Let_def place_ring_def bufs_ok_def split: if_splits option.splits)

lemma clamp_256:
  assumes "offered \<noteq> 0"
  shows "0 < clamp_qsize 256 offered \<and> clamp_qsize 256 offered \<le> 256"
  using clamp_qsize_cases [of offered 256] assms by (auto simp: word_gt_0)

lemma setup_ring_inv:
  assumes "setup_ring e s = (Some off, s')"
  shows "let q = m_vq (hw_tr s') in vq_mapped q \<and> vq_inv (map word_of_nat [0..<unat (vq_size q)]) q
     \<and> vq_idle q \<and> vq_initialized q = vq_initialized (m_vq (hw_tr s))"
  using assms clamp_256
  by (auto simp: setup_ring_def Let_def place_ring_def fresh_mem_def vq_inv_def vq_idle_def init_free_chain
      distinct_init_free split: if_splits option.splits)

lemma setup_ring_frame:
  assumes "setup_ring e s = (r, s')"
  shows "m_cursor_vq (hw_tr s') = m_cursor_vq (hw_tr s)
     \<and> vq_initialized (m_vq (hw_tr s')) = vq_initialized (m_vq (hw_tr s))"
  using assms by (auto simp: setup_ring_def Let_def place_ring_def split: if_splits option.splits)

lemma setup_ring_trace:
  assumes "setup_ring e s = (Some off, s')"
  shows "\<exists>phys. m_vring_mem s' = Some phys \<and> tr_trace (hw_tr s') = tr_trace (hw_tr s)
     @ [Cfg_write16 0x16 0, Cfg_write16 0x18 (vq_size (m_vq (hw_tr s')))]
     @ ring_addresses phys (layout_vring (vq_size (m_vq (hw_tr s')))) @ [Cfg_write16 0x1C 1]"
  using assms by (auto simp: setup_ring_def Let_def place_ring_def split: if_splits option.splits)

lemma setupCursorQueue_trace:
  assumes "setupCursorQueue e s = (ok, s')"
  shows "\<exists>ws. tr_trace (hw_tr s') = tr_trace (hw_tr s) @ Cfg_write16 0x16 1 # ws
     \<and> (\<forall>v. Cfg_write8 0x14 v \<notin> set ws) \<and> (ok \<longrightarrow> Cfg_write16 0x1C 1 \<in> set ws)"
  using assms by (auto simp: setupCursorQueue_def ring_addresses_def Let_def split: if_splits option.splits)

lemma setup_finish_result:
  assumes "setup_finish e off s = (ok, s')" "\<not> vq_initialized (m_vq (hw_tr s))" "\<not> vq_initialized (m_cursor_vq (hw_tr s))"
  shows "vq_initialized (m_vq (hw_tr s')) = ok \<and> bufs_ok (m_vq (hw_tr s')) \<and> bufs_ok (m_cursor_vq (hw_tr s'))
     \<and> (ok \<longrightarrow> (\<exists>cp rp. cmd_alloc e Control = Some cp \<and> resp_alloc e Control = Some rp
         \<and> m_vq (hw_tr s') = (m_vq (hw_tr s))\<lparr>vq_cmd_buf := Some (cp, 4096), vq_resp_buf := Some (rp, 4096),
              vq_initialized := True\<rparr>))
     \<and> m_vring_mem s' = m_vring_mem s \<and> can_notify (hw_tr s') = can_notify (hw_tr s)"
proof -
  obtain c s1 where c: "setupCursorQueue e s = (c, s1)" by fastforce
  note fr = setupCursorQueue_frame [OF c]
  show ?thesis
  proof (cases "cmd_alloc e Control = None \<or> resp_alloc e Control = None")
    case True
    then show ?thesis
      using assms fr c by (simp add: setup_finish_def Let_def bufs_ok_def can_notify_def) (elim conjE, hypsubst, simp)
  next
    case False
    then obtain cp rp where "cmd_alloc e Control = Some cp" "resp_alloc e Control = Some rp" by auto
    then show ?thesis
      using assms fr c by (simp add: setup_finish_def Let_def bufs_ok_def can_notify_def) (elim conjE, hypsubst, simp)
  qed
qed

lemma setup_finish_trace:
  assumes "setup_finish e off s = (ok, s')"
  shows "\<exists>cur st. tr_trace (hw_tr s') = tr_trace (hw_tr s) @ Cfg_write16 0x16 1 # cur @ [Cfg_write8 0x14 (st OR 4)]
     \<and> (\<forall>v. Cfg_write8 0x14 v \<notin> set cur)"
proof -
  obtain c s1 where c: "setupCursorQueue e s = (c, s1)" by fastforce
  from setupCursorQueue_trace [OF c] obtain ws
    where ws: "tr_trace (hw_tr s1) = tr_trace (hw_tr s) @ Cfg_write16 0x16 1 # ws" "\<forall>v. Cfg_write8 0x14 v \<notin> set ws"
    by blast
  then show ?thesis
    using assms c by (auto simp: setup_finish_def Let_def split: if_splits)
qed

lemma setup_finish_frame:
  assumes "setup_finish e off s = (ok, s')"
  shows "vq_size (m_vq (hw_tr s')) = vq_size (m_vq (hw_tr s)) \<and> m_vring_mem s' = m_vring_mem s"
proof -
  obtain c s1 where c: "setupCursorQueue e s = (c, s1)" by fastforce
  then show ?thesis
    using assms setupCursorQueue_frame [OF c] by (simp add: setup_finish_def Let_def split: if_splits) (elim conjE; hypsubst; simp)+
qed

text \<open>The notify walk ends on a list that ends without a capability pointing to itself.\<close>

lemma mult_walk_ends:
  "cap_chain d p cs \<Longrightarrow> length cs < fuel \<Longrightarrow> cs = [] \<or> cfg8 d (unat (last cs) + 1) \<noteq> last cs
     \<Longrightarrow> \<exists>v. mult_walk fuel d p = Some v"
proof (induction cs arbitrary: p fuel)
  case Nil
  then show ?case by (cases fuel) auto
next
  case (Cons c cs)
  obtain f where f: "fuel = Suc f" "length cs < f" using Cons.prems(2) by (cases fuel) auto
  show ?case
  proof (cases "cs = []")
    case True
    then obtain g where "f = Suc g" using f(2) by (cases f) auto
    then show ?thesis using Cons.prems f True by (auto simp: Let_def in_caps_def split: if_splits)
  next
    case False
    then show ?thesis using Cons f by (auto simp: Let_def split: if_splits)
  qed
qed


lemma config_reads_return:
  assumes "cap_chain d (cfg8 d 0x34) cs" "cs = [] \<or> cfg8 d (unat (last cs) + 1) \<noteq> last cs"
  shows "\<exists>c n. readCommonConfig (Some d) = Some c \<and> readNotifyConfig (Some d) = Some n"
proof -
  have len: "length cs < 189" using cap_chain_short [OF assms(1)] by simp
  have f: "\<exists>r. findVirtIOCapability (Some d) ty = Some r" for ty
    using cap_walk_chain [OF assms(1) len, of ty]
    by (auto simp: findVirtIOCapability_def split: option.splits)
  have c: "\<exists>r. readCommonConfig (Some d) = Some r"
    using f [of VIRTIO_PCI_CAP_COMMON_CFG]
    by (auto simp: readCommonConfig_def Let_def split: option.splits)
  obtain v where "mult_walk 189 d (cfg8 d 0x34) = Some v" using mult_walk_ends [OF assms(1) len assms(2)] by blast
  then have "\<exists>r. readNotifyConfig (Some d) = Some r"
    using f [of VIRTIO_PCI_CAP_NOTIFY_CFG] by (auto simp: readNotifyConfig_def split: option.splits)
  with c show ?thesis by simp
qed

lemma setupControl_cases:
  assumes "setupControlVirtQueue e (Some d) s = Some (ok, s')"
  obtains "\<not> ok" "s' = s"
  | s1 s2 neg where "hw_tr s1 = reg_write (Cfg_write8 0x14 0 # neg) (setup_notify d (the (readNotifyConfig (Some d))) (hw_tr s))"
      "setup_ring e s1 = (None, s2)" "\<not> ok" "s' = s2"
  | s1 s2 neg off where "hw_tr s1 = reg_write (Cfg_write8 0x14 0 # neg) (setup_notify d (the (readNotifyConfig (Some d))) (hw_tr s))"
      "setup_ring e s1 = (Some off, s2)" "setup_finish e off s2 = (ok, s')"
      "hw_tr s1 = setup_status e (setup_notify d (the (readNotifyConfig (Some d))) (hw_tr s))"
proof -
  let ?t0 = "setup_notify d (the (readNotifyConfig (Some d))) (hw_tr s)"
  obtain neg where n: "setup_status e ?t0 = reg_write (Cfg_write8 0x14 0 # neg) ?t0"
    using setup_status_frame by blast
  show thesis
  proof (cases "readCommonConfig (Some d)")
    case None
    then show ?thesis using assms by (simp add: setupControlVirtQueue_def)
  next
    case (Some r)
    show ?thesis
    proof (cases r)
      case None
      then show ?thesis using assms Some that(1) by (simp add: setupControlVirtQueue_def)
    next
      case c: (Some x)
      obtain off bar m where x: "x = (off, bar, m)" by (rule prod_cases3)
      obtain cfg where cfg: "readNotifyConfig (Some d) = Some cfg"
        using assms Some c x by (auto simp: setupControlVirtQueue_def split: option.splits)
      let ?s1 = "s\<lparr>m_common_cfg := Some off, m_common_map := Some m,
                   hw_tr := setup_status e (setup_notify d cfg (hw_tr s))\<rparr>"
      obtain r2 s2 where r: "setup_ring e ?s1 = (r2, s2)" by fastforce
      have d: "(ok, s') = (case r2 of None \<Rightarrow> (False, s2) | Some off \<Rightarrow> setup_finish e off s2)"
        using assms Some c x cfg r by (simp add: setupControlVirtQueue_def Let_def split: option.splits)
      have h: "hw_tr ?s1 = reg_write (Cfg_write8 0x14 0 # neg) ?t0" using n cfg by simp
      show ?thesis
      proof (cases r2)
        case None
        then show ?thesis using that(2) [OF h] r d by simp
      next
        case o: (Some off2)
        then show ?thesis using that(3) [OF h] r d cfg by simp
      qed
    qed
  qed
qed

section \<open>The device's side of the registers\<close>

text \<open>
  What a virtio device keeps behind the common configuration, as the virtio specification describes it: the two
  feature selectors, the feature words the driver accepted, the status byte, the selected queue and which queues
  are enabled. Writing 0 to the status resets; a status with the features-accepted bit keeps that bit only if
  every accepted feature was offered.
\<close>

record virtio_regs =
  vr_df_sel :: u32
  vr_tf_sel :: u32
  vr_features :: "u32 \<Rightarrow> u32"
  vr_status :: u8
  vr_q_sel :: u16
  vr_enabled :: "u16 \<Rightarrow> bool"

fun regs_write :: "(u32 \<Rightarrow> u32) \<Rightarrow> io_event \<Rightarrow> virtio_regs \<Rightarrow> virtio_regs" where
  "regs_write offered (Cfg_write32 off v) r =
     (if off = VIRTIO_COMMON_DF_SELECT then r\<lparr>vr_df_sel := v\<rparr>
      else if off = VIRTIO_COMMON_TF_SELECT then r\<lparr>vr_tf_sel := v\<rparr>
      else if off = VIRTIO_COMMON_TF then r\<lparr>vr_features := (vr_features r)(vr_tf_sel r := v)\<rparr>
      else r)"
| "regs_write offered (Cfg_write16 off v) r =
     (if off = VIRTIO_COMMON_Q_SELECT then r\<lparr>vr_q_sel := v\<rparr>
      else if off = VIRTIO_COMMON_Q_ENABLE then r\<lparr>vr_enabled := (vr_enabled r)(vr_q_sel r := (v = 1))\<rparr>
      else r)"
| "regs_write offered (Cfg_write8 off v) r =
     (if off \<noteq> VIRTIO_COMMON_DEVICE_STATUS then r
      else if v = 0 then r\<lparr>vr_status := 0, vr_features := (\<lambda>_. 0), vr_enabled := (\<lambda>_. False)\<rparr>
      else if vr_features r 0 AND NOT (offered 0) = 0 \<and> vr_features r 1 AND NOT (offered 1) = 0
           then r\<lparr>vr_status := v\<rparr>
      else r\<lparr>vr_status := v AND NOT VIRTIO_STATUS_FEATURES_OK\<rparr>)"
| "regs_write offered (Doorbell _ _) r = r"

definition regs_after :: "(u32 \<Rightarrow> u32) \<Rightarrow> io_event list \<Rightarrow> virtio_regs" where
  "regs_after offered ws = fold (regs_write offered) ws
     \<lparr>vr_df_sel = 0, vr_tf_sel = 0, vr_features = (\<lambda>_. 0), vr_status = 0, vr_q_sel = 0, vr_enabled = (\<lambda>_. False)\<rparr>"

text \<open>A device whose feature and status registers read what such a device holds; the rest of it is arbitrary.\<close>

definition conforming :: "(u32 \<Rightarrow> u32) \<Rightarrow> setup_env \<Rightarrow> bool" where
  "conforming offered e \<longleftrightarrow> (\<forall>ws. reg32 e ws VIRTIO_COMMON_DF = offered (vr_df_sel (regs_after offered ws))
     \<and> reg8 e ws VIRTIO_COMMON_DEVICE_STATUS = vr_status (regs_after offered ws))"

definition conform :: "(u32 \<Rightarrow> u32) \<Rightarrow> setup_env \<Rightarrow> setup_env" where
  "conform offered e = e\<lparr>reg8 := (\<lambda>ws off. vr_status (regs_after offered ws)),
     reg32 := (\<lambda>ws off. offered (vr_df_sel (regs_after offered ws)))\<rparr>"

lemma conforming_conform: "conforming offered (conform offered e)"
  by (simp add: conforming_def conform_def)

lemma regs_after_append [simp]: "regs_after offered (ws @ vs) = fold (regs_write offered) vs (regs_after offered ws)"
  by (simp add: regs_after_def)

lemma regs_ring_addresses [simp]: "fold (regs_write offered) (ring_addresses phys lay) r = r"
  by (simp add: ring_addresses_def Let_def)

lemma offered_only: "(x AND 1) AND NOT x = (0 :: u32)"
  by (rule bit_word_eqI) (auto simp: bit_simps)

text \<open>Reset and negotiation leave the device acknowledged, with the features accepted and no queue enabled.\<close>

lemma setup_status_device:
  assumes "conforming offered e"
  shows "vr_status (regs_after offered (tr_trace (setup_status e t))) = 11
     \<and> vr_features (regs_after offered (tr_trace (setup_status e t))) = (\<lambda>w. if w \<le> 1 then offered w AND 1 else 0)
     \<and> vr_enabled (regs_after offered (tr_trace (setup_status e t))) = (\<lambda>_. False)"
proof -
  have r: "reg32 e ws 4 = offered (vr_df_sel (regs_after offered ws))"
    "reg8 e ws 0x14 = vr_status (regs_after offered ws)" for ws
    using assms by (simp_all add: conforming_def)
  have w: "w \<le> 1 \<longleftrightarrow> w = 0 \<or> w = 1" for w :: u32 by (metis order.order_iff_strict word_less_1)
  show ?thesis
    by (simp add: setup_status_def negotiate_regs_def Let_def and_one_cases r offered_only fun_eq_iff w)
qed

lemma setupCursorQueue_device:
  assumes "setupCursorQueue e s = (ok, s')"
  shows "vr_status (regs_after offered (tr_trace (hw_tr s'))) = vr_status (regs_after offered (tr_trace (hw_tr s)))
     \<and> vr_features (regs_after offered (tr_trace (hw_tr s'))) = vr_features (regs_after offered (tr_trace (hw_tr s)))
     \<and> vr_enabled (regs_after offered (tr_trace (hw_tr s')))
         = (vr_enabled (regs_after offered (tr_trace (hw_tr s))))
             (1 := ok \<or> vr_enabled (regs_after offered (tr_trace (hw_tr s))) 1)"
  using assms by (auto simp: setupCursorQueue_def Let_def split: if_splits option.splits)

section \<open>Properties\<close>

text \<open>C13. Set-up decides the state of the queues: from a driver whose queues are down it either reports success with a
  control queue that is initialised, mapped, idle and has every descriptor free exactly once, or reports failure
  with that queue still down. In both cases a queue that is up has its buffers, so no later command can dereference
  a missing one; and if the doorbell was found, the ring has at least two entries and the buffers are at distinct
  non-zero addresses, the queue is ready to carry commands.\<close>

theorem setup_establishes_queue:
  assumes "setupControlVirtQueue e (Some d) s = Some (ok, s')"
    and "\<not> vq_initialized (m_vq (hw_tr s))" "\<not> vq_initialized (m_cursor_vq (hw_tr s))"
  shows "vq_initialized (m_vq (hw_tr s')) = ok \<and> bufs_ok (m_vq (hw_tr s')) \<and> bufs_ok (m_cursor_vq (hw_tr s'))
     \<and> (ok \<longrightarrow> vq_mapped (m_vq (hw_tr s')) \<and> vq_idle (m_vq (hw_tr s'))
          \<and> vq_inv (map word_of_nat [0..<unat (vq_size (m_vq (hw_tr s')))]) (m_vq (hw_tr s'))
          \<and> (can_notify (hw_tr s') \<and> 2 \<le> vq_size (m_vq (hw_tr s'))
               \<and> the (cmd_alloc e Control) \<noteq> 0 \<and> the (resp_alloc e Control) \<noteq> 0
               \<and> cmd_alloc e Control \<noteq> resp_alloc e Control \<longrightarrow> queue_live (hw_tr s')))"
  using assms(1)
proof (cases rule: setupControl_cases)
  case 1
  then show ?thesis using assms by (simp add: bufs_ok_def)
next
  case (2 s1 s2 neg)
  then show ?thesis using setup_ring_frame [OF 2(2)] assms by (simp add: bufs_ok_def)
next
  case (3 s1 s2 neg off)
  have f: "m_cursor_vq (hw_tr s2) = m_cursor_vq (hw_tr s)" "\<not> vq_initialized (m_vq (hw_tr s2))"
    using setup_ring_frame [OF 3(2)] 3(1) assms(2) by simp_all
  from setup_finish_result [OF 3(3) f(2)] f(1) assms(3)
  have r: "vq_initialized (m_vq (hw_tr s')) = ok \<and> bufs_ok (m_vq (hw_tr s')) \<and> bufs_ok (m_cursor_vq (hw_tr s'))
     \<and> (ok \<longrightarrow> (\<exists>cp rp. cmd_alloc e Control = Some cp \<and> resp_alloc e Control = Some rp
         \<and> m_vq (hw_tr s') = (m_vq (hw_tr s2))\<lparr>vq_cmd_buf := Some (cp, 4096), vq_resp_buf := Some (rp, 4096),
              vq_initialized := True\<rparr>))" by simp
  show ?thesis
  proof (cases ok)
    case False
    then show ?thesis using r by simp
  next
    case True
    then obtain cp rp where q: "cmd_alloc e Control = Some cp" "resp_alloc e Control = Some rp"
       "m_vq (hw_tr s') = (m_vq (hw_tr s2))\<lparr>vq_cmd_buf := Some (cp, 4096), vq_resp_buf := Some (rp, 4096),
              vq_initialized := True\<rparr>" using r by blast
    have i: "vq_mapped (m_vq (hw_tr s'))" "vq_idle (m_vq (hw_tr s'))"
      "vq_inv (map word_of_nat [0..<unat (vq_size (m_vq (hw_tr s')))]) (m_vq (hw_tr s'))"
      using setup_ring_inv [OF 3(2)] by (simp_all add: q(3) Let_def vq_inv_def vq_idle_def)
    have "queue_live (hw_tr s')" if "can_notify (hw_tr s')" "2 \<le> vq_size (m_vq (hw_tr s'))" "cp \<noteq> 0" "rp \<noteq> 0" "cp \<noteq> rp"
    proof -
      have "2 \<le> length (map word_of_nat [0..<unat (vq_size (m_vq (hw_tr s')))] :: u16 list)"
        using that(2) by (simp add: word_le_nat_alt)
      then show ?thesis
        using that(1,3-5) i r True q(3) unfolding queue_live_def queue_usable_def
        by (intro conjI exI [of _ "map word_of_nat [0..<unat (vq_size (m_vq (hw_tr s')))]"]) simp_all
    qed
    then show ?thesis using r i q True by simp
  qed
qed

text \<open>The registers are written in the order the specification asks for: reset first; then the negotiation; then
  the control queue is selected, given its size and the addresses of its rings, and enabled; then the cursor queue;
  and the driver-ready bit is set last, after both queues and never before.\<close>

theorem setup_register_order:
  assumes "setupControlVirtQueue e (Some d) s = Some (True, s')"
  shows "\<exists>neg phys cur st.
     tr_trace (hw_tr s') = tr_trace (hw_tr s) @ Cfg_write8 0x14 0 # neg
        @ [Cfg_write16 0x16 0, Cfg_write16 0x18 (vq_size (m_vq (hw_tr s')))]
        @ ring_addresses phys (layout_vring (vq_size (m_vq (hw_tr s')))) @ [Cfg_write16 0x1C 1]
        @ Cfg_write16 0x16 1 # cur @ [Cfg_write8 0x14 (st OR 4)]
     \<and> m_vring_mem s' = Some phys \<and> (\<forall>v. Cfg_write8 0x14 v \<notin> set cur)"
  using assms
proof (cases rule: setupControl_cases)
  case (3 s1 s2 neg off)
  obtain phys where p: "m_vring_mem s2 = Some phys" "tr_trace (hw_tr s2) = tr_trace (hw_tr s1)
     @ [Cfg_write16 0x16 0, Cfg_write16 0x18 (vq_size (m_vq (hw_tr s2)))]
     @ ring_addresses phys (layout_vring (vq_size (m_vq (hw_tr s2)))) @ [Cfg_write16 0x1C 1]"
    using setup_ring_trace [OF 3(2)] by blast
  obtain cur st where c: "tr_trace (hw_tr s') = tr_trace (hw_tr s2) @ Cfg_write16 0x16 1 # cur @ [Cfg_write8 0x14 (st OR 4)]"
     "\<forall>v. Cfg_write8 0x14 v \<notin> set cur"
    using setup_finish_trace [OF 3(3)] by blast
  have "vq_size (m_vq (hw_tr s')) = vq_size (m_vq (hw_tr s2)) \<and> m_vring_mem s' = m_vring_mem s2"
    using setup_finish_frame [OF 3(3)] .
  then show ?thesis
    using p c 3(1) by (intro exI [of _ neg] exI [of _ phys] exI [of _ cur] exI [of _ st]) simp
qed simp_all

text \<open>C16. Set-up and the device agree. Against a device that keeps its registers as the virtio specification says,
  whatever it held before and whatever features it offers, a set-up of the control queue that reports success leaves
  it with all four status bits (acknowledge, driver, features accepted, driver ready), having accepted of each offered
  word exactly the lowest bit (3D support in the first, version 1 in the second) and nothing that was not offered, with
  the control queue enabled, the cursor queue enabled exactly when the driver uses it, and no other queue enabled.\<close>

theorem setup_programs_device:
  assumes "setupControlVirtQueue e (Some d) s = Some (True, s')" "conforming offered e"
    and "\<not> vq_initialized (m_cursor_vq (hw_tr s))"
  shows "let r = regs_after offered (tr_trace (hw_tr s')) in
     vr_status r = 15 \<and> vr_features r = (\<lambda>w. if w \<le> 1 then offered w AND 1 else 0)
     \<and> vr_enabled r = (\<lambda>q. q = 0 \<or> q = 1 \<and> vq_initialized (m_cursor_vq (hw_tr s')))"
  using assms(1)
proof (cases rule: setupControl_cases)
  case (3 s1 s2 neg off)
  note st = setup_status_device [OF assms(2), of "setup_notify d (the (readNotifyConfig (Some d))) (hw_tr s)",
      folded 3(4)]
  obtain phys where ring: "tr_trace (hw_tr s2) = tr_trace (hw_tr s1)
     @ [Cfg_write16 0x16 0, Cfg_write16 0x18 (vq_size (m_vq (hw_tr s2)))]
     @ ring_addresses phys (layout_vring (vq_size (m_vq (hw_tr s2)))) @ [Cfg_write16 0x1C 1]"
    using setup_ring_trace [OF 3(2)] by blast
  obtain c s3 where c: "setupCursorQueue e s2 = (c, s3)" by fastforce
  have "\<not> vq_initialized (m_cursor_vq (hw_tr s2))" using setup_ring_frame [OF 3(2)] 3(1) assms(3) by simp
  then have cur: "vq_initialized (m_cursor_vq (hw_tr s3)) = c" using setupCursorQueue_frame [OF c] by simp
  have fin: "tr_trace (hw_tr s') = tr_trace (hw_tr s3)
      @ [Cfg_write8 0x14 (vr_status (regs_after offered (tr_trace (hw_tr s3))) OR 4)]"
    "m_cursor_vq (hw_tr s') = m_cursor_vq (hw_tr s3)"
    using 3(3) assms(2) c by (auto simp: setup_finish_def Let_def conforming_def split: if_splits)
  note dev = setupCursorQueue_device [OF c, of offered]
  show ?thesis
    using st dev cur by (simp add: ring fin offered_only Let_def fun_eq_iff)
qed simp_all

text \<open>Set-up always returns when the device's capability list ends without a capability that points to itself.\<close>

theorem setup_terminates:
  assumes "cap_chain d (cfg8 d 0x34) cs" "cs = [] \<or> cfg8 d (unat (last cs) + 1) \<noteq> last cs"
  shows "\<exists>ok s'. setupControlVirtQueue e (Some d) s = Some (ok, s')"
proof -
  obtain c n where "readCommonConfig (Some d) = Some c" "readNotifyConfig (Some d) = Some n"
    using config_reads_return [OF assms] by blast
  then show ?thesis
    by (cases c) (auto simp: setupControlVirtQueue_def Let_def split: option.splits prod.splits)
qed

text \<open>A device with the registers of \<open>sample_pci\<close>, a queue of 64 entries and memory for everything.\<close>

definition sample_setup :: setup_env where
  "sample_setup = \<lparr>reg8 = (\<lambda>_ _. 11), reg16 = (\<lambda>_ off. if off = 0x18 then 64 else 0), reg32 = (\<lambda>_ _. 0x3F),
     vring_alloc = (\<lambda>qi _. Some (case qi of Control \<Rightarrow> 0x10000 | Cursor \<Rightarrow> 0x20000)), free_alloc = (\<lambda>_. True),
     cmd_alloc = (\<lambda>qi. Some (case qi of Control \<Rightarrow> 0x30000 | Cursor \<Rightarrow> 0x50000)),
     resp_alloc = (\<lambda>qi. Some (case qi of Control \<Rightarrow> 0x40000 | Cursor \<Rightarrow> 0x60000))\<rparr>"

definition sample_hw :: hw where
  "sample_hw = \<lparr>hw_tr = sample_transport\<lparr>m_vq := sample_queue\<lparr>vq_initialized := False\<rparr>,
        m_cursor_vq := sample_queue\<lparr>vq_initialized := False\<rparr>\<rparr>,
     m_common_cfg = None, m_common_map = None, m_vring_mem = None, m_cursor_vring_mem = None\<rparr>"

lemma sample_down: "\<not> vq_initialized (m_vq (hw_tr sample_hw))" "\<not> vq_initialized (m_cursor_vq (hw_tr sample_hw))"
  by (simp_all add: sample_hw_def)

lemma sample_setup_any:
  assumes "e = sample_setup\<lparr>reg8 := f8, reg32 := f32\<rparr>"
  shows "\<exists>s'. setupControlVirtQueue e (Some sample_pci) sample_hw = Some (True, s')"
proof -
  obtain cfg where n: "readNotifyConfig (Some sample_pci) = Some cfg"
    using config_reads_return [OF sample_chain] by (auto simp: sample_pci_def)
  let ?m = "\<lparr>pm_index = 1, pm_phys = 0xff10000000, pm_len = 0x4000\<rparr> :: pci_map"
  have c: "readCommonConfig (Some sample_pci) = Some (Some (0x1000, 4, ?m))"
    using sample_common [of sample_pci] by (simp add: sample_pci_def)
  let ?s1 = "sample_hw\<lparr>m_common_cfg := Some 0x1000, m_common_map := Some ?m,
               hw_tr := setup_status e (setup_notify sample_pci cfg (hw_tr sample_hw))\<rparr>"
  have "\<exists>off s2. setup_ring e s = (Some off, s2)" for s
    by (simp add: setup_ring_def Let_def assms sample_setup_def)
  then obtain off s2 where r: "setup_ring e ?s1 = (Some off, s2)" by blast
  have "\<exists>s3. setup_finish e off s2 = (True, s3)"
    by (simp add: setup_finish_def Let_def assms sample_setup_def)
  then show ?thesis using n c r by (simp add: setupControlVirtQueue_def Let_def)
qed

lemma sample_setup_ok: "\<exists>s'. setupControlVirtQueue sample_setup (Some sample_pci) sample_hw = Some (True, s')"
  by (rule sample_setup_any [where ?f8.0 = "reg8 sample_setup" and ?f32.0 = "reg32 sample_setup"]) simp

lemma sample_setup_conform:
  "\<exists>s'. setupControlVirtQueue (conform offered sample_setup) (Some sample_pci) sample_hw = Some (True, s')"
  by (rule sample_setup_any [OF conform_def])

theorem setup_establishes_queue_witness:
  "\<exists>s'. setupControlVirtQueue sample_setup (Some sample_pci) sample_hw = Some (True, s')
     \<and> vq_initialized (m_vq (hw_tr s')) \<and> bufs_ok (m_cursor_vq (hw_tr s'))
     \<and> vq_inv (map word_of_nat [0..<unat (vq_size (m_vq (hw_tr s')))]) (m_vq (hw_tr s'))"
  using sample_setup_ok setup_establishes_queue [OF _ sample_down] by metis

theorem setup_register_order_witness:
  "\<exists>s' neg phys cur st. setupControlVirtQueue sample_setup (Some sample_pci) sample_hw = Some (True, s')
     \<and> tr_trace (hw_tr s') = tr_trace (hw_tr sample_hw) @ Cfg_write8 0x14 0 # neg
        @ [Cfg_write16 0x16 0, Cfg_write16 0x18 (vq_size (m_vq (hw_tr s')))]
        @ ring_addresses phys (layout_vring (vq_size (m_vq (hw_tr s')))) @ [Cfg_write16 0x1C 1]
        @ Cfg_write16 0x16 1 # cur @ [Cfg_write8 0x14 (st OR 4)]"
  using sample_setup_ok setup_register_order by metis

theorem setup_programs_device_witness:
  "\<exists>s'. setupControlVirtQueue (conform (\<lambda>_. 0x3F) sample_setup) (Some sample_pci) sample_hw = Some (True, s')
     \<and> vr_status (regs_after (\<lambda>_. 0x3F) (tr_trace (hw_tr s'))) = 15
     \<and> vr_features (regs_after (\<lambda>_. 0x3F) (tr_trace (hw_tr s'))) 1 = 1
     \<and> vr_enabled (regs_after (\<lambda>_. 0x3F) (tr_trace (hw_tr s'))) 0"
proof -
  obtain s' where s: "setupControlVirtQueue (conform (\<lambda>_. 0x3F) sample_setup) (Some sample_pci) sample_hw = Some (True, s')"
    using sample_setup_conform by blast
  from setup_programs_device [OF s conforming_conform sample_down(2)] show ?thesis
    by (intro exI [of _ s']) (simp add: s Let_def)
qed

theorem setup_terminates_witness:
  "\<exists>ok s'. setupControlVirtQueue sample_setup (Some sample_pci) sample_hw = Some (ok, s')"
  by (rule setup_terminates [OF sample_chain]) (simp add: sample_pci_def)

text \<open>Clean-up closes the control queue but not the cursor queue: afterwards every control command is refused as
  not ready with nothing changed, while the cursor queue, whose doorbell address was computed from the mapping that
  has just been released, still accepts commands and rings the doorbell.\<close>

theorem cleanup_leaves_cursor_live:
  assumes "vq_initialized (m_cursor_vq (hw_tr s))" "vq_mapped (m_cursor_vq (hw_tr s))" "bufs_ok (m_cursor_vq (hw_tr s))"
    and "pop_pair (m_cursor_vq (hw_tr s)) = Inr (c, r, q)" "m_notify_base (hw_tr s)" "m_notify_off_multiplier (hw_tr s) > 0"
    and "24 \<le> length cmd"
  shows "submitCommand e (Some cmd) resp (hw_tr (cleanupVirtIOGPU s)) = (kIOReturnNotReady, resp, hw_tr (cleanupVirtIOGPU s))
     \<and> (case submitCursorCommand e cmd resp (hw_tr (cleanupVirtIOGPU s)) of (_, _, t') \<Rightarrow>
          last (tr_trace t') = Doorbell (doorbell_addr (m_cursor_notify_offset (hw_tr s)) (hw_tr s)) 1
          \<and> length (tr_trace (hw_tr (cleanupVirtIOGPU s))) < length (tr_trace t'))"
proof -
  let ?t = "hw_tr (cleanupVirtIOGPU s)"
  have t: "m_cursor_vq ?t = m_cursor_vq (hw_tr s)" "m_notify_base ?t" "m_notify_off_multiplier ?t > 0"
    "doorbell_addr (m_cursor_notify_offset ?t) ?t = doorbell_addr (m_cursor_notify_offset (hw_tr s)) (hw_tr s)"
    using assms(5,6)
    by (simp_all add: cleanupVirtIOGPU_def teardownControlVirtQueue_def Let_def reg_write_def doorbell_addr_def)
  have "submitCommand e (Some cmd) resp ?t = (kIOReturnNotReady, resp, ?t)"
    using assms(7) by (simp add: submitCommand_def cleanupVirtIOGPU_def teardownControlVirtQueue_def Let_def)
  moreover
  have poll: "tr_trace u' = tr_trace u" if "poll_used e Cursor n u = (b, u')" for n u b u'
    using that by (induction n arbitrary: u) (auto simp: Let_def device_runs_def split: if_splits)
  have pub: "case cursor_publish e cmd resp c r cp rp u of (_, _, t') \<Rightarrow>
      tr_trace t' = tr_trace u @ [Doorbell (doorbell_addr (m_cursor_notify_offset u) u) 1]"
    if "m_notify_base u" "m_notify_off_multiplier u > 0" for cp rp u
    using that by (auto simp: cursor_publish_def Let_def notify_device_def publish_def give_back_def doorbell_addr_def
        simp del: poll_used.simps dest!: poll split: prod.splits bool.splits)
  obtain cp cl rp rl where b: "vq_cmd_buf q = Some (cp, cl)" "vq_resp_buf q = Some (rp, rl)"
    using pop_pair_bufs(1,2) [OF assms(4)] assms(1,3) by (auto simp: bufs_ok_def)
  let ?u = "upd_q Cursor (dma_write cp cmd) (?t\<lparr>m_cursor_vq := q\<rparr>)"
  have "submitCursorCommand e cmd resp ?t = cursor_publish e cmd resp c r cp rp ?u"
    using assms(1,2,4) b by (simp add: submitCursorCommand_def t(1) Let_def)
  moreover have "m_notify_base ?u" "m_notify_off_multiplier ?u > 0" "tr_trace ?u = tr_trace ?t"
     "doorbell_addr (m_cursor_notify_offset ?u) ?u = doorbell_addr (m_cursor_notify_offset (hw_tr s)) (hw_tr s)"
    using t by (simp_all add: doorbell_addr_def)
  ultimately show ?thesis using pub [of ?u cp rp] by (auto split: prod.splits)
qed

theorem cleanup_leaves_cursor_live_witness:
  "submitCommand sample_env (Some ok_reply) None (hw_tr (cleanupVirtIOGPU (sample_hw\<lparr>hw_tr := sample_transport\<rparr>)))
     = (kIOReturnNotReady, None, hw_tr (cleanupVirtIOGPU (sample_hw\<lparr>hw_tr := sample_transport\<rparr>)))
   \<and> (case submitCursorCommand sample_env ok_reply None (hw_tr (cleanupVirtIOGPU (sample_hw\<lparr>hw_tr := sample_transport\<rparr>))) of
        (_, _, t') \<Rightarrow> last (tr_trace t') = Doorbell 0x3004 1)"
proof -
  obtain c r q where p: "pop_pair sample_queue = Inr (c, r, q)"
    using pop_pair_inv [of 0 1 "[2, 3]" sample_queue] sample_inv by (auto simp: sample_queue_def pop_pair_def pop_free_def)
  show ?thesis
    using cleanup_leaves_cursor_live [of "sample_hw\<lparr>hw_tr := sample_transport\<rparr>" c r q ok_reply sample_env None] p sample_bufs
    by (auto simp: sample_transport_def sample_queue_def doorbell_addr_def ok_reply_def split: prod.splits)
qed

end
