(* ===== verification/Bring_Up.thy ===== *)
theory Bring_Up
  imports Client_Safety Queue_Setup
begin

text \<open>
  Bringing the driver object up (\<^verbatim>\<open>initializeWithPCIDevice\<close>, \<^verbatim>\<open>initVirtIOGPU\<close> and what they call in \<^verbatim>\<open>VMVirtIOGPU.cpp\<close>): the
  limits read from the device configuration, the queues, the mapping behind the doorbell, the start of 3D; and the memory
  range offered to framebuffers. It composes the capability search, the BAR mappings, the queue set-up and the commands.
\<close>

section \<open>Parameters and state\<close>

text \<open>
  \<open>dev_mem_len i\<close>: the length of \<^verbatim>\<open>getDeviceMemoryWithIndex(i)\<close>. \<open>map_virt m\<close>: \<^verbatim>\<open>getVirtualAddress()\<close> of the mapping is not
  null. \<open>phys_map a n\<close>: the mapping of a descriptor made with \<^verbatim>\<open>withPhysicalAddress(a, n)\<close>, \<open>None\<close> when the descriptor or
  its mapping could not be made. \<open>cfg_word ws a\<close>: the 32-bit word the device shows at physical address \<open>a\<close> after the status
  writes \<open>ws\<close>. \<open>range_alloc\<close>: \<^verbatim>\<open>IODeviceMemory::withRange\<close> succeeds.
\<close>

record bring_env =
  be_dev :: device_env
  be_setup :: setup_env
  dev_mem_len :: "nat \<Rightarrow> u64"
  map_virt :: "pci_map \<Rightarrow> bool"
  phys_map :: "u64 \<Rightarrow> u64 \<Rightarrow> pci_map option"
  cfg_word :: "(u64 \<times> u8) list \<Rightarrow> u64 \<Rightarrow> u32"
  range_alloc :: bool

text \<open>
  The driver object with the members that only bring-up uses. \<open>bd_notify\<close>: what \<^verbatim>\<open>m_notify_map\<close> points to; the flag of the
  same name in the transport says that it is not null. \<open>bd_status_writes\<close>: the writes of \<^verbatim>\<open>initVirtIOGPU\<close> to the status byte,
  with their physical addresses. The reference counts in \<open>bd_bars\<close> are those of the BAR cache and of the configuration
  and notify mappings.
\<close>

record board =
  bd_gpu :: gpu
  bd_common_cfg :: "u32 option"
  bd_common_map :: "pci_map option"
  bd_vring_mem :: "u64 option"
  bd_cursor_vring_mem :: "u64 option"
  bd_bars :: bar_cache
  bd_notify :: "pci_map option"
  bd_config_map :: "pci_map option"
  m_device_cfg_bar :: u8
  m_device_cfg_offset :: u32
  bd_control_desc :: "memdesc option"
  bd_cursor_desc :: "memdesc option"
  m_control_queue_size :: u32
  m_cursor_queue_size :: u32
  bd_status_writes :: "(u64 \<times> u8) list"

definition board_init :: board where
  "board_init = \<lparr>bd_gpu = gpu_init, bd_common_cfg = None, bd_common_map = None, bd_vring_mem = None, bd_cursor_vring_mem = None,
     bd_bars = \<lparr>m_bar_maps = (\<lambda>_. None), map_refs = (\<lambda>_. 0)\<rparr>, bd_notify = None, bd_config_map = None,
     m_device_cfg_bar = 0, m_device_cfg_offset = 0, bd_control_desc = None, bd_cursor_desc = None,
     m_control_queue_size = 256, m_cursor_queue_size = 16, bd_status_writes = []\<rparr>"

definition bd_on_gpu :: "(gpu \<Rightarrow> gpu) \<Rightarrow> board \<Rightarrow> board" where
  "bd_on_gpu f b = b\<lparr>bd_gpu := f (bd_gpu b)\<rparr>"

definition on_tr :: "(transport \<Rightarrow> transport) \<Rightarrow> board \<Rightarrow> board" where
  "on_tr f = bd_on_gpu (\<lambda>g. g\<lparr>g_tr := f (g_tr g)\<rparr>)"

text \<open>Assigning \<^verbatim>\<open>m_notify_map\<close>.\<close>

definition set_notify :: "pci_map option \<Rightarrow> board \<Rightarrow> board" where
  "set_notify m b = on_tr (\<lambda>t. t\<lparr>m_notify_map := (m \<noteq> None)\<rparr>) (b\<lparr>bd_notify := m\<rparr>)"

section \<open>The device configuration\<close>

text \<open>\<^verbatim>\<open>virtio_gpu_config\<close> has 16 bytes; the number of scanouts is at 8, the number of capability sets at 12.\<close>

definition config_limits :: "bring_env \<Rightarrow> u64 \<Rightarrow> board \<Rightarrow> u32 \<times> u32" where
  "config_limits e a b = (cfg_word e (bd_status_writes b) (a + 8), cfg_word e (bd_status_writes b) (a + 12))"

definition set_limits :: "u32 \<Rightarrow> u32 \<Rightarrow> board \<Rightarrow> board" where
  "set_limits scanouts capsets = bd_on_gpu (\<lambda>g. g\<lparr>m_max_scanouts := scanouts, m_num_capsets := capsets\<rparr>)"

text \<open>The BAR mapping is too small: the structure is mapped by its physical address.\<close>

definition direct_limits :: "bring_env \<Rightarrow> pci_dev \<Rightarrow> u8 \<Rightarrow> u32 \<Rightarrow> board \<Rightarrow> board" where
  "direct_limits e d bar off b =
     (case dev_mem d (unat bar) of
        None \<Rightarrow> set_limits 1 0 b
      | Some bar_phys \<Rightarrow>
          (case phys_map e (bar_phys + ucast off) 16 of
             None \<Rightarrow> set_limits 1 0 b
           | Some m \<Rightarrow>
               if \<not> map_virt e m then set_limits 1 0 b
               else case config_limits e (pm_phys m) b of
                 (num_scanouts, num_capsets) \<Rightarrow>
                   if num_scanouts > 0 \<and> num_scanouts \<le> 16 \<and> num_capsets \<le> 64
                   then set_limits num_scanouts num_capsets b else set_limits 1 0 b))"

text \<open>The early reset of the device; the check of the mapping adds in 32 bits.\<close>

definition early_reset :: "bring_env \<Rightarrow> pci_dev \<Rightarrow> board \<Rightarrow> board option" where
  "early_reset e d b =
     (case findVirtIOCapability (Some d) VIRTIO_PCI_CAP_COMMON_CFG of
        None \<Rightarrow> None
      | Some None \<Rightarrow> Some b
      | Some (Some (common_bar, common_offset, _)) \<Rightarrow> Some
          (case dev_map d (unat common_bar) of
             None \<Rightarrow> b
           | Some m \<Rightarrow>
               if pm_len m < unat (common_offset + 24) then b
               else if \<not> map_virt e m then b
               else let status = pm_phys m + ucast common_offset + 20
                    in b\<lparr>bd_status_writes := bd_status_writes b @ [(status, 0), (status, 1), (status, 3), (status, 7)]\<rparr>))"

definition mapped_limits :: "bring_env \<Rightarrow> u64 \<Rightarrow> board \<Rightarrow> board" where
  "mapped_limits e a b =
     (case config_limits e a b of
        (hw_scanouts, hw_capsets) \<Rightarrow>
          let scanouts = (if hw_scanouts \<ge> 1 \<and> hw_scanouts \<le> 16 then hw_scanouts else 1);
              capsets = (if hw_capsets \<le> 16 then hw_capsets else 0)
          in set_limits scanouts (if scanouts = 1 \<and> capsets = 0 then 2 else capsets) b)"

text \<open>The first part of \<^verbatim>\<open>initVirtIOGPU\<close>. The flag of the result: bring-up goes on with the queues.\<close>

definition read_device_config :: "bring_env \<Rightarrow> pci_dev option \<Rightarrow> board \<Rightarrow> (bool \<times> board) option" where
  "read_device_config e pd b =
     (case findVirtIOCapability pd VIRTIO_PCI_CAP_DEVICE_CFG of
        None \<Rightarrow> None
      | Some None \<Rightarrow> Some (False, set_limits 1 2 (b\<lparr>m_device_cfg_bar := 0, m_device_cfg_offset := 0\<rparr>))
      | Some (Some (bar, off, _)) \<Rightarrow>
          (case mapBarByNumber pd bar False (bd_bars b) of
             (mo, _, c) \<Rightarrow>
               let b1 = b\<lparr>m_device_cfg_bar := bar, m_device_cfg_offset := off, bd_bars := c, bd_config_map := mo\<rparr>
               in case mo of
                    None \<Rightarrow> Some (True, set_limits 1 0 b1)
                  | Some m \<Rightarrow>
                      if \<not> map_virt e m then Some (True, set_limits 1 0 b1)
                      else if pm_len m < unat off + 16 then Some (True, direct_limits e (the pd) bar off b1)
                      else map_option (\<lambda>b2. (True, mapped_limits e (pm_phys m + ucast off) b2)) (early_reset e (the pd) b1)))"

section \<open>The queues\<close>

text \<open>
  \<^verbatim>\<open>setupControlVirtQueue\<close> on the members of the board. When it gets to the doorbell and no notify mapping is held, it
  makes one, by BAR number.
\<close>

definition hw_of :: "board \<Rightarrow> hw" where
  "hw_of b = \<lparr>hw_tr = g_tr (bd_gpu b), m_common_cfg = bd_common_cfg b, m_common_map = bd_common_map b,
     m_vring_mem = bd_vring_mem b, m_cursor_vring_mem = bd_cursor_vring_mem b\<rparr>"

definition put_hw :: "hw \<Rightarrow> board \<Rightarrow> board" where
  "put_hw s b = (on_tr (\<lambda>_. hw_tr s) b)\<lparr>bd_common_cfg := m_common_cfg s, bd_common_map := m_common_map s,
     bd_vring_mem := m_vring_mem s, bd_cursor_vring_mem := m_cursor_vring_mem s\<rparr>"

definition setup_mapping :: "pci_dev option \<Rightarrow> board \<Rightarrow> board" where
  "setup_mapping pd b =
     (case (pd, readCommonConfig pd, readNotifyConfig pd) of
        (Some d, Some (Some _), Some (Some (notify_bar, _, _))) \<Rightarrow>
          (if bd_notify b \<noteq> None then b
           else case dev_map d (unat notify_bar) of
                  None \<Rightarrow> b
                | Some m \<Rightarrow> b\<lparr>bd_notify := Some m, bd_bars := pm_retain m (bd_bars b)\<rparr>)
      | _ \<Rightarrow> b)"

definition setup_queue :: "bring_env \<Rightarrow> pci_dev option \<Rightarrow> board \<Rightarrow> (bool \<times> board) option" where
  "setup_queue e pd b =
     map_option (\<lambda>(ok, s). (ok, put_hw s (setup_mapping pd b))) (setupControlVirtQueue (be_setup e) pd (hw_of b))"

text \<open>The sizes of the two legacy buffers, in headers of 24 bytes.\<close>

definition setOptimalQueueSizes :: "board \<Rightarrow> board" where
  "setOptimalQueueSizes b =
     (let control = (if supports3D (bd_gpu b) then 512 else 256); cursor = 16; most = 64 * 1024
      in b\<lparr>m_control_queue_size := (if unat control * 24 > most then word_of_nat (most div 24) else control),
           m_cursor_queue_size := (if unat cursor * 24 > most then word_of_nat (most div 24) else cursor)\<rparr>)"

definition wire_desc :: "memdesc \<Rightarrow> gpu \<Rightarrow> gpu" where
  "wire_desc d g = (if md_prepare d = kIOReturnSuccess then md_do_prepare d g else g)"

definition setupVirtIOHardwareQueues :: "memdesc \<Rightarrow> memdesc \<Rightarrow> board \<Rightarrow> bool \<times> board" where
  "setupVirtIOHardwareQueues control cursor b =
     (md_prepare control = kIOReturnSuccess \<and> md_prepare cursor = kIOReturnSuccess,
      bd_on_gpu (\<lambda>g. wire_desc cursor (wire_desc control g)) b)"

text \<open>A buffer that is there is kept, otherwise one is allocated; the flag \<open>m_control_queue\<close> follows the pointer.\<close>

definition queue_buffer :: "device_env \<Rightarrow> u32 \<Rightarrow> memdesc option \<Rightarrow> gpu \<Rightarrow> memdesc option \<times> gpu" where
  "queue_buffer e entries cur g =
     (case cur of
        Some d \<Rightarrow> (Some d, g)
      | None \<Rightarrow> (case bmd_alloc e (tr_tick (g_tr g)) (unat entries * 24) of
                  None \<Rightarrow> (None, g) | Some d \<Rightarrow> (Some d, md_retain d g)))"

definition set_control :: "memdesc option \<Rightarrow> board \<Rightarrow> board" where
  "set_control m b = bd_on_gpu (\<lambda>g. g\<lparr>m_control_queue := (m \<noteq> None)\<rparr>) (b\<lparr>bd_control_desc := m\<rparr>)"

definition cursor_buffer :: "bring_env \<Rightarrow> memdesc \<Rightarrow> board \<Rightarrow> bool \<times> board" where
  "cursor_buffer e control b =
     (case queue_buffer (be_dev e) (m_cursor_queue_size b) (bd_cursor_desc b) (bd_gpu b) of
        (None, g) \<Rightarrow> (False, set_control None (b\<lparr>bd_gpu := md_release control g, bd_cursor_desc := None\<rparr>))
      | (Some cursor, g) \<Rightarrow> setupVirtIOHardwareQueues control cursor (b\<lparr>bd_gpu := g, bd_cursor_desc := Some cursor\<rparr>))"

definition initializeVirtIOQueues :: "bring_env \<Rightarrow> pci_dev option \<Rightarrow> board \<Rightarrow> bool \<times> board" where
  "initializeVirtIOQueues e pd b =
     (if pd = None then (False, b)
      else if bd_control_desc b \<noteq> None \<and> bd_cursor_desc b \<noteq> None then (True, b)
      else let b1 = setOptimalQueueSizes b in
        case queue_buffer (be_dev e) (m_control_queue_size b1) (bd_control_desc b1) (bd_gpu b1) of
          (None, g) \<Rightarrow> (False, set_control None (b1\<lparr>bd_gpu := g\<rparr>))
        | (Some control, g) \<Rightarrow> cursor_buffer e control (set_control (Some control) (b1\<lparr>bd_gpu := g\<rparr>)))"

section \<open>The doorbell\<close>

text \<open>
  The mapping of the page that holds the notify register, when the BAR mapping cannot be used. \<open>index\<close>: the IOKit index
  found for the BAR; without one it stays -1, for which there is no memory. The result: the mapping and the offset in it.
\<close>

definition direct_notify :: "bring_env \<Rightarrow> pci_dev \<Rightarrow> nat option \<Rightarrow> u32 \<Rightarrow> (pci_map \<times> u32) option" where
  "direct_notify e d index off =
     (case index of
        None \<Rightarrow> None
      | Some i \<Rightarrow>
          (case dev_mem d i of
             None \<Rightarrow> None
           | Some phys_base \<Rightarrow>
               let total = dev_mem_len e i; target = phys_base + ucast off
               in if phys_base = 0 then None
                  else if phys_base < 0x1000 \<or> phys_base > 0xFFFFFFFFFFFF then None
                  else if total > 0 \<and> ucast (off + 0x1000) > total then None
                  else if off > 0x100000 then None
                  else let page_base = target AND NOT 0xFFF; page_offset = target - page_base; map_len = page_offset + 4
                    in if page_base < phys_base \<or> page_base + map_len > phys_base + total then None
                       else case phys_map e page_base map_len of
                              None \<Rightarrow> None
                            | Some m \<Rightarrow> if map_virt e m then Some (m, ucast page_offset) else None))"

definition set_cap_offset :: "u32 \<Rightarrow> board \<Rightarrow> board" where
  "set_cap_offset off = on_tr (\<lambda>t. t\<lparr>m_notify_cap_offset := off\<rparr>)"

definition drop_notify :: "pci_map \<Rightarrow> board \<Rightarrow> board" where
  "drop_notify m b = b\<lparr>bd_bars := pm_release m (bd_bars b)\<rparr>"

text \<open>
  \<^verbatim>\<open>m_notify_base\<close> is cleared first, so commands use the mapping. A mapping made by physical address is not counted in
  \<open>bd_bars\<close>. The contexts array is there since \<^verbatim>\<open>init\<close>, so the branch that allocates it is not taken; the properties are left out.
\<close>

definition setupGPUMemoryRegions :: "bring_env \<Rightarrow> pci_dev option \<Rightarrow> board \<Rightarrow> (bool \<times> board) option" where
  "setupGPUMemoryRegions e pd b =
     (let b0 = on_tr (\<lambda>t. t\<lparr>m_notify_base := False\<rparr>) b in
      case pd of
        None \<Rightarrow> Some (False, b0)
      | Some d \<Rightarrow>
          (case findVirtIOCapability pd VIRTIO_PCI_CAP_NOTIFY_CFG of
             None \<Rightarrow> None
           | Some r \<Rightarrow>
               let (bar, off) = (case r of Some (bar, off, _) \<Rightarrow> (bar, off) | None \<Rightarrow> (0, 0x10)) in
               (case mapBarByNumber pd bar True (bd_bars b0) of
                  (mo, index, c) \<Rightarrow>
                    let b1 = set_notify mo (b0\<lparr>bd_bars := c\<rparr>) in
                    (case mo of
                       None \<Rightarrow> Some (False, b1)
                     | Some m \<Rightarrow>
                         if pm_len m \<ge> unat (off + 4) \<and> map_virt e m then Some (True, set_cap_offset off b1)
                         else case direct_notify e d index off of
                           Some (dm, page_offset) \<Rightarrow> Some (True, set_cap_offset page_offset (set_notify (Some dm) (drop_notify m b1)))
                         | None \<Rightarrow>
                             (case dev_map d 0 of
                                None \<Rightarrow> Some (False, set_notify None (drop_notify m b1))
                              | Some m0 \<Rightarrow>
                                  let b2 = drop_notify m b1
                                  in Some (True, set_cap_offset 0x10 (set_notify (Some m0) (b2\<lparr>bd_bars := pm_retain m0 (bd_bars b2)\<rparr>))))))))"

section \<open>3D\<close>

text \<open>
  \<^verbatim>\<open>initializeWebGLAcceleration\<close>: a context, 256 MB of memory and two resources. The memory stays referenced: the only
  pointer to it is a local variable. \<open>allocateResource3D\<close> is not used; the bindings differ.
\<close>

definition webgl_resource :: "device_env \<Rightarrow> u32 \<Rightarrow> u32 \<Rightarrow> gpu \<Rightarrow> gpu" where
  "webgl_resource e fmt bnd g =
     (let rid = m_next_resource_id g + 1
      in snd (createResource3D e rid 2 fmt bnd 1280 720 1 (g\<lparr>m_next_resource_id := rid\<rparr>)))"

definition initializeWebGLAcceleration :: "device_env \<Rightarrow> gpu \<Rightarrow> gpu" where
  "initializeWebGLAcceleration e g =
     (if \<not> m_pci_device g then g
      else if \<not> supports3D g then g
      else case createRenderContext e g of
        (ret, cid, g1) \<Rightarrow>
          if ret \<noteq> kIOReturnSuccess \<or> cid = None \<or> cid = Some 0 then g1
          else case allocateGPUMemory e (256 * 1024 * 1024) g1 of
            (_, _, g2) \<Rightarrow> webgl_resource e 49 1 (webgl_resource e 2 2 g2))"

text \<open>\<^verbatim>\<open>enableResourceBlob\<close> only asks and logs, so it is left out of the sequence.\<close>

definition enable3DAcceleration :: "bring_env \<Rightarrow> pci_dev option \<Rightarrow> board \<Rightarrow> board" where
  "enable3DAcceleration e pd b =
     (if pd = None then b
      else if m_num_capsets (bd_gpu b) = 0 then b
      else case initializeVirtIOQueues e pd b of
        (ok, b1) \<Rightarrow>
          if \<not> ok then b1
          else if \<not> supports3D (bd_gpu b1) then b1
          else if enableFeature VIRTIO_GPU_FEATURE_3D (bd_gpu b1) \<noteq> kIOReturnSuccess then b1
          else bd_on_gpu (\<lambda>g. initializeWebGLAcceleration (be_dev e) (if supports3D g then enableVirgl (be_dev e) g else g)) b1)"

section \<open>The whole\<close>

definition initVirtIOGPU :: "bring_env \<Rightarrow> pci_dev option \<Rightarrow> board \<Rightarrow> (bool \<times> board) option" where
  "initVirtIOGPU e pd b =
     (case read_device_config e pd b of
        None \<Rightarrow> None
      | Some (False, b1) \<Rightarrow> Some (True, b1)
      | Some (True, b1) \<Rightarrow>
          (case setup_queue e pd b1 of
             None \<Rightarrow> None
           | Some (_, b2) \<Rightarrow>
               (case initializeVirtIOQueues e pd b2 of
                  (False, b3) \<Rightarrow> Some (False, b3)
                | (True, b3) \<Rightarrow>
                    (case setupGPUMemoryRegions e pd b3 of
                       None \<Rightarrow> None
                     | Some (_, b4) \<Rightarrow> Some (True, enable3DAcceleration e pd b4)))))"

definition initializeWithPCIDevice :: "bring_env \<Rightarrow> pci_dev option \<Rightarrow> board \<Rightarrow> (bool \<times> board) option" where
  "initializeWithPCIDevice e pd b =
     (if pd = None then Some (False, b)
      else case initVirtIOGPU e pd (bd_on_gpu (\<lambda>g. g\<lparr>m_pci_device := True\<rparr>) b) of
        None \<Rightarrow> None
      | Some (True, b1) \<Rightarrow> Some (True, b1)
      | Some (False, b1) \<Rightarrow> Some (False, bd_on_gpu (\<lambda>g. g\<lparr>m_pci_device := False\<rparr>) b1))"

section \<open>The memory range for framebuffers\<close>

text \<open>\<^verbatim>\<open>getVRAMRange\<close>: the test of a BAR, the pass over the six of them, up to three passes.\<close>

definition vram_size_ok :: "nat \<Rightarrow> bool" where
  "vram_size_ok n \<longleftrightarrow> n \<ge> 4096 \<and> n \<le> 1024 * 1024 * 1024 \<and> \<not> (n < 1024 * 1024 \<and> n = 4096)"

text \<open>\<open>cur\<close>: what \<^verbatim>\<open>vram_map\<close> points to. The result: whether a size was found, the pointer and the references.\<close>

fun vram_scan :: "pci_dev \<Rightarrow> nat list \<Rightarrow> pci_map option \<Rightarrow> bar_cache \<Rightarrow> bool \<times> pci_map option \<times> bar_cache" where
  "vram_scan d [] cur c = (False, cur, c)"
| "vram_scan d (i # is) cur c =
     (let c1 = (case cur of None \<Rightarrow> c | Some m \<Rightarrow> pm_release m c) in
      case dev_map d i of
        None \<Rightarrow> vram_scan d is None c1
      | Some m \<Rightarrow> let c2 = pm_retain m c1
                   in if vram_size_ok (pm_len m) then (True, Some m, c2) else vram_scan d is (Some m) c2)"

fun vram_attempts :: "nat \<Rightarrow> pci_dev \<Rightarrow> pci_map option \<Rightarrow> bar_cache \<Rightarrow> bool \<times> pci_map option \<times> bar_cache" where
  "vram_attempts 0 d cur c = (False, cur, c)"
| "vram_attempts (Suc n) d cur c =
     (case vram_scan d [0..<6] cur c of
        (True, cur', c') \<Rightarrow> (True, cur', c')
      | (False, cur', c') \<Rightarrow> vram_attempts n d cur' c')"

text \<open>The range: of a device's memory, or of the buffer allocated for it.\<close>

datatype offered_range = Device_range u64 nat | Buffer_range memdesc nat

text \<open>The default: the range of a buffer whose only reference is given back before the range is returned.\<close>

definition default_range :: "bring_env \<Rightarrow> board \<Rightarrow> offered_range option \<times> board" where
  "default_range e b =
     (let n = 512 * 1024 * 1024 in
      case bmd_alloc (be_dev e) (tr_tick (g_tr (bd_gpu b))) n of
        None \<Rightarrow> (None, b)
      | Some d \<Rightarrow> (if range_alloc e then Some (Buffer_range d n) else None, bd_on_gpu (\<lambda>g. md_release d (md_retain d g)) b))"

definition gpu_getVRAMRange :: "bring_env \<Rightarrow> pci_dev option \<Rightarrow> board \<Rightarrow> offered_range option \<times> board" where
  "gpu_getVRAMRange e pd b =
     (case pd of
        None \<Rightarrow> (None, b)
      | Some d \<Rightarrow>
          (case vram_attempts 3 d None (bd_bars b) of
             (found, cur, c) \<Rightarrow>
               let b1 = b\<lparr>bd_bars := (case cur of None \<Rightarrow> c | Some m \<Rightarrow> pm_release m c)\<rparr> in
               (case cur of
                  Some m \<Rightarrow> if found \<and> range_alloc e then (Some (Device_range (pm_phys m) (pm_len m)), b1)
                            else default_range e b1
                | None \<Rightarrow> default_range e b1)))"

section \<open>An older negotiation\<close>

text \<open>
  \<^verbatim>\<open>negotiateVirtIOFeatures\<close>, which nothing calls: the result and the 32-bit writes it makes, by physical address. The check
  adds in 32 bits.
\<close>

definition negotiateVirtIOFeatures :: "bring_env \<Rightarrow> pci_dev option \<Rightarrow> board \<Rightarrow> (bool \<times> (u64 \<times> u32) list) option" where
  "negotiateVirtIOFeatures e pd b =
     (case findVirtIOCapability pd VIRTIO_PCI_CAP_COMMON_CFG of
        None \<Rightarrow> None
      | Some None \<Rightarrow> Some (False, [])
      | Some (Some (bar, off, _)) \<Rightarrow> Some
          (case dev_map (the pd) (unat bar) of
             None \<Rightarrow> (False, [])
           | Some m \<Rightarrow>
               if \<not> map_virt e m then (False, [])
               else if unat (off + 0x10) > pm_len m then (False, [])
               else let regs = pm_phys m + ucast off; features = cfg_word e (bd_status_writes b) (regs + 4)
                    in if features AND 1 \<noteq> 0 then (True, [(regs + 8, 1)]) else (False, [])))"

section \<open>What 3D start-up keeps\<close>

definition kept3d :: "gpu \<Rightarrow> gpu \<Rightarrow> bool" where
  "kept3d g g' \<longleftrightarrow> tr_fixed (g_tr g') = tr_fixed (g_tr g) \<and> (bufs_ok (m_vq (g_tr g)) \<longrightarrow> bufs_ok (m_vq (g_tr g')))
     \<and> m_num_capsets g' = m_num_capsets g \<and> m_max_scanouts g' = m_max_scanouts g \<and> m_pci_device g' = m_pci_device g"

named_theorems kept_rules

lemma kept3d_refl [simp]: "kept3d g g"
  by (simp add: kept3d_def)

lemma kept3d_trans: "kept3d g g1 \<Longrightarrow> kept3d g1 g2 \<Longrightarrow> kept3d g g2"
  by (simp add: kept3d_def)

lemma kept_submit:
  assumes "submitCommand e (Some c) r (g_tr g) = (ret, resp, t)"
  shows "kept3d g (g\<lparr>g_tr := t\<rparr>)"
  using effect_submitCommand [OF assms] core_submitCommand [OF assms] by (auto simp: kept3d_def submit_effect_def bufs_ok_def vq_core_def)

lemma kept_send [kept_rules]: "send e c n g = (ret, resp, g') \<Longrightarrow> kept3d g g'"
  using kept_submit by (auto simp: send_def split: prod.splits)

lemma kept_send_hdr [kept_rules]: "send_hdr e c g = (ret, ty, g') \<Longrightarrow> kept3d g g'"
  using kept_send by (auto simp: send_hdr_def split: prod.splits)

lemma kept_md [simp]:
  "kept3d g (md_retain d g') = kept3d g g'" "kept3d g (md_release d g') = kept3d g g'" "kept3d g (md_do_prepare d g') = kept3d g g'"
  "kept3d g (g'\<lparr>g_heap := h\<rparr>) = kept3d g g'" "kept3d g (g'\<lparr>m_next_resource_id := i\<rparr>) = kept3d g g'"
  "kept3d g (g'\<lparr>m_control_queue := q\<rparr>) = kept3d g g'" "kept3d g (g'\<lparr>m_next_context_id := i\<rparr>) = kept3d g g'"
  "kept3d (g\<lparr>m_control_queue := q\<rparr>) g' = kept3d g g'"
  by (simp_all add: kept3d_def md_retain_def md_release_def md_do_prepare_def)

lemma kept_register: "pool_register r g = Some g' \<Longrightarrow> kept3d g g'"
  by (auto simp: pool_register_def kept3d_def split: option.splits)

lemma kept_context [kept_rules]:
  assumes "createRenderContext e g = (ret, cid, g')"
  shows "kept3d g g'"
proof (cases "supports3D g")
  case True
  let ?g = "g\<lparr>m_next_context_id := m_next_context_id g + 1\<rparr>"
  obtain hdr g2 where h: "initializeCommandHeader VIRTIO_GPU_CMD_CTX_CREATE (m_next_context_id g + 1) False ?g = (hdr, g2)" by fastforce
  then have "g2 = ?g" by (simp add: initializeCommandHeader_def)
  then have "kept3d g g2" by simp
  moreover have "kept3d g2 g'" using assms True h kept_send_hdr by (auto simp: createRenderContext_def Let_def split: prod.splits)
  ultimately show ?thesis by (rule kept3d_trans)
next
  case False
  then show ?thesis using assms by (simp add: createRenderContext_def)
qed

lemma kept_create3D [kept_rules]:
  assumes "createResource3D e rid target fmt bnd w h d g = (ret, g')"
  shows "kept3d g g'"
proof -
  obtain r ty g1 where s: "send_hdr e (wire_encode (mk_hdr VIRTIO_GPU_CMD_RESOURCE_CREATE_3D 0)
      (create3d_body rid target fmt bnd w h d)) g = (r, ty, g1)" by (rule prod_cases3)
  note k = kept_send_hdr [OF s]
  have "kept3d g g3" if "pool_register x (g1\<lparr>g_heap := n\<rparr>) = Some g3" for x n g3
    using kept3d_trans [OF _ kept_register [OF that], of g] k by simp
  then show ?thesis using assms s k by (auto simp: createResource3D_def Let_def split: if_splits option.splits)
qed

lemma kept_webgl_resource: "kept3d g (webgl_resource e fmt bnd g)"
proof -
  obtain r g' where c: "createResource3D e (m_next_resource_id g + 1) 2 fmt bnd 1280 720 1
      (g\<lparr>m_next_resource_id := m_next_resource_id g + 1\<rparr>) = (r, g')" by fastforce
  then show ?thesis using kept3d_trans [OF _ kept_create3D [OF c], of g] by (simp add: webgl_resource_def Let_def)
qed

lemma kept_webgl: "kept3d g (initializeWebGLAcceleration e g)"
proof -
  obtain ret cid g1 where c: "createRenderContext e g = (ret, cid, g1)" by (rule prod_cases3)
  obtain r m g2 where a: "allocateGPUMemory e (256 * 1024 * 1024) g1 = (r, m, g2)" by (rule prod_cases3)
  have "kept3d g g2" using kept_context [OF c] a by (auto simp: allocateGPUMemory_def split: option.splits)
  then have "kept3d g (webgl_resource e 49 1 (webgl_resource e 2 2 g2))" using kept_webgl_resource kept3d_trans by blast
  then show ?thesis using c a kept_context [OF c] by (simp add: initializeWebGLAcceleration_def)
qed

lemma kept_capset: "kept3d g (query_capset e i g)"
proof -
  obtain ret resp g1 where s: "send e (capset_info_command i) 40 g = (ret, resp, g1)" by (rule prod_cases3)
  note k = kept_send [OF s]
  have "kept3d g (g1\<lparr>g_tr := t\<rparr>)" if "submitCommand e (Some c) r (g_tr g1) = (ret2, resp2, t)" for c r ret2 resp2 t
    using kept3d_trans [OF k kept_submit [OF that]] .
  then show ?thesis using s k by (auto simp: query_capset_def Let_def split: option.splits prod.splits)
qed

lemma kept_capsets: "kept3d g (query_capsets e n i g)"
proof (induction n arbitrary: i g)
  case (Suc n)
  show ?case using kept3d_trans [OF kept_capset Suc.IH] by simp
qed simp

lemma kept_virgl: "kept3d g (enableVirgl e g)"
  by (simp add: enableVirgl_def kept_capsets)

section \<open>What the later stages keep of the board\<close>

definition same_board :: "board \<Rightarrow> board \<Rightarrow> bool" where
  "same_board b b' \<longleftrightarrow> bd_notify b' = bd_notify b \<and> bd_bars b' = bd_bars b \<and> kept3d (bd_gpu b) (bd_gpu b')"

lemma queue_buffer_kept: "queue_buffer e n cur g = (m, g') \<Longrightarrow> kept3d g g'"
  by (auto simp: queue_buffer_def split: option.splits)

lemma kept_wire: "kept3d g (wire_desc d g') = kept3d g g'"
  by (simp add: wire_desc_def)

lemma same_board_trans: "same_board b b1 \<Longrightarrow> same_board b1 b2 \<Longrightarrow> same_board b b2"
  using kept3d_trans by (auto simp: same_board_def)

lemma same_control [simp]: "same_board b (set_control m b') = same_board b b'"
  by (simp add: same_board_def set_control_def bd_on_gpu_def)

lemma cursor_same:
  assumes "cursor_buffer e control b = (ok, b')"
  shows "same_board b b'"
proof -
  obtain m g where q: "queue_buffer (be_dev e) (m_cursor_queue_size b) (bd_cursor_desc b) (bd_gpu b) = (m, g)" by fastforce
  note k = queue_buffer_kept [OF q]
  show ?thesis
    using assms k
    by (cases m) (auto simp: cursor_buffer_def q same_board_def set_control_def bd_on_gpu_def setupVirtIOHardwareQueues_def kept_wire)
qed

lemma queues_same:
  assumes "initializeVirtIOQueues e pd b = (ok, b')"
  shows "same_board b b'"
proof (cases "pd = None \<or> bd_control_desc b \<noteq> None \<and> bd_cursor_desc b \<noteq> None")
  case True
  then have "b' = b" using assms by (auto simp: initializeVirtIOQueues_def split: if_splits)
  then show ?thesis by (simp add: same_board_def)
next
  case False
  let ?b1 = "setOptimalQueueSizes b"
  have s: "bd_gpu ?b1 = bd_gpu b" "bd_notify ?b1 = bd_notify b" "bd_bars ?b1 = bd_bars b"
    by (simp_all add: setOptimalQueueSizes_def Let_def)
  obtain m g where q: "queue_buffer (be_dev e) (m_control_queue_size ?b1) (bd_control_desc ?b1) (bd_gpu ?b1) = (m, g)" by fastforce
  have k: "same_board b (?b1\<lparr>bd_gpu := g\<rparr>)" using queue_buffer_kept [OF q] by (simp add: same_board_def s)
  have r: "initializeVirtIOQueues e pd b = (case m of None \<Rightarrow> (False, set_control None (?b1\<lparr>bd_gpu := g\<rparr>))
     | Some c \<Rightarrow> cursor_buffer e c (set_control (Some c) (?b1\<lparr>bd_gpu := g\<rparr>)))"
    using False by (cases m) (auto simp add: initializeVirtIOQueues_def Let_def q)
  show ?thesis
  proof (cases m)
    case None
    then show ?thesis using r assms k by auto
  next
    case (Some c)
    then have "cursor_buffer e c (set_control (Some c) (?b1\<lparr>bd_gpu := g\<rparr>)) = (ok, b')" using r assms by simp
    from same_board_trans [OF _ cursor_same [OF this]] k show ?thesis by simp
  qed
qed

lemma kept_start3D: "kept3d g (initializeWebGLAcceleration e (if supports3D g then enableVirgl e g else g))"
  using kept3d_trans [OF kept_virgl kept_webgl] kept_webgl by simp

lemma enable3D_same: "same_board b (enable3DAcceleration e pd b)"
proof -
  obtain ok b1 where q: "initializeVirtIOQueues e pd b = (ok, b1)" by fastforce
  have "same_board b1 (bd_on_gpu (\<lambda>g. initializeWebGLAcceleration (be_dev e) (if supports3D g then enableVirgl (be_dev e) g else g)) b1)"
    using kept_start3D by (simp add: same_board_def bd_on_gpu_def)
  from same_board_trans [OF queues_same [OF q] this] queues_same [OF q] show ?thesis
    by (simp add: enable3DAcceleration_def q) (simp add: same_board_def)
qed

section \<open>The configuration and the queues\<close>

text \<open>Limits the code accepts.\<close>

definition limits_ok :: "gpu \<Rightarrow> bool" where
  "limits_ok g \<longleftrightarrow> 1 \<le> m_max_scanouts g \<and> m_max_scanouts g \<le> 16 \<and> m_num_capsets g \<le> 64"

lemma set_limits_simps [simp]:
  "g_tr (bd_gpu (set_limits s c b)) = g_tr (bd_gpu b)" "m_pci_device (bd_gpu (set_limits s c b)) = m_pci_device (bd_gpu b)"
  "bd_bars (set_limits s c b) = bd_bars b" "bd_notify (set_limits s c b) = bd_notify b"
  "bd_control_desc (set_limits s c b) = bd_control_desc b" "bd_cursor_desc (set_limits s c b) = bd_cursor_desc b"
  "m_num_capsets (bd_gpu (set_limits s c b)) = c" "limits_ok (bd_gpu (set_limits s c b)) = (1 \<le> s \<and> s \<le> 16 \<and> c \<le> 64)"
  by (simp_all add: set_limits_def bd_on_gpu_def limits_ok_def)

abbreviation same_descs :: "board \<Rightarrow> board \<Rightarrow> bool" where
  "same_descs b b' \<equiv> bd_control_desc b' = bd_control_desc b \<and> bd_cursor_desc b' = bd_cursor_desc b"

definition config_done :: "board \<Rightarrow> bar_cache \<Rightarrow> board \<Rightarrow> bool" where
  "config_done b c b' \<longleftrightarrow> g_tr (bd_gpu b') = g_tr (bd_gpu b) \<and> m_pci_device (bd_gpu b') = m_pci_device (bd_gpu b)
     \<and> bd_bars b' = c \<and> bd_notify b' = bd_notify b \<and> same_descs b b' \<and> limits_ok (bd_gpu b')"

lemma one_le_pos: "(0 :: u32) < x \<Longrightarrow> 1 \<le> x"
  by (simp add: word_less_nat_alt word_le_nat_alt)

lemma direct_limits_done: "config_done b (bd_bars b) (direct_limits e d bar off b)"
  using one_le_pos by (auto simp: direct_limits_def config_done_def split: option.splits prod.splits)

lemma early_reset_frame:
  "early_reset e d b = Some b' \<Longrightarrow> bd_gpu b' = bd_gpu b \<and> bd_bars b' = bd_bars b \<and> bd_notify b' = bd_notify b \<and> same_descs b b'"
  by (auto simp: early_reset_def Let_def split: option.splits if_splits)

lemma le_64: "(x :: u32) \<le> 16 \<Longrightarrow> x \<le> 64"
  by (simp add: word_le_nat_alt)

lemma mapped_limits_done: "config_done b (bd_bars b) (mapped_limits e a b)"
  using le_64 by (auto simp: mapped_limits_def config_done_def Let_def split: prod.splits)

lemma read_config_result:
  assumes "read_device_config e (Some d) b = Some (go, b')"
  shows "go \<and> (\<exists>bar. config_done b (snd (snd (mapBarByNumber (Some d) bar False (bd_bars b)))) b')"
proof -
  obtain bar off len where f: "findVirtIOCapability (Some d) VIRTIO_PCI_CAP_DEVICE_CFG = Some (Some (bar, off, len))"
    using assms by (auto simp: read_device_config_def findVirtIOCapability_def cap_fallback_def split: option.splits)
  obtain mo ix c where m: "mapBarByNumber (Some d) bar False (bd_bars b) = (mo, ix, c)" by (rule prod_cases3)
  let ?b1 = "b\<lparr>m_device_cfg_bar := bar, m_device_cfg_offset := off, bd_bars := c, bd_config_map := mo\<rparr>"
  have t: "config_done b c x" if "config_done ?b1 c x" for x using that by (simp add: config_done_def)
  have one: "config_done b c (set_limits 1 0 ?b1)" by (simp add: config_done_def)
  have dir: "config_done b c (direct_limits e d bar off ?b1)" using t direct_limits_done [of ?b1] by simp
  have map: "config_done b c (mapped_limits e a b2)" if "early_reset e d ?b1 = Some b2" for a b2
    using t mapped_limits_done [of b2 e a] early_reset_frame [OF that] by (simp add: config_done_def)
  have "go \<and> config_done b c b'"
  proof (cases mo)
    case None
    then show ?thesis using assms f m one by (simp add: read_device_config_def Let_def)
  next
    case (Some x)
    then show ?thesis
      using assms f m one dir map
      by (cases "map_virt e x"; cases "pm_len x < unat off + 16") (auto simp: read_device_config_def Let_def)
  qed
  then show ?thesis using m by (intro conjI exI [of _ bar]) simp_all
qed

lemma find_returns:
  assumes "cap_chain d (cfg8 d 0x34) cs"
  shows "\<exists>r. findVirtIOCapability (Some d) ty = Some r"
  using capability_first_match [OF assms] by blast

lemma read_config_returns:
  assumes "cap_chain d (cfg8 d 0x34) cs"
  shows "\<exists>b'. read_device_config e (Some d) b = Some (True, b')"
proof -
  obtain r where r: "findVirtIOCapability (Some d) VIRTIO_PCI_CAP_DEVICE_CFG = Some r" using find_returns [OF assms] by blast
  obtain r2 where r2: "findVirtIOCapability (Some d) VIRTIO_PCI_CAP_COMMON_CFG = Some r2" using find_returns [OF assms] by blast
  have "\<exists>x. early_reset e d b1 = Some x" for b1 using r2 by (cases r2) (auto simp: early_reset_def)
  then have "\<exists>go x. read_device_config e (Some d) b = Some (go, x)"
    using r by (fastforce simp: read_device_config_def Let_def split: option.splits prod.splits)
  then obtain go x where g: "read_device_config e (Some d) b = Some (go, x)" by blast
  with read_config_result [OF g] show ?thesis by simp
qed

lemma setup_ring_mult: "setup_ring e s = (r, s') \<Longrightarrow> m_notify_off_multiplier (hw_tr s') = m_notify_off_multiplier (hw_tr s)"
  by (auto simp: setup_ring_def Let_def split: if_splits option.splits)

lemma setup_finish_mult: "setup_finish e off s = (r, s') \<Longrightarrow> m_notify_off_multiplier (hw_tr s') = m_notify_off_multiplier (hw_tr s)"
  using setupCursorQueue_frame [of e s "fst (setupCursorQueue e s)" "snd (setupCursorQueue e s)"]
  by (auto simp: setup_finish_def Let_def split: if_splits)

lemma setup_mult:
  assumes "setupControlVirtQueue e (Some d) s = Some (ok, s')" "readCommonConfig (Some d) = Some (Some x)"
    and "readNotifyConfig (Some d) = Some (Some (bar, off, factor))"
  shows "m_notify_off_multiplier (hw_tr s') = factor"
proof -
  obtain coff cbar cmap where x: "x = (coff, cbar, cmap)" by (rule prod_cases3)
  obtain neg where n: "setup_status e (setup_notify d (Some (bar, off, factor)) (hw_tr s))
      = reg_write neg (setup_notify d (Some (bar, off, factor)) (hw_tr s))" using setup_status_frame by blast
  have m: "m_notify_off_multiplier (setup_notify d (Some (bar, off, factor)) (hw_tr s)) = factor"
    by (simp add: setup_notify_def Let_def)
  obtain r s2 where r: "setup_ring e (s\<lparr>m_common_cfg := Some coff, m_common_map := Some cmap,
      hw_tr := setup_status e (setup_notify d (Some (bar, off, factor)) (hw_tr s))\<rparr>) = (r, s2)" by fastforce
  have "m_notify_off_multiplier (hw_tr s2) = factor" using setup_ring_mult [OF r] m n by simp
  then show ?thesis
    using assms x r setup_finish_mult by (auto simp: setupControlVirtQueue_def Let_def split: option.splits)
qed

lemma setup_bufs:
  assumes "setupControlVirtQueue e (Some d) s = Some (ok, s')"
    and "\<not> vq_initialized (m_vq (hw_tr s))" "\<not> vq_initialized (m_cursor_vq (hw_tr s))"
  shows "bufs_ok (m_vq (hw_tr s'))"
  using assms(1)
proof (cases rule: setupControl_cases)
  case 1
  then show ?thesis using assms by (simp add: bufs_ok_def)
next
  case (2 s1 s2 neg)
  then show ?thesis using setup_ring_frame [OF 2(2)] assms by (simp add: bufs_ok_def)
next
  case (3 s1 s2 neg off)
  have "m_cursor_vq (hw_tr s2) = m_cursor_vq (hw_tr s)" "\<not> vq_initialized (m_vq (hw_tr s2))"
    using setup_ring_frame [OF 3(2)] 3(1) assms(2) by simp_all
  then show ?thesis using setup_finish_result [OF 3(3)] assms(3) by simp
qed

lemma setup_mapping_frame [simp]:
  "bd_control_desc (setup_mapping pd b) = bd_control_desc b" "bd_cursor_desc (setup_mapping pd b) = bd_cursor_desc b"
  "bd_gpu (setup_mapping pd b) = bd_gpu b" "m_bar_maps (bd_bars (setup_mapping pd b)) = m_bar_maps (bd_bars b)"
  by (auto simp: setup_mapping_def pm_retain_def split: option.splits prod.splits)

lemma setup_queue_result:
  assumes "setup_queue e (Some d) b = Some (ok, b')"
  obtains s where "setupControlVirtQueue (be_setup e) (Some d) (hw_of b) = Some (ok, s)" "bd_gpu b' = (bd_gpu b)\<lparr>g_tr := hw_tr s\<rparr>"
    "m_bar_maps (bd_bars b') = m_bar_maps (bd_bars b)" "same_descs b b'"
  using assms by (auto simp: setup_queue_def put_hw_def on_tr_def bd_on_gpu_def)

section \<open>The notify mapping\<close>

text \<open>What the PCI family promises: a mapping knows its index and shows the memory of that index.\<close>

definition good_maps :: "pci_dev \<Rightarrow> bool" where
  "good_maps d \<longleftrightarrow> (\<forall>i < 6. \<forall>m. dev_map d i = Some m \<longrightarrow> pm_index m = i \<and> dev_mem d i = Some (pm_phys m))"

definition cache_ok :: "pci_dev \<Rightarrow> (nat \<Rightarrow> pci_map option) \<Rightarrow> bool" where
  "cache_ok d c \<longleftrightarrow> (\<forall>bar m. c (unat (bar :: u8)) = Some m \<longrightarrow> bar_address d bar = Some (pm_phys m) \<and> (\<exists>i < 6. dev_map d i = Some m))"

lemma match_index_found:
  "i \<in> set is \<Longrightarrow> dev_map d i = Some m \<Longrightarrow> pm_phys m = phys \<Longrightarrow> fst (match_index d phys is c) \<noteq> None"
  by (induction "is" arbitrary: c) (auto simp: Let_def split: option.splits)

lemma mapBar_result:
  assumes "mapBarByNumber (Some d) bar want c = (mo, ix, c')" "cache_ok d (m_bar_maps c)" "good_maps d"
  shows "cache_ok d (m_bar_maps c')
     \<and> (\<forall>m. mo = Some m \<longrightarrow> bar_address d bar = Some (pm_phys m) \<and> (\<exists>i < 6. dev_map d i = Some m)
          \<and> (want \<longrightarrow> (\<exists>i < 6. ix = Some i \<and> (\<exists>m'. dev_map d i = Some m' \<and> pm_phys m' = pm_phys m))))
     \<and> (bar < 6 \<longrightarrow> bar_address d bar = Some phys \<longrightarrow> (\<exists>i < 6. \<exists>m. dev_map d i = Some m \<and> pm_phys m = phys) \<longrightarrow> mo \<noteq> None)"
proof (cases "bar \<ge> 6")
  case True
  then have "\<not> bar < 6" by simp
  with True assms show ?thesis by (simp add: mapBarByNumber_def)
next
  case low: False
  have inj: "\<And>x y :: u8. unat x = unat y \<Longrightarrow> x = y" by (simp add: word_unat_eq_iff)
  have idx: "\<exists>i < 6. pm_index m = i \<and> dev_map d i = Some m" if "\<exists>i \<in> set [0..<6]. dev_map d i = Some m" for m
    using that assms(3) by (auto simp: good_maps_def)
  show ?thesis
  proof (cases "m_bar_maps c (unat bar)")
    case (Some m)
    then have m: "bar_address d bar = Some (pm_phys m)" "\<exists>i < 6. dev_map d i = Some m" using assms(2) by (auto simp: cache_ok_def)
    obtain t c1 where x: "(if want then match_index d (pm_phys m) [0..<6] c else (None, c)) = (t, c1)" by fastforce
    have c1: "m_bar_maps c1 = m_bar_maps c"
      using x match_index_result [of d "pm_phys m" "[0..<6]" c t c1] by (auto simp: pm_retain_def split: if_splits option.splits)
    have t: "\<exists>y. t = Some y \<and> pm_phys y = pm_phys m \<and> (\<exists>i < 6. pm_index y = i \<and> dev_map d i = Some y)" if want
    proof -
      obtain i where "i < 6" "dev_map d i = Some m" using m(2) by blast
      then have "t \<noteq> None" using x that match_index_found [of i "[0..<6]" d m "pm_phys m" c] by auto
      then show ?thesis using x that match_index_result [of d "pm_phys m" "[0..<6]" c t c1] idx by auto
    qed
    have "mo = Some m \<and> ix = map_option pm_index t \<and> m_bar_maps c' = m_bar_maps c"
      using assms(1) low Some c1 by (auto simp: mapBarByNumber_def x pm_retain_def pm_release_def split: option.splits)
    then show ?thesis using m t assms(2) by auto
  next
    case None
    show ?thesis
    proof (cases "bar_address d bar")
      case None
      then show ?thesis using assms low \<open>m_bar_maps c (unat bar) = None\<close> by (simp add: mapBarByNumber_def)
    next
      case (Some p)
      obtain t c1 where x: "match_index d p [0..<6] c = (t, c1)" by fastforce
      show ?thesis
      proof (cases t)
        case None
        then have "\<not> (\<exists>i < 6. \<exists>m. dev_map d i = Some m \<and> pm_phys m = p)"
          using x match_index_found [of _ "[0..<6]" d _ p c] by fastforce
        then show ?thesis
          using assms low Some x None match_index_result [OF x] \<open>m_bar_maps c (unat bar) = None\<close> by (auto simp: mapBarByNumber_def)
      next
        case (Some m)
        have c1: "c1 = pm_retain m c" "pm_phys m = p" and m: "\<exists>i < 6. pm_index m = i \<and> dev_map d i = Some m"
          using match_index_result [OF x] Some idx by auto
        have r: "mo = Some m" "ix = (if want then Some (pm_index m) else None)" "m_bar_maps c' = (m_bar_maps c)(unat bar \<mapsto> m)"
          using assms(1) low x Some c1 \<open>bar_address d bar = Some p\<close> \<open>m_bar_maps c (unat bar) = None\<close>
          by (auto simp: mapBarByNumber_def pm_retain_def)
        have "cache_ok d (m_bar_maps c')"
          using assms(2) m c1 r(3) \<open>bar_address d bar = Some p\<close> inj by (auto simp: cache_ok_def split: if_splits)
        then show ?thesis using r c1 m \<open>bar_address d bar = Some p\<close> by auto
      qed
    qed
  qed
qed

lemma page_split:
  assumes "direct_notify e d ix off = Some (m, po)" "\<forall>a n m. phys_map e a n = Some m \<longrightarrow> pm_phys m = a"
    and "\<And>i. ix = Some i \<Longrightarrow> dev_mem d i = Some phys"
  shows "pm_phys m + ucast po = phys + ucast off"
proof -
  let ?t = "phys + ucast off :: u64"
  obtain i n where i: "ix = Some i" "phys_map e (?t AND NOT 0xFFF) n = Some m" "po = ucast (?t - (?t AND NOT 0xFFF))"
    using assms(1,3) by (auto simp: direct_notify_def Let_def split: option.splits if_splits)
  have d: "?t - (?t AND NOT 0xFFF) = ?t AND 0xFFF"
  proof -
    have "(?t AND NOT 0xFFF) + (?t AND 0xFFF) = (?t AND NOT 0xFFF) OR (?t AND 0xFFF)"
      by (rule disjunctive_add) (simp add: bit_simps)
    also have "\<dots> = ?t" by (rule bit_eqI) (auto simp: bit_simps)
    finally show ?thesis by (simp add: algebra_simps)
  qed
  have k: "(0xFFF :: u64) = mask 12" by (simp add: mask_eq_exp_minus_1)
  have "ucast (ucast (?t AND 0xFFF) :: u32) = ?t AND 0xFFF"
    unfolding k by (rule bit_eqI) (auto simp: bit_simps)
  then have "ucast po = ?t AND 0xFFF" unfolding i(3) d .
  moreover have "pm_phys m = ?t AND NOT 0xFFF" using i(2) assms(2) by blast
  ultimately show ?thesis using d by (metis add.commute diff_add_cancel)
qed

lemma regions_result:
  assumes "setupGPUMemoryRegions e (Some d) b = Some (ok, b')"
    and "findVirtIOCapability (Some d) VIRTIO_PCI_CAP_NOTIFY_CFG = Some (Some (bar, off, len))"
    and "cache_ok d (m_bar_maps (bd_bars b))" "good_maps d" "bar < 6" "bar_address d bar = Some phys"
    and "\<exists>i < 6. \<exists>m. dev_map d i = Some m \<and> pm_phys m = phys"
    and use: "\<And>i m. i < 6 \<Longrightarrow> dev_map d i = Some m \<Longrightarrow> pm_phys m = phys \<Longrightarrow>
       unat (off + 4) \<le> pm_len m \<and> map_virt e m \<or> (\<forall>j < 6. \<forall>m'. dev_map d j = Some m' \<and> pm_phys m' = phys \<longrightarrow> direct_notify e d (Some j) off \<noteq> None)"
    and pc: "\<forall>a n m. phys_map e a n = Some m \<longrightarrow> pm_phys m = a"
  shows "\<exists>m t. g_tr (bd_gpu b') = t \<and> bd_notify b' = Some m \<and> m_notify_map t
     \<and> pm_phys m + ucast (m_notify_cap_offset t) = phys + ucast off
     \<and> m_notify_off_multiplier t = m_notify_off_multiplier (g_tr (bd_gpu b))"
proof -
  let ?b0 = "on_tr (\<lambda>t. t\<lparr>m_notify_base := False\<rparr>) b"
  obtain mo ix c where q: "mapBarByNumber (Some d) bar True (bd_bars b) = (mo, ix, c)" by (rule prod_cases3)
  from mapBar_result [OF q assms(3,4), of phys] assms(5-7) obtain m i m' where m: "mo = Some m" "pm_phys m = phys"
    and i: "ix = Some i" "i < 6" "dev_map d i = Some m'" "pm_phys m' = phys" and dm: "\<exists>j < 6. dev_map d j = Some m"
    by (cases mo) auto
  have mem: "dev_mem d i = Some phys" using i assms(4) by (auto simp: good_maps_def)
  have b0: "bd_bars ?b0 = bd_bars b" by (simp add: on_tr_def bd_on_gpu_def)
  note f = set_notify_def set_cap_offset_def drop_notify_def on_tr_def bd_on_gpu_def
  show ?thesis
  proof (cases "unat (off + 4) \<le> pm_len m \<and> map_virt e m")
    case True
    then show ?thesis using assms(1,2) q m by (auto simp: setupGPUMemoryRegions_def Let_def b0 f)
  next
    case False
    obtain dm po where n: "direct_notify e d ix off = Some (dm, po)" using use [OF _ _ m(2)] dm False i by (metis not_Some_eq surj_pair)
    then have "pm_phys dm + ucast po = phys + ucast off" using page_split [OF n pc, of phys] mem i by simp
    then show ?thesis using assms(1,2) q m n False by (auto simp: setupGPUMemoryRegions_def Let_def b0 f)
  qed
qed

lemma regions_kept: "setupGPUMemoryRegions e pd b = Some (ok, b') \<Longrightarrow>
    m_vq (g_tr (bd_gpu b')) = m_vq (g_tr (bd_gpu b)) \<and> m_max_scanouts (bd_gpu b') = m_max_scanouts (bd_gpu b)
    \<and> m_num_capsets (bd_gpu b') = m_num_capsets (bd_gpu b) \<and> m_pci_device (bd_gpu b') = m_pci_device (bd_gpu b)"
  by (auto simp: setupGPUMemoryRegions_def Let_def set_notify_def set_cap_offset_def drop_notify_def on_tr_def bd_on_gpu_def
      split: option.splits prod.splits if_splits)

lemma regions_returns:
  assumes "cap_chain d (cfg8 d 0x34) cs"
  shows "\<exists>r. setupGPUMemoryRegions e (Some d) b = Some r"
proof -
  obtain r where "findVirtIOCapability (Some d) VIRTIO_PCI_CAP_NOTIFY_CFG = Some r" using find_returns [OF assms] by blast
  then show ?thesis by (auto simp: setupGPUMemoryRegions_def Let_def split: option.splits prod.splits)
qed

text \<open>The stages of a bring-up that got as far as the doorbell.\<close>

lemma bring_up_stages:
  assumes "initVirtIOGPU e (Some d) b = Some (ok, b')"
  obtains b1 qok b2 where "read_device_config e (Some d) b = Some (True, b1)" "setup_queue e (Some d) b1 = Some (qok, b2)"
    "initializeVirtIOQueues e (Some d) b2 = (False, b')" "\<not> ok"
  | b1 qok b2 b3 rok b4 where "read_device_config e (Some d) b = Some (True, b1)" "setup_queue e (Some d) b1 = Some (qok, b2)"
    "initializeVirtIOQueues e (Some d) b2 = (True, b3)" "setupGPUMemoryRegions e (Some d) b3 = Some (rok, b4)"
    "b' = enable3DAcceleration e (Some d) b4" "ok"
proof -
  obtain b1 where c: "read_device_config e (Some d) b = Some (True, b1)"
    using assms read_config_result by (fastforce simp: initVirtIOGPU_def split: option.splits)
  then obtain qok b2 where s: "setup_queue e (Some d) b1 = Some (qok, b2)"
    using assms by (auto simp: initVirtIOGPU_def split: option.splits)
  obtain iok b3 where i: "initializeVirtIOQueues e (Some d) b2 = (iok, b3)" by fastforce
  show thesis
  proof (cases iok)
    case False
    then show ?thesis using that(1) [OF c s] assms c s i by (simp add: initVirtIOGPU_def)
  next
    case True
    then show ?thesis using that(2) [OF c s] assms c s i by (auto simp: initVirtIOGPU_def split: option.splits)
  qed
qed

lemma readNotify_find:
  "readNotifyConfig (Some d) = Some (Some (bar, off, factor)) \<Longrightarrow>
     \<exists>len. findVirtIOCapability (Some d) VIRTIO_PCI_CAP_NOTIFY_CFG = Some (Some (bar, off, len))"
  by (auto simp: readNotifyConfig_def split: option.splits)

section \<open>Properties\<close>

text \<open>C14. Bring-up connects the doorbell to the device: when the capability list gives the notify structure at an offset in a BAR
  that the PCI family can map, and the mapping holds the register or can be replaced by one of its page, then after a
  bring-up that reports success every command, on either queue, writes to the physical address of the device's register:
  the address of the BAR, plus the offset, plus the queue's own offset times the multiplier of the capability.\<close>

theorem bring_up_doorbell:
  assumes "initVirtIOGPU e (Some d) b = Some (True, b')" "cache_ok d (m_bar_maps (bd_bars b))" "good_maps d"
    and "readCommonConfig (Some d) = Some (Some x)" "readNotifyConfig (Some d) = Some (Some (bar, off, factor))"
    and "bar < 6" "bar_address d bar = Some phys" "\<exists>i < 6. \<exists>m. dev_map d i = Some m \<and> pm_phys m = phys"
    and "(\<forall>i < 6. \<forall>m. dev_map d i = Some m \<and> pm_phys m = phys \<longrightarrow> unat (off + 4) \<le> pm_len m \<and> map_virt e m)
       \<or> (\<forall>i < 6. \<forall>m. dev_map d i = Some m \<and> pm_phys m = phys \<longrightarrow> direct_notify e d (Some i) off \<noteq> None)"
    and "\<forall>a n m. phys_map e a n = Some m \<longrightarrow> pm_phys m = a"
  shows "\<exists>m a v. bd_notify b' = Some m \<and> (let t = g_tr (bd_gpu b') in
     notify_device qi t = Some (t\<lparr>tr_trace := tr_trace t @ [Doorbell a v]\<rparr>)
     \<and> pm_phys m + a = phys + ucast off
         + ucast ((case qi of Control \<Rightarrow> m_notify_offset t | Cursor \<Rightarrow> m_cursor_notify_offset t) * factor))"
  using assms(1)
proof (cases rule: bring_up_stages)
  case (2 b1 qok b2 b3 rok b4)
  have c1: "cache_ok d (m_bar_maps (bd_bars b1))"
  proof -
    obtain cbar where "bd_bars b1 = snd (snd (mapBarByNumber (Some d) cbar False (bd_bars b)))"
      using read_config_result [OF 2(1)] by (auto simp: config_done_def)
    then show ?thesis using mapBar_result [OF _ assms(2,3)] by (metis prod.collapse)
  qed
  obtain s where s: "setupControlVirtQueue (be_setup e) (Some d) (hw_of b1) = Some (qok, s)" "bd_gpu b2 = (bd_gpu b1)\<lparr>g_tr := hw_tr s\<rparr>"
    "m_bar_maps (bd_bars b2) = m_bar_maps (bd_bars b1)" "same_descs b1 b2" using setup_queue_result [OF 2(2)] .
  have mul2: "m_notify_off_multiplier (g_tr (bd_gpu b2)) = factor" using setup_mult [OF s(1) assms(4,5)] s(2) by simp
  have b3: "same_board b2 b3" by (rule queues_same [OF 2(3)])
  obtain len where f: "findVirtIOCapability (Some d) VIRTIO_PCI_CAP_NOTIFY_CFG = Some (Some (bar, off, len))"
    using readNotify_find [OF assms(5)] by blast
  have "\<exists>m t. g_tr (bd_gpu b4) = t \<and> bd_notify b4 = Some m \<and> m_notify_map t
     \<and> pm_phys m + ucast (m_notify_cap_offset t) = phys + ucast off \<and> m_notify_off_multiplier t = m_notify_off_multiplier (g_tr (bd_gpu b3))"
    using c1 s(3) b3 assms(9) by (intro regions_result [OF 2(4) f _ assms(3,6-8) _ assms(10)]) (auto simp: same_board_def)
  then obtain m where m: "bd_notify b4 = Some m" "m_notify_map (g_tr (bd_gpu b4))"
    "pm_phys m + ucast (m_notify_cap_offset (g_tr (bd_gpu b4))) = phys + ucast off"
    "m_notify_off_multiplier (g_tr (bd_gpu b4)) = factor"
    using mul2 b3 by (auto simp: same_board_def kept3d_def tr_fixed_def)
  let ?t = "g_tr (bd_gpu b')"
  have t: "bd_notify b' = Some m" "m_notify_map ?t" "pm_phys m + ucast (m_notify_cap_offset ?t) = phys + ucast off"
    "m_notify_off_multiplier ?t = factor"
    using enable3D_same [of b4 e "Some d"] m 2(5) by (auto simp: same_board_def kept3d_def tr_fixed_def)
  let ?o = "case qi of Control \<Rightarrow> m_notify_offset ?t | Cursor \<Rightarrow> m_cursor_notify_offset ?t"
  have "pm_phys m + doorbell_addr ?o ?t = phys + ucast off + ucast (?o * factor)"
    using t(3,4) by (simp add: doorbell_addr_def add.assoc [symmetric])
  moreover have "\<exists>v. notify_device qi ?t = Some (?t\<lparr>tr_trace := tr_trace ?t @ [Doorbell (doorbell_addr ?o ?t) v]\<rparr>)"
    using t(2) by (auto simp: notify_device_def Let_def)
  ultimately show ?thesis using t(1) by (auto simp: Let_def)
qed simp

text \<open>C15. Bringing up a fresh driver object always returns when the capability list ends without a capability that points to
  itself, whatever the device's registers and memory answer and whichever allocation fails; afterwards the limits are
  in range, so the loops over scanouts and capability sets are short, a control queue that is up has its buffers, so no
  command can dereference a missing one, and the device pointer is kept exactly on success.\<close>

theorem bring_up_returns:
  assumes "cap_chain d (cfg8 d 0x34) cs" "cs = [] \<or> cfg8 d (unat (last cs) + 1) \<noteq> last cs"
  shows "\<exists>ok b'. initializeWithPCIDevice e (Some d) board_init = Some (ok, b') \<and> limits_ok (bd_gpu b')
     \<and> bufs_ok (m_vq (g_tr (bd_gpu b'))) \<and> m_pci_device (bd_gpu b') = ok"
proof -
  let ?b = "bd_on_gpu (\<lambda>g. g\<lparr>m_pci_device := True\<rparr>) board_init"
  obtain b1 where r: "read_device_config e (Some d) ?b = Some (True, b1)" using read_config_returns [OF assms(1)] by blast
  have b1: "g_tr (bd_gpu b1) = g_tr gpu_init" "m_pci_device (bd_gpu b1)" "limits_ok (bd_gpu b1)"
    using read_config_result [OF r] by (auto simp: config_done_def bd_on_gpu_def board_init_def)
  obtain c n where cn: "readCommonConfig (Some d) = Some c" "readNotifyConfig (Some d) = Some n" using config_reads_return [OF assms] by blast
  then have "\<exists>x. setupControlVirtQueue (be_setup e) (Some d) (hw_of b1) = Some x"
    by (cases c) (auto simp: setupControlVirtQueue_def Let_def split: option.splits prod.splits)
  then have "\<exists>qok b2. setup_queue e (Some d) b1 = Some (qok, b2)" by (auto simp: setup_queue_def)
  then obtain qok b2 where q: "setup_queue e (Some d) b1 = Some (qok, b2)" by blast
  obtain s where s: "setupControlVirtQueue (be_setup e) (Some d) (hw_of b1) = Some (qok, s)" "bd_gpu b2 = (bd_gpu b1)\<lparr>g_tr := hw_tr s\<rparr>"
    using setup_queue_result [OF q] by metis
  have "bufs_ok (m_vq (hw_tr s))"
    by (rule setup_bufs [OF s(1)]) (simp_all add: hw_of_def b1(1) gpu_init_def init_queue_def)
  then have g2: "bufs_ok (m_vq (g_tr (bd_gpu b2)))" "limits_ok (bd_gpu b2)" "m_pci_device (bd_gpu b2)"
    using b1 s(2) by (auto simp: limits_ok_def)
  obtain iok b3 where i: "initializeVirtIOQueues e (Some d) b2 = (iok, b3)" by fastforce
  have g3: "bufs_ok (m_vq (g_tr (bd_gpu b3)))" "limits_ok (bd_gpu b3)" "m_pci_device (bd_gpu b3)"
    using queues_same [OF i] g2 by (auto simp: same_board_def kept3d_def limits_ok_def)
  show ?thesis
  proof (cases iok)
    case False
    then show ?thesis using r q i g3 by (auto simp: initializeWithPCIDevice_def initVirtIOGPU_def bd_on_gpu_def limits_ok_def)
  next
    case True
    obtain rok b4 where m: "setupGPUMemoryRegions e (Some d) b3 = Some (rok, b4)" using regions_returns [OF assms(1)] by (metis surj_pair)
    have "bufs_ok (m_vq (g_tr (bd_gpu b4)))" "limits_ok (bd_gpu b4)" "m_pci_device (bd_gpu b4)"
      using regions_kept [OF m] g3 by (simp_all add: limits_ok_def)
    then show ?thesis
      using True r q i m enable3D_same [of b4 e "Some d"]
      by (auto simp: initializeWithPCIDevice_def initVirtIOGPU_def same_board_def kept3d_def limits_ok_def)
  qed
qed

text \<open>A device that reports no capability sets is taken for one with two, and so for one with 3D, as soon as its number of
  scanouts is one or out of range; only with more scanouts is the answer kept.\<close>

theorem no_capsets_become_two:
  assumes "findVirtIOCapability (Some d) VIRTIO_PCI_CAP_DEVICE_CFG = Some (Some (bar, off, len))"
    and "mapBarByNumber (Some d) bar False (bd_bars b) = (Some m, ix, c)" "map_virt e m" "unat off + 16 \<le> pm_len m"
    and "\<And>ws. cfg_word e ws (pm_phys m + ucast off + 8) = scanouts" "\<And>ws. cfg_word e ws (pm_phys m + ucast off + 12) = 0"
    and "initVirtIOGPU e (Some d) b = Some (ok, b')"
  shows "m_num_capsets (bd_gpu b') = (if 2 \<le> scanouts \<and> scanouts \<le> 16 then 0 else 2)
     \<and> supports3D (bd_gpu b') = (\<not> (2 \<le> scanouts \<and> scanouts \<le> 16))"
proof -
  have two: "(2 \<le> scanouts) = (1 \<le> scanouts \<and> scanouts \<noteq> 1)"
    by (auto simp: word_le_nat_alt word_unat_eq_iff)
  have conf: "m_num_capsets (bd_gpu b1) = (if 2 \<le> scanouts \<and> scanouts \<le> 16 then 0 else 2)"
    if r: "read_device_config e (Some d) b = Some (True, b1)" for b1
  proof -
    obtain b2 where "b1 = mapped_limits e (pm_phys m + ucast off) b2"
      using r assms(1-4) by (auto simp: read_device_config_def Let_def)
    moreover have "config_limits e (pm_phys m + ucast off) b2 = (scanouts, 0)" by (simp only: config_limits_def assms(5,6))
    ultimately have "m_num_capsets (bd_gpu b1) = (if (if 1 \<le> scanouts \<and> scanouts \<le> 16 then scanouts else 1) = 1 then 2 else 0)"
      by (simp only: mapped_limits_def Let_def prod.case set_limits_simps) simp
    then show ?thesis unfolding two by (cases "scanouts = 1"; cases "1 \<le> scanouts"; cases "scanouts \<le> 16") simp_all
  qed
  have keep: "m_num_capsets (bd_gpu b2) = m_num_capsets (bd_gpu b1)" if q: "setup_queue e (Some d) b1 = Some (qok, b2)" for b1 b2 qok
  proof -
    obtain s :: hw where "bd_gpu b2 = (bd_gpu b1)\<lparr>g_tr := hw_tr s\<rparr>" by (rule setup_queue_result [OF q])
    then show ?thesis by simp
  qed
  have "m_num_capsets (bd_gpu b') = (if 2 \<le> scanouts \<and> scanouts \<le> 16 then 0 else 2)"
    using assms(7)
  proof (cases rule: bring_up_stages)
    case (1 b1 qok b2)
    then show ?thesis using conf keep queues_same [OF 1(3)] by (simp add: same_board_def kept3d_def)
  next
    case (2 b1 qok b2 b3 rok b4)
    then show ?thesis
      using conf keep queues_same [OF 2(3)] regions_kept [OF 2(4)] enable3D_same [of b4 e "Some d"] by (simp add: same_board_def kept3d_def)
  qed
  then show ?thesis by (simp add: supports3D_def word_gt_0)
qed

definition drop_map :: "pci_map option \<Rightarrow> bar_cache \<Rightarrow> bar_cache" where
  "drop_map cur c = (case cur of None \<Rightarrow> c | Some m \<Rightarrow> pm_release m c)"

definition vram_bar :: "pci_dev \<Rightarrow> nat \<Rightarrow> bool" where
  "vram_bar d i = (case dev_map d i of None \<Rightarrow> False | Some m \<Rightarrow> vram_size_ok (pm_len m))"

lemma vram_scan_result:
  "vram_scan d is cur c = (f, cur', c') \<Longrightarrow> drop_map cur' c' = drop_map cur c \<and> f = (find (vram_bar d) is \<noteq> None)
     \<and> (f \<longrightarrow> cur' = dev_map d (the (find (vram_bar d) is)))"
proof (induction "is" arbitrary: cur c)
  case (Cons i "is")
  show ?case
  proof (cases "dev_map d i")
    case None
    then show ?thesis using Cons.IH [of None "drop_map cur c"] Cons.prems by (simp add: drop_map_def vram_bar_def)
  next
    case (Some m)
    show ?thesis
    proof (cases "vram_size_ok (pm_len m)")
      case True
      then have "vram_bar d i" using Some by (simp add: vram_bar_def)
      moreover have "f" "cur' = Some m" "c' = pm_retain m (drop_map cur c)"
        using True Some Cons.prems by (auto simp: drop_map_def Let_def)
      ultimately show ?thesis using Some by (simp add: drop_map_def)
    next
      case False
      then show ?thesis
        using Some Cons.IH [of "Some m" "pm_retain m (drop_map cur c)"] Cons.prems by (simp add: drop_map_def vram_bar_def Let_def)
    qed
  qed
qed auto

lemma vram_attempts_result:
  "vram_attempts n d cur c = (f, cur', c') \<Longrightarrow> drop_map cur' c' = drop_map cur c \<and> f = (0 < n \<and> find (vram_bar d) [0..<6] \<noteq> None)
     \<and> (f \<longrightarrow> cur' = dev_map d (the (find (vram_bar d) [0..<6])))"
proof (induction n arbitrary: cur c)
  case (Suc n)
  obtain g cur1 c1 where s: "vram_scan d [0..<6] cur c = (g, cur1, c1)" by (rule prod_cases3)
  show ?case using Suc.IH [of cur1 c1] Suc.prems vram_scan_result [OF s] s by (cases g) auto
qed auto

text \<open>The memory range offered to framebuffers is that of the first of the six regions whose size is between 4 kB and 1 GB and
  not exactly 4 kB, and every mapping made on the way is given back. Otherwise it is the range of a buffer of 512 MB; the driver
  object is as before, so no reference to that buffer is left and the range is of memory that has been freed.\<close>

theorem vram_range_choice:
  "gpu_getVRAMRange e (Some d) b =
     (case find (vram_bar d) [0..<6] of
        Some i \<Rightarrow> if range_alloc e then Some (Device_range (pm_phys (the (dev_map d i))) (pm_len (the (dev_map d i))))
                   else fst (default_range e b)
      | None \<Rightarrow> fst (default_range e b), b)
   \<and> fst (default_range e b) = (case bmd_alloc (be_dev e) (tr_tick (g_tr (bd_gpu b))) (2 ^ 29) of
        None \<Rightarrow> None | Some x \<Rightarrow> if range_alloc e then Some (Buffer_range x (2 ^ 29)) else None)"
proof -
  obtain f cur c where a: "vram_attempts 3 d None (bd_bars b) = (f, cur, c)" by (rule prod_cases3)
  have r: "(case cur of None \<Rightarrow> c | Some m \<Rightarrow> pm_release m c) = bd_bars b" "f = (find (vram_bar d) [0..<6] \<noteq> None)"
    "f \<longrightarrow> cur = dev_map d (the (find (vram_bar d) [0..<6]))"
    using vram_attempts_result [OF a] by (simp_all add: drop_map_def)
  have d: "default_range e b = (fst (default_range e b), b)"
    by (simp add: default_range_def bd_on_gpu_def Let_def split: option.splits)
  have "vram_bar d i \<Longrightarrow> dev_map d i \<noteq> None" for i by (cases "dev_map d i") (simp_all add: vram_bar_def)
  moreover have "vram_bar d (the (find (vram_bar d) [0..<6]))" if "find (vram_bar d) [0..<6] \<noteq> None"
    using that by (metis find_Some_iff option.collapse)
  ultimately have "f \<Longrightarrow> cur \<noteq> None" using r(2,3) by metis
  then have "gpu_getVRAMRange e (Some d) b = (case find (vram_bar d) [0..<6] of
        Some i \<Rightarrow> if range_alloc e then Some (Device_range (pm_phys (the (dev_map d i))) (pm_len (the (dev_map d i))))
                   else fst (default_range e b)
      | None \<Rightarrow> fst (default_range e b), b)"
    using a r d by (cases f; cases cur) (auto simp: gpu_getVRAMRange_def Let_def)
  moreover have "(512 * 1024 * 1024 :: nat) = 2 ^ 29" by simp
  ultimately show ?thesis by (simp add: default_range_def Let_def split: option.splits)
qed

section \<open>A device to bring up\<close>

text \<open>A card with the three structures in BAR 4, which the PCI family presents at index 1.\<close>

definition sample_card :: pci_dev where
  "sample_card = sample_pci\<lparr>
     cfg8 := (\<lambda>n. if n = 0x34 then 0x40 else if n = 0x40 then 0x09 else if n = 0x41 then 0x50 else if n = 0x43 then 1 else if n = 0x44 then 4
       else if n = 0x50 then 0x09 else if n = 0x51 then 0x60 else if n = 0x53 then 4 else if n = 0x54 then 4
       else if n = 0x60 then 0x09 else if n = 0x63 then 2 else if n = 0x64 then 4 else 0),
     cfg32 := (\<lambda>n. if n = 0x48 then 0x1000 else if n = 0x58 then 0x2000 else if n = 0x68 then 0x3000 else if n = 0x70 then 4
       else if n = 0x20 then 0x10000004 else if n = 0x24 then 0xff else 0)\<rparr>"

definition sample_bring :: bring_env where
  "sample_bring = \<lparr>be_dev = sample_env, be_setup = sample_setup, dev_mem_len = (\<lambda>_. 0x4000), map_virt = (\<lambda>_. True),
     phys_map = (\<lambda>_ _. None), cfg_word = (\<lambda>_ a. if a = 0xff10002008 then 1 else 0), range_alloc = True\<rparr>"

lemma card_chain: "cap_chain sample_card (cfg8 sample_card 0x34) [0x40, 0x50, 0x60]"
  by (simp add: sample_card_def in_caps_def Let_def)

lemma card_finds:
  "findVirtIOCapability (Some sample_card) 1 = Some (Some (4, 0x1000, 0))"
  "findVirtIOCapability (Some sample_card) 4 = Some (Some (4, 0x2000, 0))"
  "findVirtIOCapability (Some sample_card) 2 = Some (Some (4, 0x3000, 0))"
  using cap_walk_chain [OF card_chain, of 189 1] cap_walk_chain [OF card_chain, of 189 4] cap_walk_chain [OF card_chain, of 189 2]
  by (simp_all add: findVirtIOCapability_def cap_matches_def cap_data_def) (simp_all add: sample_card_def)

abbreviation sample_map :: pci_map where
  "sample_map \<equiv> \<lparr>pm_index = 1, pm_phys = 0xff10000000, pm_len = 0x4000\<rparr>"

lemma card_bar: "bar_address sample_card 4 = Some 0xff10000000"
  by (simp add: bar_address_def sample_card_def Let_def)

lemma card_maps: "dev_map sample_card = dev_map sample_pci" "dev_mem sample_card = dev_mem sample_pci"
  by (simp_all add: sample_card_def)

lemma card_good: "good_maps sample_card"
  by (auto simp: good_maps_def card_maps sample_pci_def split: if_splits)

lemma card_only: "(\<forall>i < 6. \<forall>m. dev_map sample_card i = Some m \<and> pm_phys m = 0xff10000000 \<longrightarrow> m = sample_map)"
  by (auto simp: card_maps sample_pci_def split: if_splits)

lemma card_common: "\<exists>x. readCommonConfig (Some sample_card) = Some (Some x)"
proof -
  have "common_bar_address sample_card 4 = 0xff10000000" by (simp add: common_bar_address_def sample_card_def)
  moreover have "[0..<6 :: nat] = [0, 1, 2, 3, 4, 5]" by (simp add: upt_rec)
  ultimately have "match_memory sample_card (common_bar_address sample_card 4) [0..<6] = Some sample_map"
    by (simp add: card_maps sample_pci_def)
  then show ?thesis by (simp add: readCommonConfig_def card_finds Let_def)
qed

lemma card_notify: "readNotifyConfig (Some sample_card) = Some (Some (4, 0x3000, 4))"
proof -
  have "mult_walk 189 sample_card (cfg8 sample_card 0x34) = Some (cfg32 sample_card (unat (0x60 :: u8) + 16))"
    by (rule mult_walk_chain [OF card_chain]) (simp_all add: cap_matches_def sample_card_def)
  then show ?thesis by (simp add: readNotifyConfig_def card_finds) (simp add: sample_card_def)
qed

lemma queues_succeed:
  assumes "bd_control_desc b = None" "bd_cursor_desc b = None"
    and "\<And>n k. k \<le> 12288 \<Longrightarrow> \<exists>x. bmd_alloc (be_dev e) n k = Some x \<and> md_prepare x = kIOReturnSuccess"
  shows "\<exists>b'. initializeVirtIOQueues e (Some d) b = (True, b')"
proof -
  let ?b1 = "setOptimalQueueSizes b"
  have s: "unat (m_control_queue_size ?b1) * 24 \<le> 12288" "unat (m_cursor_queue_size ?b1) * 24 \<le> 12288"
    "bd_control_desc ?b1 = None" "bd_cursor_desc ?b1 = None"
    using assms(1,2) by (simp_all add: setOptimalQueueSizes_def Let_def)
  obtain x where x: "bmd_alloc (be_dev e) (tr_tick (g_tr (bd_gpu ?b1))) (unat (m_control_queue_size ?b1) * 24) = Some x" "md_prepare x = kIOReturnSuccess"
    using assms(3) s(1) by blast
  let ?b2 = "set_control (Some x) (?b1\<lparr>bd_gpu := md_retain x (bd_gpu ?b1)\<rparr>)"
  have f: "m_cursor_queue_size ?b2 = m_cursor_queue_size ?b1" "bd_cursor_desc ?b2 = None" by (simp_all add: set_control_def bd_on_gpu_def s)
  obtain y where y: "bmd_alloc (be_dev e) (tr_tick (g_tr (bd_gpu ?b2))) (unat (m_cursor_queue_size ?b1) * 24) = Some y" "md_prepare y = kIOReturnSuccess"
    using assms(3) s(2) by blast
  have "queue_buffer (be_dev e) (m_control_queue_size ?b1) None (bd_gpu ?b1) = (Some x, md_retain x (bd_gpu ?b1))"
    using x by (simp add: queue_buffer_def)
  moreover have "queue_buffer (be_dev e) (m_cursor_queue_size ?b1) None (bd_gpu ?b2) = (Some y, md_retain y (bd_gpu ?b2))"
    using y by (simp add: queue_buffer_def)
  ultimately have "initializeVirtIOQueues e (Some d) b = setupVirtIOHardwareQueues x y (?b2\<lparr>bd_gpu := md_retain y (bd_gpu ?b2), bd_cursor_desc := Some y\<rparr>)"
    using assms(1,2) by (simp add: initializeVirtIOQueues_def Let_def s(3) cursor_buffer_def f)
  then show ?thesis using x(2) y(2) by (simp add: setupVirtIOHardwareQueues_def)
qed

lemma card_comes_up: "\<exists>b'. initVirtIOGPU sample_bring (Some sample_card) board_init = Some (True, b')"
proof -
  have last: "[0x40, 0x50, 0x60] = [] \<or> cfg8 sample_card (unat (last [0x40, 0x50, 0x60 :: u8]) + 1) \<noteq> last [0x40, 0x50, 0x60]"
    by (simp add: sample_card_def)
  obtain b1 where r: "read_device_config sample_bring (Some sample_card) board_init = Some (True, b1)" using read_config_returns [OF card_chain] by blast
  have b1: "same_descs board_init b1" using read_config_result [OF r] by (auto simp: config_done_def)
  obtain c n where "readCommonConfig (Some sample_card) = Some c" "readNotifyConfig (Some sample_card) = Some n"
    using config_reads_return [OF card_chain last] by blast
  then have "\<exists>x. setupControlVirtQueue (be_setup sample_bring) (Some sample_card) (hw_of b1) = Some x"
    by (cases c) (auto simp: setupControlVirtQueue_def Let_def split: option.splits prod.splits)
  then have "\<exists>qok b2. setup_queue sample_bring (Some sample_card) b1 = Some (qok, b2)" by (auto simp: setup_queue_def)
  then obtain qok b2 where q: "setup_queue sample_bring (Some sample_card) b1 = Some (qok, b2)" by blast
  have "same_descs b1 b2" using setup_queue_result [OF q] by metis
  then have "bd_control_desc b2 = None" "bd_cursor_desc b2 = None" using b1 by (simp_all add: board_init_def)
  then obtain b3 where i: "initializeVirtIOQueues sample_bring (Some sample_card) b2 = (True, b3)"
    using queues_succeed [of b2 sample_bring sample_card] by (auto simp: sample_bring_def sample_env_def sample_desc_def)
  obtain rok b4 where "setupGPUMemoryRegions sample_bring (Some sample_card) b3 = Some (rok, b4)" using regions_returns [OF card_chain] by (metis surj_pair)
  then show ?thesis using r q i by (simp add: initVirtIOGPU_def)
qed

theorem bring_up_doorbell_witness:
  "\<exists>b' m a v. initVirtIOGPU sample_bring (Some sample_card) board_init = Some (True, b') \<and> bd_notify b' = Some m
     \<and> (let t = g_tr (bd_gpu b') in notify_device Control t = Some (t\<lparr>tr_trace := tr_trace t @ [Doorbell a v]\<rparr>)
          \<and> pm_phys m + a = 0xff10003000 + ucast (m_notify_offset t * 4))"
proof -
  obtain b' where r: "initVirtIOGPU sample_bring (Some sample_card) board_init = Some (True, b')" using card_comes_up by blast
  obtain x where x: "readCommonConfig (Some sample_card) = Some (Some x)" using card_common by blast
  have c: "cache_ok sample_card (m_bar_maps (bd_bars board_init))" by (simp add: cache_ok_def board_init_def)
  have e: "\<exists>i < 6. \<exists>m. dev_map sample_card i = Some m \<and> pm_phys m = 0xff10000000"
    by (rule exI [of _ 1]) (simp add: card_maps sample_pci_def)
  have u: "(\<forall>i < 6. \<forall>m. dev_map sample_card i = Some m \<and> pm_phys m = 0xff10000000 \<longrightarrow> unat (0x3000 + 4 :: u32) \<le> pm_len m \<and> map_virt sample_bring m)"
    using card_only by (auto simp: sample_bring_def)
  show ?thesis
    using r bring_up_doorbell [OF r c card_good x card_notify _ card_bar e disjI1 [OF u], of Control]
    by (auto simp: sample_bring_def)
qed

theorem bring_up_returns_witness:
  "\<exists>ok b'. initializeWithPCIDevice sample_bring (Some sample_card) board_init = Some (ok, b') \<and> limits_ok (bd_gpu b')"
proof -
  have "[0x40, 0x50, 0x60] = [] \<or> cfg8 sample_card (unat (last [0x40, 0x50, 0x60 :: u8]) + 1) \<noteq> last [0x40, 0x50, 0x60]"
    by (simp add: sample_card_def)
  from bring_up_returns [OF card_chain this, of sample_bring] show ?thesis by auto
qed

theorem no_capsets_become_two_witness:
  "\<exists>b'. initVirtIOGPU sample_bring (Some sample_card) board_init = Some (True, b') \<and> supports3D (bd_gpu b')"
proof -
  obtain b' where r: "initVirtIOGPU sample_bring (Some sample_card) board_init = Some (True, b')" using card_comes_up by blast
  obtain mo ix c where q: "mapBarByNumber (Some sample_card) 4 False (bd_bars board_init) = (mo, ix, c)" by (rule prod_cases3)
  have "[0..<6 :: nat] = [0, 1, 2, 3, 4, 5]" by (simp add: upt_rec)
  then have "mo = Some sample_map"
    using q by (simp add: mapBarByNumber_def board_init_def card_bar card_maps sample_pci_def Let_def)
  with q have m: "mapBarByNumber (Some sample_card) 4 False (bd_bars board_init) = (Some sample_map, ix, c)" by simp
  have "\<not> (2 :: u32) \<le> 1" by (simp add: word_le_nat_alt)
  then show ?thesis
    using r no_capsets_become_two [OF card_finds(2) m, of sample_bring 1 True b'] by (auto simp: sample_bring_def)
qed

text \<open>When the BAR of the notify structure cannot be mapped by number, the doorbell that the queue set-up had found is lost.\<close>

theorem unmapped_bar_loses_doorbell:
  assumes "setupGPUMemoryRegions e (Some d) b = Some (ok, b')"
    and "findVirtIOCapability (Some d) VIRTIO_PCI_CAP_NOTIFY_CFG = Some (Some (bar, off, len))"
    and "cache_ok d (m_bar_maps (bd_bars b))" "bar_address d bar = None"
  shows "\<not> ok \<and> notify_device qi (g_tr (bd_gpu b')) = None"
proof -
  have "m_bar_maps (bd_bars b) (unat bar) = None" using assms(3,4) by (cases "m_bar_maps (bd_bars b) (unat bar)") (auto simp: cache_ok_def)
  then have "mapBarByNumber (Some d) bar True (bd_bars b) = (None, None, bd_bars b)" using assms(4) by (simp add: mapBarByNumber_def)
  then have "\<not> ok \<and> \<not> m_notify_base (g_tr (bd_gpu b')) \<and> \<not> m_notify_map (g_tr (bd_gpu b'))"
    using assms(1,2) by (auto simp: setupGPUMemoryRegions_def Let_def on_tr_def bd_on_gpu_def set_notify_def)
  then show ?thesis by (simp add: notify_device_def Let_def)
qed

text \<open>The older negotiation writes the feature bit into the register at offset 8, which selects a word of the driver's
  features; the features themselves are at offset 12.\<close>

lemma old_negotiation_writes_selector:
  "negotiateVirtIOFeatures e (Some d) b = Some (True, ws) \<Longrightarrow>
     \<exists>regs. ws = [(regs + of_nat VIRTIO_COMMON_TF_SELECT, 1)]"
  by (auto simp: negotiateVirtIOFeatures_def Let_def split: option.splits if_splits)

end
