(* ===== verification/Vga_Modes.thy ===== *)
theory Vga_Modes
  imports Prelude "HOL-Library.Multiset"
begin

text \<open>
  The Bochs/QXL display driver: the device's VBE registers (\<^verbatim>\<open>QemuVGADevice.cpp\<close>), the table of display modes
  (\<^verbatim>\<open>modes.cpp\<close>), and the mode handling of \<^verbatim>\<open>VMQemuVGA.cpp\<close>: selection of the modes at start, the queries of the
  window server, mode switches, and the custom-mode protocol between a privileged client, the window server
  and a delayed kernel thread, as a step relation.
\<close>

section \<open>The device\<close>

record vram =
  vram_phys :: u64
  vram_len :: u64

text \<open>\<open>port_writes\<close>: the 16-bit port writes so far, in order, as pairs of port and value.\<close>

record vga_device =
  m_provider :: bool
  m_vram :: "vram option"
  m_vram_base :: u64
  m_vram_size :: u64
  m_fb_offset :: u32
  m_fb_size :: u32
  m_max_width :: u32
  m_max_height :: u32
  m_width :: u32
  m_height :: u32
  m_bpp :: u32
  port_writes :: "(u16 \<times> u16) list"

text \<open>
  The provider: the identifiers in configuration space, those of the registry properties (0 when a property is
  missing or not a number), the memory of BAR 0, and the value of a port read after a history of writes.
\<close>

record vga_pci =
  vp_vendor :: u16
  vp_device :: u16
  vp_prop_vendor :: u32
  vp_prop_device :: u32
  vp_bar0 :: "vram option"
  vp_read :: "(u16 \<times> u16) list \<Rightarrow> u16 \<Rightarrow> u16"

abbreviation (input) VBE_DISPI_IOPORT_INDEX :: u16 where "VBE_DISPI_IOPORT_INDEX \<equiv> 0x01CE"
abbreviation (input) VBE_DISPI_IOPORT_DATA :: u16 where "VBE_DISPI_IOPORT_DATA \<equiv> 0x01CF"
abbreviation (input) VBE_DISPI_INDEX_XRES :: u16 where "VBE_DISPI_INDEX_XRES \<equiv> 1"
abbreviation (input) VBE_DISPI_INDEX_YRES :: u16 where "VBE_DISPI_INDEX_YRES \<equiv> 2"
abbreviation (input) VBE_DISPI_INDEX_BPP :: u16 where "VBE_DISPI_INDEX_BPP \<equiv> 3"
abbreviation (input) VBE_DISPI_INDEX_ENABLE :: u16 where "VBE_DISPI_INDEX_ENABLE \<equiv> 4"
abbreviation (input) VBE_DISPI_DISABLED :: u16 where "VBE_DISPI_DISABLED \<equiv> 0"
abbreviation (input) VBE_DISPI_ENABLED :: u16 where "VBE_DISPI_ENABLED \<equiv> 1"
abbreviation (input) VBE_DISPI_LFB_ENABLED :: u16 where "VBE_DISPI_LFB_ENABLED \<equiv> 0x40"
abbreviation (input) VBE_DISPI_MAX_XRES :: u32 where "VBE_DISPI_MAX_XRES \<equiv> 2560"
abbreviation (input) VBE_DISPI_MAX_YRES :: u32 where "VBE_DISPI_MAX_YRES \<equiv> 1600"

definition WriteRegVBE :: "u16 \<Rightarrow> u16 \<Rightarrow> vga_device \<Rightarrow> vga_device" where
  "WriteRegVBE index v d =
     d\<lparr>port_writes := port_writes d @ [(VBE_DISPI_IOPORT_INDEX, index), (VBE_DISPI_IOPORT_DATA, v)]\<rparr>"

definition ReadRegVBE :: "vga_pci \<Rightarrow> u16 \<Rightarrow> vga_device \<Rightarrow> u16 \<times> vga_device" where
  "ReadRegVBE p index d =
     (let d1 = d\<lparr>port_writes := port_writes d @ [(VBE_DISPI_IOPORT_INDEX, index)]\<rparr>
      in (vp_read p (port_writes d1) VBE_DISPI_IOPORT_DATA, d1))"

definition svga_Cleanup :: "vga_device \<Rightarrow> vga_device" where
  "svga_Cleanup d = d\<lparr>m_provider := False\<rparr>"

definition svga_Start :: "vga_pci \<Rightarrow> vga_device \<Rightarrow> bool \<times> vga_device" where
  "svga_Start p d =
     (let d1 = d\<lparr>m_provider := True, m_vram := vp_bar0 p\<rparr>;
          is_qxl = (vp_vendor p = 0x1b36 \<and> vp_device p = 0x0100)
      in case vp_bar0 p of
           None \<Rightarrow> (False, svga_Cleanup d1)
         | Some v \<Rightarrow>
             let d2 = d1\<lparr>m_vram_base := vram_phys v, m_vram_size := vram_len v,
                          m_max_width := VBE_DISPI_MAX_XRES, m_max_height := VBE_DISPI_MAX_YRES,
                          m_fb_offset := 0, m_fb_size := ucast (vram_len v)\<rparr>
             in if is_qxl then (True, d2\<lparr>m_width := 1024, m_height := 768, m_bpp := 32\<rparr>)
                else let (w, d3) = ReadRegVBE p VBE_DISPI_INDEX_XRES d2;
                         (h, d4) = ReadRegVBE p VBE_DISPI_INDEX_YRES d3;
                         (b, d5) = ReadRegVBE p VBE_DISPI_INDEX_BPP d4
                     in (True, d5\<lparr>m_width := ucast w, m_height := ucast h, m_bpp := ucast b\<rparr>))"

definition SetMode :: "u32 \<Rightarrow> u32 \<Rightarrow> u32 \<Rightarrow> vga_device \<Rightarrow> vga_device" where
  "SetMode width height bpp d =
     (let d1 = d\<lparr>m_width := width, m_height := height, m_bpp := bpp\<rparr>;
          d2 = WriteRegVBE VBE_DISPI_INDEX_ENABLE VBE_DISPI_DISABLED d1;
          d3 = WriteRegVBE VBE_DISPI_INDEX_XRES (ucast width) d2;
          d4 = WriteRegVBE VBE_DISPI_INDEX_YRES (ucast height) d3;
          d5 = WriteRegVBE VBE_DISPI_INDEX_BPP (ucast bpp) d4
      in WriteRegVBE VBE_DISPI_INDEX_ENABLE (VBE_DISPI_ENABLED OR VBE_DISPI_LFB_ENABLED) d5)"

definition getVRAMSize :: "vga_device \<Rightarrow> u32" where
  "getVRAMSize d = ucast (m_vram_size d)"

section \<open>The mode table\<close>

record DisplayModeEntry =
  dm_width :: u32
  dm_height :: u32
  dm_flags :: u32

definition mode_entry :: "u32 \<Rightarrow> u32 \<Rightarrow> u32 \<Rightarrow> DisplayModeEntry" where
  "mode_entry w h f = \<lparr>dm_width = w, dm_height = h, dm_flags = f\<rparr>"

abbreviation (input) NUM_DISPLAY_MODES :: nat where "NUM_DISPLAY_MODES \<equiv> 25"
abbreviation (input) CUSTOM_MODE_ID :: int where "CUSTOM_MODE_ID \<equiv> 1"
abbreviation (input) kDisplayModeDefaultFlag :: u32 where "kDisplayModeDefaultFlag \<equiv> 4"

definition modeList :: "DisplayModeEntry list" where
  "modeList = [mode_entry 800 600 3, mode_entry 800 600 3, mode_entry 1024 768 7, mode_entry 1152 720 3,
     mode_entry 1152 864 3, mode_entry 1152 900 3, mode_entry 1280 720 3, mode_entry 1280 768 3,
     mode_entry 1280 800 3, mode_entry 1280 960 3, mode_entry 1280 1024 3, mode_entry 1376 1032 3,
     mode_entry 1400 1050 3, mode_entry 1440 900 3, mode_entry 1600 900 3, mode_entry 1600 1200 3,
     mode_entry 1680 1050 3, mode_entry 1920 1080 3, mode_entry 1920 1200 3, mode_entry 1920 1440 3,
     mode_entry 2048 1152 3, mode_entry 2048 1536 3, mode_entry 2360 1770 3, mode_entry 2560 1440 3,
     mode_entry 2560 1600 3]"

section \<open>The driver\<close>

text \<open>
  \<open>m_modes\<close>: the array of mode ids, of which the first \<open>m_num_active_modes\<close> are in use. \<open>intr_proc\<close>: whether an
  interrupt callback is registered. \<open>intr_calls\<close>: how often it was called. \<open>restore_pending\<close>: whether the delayed
  call is scheduled. \<open>fb_vram\<close> is the driver's own member \<^verbatim>\<open>m_vram\<close>.
\<close>

record vga =
  svga :: vga_device
  fb_vram :: "vram option"
  m_is_virtio_gpu :: bool
  m_is_qxl_device :: bool
  m_modes :: "int list"
  m_num_active_modes :: nat
  m_display_mode :: int
  m_depth_mode :: int
  m_custom_switch :: u32
  m_custom_mode_switched :: bool
  customMode :: DisplayModeEntry
  intr_proc :: bool
  m_intr_enabled :: bool
  intr_calls :: nat
  m_restore_call :: bool
  restore_pending :: bool
  m_iolock :: bool

definition GetDisplayMode :: "vga \<Rightarrow> int \<Rightarrow> DisplayModeEntry option" where
  "GetDisplayMode s displayMode =
     (if displayMode = CUSTOM_MODE_ID then Some (customMode s)
      else if 1 \<le> displayMode \<and> displayMode \<le> int NUM_DISPLAY_MODES then Some (modeList ! nat (displayMode - 1))
      else None)"

fun detect_loop :: "u32 \<Rightarrow> u32 \<Rightarrow> nat list \<Rightarrow> int \<Rightarrow> int + int" where
  "detect_loop w h [] tableDefault = Inl tableDefault"
| "detect_loop w h (i # is) tableDefault =
     (if w = dm_width (modeList ! i) \<and> h = dm_height (modeList ! i) then Inr (int i + 1)
      else detect_loop w h is
             (if dm_flags (modeList ! i) AND kDisplayModeDefaultFlag \<noteq> 0 then int i + 1 else tableDefault))"

definition TryDetectCurrentDisplayMode :: "vga \<Rightarrow> int \<Rightarrow> int" where
  "TryDetectCurrentDisplayMode s defaultMode =
     (case detect_loop (m_width (svga s)) (m_height (svga s)) [1..<NUM_DISPLAY_MODES] 0 of
        Inr m \<Rightarrow> m
      | Inl tableDefault \<Rightarrow> if tableDefault \<noteq> 0 then tableDefault else defaultMode)"

text \<open>The loop of \<^verbatim>\<open>start\<close> that fills the array; sizes are 64-bit products.\<close>

definition mode_fits :: "u32 \<Rightarrow> u32 \<Rightarrow> u64 \<Rightarrow> DisplayModeEntry \<Rightarrow> bool" where
  "mode_fits max_w max_h vram_bytes m =
     (let mode_bytes = ucast (dm_width m) * ucast (dm_height m) * (4 :: u64)
      in dm_width m \<le> max_w \<and> dm_height m \<le> max_h \<and> (vram_bytes = 0 \<or> mode_bytes \<le> vram_bytes))"

fun select_modes :: "u32 \<Rightarrow> u32 \<Rightarrow> u64 \<Rightarrow> nat list \<Rightarrow> vga \<Rightarrow> vga" where
  "select_modes max_w max_h vram_bytes [] s = s"
| "select_modes max_w max_h vram_bytes (i # is) s =
     select_modes max_w max_h vram_bytes is
       (if mode_fits max_w max_h vram_bytes (modeList ! i)
        then s\<lparr>m_modes := (m_modes s)[m_num_active_modes s := int i + 1],
                m_num_active_modes := m_num_active_modes s + 1\<rparr>
        else s)"

definition vram_bytes_of :: "vga \<Rightarrow> u64" where
  "vram_bytes_of s = (case fb_vram s of Some v \<Rightarrow> vram_len v | None \<Rightarrow> ucast (getVRAMSize (svga s)))"

definition vga_Cleanup :: "vga \<Rightarrow> vga" where
  "vga_Cleanup s = s\<lparr>svga := svga_Cleanup (svga s), m_restore_call := False, m_iolock := False\<rparr>"

text \<open>Where the memory of the frame buffer comes from, and the first mode of a QXL device.\<close>

definition start_vram :: "vga_pci \<Rightarrow> vga \<Rightarrow> vga" where
  "start_vram p s =
     (if m_is_virtio_gpu s then s\<lparr>fb_vram := None\<rparr>
      else let s1 = s\<lparr>fb_vram := m_vram (svga s)\<rparr>;
               s2 = (case fb_vram s1 of
                       Some _ \<Rightarrow> s1
                     | None \<Rightarrow> (case vp_bar0 p of
                                  Some b \<Rightarrow> if 0 < vram_len b then s1\<lparr>fb_vram := Some b\<rparr> else s1
                                | None \<Rightarrow> s1))
           in if m_is_qxl_device s \<and> fb_vram s2 \<noteq> None
              then if 1024 \<le> m_max_width (svga s2) \<and> 768 \<le> m_max_height (svga s2)
                   then s2\<lparr>svga := SetMode 1024 768 32 (svga s2)\<rparr>
                   else s2\<lparr>svga := SetMode 800 600 32 (svga s2)\<rparr>
              else s2)"

definition start_modes :: "vga \<Rightarrow> vga" where
  "start_modes s =
     select_modes (m_max_width (svga s)) (m_max_height (svga s)) (vram_bytes_of s) [0..<NUM_DISPLAY_MODES]
       (s\<lparr>customMode := modeList ! 0, m_num_active_modes := 0\<rparr>)"

text \<open>The members reset first, and the kind of hardware.\<close>

definition start_ids :: "vga_pci \<Rightarrow> vga \<Rightarrow> vga" where
  "start_ids p s =
     (let is_virtio = (vp_prop_vendor p = 0x1af4 \<and> 0x1000 \<le> vp_prop_device p \<and> vp_prop_device p \<le> 0x10ff);
          is_qxl = (vp_prop_vendor p = 0x1b36 \<and> vp_prop_device p = 0x0100)
      in s\<lparr>m_restore_call := False, m_iolock := False, m_intr_enabled := False,
           m_is_virtio_gpu := is_virtio, m_is_qxl_device := is_qxl\<rparr>)"

text \<open>\<open>thread\<close> and \<open>lock\<close>: whether the delayed call and the lock could be allocated.\<close>

definition vga_start :: "vga_pci \<Rightarrow> bool \<Rightarrow> bool \<Rightarrow> vga \<Rightarrow> bool \<times> vga" where
  "vga_start p thread lock s =
     (let s1 = start_ids p s;
          (ok, d) = svga_Start p (svga s1);
          s2 = s1\<lparr>svga := d\<rparr>
      in if \<not> ok then (False, vga_Cleanup s2)
         else let s3 = start_modes (start_vram p s2)
              in if m_num_active_modes s3 \<le> 2
                    \<and> \<not> (fb_vram s3 = None \<and> \<not> m_is_virtio_gpu s1 \<and> 1 \<le> m_num_active_modes s3)
                 then (False, vga_Cleanup s3)
                 else let s4 = s3\<lparr>m_restore_call := thread, m_custom_switch := 0, m_custom_mode_switched := False,
                                   m_iolock := lock\<rparr>
                      in if \<not> lock then (False, vga_Cleanup s4)
                         else (True, s4\<lparr>m_display_mode := TryDetectCurrentDisplayMode s4 3, m_depth_mode := 0\<rparr>))"

section \<open>Custom modes\<close>

definition EmitConnectChangedEvent :: "vga \<Rightarrow> vga" where
  "EmitConnectChangedEvent s =
     (if \<not> intr_proc s \<or> \<not> m_intr_enabled s then s else s\<lparr>intr_calls := intr_calls s + 1\<rparr>)"

definition CustomSwitchStepSet :: "u32 \<Rightarrow> vga \<Rightarrow> vga" where
  "CustomSwitchStepSet v s = s\<lparr>m_custom_switch := v\<rparr>"

text \<open>The first slot whose mode has other dimensions than the custom mode.\<close>

fun restore_slot :: "vga \<Rightarrow> DisplayModeEntry \<Rightarrow> nat list \<Rightarrow> nat option" where
  "restore_slot s dme1 [] = None"
| "restore_slot s dme1 (i # is) =
     (case GetDisplayMode s (m_modes s ! i) of
        None \<Rightarrow> restore_slot s dme1 is
      | Some dme2 \<Rightarrow>
          if dm_width dme2 \<noteq> dm_width dme1 \<or> dm_height dme2 \<noteq> dm_height dme1 then Some i
          else restore_slot s dme1 is)"

definition RestoreAllModes :: "vga \<Rightarrow> vga" where
  "RestoreAllModes s =
     (if m_custom_switch s \<noteq> 2 then s
      else case GetDisplayMode s CUSTOM_MODE_ID of
             None \<Rightarrow> s
           | Some dme1 \<Rightarrow>
               (case restore_slot s dme1 [0..<m_num_active_modes s] of
                  None \<Rightarrow> s
                | Some i \<Rightarrow>
                    let t = m_modes s ! 0;
                        s1 = s\<lparr>m_modes := (m_modes s)[0 := m_modes s ! i, i := t], m_custom_mode_switched := True\<rparr>
                    in EmitConnectChangedEvent (CustomSwitchStepSet 0 s1)))"

definition clamp_dim :: "u32 \<Rightarrow> u32 \<Rightarrow> u32 \<Rightarrow> u32" where
  "clamp_dim lo hi x = (if x < lo then lo else if x > hi then hi else x)"

record CustomModeData =
  cm_flags :: u32
  cm_width :: u32
  cm_height :: u32

datatype custom_outcome = Returned io_return "CustomModeData option" | Waiting

text \<open>The end of \<^verbatim>\<open>CustomMode\<close>, from the label \<^verbatim>\<open>finish_up\<close>.\<close>

definition custom_finish :: "u32 \<Rightarrow> vga \<Rightarrow> custom_outcome" where
  "custom_finish flags s =
     (case GetDisplayMode s (m_display_mode s) of
        None \<Rightarrow> Returned kIOReturnUnsupported None
      | Some dme \<Rightarrow> Returned kIOReturnSuccess
          (Some \<lparr>cm_flags = flags, cm_width = dm_width dme, cm_height = dm_height dme\<rparr>))"

text \<open>
  \<^verbatim>\<open>CustomMode\<close> up to the point where it returns or waits for the switch to become 2, and what it does when it
  wakes. \<open>has_out\<close>: whether the output pointer is non-null.
\<close>

definition CustomMode :: "CustomModeData option \<Rightarrow> nat \<Rightarrow> bool \<Rightarrow> nat option \<Rightarrow> vga \<Rightarrow> custom_outcome \<times> vga" where
  "CustomMode inData inSize has_out outSize s =
     (if \<not> m_restore_call s then (Returned kIOReturnUnsupported None, s)
      else case inData of
        None \<Rightarrow> (Returned kIOReturnBadArgument None, s)
      | Some cm \<Rightarrow>
          if inSize < 12 then (Returned kIOReturnBadArgument None, s)
          else if \<not> has_out then (Returned kIOReturnBadArgument None, s)
          else if (case outSize of None \<Rightarrow> True | Some n \<Rightarrow> n < 12) then (Returned kIOReturnBadArgument None, s)
          else case GetDisplayMode s (m_display_mode s) of
            None \<Rightarrow> (Returned kIOReturnUnsupported None, s)
          | Some dme1 \<Rightarrow>
              if cm_flags cm AND 1 \<noteq> 0
              then let w = clamp_dim 800 (m_max_width (svga s)) (cm_width cm);
                       h = clamp_dim 600 (m_max_height (svga s)) (cm_height cm)
                   in if w = dm_width dme1 \<and> h = dm_height dme1 then (custom_finish (cm_flags cm) s, s)
                      else (Waiting, EmitConnectChangedEvent (CustomSwitchStepSet 1
                              (s\<lparr>customMode := (customMode s)\<lparr>dm_width := w, dm_height := h\<rparr>\<rparr>)))
              else (custom_finish (cm_flags cm) s, s))"

definition custom_resume :: "u32 \<Rightarrow> vga \<Rightarrow> custom_outcome \<times> vga" where
  "custom_resume flags s =
     (let s1 = s\<lparr>restore_pending := True\<rparr> in (custom_finish flags s1, s1))"

section \<open>The window server's calls\<close>

definition getDisplayModes :: "vga \<Rightarrow> int list" where
  "getDisplayModes s =
     (if m_custom_switch s \<noteq> 0 then [CUSTOM_MODE_ID] else take (m_num_active_modes s) (m_modes s))"

definition getDisplayModeCount :: "vga \<Rightarrow> nat" where
  "getDisplayModeCount s = (if m_custom_switch s \<noteq> 0 then 1 else m_num_active_modes s)"

record mode_info =
  mi_maxDepthIndex :: u32
  mi_width :: u32
  mi_height :: u32
  mi_refreshRate :: u32
  mi_flags :: u32

definition getInformationForDisplayMode :: "int \<Rightarrow> bool \<Rightarrow> vga \<Rightarrow> io_return \<times> mode_info option" where
  "getInformationForDisplayMode displayMode has_info s =
     (if \<not> has_info then (kIOReturnBadArgument, None)
      else case GetDisplayMode s displayMode of
             None \<Rightarrow> (kIOReturnBadArgument, None)
           | Some dme \<Rightarrow> (kIOReturnSuccess, Some \<lparr>mi_maxDepthIndex = 0, mi_width = dm_width dme,
               mi_height = dm_height dme, mi_refreshRate = push_bit 16 60, mi_flags = dm_flags dme\<rparr>))"

record pixel_info =
  pi_width :: u32
  pi_height :: u32
  pi_bytesPerRow :: u32
  pi_bitsPerPixel :: u32

text \<open>The component masks and the format string are constants.\<close>

definition getPixelInformation :: "int \<Rightarrow> int \<Rightarrow> u32 \<Rightarrow> bool \<Rightarrow> vga \<Rightarrow> io_return \<times> pixel_info option" where
  "getPixelInformation displayMode depth aperture has_info s =
     (if \<not> has_info then (kIOReturnBadArgument, None)
      else if aperture \<noteq> 0 then (kIOReturnUnsupportedMode, None)
      else if depth \<noteq> 0 then (kIOReturnBadArgument, None)
      else case GetDisplayMode s displayMode of
             None \<Rightarrow> (kIOReturnBadArgument, None)
           | Some dme \<Rightarrow> (kIOReturnSuccess, Some \<lparr>pi_width = dm_width dme, pi_height = dm_height dme,
               pi_bytesPerRow = push_bit 2 ((dm_width dme + 7) AND NOT 7), pi_bitsPerPixel = 32\<rparr>))"

definition setDisplayMode :: "int \<Rightarrow> int \<Rightarrow> vga \<Rightarrow> io_return \<times> vga" where
  "setDisplayMode displayMode depth s =
     (if depth \<noteq> 0 then (kIOReturnBadArgument, s)
      else case GetDisplayMode s displayMode of
        None \<Rightarrow> (kIOReturnBadArgument, s)
      | Some dme \<Rightarrow>
          if m_custom_mode_switched s
          then (kIOReturnSuccess,
                s\<lparr>m_custom_mode_switched :=
                     \<not> (dm_width (customMode s) = dm_width dme \<and> dm_height (customMode s) = dm_height dme),
                   m_display_mode := displayMode, m_depth_mode := 0\<rparr>)
          else (kIOReturnSuccess,
                s\<lparr>svga := SetMode (dm_width dme) (dm_height dme) 32 (svga s),
                   m_display_mode := displayMode, m_depth_mode := 0\<rparr>))"

abbreviation (input) kIOCapturedAttribute :: u32 where "kIOCapturedAttribute \<equiv> 0x63617064"
abbreviation (input) kIOFBConnectInterruptType :: u32 where "kIOFBConnectInterruptType \<equiv> 0x64636920"

text \<open>The base class's answer is a parameter.\<close>

definition setAttribute :: "io_return \<Rightarrow> u32 \<Rightarrow> u64 \<Rightarrow> vga \<Rightarrow> io_return \<times> vga" where
  "setAttribute r attribute v s =
     (r, if attribute = kIOCapturedAttribute \<and> v = 0 \<and> m_custom_switch s = 1 \<and> m_display_mode s = CUSTOM_MODE_ID
         then CustomSwitchStepSet 2 s else s)"

definition registerForInterruptType :: "u32 \<Rightarrow> bool \<Rightarrow> vga \<Rightarrow> io_return \<times> vga" where
  "registerForInterruptType interruptType proc s =
     (if interruptType \<noteq> kIOFBConnectInterruptType then (kIOReturnUnsupported, s)
      else (kIOReturnSuccess, s\<lparr>intr_proc := proc, m_intr_enabled := True\<rparr>))"

text \<open>\<open>own\<close>: whether the reference passed is the driver's own.\<close>

definition setInterruptState :: "bool \<Rightarrow> u32 \<Rightarrow> vga \<Rightarrow> io_return \<times> vga" where
  "setInterruptState own state s =
     (if \<not> own then (kIOReturnBadArgument, s) else (kIOReturnSuccess, s\<lparr>m_intr_enabled := (state \<noteq> 0)\<rparr>))"

definition unregisterInterrupt :: "bool \<Rightarrow> vga \<Rightarrow> io_return \<times> vga" where
  "unregisterInterrupt own s =
     (if \<not> own then (kIOReturnBadArgument, s)
      else (kIOReturnSuccess, s\<lparr>intr_proc := False, m_intr_enabled := False\<rparr>))"

text \<open>Ranges of memory handed out: start and length.\<close>

definition getVRAMRange :: "vga \<Rightarrow> (u64 \<times> u64) option" where
  "getVRAMRange s =
     (case fb_vram s of
        None \<Rightarrow> None
      | Some v \<Rightarrow> if vram_len v \<le> ucast (getVRAMSize (svga s)) then Some (vram_phys v, vram_len v)
                   else Some (vram_phys v, ucast (getVRAMSize (svga s))))"

text \<open>\<^verbatim>\<open>withSubRange\<close> refuses a range beyond the memory.\<close>

definition getApertureRange :: "u32 \<Rightarrow> vga \<Rightarrow> (u64 \<times> u64) option" where
  "getApertureRange aperture s =
     (if aperture \<noteq> 0 then None
      else case fb_vram s of
             None \<Rightarrow> None
           | Some v \<Rightarrow>
               let off = ucast (m_fb_offset (svga s)); len = ucast (m_fb_size (svga s))
               in if unat (off :: u64) + unat (len :: u64) > unat (vram_len v) then None else Some (vram_phys v + off, len))"

definition IOSelectToString :: "u32 \<Rightarrow> bytes" where
  "IOSelectToString io_select =
     [ucast (drop_bit 24 io_select), ucast (drop_bit 16 io_select), ucast (drop_bit 8 io_select), ucast io_select, 0]"

text \<open>How many bytes \<^verbatim>\<open>stop\<close> clears: the product is computed in 32 bits.\<close>

definition stop_clear_bytes :: "vga \<Rightarrow> u64 option" where
  "stop_clear_bytes s =
     (case (fb_vram s, GetDisplayMode s (m_display_mode s)) of
        (Some _, Some dme) \<Rightarrow>
          if \<not> m_iolock s then None
          else (case getVRAMRange s of
                  None \<Rightarrow> None
                | Some (_, len) \<Rightarrow>
                    let clearSize = ucast (dm_width dme * dm_height dme * 4)
                    in if clearSize \<le> len then Some clearSize else None)
      | _ \<Rightarrow> None)"

section \<open>Steps\<close>

text \<open>
  A state is the driver with the flags of the clients that wait inside \<^verbatim>\<open>CustomMode\<close>. A client enters, waits and
  wakes; the window server sets modes and attributes and registers for interrupts; the delayed call runs.
\<close>

inductive vga_step :: "vga \<times> u32 list \<Rightarrow> vga \<times> u32 list \<Rightarrow> bool" where
  custom_returns: "CustomMode inData n has_out m s = (Returned r x, s') \<Longrightarrow> vga_step (s, ws) (s', ws)"
| custom_waits: "CustomMode (Some cm) n has_out m s = (Waiting, s') \<Longrightarrow> vga_step (s, ws) (s', ws @ [cm_flags cm])"
| custom_wakes: "m_custom_switch s = 2 \<Longrightarrow> vga_step (s, ws @ f # ws') (snd (custom_resume f s), ws @ ws')"
| restore: "restore_pending s \<Longrightarrow> vga_step (s, ws) (RestoreAllModes (s\<lparr>restore_pending := False\<rparr>), ws)"
| set_mode: "vga_step (s, ws) (snd (setDisplayMode m depth s), ws)"
| set_attribute: "vga_step (s, ws) (snd (setAttribute r a v s), ws)"
| register_interrupt: "vga_step (s, ws) (snd (registerForInterruptType t b s), ws)"
| set_interrupt: "vga_step (s, ws) (snd (setInterruptState own st s), ws)"
| unregister_interrupt: "vga_step (s, ws) (snd (unregisterInterrupt own s), ws)"

section \<open>Specifications\<close>

text \<open>The display interface of the device: a write to the index port selects a register, a write to the data port sets it.\<close>

fun vbe_run :: "(u16 \<times> u16) list \<Rightarrow> u16 \<times> (u16 \<Rightarrow> u16) \<Rightarrow> u16 \<times> (u16 \<Rightarrow> u16)" where
  "vbe_run [] st = st"
| "vbe_run ((port, v) # ws) (i, regs) =
     vbe_run ws (if port = 0x1CE then (v, regs) else if port = 0x1CF then (i, regs(i := v)) else (i, regs))"

text \<open>Resolution and depth are changed only while the display is disabled.\<close>

fun vbe_safe :: "(u16 \<times> u16) list \<Rightarrow> u16 \<times> (u16 \<Rightarrow> u16) \<Rightarrow> bool" where
  "vbe_safe [] st = True"
| "vbe_safe (w # ws) st \<longleftrightarrow>
     (fst w = 0x1CF \<and> fst st \<in> {1, 2, 3} \<longrightarrow> snd st 4 = 0) \<and> vbe_safe ws (vbe_run [w] st)"

text \<open>The modes that fit the screen and the memory, in exact arithmetic.\<close>

definition fits :: "nat \<Rightarrow> nat \<Rightarrow> nat \<Rightarrow> DisplayModeEntry \<Rightarrow> bool" where
  "fits max_w max_h mem m \<longleftrightarrow> unat (dm_width m) \<le> max_w \<and> unat (dm_height m) \<le> max_h
     \<and> (mem = 0 \<or> unat (dm_width m) * unat (dm_height m) * 4 \<le> mem)"

definition fitting_modes :: "nat \<Rightarrow> int list" where
  "fitting_modes mem = map (\<lambda>i. int i + 1) (filter (\<lambda>i. fits 2560 1600 mem (modeList ! i)) [0..<25])"

definition vga_inv :: "int list \<Rightarrow> vga \<Rightarrow> bool" where
  "vga_inv sel s \<longleftrightarrow>
     length (m_modes s) = 25 \<and> length sel \<le> 25 \<and> m_num_active_modes s = length sel \<and> mset (take (length sel) (m_modes s)) = mset sel
     \<and> m_custom_switch s \<in> {0, 1, 2} \<and> 1 \<le> m_display_mode s \<and> m_display_mode s \<le> 25
     \<and> 800 \<le> dm_width (customMode s) \<and> dm_width (customMode s) \<le> 2560
     \<and> 600 \<le> dm_height (customMode s) \<and> dm_height (customMode s) \<le> 1600
     \<and> m_max_width (svga s) = 2560 \<and> m_max_height (svga s) = 1600
     \<and> (restore_pending s \<longrightarrow> m_restore_call s)"

section \<open>Lemmas\<close>

lemma vbe_run_append: "vbe_run (xs @ ys) st = vbe_run ys (vbe_run xs st)"
  by (induction xs st rule: vbe_run.induct) auto

lemma SetMode_writes:
  "port_writes (SetMode w h b d) = port_writes d @
     [(0x1CE, 4), (0x1CF, 0), (0x1CE, 1), (0x1CF, ucast w), (0x1CE, 2), (0x1CF, ucast h),
      (0x1CE, 3), (0x1CF, ucast b), (0x1CE, 4), (0x1CF, 0x41)]"
  by (simp add: SetMode_def WriteRegVBE_def Let_def)

lemma SetMode_frame [simp]:
  "m_width (SetMode w h b d) = w" "m_height (SetMode w h b d) = h" "m_max_width (SetMode w h b d) = m_max_width d"
  "m_max_height (SetMode w h b d) = m_max_height d" "m_vram (SetMode w h b d) = m_vram d"
  "m_vram_size (SetMode w h b d) = m_vram_size d" "m_fb_size (SetMode w h b d) = m_fb_size d"
  by (simp_all add: SetMode_def WriteRegVBE_def Let_def)

lemma length_modeList [simp]: "length modeList = 25"
  by (simp add: modeList_def)

text \<open>Facts about the table, checked entry by entry: sizes, no overflow, widths that are multiples of eight.\<close>

lemma modeList_dims:
  assumes "m \<in> set modeList"
  shows "800 \<le> dm_width m" "dm_width m \<le> 2560" "600 \<le> dm_height m" "dm_height m \<le> 1770"
    and "unat (ucast (dm_width m) * ucast (dm_height m) * (4 :: u64)) = unat (dm_width m) * unat (dm_height m) * 4"
    and "push_bit 2 ((dm_width m + 7) AND NOT 7) = dm_width m * 4"
    and "unat (dm_width m * 4) = unat (dm_width m) * 4"
  using assms by (auto simp: modeList_def mode_entry_def)

lemma mode_fits_iff:
  assumes "m \<in> set modeList"
  shows "mode_fits mw mh mem m = fits (unat mw) (unat mh) (unat mem) m"
  using modeList_dims(5) [OF assms]
  by (simp add: mode_fits_def fits_def Let_def word_le_nat_alt unat_eq_0)

lemma select_modes_result:
  assumes "length (m_modes s) = 25" "m_num_active_modes s + length is \<le> 25" "set is \<subseteq> {..<25}"
  shows "\<exists>ms. select_modes mw mh mem is s =
       s\<lparr>m_modes := ms, m_num_active_modes := m_num_active_modes s
             + length (filter (\<lambda>i. fits (unat mw) (unat mh) (unat mem) (modeList ! i)) is)\<rparr>
     \<and> length ms = 25
     \<and> take (m_num_active_modes s + length (filter (\<lambda>i. fits (unat mw) (unat mh) (unat mem) (modeList ! i)) is)) ms
        = take (m_num_active_modes s) (m_modes s)
            @ map (\<lambda>i. int i + 1) (filter (\<lambda>i. fits (unat mw) (unat mh) (unat mem) (modeList ! i)) is)"
  using assms
proof (induction "is" arbitrary: s)
  case Nil
  then show ?case by (intro exI [of _ "m_modes s"]) simp
next
  case (Cons i "is")
  have mem: "modeList ! i \<in> set modeList" using Cons.prems(3) by simp
  show ?case
  proof (cases "fits (unat mw) (unat mh) (unat mem) (modeList ! i)")
    case False
    then show ?thesis using Cons mode_fits_iff [OF mem] by simp
  next
    case True
    let ?s = "s\<lparr>m_modes := (m_modes s)[m_num_active_modes s := int i + 1],
                 m_num_active_modes := m_num_active_modes s + 1\<rparr>"
    have "m_num_active_modes s < length (m_modes s)" using Cons.prems(1,2) by simp
    then have t: "take (m_num_active_modes ?s) (m_modes ?s) = take (m_num_active_modes s) (m_modes s) @ [int i + 1]"
      by (simp add: take_Suc_conv_app_nth)
    show ?thesis
      using Cons.IH [of ?s] Cons.prems True mode_fits_iff [OF mem] t by auto
  qed
qed


lemma svga_Start_frame:
  assumes "svga_Start p d = (True, d')"
  shows "m_max_width d' = 2560 \<and> m_max_height d' = 1600 \<and> m_vram d' = vp_bar0 p \<and> vp_bar0 p \<noteq> None"
  using assms by (auto simp: svga_Start_def ReadRegVBE_def Let_def split: option.splits if_splits)

lemma start_vram_frame [simp]:
  "m_max_width (svga (start_vram p s)) = m_max_width (svga s)"
  "m_max_height (svga (start_vram p s)) = m_max_height (svga s)"
  "m_modes (start_vram p s) = m_modes s" "restore_pending (start_vram p s) = restore_pending s"
  "m_is_virtio_gpu (start_vram p s) = m_is_virtio_gpu s"
  by (auto simp: start_vram_def Let_def split: option.splits)

lemma detect_loop_range:
  "detect_loop w h is t = Inr m \<Longrightarrow> \<exists>i\<in>set is. m = int i + 1"
  "detect_loop w h is t = Inl m \<Longrightarrow> m = t \<or> (\<exists>i\<in>set is. m = int i + 1)"
  by (induction "is" arbitrary: t) (auto split: if_splits)

lemma TryDetect_range: "1 \<le> TryDetectCurrentDisplayMode s 3 \<and> TryDetectCurrentDisplayMode s 3 \<le> 25"
  using detect_loop_range [of "m_width (svga s)" "m_height (svga s)" "[1..<25]" 0]
  by (cases "detect_loop (m_width (svga s)) (m_height (svga s)) [1..<25] 0")
     (auto simp: TryDetectCurrentDisplayMode_def)

lemma GetDisplayMode_valid: "GetDisplayMode s m \<noteq> None \<longleftrightarrow> 1 \<le> m \<and> m \<le> 25"
  by (auto simp: GetDisplayMode_def)

lemma fitting_modes_length: "length (fitting_modes mem) \<le> 25"
  using length_filter_le [of _ "[0..<25 :: nat]"] by (simp add: fitting_modes_def)

text \<open>What a successful start leaves: the fitting modes, in table order, and a driver that satisfies the invariant.\<close>

lemma vga_start_result:
  assumes "vga_start p thread lock s0 = (True, s)" "length (m_modes s0) = 25" "\<not> restore_pending s0"
  shows "getDisplayModes s = fitting_modes (unat (vram_bytes_of s)) \<and> vga_inv (fitting_modes (unat (vram_bytes_of s))) s
     \<and> \<not> m_custom_mode_switched s \<and> m_custom_switch s = 0 \<and> m_restore_call s = thread
     \<and> 3 \<le> length (fitting_modes (unat (vram_bytes_of s)))"
proof -
  define b where "b = start_ids p s0"
  have b: "svga b = svga s0" "m_modes b = m_modes s0" "restore_pending b = restore_pending s0"
    by (simp_all add: b_def start_ids_def Let_def)
  obtain ok d where d: "svga_Start p (svga s0) = (ok, d)" by fastforce
  define s2 where "s2 = start_vram p (b\<lparr>svga := d\<rparr>)"
  define s3 where "s3 = start_modes s2"
  have ok: "ok" using assms(1) d b(1) by (auto simp: vga_start_def Let_def b_def split: if_splits)
  note sv = svga_Start_frame [of p "svga s0" d]
  let ?sel = "fitting_modes (unat (vram_bytes_of s2))"
  have m: "m_max_width (svga s2) = 2560" "m_max_height (svga s2) = 1600" "length (m_modes s2) = 25"
    "\<not> restore_pending s2"
    using sv d ok assms(2,3) by (simp_all add: s2_def b)
  obtain ms where ms: "s3 = s2\<lparr>customMode := modeList ! 0, m_modes := ms, m_num_active_modes := length ?sel\<rparr>"
      "length ms = 25" "take (length ?sel) ms = ?sel"
    using select_modes_result [of "s2\<lparr>customMode := modeList ! 0, m_num_active_modes := 0\<rparr>" "[0..<25]" 2560 1600 "vram_bytes_of s2"] m
    by (auto simp: s3_def start_modes_def fitting_modes_def atLeast0LessThan vram_bytes_of_def)
  have v: "fb_vram s2 = None \<longrightarrow> m_is_virtio_gpu s2"
    using sv d ok by (auto simp: s2_def start_vram_def Let_def split: option.splits)
  let ?s4 = "s3\<lparr>m_restore_call := thread, m_custom_switch := 0, m_custom_mode_switched := False, m_iolock := lock\<rparr>"
  have s: "s = ?s4\<lparr>m_display_mode := TryDetectCurrentDisplayMode ?s4 3, m_depth_mode := 0\<rparr> \<and> 3 \<le> length ?sel"
  proof -
    have "vga_start p thread lock s0 =
        (if m_num_active_modes s3 \<le> 2 \<and> \<not> (fb_vram s3 = None \<and> \<not> m_is_virtio_gpu b \<and> 1 \<le> m_num_active_modes s3)
         then (False, vga_Cleanup s3)
         else if \<not> lock then (False, vga_Cleanup ?s4)
         else (True, ?s4\<lparr>m_display_mode := TryDetectCurrentDisplayMode ?s4 3, m_depth_mode := 0\<rparr>))"
      using d ok b(1) by (simp add: vga_start_def Let_def s3_def s2_def b_def) auto
    moreover have "m_num_active_modes s3 = length ?sel" "fb_vram s3 = fb_vram s2" by (simp_all add: ms(1))
    moreover have "m_is_virtio_gpu b = m_is_virtio_gpu s2" by (simp add: s2_def)
    ultimately show ?thesis using assms(1) v by (cases "length ?sel \<le> 2") (simp_all split: if_splits)
  qed
  have "fb_vram s = fb_vram s2" "svga s = svga s2" using s ms(1) by simp_all
  then have vb: "vram_bytes_of s = vram_bytes_of s2" by (simp only: vram_bytes_of_def)
  have "modeList ! 0 \<in> set modeList" by simp
  moreover have "dm_width (modeList ! 0) = 800" "dm_height (modeList ! 0) = 600"
    by (simp_all add: modeList_def mode_entry_def)
  ultimately show ?thesis
    using s ms m TryDetect_range [of ?s4] unfolding vga_inv_def vb
    by (simp add: getDisplayModes_def fitting_modes_length)
qed


lemma GetDisplayMode_dims:
  assumes "vga_inv sel s" "GetDisplayMode s m = Some dme"
  shows "unat (dm_width dme) \<le> 2560 \<and> unat (dm_height dme) \<le> 1770 \<and> dm_width dme \<le> 2560 \<and> dm_height dme \<le> 1770"
proof (cases "m = 1")
  case True
  then show ?thesis using assms by (auto simp: vga_inv_def GetDisplayMode_def word_le_nat_alt)
next
  case False
  then have "dme \<in> set modeList" using assms(2) by (auto simp: GetDisplayMode_def split: if_splits)
  then show ?thesis using modeList_dims(2,4) [of dme] by (simp add: word_le_nat_alt)
qed

lemma clamp_dim_range: "lo \<le> hi \<Longrightarrow> lo \<le> clamp_dim lo hi x \<and> clamp_dim lo hi x \<le> hi"
  by (auto simp: clamp_dim_def not_less)

lemma Emit_frame [simp]:
  "m_modes (EmitConnectChangedEvent s) = m_modes s" "m_num_active_modes (EmitConnectChangedEvent s) = m_num_active_modes s"
  "m_custom_switch (EmitConnectChangedEvent s) = m_custom_switch s" "svga (EmitConnectChangedEvent s) = svga s"
  "m_display_mode (EmitConnectChangedEvent s) = m_display_mode s" "customMode (EmitConnectChangedEvent s) = customMode s"
  "m_custom_mode_switched (EmitConnectChangedEvent s) = m_custom_mode_switched s"
  "restore_pending (EmitConnectChangedEvent s) = restore_pending s" "m_restore_call (EmitConnectChangedEvent s) = m_restore_call s"
  "fb_vram (EmitConnectChangedEvent s) = fb_vram s" "GetDisplayMode (EmitConnectChangedEvent s) = GetDisplayMode s"
  by (auto simp: EmitConnectChangedEvent_def GetDisplayMode_def fun_eq_iff)

lemma restore_slot_result:
  "restore_slot s dme is = Some i \<Longrightarrow> i \<in> set is"
  "(\<exists>i\<in>set is. \<exists>e. GetDisplayMode s (m_modes s ! i) = Some e
      \<and> (dm_width e \<noteq> dm_width dme \<or> dm_height e \<noteq> dm_height dme)) \<Longrightarrow> \<exists>i. restore_slot s dme is = Some i"
  by (induction "is") (auto split: option.splits if_splits)

lemma take_swap:
  assumes "i < n" "n \<le> length xs"
  shows "mset (take n (xs[0 := xs ! i, i := xs ! 0])) = mset (take n xs)"
proof -
  have "take n (xs[0 := xs ! i, i := xs ! 0]) = (take n xs)[0 := take n xs ! i, i := take n xs ! 0]"
    using assms by (simp add: take_update_swap)
  also have "mset \<dots> = mset (take n xs)"
    using assms by (intro mset_swap) simp_all
  finally show ?thesis .
qed

lemma restore_inv: "vga_inv sel s \<Longrightarrow> vga_inv sel (RestoreAllModes s)"
  by (auto simp: RestoreAllModes_def Let_def vga_inv_def CustomSwitchStepSet_def take_swap
      split: option.splits dest!: restore_slot_result(1))

lemma custom_inv: "vga_inv sel s \<Longrightarrow> CustomMode i n h m s = (r, s') \<Longrightarrow> vga_inv sel s'"
  by (auto simp: CustomMode_def Let_def vga_inv_def CustomSwitchStepSet_def clamp_dim_range
      split: option.splits if_splits)

lemma custom_waits_frame:
  "CustomMode i n h m s = (r, s') \<Longrightarrow> m_restore_call s' = m_restore_call s \<and> fb_vram s' = fb_vram s \<and> (r = Waiting \<longrightarrow> m_restore_call s)"
  by (auto simp: CustomMode_def Let_def CustomSwitchStepSet_def custom_finish_def split: option.splits if_splits)

lemma restore_frame: "m_restore_call (RestoreAllModes s) = m_restore_call s \<and> fb_vram (RestoreAllModes s) = fb_vram s"
  by (auto simp: RestoreAllModes_def Let_def CustomSwitchStepSet_def split: option.splits)

lemma setDisplayMode_inv: "vga_inv sel s \<Longrightarrow> vga_inv sel (snd (setDisplayMode m depth s))"
  using GetDisplayMode_valid [of s m]
  by (auto simp: setDisplayMode_def vga_inv_def split: option.splits)

lemma vga_step_inv:
  assumes "vga_step x y" "vga_inv sel (fst x)" "snd x \<noteq> [] \<longrightarrow> m_restore_call (fst x)"
  shows "vga_inv sel (fst y) \<and> (snd y \<noteq> [] \<longrightarrow> m_restore_call (fst y)) \<and> fb_vram (fst y) = fb_vram (fst x)"
  using assms
proof (cases rule: vga_step.cases)
  case (custom_returns i n h m s r x s' ws)
  then show ?thesis using assms(2,3) custom_inv custom_waits_frame by fastforce
next
  case (custom_waits cm n h m s s' ws)
  then show ?thesis using assms(2,3) custom_inv custom_waits_frame by fastforce
next
  case (restore s ws)
  have "vga_inv sel (s\<lparr>restore_pending := False\<rparr>)" using assms(2) restore by (simp add: vga_inv_def)
  then show ?thesis using restore restore_inv restore_frame [of "s\<lparr>restore_pending := False\<rparr>"] assms(3) by simp
next
  case (set_mode s ws m depth)
  then show ?thesis
    using assms(2,3) setDisplayMode_inv by (auto simp: setDisplayMode_def split: option.splits)
qed (auto simp: vga_inv_def custom_resume_def Let_def setAttribute_def CustomSwitchStepSet_def registerForInterruptType_def
    setInterruptState_def unregisterInterrupt_def)

lemma vga_run_inv:
  assumes "vga_step\<^sup>*\<^sup>* x y" "vga_inv sel (fst x)" "snd x \<noteq> [] \<longrightarrow> m_restore_call (fst x)"
  shows "vga_inv sel (fst y) \<and> (snd y \<noteq> [] \<longrightarrow> m_restore_call (fst y)) \<and> fb_vram (fst y) = fb_vram (fst x)"
  using assms by (induction rule: rtranclp_induct) (use vga_step_inv in \<open>simp_all, metis\<close>)


text \<open>Two modes of different size are always among the active ones, so there is always a slot to swap with.\<close>

lemma fitting_modes_set:
  "m \<in> set (fitting_modes mem) \<longleftrightarrow> (\<exists>k. m = int k + 1 \<and> k < 25 \<and> fits 2560 1600 mem (modeList ! k))"
proof -
  have "set (filter (\<lambda>i. fits 2560 1600 mem (modeList ! i)) [0..<25])
      = {i. i < 25 \<and> fits 2560 1600 mem (modeList ! i)}"
    unfolding set_filter set_upt by auto
  then show ?thesis unfolding fitting_modes_def set_map by auto
qed

lemma modeList_tail:
  assumes "2 \<le> i" "i < 25"
  shows "800 < dm_width (modeList ! i)"
proof -
  have "modeList ! i = drop 2 modeList ! (i - 2)"
    using assms by (metis le_add_diff_inverse length_modeList less_imp_le_nat nth_drop order_trans)
  then have "modeList ! i \<in> set (drop 2 modeList)" using assms by (simp only:) (rule nth_mem, simp)
  then show ?thesis by (auto simp: modeList_def mode_entry_def)
qed

lemma modeList_1: "dm_width (modeList ! 1) = 800" "dm_height (modeList ! 1) = 600"
  by (simp_all add: modeList_def mode_entry_def)

lemma fitting_modes_differ:
  assumes "3 \<le> length (fitting_modes mem)"
  obtains i where "2 \<in> set (fitting_modes mem)" "int i + 1 \<in> set (fitting_modes mem)" "2 \<le> i" "i < 25"
proof -
  let ?P = "\<lambda>i. fits 2560 1600 mem (modeList ! i)"
  define js where "js = [0..<25 :: nat]"
  have js: "set js = {..<25}" "distinct js" "fitting_modes mem = map (\<lambda>i. int i + 1) (filter ?P js)"
    unfolding js_def fitting_modes_def by (simp_all only: set_upt atLeast0LessThan distinct_upt)
  have "\<exists>i. 2 \<le> i \<and> i < 25 \<and> ?P i"
  proof (rule ccontr)
    assume no: "\<not> ?thesis"
    have "set (filter ?P js) \<subseteq> {0, 1}"
      using no js(1) by (auto simp: numeral_2_eq_2 not_less_eq_eq)
    then have "card (set (filter ?P js)) \<le> card {0, 1 :: nat}" by (intro card_mono) simp_all
    then have "card (set (filter ?P js)) \<le> 2" by simp
    then show False using assms distinct_card [of "filter ?P js"] js(2,3) by simp
  qed
  then obtain i where i: "2 \<le> i" "i < 25" "?P i" by blast
  have m: "modeList ! i \<in> set modeList" using i by simp
  have "800 * 600 \<le> unat (dm_width (modeList ! i)) * unat (dm_height (modeList ! i))"
    using modeList_dims(1,3) [OF m] by (intro mult_le_mono) (simp_all add: word_le_nat_alt)
  then have "?P 1" using i(3) modeList_1 by (auto simp: fits_def)
  then have "2 \<in> set (fitting_modes mem)" using js by (auto simp: image_iff)
  moreover have "int i + 1 \<in> set (fitting_modes mem)" using i js by auto
  ultimately show thesis using that i by blast
qed

lemma GetDisplayMode_table: "2 \<le> i \<Longrightarrow> i \<le> 25 \<Longrightarrow> GetDisplayMode s (int i) = Some (modeList ! (i - 1))"
  by (simp add: GetDisplayMode_def nat_diff_distrib)

section \<open>Properties\<close>

text \<open>C18. The modes a started driver advertises are exactly those of the table that fit the screen limits and the
  memory, in table order, as computed in exact arithmetic; their number is what the count query returns; and the
  rows and lines of each of them, as the pixel query reports them, fit the memory.\<close>

theorem advertised_modes_fit:
  assumes "vga_start p thread lock s0 = (True, s)" "length (m_modes s0) = 25" "\<not> restore_pending s0"
  shows "getDisplayModes s = fitting_modes (unat (vram_bytes_of s))
     \<and> getDisplayModeCount s = length (getDisplayModes s)
     \<and> (\<forall>m \<in> set (getDisplayModes s). m \<noteq> CUSTOM_MODE_ID \<longrightarrow>
          (\<exists>i. getPixelInformation m 0 0 True s = (kIOReturnSuccess, Some i)
             \<and> (vram_bytes_of s = 0 \<or> unat (pi_bytesPerRow i) * unat (pi_height i) \<le> unat (vram_bytes_of s))))"
proof -
  note r = vga_start_result [OF assms]
  have "\<exists>i. getPixelInformation m 0 0 True s = (kIOReturnSuccess, Some i)
      \<and> (vram_bytes_of s = 0 \<or> unat (pi_bytesPerRow i) * unat (pi_height i) \<le> unat (vram_bytes_of s))"
    if m: "m \<in> set (fitting_modes (unat (vram_bytes_of s)))" "m \<noteq> 1" for m
  proof -
    obtain k where k: "m = int k + 1" "k < 25" "fits 2560 1600 (unat (vram_bytes_of s)) (modeList ! k)"
      using m(1) by (auto simp: fitting_modes_set)
    then have g: "GetDisplayMode s m = Some (modeList ! k)" using m(2) by (simp add: GetDisplayMode_def)
    have t: "modeList ! k \<in> set modeList" using k(2) by simp
    let ?d = "modeList ! k"
    have "getPixelInformation m 0 0 True s = (kIOReturnSuccess, Some \<lparr>pi_width = dm_width ?d, pi_height = dm_height ?d,
        pi_bytesPerRow = dm_width ?d * 4, pi_bitsPerPixel = 32\<rparr>)"
      unfolding getPixelInformation_def g by (simp only: option.case modeList_dims(6) [OF t]) simp
    then show ?thesis using k(3) by (simp add: fits_def unat_eq_0 modeList_dims(7) [OF t] mult.assoc mult.commute [of 4])
  qed
  then show ?thesis using r by (auto simp: getDisplayModeCount_def vga_inv_def)
qed

text \<open>C19. The state stays well formed through every interleaving of clients inside \<^verbatim>\<open>CustomMode\<close>, calls of the window
  server and the delayed call: the active modes stay a permutation of the modes selected at start, the current
  mode and the custom mode stay valid and within the device's limits, the switch has one of its three values, and a
  call waits or is scheduled only if the delayed call exists.\<close>

theorem modes_invariant:
  assumes "vga_start p thread lock s0 = (True, s)" "length (m_modes s0) = 25" "\<not> restore_pending s0"
    and "vga_step\<^sup>*\<^sup>* (s, []) (s', ws)"
  shows "mset (take (m_num_active_modes s') (m_modes s')) = mset (fitting_modes (unat (vram_bytes_of s)))
     \<and> GetDisplayMode s' (m_display_mode s') \<noteq> None \<and> m_custom_switch s' \<in> {0, 1, 2}
     \<and> 800 \<le> dm_width (customMode s') \<and> dm_width (customMode s') \<le> m_max_width (svga s')
     \<and> 600 \<le> dm_height (customMode s') \<and> dm_height (customMode s') \<le> m_max_height (svga s')
     \<and> (ws \<noteq> [] \<or> restore_pending s' \<longrightarrow> m_restore_call s')"
  using vga_run_inv [OF assms(4)] vga_start_result [OF assms(1-3)] GetDisplayMode_valid [of s' "m_display_mode s'"]
  by (auto simp: vga_inv_def)

text \<open>C20. Setting a mode programs the device: in every reachable state, unless a custom mode is being restored, the
  call disables the display, writes the resolution and depth of the mode without truncation, and enables the
  linear frame buffer; the geometry is never written while the display is enabled.\<close>

theorem setDisplayMode_programs:
  assumes "vga_start p thread lock s0 = (True, s)" "length (m_modes s0) = 25" "\<not> restore_pending s0"
    and "vga_step\<^sup>*\<^sup>* (s, []) (s', ws)" "setDisplayMode m depth s' = (kIOReturnSuccess, t)"
    and "\<not> m_custom_mode_switched s'" "GetDisplayMode s' m = Some dme"
  shows "\<exists>pw. port_writes (svga t) = port_writes (svga s') @ pw
     \<and> (let r = snd (vbe_run pw st) in unat (r 1) = unat (dm_width dme) \<and> unat (r 2) = unat (dm_height dme)
          \<and> r 3 = 32 \<and> r 4 = 0x41 \<and> (\<forall>i. i \<notin> {1, 2, 3, 4} \<longrightarrow> r i = snd st i))
     \<and> vbe_safe pw st \<and> m_display_mode t = m"
proof -
  have inv: "vga_inv (fitting_modes (unat (vram_bytes_of s))) s'"
    using vga_run_inv [OF assms(4)] vga_start_result [OF assms(1-3)] by auto
  have u: "unat (ucast (dm_width dme) :: u16) = unat (dm_width dme)" "unat (ucast (dm_height dme) :: u16) = unat (dm_height dme)"
    using GetDisplayMode_dims [OF inv assms(7)] by (simp_all add: unsigned_ucast_eq take_bit_nat_eq_self)
  obtain j regs where st: "st = (j, regs)" by fastforce
  show ?thesis
    using assms(5-7) u by (auto simp: setDisplayMode_def SetMode_writes st split: if_splits)
qed


text \<open>A custom-mode request completes as soon as the window server does its part: after the client's call the
  driver offers only the custom mode; when the window server sets it and releases its capture, the switch moves
  on, the waiting client wakes with success and the requested size clamped to the device's limits, the device is
  programmed with that size, and the delayed call is scheduled.\<close>

theorem custom_switch_completes:
  assumes "vga_start p thread lock s0 = (True, s)" "length (m_modes s0) = 25" "\<not> restore_pending s0"
    and "vga_step\<^sup>*\<^sup>* (s, []) (u, ws)" "CustomMode (Some cm) n True (Some m) u = (Waiting, u1)"
    and "setDisplayMode CUSTOM_MODE_ID 0 u1 = (r2, u2)" "setAttribute r kIOCapturedAttribute 0 u2 = (r3, u3)"
    and "custom_resume (cm_flags cm) u3 = (out, u4)" "\<not> m_custom_mode_switched u"
  shows "getDisplayModes u1 = [CUSTOM_MODE_ID] \<and> m_custom_switch u3 = 2
     \<and> out = Returned kIOReturnSuccess (Some \<lparr>cm_flags = cm_flags cm,
          cm_width = clamp_dim 800 2560 (cm_width cm), cm_height = clamp_dim 600 1600 (cm_height cm)\<rparr>)
     \<and> m_width (svga u4) = clamp_dim 800 2560 (cm_width cm) \<and> m_height (svga u4) = clamp_dim 600 1600 (cm_height cm)
     \<and> restore_pending u4"
proof -
  have inv: "vga_inv (fitting_modes (unat (vram_bytes_of s))) u"
    using vga_run_inv [OF assms(4)] vga_start_result [OF assms(1-3)] by auto
  have u1: "u1 = EmitConnectChangedEvent (u\<lparr>customMode := (customMode u)\<lparr>dm_width := clamp_dim 800 2560 (cm_width cm),
       dm_height := clamp_dim 600 1600 (cm_height cm)\<rparr>, m_custom_switch := 1\<rparr>)"
    using assms(5) inv
    by (auto simp: CustomMode_def Let_def CustomSwitchStepSet_def vga_inv_def custom_finish_def split: option.splits if_splits)
  have u2: "u2 = u1\<lparr>svga := SetMode (clamp_dim 800 2560 (cm_width cm)) (clamp_dim 600 1600 (cm_height cm)) 32 (svga u1),
       m_display_mode := 1, m_depth_mode := 0\<rparr>"
    using assms(6,9) by (auto simp: setDisplayMode_def GetDisplayMode_def u1)
  have u3: "u3 = u2\<lparr>m_custom_switch := 2\<rparr>"
    using assms(7) by (auto simp: setAttribute_def CustomSwitchStepSet_def u2 u1)
  show ?thesis
    using assms(8) by (auto simp: custom_resume_def custom_finish_def Let_def u3 u2 u1 getDisplayModes_def GetDisplayMode_def)
qed

text \<open>The restore of the mode list can be lost on the device: while a restored driver still waits for the window
  server to settle on the custom size, a further custom-mode request reports success with the new size, but the
  device keeps its old resolution, because setting the custom mode then only clears the flag.\<close>

theorem custom_switch_skips_device:
  assumes "CustomMode (Some cm) n True (Some m) u = (Waiting, u1)"
    and "setDisplayMode CUSTOM_MODE_ID 0 u1 = (r2, u2)" "setAttribute r kIOCapturedAttribute 0 u2 = (r3, u3)"
    and "custom_resume (cm_flags cm) u3 = (out, u4)" "m_custom_mode_switched u"
  shows "svga u4 = svga u \<and> m_custom_switch u3 = 2
     \<and> out = Returned kIOReturnSuccess (Some \<lparr>cm_flags = cm_flags cm,
          cm_width = clamp_dim 800 (m_max_width (svga u)) (cm_width cm),
          cm_height = clamp_dim 600 (m_max_height (svga u)) (cm_height cm)\<rparr>)"
proof -
  let ?w = "clamp_dim 800 (m_max_width (svga u)) (cm_width cm)" and ?h = "clamp_dim 600 (m_max_height (svga u)) (cm_height cm)"
  have u1: "u1 = EmitConnectChangedEvent (u\<lparr>customMode := (customMode u)\<lparr>dm_width := ?w, dm_height := ?h\<rparr>, m_custom_switch := 1\<rparr>)"
    using assms(1)
    by (auto simp: CustomMode_def Let_def CustomSwitchStepSet_def custom_finish_def split: option.splits if_splits)
  have u2: "u2 = u1\<lparr>m_custom_mode_switched := False, m_display_mode := 1, m_depth_mode := 0\<rparr>"
    using assms(2,5) by (auto simp: setDisplayMode_def GetDisplayMode_def u1)
  have u3: "u3 = u2\<lparr>m_custom_switch := 2\<rparr>"
    using assms(3) by (auto simp: setAttribute_def CustomSwitchStepSet_def u2 u1)
  show ?thesis
    using assms(4) by (auto simp: custom_resume_def custom_finish_def Let_def u3 u2 u1 GetDisplayMode_def)
qed

text \<open>The full mode list always comes back: in every reachable state in which the switch stands at 2, the delayed
  call finds a slot to swap, resets the switch, and the modes offered again are those of the start, in an order in
  which the first has another size than the custom mode.\<close>

theorem restore_brings_back_modes:
  assumes "vga_start p thread lock s0 = (True, s)" "length (m_modes s0) = 25" "\<not> restore_pending s0"
    and "vga_step\<^sup>*\<^sup>* (s, []) (u, ws)" "m_custom_switch u = 2"
  shows "m_custom_switch (RestoreAllModes u) = 0
     \<and> mset (getDisplayModes (RestoreAllModes u)) = mset (getDisplayModes s)
     \<and> m_custom_mode_switched (RestoreAllModes u)"
proof -
  let ?sel = "fitting_modes (unat (vram_bytes_of s))"
  note r = vga_start_result [OF assms(1-3)]
  have inv: "vga_inv ?sel u" using vga_run_inv [OF assms(4)] r by auto
  have len: "3 \<le> length ?sel" using r by blast
  obtain i where i: "2 \<in> set ?sel" "int i + 1 \<in> set ?sel" "2 \<le> i" "i < 25" by (rule fitting_modes_differ [OF len])
  have idx: "\<exists>k < length ?sel. m_modes u ! k = x" if "x \<in> set ?sel" for x
  proof -
    have "x \<in> set (take (length ?sel) (m_modes u))" using that inv by (metis vga_inv_def set_mset_mset)
    then show ?thesis using inv by (auto simp: in_set_conv_nth vga_inv_def)
  qed
  obtain a b where ab: "a < length ?sel" "m_modes u ! a = 2" "b < length ?sel" "m_modes u ! b = int i + 1"
    using idx [OF i(1)] idx [OF i(2)] by auto
  have g: "GetDisplayMode u 2 = Some (modeList ! 1)" "GetDisplayMode u (int i + 1) = Some (modeList ! i)"
    using i by (simp_all add: GetDisplayMode_def)
  have ne: "dm_width (modeList ! 1) \<noteq> dm_width (modeList ! i)" using modeList_tail [OF i(3,4)] modeList_1 by auto
  have "\<exists>k. restore_slot u (customMode u) [0..<m_num_active_modes u] = Some k"
  proof (rule restore_slot_result(2))
    show "\<exists>k\<in>set [0..<m_num_active_modes u]. \<exists>e. GetDisplayMode u (m_modes u ! k) = Some e
        \<and> (dm_width e \<noteq> dm_width (customMode u) \<or> dm_height e \<noteq> dm_height (customMode u))"
    proof (cases "dm_width (modeList ! 1) = dm_width (customMode u)")
      case True
      then show ?thesis using ab g ne inv by (intro bexI [of _ b]) (auto simp: vga_inv_def)
    next
      case False
      then show ?thesis using ab g inv by (intro bexI [of _ a]) (auto simp: vga_inv_def)
    qed
  qed
  then obtain k where k: "restore_slot u (customMode u) [0..<m_num_active_modes u] = Some k" by blast
  have "RestoreAllModes u = EmitConnectChangedEvent (u\<lparr>m_modes := (m_modes u)[0 := m_modes u ! k, k := m_modes u ! 0],
      m_custom_mode_switched := True, m_custom_switch := 0\<rparr>)"
    using assms(5) k by (simp add: RestoreAllModes_def GetDisplayMode_def CustomSwitchStepSet_def Let_def)
  then show ?thesis
    using inv r restore_slot_result(1) [OF k] by (auto simp: getDisplayModes_def vga_inv_def take_swap)
qed

text \<open>Custom modes are not checked against the memory: whenever the memory is smaller than the largest screen, a
  request for the largest screen is accepted, and the frame the driver then describes is larger than the memory.\<close>

theorem custom_mode_exceeds_vram:
  assumes "m_restore_call u" "GetDisplayMode u (m_display_mode u) = Some dme" "dm_width dme \<noteq> 2560 \<or> dm_height dme \<noteq> 1600"
    and "m_max_width (svga u) = 2560" "m_max_height (svga u) = 1600" "unat (vram_bytes_of u) < 16384000"
  shows "\<exists>u1 i. CustomMode (Some \<lparr>cm_flags = 1, cm_width = 2560, cm_height = 1600\<rparr>) 12 True (Some 12) u = (Waiting, u1)
     \<and> getPixelInformation CUSTOM_MODE_ID 0 0 True u1 = (kIOReturnSuccess, Some i)
     \<and> unat (pi_bytesPerRow i) * unat (pi_height i) > unat (vram_bytes_of u1)"
proof -
  let ?u1 = "EmitConnectChangedEvent (u\<lparr>customMode := (customMode u)\<lparr>dm_width := 2560, dm_height := 1600\<rparr>, m_custom_switch := 1\<rparr>)"
  have "vram_bytes_of ?u1 = vram_bytes_of u" by (simp add: vram_bytes_of_def cong: option.case_cong)
  moreover have "CustomMode (Some \<lparr>cm_flags = 1, cm_width = 2560, cm_height = 1600\<rparr>) 12 True (Some 12) u = (Waiting, ?u1)"
    using assms(1-5) by (auto simp: CustomMode_def Let_def clamp_dim_def CustomSwitchStepSet_def)
  moreover have "getPixelInformation CUSTOM_MODE_ID 0 0 True ?u1 = (kIOReturnSuccess, Some \<lparr>pi_width = 2560, pi_height = 1600,
      pi_bytesPerRow = 10240, pi_bitsPerPixel = 32\<rparr>)"
    by (simp add: getPixelInformation_def GetDisplayMode_def)
  ultimately show ?thesis using assms(6) by simp
qed

section \<open>A sample device\<close>

text \<open>A standard VGA device with eight megabytes of memory.\<close>

definition sample_vga_pci :: vga_pci where
  "sample_vga_pci = \<lparr>vp_vendor = 0x1234, vp_device = 0x1111, vp_prop_vendor = 0, vp_prop_device = 0,
     vp_bar0 = Some \<lparr>vram_phys = 0xE0000000, vram_len = 0x800000\<rparr>, vp_read = (\<lambda>_ _. 0)\<rparr>"

definition blank_device :: vga_device where
  "blank_device = \<lparr>m_provider = False, m_vram = None, m_vram_base = 0, m_vram_size = 0, m_fb_offset = 0, m_fb_size = 0,
     m_max_width = 0, m_max_height = 0, m_width = 0, m_height = 0, m_bpp = 0, port_writes = []\<rparr>"

definition blank_vga :: vga where
  "blank_vga = \<lparr>svga = blank_device, fb_vram = None, m_is_virtio_gpu = False, m_is_qxl_device = False,
     m_modes = replicate 25 0, m_num_active_modes = 0, m_display_mode = 0, m_depth_mode = 0, m_custom_switch = 0,
     m_custom_mode_switched = False, customMode = mode_entry 0 0 0, intr_proc = False, m_intr_enabled = False,
     intr_calls = 0, m_restore_call = False, restore_pending = False, m_iolock = False\<rparr>"

definition sample_vga :: vga where
  "sample_vga = snd (vga_start sample_vga_pci True True blank_vga)"

text \<open>A standard device with room for three modes starts.\<close>

lemma vga_start_intro:
  assumes "vp_bar0 p = Some v" "vp_prop_vendor p = 0" "length (m_modes s0) = 25"
    and "3 \<le> length (fitting_modes (unat (vram_len v)))"
  shows "\<exists>s. vga_start p True True s0 = (True, s) \<and> fb_vram s = Some v
     \<and> (\<exists>d. svga_Start p (svga s0) = (True, d) \<and> m_display_mode s = TryDetectCurrentDisplayMode (s0\<lparr>svga := d\<rparr>) 3)"
proof -
  define b where "b = start_ids p s0"
  have b: "svga b = svga s0" "m_modes b = m_modes s0" "\<not> m_is_virtio_gpu b" "\<not> m_is_qxl_device b"
    using assms(2) by (simp_all add: b_def start_ids_def Let_def)
  obtain d where d: "svga_Start p (svga s0) = (True, d)"
    using assms(1) by (cases "svga_Start p (svga s0)") (auto simp: svga_Start_def Let_def split: if_splits prod.splits)
  note sv = svga_Start_frame [OF d]
  have v: "start_vram p (b\<lparr>svga := d\<rparr>) = b\<lparr>svga := d, fb_vram := Some v\<rparr>"
    using b sv assms(1) by (simp add: start_vram_def Let_def)
  have vb: "vram_bytes_of (b\<lparr>svga := d, fb_vram := Some v\<rparr>) = vram_len v" by (simp add: vram_bytes_of_def)
  obtain ms where ms: "start_modes (b\<lparr>svga := d, fb_vram := Some v\<rparr>) = b\<lparr>svga := d, fb_vram := Some v,
      customMode := modeList ! 0, m_modes := ms, m_num_active_modes := length (fitting_modes (unat (vram_len v)))\<rparr>"
    using select_modes_result [of "b\<lparr>svga := d, fb_vram := Some v, customMode := modeList ! 0, m_num_active_modes := 0\<rparr>"
        "[0..<25]" 2560 1600 "vram_len v"] b(2) assms(3) sv
    by (auto simp: start_modes_def fitting_modes_def atLeast0LessThan vb)
  show ?thesis
    using d v ms b(1) assms(4) by (auto simp: vga_start_def Let_def b_def [symmetric] TryDetectCurrentDisplayMode_def)
qed

lemma blank_facts: "length (m_modes blank_vga) = 25" "\<not> restore_pending blank_vga"
  by (simp_all add: blank_vga_def)

lemma sample_modes: "3 \<le> length (fitting_modes (unat (0x800000 :: u64)))"
  by (simp add: fitting_modes_def fits_def upt_rec modeList_def mode_entry_def)

lemma sample_start:
  obtains s where "vga_start sample_vga_pci True True blank_vga = (True, s)" "vram_bytes_of s = 0x800000" "m_display_mode s = 3"
proof -
  obtain s d where s: "vga_start sample_vga_pci True True blank_vga = (True, s)" "fb_vram s = Some \<lparr>vram_phys = 0xE0000000, vram_len = 0x800000\<rparr>"
     "svga_Start sample_vga_pci (svga blank_vga) = (True, d)" "m_display_mode s = TryDetectCurrentDisplayMode (blank_vga\<lparr>svga := d\<rparr>) 3"
    using vga_start_intro [of sample_vga_pci "\<lparr>vram_phys = 0xE0000000, vram_len = 0x800000\<rparr>" blank_vga] sample_modes blank_facts(1)
    by (auto simp: sample_vga_pci_def)
  have "m_width d = 0 \<and> m_height d = 0"
    using s(3) by (auto simp: svga_Start_def sample_vga_pci_def ReadRegVBE_def Let_def)
  moreover have "detect_loop 0 0 [1..<25] 0 = Inl 3"
    by (simp add: upt_rec modeList_def mode_entry_def)
  ultimately have "m_display_mode s = 3" using s(4) by (simp add: TryDetectCurrentDisplayMode_def del: upt_rec_numeral)
  with s(1,2) show thesis by (intro that) (simp_all add: vram_bytes_of_def)
qed


theorem advertised_modes_fit_witness:
  "\<exists>s. vga_start sample_vga_pci True True blank_vga = (True, s) \<and> getDisplayModes s = fitting_modes 0x800000
     \<and> getDisplayModeCount s = length (getDisplayModes s)"
proof -
  obtain s where s: "vga_start sample_vga_pci True True blank_vga = (True, s)" "vram_bytes_of s = 0x800000" by (rule sample_start)
  from advertised_modes_fit [OF s(1) blank_facts] s show ?thesis by auto
qed

text \<open>From the started sample: a client asks for 1000 by 700, which makes it wait.\<close>

lemma sample_wait:
  assumes "vga_start sample_vga_pci True True blank_vga = (True, s)" "m_display_mode s = 3"
  shows "\<exists>u1. CustomMode (Some \<lparr>cm_flags = 1, cm_width = 1000, cm_height = 700\<rparr>) 12 True (Some 12) s = (Waiting, u1)"
proof -
  have "m_restore_call s" "m_max_width (svga s) = 2560" "m_max_height (svga s) = 1600"
    using vga_start_result [OF assms(1) blank_facts] by (auto simp: vga_inv_def)
  then show ?thesis
    using assms(2) by (simp add: CustomMode_def Let_def GetDisplayMode_def clamp_dim_def modeList_def mode_entry_def)
qed

theorem modes_invariant_witness:
  "\<exists>s u1. vga_start sample_vga_pci True True blank_vga = (True, s)
     \<and> vga_step\<^sup>*\<^sup>* (s, []) (u1, [1]) \<and> m_restore_call u1 \<and> m_custom_switch u1 \<in> {0, 1, 2}
     \<and> mset (take (m_num_active_modes u1) (m_modes u1)) = mset (fitting_modes (unat (vram_bytes_of s)))"
proof -
  obtain s where s: "vga_start sample_vga_pci True True blank_vga = (True, s)" "m_display_mode s = 3" by (rule sample_start)
  obtain u1 where u1: "CustomMode (Some \<lparr>cm_flags = 1, cm_width = 1000, cm_height = 700\<rparr>) 12 True (Some 12) s = (Waiting, u1)"
    using sample_wait [OF s] by blast
  have r: "vga_step\<^sup>*\<^sup>* (s, []) (u1, [1])" using custom_waits [OF u1, of "[]"] by auto
  from modes_invariant [OF s(1) blank_facts r] s r show ?thesis by auto
qed

theorem setDisplayMode_programs_witness:
  "\<exists>s t pw. vga_start sample_vga_pci True True blank_vga = (True, s) \<and> setDisplayMode 18 0 s = (kIOReturnSuccess, t)
     \<and> port_writes (svga t) = port_writes (svga s) @ pw \<and> unat (snd (vbe_run pw (0, \<lambda>_. 0)) 1) = 1920"
proof -
  obtain s where s: "vga_start sample_vga_pci True True blank_vga = (True, s)" by (rule sample_start)
  have n: "\<not> m_custom_mode_switched s" using vga_start_result [OF s blank_facts] by blast
  have g: "GetDisplayMode s 18 = Some (mode_entry 1920 1080 3)" by (simp add: GetDisplayMode_def modeList_def)
  then obtain t where t: "setDisplayMode 18 0 s = (kIOReturnSuccess, t)" using n by (simp add: setDisplayMode_def)
  from setDisplayMode_programs [OF s blank_facts rtranclp.rtrancl_refl t n g, of "(0, \<lambda>_. 0)"] s t
  show ?thesis by (auto simp: Let_def mode_entry_def)
qed

theorem custom_switch_completes_witness:
  "\<exists>s u1. vga_start sample_vga_pci True True blank_vga = (True, s)
     \<and> CustomMode (Some \<lparr>cm_flags = 1, cm_width = 1000, cm_height = 700\<rparr>) 12 True (Some 12) s = (Waiting, u1)
     \<and> fst (custom_resume 1 (snd (setAttribute kIOReturnSuccess kIOCapturedAttribute 0 (snd (setDisplayMode 1 0 u1)))))
        = Returned kIOReturnSuccess (Some \<lparr>cm_flags = 1, cm_width = 1000, cm_height = 700\<rparr>)"
proof -
  obtain s where s: "vga_start sample_vga_pci True True blank_vga = (True, s)" "m_display_mode s = 3" by (rule sample_start)
  obtain u1 where u1: "CustomMode (Some \<lparr>cm_flags = 1, cm_width = 1000, cm_height = 700\<rparr>) 12 True (Some 12) s = (Waiting, u1)"
    using sample_wait [OF s] by blast
  have n: "\<not> m_custom_mode_switched s" using vga_start_result [OF s(1) blank_facts] by blast
  from custom_switch_completes [OF s(1) blank_facts rtranclp.rtrancl_refl u1 _ _ _ n, where r = kIOReturnSuccess]
  show ?thesis using s u1 by (fastforce simp: clamp_dim_def prod_eq_iff)
qed

theorem custom_switch_skips_device_witness:
  "\<exists>u u1 u3 u4 out. CustomMode (Some \<lparr>cm_flags = 1, cm_width = 1000, cm_height = 700\<rparr>) 12 True (Some 12) u = (Waiting, u1)
     \<and> custom_resume 1 u3 = (out, u4) \<and> svga u4 = svga u
     \<and> out = Returned kIOReturnSuccess (Some \<lparr>cm_flags = 1, cm_width = 1000, cm_height = 700\<rparr>)"
proof -
  obtain s where s: "vga_start sample_vga_pci True True blank_vga = (True, s)" "m_display_mode s = 3" by (rule sample_start)
  let ?u = "s\<lparr>m_custom_mode_switched := True\<rparr>"
  obtain u0 where u0: "CustomMode (Some \<lparr>cm_flags = 1, cm_width = 1000, cm_height = 700\<rparr>) 12 True (Some 12) s = (Waiting, u0)"
    using sample_wait [OF s] by blast
  then obtain u1 where u1: "CustomMode (Some \<lparr>cm_flags = 1, cm_width = 1000, cm_height = 700\<rparr>) 12 True (Some 12) ?u = (Waiting, u1)"
    by (auto simp: CustomMode_def GetDisplayMode_def Let_def custom_finish_def split: option.splits if_splits)
  obtain r2 u2 where u2: "setDisplayMode 1 0 u1 = (r2, u2)" by fastforce
  obtain r3 u3 where u3: "setAttribute kIOReturnSuccess kIOCapturedAttribute 0 u2 = (r3, u3)" by fastforce
  obtain out u4 where u4: "custom_resume (cm_flags \<lparr>cm_flags = 1, cm_width = 1000, cm_height = 700\<rparr>) u3 = (out, u4)" by fastforce
  have m: "m_max_width (svga s) = 2560" "m_max_height (svga s) = 1600"
    using vga_start_result [OF s(1) blank_facts] by (auto simp: vga_inv_def)
  have "svga u4 = svga ?u \<and> out = Returned kIOReturnSuccess (Some \<lparr>cm_flags = 1, cm_width = 1000, cm_height = 700\<rparr>)"
    using custom_switch_skips_device [OF u1 u2 u3 u4] m by (simp add: clamp_dim_def)
  moreover have "custom_resume 1 u3 = (out, u4)" using u4 by simp
  ultimately show ?thesis using u1 by blast
qed

theorem custom_mode_exceeds_vram_witness:
  "\<exists>s u1 i. vga_start sample_vga_pci True True blank_vga = (True, s)
     \<and> CustomMode (Some \<lparr>cm_flags = 1, cm_width = 2560, cm_height = 1600\<rparr>) 12 True (Some 12) s = (Waiting, u1)
     \<and> getPixelInformation CUSTOM_MODE_ID 0 0 True u1 = (kIOReturnSuccess, Some i)
     \<and> unat (pi_bytesPerRow i) * unat (pi_height i) > unat (vram_bytes_of u1)"
proof -
  obtain s where s: "vga_start sample_vga_pci True True blank_vga = (True, s)" "vram_bytes_of s = 0x800000" "m_display_mode s = 3"
    by (rule sample_start)
  have "m_restore_call s" "m_max_width (svga s) = 2560" "m_max_height (svga s) = 1600"
    using vga_start_result [OF s(1) blank_facts] by (auto simp: vga_inv_def)
  moreover have "GetDisplayMode s (m_display_mode s) = Some (mode_entry 1024 768 7)"
    by (simp add: GetDisplayMode_def s(3) modeList_def)
  ultimately show ?thesis using custom_mode_exceeds_vram [of s "mode_entry 1024 768 7"] s by (auto simp: mode_entry_def)
qed

theorem restore_brings_back_modes_witness:
  "\<exists>s u ws. vga_start sample_vga_pci True True blank_vga = (True, s) \<and> vga_step\<^sup>*\<^sup>* (s, []) (u, ws) \<and> m_custom_switch u = 2
     \<and> m_custom_switch (RestoreAllModes u) = 0 \<and> mset (getDisplayModes (RestoreAllModes u)) = mset (getDisplayModes s)"
proof -
  obtain s where s: "vga_start sample_vga_pci True True blank_vga = (True, s)" "m_display_mode s = 3" by (rule sample_start)
  obtain u1 where u1: "CustomMode (Some \<lparr>cm_flags = 1, cm_width = 1000, cm_height = 700\<rparr>) 12 True (Some 12) s = (Waiting, u1)"
    using sample_wait [OF s] by blast
  let ?u2 = "snd (setDisplayMode 1 0 u1)" and ?u3 = "\<lambda>u2. snd (setAttribute kIOReturnSuccess kIOCapturedAttribute 0 u2)"
  have "vga_step (s, []) (u1, [1])" using custom_waits [OF u1, of "[]"] by simp
  moreover have "vga_step (u1, [1]) (?u2, [1])" "vga_step (?u2, [1]) (?u3 ?u2, [1])" by (rule set_mode set_attribute)+
  ultimately have r: "vga_step\<^sup>*\<^sup>* (s, []) (?u3 ?u2, [1])" by (meson converse_rtranclp_into_rtranclp r_into_rtranclp)
  have "m_custom_switch u1 = 1" using u1
    by (auto simp: CustomMode_def Let_def CustomSwitchStepSet_def custom_finish_def split: option.splits if_splits)
  then have "m_custom_switch (?u3 ?u2) = 2"
    by (simp add: setDisplayMode_def GetDisplayMode_def setAttribute_def CustomSwitchStepSet_def)
  with restore_brings_back_modes [OF s(1) blank_facts r] s r show ?thesis by blast
qed

end
