(* ===== verification/Virgl_Probe.thy ===== *)
theory Virgl_Probe
  imports Display
begin

text \<open>
  The virgl command words of \<^verbatim>\<open>virgl_protocol.h\<close> and the boot-time proof of the 3D path,
  \<^verbatim>\<open>VMVirtIOGPU::probeTransport3D\<close>: it creates a context and a 64 by 64 render target, clears it with two
  different colours, reads the pixels back and decides from the bytes alone whether the path works.
\<close>

section \<open>Command words\<close>

text \<open>\<^verbatim>\<open>VIRGL_CMD0\<close> and \<^verbatim>\<open>VIRGL_CMD_HDR\<close>: the opcode in bits 0 to 7, the object type in bits 8 to 15, the number of
  payload words above.\<close>

definition VIRGL_CMD0 :: "u32 \<Rightarrow> u32 \<Rightarrow> u32 \<Rightarrow> u32" where
  "VIRGL_CMD0 cmd obj len = cmd OR push_bit 8 obj OR push_bit 16 len"

definition VIRGL_CMD_HDR :: "u32 \<Rightarrow> u32 \<Rightarrow> u32" where
  "VIRGL_CMD_HDR cmd len = push_bit 16 len OR cmd"

abbreviation "VIRGL_CCMD_NOP \<equiv> 0 :: u32"
abbreviation "VIRGL_CCMD_CREATE_OBJECT \<equiv> 1 :: u32"
abbreviation "VIRGL_CCMD_DESTROY_OBJECT \<equiv> 3 :: u32"
abbreviation "VIRGL_CCMD_SET_FRAMEBUFFER_STATE \<equiv> 5 :: u32"
abbreviation "VIRGL_CCMD_CLEAR \<equiv> 7 :: u32"
abbreviation "VIRGL_OBJECT_SURFACE \<equiv> 8 :: u32"
abbreviation "PIPE_CLEAR_COLOR0 \<equiv> 4 :: u32"

text \<open>A little-endian word buffer as the bytes \<^verbatim>\<open>withBytes\<close> copies.\<close>

definition word_bytes :: "u32 list \<Rightarrow> bytes" where
  "word_bytes ws = concat (map le32 ws)"

section \<open>Colours\<close>

text \<open>
  The clear colours are single-precision constants; they are kept as their IEEE bit patterns, which is what
  \<^verbatim>\<open>virgl_pack_float\<close> sends. The expected byte of a channel is \<^verbatim>\<open>lrintf(c * 255.0f)\<close>: the exact product is rounded
  to 24 significant bits and then to an integer, both times to the nearest with ties to even.
\<close>

definition round_even :: "nat \<Rightarrow> nat \<Rightarrow> nat" where
  "round_even n k =
     (let q = n div 2 ^ k; r = 2 * (n mod 2 ^ k)
      in if r < 2 ^ k \<or> (r = 2 ^ k \<and> even q) then q else q + 1)"

text \<open>\<open>unorm_byte\<close> is used on normal numbers in \<open>[1/256, 1]\<close>: significand \<open>m\<close>, value \<open>m / 2 ^ (150 - ex)\<close>.\<close>

definition unorm_byte :: "u32 \<Rightarrow> u32" where
  "unorm_byte f =
     (let ex = unat (drop_bit 23 f AND 0xFF); m = 2 ^ 23 + unat (f AND 0x7FFFFF);
          p = m * 255; s = (if p < 2 ^ 31 then 7 else 8)
      in word_of_nat (round_even (round_even p s) (150 - ex - s)))"

definition clear1_rgba :: "u32 list" where
  "clear1_rgba = [0x3E4CCCCD, 0x3ECCCCCD, 0x3F19999A, 0x3F800000]"

definition clear2_rgba :: "u32 list" where
  "clear2_rgba = [0x3F4CCCCD, 0x3E4CCCCD, 0x3ECCCCCD, 0x3F800000]"

datatype byte_order = RGBA | BGRA | ARGB | ABGR

text \<open>The channels from byte 0 up, in each of the four byte orders.\<close>

fun channels :: "byte_order \<Rightarrow> 'a list \<Rightarrow> 'a list" where
  "channels RGBA c = [c ! 0, c ! 1, c ! 2, c ! 3]"
| "channels BGRA c = [c ! 2, c ! 1, c ! 0, c ! 3]"
| "channels ARGB c = [c ! 3, c ! 0, c ! 1, c ! 2]"
| "channels ABGR c = [c ! 3, c ! 2, c ! 1, c ! 0]"

definition pack4 :: "u32 list \<Rightarrow> u32" where
  "pack4 b = b ! 0 OR push_bit 8 (b ! 1) OR push_bit 16 (b ! 2) OR push_bit 24 (b ! 3)"

definition patterns_arr :: "u32 list \<Rightarrow> (byte_order \<times> u32) list" where
  "patterns_arr colour = map (\<lambda>p. (p, pack4 (channels p (map unorm_byte colour)))) [RGBA, BGRA, ARGB, ABGR]"

section \<open>Reading the pixels\<close>

definition byte_of :: "nat \<Rightarrow> u32 \<Rightarrow> u32" where
  "byte_of b w = drop_bit (b * 8) w AND 0xFF"

definition byte_near :: "u32 \<Rightarrow> u32 \<Rightarrow> nat \<Rightarrow> bool" where
  "byte_near actual expected b =
     (let ab = byte_of b actual; eb = byte_of b expected
      in \<not> (if ab > eb then ab - eb else eb - ab) > 1)"

definition within_tol :: "u32 \<Rightarrow> u32 \<Rightarrow> bool" where
  "within_tol actual expected = list_all (byte_near actual expected) [0, 1, 2, 3]"

text \<open>The scan of the first 64 words against one pattern; it stops at the first word out of tolerance.\<close>

fun scan_pattern :: "u32 \<Rightarrow> u32 list \<Rightarrow> bool" where
  "scan_pattern expected [] = True"
| "scan_pattern expected (actual # px) =
     (if actual = expected then scan_pattern expected px
      else if within_tol actual expected then scan_pattern expected px
      else False)"

fun match_pattern :: "(byte_order \<times> u32) list \<Rightarrow> u32 list \<Rightarrow> byte_order option" where
  "match_pattern [] px = None"
| "match_pattern ((p, expected) # ps) px =
     (if scan_pattern expected (take 64 px) then Some p else match_pattern ps px)"

datatype probe3d =
    Fail_A | Fail_B | Fail_C | Fail_D | Fail_F | Fail_G
  | Fail_unchanged | Fail_no_match | Fail_order
  | Pass byte_order
  | Partial "byte_order option" "byte_order option"

text \<open>The decision after the second readback.\<close>

definition probe_verdict :: "u32 list \<Rightarrow> u32 list \<Rightarrow> probe3d" where
  "probe_verdict px1 px2 =
     (let g1 = match_pattern (patterns_arr clear1_rgba) px1;
          g2 = match_pattern (patterns_arr clear2_rgba) px2
      in if px2 ! 0 = px1 ! 0 then Fail_unchanged
         else if g1 = None \<and> g2 = None then Fail_no_match
         else if g1 \<noteq> None \<and> g2 \<noteq> None \<and> g1 \<noteq> g2 then Fail_order
         else case (g1, g2) of (Some p, Some _) \<Rightarrow> Pass p | _ \<Rightarrow> Partial g1 g2)"

section \<open>The readback buffer\<close>

text \<open>The physical segments of a descriptor, the bytes the processor sees through its mapping, and \<^verbatim>\<open>memset\<close> over it.
  The buffer is memory the device can write, so its contents are in the shared memory of the control queue.\<close>

definition bmd_segs :: "memdesc \<Rightarrow> virtio_gpu_mem_entry list" where
  "bmd_segs d = (case seg_count (Suc (md_length d)) d 0 0 0 of None \<Rightarrow> [] | Some (nr, _) \<Rightarrow> seg_entries d 0 nr)"

definition bmd_bytes :: "memdesc \<Rightarrow> gpu \<Rightarrow> bytes" where
  "bmd_bytes d g = concat (map (\<lambda>en. buf_read (unat (me_length en)) (dma (vq_mem (m_vq (g_tr g))) (me_addr en))) (bmd_segs d))"

definition bmd_memset :: "u8 \<Rightarrow> memdesc \<Rightarrow> gpu \<Rightarrow> gpu" where
  "bmd_memset v d g =
     g\<lparr>g_tr := upd_q Control (\<lambda>q. q\<lparr>vq_mem := (vq_mem q)
       \<lparr>dma := fold (\<lambda>en m. m(me_addr en := replicate (unat (me_length en)) v)) (bmd_segs d) (dma (vq_mem q))\<rparr>\<rparr>) (g_tr g)\<rparr>"

definition read_words :: "memdesc \<Rightarrow> gpu \<Rightarrow> u32 list" where
  "read_words d g = map (\<lambda>i. rd32 (drop (4 * i) (bmd_bytes d g))) [0..<64]"

section \<open>The phases\<close>

abbreviation "PROBE3D_CTX \<equiv> 0xFFFB :: u32"
abbreviation "PROBE3D_RES \<equiv> 0xFFFA :: u32"
abbreviation "PROBE3D_SURF \<equiv> 1 :: u32"
abbreviation "PROBE3D_FORMAT \<equiv> 67 :: u32"

text \<open>One command with a zeroed response header: accepted when the call succeeds and the answer is \<open>OK_NODATA\<close>.\<close>

definition accepted :: "device_env \<Rightarrow> bytes \<Rightarrow> gpu \<Rightarrow> bool \<times> gpu" where
  "accepted e cmd g =
     (case send_hdr e cmd g of (ret, ty, g1) \<Rightarrow>
        (ret = kIOReturnSuccess \<and> ty = ctrl_code VIRTIO_GPU_RESP_OK_NODATA, g1))"

definition ctx_cmd :: "virtio_gpu_ctrl_type \<Rightarrow> gpu_body \<Rightarrow> gpu \<Rightarrow> bytes" where
  "ctx_cmd ty body g = wire_encode (fst (initializeCommandHeader ty PROBE3D_CTX False g)) body"

definition probe3d_create :: bytes where
  "probe3d_create = wire_encode (mk_hdr VIRTIO_GPU_CMD_RESOURCE_CREATE_3D PROBE3D_CTX)
     (Resource_create_3d PROBE3D_RES 2 PROBE3D_FORMAT 2 64 64 1 1 0 0 0)"

definition probe3d_transfer :: bytes where
  "probe3d_transfer = wire_encode (mk_hdr VIRTIO_GPU_CMD_TRANSFER_FROM_HOST_3D PROBE3D_CTX)
     (Transfer_host_3d (mk_box 0 0 0 64 64 1) 0 PROBE3D_RES 0 0 0)"

text \<open>\<^verbatim>\<open>withBytes\<close>, \<^verbatim>\<open>executeCommands\<close> and \<^verbatim>\<open>release\<close> of the temporary descriptor.\<close>

definition submit_words :: "device_env \<Rightarrow> u32 list \<Rightarrow> gpu \<Rightarrow> bool \<times> gpu" where
  "submit_words e ws g =
     (case bytes_desc e (tr_tick (g_tr g)) (word_bytes ws) of
        None \<Rightarrow> (False, g)
      | Some d \<Rightarrow>
          (case executeCommands e PROBE3D_CTX (Some d) (md_retain d g) of
             (ret, g1) \<Rightarrow> (ret = kIOReturnSuccess, md_release d g1)))"

definition surface_words :: "u32 list" where
  "surface_words = [VIRGL_CMD0 VIRGL_CCMD_CREATE_OBJECT VIRGL_OBJECT_SURFACE 5,
     PROBE3D_SURF, PROBE3D_RES, PROBE3D_FORMAT, 0, 0]"

definition clear_words :: "u32 list \<Rightarrow> u32 list" where
  "clear_words rgba = [VIRGL_CMD0 VIRGL_CCMD_SET_FRAMEBUFFER_STATE 0 3, 1, 0, PROBE3D_SURF,
     VIRGL_CMD0 VIRGL_CCMD_CLEAR 0 8, PIPE_CLEAR_COLOR0, rgba ! 0, rgba ! 1, rgba ! 2, rgba ! 3, 0, 0, 0,
     VIRGL_CMD0 VIRGL_CCMD_NOP 0 0]"

definition destroy_words :: "u32 list" where
  "destroy_words = [VIRGL_CMD0 VIRGL_CCMD_DESTROY_OBJECT VIRGL_OBJECT_SURFACE 1, PROBE3D_SURF]"

text \<open>Phases G and G': clear, read back, clear with the other colour, read back.\<close>

definition clear_and_read :: "device_env \<Rightarrow> u32 list \<Rightarrow> gpu \<Rightarrow> bool \<times> gpu" where
  "clear_and_read e rgba g =
     (case submit_words e (clear_words rgba) g of (ok, g1) \<Rightarrow>
        if \<not> ok then (False, g1) else accepted e probe3d_transfer g1)"

definition probe3d_readback :: "device_env \<Rightarrow> memdesc \<Rightarrow> gpu \<Rightarrow> probe3d \<times> gpu" where
  "probe3d_readback e d g =
     (case clear_and_read e clear1_rgba g of (ok1, g1) \<Rightarrow>
        if \<not> ok1 then (Fail_G, g1)
        else let px1 = read_words d g1 in
          case clear_and_read e clear2_rgba (bmd_memset 0xCD d g1) of (ok2, g2) \<Rightarrow>
            if \<not> ok2 then (Fail_G, g2)
            else (probe_verdict px1 (read_words d g2), g2))"

text \<open>The clean-up, by the phases reached.\<close>

definition cleanup_surface :: "device_env \<Rightarrow> bool \<Rightarrow> gpu \<Rightarrow> gpu" where
  "cleanup_surface e reached_f g = (if reached_f then snd (submit_words e destroy_words g) else g)"

definition cleanup_detach :: "device_env \<Rightarrow> bool \<Rightarrow> gpu \<Rightarrow> gpu" where
  "cleanup_detach e reached_e g =
     (if reached_e then snd (accepted e (ctx_cmd VIRTIO_GPU_CMD_CTX_DETACH_RESOURCE (Ctx_resource PROBE3D_RES) g) g) else g)"

definition probe3d_cleanup :: "device_env \<Rightarrow> bool \<Rightarrow> bool \<Rightarrow> bool \<Rightarrow> bool \<Rightarrow> memdesc option \<Rightarrow> gpu \<Rightarrow> gpu" where
  "probe3d_cleanup e b c e_reached f readback g =
     (let g1 = cleanup_surface e f g;
          g2 = cleanup_detach e e_reached g1;
          g3 = (if c then snd (deallocateResource e PROBE3D_RES g2) else g2);
          g4 = (if b then snd (destroy3DContext e PROBE3D_CTX g3) else g3)
      in case readback of None \<Rightarrow> g4 | Some d \<Rightarrow> md_release d g4)"

text \<open>Phases E to G' once the backing is attached; phase E's answer is ignored.\<close>

definition probe3d_render :: "device_env \<Rightarrow> memdesc \<Rightarrow> gpu \<Rightarrow> probe3d \<times> gpu" where
  "probe3d_render e d g =
     (let g1 = snd (accepted e (ctx_cmd VIRTIO_GPU_CMD_CTX_ATTACH_RESOURCE (Ctx_resource PROBE3D_RES) g) g)
      in case submit_words e surface_words g1 of (ok, g2) \<Rightarrow>
           if \<not> ok then (Fail_F, probe3d_cleanup e True True True False (Some d) g2)
           else case probe3d_readback e d g2 of (v, g3) \<Rightarrow> (v, probe3d_cleanup e True True True True (Some d) g3))"

definition probe3d_backing :: "device_env \<Rightarrow> gpu \<Rightarrow> probe3d \<times> gpu" where
  "probe3d_backing e g =
     (case bmd_alloc e (tr_tick (g_tr g)) 16384 of
        None \<Rightarrow> (Fail_D, probe3d_cleanup e True True False False None g)
      | Some d \<Rightarrow>
          (case attachBacking e PROBE3D_RES (Some d) (bmd_memset 0 d (md_retain d g)) of (ret, g1) \<Rightarrow>
             if ret \<noteq> kIOReturnSuccess then (Fail_D, probe3d_cleanup e True True False False (Some d) g1)
             else probe3d_render e d g1))"

definition probeTransport3D :: "device_env \<Rightarrow> gpu \<Rightarrow> probe3d \<times> gpu" where
  "probeTransport3D e g =
     (if \<not> m_control_queue g then (Fail_A, g)
      else if \<not> supports3D g \<or> m_num_capsets g = 0 then (Fail_A, g)
      else case accepted e (ctx_cmd VIRTIO_GPU_CMD_CTX_CREATE (Ctx_create 0 0 (zeros 64)) g) g of (ok_b, g1) \<Rightarrow>
        if \<not> ok_b then (Fail_B, probe3d_cleanup e False False False False None g1)
        else case accepted e probe3d_create g1 of (ok_c, g2) \<Rightarrow>
          if \<not> ok_c then (Fail_C, probe3d_cleanup e True False False False None g2)
          else probe3d_backing e g2)"

section \<open>The command words\<close>

lemma unat_bits32: "(n :: nat) < 2 ^ 32 \<Longrightarrow> unat (word_of_nat n :: u32) = n"
  by (simp add: unat_of_nat)

lemma word_bytes_length [simp]: "length (word_bytes ws) = 4 * length ws"
  by (induction ws) (simp_all add: word_bytes_def)

section \<open>What the decision means\<close>

text \<open>Byte \<open>b\<close> of a pixel, and a pixel that shows the four given channel values up to one unit each.\<close>

definition pixel_byte :: "nat \<Rightarrow> u32 \<Rightarrow> nat" where
  "pixel_byte b w = unat w div 256 ^ b mod 256"

definition shows_colour :: "u32 \<Rightarrow> nat list \<Rightarrow> bool" where
  "shows_colour w c \<longleftrightarrow> (\<forall>b < 4. pixel_byte b w \<le> c ! b + 1 \<and> c ! b \<le> pixel_byte b w + 1)"

lemma unat_byte_of: "unat (byte_of b w) = pixel_byte b w"
proof -
  have "byte_of b w = take_bit 8 (drop_bit (b * 8) w)"
    by (simp add: byte_of_def take_bit_eq_mask mask_eq_exp_minus_1 del: drop_bit_take_bit take_bit_drop_bit)
  moreover have "unat (take_bit 8 (drop_bit (b * 8) w)) = take_bit 8 (drop_bit (b * 8) (unat w))"
    by (simp only: unsigned_take_bit_eq unsigned_drop_bit_eq) (simp add: unsigned_take_bit_eq [symmetric] take_bit_word_eq_self)
  moreover have "(2 :: nat) ^ (b * 8) = 256 ^ b" by (subst mult.commute, subst power_mult) simp
  ultimately show ?thesis by (simp add: pixel_byte_def take_bit_eq_mod drop_bit_eq_div)
qed

lemma byte_near_pixel:
  "byte_near w x b \<longleftrightarrow> pixel_byte b w \<le> pixel_byte b x + 1 \<and> pixel_byte b x \<le> pixel_byte b w + 1"
proof -
  have one: "(z > 1) = (unat z > 1)" for z :: u32 by (simp add: word_less_nat_alt)
  show ?thesis
    unfolding byte_near_def Let_def one
    by (auto simp: unat_byte_of [symmetric] word_less_nat_alt unat_sub word_le_nat_alt not_less)
qed

lemma within_tol_shows:
  assumes "\<And>b. b < 4 \<Longrightarrow> pixel_byte b x = c ! b"
  shows "within_tol w x \<longleftrightarrow> shows_colour w c"
proof -
  have "within_tol w x \<longleftrightarrow> (\<forall>b < 4. byte_near w x b)"
    by (auto simp: within_tol_def numeral_eq_Suc less_Suc_eq)
  then show ?thesis by (simp add: byte_near_pixel shows_colour_def assms)
qed

lemma within_tol_refl [simp]: "within_tol w w"
  by (simp add: within_tol_def byte_near_def)

lemma scan_pattern_all: "scan_pattern x px \<longleftrightarrow> (\<forall>w \<in> set px. within_tol w x)"
  by (induction px) auto

text \<open>The colours as bytes.\<close>

definition colour1 :: "nat list" where "colour1 = [51, 102, 153, 255]"

definition colour2 :: "nat list" where "colour2 = [204, 51, 102, 255]"

lemma unorm_colours:
  "map unorm_byte clear1_rgba = [51, 102, 153, 255]" "map unorm_byte clear2_rgba = [204, 51, 102, 255]"
  by (simp_all add: clear1_rgba_def clear2_rgba_def unorm_byte_def round_even_def Let_def)

lemma all_bytes: "(\<forall>b < 4. P b) \<longleftrightarrow> P 0 \<and> P 1 \<and> P 2 \<and> P (3 :: nat)"
  by (auto simp: numeral_eq_Suc less_Suc_eq)

lemma pack_bytes:
  assumes "b < 4"
  shows "pixel_byte b (pack4 (channels p (map unorm_byte clear1_rgba))) = channels p colour1 ! b"
    "pixel_byte b (pack4 (channels p (map unorm_byte clear2_rgba))) = channels p colour2 ! b"
proof -
  have "\<forall>b < 4. pixel_byte b (pack4 (channels p (map unorm_byte clear1_rgba))) = channels p colour1 ! b"
    "\<forall>b < 4. pixel_byte b (pack4 (channels p (map unorm_byte clear2_rgba))) = channels p colour2 ! b"
    by (cases p; simp add: all_bytes unorm_colours pack4_def pixel_byte_def colour1_def colour2_def)+
  then show "pixel_byte b (pack4 (channels p (map unorm_byte clear1_rgba))) = channels p colour1 ! b"
    "pixel_byte b (pack4 (channels p (map unorm_byte clear2_rgba))) = channels p colour2 ! b"
    using assms by simp_all
qed

lemma colours_far:
  assumes "shows_colour w c" "shows_colour w c'" "b < 4"
  shows "c ! b \<le> c' ! b + 2"
  using assms by (fastforce simp: shows_colour_def)

text \<open>No pixel shows one colour in two byte orders, nor both colours in one.\<close>

lemma orders_apart:
  assumes "shows_colour w (channels p c)" "shows_colour w (channels q c)" "c = colour1 \<or> c = colour2"
  shows "p = q"
proof -
  have "\<forall>b < 4. channels p c ! b \<le> channels q c ! b + 2 \<and> channels q c ! b \<le> channels p c ! b + 2"
    using colours_far [OF assms(1,2)] colours_far [OF assms(2,1)] by blast
  then show ?thesis
    using assms(3) unfolding all_bytes
    by (cases p; cases q; elim disjE; simp add: colour1_def colour2_def)
qed

lemma colours_apart:
  assumes "shows_colour w (channels p colour1)" "shows_colour w (channels p colour2)"
  shows False
proof -
  have "\<forall>b < 4. channels p colour1 ! b \<le> channels p colour2 ! b + 2 \<and> channels p colour2 ! b \<le> channels p colour1 ! b + 2"
    using colours_far [OF assms(1,2)] colours_far [OF assms(2,1)] by blast
  then show ?thesis
    unfolding all_bytes by (cases p; simp add: colour1_def colour2_def)
qed

text \<open>A readback shows a colour when each of its first 64 words does; the search finds the byte order, which is unique.\<close>

definition readback_shows :: "u32 list \<Rightarrow> byte_order \<Rightarrow> nat list \<Rightarrow> bool" where
  "readback_shows px p c \<longleftrightarrow> (\<forall>i < 64. shows_colour (px ! i) (channels p c))"

lemma scan_shows:
  assumes "\<And>b. b < 4 \<Longrightarrow> pixel_byte b x = channels p c ! b" "64 \<le> length px"
  shows "scan_pattern x (take 64 px) \<longleftrightarrow> readback_shows px p c"
proof -
  have "set (take 64 px) = (!) px ` {0..<64}" using nth_image [OF assms(2)] by simp
  then show ?thesis using within_tol_shows [OF assms(1)] by (auto simp: scan_pattern_all readback_shows_def)
qed

lemma readback_unique:
  "readback_shows px p c \<Longrightarrow> readback_shows px q c \<Longrightarrow> c = colour1 \<or> c = colour2 \<Longrightarrow> p = q"
  using orders_apart [of "px ! 0" p c q] by (auto simp: readback_shows_def)

lemma match_pattern_iff:
  assumes "\<And>p b. b < 4 \<Longrightarrow> pixel_byte b (pack4 (channels p (map unorm_byte rgba))) = channels p c ! b"
    "64 \<le> length px" "c = colour1 \<or> c = colour2"
  shows "match_pattern (patterns_arr rgba) px = Some p \<longleftrightarrow> readback_shows px p c"
proof -
  have s: "scan_pattern (pack4 (channels q (map unorm_byte rgba))) (take 64 px) \<longleftrightarrow> readback_shows px q c" for q
    by (rule scan_shows [OF assms(1,2)])
  show ?thesis
    using readback_unique [OF _ _ assms(3), of px] by (cases p) (auto simp: patterns_arr_def s simp del: channels.simps)
qed

text \<open>C32. The verdict is right: the probe reports the path as verified with byte order \<open>p\<close> exactly when the first 64 pixels
  of the first readback show the first colour in that order, and those of the second readback the second colour, each
  channel up to one unit. The expected bytes are those of the floating-point constants sent, and no readback fits two
  orders, so the search order and the comparison of the first words make no difference.\<close>

theorem probe_verdict_pass:
  assumes "64 \<le> length px1" "64 \<le> length px2"
  shows "probe_verdict px1 px2 = Pass p \<longleftrightarrow> readback_shows px1 p colour1 \<and> readback_shows px2 p colour2"
proof -
  have m1: "match_pattern (patterns_arr clear1_rgba) px1 = Some q \<longleftrightarrow> readback_shows px1 q colour1" for q
    by (rule match_pattern_iff [OF pack_bytes(1) assms(1)]) simp_all
  have m2: "match_pattern (patterns_arr clear2_rgba) px2 = Some q \<longleftrightarrow> readback_shows px2 q colour2" for q
    by (rule match_pattern_iff [OF pack_bytes(2) assms(2)]) simp_all
  have "px2 ! 0 \<noteq> px1 ! 0" if "readback_shows px1 p colour1" "readback_shows px2 p colour2"
  proof
    assume eq: "px2 ! 0 = px1 ! 0"
    have "shows_colour (px1 ! 0) (channels p colour1)" "shows_colour (px2 ! 0) (channels p colour2)"
      using that by (simp_all add: readback_shows_def)
    then show False using colours_apart eq by simp
  qed
  then show ?thesis
    by (auto simp: probe_verdict_def Let_def m1 [symmetric] m2 [symmetric] split: option.splits if_splits)
qed

theorem probe_verdict_pass_witness:
  "probe_verdict (replicate 64 0xFF996633) (replicate 64 0xFF6632CC) = Pass RGBA"
proof -
  have "shows_colour 0xFF996633 (channels RGBA colour1)" "shows_colour 0xFF6632CC (channels RGBA colour2)"
    by (simp_all add: shows_colour_def all_bytes pixel_byte_def colour1_def colour2_def)
  then have "readback_shows (replicate 64 0xFF996633) RGBA colour1" "readback_shows (replicate 64 0xFF6632CC) RGBA colour2"
    by (simp_all add: readback_shows_def)
  with probe_verdict_pass [of "replicate 64 0xFF996633" "replicate 64 0xFF6632CC" RGBA] show ?thesis by simp
qed

section \<open>Memory the device leaves alone\<close>

text \<open>
  Fix a set \<open>A\<close> of addresses. The memory is \<open>clear_of A\<close> when no descriptor of the ring names an address of \<open>A\<close>;
  \<open>spares A e\<close> says of the environment that the device then neither writes there nor changes the descriptors to
  point there, and that no temporary command buffer is placed there. A queue is \<open>apart\<close> when its two buffers and its
  descriptors are elsewhere. Submissions keep this and leave the contents of \<open>A\<close> alone.
\<close>

definition clear_of :: "u64 set \<Rightarrow> vring_mem \<Rightarrow> bool" where
  "clear_of A m \<longleftrightarrow> (\<forall>i. vd_addr (desc_tab m i) \<notin> A)"

definition spares :: "u64 set \<Rightarrow> device_env \<Rightarrow> bool" where
  "spares A e \<longleftrightarrow>
     (\<forall>n m. clear_of A m \<longrightarrow> clear_of A (dev_step e Control n m) \<and> (\<forall>a \<in> A. dma (dev_step e Control n m) a = dma m a))
     \<and> (\<forall>n k p. temp_alloc e n k = Some p \<longrightarrow> p \<notin> A)"

definition buf_apart :: "u64 set \<Rightarrow> (u64 \<times> nat) option \<Rightarrow> bool" where
  "buf_apart A b \<longleftrightarrow> (\<forall>p c. b = Some (p, c) \<longrightarrow> p \<notin> A)"

definition apart :: "u64 set \<Rightarrow> transport \<Rightarrow> bool" where
  "apart A t \<longleftrightarrow> clear_of A (vq_mem (m_vq t)) \<and> buf_apart A (vq_cmd_buf (m_vq t)) \<and> buf_apart A (vq_resp_buf (m_vq t))"

definition view :: "u64 set \<Rightarrow> transport \<Rightarrow> u64 \<Rightarrow> bytes" where
  "view A t = (\<lambda>a. if a \<in> A then dma (vq_mem (m_vq t)) a else [])"

definition kept :: "u64 set \<Rightarrow> transport \<Rightarrow> transport \<Rightarrow> bool" where
  "kept A t t' \<longleftrightarrow> (apart A t \<longrightarrow> apart A t' \<and> view A t' = view A t)"

lemma kept_trans: "kept A t t1 \<Longrightarrow> kept A t1 t2 \<Longrightarrow> kept A t t2"
  by (simp add: kept_def)

lemma kept_same:
  assumes "vq_mem (m_vq t') = vq_mem (m_vq t)" "vq_cmd_buf (m_vq t') = vq_cmd_buf (m_vq t)" "vq_resp_buf (m_vq t') = vq_resp_buf (m_vq t)"
  shows "kept A t t'"
  unfolding kept_def apart_def view_def assms by simp

lemma kept_device_runs: "spares A e \<Longrightarrow> kept A t (device_runs e Control t)"
  by (auto simp: kept_def apart_def view_def device_runs_def spares_def fun_eq_iff)

lemma kept_poll: "spares A e \<Longrightarrow> poll_used e Control n t = (b, t') \<Longrightarrow> kept A t t'"
proof (induction n arbitrary: t)
  case 0
  then show ?case by (auto intro: kept_same)
next
  case (Suc n)
  then show ?case
    using kept_device_runs [OF Suc.prems(1), of t] by (auto simp: Let_def split: if_splits intro: kept_trans)
qed

lemma kept_simple [simp]:
  "kept A t (give_back Control c r t)" "kept A t (release_temp temp t)" "kept A t (t\<lparr>m_notify_count := k\<rparr>)"
  "kept A t (t\<lparr>m_submit_count := k\<rparr>)" "kept A t (t\<lparr>m_vq := vq_drain (m_vq t)\<rparr>)"
  "kept A t (t\<lparr>m_vq := (m_vq t)\<lparr>vq_last_used := l\<rparr>\<rparr>)" "kept A t (t\<lparr>tr_temp := j\<rparr>)" "kept A t t"
  by (rule kept_same; simp add: give_back_def push_pair_def push_free_def release_temp_def vq_drain_def)+

lemma kept_publish: "cp \<notin> A \<Longrightarrow> rp \<notin> A \<Longrightarrow> kept A t (publish Control c r cmd cp rp rl t)"
  by (auto simp: kept_def apart_def view_def clear_of_def publish_def push_avail_def fill_descs_def Let_def fun_eq_iff)

lemma kept_notify: "notify_device Control t = Some t' \<Longrightarrow> kept A t t'"
  by (rule kept_same) (auto simp: notify_device_def Let_def split: if_splits)

lemma kept_dma_write: "a \<notin> A \<Longrightarrow> kept A t (t\<lparr>m_vq := dma_write a bs (m_vq t)\<rparr>)"
  by (auto simp: kept_def apart_def view_def clear_of_def dma_write_def fun_eq_iff)

lemma kept_pair:
  "pop_pair (m_vq s) = Inl q \<Longrightarrow> kept A s (s\<lparr>m_vq := q\<rparr>)"
  "pop_pair (m_vq s) = Inr (x, y, q) \<Longrightarrow> kept A s (s\<lparr>m_vq := q\<rparr>)"
  by (rule kept_same; auto simp: pop_pair_def pop_free_def push_free_def Let_def split: if_splits option.splits)+

lemma kept_submit_publish:
  assumes "spares A e" "cp \<notin> A" "rp \<notin> A" "submit_publish e cmd resp c r temp cp rp t = (ret, resp', t')"
  shows "kept A t t'"
proof -
  define p where "p = publish Control c r cmd cp rp (min (resp_size resp) VIRTIO_GPU_RESP_BUF_SIZE) t"
  define t2 where "t2 = p\<lparr>m_notify_count := m_notify_count p + 1\<rparr>"
  have "kept A t p" unfolding p_def by (rule kept_publish [OF assms(2,3)])
  then have k2: "kept A t t2" unfolding t2_def by (rule kept_trans) simp
  have gb: "kept A t (give_back Control c r t4)" if "kept A t t4" for t4
    using kept_trans [OF that kept_simple(1)] .
  have fin: "kept A t (release_temp temp (give_back Control c r (t4\<lparr>m_vq := (m_vq t4)\<lparr>vq_last_used := l\<rparr>\<rparr>)))"
    if "kept A t t4" for t4 l
    using kept_trans [OF gb [OF kept_trans [OF that kept_simple(6)]] kept_simple(2)] .
  have pol: "kept A t t4" if "notify_device Control t2 = Some t3" "poll_used e Control 150 t3 = (b, t4)" for t3 b t4
    using kept_trans [OF kept_trans [OF k2 kept_notify [OF that(1)]] kept_poll [OF assms(1) that(2)]] .
  show ?thesis
    using assms(4) k2 pol gb fin
    by (auto simp: submit_publish_def submit_complete_def Let_def p_def [symmetric] t2_def [symmetric]
        split: option.splits prod.splits bool.splits)
qed

lemma kept_submit_phys:
  assumes "spares A e" "cp \<notin> A" "submit_phys e cmd resp c r temp cp t = (ret, resp', t')"
  shows "kept A t t'"
proof (cases "cp = 0 \<or> vq_resp_buf (m_vq t) = None")
  case True
  then show ?thesis
    using assms(3) by (auto simp: submit_phys_def split: if_splits intro: kept_trans [OF kept_simple(2) kept_simple(1)])
next
  case False
  then obtain rp rl where r: "vq_resp_buf (m_vq t) = Some (rp, rl)" by auto
  show ?thesis
  proof (cases "rp \<in> A")
    case True
    then have "\<not> apart A t" using r by (auto simp: apart_def buf_apart_def)
    then show ?thesis by (simp add: kept_def)
  next
    case False
    then show ?thesis
      using assms(3) \<open>\<not> (cp = 0 \<or> _)\<close> r kept_submit_publish [OF assms(1,2) False]
      by (auto simp: submit_phys_def split: if_splits)
  qed
qed

lemma kept_submit_stage:
  assumes "spares A e" "submit_stage e cmd resp c r t = (ret, resp', t')"
  shows "kept A t t'"
proof (cases "vq_cmd_buf (m_vq t)")
  case None
  then show ?thesis using assms(2) by (auto simp: submit_stage_def)
next
  case (Some b)
  obtain sp cap where b: "b = (sp, cap)" by fastforce
  have ph: "kept A s t'" if "submit_phys e cmd resp c r tmp a (s\<lparr>m_vq := dma_write a cmd (m_vq s)\<rparr>) = (ret, resp', t')" "a \<notin> A"
    for tmp a s by (rule kept_trans [OF kept_dma_write [OF that(2)] kept_submit_phys [OF assms(1) that(2,1)]])
  show ?thesis
  proof (cases "sp \<in> A")
    case True
    then have "\<not> apart A t" using Some b by (auto simp: apart_def buf_apart_def)
    then show ?thesis by (simp add: kept_def)
  next
    case False
    have tmp: "kept A t t'" if "kept A (t\<lparr>tr_temp := tr_temp t + 1\<rparr>) t'" using kept_trans [OF kept_simple(7) that] .
    show ?thesis
      using assms(2) Some b False ph [of False sp t] assms(1) tmp [OF ph]
      by (auto simp: submit_stage_def spares_def split: option.splits if_splits)
  qed
qed

lemma kept_submitCommand:
  assumes "spares A e" "submitCommand e cmd resp t = (ret, resp', t')"
  shows "kept A t t'"
proof -
  have locked: "kept A s t'" if "submit_locked e c resp s = (ret, resp', t')" for c s
  proof -
    let ?d = "device_runs e Control s"
    let ?s = "?d\<lparr>m_vq := vq_drain (m_vq ?d)\<rparr>"
    have "kept A s ?s" using kept_trans [OF kept_device_runs [OF assms(1)] kept_simple(5)] .
    moreover have "kept A ?s t'"
      using that kept_pair(1) [of ?s] kept_trans [OF kept_pair(2) [of ?s] kept_submit_stage [OF assms(1)]]
      by (auto simp: submit_locked_def Let_def split: sum.splits prod.splits)
    ultimately show ?thesis by (rule kept_trans)
  qed
  show ?thesis
    using assms(2) kept_trans [OF kept_simple(4) locked]
    by (auto simp: submitCommand_def split: option.splits if_splits)
qed

text \<open>The same for the operations of the driver that the probe uses.\<close>

definition gkept :: "u64 set \<Rightarrow> gpu \<Rightarrow> gpu \<Rightarrow> bool" where
  "gkept A g g' \<longleftrightarrow> kept A (g_tr g) (g_tr g')"

lemma gkept_same [simp]: "g_tr g' = g_tr g \<Longrightarrow> gkept A g g'"
  by (simp add: gkept_def)

lemma gkept_trans: "gkept A g g1 \<Longrightarrow> gkept A g1 g2 \<Longrightarrow> gkept A g g2"
  unfolding gkept_def by (rule kept_trans)

lemma gkept_send_hdr:
  assumes "spares A e" "send_hdr e c g = (ret, ty, g')"
  shows "gkept A g g'"
proof -
  obtain r resp t where s: "submitCommand e (Some c) (Some (zeros sizeof_hdr)) (g_tr g) = (r, resp, t)" by (rule prod_cases3)
  then have "g' = g\<lparr>g_tr := t\<rparr>" using assms(2) by (simp add: send_hdr_def send_def)
  then show ?thesis using kept_submitCommand [OF assms(1) s] by (simp add: gkept_def)
qed

lemma gkept_execute:
  assumes "spares A e" "executeCommands e ctx d g = (ret, g')"
  shows "gkept A g g'"
  using assms gkept_send_hdr [OF assms(1)] by (auto simp: executeCommands_def split: option.splits if_splits prod.splits)

lemma gkept_attach:
  assumes "spares A e" "attachBacking e rid d g = (ret, g')"
  shows "gkept A g g'"
  using assms gkept_send_hdr [OF assms(1)]
  by (fastforce simp: attachBacking_def Let_def gkept_def split: option.splits if_splits prod.splits)

lemma gkept_accepted: "spares A e \<Longrightarrow> accepted e c g = (ok, g') \<Longrightarrow> gkept A g g'"
  using gkept_send_hdr by (auto simp: accepted_def split: prod.splits)

lemma gkept_submit_words:
  assumes "spares A e" "submit_words e ws g = (ok, g')"
  shows "gkept A g g'"
  using assms gkept_execute [OF assms(1)]
  by (fastforce simp: submit_words_def gkept_def split: option.splits prod.splits)

lemma gkept_clear_and_read:
  assumes "spares A e" "clear_and_read e rgba g = (ok, g')"
  shows "gkept A g g'"
  using assms gkept_submit_words [OF assms(1)] gkept_accepted [OF assms(1)]
  by (auto simp: clear_and_read_def split: prod.splits if_splits) (blast intro: gkept_trans)

section \<open>A device that does not touch the readback buffer\<close>

definition bmd_addrs :: "memdesc \<Rightarrow> u64 set" where
  "bmd_addrs d = me_addr ` set (bmd_segs d)"

lemma bmd_bytes_view: "view (bmd_addrs d) (g_tr g') = view (bmd_addrs d) (g_tr g) \<Longrightarrow> bmd_bytes d g' = bmd_bytes d g"
proof -
  assume v: "view (bmd_addrs d) (g_tr g') = view (bmd_addrs d) (g_tr g)"
  have "dma (vq_mem (m_vq (g_tr g'))) (me_addr en) = dma (vq_mem (m_vq (g_tr g))) (me_addr en)" if "en \<in> set (bmd_segs d)" for en
    using v that by (auto simp: view_def bmd_addrs_def fun_eq_iff split: if_splits)
  then show ?thesis by (simp add: bmd_bytes_def cong: map_cong)
qed

lemma fold_fill_other: "a \<notin> me_addr ` set es \<Longrightarrow> fold (\<lambda>en m. m(me_addr en := f en)) es m a = m a"
  by (induction es arbitrary: m) auto

lemma fold_fill:
  "distinct (map me_addr es) \<Longrightarrow> en \<in> set es \<Longrightarrow> fold (\<lambda>en m. m(me_addr en := f en)) es m (me_addr en) = f en"
proof (induction es arbitrary: m)
  case (Cons x es)
  then show ?case using fold_fill_other [of "me_addr x" es f] by (auto simp del: fun_upd_apply) (simp add: fun_upd_same)
qed simp

lemma concat_replicates: "concat (map (\<lambda>en. replicate (unat (me_length en)) v) es) = replicate (entries_total es) v"
  by (induction es) (simp_all add: entries_total_def replicate_add)

lemma bmd_bytes_memset:
  assumes "distinct (map me_addr (bmd_segs d))"
  shows "bmd_bytes d (bmd_memset v d g) = replicate (entries_total (bmd_segs d)) v"
proof -
  note f = fold_fill [OF assms, where f = "\<lambda>en. replicate (unat (me_length en)) v"]
  show ?thesis
    by (simp add: bmd_bytes_def bmd_memset_def f concat_replicates cong: map_cong)
qed

lemma read_words_memset:
  assumes "bmd_bytes d g = replicate n v" "256 \<le> n"
  shows "read_words d g = replicate 64 (rd32 [v, v, v, v])"
proof -
  have "take 4 (drop (4 * i) (replicate n v)) = [v, v, v, v]" if "i < 64" for i
    using that assms(2) by (simp add: drop_replicate take_replicate numeral_eq_Suc)
  then show ?thesis
    by (auto simp: read_words_def assms(1) rd32_def intro!: nth_equalityI)
qed

text \<open>Neither fill pattern looks like a colour.\<close>

lemma fills_match_nothing:
  "match_pattern (patterns_arr clear1_rgba) (replicate 64 0) = None"
  "match_pattern (patterns_arr clear2_rgba) (replicate 64 0xCDCDCDCD) = None"
proof -
  have n: "\<not> shows_colour 0 (channels p colour1)" "\<not> shows_colour 0xCDCDCDCD (channels p colour2)" for p
    by (cases p; simp add: shows_colour_def all_bytes pixel_byte_def colour1_def colour2_def)+
  have "\<not> readback_shows (replicate 64 w) p c" if "\<not> shows_colour w (channels p c)" for w p c
    using that by (auto simp: readback_shows_def intro: exI [of _ 0])
  with n have "match_pattern (patterns_arr clear1_rgba) (replicate 64 0) \<noteq> Some p"
    "match_pattern (patterns_arr clear2_rgba) (replicate 64 0xCDCDCDCD) \<noteq> Some p" for p
    by (simp_all add: match_pattern_iff [OF pack_bytes(1)] match_pattern_iff [OF pack_bytes(2)])
  then show "match_pattern (patterns_arr clear1_rgba) (replicate 64 0) = None"
    "match_pattern (patterns_arr clear2_rgba) (replicate 64 0xCDCDCDCD) = None" by blast+
qed

lemma verdict_fills: "probe_verdict (replicate 64 0) (replicate 64 0xCDCDCDCD) = Fail_no_match"
  by (simp add: probe_verdict_def Let_def fills_match_nothing)

text \<open>What the probe asks of the readback buffers the allocator hands out.\<close>

definition buffer_ok :: "memdesc \<Rightarrow> bool" where
  "buffer_ok d \<longleftrightarrow> seg_contract d \<and> md_length d = 16384 \<and> distinct (map me_addr (bmd_segs d))"

lemma buffer_total: "buffer_ok d \<Longrightarrow> entries_total (bmd_segs d) = 16384"
  using seg_count_covers [of d 0 "Suc (md_length d)" 0 0] by (auto simp: buffer_ok_def bmd_segs_def)

lemma memset_read:
  assumes "buffer_ok d" "view (bmd_addrs d) (g_tr g') = view (bmd_addrs d) (g_tr (bmd_memset v d g))"
  shows "read_words d g' = replicate 64 (rd32 [v, v, v, v])"
proof (rule read_words_memset)
  show "bmd_bytes d g' = replicate 16384 v"
    using bmd_bytes_view [OF assms(2)] bmd_bytes_memset [of d v g] buffer_total [OF assms(1)] assms(1) by (simp add: buffer_ok_def)
qed simp

lemma apart_memset: "apart A (g_tr (bmd_memset v d g)) = apart A (g_tr g)"
  by (simp add: apart_def bmd_memset_def clear_of_def)

lemma apart_kept: "gkept A g g' \<Longrightarrow> apart A (g_tr g) \<Longrightarrow> apart A (g_tr g')"
  by (simp add: gkept_def kept_def)

lemma readback_untouched:
  assumes "spares (bmd_addrs d) e" "apart (bmd_addrs d) (g_tr g)" "buffer_ok d"
    "view (bmd_addrs d) (g_tr g) = view (bmd_addrs d) (g_tr (bmd_memset 0 d g0))"
  shows "fst (probe3d_readback e d g) \<in> {Fail_G, Fail_no_match}"
proof -
  obtain ok1 g1 where c1: "clear_and_read e clear1_rgba g = (ok1, g1)" by fastforce
  obtain ok2 g2 where c2: "clear_and_read e clear2_rgba (bmd_memset 0xCD d g1) = (ok2, g2)" by fastforce
  note k1 = gkept_clear_and_read [OF assms(1) c1] and k2 = gkept_clear_and_read [OF assms(1) c2]
  have v1: "view (bmd_addrs d) (g_tr g1) = view (bmd_addrs d) (g_tr (bmd_memset 0 d g0))"
    using k1 assms(2,4) by (simp add: gkept_def kept_def)
  have "apart (bmd_addrs d) (g_tr (bmd_memset 0xCD d g1))"
    using apart_kept [OF k1 assms(2)] by (simp add: apart_memset)
  then have v2: "view (bmd_addrs d) (g_tr g2) = view (bmd_addrs d) (g_tr (bmd_memset 0xCD d g1))"
    using k2 by (simp add: gkept_def kept_def)
  have "rd32 [0, 0, 0, 0] = 0" "rd32 [0xCD, 0xCD, 0xCD, 0xCD] = 0xCDCDCDCD" by (simp_all add: rd32_def)
  then show ?thesis
    using memset_read [OF assms(3) v1] memset_read [OF assms(3) v2] c1 c2 verdict_fills
    by (simp add: probe3d_readback_def Let_def)
qed

text \<open>C33. The probe cannot be fooled by acknowledgements: whatever the device answers to any command, if it never writes
  into the readback buffer then the probe does not report the 3D path as working, not even partially.\<close>

theorem probe_needs_pixels:
  assumes "\<And>n d. bmd_alloc e n 16384 = Some d \<Longrightarrow>
      buffer_ok d \<and> spares (bmd_addrs d) e \<and> apart (bmd_addrs d) (g_tr g)"
  shows "fst (probeTransport3D e g) \<in> {Fail_A, Fail_B, Fail_C, Fail_D, Fail_F, Fail_G, Fail_no_match}"
proof -
  have backing: "fst (probe3d_backing e g2) \<in> {Fail_D, Fail_F, Fail_G, Fail_no_match}"
    if "\<And>A. spares A e \<Longrightarrow> gkept A g g2" for g2
  proof (cases "bmd_alloc e (tr_tick (g_tr g2)) 16384")
    case None
    then show ?thesis by (simp add: probe3d_backing_def)
  next
    case (Some d)
    let ?A = "bmd_addrs d" and ?m = "bmd_memset 0 d (md_retain d g2)"
    have d: "buffer_ok d" "spares ?A e" "apart ?A (g_tr g)" using assms [OF Some] by auto
    have m: "apart ?A (g_tr ?m)" using apart_kept [OF that [OF d(2)] d(3)] by (simp add: apart_memset)
    obtain ret g3 where a: "attachBacking e PROBE3D_RES (Some d) ?m = (ret, g3)" by fastforce
    obtain ok g4 where c: "accepted e (ctx_cmd VIRTIO_GPU_CMD_CTX_ATTACH_RESOURCE (Ctx_resource PROBE3D_RES) g3) g3 = (ok, g4)"
      by fastforce
    obtain ok' g5 where s: "submit_words e surface_words g4 = (ok', g5)" by fastforce
    have k: "gkept ?A ?m g5"
      using gkept_attach [OF d(2) a] gkept_accepted [OF d(2) c] gkept_submit_words [OF d(2) s] by (blast intro: gkept_trans)
    then have v: "view ?A (g_tr g5) = view ?A (g_tr ?m)" using m by (simp add: gkept_def kept_def)
    have "fst (probe3d_readback e d g5) \<in> {Fail_G, Fail_no_match}"
      by (rule readback_untouched [OF d(2) apart_kept [OF k m] d(1) v])
    then show ?thesis
      using Some a c s by (auto simp: probe3d_backing_def probe3d_render_def Let_def split: prod.splits)
  qed
  obtain b g1 where b: "accepted e (ctx_cmd VIRTIO_GPU_CMD_CTX_CREATE (Ctx_create 0 0 (zeros 64)) g) g = (b, g1)" by fastforce
  obtain c g2 where c: "accepted e probe3d_create g1 = (c, g2)" by fastforce
  have "gkept A g g2" if "spares A e" for A
    using gkept_accepted [OF that b] gkept_accepted [OF that c] by (rule gkept_trans)
  from backing [OF this] show ?thesis
    using b c by (auto simp: probeTransport3D_def)
qed

lemma probe_sample_segs:
  "map me_addr (bmd_segs (sample_desc n 16384)) = [0x40000000, 0x40001000, 0x40002000, 0x40003000]"
proof -
  let ?d = "sample_desc n 16384"
  have s: "md_seg ?d 0 = (0x40000000, 4096)" "md_seg ?d 4096 = (0x40001000, 4096)" "md_seg ?d 8192 = (0x40002000, 4096)"
    "md_seg ?d 12288 = (0x40003000, 4096)" "md_seg ?d 16384 = (0, 0)" by (simp_all add: sample_desc_def)
  have "\<exists>f. Suc (md_length ?d) = Suc (Suc (Suc (Suc (Suc f))))" by (rule exI [of _ 16380]) (simp add: sample_desc_def)
  then obtain f where f: "Suc (md_length ?d) = Suc (Suc (Suc (Suc (Suc f))))" by blast
  have "seg_count (Suc (md_length ?d)) ?d 0 0 0 = Some (4, 16384)"
    unfolding f by (simp add: s)
  moreover have "4 = Suc (Suc (Suc (Suc 0)))" by simp
  ultimately have "bmd_segs ?d = seg_entries ?d 0 (Suc (Suc (Suc (Suc 0))))"
    by (simp only: bmd_segs_def option.case prod.case)
  then show ?thesis by (simp add: s)
qed

lemma sample_buffer: "buffer_ok (sample_desc n 16384)"
  using sample_contract [of 16384 n] by (simp add: buffer_ok_def probe_sample_segs) (simp add: sample_desc_def)

lemma serve_spares:
  assumes "clear_of A m"
  shows "clear_of A (serve f sz m) \<and> (\<forall>a \<in> A. dma (serve f sz m) a = dma m a)"
  using assms by (auto simp: clear_of_def serve_def chain_resp_def Let_def split: option.splits if_splits)

lemma sample_spares: "spares A sample_env"
  using serve_spares by (simp add: spares_def sample_env_def)

lemma sample_apart: "apart (bmd_addrs (sample_desc n 16384)) (g_tr sample_gpu)"
proof -
  have "bmd_addrs (sample_desc n 16384) = {0x40000000, 0x40001000, 0x40002000, 0x40003000}"
    using arg_cong [OF probe_sample_segs [of n], of set] by (simp add: bmd_addrs_def)
  then show ?thesis
    by (simp add: apart_def clear_of_def buf_apart_def sample_gpu_def sample_transport_def sample_queue_def zero_desc_def)
qed

theorem probe_needs_pixels_witness:
  "fst (probeTransport3D sample_env sample_gpu) \<in> {Fail_A, Fail_B, Fail_C, Fail_D, Fail_F, Fail_G, Fail_no_match}"
proof (rule probe_needs_pixels)
  fix n d
  assume "bmd_alloc sample_env n 16384 = Some d"
  then have "d = sample_desc n 16384" by (simp add: sample_env_def)
  then show "buffer_ok d \<and> spares (bmd_addrs d) sample_env \<and> apart (bmd_addrs d) (g_tr sample_gpu)"
    using sample_buffer sample_spares sample_apart by simp
qed

section \<open>The probe leaves no trace\<close>

definition tr_only :: "gpu \<Rightarrow> gpu \<Rightarrow> bool" where
  "tr_only g g' \<longleftrightarrow> g' = g\<lparr>g_tr := g_tr g'\<rparr>"

lemma tr_only_refl [simp]: "tr_only g g"
  by (simp add: tr_only_def)

lemma tr_only_trans: "tr_only g g1 \<Longrightarrow> tr_only g1 g2 \<Longrightarrow> tr_only g g2"
  unfolding tr_only_def by (metis gpu.update_convs(1) gpu.surjective gpu.select_convs(1))

lemma tr_only_pool: "tr_only g g' \<Longrightarrow> m_resource_pool g' = m_resource_pool g"
  unfolding tr_only_def by (metis gpu.select_convs(10) gpu.update_convs(1) gpu.surjective)

lemma tr_only_send_hdr: "send_hdr e c g = (ret, ty, g') \<Longrightarrow> tr_only g g'"
  unfolding tr_only_def by (rule send_hdr_frame)

lemma tr_only_refs: "tr_only (md_retain d g) g1 \<Longrightarrow> tr_only g (md_release d g1)"
proof -
  assume "tr_only (md_retain d g) g1"
  then obtain t where "g1 = (md_retain d g)\<lparr>g_tr := t\<rparr>" unfolding tr_only_def by blast
  then show ?thesis by (simp add: tr_only_def md_retain_def md_release_def)
qed

lemma tr_only_wired: "tr_only (md_do_prepare d g) g1 \<Longrightarrow> tr_only g (md_complete d g1)"
proof -
  assume "tr_only (md_do_prepare d g) g1"
  then obtain t where "g1 = (md_do_prepare d g)\<lparr>g_tr := t\<rparr>" unfolding tr_only_def by blast
  then show ?thesis by (simp add: tr_only_def md_do_prepare_def md_complete_def)
qed

lemma tr_only_memset [simp]: "tr_only g (bmd_memset v d g)"
  by (simp add: tr_only_def bmd_memset_def)

lemma tr_only_accepted: "accepted e c g = (ok, g') \<Longrightarrow> tr_only g g'"
  using tr_only_send_hdr by (auto simp: accepted_def split: prod.splits)

lemma tr_only_execute: "executeCommands e ctx d g = (ret, g') \<Longrightarrow> tr_only g g'"
  using tr_only_send_hdr by (auto simp: executeCommands_def split: option.splits if_splits prod.splits)

lemma tr_only_submit_words: "submit_words e ws g = (ok, g') \<Longrightarrow> tr_only g g'"
  using tr_only_execute tr_only_refs by (fastforce simp: submit_words_def split: option.splits prod.splits)

lemma tr_only_attach:
  assumes "attachBacking e rid (Some d) g = (ret, g')" "seg_contract d"
  shows "tr_only g g'"
  using assms(1) seg_terminates [OF assms(2)] tr_only_send_hdr tr_only_wired [of d g]
  by (fastforce simp: attachBacking_def Let_def split: option.splits if_splits prod.splits)

lemma tr_only_clear_and_read: "clear_and_read e rgba g = (ok, g') \<Longrightarrow> tr_only g g'"
  using tr_only_submit_words tr_only_accepted
  by (fastforce simp: clear_and_read_def split: prod.splits if_splits intro: tr_only_trans)

lemma tr_only_readback: "probe3d_readback e d g = (v, g') \<Longrightarrow> tr_only g g'"
proof -
  assume r: "probe3d_readback e d g = (v, g')"
  obtain ok1 g1 where c1: "clear_and_read e clear1_rgba g = (ok1, g1)" by fastforce
  obtain ok2 g2 where c2: "clear_and_read e clear2_rgba (bmd_memset 0xCD d g1) = (ok2, g2)" by fastforce
  have "tr_only g1 g2" by (rule tr_only_trans [OF tr_only_memset tr_only_clear_and_read [OF c2]])
  then show ?thesis
    using r c1 c2 tr_only_clear_and_read [OF c1] tr_only_trans [of g g1 g2]
    by (auto simp: probe3d_readback_def Let_def split: if_splits)
qed

lemma tr_only_dealloc:
  assumes "findResource g rid = None" "rid \<noteq> 0" "deallocateResource e rid g = (ret, g')"
  shows "tr_only g g'"
proof -
  obtain r ty g1 where s: "send_hdr e (unref_command rid) g = (r, ty, g1)" by (rule prod_cases3)
  have "slot_index resource_id rid (m_resource_pool g1) = None"
    using assms(1,2) send_hdr_keeps(1) [OF s] by (simp add: findResource_def find_slot_nonzero slot_find_None slot_index_None)
  then have "g' = g1" using assms(3) s by (simp add: deallocateResource_def pool_tombstone_def split: if_splits)
  then show ?thesis using tr_only_send_hdr [OF s] by simp
qed

lemma tr_only_destroy: "tr_only g (snd (destroy3DContext e cid g))"
  using tr_only_send_hdr
  by (auto simp: destroy3DContext_def initializeCommandHeader_def Let_def split: prod.splits)

lemma tr_only_cleanup:
  assumes "findResource g PROBE3D_RES = None"
  shows "tr_only g (probe3d_cleanup e b c er f None g)"
    "tr_only (md_retain d g0) g \<Longrightarrow> tr_only g0 (probe3d_cleanup e b c er f (Some d) g)"
proof -
  define g1 where "g1 = cleanup_surface e f g"
  define g2 where "g2 = cleanup_detach e er g1"
  define g3 where "g3 = (if c then snd (deallocateResource e PROBE3D_RES g2) else g2)"
  define g4 where "g4 = (if b then snd (destroy3DContext e PROBE3D_CTX g3) else g3)"
  have "tr_only g g1"
    using tr_only_submit_words [OF prod.collapse [symmetric]] by (simp add: g1_def cleanup_surface_def)
  moreover have "tr_only g1 g2"
    using tr_only_accepted [OF prod.collapse [symmetric]] by (simp add: g2_def cleanup_detach_def)
  ultimately have t2: "tr_only g g2" by (rule tr_only_trans)
  then have "findResource g2 PROBE3D_RES = None" using assms tr_only_pool [OF t2] by (simp add: findResource_def)
  then have "tr_only g2 g3"
    using tr_only_dealloc [OF _ _ prod.collapse [symmetric]] by (simp add: g3_def)
  moreover have "tr_only g3 g4" using tr_only_destroy by (simp add: g4_def)
  ultimately have t4: "tr_only g g4" using t2 by (blast intro: tr_only_trans)
  have eq: "probe3d_cleanup e b c er f r g = (case r of None \<Rightarrow> g4 | Some d \<Rightarrow> md_release d g4)" for r
    unfolding probe3d_cleanup_def Let_def g1_def g2_def g3_def g4_def by (rule refl)
  show "tr_only g (probe3d_cleanup e b c er f None g)" using t4 by (simp add: eq)
  show "tr_only g0 (probe3d_cleanup e b c er f (Some d) g)" if "tr_only (md_retain d g0) g"
    using tr_only_refs [OF tr_only_trans [OF that t4]] by (simp add: eq)
qed

text \<open>C34. The probe cleans up after itself: whatever the device answers and whichever phase fails, when it returns the
  driver is as it was but for the traffic on the queue. No reference to the readback buffer or to a command buffer is
  left, no page stays wired, and the resource table, the contexts and the id counters are unchanged.\<close>

theorem probe_leaves_no_trace:
  assumes "findResource g PROBE3D_RES = None" "\<And>n d. bmd_alloc e n 16384 = Some d \<Longrightarrow> seg_contract d"
  shows "snd (probeTransport3D e g) = g\<lparr>g_tr := g_tr (snd (probeTransport3D e g))\<rparr>"
proof -
  have res: "findResource g' PROBE3D_RES = None" if "tr_only g g'" for g'
    using assms(1) tr_only_pool [OF that] by (simp add: findResource_def)
  have retained: "findResource g' PROBE3D_RES = None" if "tr_only (md_retain d g1) g'" "tr_only g g1" for g' g1 d
    using res [OF that(2)] tr_only_pool [OF that(1)] by (simp add: findResource_def)
  have backing: "tr_only g2 (snd (probe3d_backing e g2))" if t2: "tr_only g g2" for g2
  proof (cases "bmd_alloc e (tr_tick (g_tr g2)) 16384")
    case None
    then show ?thesis using tr_only_cleanup(1) [OF res [OF t2]] by (simp add: probe3d_backing_def)
  next
    case (Some d)
    obtain ret g3 where a: "attachBacking e PROBE3D_RES (Some d) (bmd_memset 0 d (md_retain d g2)) = (ret, g3)" by fastforce
    obtain ok g4 where c: "accepted e (ctx_cmd VIRTIO_GPU_CMD_CTX_ATTACH_RESOURCE (Ctx_resource PROBE3D_RES) g3) g3 = (ok, g4)" by fastforce
    obtain ok' g5 where s: "submit_words e surface_words g4 = (ok', g5)" by fastforce
    obtain v g6 where r: "probe3d_readback e d g5 = (v, g6)" by fastforce
    have k3: "tr_only (md_retain d g2) g3" by (rule tr_only_trans [OF tr_only_memset tr_only_attach [OF a assms(2) [OF Some]]])
    have k5: "tr_only (md_retain d g2) g5"
      by (rule tr_only_trans [OF k3 tr_only_trans [OF tr_only_accepted [OF c] tr_only_submit_words [OF s]]])
    have k6: "tr_only (md_retain d g2) g6" by (rule tr_only_trans [OF k5 tr_only_readback [OF r]])
    note fin = tr_only_cleanup(2) [OF retained [OF _ t2]]
    show ?thesis
      using Some a c s r fin [OF k3 k3] fin [OF k5 k5] fin [OF k6 k6]
      by (auto simp: probe3d_backing_def probe3d_render_def Let_def)
  qed
  obtain b g1 where b: "accepted e (ctx_cmd VIRTIO_GPU_CMD_CTX_CREATE (Ctx_create 0 0 (zeros 64)) g) g = (b, g1)" by fastforce
  obtain c g2 where c: "accepted e probe3d_create g1 = (c, g2)" by fastforce
  have k1: "tr_only g g1" by (rule tr_only_accepted [OF b])
  have k2: "tr_only g g2" by (rule tr_only_trans [OF k1 tr_only_accepted [OF c]])
  have "tr_only g (snd (probeTransport3D e g))"
    using b c tr_only_trans [OF k1 tr_only_cleanup(1) [OF res [OF k1]]] tr_only_trans [OF k2 tr_only_cleanup(1) [OF res [OF k2]]]
      tr_only_trans [OF k2 backing [OF k2]]
    by (auto simp: probeTransport3D_def)
  then show ?thesis unfolding tr_only_def .
qed

theorem probe_leaves_no_trace_witness:
  "g_refs (snd (probeTransport3D sample_env sample_gpu)) = g_refs sample_gpu
   \<and> m_resource_pool (snd (probeTransport3D sample_env sample_gpu)) = m_resource_pool sample_gpu"
proof -
  have "findResource sample_gpu PROBE3D_RES = None"
    by (simp add: findResource_def find_slot_nonzero slot_find_None sample_gpu_def gpu_init_def free_slot_def)
  moreover have "seg_contract d" if "bmd_alloc sample_env n 16384 = Some d" for n d
    using that sample_contract [of 16384] by (auto simp: sample_env_def)
  ultimately have "snd (probeTransport3D sample_env sample_gpu)
      = sample_gpu\<lparr>g_tr := g_tr (snd (probeTransport3D sample_env sample_gpu))\<rparr>"
    by (rule probe_leaves_no_trace)
  then show ?thesis by (metis gpu.select_convs gpu.update_convs(1) gpu.surjective)
qed

end
