(* ===== verification/Framebuffer.thy ===== *)
theory Framebuffer
  imports Virgl_Probe
begin

text \<open>
  The framebuffer service of the virtio device (\<^verbatim>\<open>VMVirtIOFramebuffer.cpp\<close>): the one buffer allocated at start, the
  list of modes that fit it, the host resource behind the screen and its recreation on a mode change, the
  throttled refresh, and the interrupt references.
\<close>

section \<open>State\<close>

text \<open>
  \<open>fb_gpu\<close> is the driver object \<^verbatim>\<open>m_gpu_driver\<close> points to when \<open>fb_has_gpu\<close> holds; its member \<open>fb_taken_by_3d\<close> is the
  framebuffer's \<^verbatim>\<open>m_scanout_taken_over_by_3d\<close>. \<open>fb_dev_mem\<close>: physical address and length of the aperture. \<open>fb_armed\<close>: how
  often the timer was armed. The last six fields are the function-local statics of \<^verbatim>\<open>enableController\<close>.
\<close>

record fb =
  fb_gpu :: gpu
  fb_has_gpu :: bool
  fb_backing :: "memdesc option"
  fb_dev_mem :: "(u64 \<times> nat) option"
  fb_resource_id :: u32
  fb_alloc_width :: u32
  fb_alloc_height :: u32
  fb_width :: u32
  fb_height :: u32
  fb_depth :: u32
  fb_display_modes :: "int list"
  fb_mode_count :: nat
  fb_current_mode :: int
  fb_timer :: bool
  fb_armed :: nat
  fb_scanout_resource_id :: u32
  fb_tick_count :: u32
  fb_already_enabled :: bool
  fb_call_count :: nat
  fb_tracking_probed :: bool
  fb_recreate_probed :: bool
  fb_cursor_probed :: bool
  fb_transport3d_probed :: bool

record fb_mode =
  fm_id :: int
  fm_width :: u32
  fm_height :: u32
  fm_default :: bool

definition fb_mode_entry :: "int \<Rightarrow> u32 \<Rightarrow> u32 \<Rightarrow> bool \<Rightarrow> fb_mode" where
  "fb_mode_entry i w h d = \<lparr>fm_id = i, fm_width = w, fm_height = h, fm_default = d\<rparr>"

definition kSupportedModes :: "fb_mode list" where
  "kSupportedModes = [fb_mode_entry 1 1024 768 False, fb_mode_entry 2 1280 1024 False, fb_mode_entry 3 1440 900 False,
     fb_mode_entry 4 1680 1050 False, fb_mode_entry 5 1920 1080 True, fb_mode_entry 6 2560 1440 False,
     fb_mode_entry 7 3840 2160 False]"

definition fb_init :: "fb \<Rightarrow> fb" where
  "fb_init s = s\<lparr>fb_has_gpu := False, fb_backing := None, fb_dev_mem := None, fb_resource_id := 0,
     fb_alloc_width := 0, fb_alloc_height := 0, fb_scanout_resource_id := 1,
     fb_gpu := (fb_gpu s)\<lparr>fb_taken_by_3d := False\<rparr>, fb_tick_count := 0, fb_width := 1024, fb_height := 768,
     fb_depth := 32, fb_mode_count := 0, fb_current_mode := 0, fb_timer := False\<rparr>"

section \<open>The buffer\<close>

text \<open>
  The ladder of sizes. A size is taken when the allocation succeeds, can be prepared, is described by a device
  range (\<open>range_ok\<close>), has the requested length and is one physical segment. \<open>None\<close>: the walk over the segments does
  not end.
\<close>

definition ceilings :: "(u32 \<times> u32) list" where
  "ceilings = [(4096, 2160), (2560, 1600), (1920, 1200), (1600, 1200), (1280, 1024), (1024, 768)]"

definition on_gpu :: "(gpu \<Rightarrow> gpu) \<Rightarrow> fb \<Rightarrow> fb" where
  "on_gpu f s = s\<lparr>fb_gpu := f (fb_gpu s)\<rparr>"

fun alloc_ladder :: "device_env \<Rightarrow> (u64 \<Rightarrow> nat \<Rightarrow> bool) \<Rightarrow> (u32 \<times> u32) list \<Rightarrow> fb \<Rightarrow> fb option" where
  "alloc_ladder e range_ok [] s = Some s"
| "alloc_ladder e range_ok ((w, h) # cs) s =
     (let try_size = unat (ucast w * ucast h * 4 :: u64)
      in case bmd_alloc e (tr_tick (g_tr (fb_gpu s))) try_size of
           None \<Rightarrow> alloc_ladder e range_ok cs s
         | Some d \<Rightarrow>
             let s1 = on_gpu (md_retain d) s
             in if md_prepare d \<noteq> kIOReturnSuccess then alloc_ladder e range_ok cs (on_gpu (md_release d) s1)
                else let s2 = on_gpu (md_do_prepare d) s1;
                         phys = fst (md_seg d 0);
                         drop = on_gpu (md_release d) (on_gpu (md_complete d) s2)
                     in if \<not> range_ok phys try_size then alloc_ladder e range_ok cs drop
                        else if md_length d \<noteq> try_size then alloc_ladder e range_ok cs drop
                        else (case seg_count (Suc (md_length d)) d 0 0 0 of
                                None \<Rightarrow> None
                              | Some (nr_segs, _) \<Rightarrow>
                                  if nr_segs \<noteq> 1 then alloc_ladder e range_ok cs drop
                                  else Some (s2\<lparr>fb_backing := Some d, fb_dev_mem := Some (phys, try_size),
                                                fb_alloc_width := w, fb_alloc_height := h\<rparr>)))"

section \<open>The mode list\<close>

fun filter_loop :: "u64 \<Rightarrow> fb_mode list \<Rightarrow> int \<Rightarrow> int \<Rightarrow> u64 \<Rightarrow> fb \<Rightarrow> int \<times> int \<times> fb" where
  "filter_loop alloc_bytes [] default_mode largest_fitting largest_pixels s = (default_mode, largest_fitting, s)"
| "filter_loop alloc_bytes (m # ms) default_mode largest_fitting largest_pixels s =
     (let mode_bytes = ucast (fm_width m) * ucast (fm_height m) * 4
      in if mode_bytes > alloc_bytes then filter_loop alloc_bytes ms default_mode largest_fitting largest_pixels s
         else if fb_mode_count s \<ge> 8 then (default_mode, largest_fitting, s)
         else let s1 = s\<lparr>fb_display_modes := (fb_display_modes s)[fb_mode_count s := fm_id m],
                          fb_mode_count := fb_mode_count s + 1\<rparr>;
                  pixels = ucast (fm_width m) * ucast (fm_height m);
                  (lp, lf) = (if pixels > largest_pixels then (pixels, fm_id m) else (largest_pixels, largest_fitting))
              in filter_loop alloc_bytes ms (if fm_default m then fm_id m else default_mode) lf lp s1)"

definition filterModesByAllocation :: "fb \<Rightarrow> fb" where
  "filterModesByAllocation s =
     (let s1 = s\<lparr>fb_mode_count := 0, fb_current_mode := 0\<rparr>
      in case fb_backing s of
           None \<Rightarrow> s1
         | Some d \<Rightarrow>
             (case filter_loop (word_of_nat (md_length d)) kSupportedModes 0 0 0 s1 of
                (default_mode, largest_fitting, s2) \<Rightarrow>
                  s2\<lparr>fb_current_mode := (if default_mode \<noteq> 0 then default_mode else largest_fitting)\<rparr>))"

text \<open>The part of \<^verbatim>\<open>start\<close> that decides the display's memory and modes.\<close>

definition fb_start :: "device_env \<Rightarrow> (u64 \<Rightarrow> nat \<Rightarrow> bool) \<Rightarrow> fb \<Rightarrow> fb option" where
  "fb_start e range_ok s =
     map_option filterModesByAllocation (alloc_ladder e range_ok ceilings (s\<lparr>fb_mode_count := 0, fb_current_mode := 0\<rparr>))"

definition fb_getDisplayModes :: "fb \<Rightarrow> int list" where
  "fb_getDisplayModes s = take (fb_mode_count s) (fb_display_modes s)"

record fb_mode_info =
  fi_flags :: u32
  fi_width :: u32
  fi_height :: u32

definition fb_getInformation :: "int \<Rightarrow> io_return \<times> fb_mode_info option" where
  "fb_getInformation displayMode =
     (case find (\<lambda>m. fm_id m = displayMode) kSupportedModes of
        None \<Rightarrow> (kIOReturnUnsupported, None)
      | Some m \<Rightarrow> (kIOReturnSuccess, Some \<lparr>fi_flags = (if fm_default m then 7 else 3),
                     fi_width = fm_width m, fi_height = fm_height m\<rparr>))"

text \<open>Row and plane sizes reported for a mode.\<close>

definition fb_getPixelInformation :: "int \<Rightarrow> io_return \<times> (u32 \<times> u32) option" where
  "fb_getPixelInformation displayMode =
     (case fb_getInformation displayMode of
        (r, None) \<Rightarrow> (r, None)
      | (_, Some i) \<Rightarrow> (kIOReturnSuccess, Some (fi_width i * 4, fi_width i * 4 * fi_height i)))"

definition fb_pixel_clock :: "fb_mode_info \<Rightarrow> u64" where
  "fb_pixel_clock i = ucast (fi_width i * fi_height i * 60) div 1000000"

definition fb_getApertureRange :: "u32 \<Rightarrow> fb \<Rightarrow> (u64 \<times> nat) option" where
  "fb_getApertureRange aperture s = (if aperture \<noteq> 0 then None else fb_dev_mem s)"


section \<open>The screen's resource\<close>

definition teardownFramebufferResource :: "device_env \<Rightarrow> fb \<Rightarrow> fb" where
  "teardownFramebufferResource e s =
     (if fb_resource_id s \<noteq> 0 \<and> fb_has_gpu s
      then (on_gpu (\<lambda>g. snd (deallocateResource e (fb_resource_id s) g)) s)\<lparr>fb_resource_id := 0\<rparr>
      else s)"

definition setupFramebufferResource :: "device_env \<Rightarrow> u32 \<Rightarrow> u32 \<Rightarrow> fb \<Rightarrow> io_return \<times> fb" where
  "setupFramebufferResource e w h s =
     (if \<not> fb_has_gpu s then (kIOReturnNotReady, s)
      else if w = 0 \<or> h = 0 \<or> w > 8192 \<or> h > 8192 then (kIOReturnBadArgument, s)
      else case (fb_backing s, fb_dev_mem s) of
        (Some d, Some _) \<Rightarrow>
          if fb_resource_id s \<noteq> 0 \<and> fb_width s = w \<and> fb_height s = h then (kIOReturnSuccess, s)
          else if md_length d < unat (ucast w * ucast h * 4 :: u64) then (kIOReturnNoSpace, s)
          else let s1 = (teardownFramebufferResource e s)\<lparr>fb_resource_id := 1\<rparr>
               in case createResource2D e 1 1 w h (Some d) (fb_gpu s1) of (create_ret, g) \<Rightarrow>
                    let s2 = s1\<lparr>fb_gpu := g\<rparr>
                    in if create_ret \<noteq> kIOReturnSuccess then (create_ret, teardownFramebufferResource e s2)
                       else case setscanout e 0 1 0 0 w h (fb_gpu s2) of (scanout_ret, g') \<Rightarrow>
                         let s3 = s2\<lparr>fb_gpu := g'\<rparr>
                         in if scanout_ret \<noteq> kIOReturnSuccess then (scanout_ret, teardownFramebufferResource e s3)
                            else (kIOReturnSuccess, s3\<lparr>fb_width := w, fb_height := h\<rparr>)
      | _ \<Rightarrow> (kIOReturnNotReady, s))"



section \<open>Refreshing\<close>

definition full_refresh :: "device_env \<Rightarrow> fb \<Rightarrow> fb" where
  "full_refresh e s =
     (case transferToHost2D e (fb_scanout_resource_id s) 0 0 0 (fb_width s) (fb_height s) (fb_gpu s) of (r, g) \<Rightarrow>
        let s1 = s\<lparr>fb_gpu := g\<rparr>
        in if r \<noteq> kIOReturnSuccess then s1
           else s1\<lparr>fb_gpu := snd (flushResource e (fb_scanout_resource_id s) 0 0 (fb_width s) (fb_height s) g)\<rparr>)"

abbreviation (input) FULL_REFRESH_INTERVAL :: u32 where "FULL_REFRESH_INTERVAL \<equiv> 4"

definition refreshDisplay :: "device_env \<Rightarrow> fb \<Rightarrow> fb" where
  "refreshDisplay e s =
     (if \<not> fb_has_gpu s then s
      else if fb_scanout_resource_id s = 0 then s
      else if fb_taken_by_3d (fb_gpu s) then s
      else let s1 = s\<lparr>fb_tick_count := fb_tick_count s + 1\<rparr>
           in if fb_tick_count s1 < FULL_REFRESH_INTERVAL then s1
              else full_refresh e (s1\<lparr>fb_tick_count := 0\<rparr>))"



section \<open>Mode changes and life cycle\<close>

definition fb_setDisplayMode :: "device_env \<Rightarrow> int \<Rightarrow> fb \<Rightarrow> io_return \<times> fb" where
  "fb_setDisplayMode e displayMode s =
     (if displayMode \<notin> set (fb_getDisplayModes s) then (kIOReturnUnsupported, s)
      else let s1 = s\<lparr>fb_current_mode := displayMode\<rparr>
           in case fb_getInformation displayMode of
                (_, None) \<Rightarrow> (kIOReturnSuccess, s1)
              | (_, Some i) \<Rightarrow>
                  (case (if fi_width i \<noteq> fb_width s1 \<or> fi_height i \<noteq> fb_height s1 \<or> fb_resource_id s1 = 0
                         then setupFramebufferResource e (fi_width i) (fi_height i) s1
                         else (kIOReturnSuccess, s1)) of (setup_ret, s2) \<Rightarrow>
                     if setup_ret \<noteq> kIOReturnSuccess then (setup_ret, s2)
                     else (kIOReturnSuccess, refreshDisplay e (s2\<lparr>fb_depth := 32\<rparr>))))"






definition fb_free :: "device_env \<Rightarrow> fb \<Rightarrow> fb" where
  "fb_free e s =
     (let s1 = (teardownFramebufferResource e (s\<lparr>fb_timer := False\<rparr>))\<lparr>fb_dev_mem := None\<rparr>
      in case fb_backing s1 of
           None \<Rightarrow> s1
         | Some d \<Rightarrow> (on_gpu (\<lambda>g. md_release d (md_complete d g)) s1)\<lparr>fb_backing := None\<rparr>)"

section \<open>Interrupt references\<close>

definition fb_registerForInterruptType :: "u32 \<Rightarrow> io_return \<times> u64 option" where
  "fb_registerForInterruptType interruptType =
     (if interruptType \<in> {0, 0x76626c20, 0x76626c6e, 0x64636920, 0x64706972, 0x68646369}
      then (kIOReturnSuccess, Some (ucast interruptType OR 0x12340000))
      else (kIOReturnUnsupported, None))"

definition fb_unregisterInterrupt :: "u64 \<Rightarrow> io_return" where
  "fb_unregisterInterrupt interruptRef =
     (if interruptRef AND 0xFFFF0000 = 0x12340000 then kIOReturnSuccess else kIOReturnBadArgument)"

definition fb_setInterruptState :: "u64 \<Rightarrow> u32 \<Rightarrow> io_return" where
  "fb_setInterruptState interruptRef state =
     (if interruptRef AND 0xFFFF0000 = 0x12340000 then kIOReturnSuccess else kIOReturnBadArgument)"

section \<open>Steps\<close>


section \<open>Specifications\<close>

definition one_segment :: "memdesc \<Rightarrow> bool" where
  "one_segment d \<longleftrightarrow> (\<exists>tot. seg_count (Suc (md_length d)) d 0 0 0 = Some (1, tot))"

definition mode_fits_buffer :: "nat \<Rightarrow> fb_mode \<Rightarrow> bool" where
  "mode_fits_buffer len m \<longleftrightarrow> unat (fm_width m) * unat (fm_height m) * 4 \<le> len"

definition fitting_ids :: "nat \<Rightarrow> int list" where
  "fitting_ids len = map fm_id (filter (mode_fits_buffer len) kSupportedModes)"


section \<open>Lemmas\<close>

lemma supported_dims:
  assumes "m \<in> set kSupportedModes"
  shows "unat (ucast (fm_width m) * ucast (fm_height m) * 4 :: u64) = unat (fm_width m) * unat (fm_height m) * 4"
    and "0 < unat (fm_width m) * unat (fm_height m)" "fm_id m \<noteq> 0"
    and "find (\<lambda>x. fm_id x = fm_id m) kSupportedModes = Some m"
    and "fm_default m \<longleftrightarrow> fm_id m = 5"
  using assms by (auto simp: kSupportedModes_def fb_mode_entry_def)

lemma supported_nonzero: "m \<in> set kSupportedModes \<Longrightarrow> (ucast (fm_width m) * ucast (fm_height m) :: u64) \<noteq> 0"
  by (auto simp: kSupportedModes_def fb_mode_entry_def)

lemma ceiling_size:
  "(w, h) \<in> set ceilings \<Longrightarrow> unat (ucast w * ucast h * 4 :: u64) = unat w * unat h * 4 \<and> 3145728 \<le> unat w * unat h * 4
     \<and> unat w * unat h * 4 < 2 ^ 26"
  by (auto simp: ceilings_def)

lemma on_gpu_simps [simp]:
  "fb_gpu (on_gpu f s) = f (fb_gpu s)" "fb_backing (on_gpu f s) = fb_backing s" "fb_dev_mem (on_gpu f s) = fb_dev_mem s"
  "fb_display_modes (on_gpu f s) = fb_display_modes s" "fb_mode_count (on_gpu f s) = fb_mode_count s"
  "fb_current_mode (on_gpu f s) = fb_current_mode s" "fb_resource_id (on_gpu f s) = fb_resource_id s"
  "fb_scanout_resource_id (on_gpu f s) = fb_scanout_resource_id s" "fb_width (on_gpu f s) = fb_width s"
  "fb_height (on_gpu f s) = fb_height s" "fb_has_gpu (on_gpu f s) = fb_has_gpu s" "fb_timer (on_gpu f s) = fb_timer s"
  by (simp_all add: on_gpu_def)

text \<open>The ladder takes one size of the list, wires its buffer once, and releases every other.\<close>

lemma alloc_ladder_result:
  assumes "alloc_ladder e ok cs s = Some s'" "set cs \<subseteq> set ceilings"
  shows "s' = s \<or> (\<exists>d w h. (w, h) \<in> set ceilings \<and> md_length d = unat w * unat h * 4
     \<and> one_segment d
     \<and> s' = s\<lparr>fb_gpu := md_do_prepare d (md_retain d (fb_gpu s)), fb_backing := Some d,
           fb_dev_mem := Some (fst (md_seg d 0), md_length d), fb_alloc_width := w, fb_alloc_height := h\<rparr>)"
  using assms
proof (induction cs)
  case (Cons c cs)
  obtain w h where c: "c = (w, h)" by fastforce
  let ?sz = "unat (ucast w * ucast h * 4 :: u64)"
  have sz: "?sz = unat w * unat h * 4" "(w, h) \<in> set ceilings" using ceiling_size [of w h] Cons.prems(2) c by auto
  have bal: "on_gpu (md_release d) (on_gpu (md_retain d) s) = s"
    "on_gpu (md_release d) (on_gpu (md_complete d) (on_gpu (md_do_prepare d) (on_gpu (md_retain d) s))) = s" for d
    by (simp_all add: on_gpu_def)
  have IH: "alloc_ladder e ok cs s = Some s' \<Longrightarrow> ?case" using Cons by simp
  show ?case
  proof (cases "bmd_alloc e (tr_tick (g_tr (fb_gpu s))) ?sz")
    case None
    then show ?thesis using Cons.prems(1) c IH by (simp add: Let_def)
  next
    case (Some d)
    show ?thesis
    proof (cases "md_prepare d = kIOReturnSuccess \<and> ok (fst (md_seg d 0)) ?sz \<and> md_length d = ?sz
        \<and> (\<exists>tot. seg_count (Suc (md_length d)) d 0 0 0 = Some (1, tot))")
      case True
      then obtain tot where t: "seg_count (Suc (md_length d)) d 0 0 0 = Some (1, tot)" by blast
      have "s' = s\<lparr>fb_gpu := md_do_prepare d (md_retain d (fb_gpu s)), fb_backing := Some d,
           fb_dev_mem := Some (fst (md_seg d 0), md_length d), fb_alloc_width := w, fb_alloc_height := h\<rparr>"
        using Cons.prems(1) c Some True t by (simp add: Let_def on_gpu_def del: seg_count.simps)
      moreover have "md_length d = unat w * unat h * 4" using True sz(1) by metis
      moreover have "one_segment d" using t unfolding one_segment_def by blast
      ultimately show ?thesis using sz(2) by blast
    next
      case False
      then have "alloc_ladder e ok cs s = Some s'"
        using Cons.prems(1) c Some bal
        by (auto simp: Let_def simp del: seg_count.simps split: if_splits option.splits prod.splits)
      then show ?thesis by (rule IH)
    qed
  qed
qed simp


lemma filter_loop_result:
  assumes "filter_loop (word_of_nat len) ms dm lf lp s = (dm', lf', s')" "set ms \<subseteq> set kSupportedModes"
    and "len < 2 ^ 26" "fb_mode_count s + length ms \<le> 8" "length (fb_display_modes s) = 8"
  shows "\<exists>xs. s' = s\<lparr>fb_display_modes := xs, fb_mode_count := fb_mode_count s + length (filter (mode_fits_buffer len) ms)\<rparr>
     \<and> length xs = 8
     \<and> take (fb_mode_count s + length (filter (mode_fits_buffer len) ms)) xs
         = take (fb_mode_count s) (fb_display_modes s) @ map fm_id (filter (mode_fits_buffer len) ms)
     \<and> (dm' = dm \<or> dm' \<in> fm_id ` set (filter (mode_fits_buffer len) ms))
     \<and> (lf' = lf \<or> lf' \<in> fm_id ` set (filter (mode_fits_buffer len) ms))
     \<and> (\<forall>m \<in> set (filter (mode_fits_buffer len) ms). fm_default m \<longrightarrow> dm' = 5)
     \<and> (lp = 0 \<and> lf = 0 \<and> filter (mode_fits_buffer len) ms \<noteq> [] \<longrightarrow> lf' \<noteq> 0)
     \<and> (dm = 5 \<longrightarrow> dm' = 5) \<and> (lf \<noteq> 0 \<longrightarrow> lf' \<noteq> 0)"
  using assms
proof (induction ms arbitrary: dm lf lp s)
  case Nil
  then show ?case by (intro exI [of _ "fb_display_modes s"]) auto
next
  case (Cons m ms)
  have m: "m \<in> set kSupportedModes" using Cons.prems(2) by simp
  note md = supported_dims [OF m]
  have "unat (word_of_nat len :: u64) = len" using Cons.prems(3) by (simp add: unat_of_nat)
  then have cmp: "(word_of_nat len < (ucast (fm_width m) * ucast (fm_height m) * 4 :: u64)) = (\<not> mode_fits_buffer len m)"
    by (simp add: word_less_nat_alt md(1) mode_fits_buffer_def not_le)
  show ?case
  proof (cases "mode_fits_buffer len m")
    case False
    then show ?thesis using Cons cmp by (simp add: Let_def)
  next
    case True
    let ?s1 = "s\<lparr>fb_display_modes := (fb_display_modes s)[fb_mode_count s := fm_id m], fb_mode_count := fb_mode_count s + 1\<rparr>"
    obtain lp1 lf1 where l: "(if ucast (fm_width m) * ucast (fm_height m) > lp then (ucast (fm_width m) * ucast (fm_height m), fm_id m)
        else (lp, lf)) = (lp1, lf1)" by fastforce
    have r: "filter_loop (word_of_nat len) ms (if fm_default m then fm_id m else dm) lf1 lp1 ?s1 = (dm', lf', s')"
      using Cons.prems(1,4) True cmp l by (auto simp: Let_def split: if_splits)
    have t: "take (fb_mode_count ?s1) (fb_display_modes ?s1) = take (fb_mode_count s) (fb_display_modes s) @ [fm_id m]"
      using Cons.prems(4,5) by (simp add: take_Suc_conv_app_nth)
    have lf1: "lf1 = lf \<or> lf1 = fm_id m" "lp = 0 \<longrightarrow> lf1 = fm_id m" "lf \<noteq> 0 \<longrightarrow> lf1 \<noteq> 0"
      using l md(3) supported_nonzero [OF m] by (auto split: if_splits simp: word_gt_0)
    obtain xs where xs: "s' = ?s1\<lparr>fb_display_modes := xs, fb_mode_count := fb_mode_count ?s1 + length (filter (mode_fits_buffer len) ms)\<rparr>"
       "length xs = 8"
       "take (fb_mode_count ?s1 + length (filter (mode_fits_buffer len) ms)) xs
         = take (fb_mode_count ?s1) (fb_display_modes ?s1) @ map fm_id (filter (mode_fits_buffer len) ms)"
       "dm' = (if fm_default m then fm_id m else dm) \<or> dm' \<in> fm_id ` set (filter (mode_fits_buffer len) ms)"
       "lf' = lf1 \<or> lf' \<in> fm_id ` set (filter (mode_fits_buffer len) ms)"
       "\<forall>m \<in> set (filter (mode_fits_buffer len) ms). fm_default m \<longrightarrow> dm' = 5"
       "(if fm_default m then fm_id m else dm) = 5 \<longrightarrow> dm' = 5" "lf1 \<noteq> 0 \<longrightarrow> lf' \<noteq> 0"
    proof -
      have p: "set ms \<subseteq> set kSupportedModes" "fb_mode_count ?s1 + length ms \<le> 8" "length (fb_display_modes ?s1) = 8"
        using Cons.prems(2,4,5) by simp_all
      show thesis using Cons.IH [OF r p(1) Cons.prems(3) p(2,3)] that by blast
    qed
    have F: "filter (mode_fits_buffer len) (m # ms) = m # filter (mode_fits_buffer len) ms" using True by simp
    have d: "dm' = dm \<or> dm' \<in> fm_id ` set (m # filter (mode_fits_buffer len) ms)"
      "lf' = lf \<or> lf' \<in> fm_id ` set (m # filter (mode_fits_buffer len) ms)"
      "\<forall>x \<in> set (m # filter (mode_fits_buffer len) ms). fm_default x \<longrightarrow> dm' = 5"
      using xs(4-7) lf1(1) md(5) by (auto split: if_splits)
    show ?thesis
      unfolding F using xs(1-3,7,8) t lf1(2,3) md(3,5) d
      by (intro exI [of _ xs]) (simp del: set_simps)
  qed
qed


lemma filter_result:
  assumes "length (fb_display_modes s) = 8" "fb_backing s = Some d" "md_length d < 2 ^ 26"
  shows "\<exists>xs c. filterModesByAllocation s = s\<lparr>fb_display_modes := xs, fb_mode_count := length (fitting_ids (md_length d)),
       fb_current_mode := c\<rparr> \<and> length xs = 8 \<and> take (length (fitting_ids (md_length d))) xs = fitting_ids (md_length d)
     \<and> (fitting_ids (md_length d) \<noteq> [] \<longrightarrow> c \<in> set (fitting_ids (md_length d)))
     \<and> (5 \<in> set (fitting_ids (md_length d)) \<longrightarrow> c = 5)"
proof -
  let ?s1 = "s\<lparr>fb_mode_count := 0, fb_current_mode := 0\<rparr>" and ?F = "filter (mode_fits_buffer (md_length d)) kSupportedModes"
  obtain dm lf s2 where r: "filter_loop (word_of_nat (md_length d)) kSupportedModes 0 0 0 ?s1 = (dm, lf, s2)" by (rule prod_cases3)
  have k: "length kSupportedModes \<le> 8" by (simp add: kSupportedModes_def)
  obtain xs where xs: "s2 = ?s1\<lparr>fb_display_modes := xs, fb_mode_count := length ?F\<rparr>" "length xs = 8" "take (length ?F) xs = map fm_id ?F"
      "dm = 0 \<or> dm \<in> fm_id ` set ?F" "lf = 0 \<or> lf \<in> fm_id ` set ?F" "\<forall>m \<in> set ?F. fm_default m \<longrightarrow> dm = 5" "?F \<noteq> [] \<longrightarrow> lf \<noteq> 0"
    using filter_loop_result [OF r _ assms(3)] k assms(1) by auto
  have five: "dm = 5" if "5 \<in> fm_id ` set ?F" using xs(6) that supported_dims(5) by force
  let ?c = "if dm \<noteq> 0 then dm else lf"
  have e: "filterModesByAllocation s = s\<lparr>fb_display_modes := xs, fb_mode_count := length ?F, fb_current_mode := ?c\<rparr>"
    using r xs(1) assms(2) by (simp add: filterModesByAllocation_def Let_def)
  have ids: "fitting_ids (md_length d) = map fm_id ?F" by (simp add: fitting_ids_def)
  have "?F \<noteq> [] \<longrightarrow> ?c \<in> set (map fm_id ?F)" using xs(4,5,7) by (simp del: set_filter) blast
  moreover have "5 \<in> set (map fm_id ?F) \<longrightarrow> ?c = 5" using five by simp
  ultimately show ?thesis
    using e xs(2,3) unfolding ids by (intro exI [of _ xs] exI [of _ ?c]) (simp del: set_filter)
qed

text \<open>Start, as a whole: the framebuffer it leaves, when some size of the ladder could be had.\<close>

lemma fb_start_result:
  assumes "fb_start e ok s = Some s'" "length (fb_display_modes s) = 8" "fb_backing s = None" "fb_backing s' = Some d"
  shows "fb_dev_mem s' = Some (fst (md_seg d 0), md_length d) \<and> fb_getDisplayModes s' = fitting_ids (md_length d)
     \<and> fb_current_mode s' \<in> set (fitting_ids (md_length d)) \<and> 1 \<in> set (fitting_ids (md_length d))
     \<and> (5 \<in> set (fitting_ids (md_length d)) \<longrightarrow> fb_current_mode s' = 5)
     \<and> one_segment d \<and> fb_gpu s' = md_do_prepare d (md_retain d (fb_gpu s)) \<and> 3145728 \<le> md_length d \<and> md_length d < 2 ^ 26
     \<and> fb_resource_id s' = fb_resource_id s \<and> fb_scanout_resource_id s' = fb_scanout_resource_id s
     \<and> fb_width s' = fb_width s \<and> fb_height s' = fb_height s \<and> fb_has_gpu s' = fb_has_gpu s"
proof -
  let ?s0 = "s\<lparr>fb_mode_count := 0, fb_current_mode := 0\<rparr>"
  obtain s1 where s1: "alloc_ladder e ok ceilings ?s0 = Some s1" "s' = filterModesByAllocation s1"
    using assms(1) by (auto simp: fb_start_def)
  have "s1 \<noteq> ?s0"
    using s1(2) assms(3,4) by (auto simp: filterModesByAllocation_def Let_def)
  then obtain d' w h where d: "(w, h) \<in> set ceilings" "md_length d' = unat w * unat h * 4"
     "one_segment d'"
     "s1 = ?s0\<lparr>fb_gpu := md_do_prepare d' (md_retain d' (fb_gpu s)), fb_backing := Some d',
           fb_dev_mem := Some (fst (md_seg d' 0), md_length d'), fb_alloc_width := w, fb_alloc_height := h\<rparr>"
    using alloc_ladder_result [OF s1(1)] by auto
  have sz: "3145728 \<le> md_length d'" "md_length d' < 2 ^ 26" using ceiling_size [OF d(1)] d(2) by auto
  have b: "length (fb_display_modes s1) = 8" "fb_backing s1 = Some d'" using d(4) assms(2) by simp_all
  obtain xs c where f: "s' = s1\<lparr>fb_display_modes := xs, fb_mode_count := length (fitting_ids (md_length d')), fb_current_mode := c\<rparr>"
     "take (length (fitting_ids (md_length d'))) xs = fitting_ids (md_length d')"
     "fitting_ids (md_length d') \<noteq> [] \<longrightarrow> c \<in> set (fitting_ids (md_length d'))" "5 \<in> set (fitting_ids (md_length d')) \<longrightarrow> c = 5"
    using filter_result [OF b sz(2)] s1(2) by blast
  have "1 \<in> set (fitting_ids (md_length d'))"
    using sz(1) by (simp add: fitting_ids_def kSupportedModes_def fb_mode_entry_def mode_fits_buffer_def)
  moreover have "d' = d" using f(1) b(2) assms(4) by simp
  ultimately show ?thesis using f d(3,4) sz by (auto simp: fb_getDisplayModes_def)
qed

















section \<open>Properties\<close>

text \<open>The modes a started framebuffer offers are exactly those of the table whose picture fits the buffer it could
  allocate, in table order; the boot mode is one of them, and is 1920 by 1080 whenever that fits. The aperture is the
  whole buffer, which is a single physical segment; the buffer is wired and referenced exactly once more, and every
  other buffer that was tried has been released.\<close>

theorem fb_modes_fit:
  assumes "fb_start e ok s = Some s'" "length (fb_display_modes s) = 8" "fb_backing s = None" "fb_backing s' = Some d"
  shows "fb_getDisplayModes s' = map fm_id (filter (\<lambda>m. unat (fm_width m) * unat (fm_height m) * 4 \<le> md_length d) kSupportedModes)
     \<and> fb_current_mode s' \<in> set (fb_getDisplayModes s')
     \<and> (5 \<in> set (fb_getDisplayModes s') \<longrightarrow> fb_current_mode s' = 5)
     \<and> fb_getApertureRange 0 s' = Some (fst (md_seg d 0), md_length d) \<and> one_segment d
     \<and> fb_gpu s' = md_do_prepare d (md_retain d (fb_gpu s))"
  using fb_start_result [OF assms]
  by (simp add: fitting_ids_def mode_fits_buffer_def [abs_def] fb_getApertureRange_def)













text \<open>The fields a full refresh leaves alone.\<close>

lemma full_refresh_frame:
  "fb_tick_count (full_refresh e s) = fb_tick_count s" "fb_has_gpu (full_refresh e s) = fb_has_gpu s"
  "fb_scanout_resource_id (full_refresh e s) = fb_scanout_resource_id s"
  "fb_taken_by_3d (fb_gpu (full_refresh e s)) = fb_taken_by_3d (fb_gpu s)"
proof -
  have "fb_taken_by_3d g' = fb_taken_by_3d g" if "send_ret e c g = (r, g')" for c g r g'
    by (subst send_ret_seen(2) [OF that]) simp
  then have t: "fb_taken_by_3d (snd (transferToHost2D e a b x y w h g)) = fb_taken_by_3d g"
    "fb_taken_by_3d (snd (flushResource e a x y w h g)) = fb_taken_by_3d g" for a b x y w h g
    by (metis transferToHost2D_def snd_conv prod.collapse, metis flushResource_def snd_conv prod.collapse)
  show "fb_taken_by_3d (fb_gpu (full_refresh e s)) = fb_taken_by_3d (fb_gpu s)"
    using t(1) [of "fb_scanout_resource_id s" 0 0 0 "fb_width s" "fb_height s" "fb_gpu s"] t(2)
    by (auto simp: full_refresh_def Let_def split: prod.splits)
qed (auto simp: full_refresh_def Let_def split: prod.splits)

text \<open>One tick of the throttle.\<close>

lemma refresh_tick:
  assumes "fb_has_gpu s" "fb_scanout_resource_id s \<noteq> 0" "\<not> fb_taken_by_3d (fb_gpu s)"
  shows "fb_tick_count s \<in> {0, 1, 2} \<Longrightarrow> refreshDisplay e s = s\<lparr>fb_tick_count := fb_tick_count s + 1\<rparr>"
  using assms by (auto simp: refreshDisplay_def Let_def)

lemma refresh_full:
  assumes "fb_has_gpu s" "fb_scanout_resource_id s \<noteq> 0" "\<not> fb_taken_by_3d (fb_gpu s)"
  shows "fb_tick_count s = 3 \<Longrightarrow> refreshDisplay e s = full_refresh e (s\<lparr>fb_tick_count := 0\<rparr>)"
  using assms by (simp add: refreshDisplay_def Let_def)

text \<open>The throttle: while the screen belongs to the framebuffer, four refreshes are one full refresh, a transfer of
  the whole picture followed, if it succeeded, by a flush; nothing is sent by the other three, so 4 k refreshes send
  what k full refreshes send. While a 3D client owns the screen a refresh does nothing at all.\<close>

theorem refresh_throttled:
  assumes "fb_has_gpu s" "fb_scanout_resource_id s \<noteq> 0" "fb_tick_count s = 0"
  shows "(refreshDisplay e ^^ (4 * k)) s = (if fb_taken_by_3d (fb_gpu s) then s else (full_refresh e ^^ k) s)"
proof (cases "fb_taken_by_3d (fb_gpu s)")
  case True
  then have "refreshDisplay e s = s" by (simp add: refreshDisplay_def)
  then show ?thesis using True by (induction k) (simp_all add: funpow_add eval_nat_numeral)
next
  case False
  have four: "(refreshDisplay e ^^ 4) t = full_refresh e t"
    if "fb_has_gpu t" "fb_scanout_resource_id t \<noteq> 0" "fb_tick_count t = 0" "\<not> fb_taken_by_3d (fb_gpu t)" for t
  proof -
    have "(refreshDisplay e ^^ 4) t = full_refresh e (t\<lparr>fb_tick_count := 0\<rparr>)"
      using that by (simp add: eval_nat_numeral refresh_tick refresh_full)
    moreover have "t\<lparr>fb_tick_count := 0\<rparr> = t" using that(3) by (cases t) simp
    ultimately show ?thesis by metis
  qed
  have "(refreshDisplay e ^^ (4 * k)) s = (full_refresh e ^^ k) s
     \<and> fb_has_gpu ((full_refresh e ^^ k) s) \<and> fb_scanout_resource_id ((full_refresh e ^^ k) s) \<noteq> 0
     \<and> fb_tick_count ((full_refresh e ^^ k) s) = 0 \<and> \<not> fb_taken_by_3d (fb_gpu ((full_refresh e ^^ k) s))"
  proof (induction k)
    case 0
    then show ?case using assms False by simp
  next
    case (Suc k)
    have "(refreshDisplay e ^^ (4 * Suc k)) s = (refreshDisplay e ^^ 4) ((refreshDisplay e ^^ (4 * k)) s)"
      by (simp add: funpow_add [symmetric, unfolded o_def fun_eq_iff, rule_format])
    then show ?case using Suc four by (simp add: full_refresh_frame)
  qed
  then show ?thesis using False by simp
qed

text \<open>A failed mode change is reported as the current mode: when the resource for an offered mode cannot be set up,
  the call returns the error, the picture keeps its old size, and yet the mode query answers the new mode.\<close>

theorem failed_switch_reports_new_mode:
  assumes "m \<in> set (fb_getDisplayModes s)" "fb_getInformation m = (kIOReturnSuccess, Some i)"
    and "fi_width i \<noteq> fb_width s" "fb_setDisplayMode e m s = (ret, s')" "ret \<noteq> kIOReturnSuccess"
  shows "fb_current_mode s' = m \<and> fb_width s' = fb_width s \<and> fb_height s' = fb_height s
     \<and> ret = fst (setupFramebufferResource e (fi_width i) (fi_height i) (s\<lparr>fb_current_mode := m\<rparr>))"
proof -
  obtain r s2 where r: "setupFramebufferResource e (fi_width i) (fi_height i) (s\<lparr>fb_current_mode := m\<rparr>) = (r, s2)" by fastforce
  then have "s' = s2" "ret = r" using assms by (auto simp: fb_setDisplayMode_def split: if_splits)
  moreover have "r \<noteq> kIOReturnSuccess \<longrightarrow> fb_current_mode s2 = m \<and> fb_width s2 = fb_width s \<and> fb_height s2 = fb_height s"
    using r by (auto simp: setupFramebufferResource_def teardownFramebufferResource_def Let_def
        split: if_splits option.splits prod.splits)
  ultimately show ?thesis using r assms(5) by simp
qed

text \<open>Interrupt references do not come back: every supported type is registered successfully, but of the references
  handed out only that of type 0 is accepted again; the vertical-blank and display-change references of the window
  server can be neither enabled nor unregistered.\<close>

theorem interrupt_refs_lost:
  assumes "fb_registerForInterruptType t = (kIOReturnSuccess, Some ref)"
  shows "fb_unregisterInterrupt ref = (if t = 0 then kIOReturnSuccess else kIOReturnBadArgument)
     \<and> fb_setInterruptState ref st = fb_unregisterInterrupt ref"
  using assms
  by (auto simp: fb_registerForInterruptType_def fb_unregisterInterrupt_def fb_setInterruptState_def split: if_splits)

section \<open>A sample framebuffer\<close>

text \<open>Buffers of one segment at 0x40000000, up to sixteen megabytes: the second size of the ladder is taken.\<close>

definition flat_desc :: "nat \<Rightarrow> nat \<Rightarrow> memdesc" where
  "flat_desc n len = \<lparr>md_id = n, md_length = len,
     md_seg = (\<lambda>off. if off < len then (0x40000000 + word_of_nat off, len - off) else (0, 0)),
     md_prepare = kIOReturnSuccess, md_map = None\<rparr>"

definition sample_fb_env :: device_env where
  "sample_fb_env = sample_env\<lparr>bmd_alloc := (\<lambda>n len. if len \<le> 0x1000000 then Some (flat_desc n len) else None)\<rparr>"

definition sample_fb :: fb where
  "sample_fb = \<lparr>fb_gpu = sample_gpu, fb_has_gpu = True, fb_backing = None, fb_dev_mem = None, fb_resource_id = 0,
     fb_alloc_width = 0, fb_alloc_height = 0, fb_width = 1024, fb_height = 768, fb_depth = 32,
     fb_display_modes = replicate 8 0, fb_mode_count = 0, fb_current_mode = 0, fb_timer = True, fb_armed = 0,
     fb_scanout_resource_id = 1, fb_tick_count = 0, fb_already_enabled = False, fb_call_count = 0,
     fb_tracking_probed = False, fb_recreate_probed = False, fb_cursor_probed = False, fb_transport3d_probed = False\<rparr>"

lemma flat_segment:
  assumes "0 < len"
  shows "seg_count (Suc len) (flat_desc n len) 0 0 0 = Some (1, len)"
proof -
  obtain k where "len = Suc k" using assms by (cases len) auto
  then show ?thesis by (simp add: flat_desc_def)
qed

lemma sample_fb_start:
  obtains s' where "fb_start sample_fb_env (\<lambda>_ _. True) sample_fb = Some s'" "fb_backing s' = Some (flat_desc 0 16384000)"
proof -
  let ?s0 = "sample_fb\<lparr>fb_mode_count := 0, fb_current_mode := 0\<rparr>"
  have t: "tr_tick (g_tr (fb_gpu ?s0)) = 0" by (simp add: sample_fb_def sample_gpu_def sample_transport_def)
  have l: "md_length (flat_desc 0 16384000) = 16384000" "md_prepare (flat_desc 0 16384000) = kIOReturnSuccess"
    by (simp_all add: flat_desc_def)
  obtain s1 where s1: "alloc_ladder sample_fb_env (\<lambda>_ _. True) ceilings ?s0 = Some s1" "fb_backing s1 = Some (flat_desc 0 16384000)"
    using t l flat_segment [of 16384000 0]
    by (simp add: ceilings_def Let_def sample_fb_env_def del: seg_count.simps)
  have "fb_backing (filterModesByAllocation s1) = fb_backing s1"
    using filter_result [of s1] s1 alloc_ladder_result [OF s1(1)] l by (auto simp: sample_fb_def)
  then show thesis using that s1 by (simp add: fb_start_def)
qed


theorem fb_modes_fit_witness:
  "\<exists>s'. fb_start sample_fb_env (\<lambda>_ _. True) sample_fb = Some s' \<and> fb_getDisplayModes s' = [1, 2, 3, 4, 5, 6]
     \<and> fb_current_mode s' = 5 \<and> fb_getApertureRange 0 s' = Some (0x40000000, 16384000)"
proof -
  obtain s' where s: "fb_start sample_fb_env (\<lambda>_ _. True) sample_fb = Some s'" "fb_backing s' = Some (flat_desc 0 16384000)"
    by (rule sample_fb_start)
  from fb_modes_fit [OF s(1) _ _ s(2)] s(1) show ?thesis
    by (simp add: sample_fb_def flat_desc_def kSupportedModes_def fb_mode_entry_def)
qed

lemma sample_fb_facts: "length (fb_display_modes sample_fb) = 8" "fb_backing sample_fb = None" "fb_width sample_fb = 1024"
  "fb_height sample_fb = 768" "fb_resource_id sample_fb = 0" "fb_scanout_resource_id sample_fb = 1" "fb_has_gpu sample_fb"
  "fb_tick_count sample_fb = 0"
  by (simp_all add: sample_fb_def)



theorem refresh_throttled_witness:
  "(refreshDisplay sample_fb_env ^^ (4 * 2)) sample_fb = (full_refresh sample_fb_env ^^ 2) sample_fb"
proof -
  have "\<not> fb_taken_by_3d (fb_gpu sample_fb)" by (simp add: sample_fb_def sample_gpu_def gpu_init_def)
  then show ?thesis
    using refresh_throttled [where s = sample_fb and e = sample_fb_env and k = 2] sample_fb_facts(6-8) by simp
qed

theorem failed_switch_reports_new_mode_witness:
  "\<exists>ret s'. fb_setDisplayMode sample_fb_env 5 (sample_fb\<lparr>fb_display_modes := [5], fb_mode_count := 1\<rparr>) = (ret, s')
     \<and> ret = kIOReturnNotReady \<and> fb_current_mode s' = 5 \<and> fb_width s' = 1024"
proof -
  let ?s = "sample_fb\<lparr>fb_display_modes := [5], fb_mode_count := 1\<rparr>"
  let ?i = "\<lparr>fi_flags = 7, fi_width = 1920, fi_height = 1080\<rparr> :: fb_mode_info"
  have i: "fb_getInformation 5 = (kIOReturnSuccess, Some ?i)"
    by (simp add: fb_getInformation_def kSupportedModes_def fb_mode_entry_def)
  have m: "5 \<in> set (fb_getDisplayModes ?s)" by (simp add: fb_getDisplayModes_def)
  obtain ret s' where r: "fb_setDisplayMode sample_fb_env 5 ?s = (ret, s')" by fastforce
  then have "ret = kIOReturnNotReady"
    using i m by (auto simp: fb_setDisplayMode_def setupFramebufferResource_def sample_fb_def split: if_splits)
  with failed_switch_reports_new_mode [OF m i _ r] r show ?thesis by (auto simp: sample_fb_def)
qed

theorem interrupt_refs_lost_witness:
  "fb_registerForInterruptType 0x76626c20 = (kIOReturnSuccess, Some 0x76766c20) \<and> fb_unregisterInterrupt 0x76766c20 = kIOReturnBadArgument"
proof -
  have r: "fb_registerForInterruptType 0x76626c20 = (kIOReturnSuccess, Some 0x76766c20)" by (simp add: fb_registerForInterruptType_def)
  from interrupt_refs_lost [OF r] r show ?thesis by simp
qed

end
