(* ===== verification/Object_Pool.thy ===== *)
theory Object_Pool
  imports Prelude
begin

text \<open>
  The growing tables of object pointers that the accelerator keeps (\<^verbatim>\<open>poolGrow\<close>, \<^verbatim>\<open>poolAdd\<close>, \<^verbatim>\<open>poolRemove\<close> and the two searches of
  \<^verbatim>\<open>VMQemuVGAAccelerator.cpp\<close>, written once for both kinds of object), what makes such a table sound, and the interface its
  users rely on.
\<close>

section \<open>Growing tables of objects\<close>

text \<open>
  A table is an array of pointers, null when free, and the number of objects in it. A pointer to an object of the table
  is represented by its index. \<open>pool_grow\<close> doubles the array; \<open>mem n\<close> tells whether \<open>n\<close> bytes can be allocated.
\<close>

type_synonym 'a pool = "'a option list \<times> u32"

fun free_index :: "'a option list \<Rightarrow> nat option" where
  "free_index [] = None"
| "free_index (x # xs) = (if x = None then Some 0 else map_option Suc (free_index xs))"

fun key_index :: "('a \<Rightarrow> u32) \<Rightarrow> u32 \<Rightarrow> 'a option list \<Rightarrow> nat option" where
  "key_index key k [] = None"
| "key_index key k (x # xs) =
     (case x of Some y \<Rightarrow> if key y = k then Some 0 else map_option Suc (key_index key k xs)
      | None \<Rightarrow> map_option Suc (key_index key k xs))"

definition pool_grow :: "(nat \<Rightarrow> bool) \<Rightarrow> u32 \<Rightarrow> 'a option list \<Rightarrow> 'a option list option" where
  "pool_grow mem initial slots =
     (let cap = word_of_nat (length slots) :: u32;
          new_cap = (if cap \<noteq> 0 then cap * 2 else initial)
      in if mem (unat new_cap * 8) then Some (slots @ replicate (unat new_cap - length slots) None) else None)"

definition pool_add :: "(nat \<Rightarrow> bool) \<Rightarrow> u32 \<Rightarrow> 'a \<Rightarrow> 'a pool \<Rightarrow> 'a pool option" where
  "pool_add mem initial x p =
     (case p of (slots, count) \<Rightarrow>
        case free_index slots of
          Some i \<Rightarrow> Some (slots[i := Some x], count + 1)
        | None \<Rightarrow> (case pool_grow mem initial slots of
                     None \<Rightarrow> None
                   | Some slots' \<Rightarrow> Some (slots'[unat count := Some x], count + 1)))"

definition pool_remove :: "nat \<Rightarrow> 'a pool \<Rightarrow> 'a pool" where
  "pool_remove i p = (case p of (slots, count) \<Rightarrow> (slots[i := None], if count > 0 then count - 1 else count))"

section \<open>Lemmas on tables\<close>

fun occupied :: "'a option list \<Rightarrow> 'a list" where
  "occupied [] = []"
| "occupied (None # xs) = occupied xs"
| "occupied (Some y # xs) = y # occupied xs"

text \<open>
  A sound table: the keys are distinct, the counter is the number of objects, and the capacity is in the range in which
  doubling it does not wrap.
\<close>

definition pool_sound :: "('a \<Rightarrow> u32) \<Rightarrow> 'a pool \<Rightarrow> bool" where
  "pool_sound key p \<longleftrightarrow> (case p of (slots, n) \<Rightarrow>
     distinct (map key (occupied slots)) \<and> unat n = length (occupied slots) \<and> 0 < length slots \<and> length slots < 2 ^ 30)"

definition pool_look :: "('a \<Rightarrow> u32) \<Rightarrow> 'a pool \<Rightarrow> u32 \<Rightarrow> 'a option" where
  "pool_look key p k = (case key_index key k (fst p) of None \<Rightarrow> None | Some i \<Rightarrow> fst p ! i)"

definition pool_delete :: "('a \<Rightarrow> u32) \<Rightarrow> u32 \<Rightarrow> 'a pool \<Rightarrow> 'a pool" where
  "pool_delete key k p = (case key_index key k (fst p) of None \<Rightarrow> p | Some i \<Rightarrow> pool_remove i p)"

lemma occupied_append [simp]: "occupied (xs @ ys) = occupied xs @ occupied ys"
  by (induction xs rule: occupied.induct) auto

lemma occupied_replicate [simp]: "occupied (replicate n None) = []"
  by (induction n) auto

lemma occupied_le: "length (occupied xs) \<le> length xs"
  by (induction xs rule: occupied.induct) auto

lemma occupied_full: "None \<notin> set xs \<Longrightarrow> length (occupied xs) = length xs"
  by (induction xs rule: occupied.induct) auto

lemma set_occupied: "y \<in> set (occupied xs) \<longleftrightarrow> Some y \<in> set xs"
  by (induction xs rule: occupied.induct) auto

lemma free_index_Some: "free_index xs = Some i \<Longrightarrow> i < length xs \<and> xs ! i = None"
  by (induction xs arbitrary: i) (auto split: if_splits)

lemma free_index_None: "free_index xs = None \<longleftrightarrow> None \<notin> set xs"
  by (induction xs) auto

text \<open>Changing one slot changes one element of the list of objects.\<close>

lemma occupied_nth:
  "i < length xs \<Longrightarrow> occupied xs = occupied (take i xs) @ occupied [xs ! i] @ occupied (drop (Suc i) xs)"
  by (metis append_Cons append_Nil id_take_nth_drop occupied_append)

lemma occupied_update:
  "i < length xs \<Longrightarrow> occupied (xs[i := v]) = occupied (take i xs) @ occupied [v] @ occupied (drop (Suc i) xs)"
  by (metis append_Cons append_Nil occupied_append upd_conv_take_nth_drop)

lemma key_index_Some:
  "key_index key k xs = Some i \<Longrightarrow> i < length xs \<and> (\<exists>y. xs ! i = Some y \<and> key y = k)"
  by (induction xs arbitrary: i) (auto split: option.splits if_splits)

lemma key_index_None: "key_index key k xs = None \<longleftrightarrow> k \<notin> key ` set (occupied xs)"
  by (induction xs rule: occupied.induct) auto

lemma pool_look_map_of: "pool_look key (xs, n) k = map_of (map (\<lambda>y. (key y, y)) (occupied xs)) k"
proof -
  have "(case key_index key k xs of None \<Rightarrow> None | Some i \<Rightarrow> xs ! i) = map_of (map (\<lambda>y. (key y, y)) (occupied xs)) k"
    by (induction xs rule: occupied.induct) (auto split: option.splits)
  then show ?thesis by (simp add: pool_look_def cong: option.case_cong)
qed

lemma pool_look_None: "pool_look key p k = None \<longleftrightarrow> k \<notin> key ` set (occupied (fst p))"
  by (cases p) (auto simp: pool_look_map_of map_of_eq_None_iff image_image)

lemma pool_grow_Some:
  assumes "pool_grow mem initial xs = Some ys" "0 < length xs" "length xs < 2 ^ 30"
  shows "ys = xs @ replicate (length xs) None \<and> mem (16 * length xs)"
proof -
  have u: "unat (word_of_nat (length xs) :: u32) = length xs" using assms(3) by (simp add: unat_of_nat)
  then have z: "(word_of_nat (length xs) :: u32) \<noteq> 0" using assms(2) by auto
  have "unat (word_of_nat (length xs) * 2 :: u32) = 2 * length xs"
    using u assms(3) by (simp add: unat_word_ariths)
  then show ?thesis using assms(1) z by (auto simp: pool_grow_def Let_def split: if_splits)
qed

text \<open>Adding an object puts it between two parts of the list of objects, wherever its slot is.\<close>

lemma pool_add_split:
  assumes "pool_add mem initial x (xs, n) = Some (ys, m)" "pool_sound key (xs, n)" "\<forall>b \<ge> 2 ^ 33. \<not> mem b"
  shows "\<exists>as bs. occupied xs = as @ bs \<and> occupied ys = as @ x # bs \<and> unat m = Suc (unat n)
           \<and> length xs \<le> length ys \<and> length ys < 2 ^ 30"
proof -
  have b: "length (occupied xs) \<le> length xs" "length xs < 2 ^ 30" "unat n = length (occupied xs)" "0 < length xs"
    using assms(2) occupied_le by (auto simp: pool_sound_def)
  then have n1: "unat (n + 1) = Suc (unat n)" by (simp add: unat_word_ariths)
  show ?thesis
  proof (cases "free_index xs")
    case (Some i)
    note i = free_index_Some [OF Some]
    have "ys = xs[i := Some x]" "m = n + 1" using assms(1) Some by (auto simp: pool_add_def)
    then show ?thesis using i occupied_nth [of i xs] occupied_update [of i xs "Some x"] b n1
      by (intro exI [of _ "occupied (take i xs)"] exI [of _ "occupied (drop (Suc i) xs)"]) simp
  next
    case None
    obtain zs where g: "pool_grow mem initial xs = Some zs" "ys = zs[unat n := Some x]" "m = n + 1"
      using assms(1) None by (auto simp: pool_add_def split: option.splits)
    have z: "zs = xs @ replicate (length xs) None" "mem (16 * length xs)" using pool_grow_Some [OF g(1) b(4,2)] by auto
    have full: "length (occupied xs) = length xs" using None by (simp add: free_index_None occupied_full)
    have "16 * length xs < 2 ^ 33" using z(2) assms(3) by (meson not_le)
    then have l: "length ys < 2 ^ 30" by (simp add: g(2) z(1))
    have "zs[unat n := Some x] = xs @ (replicate (length xs) None)[0 := Some x]"
      using b(3) full by (simp add: z(1) list_update_append)
    then have "occupied ys = occupied xs @ [x]"
      using b(4) g(2) by (cases "length xs") auto
    then show ?thesis using l n1 g z b by (intro exI [of _ "occupied xs"] exI [of _ "[]"]) simp
  qed
qed

lemma pool_remove_split:
  assumes "key_index key k xs = Some i" "pool_sound key (xs, n)" "pool_remove i (xs, n) = (ys, m)"
  shows "\<exists>as x bs. occupied xs = as @ x # bs \<and> occupied ys = as @ bs \<and> xs ! i = Some x \<and> key x = k
           \<and> unat n = Suc (unat m) \<and> length ys = length xs"
proof -
  obtain x where x: "i < length xs" "xs ! i = Some x" "key x = k" using key_index_Some [OF assms(1)] by blast
  have o: "occupied xs = occupied (take i xs) @ x # occupied (drop (Suc i) xs)"
    "occupied (xs[i := None]) = occupied (take i xs) @ occupied (drop (Suc i) xs)"
    using occupied_nth [OF x(1)] occupied_update [OF x(1), of None] x(2) by simp_all
  have "unat n > 0" using assms(2) o(1) by (simp add: pool_sound_def)
  then have "n > 0" "unat n = Suc (unat (n - 1))"
    by (auto simp: word_gt_0 unat_minus_one unat_gt_0)
  then show ?thesis using assms(3) o x
    by (intro exI [of _ "occupied (take i xs)"] exI [of _ x] exI [of _ "occupied (drop (Suc i) xs)"])
       (auto simp: pool_remove_def)
qed

text \<open>What a client of such a table relies on.\<close>

locale object_table =
  fixes key :: "'v \<Rightarrow> u32" and look :: "'t \<Rightarrow> u32 \<Rightarrow> 'v option" and add :: "'v \<Rightarrow> 't \<Rightarrow> 't option"
    and delete :: "u32 \<Rightarrow> 't \<Rightarrow> 't" and sound :: "'t \<Rightarrow> bool"
  assumes add_law: "sound t \<Longrightarrow> look t (key v) = None \<Longrightarrow> add v t = Some t' \<Longrightarrow> sound t' \<and> look t' = (look t)(key v \<mapsto> v)"
    and delete_law: "sound t \<Longrightarrow> sound (delete k t) \<and> look (delete k t) = (look t)(k := None)"
    and key_law: "look t k = Some v \<Longrightarrow> key v = k"
begin

lemma add_delete:
  assumes "sound t" "look t (key v) = None" "add v t = Some t'"
  shows "look (delete (key v) t') = look t"
proof -
  have "look (delete (key v) t') = ((look t)(key v \<mapsto> v))(key v := None)"
    using add_law [OF assms] delete_law by metis
  then show ?thesis using assms(2) by (auto simp: fun_upd_def)
qed

lemma delete_other: "sound t \<Longrightarrow> j \<noteq> k \<Longrightarrow> look (delete k t) j = look t j"
  using delete_law [of t k] by simp

end

text \<open>An allocator of a kernel whose single blocks stay below eight gigabytes.\<close>

definition limited :: "(nat \<Rightarrow> bool) \<Rightarrow> nat \<Rightarrow> bool" where
  "limited mem b \<longleftrightarrow> b < 2 ^ 33 \<and> mem b"

lemma map_of_objects:
  "key x \<notin> key ` set as \<Longrightarrow> map_of (map (\<lambda>y. (key y, y)) (as @ x # bs)) k
     = (if k = key x then Some x else map_of (map (\<lambda>y. (key y, y)) (as @ bs)) k)"
  by (induction as) auto

lemma pool_sound_add:
  assumes "pool_add mem initial x p = Some q" "pool_sound key p" "\<forall>b \<ge> 2 ^ 33. \<not> mem b" "pool_look key p (key x) = None"
  shows "pool_sound key q \<and> pool_look key q = (pool_look key p)(key x \<mapsto> x)"
proof -
  obtain xs n ys m where p: "p = (xs, n)" "q = (ys, m)" by (metis surj_pair)
  obtain as bs where o: "occupied xs = as @ bs" "occupied ys = as @ x # bs" "unat m = Suc (unat n)" "length xs \<le> length ys"
    "length ys < 2 ^ 30"
    using pool_add_split [OF assms(1,2) [unfolded p] assms(3)] by blast
  have f: "key x \<notin> key ` set as" "key x \<notin> key ` set bs" using assms(4) o(1) by (auto simp: p pool_look_None)
  have "pool_look key q k = ((pool_look key p)(key x \<mapsto> x)) k" for k
    using map_of_objects [OF f(1), of bs k] by (simp add: p pool_look_map_of o(1,2) del: map_append)
  then show ?thesis using assms(2) o f by (auto simp: p pool_sound_def)
qed

lemma pool_sound_delete:
  assumes "pool_sound key p"
  shows "pool_sound key (pool_delete key k p) \<and> pool_look key (pool_delete key k p) = (pool_look key p)(k := None)"
proof (cases "key_index key k (fst p)")
  case None
  then have "pool_look key p k = None" by (simp add: pool_look_def)
  then show ?thesis using assms None by (auto simp: pool_delete_def fun_upd_idem)
next
  case (Some i)
  obtain xs n ys m where p: "p = (xs, n)" "pool_remove i (xs, n) = (ys, m)" by (metis surj_pair)
  obtain as x bs where o: "occupied xs = as @ x # bs" "occupied ys = as @ bs" "key x = k" "unat n = Suc (unat m)"
    "length ys = length xs"
    using pool_remove_split [of key k xs i n ys m] Some assms p by auto
  have f: "k \<notin> key ` set as" "k \<notin> key ` set bs" using assms o(1,3) by (auto simp: p pool_sound_def)
  have "pool_look key (ys, m) j = ((pool_look key p)(k := None)) j" for j
    using map_of_objects [of key x as bs j] f o(3)
    by (auto simp: p pool_look_map_of o(1,2) map_of_eq_None_iff image_image simp del: map_append)
  then show ?thesis using assms Some o by (auto simp: p pool_delete_def pool_sound_def)
qed

lemma pool_look_key: "pool_look key p k = Some v \<Longrightarrow> key v = k"
  using key_index_Some by (fastforce simp: pool_look_def split: option.splits)

lemma pool_look_in: "pool_look key p k = Some v \<Longrightarrow> v \<in> set (occupied (fst p))"
  by (auto simp: pool_look_def set_occupied split: option.splits dest!: key_index_Some) (metis nth_mem)

text \<open>Replacing an object of a table by one with the same key.\<close>

lemma pool_sound_put:
  assumes "pool_sound key p" "i < length (fst p)" "fst p ! i = Some x" "key y = key x"
  shows "pool_sound key ((fst p)[i := Some y], snd p)"
  using assms occupied_nth [OF assms(2)] occupied_update [OF assms(2), of "Some y"]
  by (auto simp: pool_sound_def split: prod.splits)


lemma pool_look_put:
  assumes "pool_sound key p" "i < length (fst p)" "fst p ! i = Some x" "key y = key x"
  shows "pool_look key ((fst p)[i := Some y], snd p) = (pool_look key p)(key x \<mapsto> y)"
proof -
  obtain xs n where p: "p = (xs, n)" by fastforce
  have o: "occupied xs = occupied (take i xs) @ x # occupied (drop (Suc i) xs)"
    "occupied (xs[i := Some y]) = occupied (take i xs) @ y # occupied (drop (Suc i) xs)"
    using occupied_nth [of i xs] occupied_update [of i xs "Some y"] assms p by auto
  have f: "key x \<notin> key ` set (occupied (take i xs))" "key y \<notin> key ` set (occupied (take i xs))"
    using assms(1,4) o(1) p by (auto simp: pool_sound_def)
  show ?thesis
    using map_of_objects [OF f(1), of "occupied (drop (Suc i) xs)"] map_of_objects [OF f(2), of "occupied (drop (Suc i) xs)"] assms(4)
    by (auto simp: p pool_look_map_of o simp del: map_append)
qed


lemma key_index_unique:
  "distinct (map key (occupied xs)) \<Longrightarrow> j < length xs \<Longrightarrow> xs ! j = Some y \<Longrightarrow> key_index key (key y) xs = Some j"
proof (induction xs arbitrary: j)
  case (Cons x xs)
  show ?case
  proof (cases j)
    case 0
    then show ?thesis using Cons.prems by simp
  next
    case (Suc i)
    then have i: "i < length xs" "xs ! i = Some y" using Cons.prems by auto
    then have "y \<in> set (occupied xs)" by (metis nth_mem set_occupied)
    then show ?thesis using Cons.IH [OF _ i] Cons.prems Suc by (cases x) (auto simp: image_iff)
  qed
qed simp


end
