(* ===== verification/Accelerator.thy ===== *)
theory Accelerator
  imports Display Object_Pool
begin

text \<open>
  The accelerator service (\<^verbatim>\<open>VMQemuVGAAccelerator.cpp\<close>) and its user client (\<^verbatim>\<open>VMQemuVGA3DUserClient.cpp\<close>): the
  tables of contexts and surfaces, the surfaces bound to a context, presentation, and the selectors of the client, over
  the modelled driver object; and the invariant that every operation preserves. Every operation runs under
  \<^verbatim>\<open>m_lock\<close>, so it is one step.
\<close>

section \<open>State\<close>

record VM3DSurfaceInfo =
  si_surface_id :: u32
  si_width :: u32
  si_height :: u32
  si_depth :: u32
  si_format :: u32

record AccelContext =
  cx_context_id :: u32
  cx_gpu_context_id :: u32
  cx_command_buffer :: "memdesc option"
  cx_owning_task :: nat
  cx_bound_surface_ids :: "u32 list"
  cx_bound_surface_capacity :: u32

record AccelSurface =
  su_surface_id :: u32
  su_gpu_resource_id :: u32
  su_info :: VM3DSurfaceInfo
  su_backing_memory :: "memdesc option"
  su_is_render_target :: bool

text \<open>
  What \<^verbatim>\<open>getVRAMRange\<close> of the framebuffer answers, and the memory behind it when it can be mapped; the resolution of the
  \<^verbatim>\<open>QemuVGADevice\<close> when the framebuffer is a \<^verbatim>\<open>VMQemuVGA\<close>.
\<close>

datatype vram_range = No_range | Unmappable | Mapped bytes

text \<open>
  \<open>ac_gpu\<close> is the driver object behind \<^verbatim>\<open>m_gpu_device\<close> when \<open>ac_has_gpu\<close>. \<open>ac_refs\<close>: references held on the buffers the
  accelerator allocated, by buffer. \<open>ac_heap\<close>: blocks of contexts, surfaces and bound-surface arrays that are
  allocated and not freed.
\<close>

record accel =
  ac_gpu :: gpu
  ac_has_gpu :: bool
  ac_framebuffer :: bool
  ac_vram :: vram_range
  ac_device :: "(u32 \<times> u32) option"
  ac_contexts :: "AccelContext pool"
  ac_surfaces :: "AccelSurface pool"
  ac_next_context_id :: u32
  ac_next_surface_id :: u32
  ac_draw_calls :: u32
  ac_triangles_rendered :: u32
  ac_memory_used :: u64
  ac_commands_submitted :: u32
  ac_refs :: "nat \<Rightarrow> int"
  ac_heap :: int

abbreviation (input) kInitialContextCapacity :: u32 where "kInitialContextCapacity \<equiv> 16"
abbreviation (input) kInitialSurfaceCapacity :: u32 where "kInitialSurfaceCapacity \<equiv> 64"

definition accel_init :: "accel \<Rightarrow> accel" where
  "accel_init s = s\<lparr>ac_has_gpu := False, ac_framebuffer := False, ac_contexts := (replicate 16 None, 0),
     ac_surfaces := (replicate 64 None, 0), ac_next_context_id := 1, ac_next_surface_id := 1, ac_draw_calls := 0,
     ac_triangles_rendered := 0, ac_memory_used := 0, ac_commands_submitted := 0\<rparr>"

text \<open>
  \<^verbatim>\<open>start\<close> with a framebuffer as its provider: \<open>device\<close> is the framebuffer's GPU device, \<open>managers\<close> whether the work loop, the
  command gate and, with a device, the three managers could be created.
\<close>

definition accel_start :: "gpu option \<Rightarrow> bool \<Rightarrow> accel \<Rightarrow> bool \<times> accel" where
  "accel_start device managers s =
     (managers, s\<lparr>ac_framebuffer := True, ac_has_gpu := (device \<noteq> None), ac_gpu := (case device of None \<Rightarrow> ac_gpu s | Some g \<Rightarrow> g)\<rparr>)"

definition ac_mem :: "device_env \<Rightarrow> accel \<Rightarrow> nat \<Rightarrow> bool" where
  "ac_mem e s n \<longleftrightarrow> kmalloc e (tr_tick (g_tr (ac_gpu s))) n \<noteq> None"

definition ac_retain :: "memdesc \<Rightarrow> accel \<Rightarrow> accel" where
  "ac_retain d s = s\<lparr>ac_refs := (ac_refs s)(md_id d := ac_refs s (md_id d) + 1)\<rparr>"

definition ac_release :: "memdesc option \<Rightarrow> accel \<Rightarrow> accel" where
  "ac_release b s = (case b of None \<Rightarrow> s | Some d \<Rightarrow> s\<lparr>ac_refs := (ac_refs s)(md_id d := ac_refs s (md_id d) - 1)\<rparr>)"

definition ac_blocks :: "int \<Rightarrow> accel \<Rightarrow> accel" where
  "ac_blocks n s = s\<lparr>ac_heap := ac_heap s + n\<rparr>"

section \<open>The two tables\<close>

definition poolGrowContext :: "device_env \<Rightarrow> accel \<Rightarrow> AccelContext option list option" where
  "poolGrowContext e s = pool_grow (ac_mem e s) kInitialContextCapacity (fst (ac_contexts s))"

definition poolGrowSurface :: "device_env \<Rightarrow> accel \<Rightarrow> AccelSurface option list option" where
  "poolGrowSurface e s = pool_grow (ac_mem e s) kInitialSurfaceCapacity (fst (ac_surfaces s))"

definition poolAddContext :: "device_env \<Rightarrow> AccelContext \<Rightarrow> accel \<Rightarrow> accel option" where
  "poolAddContext e c s = map_option (\<lambda>p. s\<lparr>ac_contexts := p\<rparr>) (pool_add (ac_mem e s) kInitialContextCapacity c (ac_contexts s))"

definition poolAddSurface :: "device_env \<Rightarrow> AccelSurface \<Rightarrow> accel \<Rightarrow> accel option" where
  "poolAddSurface e x s = map_option (\<lambda>p. s\<lparr>ac_surfaces := p\<rparr>) (pool_add (ac_mem e s) kInitialSurfaceCapacity x (ac_surfaces s))"

definition poolRemoveContext :: "nat \<Rightarrow> accel \<Rightarrow> accel" where
  "poolRemoveContext i s = s\<lparr>ac_contexts := pool_remove i (ac_contexts s)\<rparr>"

definition poolRemoveSurface :: "nat \<Rightarrow> accel \<Rightarrow> accel" where
  "poolRemoveSurface i s = s\<lparr>ac_surfaces := pool_remove i (ac_surfaces s)\<rparr>"

definition accel_findContext :: "u32 \<Rightarrow> accel \<Rightarrow> nat option" where
  "accel_findContext cid s = key_index cx_context_id cid (fst (ac_contexts s))"

definition accel_findSurface :: "u32 \<Rightarrow> accel \<Rightarrow> nat option" where
  "accel_findSurface sid s = key_index su_surface_id sid (fst (ac_surfaces s))"

definition context_at :: "nat \<Rightarrow> accel \<Rightarrow> AccelContext" where
  "context_at i s = the (fst (ac_contexts s) ! i)"

definition surface_at :: "nat \<Rightarrow> accel \<Rightarrow> AccelSurface" where
  "surface_at i s = the (fst (ac_surfaces s) ! i)"

definition put_context :: "nat \<Rightarrow> AccelContext \<Rightarrow> accel \<Rightarrow> accel" where
  "put_context i c s = s\<lparr>ac_contexts := ((fst (ac_contexts s))[i := Some c], snd (ac_contexts s))\<rparr>"

definition put_surface :: "nat \<Rightarrow> AccelSurface \<Rightarrow> accel \<Rightarrow> accel" where
  "put_surface i x s = s\<lparr>ac_surfaces := ((fst (ac_surfaces s))[i := Some x], snd (ac_surfaces s))\<rparr>"

section \<open>Surfaces bound to a context\<close>

definition contextHasSurface :: "AccelContext \<Rightarrow> u32 \<Rightarrow> bool" where
  "contextHasSurface c sid \<longleftrightarrow> sid \<in> set (cx_bound_surface_ids c)"

definition contextBindSurface :: "device_env \<Rightarrow> nat \<Rightarrow> u32 \<Rightarrow> accel \<Rightarrow> bool \<times> accel" where
  "contextBindSurface e i sid s =
     (let c = context_at i s; ids = cx_bound_surface_ids c; cap = cx_bound_surface_capacity c
      in if sid \<in> set ids then (True, s)
         else if word_of_nat (length ids) = cap then
           let new_cap = (if cap \<noteq> 0 then cap * 2 else 8)
           in if ac_mem e s (unat new_cap * 4)
              then (True, ac_blocks (if cap \<noteq> 0 then 0 else 1)
                            (put_context i (c\<lparr>cx_bound_surface_ids := ids @ [sid], cx_bound_surface_capacity := new_cap\<rparr>) s))
              else (False, s)
         else (True, put_context i (c\<lparr>cx_bound_surface_ids := ids @ [sid]\<rparr>) s))"

text \<open>The last id takes the place of the one removed.\<close>

fun unbind_first :: "u32 \<Rightarrow> u32 list \<Rightarrow> nat \<Rightarrow> u32 list \<Rightarrow> u32 list" where
  "unbind_first sid all i [] = all"
| "unbind_first sid all i (x # xs) = (if x = sid then butlast (all[i := last all]) else unbind_first sid all (Suc i) xs)"

definition contextUnbindSurface :: "nat \<Rightarrow> u32 \<Rightarrow> accel \<Rightarrow> accel" where
  "contextUnbindSurface i sid s =
     (let c = context_at i s; ids = cx_bound_surface_ids c
      in put_context i (c\<lparr>cx_bound_surface_ids := unbind_first sid ids 0 ids\<rparr>) s)"

section \<open>Contexts\<close>

definition on_accel_gpu :: "(gpu \<Rightarrow> gpu) \<Rightarrow> accel \<Rightarrow> accel" where
  "on_accel_gpu f s = s\<lparr>ac_gpu := f (ac_gpu s)\<rparr>"

abbreviation (input) sizeof_AccelContext :: nat where "sizeof_AccelContext \<equiv> 48"
abbreviation (input) sizeof_AccelSurface :: nat where "sizeof_AccelSurface \<equiv> 64"

text \<open>The driver object is used without a check: with none the call dereferences a null pointer.\<close>

definition accel_create3DContext :: "device_env \<Rightarrow> nat \<Rightarrow> accel \<Rightarrow> io_return \<times> u32 option \<times> accel" where
  "accel_create3DContext e task s =
     (if \<not> ac_has_gpu s then (Kernel_panic, None, s)
      else case createRenderContext e (ac_gpu s) of (ret, gpu_context_id, g) \<Rightarrow>
        let s1 = s\<lparr>ac_gpu := g\<rparr>; gcid = the gpu_context_id
        in if ret \<noteq> kIOReturnSuccess then (ret, None, s1)
           else if \<not> ac_mem e s1 sizeof_AccelContext
           then (kIOReturnNoMemory, None, on_accel_gpu (\<lambda>g. snd (destroyRenderContext e gcid g)) s1)
           else let cid = ac_next_context_id s1 + 1;
                    c = \<lparr>cx_context_id = cid, cx_gpu_context_id = gcid, cx_command_buffer = None, cx_owning_task = task,
                         cx_bound_surface_ids = [], cx_bound_surface_capacity = 0\<rparr>;
                    s2 = s1\<lparr>ac_next_context_id := cid\<rparr>
                in case poolAddContext e c s2 of
                     None \<Rightarrow> (kIOReturnNoMemory, None, on_accel_gpu (\<lambda>g. snd (destroyRenderContext e gcid g)) s2)
                   | Some s3 \<Rightarrow> (kIOReturnSuccess, Some cid, ac_blocks 1 s3))"

definition destroyContextInternal :: "device_env \<Rightarrow> u32 \<Rightarrow> accel \<Rightarrow> io_return \<times> accel" where
  "destroyContextInternal e cid s =
     (case accel_findContext cid s of
        None \<Rightarrow> (kIOReturnNotFound, s)
      | Some i \<Rightarrow>
          let c = context_at i s;
              s1 = (if ac_has_gpu s then on_accel_gpu (\<lambda>g. snd (destroyRenderContext e (cx_gpu_context_id c) g)) s else s);
              s2 = (if cx_bound_surface_capacity c \<noteq> 0 then ac_blocks (- 1) s1 else s1);
              s3 = ac_release (cx_command_buffer c) s2
          in (kIOReturnSuccess, ac_blocks (- 1) (poolRemoveContext i s3)))"

definition accel_destroy3DContext :: "device_env \<Rightarrow> u32 \<Rightarrow> accel \<Rightarrow> io_return \<times> accel" where
  "accel_destroy3DContext e cid s = destroyContextInternal e cid s"

definition accel_submit3DCommands :: "device_env \<Rightarrow> u32 \<Rightarrow> memdesc option \<Rightarrow> accel \<Rightarrow> io_return \<times> accel" where
  "accel_submit3DCommands e cid commands s =
     (case commands of
        None \<Rightarrow> (kIOReturnBadArgument, s)
      | Some d \<Rightarrow>
          case accel_findContext cid s of
            None \<Rightarrow> (kIOReturnNotFound, s)
          | Some i \<Rightarrow>
              if \<not> ac_has_gpu s then (Kernel_panic, s)
              else case executeCommands e (cx_gpu_context_id (context_at i s)) (Some d) (ac_gpu s) of (ret, g) \<Rightarrow>
                let s1 = s\<lparr>ac_gpu := g\<rparr>
                in (ret, if ret = kIOReturnSuccess
                         then s1\<lparr>ac_draw_calls := ac_draw_calls s1 + 1, ac_commands_submitted := ac_commands_submitted s1 + 1,
                                 ac_triangles_rendered := ac_triangles_rendered s1 + word_of_nat (md_length d div 64)\<rparr>
                         else s1))"

section \<open>Surfaces\<close>

abbreviation (input) VM3D_FORMAT_R5G6B5 :: u32 where "VM3D_FORMAT_R5G6B5 \<equiv> 23"

definition accel_calculateSurfaceSize :: "VM3DSurfaceInfo \<Rightarrow> u32" where
  "accel_calculateSurfaceSize info = si_width info * si_height info * (if si_format info = VM3D_FORMAT_R5G6B5 then 2 else 4)"

definition accel_allocateSurfaceMemory :: "device_env \<Rightarrow> VM3DSurfaceInfo \<Rightarrow> accel \<Rightarrow> memdesc option" where
  "accel_allocateSurfaceMemory e info s =
     bmd_alloc e (tr_tick (g_tr (ac_gpu s))) (unat (accel_calculateSurfaceSize info))"

text \<open>The information is copied into the surface; the caller's copy is not changed.\<close>

definition accel_create3DSurface :: "device_env \<Rightarrow> u32 \<Rightarrow> VM3DSurfaceInfo option \<Rightarrow> accel \<Rightarrow> io_return \<times> accel" where
  "accel_create3DSurface e cid surface_info s =
     (case surface_info of
        None \<Rightarrow> (kIOReturnBadArgument, s)
      | Some info \<Rightarrow>
          case accel_findContext cid s of
            None \<Rightarrow> (kIOReturnNotFound, s)
          | Some ci \<Rightarrow>
              if \<not> ac_has_gpu s then (Kernel_panic, s)
              else case allocateResource3D e VIRTIO_GPU_RESOURCE_TARGET_2D (si_format info) (si_width info) (si_height info) 1
                          (ac_gpu s) of (ret, rid, g) \<Rightarrow>
                let s1 = s\<lparr>ac_gpu := g\<rparr>; undo = on_accel_gpu (\<lambda>g. snd (deallocateResource e rid g))
                in if ret \<noteq> kIOReturnSuccess then (ret, s1)
                   else if \<not> ac_mem e s1 sizeof_AccelSurface then (kIOReturnNoMemory, undo s1)
                   else let sid = ac_next_surface_id s1 + 1; s2 = s1\<lparr>ac_next_surface_id := sid\<rparr>
                        in case accel_allocateSurfaceMemory e info s2 of
                             None \<Rightarrow> (kIOReturnNoMemory, undo s2)
                           | Some d \<Rightarrow>
                               let x = \<lparr>su_surface_id = sid, su_gpu_resource_id = rid, su_info = info\<lparr>si_surface_id := sid\<rparr>,
                                        su_backing_memory = Some d, su_is_render_target = False\<rparr>
                               in case poolAddSurface e x s2 of
                                    None \<Rightarrow> (kIOReturnNoMemory, undo s2)
                                  | Some s3 \<Rightarrow>
                                      let s4 = snd (contextBindSurface e ci sid (ac_retain d (ac_blocks 1 s3)))
                                      in (kIOReturnSuccess, s4\<lparr>ac_memory_used := ac_memory_used s4
                                            + ucast (accel_calculateSurfaceSize info)\<rparr>))"

definition accel_createSurfaceInternal :: "device_env \<Rightarrow> u32 \<Rightarrow> VM3DSurfaceInfo \<Rightarrow> accel \<Rightarrow> io_return \<times> u32 \<times> accel" where
  "accel_createSurfaceInternal e cid info s =
     (case accel_findContext cid s of
        None \<Rightarrow> (kIOReturnBadArgument, si_surface_id info, s)
      | Some ci \<Rightarrow>
          if \<not> ac_mem e s sizeof_AccelSurface then (kIOReturnNoMemory, si_surface_id info, s)
          else let sid = ac_next_surface_id s + 1; s1 = s\<lparr>ac_next_surface_id := sid\<rparr>
               in case bmd_alloc e (tr_tick (g_tr (ac_gpu s1))) (unat (si_width info * si_height info * si_depth info * 4)) of
                    None \<Rightarrow> (kIOReturnNoMemory, sid, s1)
                  | Some d \<Rightarrow>
                      let x = \<lparr>su_surface_id = sid, su_gpu_resource_id = 0, su_info = info\<lparr>si_surface_id := sid\<rparr>,
                               su_backing_memory = Some d, su_is_render_target = False\<rparr>
                      in case poolAddSurface e x s1 of
                           None \<Rightarrow> (kIOReturnNoMemory, sid, s1)
                         | Some s2 \<Rightarrow> (kIOReturnSuccess, sid, snd (contextBindSurface e ci sid (ac_retain d (ac_blocks 1 s2)))))"

definition drop_surface :: "nat \<Rightarrow> accel \<Rightarrow> accel" where
  "drop_surface i s = ac_blocks (- 1) (poolRemoveSurface i (ac_release (su_backing_memory (surface_at i s)) s))"

definition accel_destroySurfaceInternal :: "device_env \<Rightarrow> u32 \<Rightarrow> u32 \<Rightarrow> accel \<Rightarrow> io_return \<times> accel" where
  "accel_destroySurfaceInternal e cid sid s =
     (case accel_findSurface sid s of
        None \<Rightarrow> (kIOReturnBadArgument, s)
      | Some i \<Rightarrow>
          let s1 = (case accel_findContext cid s of None \<Rightarrow> s | Some ci \<Rightarrow> contextUnbindSurface ci sid s)
          in (kIOReturnSuccess, drop_surface i s1))"

text \<open>The GPU resource of the surface is only mentioned in the log; it is not released.\<close>

definition accel_destroy3DSurface :: "device_env \<Rightarrow> u32 \<Rightarrow> u32 \<Rightarrow> accel \<Rightarrow> io_return \<times> accel" where
  "accel_destroy3DSurface e cid sid s =
     (case accel_findContext cid s of
        None \<Rightarrow> (kIOReturnBadArgument, s)
      | Some ci \<Rightarrow>
          case accel_findSurface sid s of
            None \<Rightarrow> (kIOReturnBadArgument, s)
          | Some i \<Rightarrow> (kIOReturnSuccess, drop_surface i (contextUnbindSurface ci sid s)))"

text \<open>\<open>target_info\<close>: the description of one attachment of a framebuffer.\<close>

definition target_info :: "u32 \<Rightarrow> u32 \<Rightarrow> u32 \<Rightarrow> VM3DSurfaceInfo" where
  "target_info w h fmt = \<lparr>si_surface_id = 0, si_width = w, si_height = h, si_depth = 1, si_format = fmt\<rparr>"

definition accel_createFramebuffer ::
  "device_env \<Rightarrow> u32 \<Rightarrow> u32 \<Rightarrow> u32 \<Rightarrow> u32 \<Rightarrow> u32 \<Rightarrow> accel \<Rightarrow> io_return \<times> u32 option \<times> accel" where
  "accel_createFramebuffer e cid w h color_format depth_format s =
     (if accel_findContext cid s = None then (kIOReturnBadArgument, None, s)
      else if w = 0 \<or> h = 0 \<or> w > 8192 \<or> h > 8192 then (kIOReturnBadArgument, None, s)
      else case (if color_format \<noteq> 0 then accel_createSurfaceInternal e cid (target_info w h color_format) s
                 else (kIOReturnSuccess, 0, s)) of (color_result, color_id, s1) \<Rightarrow>
        if color_result \<noteq> kIOReturnSuccess then (color_result, None, s1)
        else case (if depth_format \<noteq> 0 then accel_createSurfaceInternal e cid (target_info w h depth_format) s1
                   else (kIOReturnSuccess, 0, s1)) of (depth_result, depth_id, s2) \<Rightarrow>
          if depth_result \<noteq> kIOReturnSuccess
          then (depth_result, None, if color_id \<noteq> 0 then snd (accel_destroySurfaceInternal e cid color_id s2) else s2)
          else (kIOReturnSuccess, Some (push_bit 16 color_id OR depth_id), s2))"

section \<open>Stop\<close>

fun stop_contexts :: "device_env \<Rightarrow> nat list \<Rightarrow> accel \<Rightarrow> accel" where
  "stop_contexts e [] s = s"
| "stop_contexts e (i # is) s =
     stop_contexts e is (case fst (ac_contexts s) ! i of
        None \<Rightarrow> s
      | Some c \<Rightarrow> snd (destroyContextInternal e (cx_context_id c) s))"

definition stop_surface :: "AccelSurface option \<Rightarrow> accel \<Rightarrow> accel" where
  "stop_surface x s = (case x of None \<Rightarrow> s | Some y \<Rightarrow> ac_blocks (- 1) (ac_release (su_backing_memory y) s))"

definition accel_stop :: "device_env \<Rightarrow> accel \<Rightarrow> accel" where
  "accel_stop e s =
     (let s1 = stop_contexts e [0..<length (fst (ac_contexts s))] s;
          slots = fst (ac_surfaces s1);
          s2 = fold stop_surface slots s1
      in s2\<lparr>ac_surfaces := (replicate (length slots) None, 0)\<rparr>)"

section \<open>Capabilities and statistics\<close>

definition getMaxTextureSize :: "accel \<Rightarrow> u32" where
  "getMaxTextureSize s = (if ac_has_gpu s \<and> supports3D (ac_gpu s) then 8192 else 4096)"

definition getMaxRenderTargets :: "accel \<Rightarrow> u32" where
  "getMaxRenderTargets s = (if ac_has_gpu s \<and> supports3D (ac_gpu s) then 8 else 4)"

definition resetStatistics :: "accel \<Rightarrow> accel" where
  "resetStatistics s = s\<lparr>ac_draw_calls := 0, ac_triangles_rendered := 0\<rparr>"

definition synchronizeAccelerator :: "device_env \<Rightarrow> accel \<Rightarrow> io_return \<times> accel" where
  "synchronizeAccelerator e s =
     (if ac_has_gpu s \<and> \<not> m_is_mock_device (ac_gpu s)
      then case flushCommands e (ac_gpu s) of (r1, g1) \<Rightarrow>
             if r1 \<noteq> kIOReturnSuccess then (r1, s\<lparr>ac_gpu := g1\<rparr>)
             else case waitForIdle e g1 of (r2, g2) \<Rightarrow>
               (if r2 \<noteq> kIOReturnSuccess then r2 else kIOReturnSuccess, s\<lparr>ac_gpu := g2\<rparr>)
      else (kIOReturnSuccess, s))"

section \<open>Presenting a surface\<close>

text \<open>
  The copy to video memory: the 32-bit offset of the surface on the screen, and the \<^verbatim>\<open>bcopy\<close> calls as triples of source
  offset, destination offset and length. Source and destination pointers are 64 bits wide, so the offsets do not wrap.
\<close>

definition present_offset :: "(u32 \<times> u32) option \<Rightarrow> VM3DSurfaceInfo \<Rightarrow> u32" where
  "present_offset device info =
     (case device of
        None \<Rightarrow> 0
      | Some (current_width, current_height) \<Rightarrow>
          if si_width info < current_width \<or> si_height info < current_height
          then let x_offset = (current_width - si_width info) div 2;
                   y_offset = (current_height - si_height info) div 2
               in (y_offset * current_width + x_offset) * 4
          else 0)"

definition present_copies :: "(u32 \<times> u32) option \<Rightarrow> VM3DSurfaceInfo \<Rightarrow> (nat \<times> nat \<times> nat) list" where
  "present_copies device info =
     (let vram_offset = unat (present_offset device info);
          bytes_per_row = si_width info * 4;
          vram_stride = (case device of None \<Rightarrow> bytes_per_row | Some (w, _) \<Rightarrow> w * 4)
      in if bytes_per_row = vram_stride \<or> device = None
         then [(0, vram_offset, unat (accel_calculateSurfaceSize info))]
         else map (\<lambda>row. (row * unat bytes_per_row, vram_offset + row * unat vram_stride, unat bytes_per_row))
                [0..<unat (si_height info)])"

text \<open>A copy that leaves one of the two buffers reads or writes foreign memory: \<open>None\<close>.\<close>

fun run_copies :: "bytes \<Rightarrow> (nat \<times> nat \<times> nat) list \<Rightarrow> bytes \<Rightarrow> bytes option" where
  "run_copies src [] dst = Some dst"
| "run_copies src ((so, do, n) # cs) dst =
     (if so + n \<le> length src \<and> do + n \<le> length dst
      then run_copies src cs (take do dst @ take n (drop so src) @ drop (do + n) dst)
      else None)"

definition present_vram :: "accel \<Rightarrow> AccelSurface \<Rightarrow> io_return \<Rightarrow> io_return \<times> accel" where
  "present_vram s x presentResult =
     (case su_backing_memory x of
        None \<Rightarrow> (presentResult, s)
      | Some d \<Rightarrow>
          if \<not> ac_framebuffer s then (presentResult, s)
          else case ac_vram s of
            No_range \<Rightarrow> (kIOReturnError, s)
          | Unmappable \<Rightarrow> (kIOReturnError, s)
          | Mapped vram \<Rightarrow>
              case md_map d of
                None \<Rightarrow> (presentResult, s)
              | Some src \<Rightarrow>
                  if present_offset (ac_device s) (su_info x) + accel_calculateSurfaceSize (su_info x) \<le> word_of_nat (length vram)
                  then case run_copies src (present_copies (ac_device s) (su_info x)) vram of
                         None \<Rightarrow> (Kernel_panic, s)
                       | Some vram' \<Rightarrow> (kIOReturnSuccess, s\<lparr>ac_vram := Mapped vram'\<rparr>)
                  else (kIOReturnNoSpace, s))"

text \<open>
  The command of the third method. The header is on the stack and its last four bytes are not assigned (\<open>junk\<close>); the body is
  resource, scanout, rectangle.
\<close>

definition present_cmd :: "bytes \<Rightarrow> u32 \<Rightarrow> AccelSurface \<Rightarrow> bytes" where
  "present_cmd junk ctx x =
     le32 (ctrl_code VIRTIO_GPU_CMD_SET_SCANOUT) @ le32 0 @ le64 0 @ le32 ctx @ buf_read 4 junk
     @ le32 (su_gpu_resource_id x) @ le32 0 @ le32 0 @ le32 0 @ le32 (si_width (su_info x)) @ le32 (si_height (su_info x))"

definition present_execute :: "device_env \<Rightarrow> bytes \<Rightarrow> AccelContext \<Rightarrow> AccelSurface \<Rightarrow> io_return \<Rightarrow> accel \<Rightarrow> io_return \<times> accel" where
  "present_execute e junk c x presentResult s =
     (if presentResult \<noteq> kIOReturnSuccess \<and> ac_has_gpu s \<and> cx_gpu_context_id c \<noteq> 0
      then case bmd_alloc e (tr_tick (g_tr (ac_gpu s))) 128 of
             None \<Rightarrow> (presentResult, s)
           | Some d \<Rightarrow>
               case executeCommands e (cx_gpu_context_id c)
                      (Some (d\<lparr>md_map := map_option (overwrite (present_cmd junk (cx_gpu_context_id c) x)) (md_map d)\<rparr>))
                      (ac_gpu s) of (ret, g) \<Rightarrow> (ret, s\<lparr>ac_gpu := g\<rparr>)
      else (presentResult, s))"

definition accel_present3DSurface :: "device_env \<Rightarrow> bytes \<Rightarrow> u32 \<Rightarrow> u32 \<Rightarrow> accel \<Rightarrow> io_return \<times> accel" where
  "accel_present3DSurface e junk cid sid s =
     (case accel_findContext cid s of
        None \<Rightarrow> (kIOReturnNotFound, s)
      | Some ci \<Rightarrow>
          case accel_findSurface sid s of
            None \<Rightarrow> (kIOReturnNotFound, s)
          | Some si \<Rightarrow>
              let x = surface_at si s; i = su_info x
              in case (if ac_has_gpu s \<and> supports3D (ac_gpu s)
                       then updateDisplay e 0 (su_gpu_resource_id x) 0 0 (si_width i) (si_height i) (ac_gpu s)
                       else (kIOReturnUnsupported, ac_gpu s)) of (hw, g) \<Rightarrow>
                let s1 = s\<lparr>ac_gpu := g\<rparr>; tried = ac_has_gpu s \<and> supports3D (ac_gpu s)
                in if tried \<and> hw = kIOReturnSuccess then (kIOReturnSuccess, s1)
                   else case present_vram s1 x (if tried then hw else kIOReturnSuccess) of (r2, s2) \<Rightarrow>
                     if r2 = Kernel_panic then (Kernel_panic, s2)
                     else case present_execute e junk (context_at ci s2) x r2 s2 of (r3, s3) \<Rightarrow>
                       (kIOReturnSuccess,
                        if r3 \<noteq> kIOReturnSuccess
                        then (put_surface si (x\<lparr>su_is_render_target := True\<rparr>) s3)\<lparr>ac_draw_calls := ac_draw_calls s3 + 1\<rparr>
                        else s3))"

section \<open>The user client\<close>

record accel_client =
  ucl_task :: nat
  ucl_context_id :: u32
  ucl_has_context :: bool

definition accel_client_init :: "nat \<Rightarrow> accel_client" where
  "accel_client_init task = \<lparr>ucl_task = task, ucl_context_id = 0, ucl_has_context = False\<rparr>"

definition accel_clientClose :: "device_env \<Rightarrow> accel_client \<Rightarrow> accel \<Rightarrow> io_return \<times> accel_client \<times> accel" where
  "accel_clientClose e u s =
     (if ucl_has_context u
      then (kIOReturnSuccess, u\<lparr>ucl_has_context := False, ucl_context_id := 0\<rparr>,
            snd (accel_destroy3DContext e (ucl_context_id u) s))
      else (kIOReturnSuccess, u, s))"

text \<open>
  The arguments of an external method. A large input arrives as a descriptor instead of inline.
  \<open>out_count\<close> and \<open>out_size\<close>: the room the caller offers.
\<close>

record ext_args =
  xa_scalars :: "u64 list"
  xa_struct :: "VM3DSurfaceInfo option"
  xa_struct_size :: nat
  xa_desc :: "memdesc option"
  xa_out_count :: nat
  xa_out_size :: nat

record ext_dispatch_entry =
  xd_scalar_in :: nat
  xd_struct_in :: nat
  xd_scalar_out :: nat
  xd_struct_out :: nat

text \<open>\<^verbatim>\<open>sMethods\<close>: the first seven selectors; the others of the array have no function and expect nothing.\<close>

definition sMethods :: "ext_dispatch_entry list" where
  "sMethods = map (\<lambda>(a, b, c, d). \<lparr>xd_scalar_in = a, xd_struct_in = b, xd_scalar_out = c, xd_struct_out = d\<rparr>)
     [(0, 0, 1, 0), (1, 0, 0, 0), (1, 40, 1, 0), (2, 0, 0, 0), (1, 0, 0, 0), (2, 0, 0, 0), (0, 0, 0, 256),
      (0, 0, 0, 0), (0, 0, 0, 0), (0, 0, 0, 0), (0, 0, 0, 0), (0, 0, 0, 0), (0, 0, 0, 0), (0, 0, 0, 0), (0, 0, 0, 0)]"

definition sCreate3DContext :: "device_env \<Rightarrow> accel_client \<Rightarrow> accel \<Rightarrow> io_return \<times> u64 list \<times> accel_client \<times> accel" where
  "sCreate3DContext e u s =
     (if ucl_has_context u then (kIOReturnExclusiveAccess, [], u, s)
      else case accel_create3DContext e (ucl_task u) s of
        (ret, Some cid, s') \<Rightarrow> (ret, [ucast cid], u\<lparr>ucl_context_id := cid, ucl_has_context := True\<rparr>, s')
      | (ret, None, s') \<Rightarrow> (ret, [], u, s'))"

definition sDestroy3DContext :: "device_env \<Rightarrow> u32 \<Rightarrow> accel_client \<Rightarrow> accel \<Rightarrow> io_return \<times> u64 list \<times> accel_client \<times> accel" where
  "sDestroy3DContext e cid u s =
     (if \<not> ucl_has_context u \<or> cid \<noteq> ucl_context_id u then (kIOReturnBadArgument, [], u, s)
      else case accel_destroy3DContext e cid s of (ret, s') \<Rightarrow>
        (ret, [], if ret = kIOReturnSuccess then u\<lparr>ucl_has_context := False, ucl_context_id := 0\<rparr> else u, s'))"

text \<open>The id returned is the one the caller passed in.\<close>

definition sCreate3DSurface ::
  "device_env \<Rightarrow> u32 \<Rightarrow> VM3DSurfaceInfo option \<Rightarrow> accel_client \<Rightarrow> accel \<Rightarrow> io_return \<times> u64 list \<times> accel_client \<times> accel" where
  "sCreate3DSurface e cid info u s =
     (if \<not> ucl_has_context u \<or> cid \<noteq> ucl_context_id u then (kIOReturnBadArgument, [], u, s)
      else case accel_create3DSurface e cid info s of (ret, s') \<Rightarrow>
        (case info of
           None \<Rightarrow> (Kernel_panic, [], u, s')
         | Some i \<Rightarrow> (ret, if ret = kIOReturnSuccess then [ucast (si_surface_id i)] else [], u, s')))"

definition sDestroy3DSurface :: "u32 \<Rightarrow> u32 \<Rightarrow> accel_client \<Rightarrow> accel \<Rightarrow> io_return \<times> u64 list \<times> accel_client \<times> accel" where
  "sDestroy3DSurface cid sid u s =
     (if \<not> ucl_has_context u \<or> cid \<noteq> ucl_context_id u then (kIOReturnBadArgument, [], u, s)
      else (kIOReturnSuccess, [], u, s))"

definition sSubmit3DCommands ::
  "device_env \<Rightarrow> u32 \<Rightarrow> memdesc option \<Rightarrow> accel_client \<Rightarrow> accel \<Rightarrow> io_return \<times> u64 list \<times> accel_client \<times> accel" where
  "sSubmit3DCommands e cid commands u s =
     (if \<not> ucl_has_context u \<or> cid \<noteq> ucl_context_id u then (kIOReturnBadArgument, [], u, s)
      else if commands = None then (kIOReturnBadArgument, [], u, s)
      else case accel_submit3DCommands e cid commands s of (ret, s') \<Rightarrow> (ret, [], u, s'))"

definition sPresent3DSurface ::
  "device_env \<Rightarrow> bytes \<Rightarrow> u32 \<Rightarrow> u32 \<Rightarrow> accel_client \<Rightarrow> accel \<Rightarrow> io_return \<times> u64 list \<times> accel_client \<times> accel" where
  "sPresent3DSurface e junk cid sid u s =
     (if \<not> ucl_has_context u \<or> cid \<noteq> ucl_context_id u then (kIOReturnBadArgument, [], u, s)
      else case accel_present3DSurface e junk cid sid s of (ret, s') \<Rightarrow> (ret, [], u, s'))"

text \<open>The structure \<^verbatim>\<open>sGetCapabilities\<close> returns, as words.\<close>

definition sGetCapabilities :: "accel \<Rightarrow> u32 list" where
  "sGetCapabilities s = [getMaxTextureSize s, getMaxRenderTargets s, 1, 1, 1, 256 * 1024 * 1024] @ replicate 58 0"

text \<open>
  \<^verbatim>\<open>externalMethod\<close>. \<open>check\<close> is the argument check that \<^verbatim>\<open>IOUserClient::externalMethod\<close> makes against the dispatch entry before it
  calls the handler, and \<open>no_function\<close> its answer for an entry without one; both belong to the kernel.
\<close>

definition accel_externalMethod ::
  "(ext_dispatch_entry \<Rightarrow> ext_args \<Rightarrow> bool) \<Rightarrow> io_return \<Rightarrow> device_env \<Rightarrow> bytes \<Rightarrow> u32 \<Rightarrow> ext_args \<Rightarrow> accel_client \<Rightarrow> accel
     \<Rightarrow> io_return \<times> u64 list \<times> accel_client \<times> accel" where
  "accel_externalMethod check no_function e junk selector a u s =
     (if selector \<ge> 15 then (kIOReturnBadArgument, [], u, s)
      else if \<not> check (sMethods ! unat selector) a then (kIOReturnBadArgument, [], u, s)
      else let arg = (\<lambda>i. ucast (xa_scalars a ! i) :: u32)
           in if selector = 0 then sCreate3DContext e u s
              else if selector = 1 then sDestroy3DContext e (arg 0) u s
              else if selector = 2 then sCreate3DSurface e (arg 0) (xa_struct a) u s
              else if selector = 3 then sDestroy3DSurface (arg 0) (arg 1) u s
              else if selector = 4 then sSubmit3DCommands e (arg 0) (xa_desc a) u s
              else if selector = 5 then sPresent3DSurface e junk (arg 0) (arg 1) u s
              else if selector = 6 then (kIOReturnSuccess, [], u, s)
              else (no_function, [], u, s))"


section \<open>Both tables are object tables\<close>

interpretation context_table: object_table cx_context_id "pool_look cx_context_id" "pool_add (limited mem) kInitialContextCapacity"
  "pool_delete cx_context_id" "pool_sound cx_context_id" for mem
proof unfold_locales
  show "pool_sound cx_context_id t' \<and> pool_look cx_context_id t' = (pool_look cx_context_id t)(cx_context_id v \<mapsto> v)"
    if "pool_sound cx_context_id t" "pool_look cx_context_id t (cx_context_id v) = None"
      "pool_add (limited mem) kInitialContextCapacity v t = Some t'" for t v t'
    using pool_sound_add [OF that(3,1) _ that(2)] by (simp add: limited_def)
qed (simp_all add: pool_sound_delete pool_look_key)

interpretation surface_table: object_table su_surface_id "pool_look su_surface_id" "pool_add (limited mem) kInitialSurfaceCapacity"
  "pool_delete su_surface_id" "pool_sound su_surface_id" for mem
proof unfold_locales
  show "pool_sound su_surface_id t' \<and> pool_look su_surface_id t' = (pool_look su_surface_id t)(su_surface_id v \<mapsto> v)"
    if "pool_sound su_surface_id t" "pool_look su_surface_id t (su_surface_id v) = None"
      "pool_add (limited mem) kInitialSurfaceCapacity v t = Some t'" for t v t'
    using pool_sound_add [OF that(3,1) _ that(2)] by (simp add: limited_def)
qed (simp_all add: pool_sound_delete pool_look_key)

section \<open>The invariant\<close>

abbreviation live_contexts :: "accel \<Rightarrow> AccelContext list" where "live_contexts s \<equiv> occupied (fst (ac_contexts s))"
abbreviation live_surfaces :: "accel \<Rightarrow> AccelSurface list" where "live_surfaces s \<equiv> occupied (fst (ac_surfaces s))"

text \<open>The array of bound surfaces holds distinct ids, within its capacity; the capacity can be doubled.\<close>

definition bound_ok :: "AccelContext \<Rightarrow> bool" where
  "bound_ok c \<longleftrightarrow> distinct (cx_bound_surface_ids c) \<and> length (cx_bound_surface_ids c) \<le> unat (cx_bound_surface_capacity c)
     \<and> unat (cx_bound_surface_capacity c) < 2 ^ 31 \<and> cx_command_buffer c = None"

definition context_blocks :: "AccelContext list \<Rightarrow> nat" where
  "context_blocks cs = length cs + length (filter (\<lambda>c. cx_bound_surface_capacity c \<noteq> 0) cs)"

definition surface_refs :: "AccelSurface list \<Rightarrow> nat \<Rightarrow> nat" where
  "surface_refs xs m = length (filter (\<lambda>x. map_option md_id (su_backing_memory x) = Some m) xs)"

definition accel_inv :: "nat \<Rightarrow> accel \<Rightarrow> bool" where
  "accel_inv b s \<longleftrightarrow>
     pool_sound cx_context_id (ac_contexts s) \<and> pool_sound su_surface_id (ac_surfaces s)
   \<and> (\<forall>c \<in> set (live_contexts s). unat (cx_context_id c) \<le> unat (ac_next_context_id s) \<and> bound_ok c)
   \<and> (\<forall>x \<in> set (live_surfaces s). unat (su_surface_id x) \<le> unat (ac_next_surface_id s))
   \<and> unat (ac_next_context_id s) \<le> b \<and> unat (ac_next_surface_id s) \<le> b
   \<and> ac_heap s = int (context_blocks (live_contexts s)) + int (length (live_surfaces s))
   \<and> (\<forall>m. ac_refs s m = int (surface_refs (live_surfaces s) m))"

text \<open>Single kernel blocks stay below eight gigabytes.\<close>

definition heap_bounded :: "device_env \<Rightarrow> bool" where
  "heap_bounded e \<longleftrightarrow> (\<forall>t n. n \<ge> 2 ^ 33 \<longrightarrow> kmalloc e t n = None)"

lemma heap_bounded_mem: "heap_bounded e \<Longrightarrow> \<forall>b \<ge> 2 ^ 33. \<not> ac_mem e s b"
  by (simp add: heap_bounded_def ac_mem_def)

lemma limited_ac_mem: "heap_bounded e \<Longrightarrow> limited (ac_mem e s) = ac_mem e s"
  using heap_bounded_mem [of e s] by (auto simp: limited_def fun_eq_iff not_le [symmetric])

lemma context_blocks_simps [simp]:
  "context_blocks [] = 0"
  "context_blocks (c # cs) = context_blocks cs + (if cx_bound_surface_capacity c \<noteq> 0 then 2 else 1)"
  "context_blocks (cs @ ds) = context_blocks cs + context_blocks ds"
  by (simp_all add: context_blocks_def)

lemma surface_refs_simps [simp]:
  "surface_refs [] m = 0"
  "surface_refs (x # xs) m = surface_refs xs m + (if map_option md_id (su_backing_memory x) = Some m then 1 else 0)"
  "surface_refs (xs @ ys) m = surface_refs xs m + surface_refs ys m"
  by (simp_all add: surface_refs_def)

lemma accel_inv_frame [simp]:
  "accel_inv b (s\<lparr>ac_gpu := g\<rparr>) = accel_inv b s" "accel_inv b (s\<lparr>ac_vram := v\<rparr>) = accel_inv b s"
  "accel_inv b (s\<lparr>ac_draw_calls := n\<rparr>) = accel_inv b s" "accel_inv b (s\<lparr>ac_memory_used := k\<rparr>) = accel_inv b s"
  "accel_inv b (s\<lparr>ac_commands_submitted := n\<rparr>) = accel_inv b s" "accel_inv b (s\<lparr>ac_triangles_rendered := n\<rparr>) = accel_inv b s"
  "accel_inv b (s\<lparr>ac_device := dd\<rparr>) = accel_inv b s" "accel_inv b (s\<lparr>ac_framebuffer := fb\<rparr>) = accel_inv b s"
  "accel_inv b (on_accel_gpu f s) = accel_inv b s"
  by (simp_all add: accel_inv_def on_accel_gpu_def)

lemma accel_inv_mono: "accel_inv b s \<Longrightarrow> b \<le> b' \<Longrightarrow> accel_inv b' s"
  by (auto simp: accel_inv_def)

lemma fresh_counter:
  assumes "unat (n :: u32) \<le> b" "b + 1 < 2 ^ 32"
  shows "unat (n + 1) = Suc (unat n)"
  using assms by (simp add: unat_word_ariths)

lemma inv_put_context:
  assumes "accel_inv b s" "i < length (fst (ac_contexts s))" "fst (ac_contexts s) ! i = Some c"
    and "cx_context_id c' = cx_context_id c" "bound_ok c'"
    and "n = int (if cx_bound_surface_capacity c' \<noteq> 0 then 1 else 0) - int (if cx_bound_surface_capacity c \<noteq> 0 then 1 else 0)"
  shows "accel_inv b (ac_blocks n (put_context i c' s))"
proof -
  have o: "live_contexts s = occupied (take i (fst (ac_contexts s))) @ c # occupied (drop (Suc i) (fst (ac_contexts s)))"
    "occupied ((fst (ac_contexts s))[i := Some c'])
       = occupied (take i (fst (ac_contexts s))) @ c' # occupied (drop (Suc i) (fst (ac_contexts s)))"
    using occupied_nth [OF assms(2)] occupied_update [OF assms(2), of "Some c'"] assms(3) by simp_all
  have "pool_sound cx_context_id ((fst (ac_contexts s))[i := Some c'], snd (ac_contexts s))"
    using pool_sound_put [OF _ assms(2-4)] assms(1) by (simp add: accel_inv_def)
  then show ?thesis using assms(1,4-6) by (auto simp: accel_inv_def put_context_def ac_blocks_def o)
qed

lemma findContext_Some:
  "accel_findContext cid s = Some i \<Longrightarrow> i < length (fst (ac_contexts s)) \<and> fst (ac_contexts s) ! i = Some (context_at i s)
     \<and> cx_context_id (context_at i s) = cid \<and> context_at i s \<in> set (live_contexts s)"
  using key_index_Some [of cx_context_id cid "fst (ac_contexts s)" i]
  by (auto simp: accel_findContext_def context_at_def set_occupied nth_mem) (metis nth_mem)

lemma findSurface_Some:
  "accel_findSurface sid s = Some i \<Longrightarrow> i < length (fst (ac_surfaces s)) \<and> fst (ac_surfaces s) ! i = Some (surface_at i s)
     \<and> su_surface_id (surface_at i s) = sid \<and> surface_at i s \<in> set (live_surfaces s)"
  using key_index_Some [of su_surface_id sid "fst (ac_surfaces s)" i]
  by (auto simp: accel_findSurface_def surface_at_def set_occupied nth_mem) (metis nth_mem)

lemma inv_bind:
  assumes "accel_inv b s" "heap_bounded e" "i < length (fst (ac_contexts s))" "fst (ac_contexts s) ! i = Some c"
  shows "accel_inv b (snd (contextBindSurface e i sid s))"
proof -
  have c: "context_at i s = c" using assms(4) by (simp add: context_at_def)
  have "c \<in> set (live_contexts s)" using assms(3,4) by (metis nth_mem set_occupied)
  then have ok: "bound_ok c" using assms(1) by (simp add: accel_inv_def)
  have big: "2 ^ 33 \<le> k \<Longrightarrow> \<not> ac_mem e s k" for k using heap_bounded_mem [OF assms(2)] by blast
  let ?ids = "cx_bound_surface_ids c" and ?cap = "cx_bound_surface_capacity c"
  let ?nc = "if ?cap \<noteq> 0 then ?cap * 2 else 8"
  show ?thesis
  proof (cases "sid \<in> set ?ids")
    case True
    then show ?thesis using assms(1) by (simp add: contextBindSurface_def c)
  next
    case new: False
    show ?thesis
    proof (cases "word_of_nat (length ?ids) = ?cap")
      case True
      have "unat (?cap * 2) = 2 * unat ?cap" using ok by (simp add: bound_ok_def unat_word_ariths)
      then have nc: "unat ?nc = (if ?cap \<noteq> 0 then 2 * unat ?cap else 8)" by simp
      have l: "length ?ids \<le> unat ?cap" "unat ?cap < 2 ^ 31" using ok by (auto simp: bound_ok_def)
      have pos: "?cap \<noteq> 0 \<Longrightarrow> unat ?cap > 0" by (simp add: unat_gt_0)
      show ?thesis
      proof (cases "ac_mem e s (unat ?nc * 4)")
        case m: True
        have "unat ?nc * 4 < 2 ^ 33" using big [of "unat ?nc * 4"] m by linarith
        moreover have "Suc (length ?ids) \<le> unat ?nc" using l(1) nc pos by (cases "?cap = 0") auto
        ultimately have "bound_ok (c\<lparr>cx_bound_surface_ids := ?ids @ [sid], cx_bound_surface_capacity := ?nc\<rparr>)"
          using ok new unfolding bound_ok_def by (simp del: if_split)
        moreover have "unat ?nc \<noteq> 0" using nc pos by (cases "?cap = 0") auto
        then have "?nc \<noteq> 0" by (intro notI) (simp only: unsigned_0 simp_thms)
        ultimately show ?thesis
          using m True new inv_put_context [OF assms(1,3,4), of "c\<lparr>cx_bound_surface_ids := ?ids @ [sid], cx_bound_surface_capacity := ?nc\<rparr>"
               "if ?cap \<noteq> 0 then 0 else 1"]
          by (cases "?cap = 0") (simp_all add: contextBindSurface_def c Let_def)
      qed (use assms(1) True new in \<open>simp add: contextBindSurface_def c Let_def\<close>)
    next
      case False
      then have "length ?ids \<noteq> unat ?cap" by auto
      then have "bound_ok (c\<lparr>cx_bound_surface_ids := ?ids @ [sid]\<rparr>)" using ok new by (auto simp: bound_ok_def)
      then show ?thesis
        using False new inv_put_context [OF assms(1,3,4), of "c\<lparr>cx_bound_surface_ids := ?ids @ [sid]\<rparr>" 0]
        by (simp add: contextBindSurface_def c Let_def ac_blocks_def)
    qed
  qed
qed

lemma unbind_first_at:
  "drop i all = xs \<Longrightarrow> sid \<in> set xs \<Longrightarrow> \<exists>j < length all. all ! j = sid \<and> unbind_first sid all i xs = butlast (all[j := last all])"
proof (induction xs arbitrary: i)
  case (Cons x xs)
  then have i: "i < length all" "all ! i = x" "drop (Suc i) all = xs"
    by (metis drop_eq_Nil list.distinct(1) not_le, metis Cons_nth_drop_Suc drop_eq_Nil list.inject list.distinct(1) not_le,
        metis Cons_nth_drop_Suc drop_eq_Nil list.inject list.distinct(1) not_le)
  then show ?case using Cons by auto
qed simp

lemma unbind_first_none: "sid \<notin> set xs \<Longrightarrow> unbind_first sid all i xs = all"
  by (induction xs arbitrary: i) auto

lemma unbind_result:
  assumes "distinct ids"
  shows "distinct (unbind_first sid ids 0 ids) \<and> set (unbind_first sid ids 0 ids) = set ids - {sid}
     \<and> length (unbind_first sid ids 0 ids) \<le> length ids"
proof (cases "sid \<in> set ids")
  case True
  obtain j where j: "j < length ids" "ids ! j = sid" "unbind_first sid ids 0 ids = butlast (ids[j := last ids])"
    using unbind_first_at [of 0 ids ids sid] True by auto
  define as bs where "as = take j ids" and "bs = drop (Suc j) ids"
  have split: "ids = as @ sid # bs" "length as = j" using j by (auto simp: as_def bs_def id_take_nth_drop)
  show ?thesis
  proof (cases bs rule: rev_cases)
    case Nil
    then show ?thesis using assms j(3) split by (auto simp: butlast_append)
  next
    case (snoc cs l)
    moreover have "(as @ sid # cs @ [l])[j := l] = as @ l # cs @ [l]"
      using list_update_length [of as sid "cs @ [l]" l] split(2) by simp
    ultimately have "unbind_first sid ids 0 ids = as @ l # cs" using j(3) split by (simp add: butlast_append)
    then show ?thesis using assms split snoc by auto
  qed
qed (use assms unbind_first_none in simp)

lemma inv_unbind:
  assumes "accel_inv b s" "accel_findContext cid s = Some i"
  shows "accel_inv b (contextUnbindSurface i sid s)"
proof -
  note f = findContext_Some [OF assms(2)]
  then have ok: "bound_ok (context_at i s)" using assms(1) by (simp add: accel_inv_def)
  let ?c = "context_at i s"
  have "bound_ok (?c\<lparr>cx_bound_surface_ids := unbind_first sid (cx_bound_surface_ids ?c) 0 (cx_bound_surface_ids ?c)\<rparr>)"
    using ok unbind_result [of "cx_bound_surface_ids ?c" sid] by (auto simp: bound_ok_def)
  then show ?thesis
    using inv_put_context [OF assms(1), of i ?c _ 0] f by (simp add: contextUnbindSurface_def Let_def ac_blocks_def)
qed

text \<open>Adding and removing objects.\<close>

lemma inv_add_context:
  assumes "accel_inv b s" "heap_bounded e" "b + 1 < 2 ^ 32" "cx_context_id c = ac_next_context_id s + 1" "bound_ok c"
    and "cx_bound_surface_capacity c = 0"
    and "poolAddContext e c (s\<lparr>ac_next_context_id := ac_next_context_id s + 1\<rparr>) = Some t"
  shows "accel_inv (b + 1) (ac_blocks 1 t)" "pool_look cx_context_id (ac_contexts t)
     = (pool_look cx_context_id (ac_contexts s))(cx_context_id c \<mapsto> c)"
    "pool_look cx_context_id (ac_contexts s) (cx_context_id c) = None"
proof -
  let ?s = "s\<lparr>ac_next_context_id := ac_next_context_id s + 1\<rparr>"
  obtain p where p: "pool_add (ac_mem e ?s) 16 c (ac_contexts s) = Some p" "t = ?s\<lparr>ac_contexts := p\<rparr>"
    using assms(7) by (auto simp: poolAddContext_def)
  have up: "unat (ac_next_context_id s + 1) = Suc (unat (ac_next_context_id s))" "unat (ac_next_context_id s) \<le> b"
    using assms(1,3) by (auto simp: accel_inv_def intro!: fresh_counter [of _ b])
  have snd: "pool_sound cx_context_id (ac_contexts s)" using assms(1) by (simp add: accel_inv_def)
  have "cx_context_id c \<notin> cx_context_id ` set (live_contexts s)"
    using assms(1,4) up(1) by (fastforce simp: accel_inv_def)
  then show new: "pool_look cx_context_id (ac_contexts s) (cx_context_id c) = None" by (simp add: pool_look_None)
  have "pool_sound cx_context_id p \<and> pool_look cx_context_id p = (pool_look cx_context_id (ac_contexts s))(cx_context_id c \<mapsto> c)"
    using context_table.add_law [OF snd new, of "ac_mem e ?s" p] p(1) by (simp add: limited_ac_mem [OF assms(2)])
  moreover obtain as bs where "live_contexts s = as @ bs" "occupied (fst p) = as @ c # bs"
    using pool_add_split [of "ac_mem e ?s" 16 c "fst (ac_contexts s)" "snd (ac_contexts s)" "fst p" "snd p" cx_context_id] p(1) snd
      heap_bounded_mem [OF assms(2)] by auto
  ultimately show "accel_inv (b + 1) (ac_blocks 1 t)" "pool_look cx_context_id (ac_contexts t)
     = (pool_look cx_context_id (ac_contexts s))(cx_context_id c \<mapsto> c)"
    using assms(1,4-6) up by (auto simp: accel_inv_def ac_blocks_def p(2) le_SucI)
qed

lemma inv_add_surface:
  assumes "accel_inv b s" "heap_bounded e" "b + 1 < 2 ^ 32" "su_surface_id x = ac_next_surface_id s + 1"
    and "su_backing_memory x = Some d"
    and "poolAddSurface e x (s\<lparr>ac_next_surface_id := ac_next_surface_id s + 1\<rparr>) = Some t"
  shows "accel_inv (b + 1) (ac_retain d (ac_blocks 1 t))"
    "pool_look su_surface_id (ac_surfaces t) = (pool_look su_surface_id (ac_surfaces s))(su_surface_id x \<mapsto> x)"
    "pool_look su_surface_id (ac_surfaces s) (su_surface_id x) = None" "ac_contexts t = ac_contexts s"
proof -
  let ?s = "s\<lparr>ac_next_surface_id := ac_next_surface_id s + 1\<rparr>"
  obtain p where p: "pool_add (ac_mem e ?s) 64 x (ac_surfaces s) = Some p" "t = ?s\<lparr>ac_surfaces := p\<rparr>"
    using assms(6) by (auto simp: poolAddSurface_def)
  have up: "unat (ac_next_surface_id s + 1) = Suc (unat (ac_next_surface_id s))" "unat (ac_next_surface_id s) \<le> b"
    using assms(1,3) by (auto simp: accel_inv_def intro!: fresh_counter [of _ b])
  have snd: "pool_sound su_surface_id (ac_surfaces s)" using assms(1) by (simp add: accel_inv_def)
  have "su_surface_id x \<notin> su_surface_id ` set (live_surfaces s)"
    using assms(1,4) up(1) by (fastforce simp: accel_inv_def)
  then show new: "pool_look su_surface_id (ac_surfaces s) (su_surface_id x) = None" by (simp add: pool_look_None)
  have "pool_sound su_surface_id p \<and> pool_look su_surface_id p = (pool_look su_surface_id (ac_surfaces s))(su_surface_id x \<mapsto> x)"
    using surface_table.add_law [OF snd new, of "ac_mem e ?s" p] p(1) by (simp add: limited_ac_mem [OF assms(2)])
  moreover obtain as bs where "live_surfaces s = as @ bs" "occupied (fst p) = as @ x # bs"
    using pool_add_split [of "ac_mem e ?s" 64 x "fst (ac_surfaces s)" "snd (ac_surfaces s)" "fst p" "snd p" su_surface_id] p(1) snd
      heap_bounded_mem [OF assms(2)] by auto
  ultimately show "accel_inv (b + 1) (ac_retain d (ac_blocks 1 t))"
    "pool_look su_surface_id (ac_surfaces t) = (pool_look su_surface_id (ac_surfaces s))(su_surface_id x \<mapsto> x)"
    "ac_contexts t = ac_contexts s"
    using assms(1,4,5) up by (auto simp: accel_inv_def ac_blocks_def ac_retain_def p(2) le_SucI)
qed

lemma inv_remove_context:
  assumes "accel_inv b s" "accel_findContext cid s = Some i"
  shows "accel_inv b (ac_blocks (- 1) (poolRemoveContext i (if cx_bound_surface_capacity (context_at i s) \<noteq> 0 then ac_blocks (- 1) s else s)))"
    "pool_look cx_context_id (ac_contexts (poolRemoveContext i s)) = (pool_look cx_context_id (ac_contexts s))(cid := None)"
proof -
  have snd: "pool_sound cx_context_id (ac_contexts s)" using assms(1) by (simp add: accel_inv_def)
  have d: "pool_delete cx_context_id cid (ac_contexts s) = pool_remove i (ac_contexts s)"
    using assms(2) by (simp add: pool_delete_def accel_findContext_def)
  have l: "pool_sound cx_context_id (pool_remove i (ac_contexts s))"
    "pool_look cx_context_id (pool_remove i (ac_contexts s)) = (pool_look cx_context_id (ac_contexts s))(cid := None)"
    using context_table.delete_law [OF snd, of cid] by (simp_all add: d)
  obtain as x bs where "live_contexts s = as @ x # bs" "occupied (fst (pool_remove i (ac_contexts s))) = as @ bs"
    "fst (ac_contexts s) ! i = Some x"
    using pool_remove_split [of cx_context_id cid "fst (ac_contexts s)" i "snd (ac_contexts s)" "fst (pool_remove i (ac_contexts s))"
        "snd (pool_remove i (ac_contexts s))"] assms(2) snd by (auto simp: accel_findContext_def)
  then show "accel_inv b (ac_blocks (- 1) (poolRemoveContext i (if cx_bound_surface_capacity (context_at i s) \<noteq> 0 then ac_blocks (- 1) s else s)))"
    "pool_look cx_context_id (ac_contexts (poolRemoveContext i s)) = (pool_look cx_context_id (ac_contexts s))(cid := None)"
    using assms(1) l by (auto simp: accel_inv_def ac_blocks_def poolRemoveContext_def context_at_def)
qed

lemma inv_drop_surface:
  assumes "accel_inv b s" "accel_findSurface sid s = Some i"
  shows "accel_inv b (drop_surface i s)"
    "pool_look su_surface_id (ac_surfaces (drop_surface i s)) = (pool_look su_surface_id (ac_surfaces s))(sid := None)"
proof -
  have snd: "pool_sound su_surface_id (ac_surfaces s)" using assms(1) by (simp add: accel_inv_def)
  have d: "pool_delete su_surface_id sid (ac_surfaces s) = pool_remove i (ac_surfaces s)"
    using assms(2) by (simp add: pool_delete_def accel_findSurface_def)
  have l: "pool_sound su_surface_id (pool_remove i (ac_surfaces s))"
    "pool_look su_surface_id (pool_remove i (ac_surfaces s)) = (pool_look su_surface_id (ac_surfaces s))(sid := None)"
    using surface_table.delete_law [OF snd, of sid] by (simp_all add: d)
  obtain as x bs where "live_surfaces s = as @ x # bs" "occupied (fst (pool_remove i (ac_surfaces s))) = as @ bs"
    "fst (ac_surfaces s) ! i = Some x"
    using pool_remove_split [of su_surface_id sid "fst (ac_surfaces s)" i "snd (ac_surfaces s)" "fst (pool_remove i (ac_surfaces s))"
        "snd (pool_remove i (ac_surfaces s))"] assms(2) snd by (auto simp: accel_findSurface_def)
  then show "accel_inv b (drop_surface i s)"
    "pool_look su_surface_id (ac_surfaces (drop_surface i s)) = (pool_look su_surface_id (ac_surfaces s))(sid := None)"
    using assms(1) l
    by (auto simp: accel_inv_def ac_blocks_def poolRemoveSurface_def surface_at_def drop_surface_def ac_release_def split: option.splits)
qed

section \<open>Steps\<close>

text \<open>The calls that reach a started accelerator, and the changes others make to the driver object and the screen.\<close>

inductive accel_step :: "device_env \<Rightarrow> accel \<Rightarrow> accel \<Rightarrow> bool" for e where
  create_context: "accel_step e s (snd (snd (accel_create3DContext e task s)))"
| destroy_context: "accel_step e s (snd (accel_destroy3DContext e cid s))"
| create_surface: "accel_step e s (snd (accel_create3DSurface e cid info s))"
| destroy_surface: "accel_step e s (snd (accel_destroy3DSurface e cid sid s))"
| create_framebuffer: "accel_step e s (snd (snd (accel_createFramebuffer e cid w h cf df s)))"
| submit: "accel_step e s (snd (accel_submit3DCommands e cid cmds s))"
| present: "accel_step e s (snd (accel_present3DSurface e junk cid sid s))"
| synchronize: "accel_step e s (snd (synchronizeAccelerator e s))"
| reset_statistics: "accel_step e s (resetStatistics s)"
| others: "accel_step e s (s\<lparr>ac_gpu := g, ac_vram := v, ac_device := dd\<rparr>)"

lemma inv_next_context:
  assumes "accel_inv b s" "b + 1 < 2 ^ 32"
  shows "accel_inv (b + 1) (s\<lparr>ac_next_context_id := ac_next_context_id s + 1\<rparr>)"
proof -
  have "unat (ac_next_context_id s + 1) = Suc (unat (ac_next_context_id s))"
    using assms by (auto simp: accel_inv_def intro!: fresh_counter [of _ b])
  then show ?thesis using assms(1) by (auto simp: accel_inv_def le_SucI)
qed

lemma inv_next_surface:
  assumes "accel_inv b s" "b + 1 < 2 ^ 32"
  shows "accel_inv (b + 1) (s\<lparr>ac_next_surface_id := ac_next_surface_id s + 1\<rparr>)"
proof -
  have "unat (ac_next_surface_id s + 1) = Suc (unat (ac_next_surface_id s))"
    using assms by (auto simp: accel_inv_def intro!: fresh_counter [of _ b])
  then show ?thesis using assms(1) by (auto simp: accel_inv_def le_SucI)
qed

lemma inv_create_context:
  assumes "accel_inv b s" "heap_bounded e" "b + 1 < 2 ^ 32"
  shows "accel_inv (b + 1) (snd (snd (accel_create3DContext e task s)))"
proof -
  obtain ret gcid g where r: "createRenderContext e (ac_gpu s) = (ret, gcid, g)" by (metis surj_pair)
  let ?c = "\<lparr>cx_context_id = ac_next_context_id s + 1, cx_gpu_context_id = the gcid, cx_command_buffer = None, cx_owning_task = task,
       cx_bound_surface_ids = [], cx_bound_surface_capacity = 0\<rparr>"
  let ?s = "s\<lparr>ac_gpu := g\<rparr>"
  have i: "accel_inv b ?s" and l: "accel_inv (b + 1) s" using assms(1) accel_inv_mono by auto
  have "accel_inv (b + 1) (ac_blocks 1 t)"
    if "poolAddContext e ?c (?s\<lparr>ac_next_context_id := ac_next_context_id ?s + 1\<rparr>) = Some t" for t
    using inv_add_context(1) [OF i assms(2,3) _ _ _ that] by (simp add: bound_ok_def)
  then show ?thesis using l inv_next_context [OF i assms(3)]
    by (auto simp: accel_create3DContext_def r Let_def split: option.splits)
qed

lemma inv_destroy_context:
  assumes "accel_inv b s"
  shows "accel_inv b (snd (destroyContextInternal e cid s))"
proof (cases "accel_findContext cid s")
  case (Some i)
  define f where "f = (\<lambda>g. if ac_has_gpu s then snd (destroyRenderContext e (cx_gpu_context_id (context_at i s)) g) else g)"
  have f: "accel_findContext cid (on_accel_gpu f s) = Some i" "context_at i (on_accel_gpu f s) = context_at i s"
    using Some by (simp_all add: accel_findContext_def context_at_def on_accel_gpu_def)
  have "cx_command_buffer (context_at i s) = None"
    using assms findContext_Some [OF Some] by (auto simp: accel_inv_def bound_ok_def)
  moreover have "(if ac_has_gpu s then on_accel_gpu (\<lambda>g. snd (destroyRenderContext e (cx_gpu_context_id (context_at i s)) g)) s else s)
      = on_accel_gpu f s"
    by (simp add: on_accel_gpu_def f_def)
  ultimately show ?thesis
    using inv_remove_context(1) [of b "on_accel_gpu f s" cid i] assms f Some
    by (simp add: destroyContextInternal_def Let_def ac_release_def split: if_splits)
qed (use assms in \<open>simp add: destroyContextInternal_def\<close>)

lemma poolAddSurface_contexts: "poolAddSurface e x s = Some t \<Longrightarrow> ac_contexts t = ac_contexts s"
  by (auto simp: poolAddSurface_def)

text \<open>The common end of both ways to create a surface.\<close>

lemma inv_new_surface:
  assumes "accel_inv b s" "heap_bounded e" "b + 1 < 2 ^ 32" "accel_findContext cid s = Some ci"
    and "su_surface_id x = ac_next_surface_id s + 1" "su_backing_memory x = Some d"
    and "poolAddSurface e x (s\<lparr>ac_next_surface_id := ac_next_surface_id s + 1\<rparr>) = Some t"
  shows "accel_inv (b + 1) (snd (contextBindSurface e ci sid (ac_retain d (ac_blocks 1 t))))"
proof -
  have c: "ac_contexts (ac_retain d (ac_blocks 1 t)) = ac_contexts s"
    using poolAddSurface_contexts [OF assms(7)] by (simp add: ac_retain_def ac_blocks_def)
  show ?thesis
    using inv_bind [OF inv_add_surface(1) [OF assms(1-3,5-7)] assms(2), of ci] findContext_Some [OF assms(4)] c by simp
qed

lemma inv_create_surface:
  assumes "accel_inv b s" "heap_bounded e" "b + 1 < 2 ^ 32"
  shows "accel_inv (b + 1) (snd (accel_create3DSurface e cid info s))"
proof (cases "info = None \<or> accel_findContext cid s = None \<or> \<not> ac_has_gpu s")
  case True
  then show ?thesis using accel_inv_mono [OF assms(1)] by (auto simp: accel_create3DSurface_def split: option.splits)
next
  case False
  then obtain i ci where i: "info = Some i" "accel_findContext cid s = Some ci" "ac_has_gpu s" by auto
  obtain ret rid g where r: "allocateResource3D e 1 (si_format i) (si_width i) (si_height i) 1 (ac_gpu s) = (ret, rid, g)"
    by (metis surj_pair)
  let ?s = "s\<lparr>ac_gpu := g\<rparr>"
  have inv: "accel_inv b ?s" "accel_inv (b + 1) ?s" "accel_findContext cid ?s = Some ci"
    using assms(1) accel_inv_mono i(2) by (auto simp: accel_findContext_def)
  note new = inv_new_surface [OF inv(1) assms(2,3) inv(3)] and cnt = inv_next_surface [OF inv(1) assms(3)]
  show ?thesis using inv(2) cnt i(3)
    by (simp add: accel_create3DSurface_def i(1,2) r Let_def split: option.splits) (auto intro!: new [unfolded Suc_eq_plus1 [symmetric]])
qed

lemma inv_create_internal:
  assumes "accel_inv b s" "heap_bounded e" "b + 1 < 2 ^ 32"
  shows "accel_inv (b + 1) (snd (snd (accel_createSurfaceInternal e cid info s)))"
proof (cases "accel_findContext cid s")
  case None
  then show ?thesis using accel_inv_mono [OF assms(1)] by (simp add: accel_createSurfaceInternal_def)
next
  case (Some ci)
  note new = inv_new_surface [OF assms Some] and cnt = inv_next_surface [OF assms(1,3)]
  have "accel_inv (b + 1) s" using accel_inv_mono [OF assms(1)] by simp
  then show ?thesis using cnt
    by (simp add: accel_createSurfaceInternal_def Some Let_def split: option.splits) (auto intro!: new [unfolded Suc_eq_plus1 [symmetric]])
qed

lemma unbind_surfaces: "accel_findSurface sid (contextUnbindSurface i j s) = accel_findSurface sid s"
  by (simp add: contextUnbindSurface_def accel_findSurface_def put_context_def Let_def)

lemma inv_destroy_surface:
  assumes "accel_inv b s"
  shows "accel_inv b (snd (accel_destroy3DSurface e cid sid s))" "accel_inv b (snd (accel_destroySurfaceInternal e cid sid s))"
  using assms
  by (auto simp: accel_destroy3DSurface_def accel_destroySurfaceInternal_def Let_def unbind_surfaces split: option.splits
      intro!: inv_drop_surface(1) inv_unbind)

lemma inv_create_framebuffer:
  assumes "accel_inv b s" "heap_bounded e" "b + 2 < 2 ^ 32"
  shows "accel_inv (b + 2) (snd (snd (accel_createFramebuffer e cid w h cf df s)))"
proof -
  have two: "accel_inv (b + 2) t" if "accel_inv b t \<or> accel_inv (b + 1) t" for t using that accel_inv_mono by fastforce
  obtain r1 c1 s1 where 1: "(if cf \<noteq> 0 then accel_createSurfaceInternal e cid (target_info w h cf) s
      else (kIOReturnSuccess, 0, s)) = (r1, c1, s1)" by (metis surj_pair)
  obtain r2 c2 s2 where 2: "(if df \<noteq> 0 then accel_createSurfaceInternal e cid (target_info w h df) s1
      else (kIOReturnSuccess, 0, s1)) = (r2, c2, s2)" by (metis surj_pair)
  have i1: "accel_inv (b + 1) s1"
    using 1 inv_create_internal [OF assms(1,2), of cid "target_info w h cf"] accel_inv_mono [OF assms(1)] assms(3)
    by (auto split: if_splits)
  have i2: "accel_inv (b + 2) s2"
    using 2 inv_create_internal [OF i1 assms(2), of cid "target_info w h df"] two i1 assms(3) by (auto split: if_splits)
  show ?thesis using i2 two i1 assms(1) inv_destroy_surface(2) [OF i2]
    by (simp add: accel_createFramebuffer_def 1 2)
qed

lemma present_vram_cases:
  "present_vram s x r = (r', s') \<Longrightarrow> s' = s \<or> (\<exists>v. s' = s\<lparr>ac_vram := v\<rparr>)"
  by (auto simp: present_vram_def split: option.splits if_splits vram_range.splits)

lemma present_execute_cases: "present_execute e junk c x r s = (r', s') \<Longrightarrow> \<exists>g. s' = s\<lparr>ac_gpu := g\<rparr>"
  by (auto simp: present_execute_def split: option.splits if_splits prod.splits intro: exI [of _ "ac_gpu s"])

lemma inv_put_surface:
  assumes "accel_inv b s" "accel_findSurface sid s = Some i"
  shows "accel_inv b (put_surface i ((surface_at i s)\<lparr>su_is_render_target := t\<rparr>) s)"
proof -
  let ?xs = "fst (ac_surfaces s)" and ?x = "surface_at i s"
  note f = findSurface_Some [OF assms(2)]
  have o: "live_surfaces s = occupied (take i ?xs) @ ?x # occupied (drop (Suc i) ?xs)"
    "occupied (?xs[i := Some (?x\<lparr>su_is_render_target := t\<rparr>)])
       = occupied (take i ?xs) @ ?x\<lparr>su_is_render_target := t\<rparr> # occupied (drop (Suc i) ?xs)"
    using f occupied_nth [of i ?xs] occupied_update [of i ?xs] by simp_all
  have "pool_sound su_surface_id (?xs[i := Some (?x\<lparr>su_is_render_target := t\<rparr>)], snd (ac_surfaces s))"
    using pool_sound_put [of su_surface_id "ac_surfaces s" i ?x] f assms(1) by (simp add: accel_inv_def)
  then show ?thesis using assms(1) by (auto simp: accel_inv_def put_surface_def o)
qed

lemma inv_present:
  assumes "accel_inv b s"
  shows "accel_inv b (snd (accel_present3DSurface e junk cid sid s))"
proof (cases "accel_findContext cid s = None \<or> accel_findSurface sid s = None")
  case True
  then show ?thesis using assms by (auto simp: accel_present3DSurface_def split: option.splits)
next
  case False
  then obtain ci si where f: "accel_findContext cid s = Some ci" "accel_findSurface sid s = Some si" by auto
  define tried where "tried = (ac_has_gpu s \<and> supports3D (ac_gpu s))"
  obtain hw g where u: "(if tried then updateDisplay e 0 (su_gpu_resource_id (surface_at si s)) 0 0 (si_width (su_info (surface_at si s)))
      (si_height (su_info (surface_at si s))) (ac_gpu s) else (kIOReturnUnsupported, ac_gpu s)) = (hw, g)" by (metis surj_pair)
  obtain r2 s2 where p2: "present_vram (s\<lparr>ac_gpu := g\<rparr>) (surface_at si s) (if tried then hw else kIOReturnSuccess) = (r2, s2)"
    by (metis surj_pair)
  obtain r3 s3 where p3: "present_execute e junk (context_at ci s2) (surface_at si s) r2 s2 = (r3, s3)" by (metis surj_pair)
  have 2: "accel_inv b s2" "ac_surfaces s2 = ac_surfaces s" using present_vram_cases [OF p2] assms by auto
  then have 3: "accel_inv b s3" "ac_surfaces s3 = ac_surfaces s" using present_execute_cases [OF p3] by auto
  have "accel_findSurface sid s3 = Some si" "surface_at si s3 = surface_at si s"
    using f(2) 3(2) by (simp_all add: accel_findSurface_def surface_at_def)
  then have "accel_inv b (put_surface si ((surface_at si s)\<lparr>su_is_render_target := True\<rparr>) s3)"
    using inv_put_surface [OF 3(1), of sid si True] by simp
  then show ?thesis using assms 2 3
    by (simp add: accel_present3DSurface_def f tried_def [symmetric] u p2 p3 Let_def)
qed

lemma accel_step_inv:
  assumes "accel_step e s s'" "accel_inv b s" "heap_bounded e" "b + 2 < 2 ^ 32"
  shows "accel_inv (b + 2) s'"
proof -
  have m: "accel_inv (b + 2) t" if "accel_inv b t \<or> accel_inv (b + 1) t" for t using that accel_inv_mono by fastforce
  have b1: "b + 1 < 2 ^ 32" using assms(4) by simp
  show ?thesis using assms(1)
  proof cases
    case create_context
    then show ?thesis using inv_create_context [OF assms(2,3) b1] m by blast
  next
    case destroy_context
    then show ?thesis using inv_destroy_context [OF assms(2)] m by (simp add: accel_destroy3DContext_def)
  next
    case create_surface
    then show ?thesis using inv_create_surface [OF assms(2,3) b1] m by blast
  next
    case destroy_surface
    then show ?thesis using inv_destroy_surface(1) [OF assms(2)] m by blast
  next
    case create_framebuffer
    then show ?thesis using inv_create_framebuffer [OF assms(2-4)] by blast
  next
    case submit
    then show ?thesis using m assms(2) by (auto simp: accel_submit3DCommands_def Let_def split: option.splits prod.splits)
  next
    case present
    then show ?thesis using inv_present [OF assms(2)] m by blast
  next
    case synchronize
    then show ?thesis using m assms(2) by (auto simp: synchronizeAccelerator_def split: prod.splits)
  next
    case reset_statistics
    then show ?thesis using m assms(2) by (simp add: resetStatistics_def)
  next
    case (others g v dd)
    then show ?thesis using m assms(2) by simp
  qed
qed

lemma accel_run_inv:
  "(accel_step e ^^ n) s s' \<Longrightarrow> accel_inv b s \<Longrightarrow> heap_bounded e \<Longrightarrow> b + 2 * n < 2 ^ 32 \<Longrightarrow> accel_inv (b + 2 * n) s'"
proof (induction n arbitrary: s')
  case (Suc n)
  then obtain t where t: "(accel_step e ^^ n) s t" "accel_step e t s'" by (auto simp: relcompp_apply)
  then have "accel_inv (b + 2 * n) t" using Suc by simp
  then show ?case using accel_step_inv [OF t(2), of "b + 2 * n"] Suc.prems by simp
qed simp

lemma accel_start_inv: "ac_heap s = 0 \<Longrightarrow> ac_refs s = (\<lambda>_. 0) \<Longrightarrow> accel_inv 1 (snd (accel_start dev ok (accel_init s)))"
  by (simp add: accel_inv_def accel_start_def accel_init_def pool_sound_def)

end
