(* ===== verification/Accel_Client.thy ===== *)
theory Accel_Client
  imports Accelerator
begin

text \<open>
  What the accelerator guarantees: its tables after any history, the release of everything at stop, the copy of a surface to
  the screen, and how far the calls of one client reach.
\<close>

section \<open>Stopping\<close>

lemma destroy_slots:
  "accel_findContext cid s = Some i \<Longrightarrow> fst (ac_contexts (snd (destroyContextInternal e cid s))) = (fst (ac_contexts s))[i := None]
     \<and> ac_surfaces (snd (destroyContextInternal e cid s)) = ac_surfaces s"
  by (auto simp: destroyContextInternal_def Let_def ac_blocks_def poolRemoveContext_def pool_remove_def ac_release_def on_accel_gpu_def
      split: option.splits prod.splits)

lemma stop_contexts_result:
  assumes "accel_inv b s" "\<forall>i \<in> set is. i < length (fst (ac_contexts s))"
  shows "accel_inv b (stop_contexts e is s) \<and> ac_surfaces (stop_contexts e is s) = ac_surfaces s
     \<and> length (fst (ac_contexts (stop_contexts e is s))) = length (fst (ac_contexts s))
     \<and> (\<forall>i < length (fst (ac_contexts s)). i \<in> set is \<or> fst (ac_contexts s) ! i = None
          \<longrightarrow> fst (ac_contexts (stop_contexts e is s)) ! i = None)"
  using assms
proof (induction "is" arbitrary: s)
  case Nil
  then show ?case by simp
next
  case (Cons j js)
  show ?case
  proof (cases "fst (ac_contexts s) ! j")
    case None
    then show ?thesis using Cons.IH [OF Cons.prems(1)] Cons.prems by auto
  next
    case (Some c)
    let ?t = "snd (destroyContextInternal e (cx_context_id c) s)"
    have "accel_findContext (cx_context_id c) s = Some j"
      using key_index_unique [of cx_context_id "fst (ac_contexts s)" j c] Cons.prems Some
      by (auto simp: accel_findContext_def accel_inv_def pool_sound_def)
    note d = destroy_slots [OF this, of e]
    have "accel_inv b ?t" using inv_destroy_context [OF Cons.prems(1)] .
    then show ?thesis using Cons.IH [of ?t] Cons.prems d Some by (auto simp: nth_list_update)
  qed
qed

lemma stop_surfaces_result:
  "fold stop_surface xs s = s\<lparr>ac_heap := ac_heap s - int (length (occupied xs)),
     ac_refs := (\<lambda>m. ac_refs s m - int (surface_refs (occupied xs) m))\<rparr>"
proof (induction xs arbitrary: s rule: occupied.induct)
  case (3 y xs)
  have "stop_surface (Some y) s = s\<lparr>ac_heap := ac_heap s - 1,
      ac_refs := (\<lambda>m. ac_refs s m - (if map_option md_id (su_backing_memory y) = Some m then 1 else 0))\<rparr>"
    by (auto simp: stop_surface_def ac_blocks_def ac_release_def fun_eq_iff split: option.splits)
  then show ?case using 3 by (simp add: algebra_simps fun_eq_iff)
qed (simp_all add: stop_surface_def)

lemma occupied_none: "(\<forall>i < length xs. xs ! i = None) \<Longrightarrow> occupied xs = []"
  by (metis in_set_conv_nth list.set_cases list.set_intros(1) occupied.simps(1) set_occupied neq_Nil_conv option.distinct(1))

section \<open>Properties of the tables\<close>

text \<open>C21. Whatever contexts, surfaces and framebuffers the clients create, destroy, submit to and present, with any device and
  any failing allocation: the ids in each table stay distinct, the counters stay equal to the number of objects, so the
  slot used after a table has grown is free and inside it; every array of bound surfaces stays within its capacity
  without duplicates; and each block and each reference taken is accounted for by exactly one live object.\<close>

theorem accel_tables_sound:
  assumes "(accel_step e ^^ n) (snd (accel_start dev True (accel_init s0))) s" "ac_heap s0 = 0" "ac_refs s0 = (\<lambda>_. 0)" "heap_bounded e" "n < 2 ^ 31 - 1"
  shows "distinct (map cx_context_id (live_contexts s)) \<and> distinct (map su_surface_id (live_surfaces s))
     \<and> unat (snd (ac_contexts s)) = length (live_contexts s) \<and> unat (snd (ac_surfaces s)) = length (live_surfaces s)
     \<and> (\<forall>c \<in> set (live_contexts s). distinct (cx_bound_surface_ids c)
          \<and> length (cx_bound_surface_ids c) \<le> unat (cx_bound_surface_capacity c))
     \<and> ac_heap s = int (length (live_contexts s)) + int (length (filter (\<lambda>c. cx_bound_surface_capacity c \<noteq> 0) (live_contexts s)))
          + int (length (live_surfaces s))
     \<and> (\<forall>m. ac_refs s m = int (length (filter (\<lambda>x. map_option md_id (su_backing_memory x) = Some m) (live_surfaces s))))"
proof -
  have "accel_inv (1 + 2 * n) s"
    using accel_run_inv [OF assms(1) accel_start_inv [OF assms(2,3)] assms(4)] assms(5) by simp
  then show ?thesis
    by (auto simp: accel_inv_def pool_sound_def bound_ok_def context_blocks_def surface_refs_def)
qed

text \<open>C23. Stopping the accelerator releases everything: after any history, both tables are empty and every block and every
  reference the accelerator ever took has been given back.\<close>

theorem accel_stop_releases:
  assumes "(accel_step e ^^ n) (snd (accel_start dev True (accel_init s0))) s" "ac_heap s0 = 0" "ac_refs s0 = (\<lambda>_. 0)" "heap_bounded e" "n < 2 ^ 31 - 1"
  shows "live_contexts (accel_stop e s) = [] \<and> live_surfaces (accel_stop e s) = []
     \<and> ac_heap (accel_stop e s) = 0 \<and> ac_refs (accel_stop e s) = (\<lambda>_. 0)"
proof -
  have inv: "accel_inv (1 + 2 * n) s"
    using accel_run_inv [OF assms(1) accel_start_inv [OF assms(2,3)] assms(4)] assms(5) by simp
  let ?t = "stop_contexts e [0..<length (fst (ac_contexts s))] s"
  have t: "accel_inv (1 + 2 * n) ?t" "ac_surfaces ?t = ac_surfaces s" "live_contexts ?t = []"
    using stop_contexts_result [OF inv, of "[0..<length (fst (ac_contexts s))]" e]
      occupied_none [of "fst (ac_contexts ?t)"] by auto
  then show ?thesis
    by (simp add: accel_stop_def Let_def stop_surfaces_result accel_inv_def fun_eq_iff)
qed

section \<open>Presentation\<close>

lemma run_copies_append:
  "run_copies src (xs @ ys) dst = (case run_copies src xs dst of None \<Rightarrow> None | Some d \<Rightarrow> run_copies src ys d)"
  by (induction src xs dst rule: run_copies.induct) auto

lemma copy_nth:
  assumes "so + n \<le> length src" "do + n \<le> length dst" "p < length dst"
  shows "(take do dst @ take n (drop so src) @ drop (do + n) dst) ! p = (if do \<le> p \<and> p < do + n then src ! (so + (p - do)) else dst ! p)"
proof -
  have l: "length (take do dst) = do" "length (take n (drop so src)) = n" using assms by auto
  show ?thesis using assms by (auto simp: nth_append l less_diff_conv2)
qed

lemma copy_length:
  "so + n \<le> length src \<Longrightarrow> do + n \<le> length dst \<Longrightarrow> length (take do dst @ take n (drop so src) @ drop (do + n) dst) = length dst"
  by auto

text \<open>Copying rows of \<open>n\<close> bytes to places \<open>stride\<close> bytes apart.\<close>

lemma run_rows:
  assumes "n \<le> stride" "\<forall>r < k. r * n + n \<le> length src \<and> off + r * stride + n \<le> length dst"
  shows "\<exists>d. run_copies src (map (\<lambda>r. (r * n, off + r * stride, n)) [0..<k]) dst = Some d \<and> length d = length dst
     \<and> (\<forall>r < k. \<forall>j < n. d ! (off + r * stride + j) = src ! (r * n + j))
     \<and> (\<forall>p < length dst. (\<forall>r < k. \<not> (off + r * stride \<le> p \<and> p < off + r * stride + n)) \<longrightarrow> d ! p = dst ! p)"
  using assms
proof (induction k)
  case (Suc k)
  then obtain d where d: "run_copies src (map (\<lambda>r. (r * n, off + r * stride, n)) [0..<k]) dst = Some d" "length d = length dst"
    "\<forall>r < k. \<forall>j < n. d ! (off + r * stride + j) = src ! (r * n + j)"
    "\<forall>p < length dst. (\<forall>r < k. \<not> (off + r * stride \<le> p \<and> p < off + r * stride + n)) \<longrightarrow> d ! p = dst ! p" by auto
  have k: "k * n + n \<le> length src" "off + k * stride + n \<le> length d" using Suc.prems(2) d(2) by auto
  define d' where "d' = take (off + k * stride) d @ take n (drop (k * n) src) @ drop (off + k * stride + n) d"
  have nth: "d' ! p = (if off + k * stride \<le> p \<and> p < off + k * stride + n then src ! (k * n + (p - (off + k * stride))) else d ! p)"
    if "p < length d" for p
    unfolding d'_def using copy_nth [OF k that] .
  have len: "length d' = length dst" unfolding d'_def using copy_length [OF k] d(2) by simp
  have run: "run_copies src (map (\<lambda>r. (r * n, off + r * stride, n)) [0..<Suc k]) dst = Some d'"
    using d(1) k by (simp add: run_copies_append d'_def)
  have before: "off + r * stride + j < off + k * stride" if "r < k" "j < n" for r j
  proof -
    have "r * stride + stride \<le> k * stride" using that(1) by (metis Suc_leI mult_Suc mult_le_mono1 add.commute)
    then show ?thesis using that(2) assms(1) by linarith
  qed
  have "d' ! (off + r * stride + j) = src ! (r * n + j)" if "r < Suc k" "j < n" for r j
  proof (cases "r = k")
    case True
    then show ?thesis using nth [of "off + k * stride + j"] that k by simp
  next
    case False
    then show ?thesis using nth [of "off + r * stride + j"] that k d(3) before [of r j] by simp
  qed
  moreover have "d' ! p = dst ! p" if "p < length dst" "\<forall>r < Suc k. \<not> (off + r * stride \<le> p \<and> p < off + r * stride + n)" for p
    using nth [of p] that d(2,4) by auto
  ultimately show ?case using run len by blast
qed simp

lemma copy_whole:
  assumes "length src = k * n" "off + k * n \<le> length dst"
  shows "\<exists>d. run_copies src [(0, off, k * n)] dst = Some d \<and> length d = length dst
     \<and> (\<forall>r < k. \<forall>j < n. d ! (off + r * n + j) = src ! (r * n + j))
     \<and> (\<forall>p < length dst. (\<forall>r < k. \<not> (off + r * n \<le> p \<and> p < off + r * n + n)) \<longrightarrow> d ! p = dst ! p)"
proof -
  define d where "d = take off dst @ take (k * n) (drop 0 src) @ drop (off + k * n) dst"
  have nth: "d ! p = (if off \<le> p \<and> p < off + k * n then src ! (0 + (p - off)) else dst ! p)" if "p < length dst" for p
    unfolding d_def using assms by (intro copy_nth that) auto
  have len: "length d = length dst" unfolding d_def using assms by (intro copy_length) auto
  have inside: "r * n + j < k * n" if "r < k" "j < n" for r j
  proof -
    have "Suc r * n \<le> k * n" using that(1) by (intro mult_le_mono1) simp
    then show ?thesis using that(2) by simp
  qed
  have "d ! (off + r * n + j) = src ! (r * n + j)" if "r < k" "j < n" for r j
    using nth [of "off + r * n + j"] inside [OF that] assms(2) by (simp add: add.assoc)
  moreover have "d ! p = dst ! p" if p: "p < length dst" "\<forall>r < k. \<not> (off + r * n \<le> p \<and> p < off + r * n + n)" for p
  proof (cases "off \<le> p \<and> p < off + k * n")
    case True
    then have n: "0 < n" by (cases n) auto
    define r where "r = (p - off) div n"
    have "p - off < k * n" using True by linarith
    then have "r < k" using n by (simp add: r_def less_mult_imp_div_less)
    moreover have "r * n \<le> p - off" "p - off < r * n + n" using n
      by (simp_all add: r_def div_times_less_eq_dividend) (metis add.commute dividend_less_div_times)
    ultimately show ?thesis using p(2) True by (metis add.commute add_le_cancel_left le_add_diff_inverse nat_add_left_cancel_less add.assoc)
  next
    case False
    then show ?thesis using nth [OF p(1)] by auto
  qed
  moreover have "run_copies src [(0, off, k * n)] dst = Some d" using assms by (simp add: d_def)
  ultimately show ?thesis using len by blast
qed

lemma unat_mult_exact: "unat (a :: u32) * unat b < 2 ^ 32 \<Longrightarrow> unat (a * b) = unat a * unat b"
  by (simp add: unat_word_ariths)

lemma unat_add_exact: "unat (a :: u32) + unat b < 2 ^ 32 \<Longrightarrow> unat (a + b) = unat a + unat b"
  by (simp add: unat_word_ariths)

text \<open>The geometry of a surface that fits the screen, without wrap-around.\<close>

lemma present_offset_exact:
  assumes "unat w \<le> unat cw" "unat h \<le> unat ch" "4 * (unat cw * unat ch) < 2 ^ 32" "0 < unat h" "si_width i = w" "si_height i = h"
  shows "unat (present_offset (Some (cw, ch)) i) = ((unat ch - unat h) div 2 * unat cw + (unat cw - unat w) div 2) * 4"
proof -
  let ?x = "(unat cw - unat w) div 2" and ?y = "(unat ch - unat h) div 2"
  have sub: "unat (cw - w) = unat cw - unat w" "unat (ch - h) = unat ch - unat h"
    using assms(1,2) by (simp_all add: unat_sub word_le_nat_alt)
  have xy: "unat ((cw - w) div 2) = ?x" "unat ((ch - h) div 2) = ?y" by (simp_all add: unat_div sub)
  have "?y + 1 \<le> unat ch" using assms(2,4) by auto
  then have "?y * unat cw + unat cw \<le> unat ch * unat cw" by (metis add_mult_distrib mult_le_mono1 nat_mult_1)
  then have s: "?y * unat cw + ?x \<le> unat cw * unat ch" by (simp add: mult.commute)
  have lim: "4 * (?y * unat cw + ?x) < 2 ^ 32" by (rule le_less_trans [OF mult_le_mono2 [OF s] assms(3)])
  have m: "unat ((ch - h) div 2 * cw) = ?y * unat cw"
    using unat_mult_exact [of "(ch - h) div 2" cw] lim unfolding xy by simp
  have a: "unat ((ch - h) div 2 * cw + (cw - w) div 2) = ?y * unat cw + ?x"
    using unat_add_exact [of "(ch - h) div 2 * cw" "(cw - w) div 2"] lim unfolding xy m by simp
  have e: "unat (((ch - h) div 2 * cw + (cw - w) div 2) * 4) = (?y * unat cw + ?x) * 4"
    using unat_mult_exact [of "(ch - h) div 2 * cw + (cw - w) div 2" 4] lim unfolding a by simp
  show ?thesis
  proof (cases "w < cw \<or> h < ch")
    case True
    then show ?thesis using e by (simp add: present_offset_def assms(5,6) Let_def)
  next
    case False
    then have "unat w = unat cw" "unat h = unat ch" using assms(1,2) by (auto simp: word_less_nat_alt)
    then show ?thesis using False by (simp add: present_offset_def assms(5,6))
  qed
qed

text \<open>What the copy does to video memory, for a 32-bit surface that fits the screen.\<close>

lemma present_copies_centred:
  fixes i :: VM3DSurfaceInfo and cw ch :: u32
  defines "w \<equiv> unat (si_width i)" and "h \<equiv> unat (si_height i)" and "W \<equiv> unat cw" and "H \<equiv> unat ch"
  defines "off \<equiv> ((H - h) div 2 * W + (W - w) div 2) * 4"
  assumes "0 < w" "w \<le> W" "0 < h" "h \<le> H" "4 * (W * H) \<le> length vram" "length vram < 2 ^ 32" "si_format i \<noteq> VM3D_FORMAT_R5G6B5"
    and "length src = 4 * (w * h)"
  shows "unat (accel_calculateSurfaceSize i) = 4 * (w * h) \<and> unat (present_offset (Some (cw, ch)) i) = off \<and> off + 4 * (w * h) \<le> length vram
     \<and> (\<exists>d. run_copies src (present_copies (Some (cw, ch)) i) vram = Some d \<and> length d = length vram
          \<and> (\<forall>r < h. \<forall>j < 4 * w. d ! (off + r * (4 * W) + j) = src ! (r * (4 * w) + j))
          \<and> (\<forall>p < length vram. (\<forall>r < h. \<not> (off + r * (4 * W) \<le> p \<and> p < off + r * (4 * W) + 4 * w)) \<longrightarrow> d ! p = vram ! p))"
proof -
  have WH: "4 * (W * H) < 2 ^ 32" by (rule le_less_trans [OF assms(10,11)])
  have wh: "w * h \<le> W * H" using assms(7,9) by (rule mult_le_mono)
  have lim: "4 * (w * h) < 2 ^ 32" by (rule le_less_trans [OF mult_le_mono2 [OF wh] WH])
  have one: "W \<le> W * H" "w \<le> w * h" using assms(6,8,9) by auto
  have sz: "unat (accel_calculateSurfaceSize i) = 4 * (w * h)"
  proof -
    have "w * h < 2 ^ 32" by (rule le_less_trans [OF _ lim]) simp
    then have "unat (si_width i * si_height i) = w * h" unfolding w_def h_def by (rule unat_mult_exact)
    then show ?thesis using lim unat_mult_exact [of "si_width i * si_height i" 4] assms(12)
      by (simp add: accel_calculateSurfaceSize_def mult.commute [of _ 4])
  qed
  have o: "unat (present_offset (Some (cw, ch)) i) = off"
    using present_offset_exact [of "si_width i" cw "si_height i" ch i] assms(7-9) WH by (simp add: w_def h_def W_def H_def off_def)
  have "4 * w < 2 ^ 32" "4 * W < 2 ^ 32"
    by (rule le_less_trans [OF mult_le_mono2 [OF one(2)] lim], rule le_less_trans [OF mult_le_mono2 [OF one(1)] WH])
  then have bpr: "unat (si_width i * 4) = 4 * w" "unat (cw * 4) = 4 * W"
    using unat_mult_exact [of "si_width i" 4] unat_mult_exact [of cw 4] by (auto simp: w_def W_def)
  have rows: "off + r * (4 * W) + 4 * w \<le> length vram" if "r < h" for r
  proof -
    have y: "(H - h) div 2 + r + 1 \<le> H" using that assms(9) by linarith
    have x: "(W - w) div 2 + w \<le> W" using assms(7) by linarith
    have "((H - h) div 2 + r) * W + W \<le> H * W"
      using mult_le_mono1 [OF y, of W] by (simp add: algebra_simps)
    then have "((H - h) div 2 + r) * W + ((W - w) div 2 + w) \<le> W * H" using x by (simp add: mult.commute)
    then have "off + r * (4 * W) + 4 * w \<le> 4 * (W * H)" by (simp add: off_def algebra_simps)
    then show ?thesis using assms(10) by linarith
  qed
  have "off + 4 * (w * h) \<le> length vram"
  proof -
    have "(h - 1) * w \<le> (h - 1) * W" using assms(7) by simp
    then have "4 * (w * h) \<le> (h - 1) * (4 * W) + 4 * w" using assms(8) by (cases h) (auto simp: algebra_simps)
    then show ?thesis using rows [of "h - 1"] assms(8) by simp
  qed
  moreover have "\<exists>d. run_copies src (present_copies (Some (cw, ch)) i) vram = Some d \<and> length d = length vram
          \<and> (\<forall>r < h. \<forall>j < 4 * w. d ! (off + r * (4 * W) + j) = src ! (r * (4 * w) + j))
          \<and> (\<forall>p < length vram. (\<forall>r < h. \<not> (off + r * (4 * W) \<le> p \<and> p < off + r * (4 * W) + 4 * w)) \<longrightarrow> d ! p = vram ! p)"
  proof (cases "w = W")
    case True
    have "present_copies (Some (cw, ch)) i = [(0, off, 4 * (w * h))]"
    proof -
      have "si_width i * 4 = cw * 4" using True bpr by (metis unsigned_word_eqI)
      then show ?thesis by (simp add: present_copies_def Let_def sz o)
    qed
    then show ?thesis using copy_whole [of src h "4 * W" off vram] assms(13) calculation by (simp add: True algebra_simps)
  next
    case False
    then have ne: "si_width i * 4 \<noteq> cw * 4" using bpr by (metis mult_cancel1 zero_neq_numeral)
    have "r * (4 * w) + 4 * w \<le> length src" if "r < h" for r
    proof -
      have "Suc r * w \<le> h * w" using that by (intro mult_le_mono1) simp
      then show ?thesis by (simp add: assms(13) algebra_simps)
    qed
    then show ?thesis
      using run_rows [of "4 * w" "4 * W" h src off vram] rows assms(7)
      by (simp add: present_copies_def Let_def ne bpr o h_def [symmetric])
  qed
  ultimately show ?thesis using sz o by blast
qed

text \<open>C24. When the hardware path does not succeed, a 32-bit surface that fits the screen is shown centred: the call succeeds,
  row by row the surface's pixels are at their place on the screen, and every other byte of video memory is unchanged.\<close>

theorem present_centred:
  fixes cw ch :: u32 and e junk cid sid s
  assumes "accel_findContext cid s = Some ci" "accel_findSurface sid s = Some si"
    and "\<not> (ac_has_gpu s \<and> supports3D (ac_gpu s)
           \<and> fst (updateDisplay e 0 (su_gpu_resource_id (surface_at si s)) 0 0 (si_width i) (si_height i) (ac_gpu s)) = kIOReturnSuccess)"
    and "ac_framebuffer s" "ac_vram s = Mapped vram" "ac_device s = Some (cw, ch)"
    and "su_info (surface_at si s) = i" "su_backing_memory (surface_at si s) = Some d" "md_map d = Some src"
    and "0 < unat (si_width i)" "unat (si_width i) \<le> unat cw" "0 < unat (si_height i)" "unat (si_height i) \<le> unat ch"
    and "4 * (unat cw * unat ch) \<le> length vram" "length vram < 2 ^ 32" "si_format i \<noteq> VM3D_FORMAT_R5G6B5"
    and "length src = 4 * (unat (si_width i) * unat (si_height i))"
  shows "\<exists>s' vram'. accel_present3DSurface e junk cid sid s = (kIOReturnSuccess, s') \<and> ac_vram s' = Mapped vram'
     \<and> length vram' = length vram
     \<and> (let w = unat (si_width i); h = unat (si_height i); W = unat cw;
             off = ((unat ch - h) div 2 * W + (W - w) div 2) * 4
         in (\<forall>r < h. \<forall>j < 4 * w. vram' ! (off + r * (4 * W) + j) = src ! (r * (4 * w) + j))
          \<and> (\<forall>p < length vram. (\<forall>r < h. \<not> (off + r * (4 * W) \<le> p \<and> p < off + r * (4 * W) + 4 * w)) \<longrightarrow> vram' ! p = vram ! p))"
proof -
  note c = present_copies_centred [OF assms(10-17)]
  define off where "off = ((unat ch - unat (si_height i)) div 2 * unat cw + (unat cw - unat (si_width i)) div 2) * 4"
  obtain d where d: "run_copies src (present_copies (Some (cw, ch)) i) vram = Some d" "length d = length vram"
    "\<forall>r < unat (si_height i). \<forall>j < 4 * unat (si_width i). d ! (off + r * (4 * unat cw) + j) = src ! (r * (4 * unat (si_width i)) + j)"
    "\<forall>p < length vram. (\<forall>r < unat (si_height i). \<not> (off + r * (4 * unat cw) \<le> p \<and> p < off + r * (4 * unat cw) + 4 * unat (si_width i)))
        \<longrightarrow> d ! p = vram ! p"
    using c unfolding off_def by blast
  have fits: "unat (present_offset (Some (cw, ch)) i + accel_calculateSurfaceSize i) \<le> length vram"
    using c unat_add_exact [of "present_offset (Some (cw, ch)) i" "accel_calculateSurfaceSize i"] assms(15) by simp
  have "unat (word_of_nat (length vram) :: u32) = length vram" using assms(15) by (simp add: unat_of_nat)
  then have ok: "present_offset (Some (cw, ch)) i + accel_calculateSurfaceSize i \<le> word_of_nat (length vram)"
    using fits by (simp add: word_le_nat_alt)
  define tried where "tried = (ac_has_gpu s \<and> supports3D (ac_gpu s))"
  obtain hw g where u: "(if tried then updateDisplay e 0 (su_gpu_resource_id (surface_at si s)) 0 0 (si_width i)
      (si_height i) (ac_gpu s) else (kIOReturnUnsupported, ac_gpu s)) = (hw, g)" by (metis surj_pair)
  have no: "\<not> (tried \<and> hw = kIOReturnSuccess)" using assms(3) u by (auto simp: tried_def)
  have "present_vram (s\<lparr>ac_gpu := g\<rparr>) (surface_at si s) r = (kIOReturnSuccess, s\<lparr>ac_gpu := g, ac_vram := Mapped d\<rparr>)" for r
    using assms(4-9) d(1) ok by (simp add: present_vram_def)
  then have "accel_present3DSurface e junk cid sid s = (kIOReturnSuccess, s\<lparr>ac_gpu := g, ac_vram := Mapped d\<rparr>)"
    using no u by (simp add: accel_present3DSurface_def assms(1,2,7) tried_def [symmetric] present_execute_def)
  then show ?thesis using d unfolding Let_def off_def by (intro exI conjI) (assumption | simp)+
qed

text \<open>The offset of a surface narrower but taller than the screen.\<close>

lemma present_offset_wraps:
  fixes cw ch :: u32
  assumes "unat (si_width i) < unat cw" "unat (si_height i) = unat ch + 2 * k" "0 < k"
    and "gap = k * unat cw - (unat cw - unat (si_width i)) div 2" "4 * gap \<le> 2 ^ 32"
  shows "unat (present_offset (Some (cw, ch)) i) = 2 ^ 32 - 4 * gap" "0 < gap"
proof -
  let ?x = "(unat cw - unat (si_width i)) div 2"
  have k: "2 * k < 2 ^ 32" using assms(2) unat_bound32 [of "si_height i"] by simp
  have kc: "unat cw \<le> k * unat cw" using assms(3) by simp
  show gap: "0 < gap" using assms(1,4) kc by linarith
  have g: "gap + ?x = k * unat cw" using assms(4) kc by linarith
  have "unat (ch - si_height i) = 2 ^ 32 - 2 * k" using assms(2,3) by (simp add: unat_sub_if')
  then have y: "unat ((ch - si_height i) div 2) = 2 ^ 31 - k" by (simp add: unat_div)
  have "unat (cw - si_width i) = unat cw - unat (si_width i)" using assms(1) by (simp add: unat_sub word_le_nat_alt)
  then have x: "unat ((cw - si_width i) div 2) = ?x" by (simp add: unat_div)
  let ?N = "4 * ((2 ^ 31 - k) * unat cw + ?x)"
  have "unat (((ch - si_height i) div 2 * cw + (cw - si_width i) div 2) * 4) = ?N mod 2 ^ 32"
    using y x by (simp only: unat_word_ariths) (simp add: mod_simps mult.commute)
  moreover have "?N + 4 * gap = 2 ^ 32 * (2 * unat cw)"
  proof -
    have "(2 ^ 31 - k) * unat cw + k * unat cw = 2 ^ 31 * unat cw"
      using k by (simp add: add_mult_distrib [symmetric])
    then show ?thesis using g by simp
  qed
  then have "?N = 2 ^ 32 * (2 * unat cw - 1) + (2 ^ 32 - 4 * gap)"
    using assms(1,5) gap by (simp add: diff_mult_distrib2)
  then have "?N mod 2 ^ 32 = 2 ^ 32 - 4 * gap" using gap by (metis mod_mult_self4 mod_less diff_less mult_pos_pos zero_less_numeral zero_less_power)
  moreover have "si_width i < cw" using assms(1) by (simp add: word_less_nat_alt)
  ultimately show "unat (present_offset (Some (cw, ch)) i) = 2 ^ 32 - 4 * gap" by (simp add: present_offset_def Let_def)
qed

lemma run_copies_outside: "length dst < do + n \<Longrightarrow> run_copies src ((so, do, n) # cs) dst = None"
  by simp

text \<open>A surface narrower but taller than the screen is copied outside video memory: the vertical offset is negative and
  wraps around, the sum with the size of the surface wraps around again and passes the check, and the first row is
  written almost four gigabytes past the start of video memory.\<close>

theorem present_escapes_vram:
  fixes cw ch :: u32 and k gap :: nat
  assumes "accel_findContext cid s = Some ci" "accel_findSurface sid s = Some si"
    and "\<not> (ac_has_gpu s \<and> supports3D (ac_gpu s)
           \<and> fst (updateDisplay e 0 (su_gpu_resource_id (surface_at si s)) 0 0 (si_width i) (si_height i) (ac_gpu s)) = kIOReturnSuccess)"
    and "ac_framebuffer s" "ac_vram s = Mapped vram" "ac_device s = Some (cw, ch)"
    and "su_info (surface_at si s) = i" "su_backing_memory (surface_at si s) = Some d" "md_map d = Some src"
    and "0 < unat (si_width i)" "unat (si_width i) < unat cw" "unat (si_height i) = unat ch + 2 * k" "0 < k"
    and "gap = k * unat cw - (unat cw - unat (si_width i)) div 2" "gap \<le> unat (si_width i) * unat (si_height i)"
    and "4 * (unat (si_width i) * unat (si_height i)) < 2 ^ 32" "si_format i \<noteq> VM3D_FORMAT_R5G6B5"
    and "4 * (unat (si_width i) * unat (si_height i) - gap) \<le> length vram" "4 * gap + length vram \<le> 2 ^ 32"
  shows "unat (present_offset (Some (cw, ch)) i) = 2 ^ 32 - 4 * gap
     \<and> fst (accel_present3DSurface e junk cid sid s) = Kernel_panic"
proof -
  let ?w = "unat (si_width i)" and ?h = "unat (si_height i)"
  have "4 * gap \<le> 2 ^ 32" using assms(19) by linarith
  note o = present_offset_wraps [OF assms(11-14) this]
  have h: "0 < ?h" using assms(12,13) by simp
  have w4: "4 * ?w < 2 ^ 32" by (rule le_less_trans [OF mult_le_mono2 assms(16)]) (use h in simp)
  then have bpr: "unat (si_width i * 4) = 4 * ?w" using unat_mult_exact [of "si_width i" 4] by simp
  have sz: "unat (accel_calculateSurfaceSize i) = 4 * (?w * ?h)"
  proof -
    have "?w * ?h < 2 ^ 32" by (rule le_less_trans [OF _ assms(16)]) simp
    then have "unat (si_width i * si_height i) = ?w * ?h" by (rule unat_mult_exact)
    then show ?thesis using assms(16,17) unat_mult_exact [of "si_width i * si_height i" 4]
      by (simp add: accel_calculateSurfaceSize_def mult.commute [of _ 4])
  qed
  have "unat (present_offset (Some (cw, ch)) i + accel_calculateSurfaceSize i) = 4 * (?w * ?h - gap)"
  proof -
    have "2 ^ 32 - 4 * gap + 4 * (?w * ?h) = 2 ^ 32 + 4 * (?w * ?h - gap)" using assms(15,19) by (simp add: diff_mult_distrib2)
    moreover have "4 * (?w * ?h - gap) < 2 ^ 32" by (rule le_less_trans [OF _ assms(16)]) simp
    ultimately show ?thesis using o(1) sz by (simp only: unat_word_ariths) simp
  qed
  moreover have "unat (word_of_nat (length vram) :: u32) = length vram" using assms(19) o(2) by (simp add: unat_of_nat)
  ultimately have ok: "present_offset (Some (cw, ch)) i + accel_calculateSurfaceSize i \<le> word_of_nat (length vram)"
    using assms(18) by (simp add: word_le_nat_alt)
  have "length vram \<le> 2 ^ 32 - 4 * gap" using assms(19) by linarith
  then have "length vram < 2 ^ 32 - 4 * gap + 4 * ?w" "length vram < 2 ^ 32 - 4 * gap + 4 * (?w * ?h)"
    using assms(10) h by (auto intro: le_less_trans)
  then have bad: "run_copies src (present_copies (Some (cw, ch)) i) vram = None"
    using h o(1) bpr sz upt_conv_Cons [of 0 ?h]
    by (auto simp: present_copies_def Let_def simp del: run_copies.simps intro!: run_copies_outside)
  define tried where "tried = (ac_has_gpu s \<and> supports3D (ac_gpu s))"
  obtain hw g where u: "(if tried then updateDisplay e 0 (su_gpu_resource_id (surface_at si s)) 0 0 (si_width i)
      (si_height i) (ac_gpu s) else (kIOReturnUnsupported, ac_gpu s)) = (hw, g)" by (metis surj_pair)
  have no: "\<not> (tried \<and> hw = kIOReturnSuccess)" using assms(3) u by (auto simp: tried_def)
  have "present_vram (s\<lparr>ac_gpu := g\<rparr>) (surface_at si s) r = (Kernel_panic, s\<lparr>ac_gpu := g\<rparr>)" for r
    using assms(4-9) bad ok by (simp add: present_vram_def)
  then have "fst (accel_present3DSurface e junk cid sid s) = Kernel_panic"
    using no u by (simp add: accel_present3DSurface_def assms(1,2,7) tried_def [symmetric])
  then show ?thesis using o(1) by simp
qed

section \<open>What a client can do\<close>

abbreviation context_of :: "accel \<Rightarrow> u32 \<Rightarrow> AccelContext option" where "context_of s \<equiv> pool_look cx_context_id (ac_contexts s)"
abbreviation surface_of :: "accel \<Rightarrow> u32 \<Rightarrow> AccelSurface option" where "surface_of s \<equiv> pool_look su_surface_id (ac_surfaces s)"

text \<open>Operations that only grow or replace: an object of the table stays, up to the flag that marks a render target.\<close>

definition keeps_surfaces :: "accel \<Rightarrow> accel \<Rightarrow> bool" where
  "keeps_surfaces s s' \<longleftrightarrow> (\<forall>k x. surface_of s k = Some x \<longrightarrow> (\<exists>t. surface_of s' k = Some (x\<lparr>su_is_render_target := t\<rparr>)))"

definition keeps_contexts :: "u32 \<Rightarrow> accel \<Rightarrow> accel \<Rightarrow> bool" where
  "keeps_contexts cid s s' \<longleftrightarrow> (\<forall>k. k \<noteq> cid \<and> context_of s k \<noteq> None \<longrightarrow> context_of s' k = context_of s k)"

lemma keeps_refl: "ac_surfaces s' = ac_surfaces s \<Longrightarrow> keeps_surfaces s s'" "ac_contexts s' = ac_contexts s \<Longrightarrow> keeps_contexts cid s s'"
proof -
  show "keeps_surfaces s s'" if "ac_surfaces s' = ac_surfaces s"
    unfolding keeps_surfaces_def that by (metis AccelSurface.surjective AccelSurface.update_convs(5))
qed (simp add: keeps_contexts_def)

lemma put_context_of:
  assumes "accel_inv b s" "accel_findContext cid s = Some i" "cx_context_id c = cid"
  shows "context_of (put_context i c s) = (context_of s)(cid \<mapsto> c)"
  using pool_look_put [of cx_context_id "ac_contexts s" i "context_at i s" c] findContext_Some [OF assms(2)] assms(1,3)
  by (simp add: put_context_def accel_inv_def)

lemma bind_keeps:
  assumes "accel_inv b s" "accel_findContext cid s = Some i"
  shows "keeps_contexts cid s (snd (contextBindSurface e i sid s))" "ac_surfaces (snd (contextBindSurface e i sid s)) = ac_surfaces s"
    "ac_refs (snd (contextBindSurface e i sid s)) = ac_refs s" "ac_next_surface_id (snd (contextBindSurface e i sid s)) = ac_next_surface_id s"
proof -
  have "cx_context_id (context_at i s) = cid" using findContext_Some [OF assms(2)] by simp
  then show "keeps_contexts cid s (snd (contextBindSurface e i sid s))"
    using put_context_of [OF assms] by (auto simp: contextBindSurface_def Let_def keeps_contexts_def ac_blocks_def)
qed (auto simp: contextBindSurface_def Let_def put_context_def ac_blocks_def)

lemma create_surface_cases:
  assumes "accel_create3DSurface e cid (Some i) s = (ret, s')" "accel_inv b s" "heap_bounded e" "b + 1 < 2 ^ 32"
  shows "(ret \<noteq> kIOReturnSuccess \<and> ac_contexts s' = ac_contexts s \<and> ac_surfaces s' = ac_surfaces s)
     \<or> (ret = kIOReturnSuccess \<and> keeps_contexts cid s s' \<and> surface_of s (ac_next_surface_id s') = None
          \<and> (\<exists>x d. surface_of s' = (surface_of s)(ac_next_surface_id s' \<mapsto> x) \<and> su_backing_memory x = Some d))"
proof (cases "accel_findContext cid s = None \<or> \<not> ac_has_gpu s")
  case True
  then show ?thesis using assms(1) by (auto simp: accel_create3DSurface_def split: option.splits)
next
  case False
  then obtain ci where ci: "accel_findContext cid s = Some ci" "ac_has_gpu s" by auto
  obtain r rid g where r: "allocateResource3D e 1 (si_format i) (si_width i) (si_height i) 1 (ac_gpu s) = (r, rid, g)"
    by (metis surj_pair)
  let ?s = "s\<lparr>ac_gpu := g\<rparr>" and ?n = "ac_next_surface_id s + 1"
  have inv: "accel_inv b ?s" using assms(2) by simp
  show ?thesis
  proof (cases "r \<noteq> kIOReturnSuccess \<or> \<not> ac_mem e ?s 64 \<or> accel_allocateSurfaceMemory e i (?s\<lparr>ac_next_surface_id := ?n\<rparr>) = None")
    case True
    then show ?thesis using assms(1)
      by (auto simp: accel_create3DSurface_def ci r Let_def on_accel_gpu_def split: if_splits)
  next
    case False
    then obtain d where d: "r = kIOReturnSuccess" "ac_mem e ?s 64" "accel_allocateSurfaceMemory e i (?s\<lparr>ac_next_surface_id := ?n\<rparr>) = Some d"
      by auto
    let ?x = "\<lparr>su_surface_id = ?n, su_gpu_resource_id = rid, su_info = i\<lparr>si_surface_id := ?n\<rparr>, su_backing_memory = Some d,
         su_is_render_target = False\<rparr>"
    show ?thesis
    proof (cases "poolAddSurface e ?x (?s\<lparr>ac_next_surface_id := ?n\<rparr>)")
      case None
      then show ?thesis using assms(1) d
        by (auto simp: accel_create3DSurface_def ci r Let_def on_accel_gpu_def split: if_splits)
    next
      case (Some t)
      note a = inv_add_surface [OF inv assms(3,4), of ?x d t, simplified, OF Some [simplified]]
      let ?t = "ac_retain d (ac_blocks 1 t)"
      have t: "ac_contexts ?t = ac_contexts s" "ac_surfaces ?t = ac_surfaces t" "ac_next_surface_id ?t = ?n"
        using Some a(4) by (auto simp: ac_retain_def ac_blocks_def poolAddSurface_def)
      have f: "accel_findContext cid ?t = Some ci" using ci(1) t(1) by (simp add: accel_findContext_def)
      note bk = bind_keeps [OF a(1) f, of e ?n]
      have "ret = kIOReturnSuccess" "s' = (snd (contextBindSurface e ci ?n ?t))\<lparr>ac_memory_used := ac_memory_used (snd (contextBindSurface e ci ?n ?t))
            + ucast (accel_calculateSurfaceSize i)\<rparr>"
        using assms(1) d Some by (auto simp: accel_create3DSurface_def ci r Let_def)
      moreover have "keeps_contexts cid s (s'\<lparr>ac_memory_used := z\<rparr>)" if "keeps_contexts cid ?t s'" for z s'
        using that t(1) by (simp add: keeps_contexts_def)
      ultimately show ?thesis using a(2,3) t bk by auto
    qed
  qed
qed

lemma destroy_context_of:
  assumes "accel_inv b s"
  shows "context_of (snd (destroyContextInternal e cid s)) = (context_of s)(cid := None)"
    "ac_surfaces (snd (destroyContextInternal e cid s)) = ac_surfaces s" "ac_refs (snd (destroyContextInternal e cid s)) = ac_refs s"
proof -
  have "context_of (snd (destroyContextInternal e cid s)) = (context_of s)(cid := None)
     \<and> ac_surfaces (snd (destroyContextInternal e cid s)) = ac_surfaces s \<and> ac_refs (snd (destroyContextInternal e cid s)) = ac_refs s"
  proof (cases "accel_findContext cid s")
    case None
    then have "context_of s cid = None" by (simp add: pool_look_def accel_findContext_def)
    then show ?thesis using None by (auto simp: destroyContextInternal_def fun_upd_idem)
  next
    case (Some i)
    have "cx_command_buffer (context_at i s) = None"
      using assms findContext_Some [OF Some] by (auto simp: accel_inv_def bound_ok_def)
    then show ?thesis using inv_remove_context(2) [OF assms Some] Some
      by (simp add: destroyContextInternal_def Let_def ac_blocks_def poolRemoveContext_def ac_release_def on_accel_gpu_def)
  qed
  then show "context_of (snd (destroyContextInternal e cid s)) = (context_of s)(cid := None)"
    "ac_surfaces (snd (destroyContextInternal e cid s)) = ac_surfaces s" "ac_refs (snd (destroyContextInternal e cid s)) = ac_refs s" by auto
qed

lemma create_context_keeps:
  assumes "accel_create3DContext e task s = (ret, c, s')" "accel_inv b s" "heap_bounded e" "b + 1 < 2 ^ 32"
  shows "keeps_contexts cid s s'" "ac_surfaces s' = ac_surfaces s"
proof -
  obtain r gcid g where r: "createRenderContext e (ac_gpu s) = (r, gcid, g)" by (metis surj_pair)
  let ?s = "s\<lparr>ac_gpu := g\<rparr>"
  let ?c = "\<lparr>cx_context_id = ac_next_context_id s + 1, cx_gpu_context_id = the gcid, cx_command_buffer = None, cx_owning_task = task,
       cx_bound_surface_ids = [], cx_bound_surface_capacity = 0\<rparr>"
  have inv: "accel_inv b ?s" using assms(2) by simp
  have same: "keeps_contexts cid s t" if "ac_contexts t = ac_contexts s" for t using that by (rule keeps_refl)
  have add: "keeps_contexts cid s (ac_blocks 1 t) \<and> ac_surfaces t = ac_surfaces s"
    if "poolAddContext e ?c (?s\<lparr>ac_next_context_id := ac_next_context_id s + 1\<rparr>) = Some t" for t
    using inv_add_context(2,3) [OF inv assms(3,4), of ?c t] that
    by (auto simp: bound_ok_def keeps_contexts_def ac_blocks_def poolAddContext_def)
  show "keeps_contexts cid s s'"
    using assms(1) add same by (auto simp: accel_create3DContext_def r Let_def on_accel_gpu_def split: if_splits option.splits)
  show "ac_surfaces s' = ac_surfaces s"
    using assms(1) add by (auto simp: accel_create3DContext_def r Let_def on_accel_gpu_def ac_blocks_def split: if_splits option.splits)
qed

lemma present_keeps:
  assumes "accel_inv b s"
  shows "keeps_surfaces s (snd (accel_present3DSurface e junk cid sid s))"
    "ac_contexts (snd (accel_present3DSurface e junk cid sid s)) = ac_contexts s"
proof -
  have "keeps_surfaces s (snd (accel_present3DSurface e junk cid sid s))
     \<and> ac_contexts (snd (accel_present3DSurface e junk cid sid s)) = ac_contexts s"
  proof (cases "accel_findContext cid s = None \<or> accel_findSurface sid s = None")
    case True
    then show ?thesis by (auto simp: accel_present3DSurface_def keeps_refl split: option.splits)
  next
    case False
    then obtain ci si where f: "accel_findContext cid s = Some ci" "accel_findSurface sid s = Some si" by auto
    define tried where "tried = (ac_has_gpu s \<and> supports3D (ac_gpu s))"
    obtain hw g where u: "(if tried then updateDisplay e 0 (su_gpu_resource_id (surface_at si s)) 0 0 (si_width (su_info (surface_at si s)))
        (si_height (su_info (surface_at si s))) (ac_gpu s) else (kIOReturnUnsupported, ac_gpu s)) = (hw, g)" by (metis surj_pair)
    obtain r2 s2 where p2: "present_vram (s\<lparr>ac_gpu := g\<rparr>) (surface_at si s) (if tried then hw else kIOReturnSuccess) = (r2, s2)"
      by (metis surj_pair)
    obtain r3 s3 where p3: "present_execute e junk (context_at ci s2) (surface_at si s) r2 s2 = (r3, s3)" by (metis surj_pair)
    have 2: "ac_contexts s2 = ac_contexts s" "ac_surfaces s2 = ac_surfaces s" using present_vram_cases [OF p2] by auto
    then have 3: "ac_contexts s3 = ac_contexts s" "ac_surfaces s3 = ac_surfaces s" using present_execute_cases [OF p3] by auto
    note fs = findSurface_Some [OF f(2)]
    have look: "surface_of s sid = Some (surface_at si s)"
      using f(2) fs by (simp add: pool_look_def accel_findSurface_def)
    have put: "surface_of (put_surface si ((surface_at si s)\<lparr>su_is_render_target := True\<rparr>) s3)
        = (surface_of s)(sid \<mapsto> (surface_at si s)\<lparr>su_is_render_target := True\<rparr>)"
      using pool_look_put [of su_surface_id "ac_surfaces s" si "surface_at si s"] fs assms 3
      by (simp add: put_surface_def accel_inv_def)
    have ks: "keeps_surfaces s t" if "surface_of t = (surface_of s)(sid \<mapsto> (surface_at si s)\<lparr>su_is_render_target := True\<rparr>)" for t
    proof -
      have "x = x\<lparr>su_is_render_target := su_is_render_target x\<rparr>" for x :: AccelSurface by simp
      then show ?thesis using look that unfolding keeps_surfaces_def by (metis fun_upd_apply option.inject)
    qed
    have "keeps_surfaces s ((put_surface si ((surface_at si s)\<lparr>su_is_render_target := True\<rparr>) s3)\<lparr>ac_draw_calls := n\<rparr>)" for n
      using put by (intro ks) (simp add: put_surface_def)
    then show ?thesis using 2 3
      by (simp add: accel_present3DSurface_def f tried_def [symmetric] u p2 p3 Let_def keeps_refl) (simp add: put_surface_def)
  qed
  then show "keeps_surfaces s (snd (accel_present3DSurface e junk cid sid s))"
    "ac_contexts (snd (accel_present3DSurface e junk cid sid s)) = ac_contexts s" by auto
qed

text \<open>C22. A client is confined to its context: whatever selector it calls with whatever arguments, and whatever the kernel's
  argument check lets through, the contexts of the other clients stay exactly as they are, and no surface of any
  client disappears or changes its contents, its memory or its resource.\<close>

theorem accel_client_confined:
  assumes "(accel_step e ^^ n) (snd (accel_start dev True (accel_init s0))) s" "ac_heap s0 = 0" "ac_refs s0 = (\<lambda>_. 0)" "heap_bounded e" "n < 2 ^ 31 - 1"
    and "accel_externalMethod check no_function e junk selector a u s = (ret, out, u', s')"
  shows "(\<forall>k. k \<noteq> ucl_context_id u \<and> context_of s k \<noteq> None \<longrightarrow> context_of s' k = context_of s k)
     \<and> (\<forall>k x. surface_of s k = Some x \<longrightarrow> (\<exists>t. surface_of s' k = Some (x\<lparr>su_is_render_target := t\<rparr>)))"
proof -
  have inv: "accel_inv (1 + 2 * n) s"
    using accel_run_inv [OF assms(1) accel_start_inv [OF assms(2,3)] assms(4)] assms(5) by simp
  have lim: "1 + 2 * n + 1 < 2 ^ 32" using assms(5) by simp
  let ?keep = "\<lambda>t. keeps_contexts (ucl_context_id u) s t \<and> keeps_surfaces s t"
  have same: "?keep t" if "ac_contexts t = ac_contexts s" "ac_surfaces t = ac_surfaces s" for t using that keeps_refl by blast
  have ctx: "?keep t" if "accel_create3DContext e task s = (r, c, t)" for task r c t
    using create_context_keeps [OF that inv assms(4) lim] keeps_refl by blast
  have des: "?keep (snd (accel_destroy3DContext e (ucl_context_id u) s))"
    using destroy_context_of [OF inv] by (simp add: keeps_contexts_def keeps_refl accel_destroy3DContext_def)
  have surf: "?keep t" if "accel_create3DSurface e (ucl_context_id u) (Some i) s = (r, t)" for i r t
    using create_surface_cases [OF that inv assms(4) lim] keeps_refl
    by (auto simp: keeps_surfaces_def)
  have sub: "?keep (snd (accel_submit3DCommands e (ucl_context_id u) cmds s))" for cmds
    by (intro same) (auto simp: accel_submit3DCommands_def Let_def split: option.splits prod.splits)
  have pres: "?keep (snd (accel_present3DSurface e junk (ucl_context_id u) sid s))" for sid
    using present_keeps [OF inv] keeps_refl by blast
  let ?st = "\<lambda>r. snd (snd (snd r))"
  have 0: "?keep (?st (sCreate3DContext e u s))"
    using ctx [of "ucl_task u"] same [of s]
    by (cases "accel_create3DContext e (ucl_task u) s") (auto simp: sCreate3DContext_def split: option.splits)
  have 1: "?keep (?st (sDestroy3DContext e c u s))" for c
    using des same [of s] by (cases "accel_destroy3DContext e (ucl_context_id u) s") (auto simp: sDestroy3DContext_def)
  have 2: "?keep (?st (sCreate3DSurface e c i u s))" for c i
  proof (cases i)
    case None
    then show ?thesis using same [of s] by (simp add: sCreate3DSurface_def accel_create3DSurface_def)
  next
    case (Some j)
    then show ?thesis using surf [of j] same [of s]
      by (cases "accel_create3DSurface e (ucl_context_id u) (Some j) s") (simp add: sCreate3DSurface_def)
  qed
  have 3: "?keep (?st (sDestroy3DSurface c k u s))" for c k using same [of s] by (simp add: sDestroy3DSurface_def)
  have 4: "?keep (?st (sSubmit3DCommands e c d u s))" for c d
    using sub [of d] same [of s] by (cases "accel_submit3DCommands e (ucl_context_id u) d s") (auto simp: sSubmit3DCommands_def)
  have 5: "?keep (?st (sPresent3DSurface e junk c k u s))" for c k
    using pres [of k] same [of s] by (cases "accel_present3DSurface e junk (ucl_context_id u) k s") (auto simp: sPresent3DSurface_def)
  define K where "K = (\<lambda>r :: io_return \<times> u64 list \<times> accel_client \<times> accel. ?keep (?st r))"
  have "K (r, [], u, s)" for r using same [of s] by (simp add: K_def)
  moreover have "K (sCreate3DContext e u s)" "\<And>c. K (sDestroy3DContext e c u s)" "\<And>c i. K (sCreate3DSurface e c i u s)"
    "\<And>c k. K (sDestroy3DSurface c k u s)" "\<And>c d. K (sSubmit3DCommands e c d u s)" "\<And>c k. K (sPresent3DSurface e junk c k u s)"
    using 0 1 2 3 4 5 unfolding K_def by blast+
  ultimately have "K (accel_externalMethod check no_function e junk selector a u s)" by (simp add: accel_externalMethod_def Let_def)
  then have "?keep s'" unfolding K_def assms(6) by simp
  then show ?thesis by (simp add: keeps_contexts_def keeps_surfaces_def)
qed

text \<open>Surfaces outlive their client: on success the call returns the id the caller passed in, not that of the new surface;
  and when the client closes, its context is gone but the surface stays in the table with its memory referenced.\<close>

theorem client_surfaces_leak:
  assumes "(accel_step e ^^ n) (snd (accel_start dev True (accel_init s0))) s" "ac_heap s0 = 0" "ac_refs s0 = (\<lambda>_. 0)" "heap_bounded e" "n < 2 ^ 31 - 2"
    and "sCreate3DSurface e cid (Some i) u s = (kIOReturnSuccess, out, u', s')" "accel_clientClose e u' s' = (r, u'', s'')"
  shows "out = [ucast (si_surface_id i)] \<and> surface_of s (ac_next_surface_id s') = None \<and> context_of s'' cid = None
     \<and> (\<exists>x d. surface_of s'' (ac_next_surface_id s') = Some x \<and> su_backing_memory x = Some d \<and> 1 \<le> ac_refs s'' (md_id d))"
proof -
  have inv: "accel_inv (1 + 2 * n) s"
    using accel_run_inv [OF assms(1) accel_start_inv [OF assms(2,3)] assms(4)] assms(5) by simp
  have lim: "1 + 2 * n + 1 < 2 ^ 32" using assms(5) by simp
  have c: "ucl_has_context u" "cid = ucl_context_id u" "accel_create3DSurface e cid (Some i) s = (kIOReturnSuccess, s')"
    "out = [ucast (si_surface_id i)]" "u' = u"
    using assms(6) by (auto simp: sCreate3DSurface_def split: if_splits prod.splits)
  obtain x d where x: "surface_of s' = (surface_of s)(ac_next_surface_id s' \<mapsto> x)" "su_backing_memory x = Some d"
    "surface_of s (ac_next_surface_id s') = None"
    using create_surface_cases [OF c(3) inv assms(4) lim] by auto
  have inv': "accel_inv (1 + 2 * n + 1) s'" using inv_create_surface [OF inv assms(4) lim, of cid "Some i"] c(3) by simp
  have s'': "s'' = snd (destroyContextInternal e cid s')"
    using assms(7) c by (simp add: accel_clientClose_def accel_destroy3DContext_def)
  note d = destroy_context_of [OF inv', of e cid]
  have "x \<in> set (live_surfaces s')" using x(1) pool_look_in [of su_surface_id "ac_surfaces s'" "ac_next_surface_id s'" x] by simp
  then have "1 \<le> surface_refs (live_surfaces s') (md_id d)"
    using x(2) by (auto simp: surface_refs_def Suc_le_eq filter_empty_conv)
  then have "1 \<le> ac_refs s'' (md_id d)" using inv' d(3) by (simp add: s'' accel_inv_def)
  then show ?thesis using c(4) x d by (auto simp: s'')
qed

text \<open>Command submission is dead: the dispatch entry demands an input structure of no bytes, so with a kernel that checks
  sizes, as it is documented to, every call of the submit selector fails before anything reaches the device.\<close>

theorem submit_selector_dead:
  assumes "\<And>d b. check d b \<Longrightarrow> (case xa_desc b of None \<Rightarrow> xa_struct_size b | Some m \<Rightarrow> md_length m) = xd_struct_in d"
  shows "\<exists>ret. accel_externalMethod check no_function e junk 4 a u s = (ret, [], u, s) \<and> ret \<noteq> kIOReturnSuccess"
proof (cases "check (sMethods ! 4) a")
  case False
  then show ?thesis by (simp add: accel_externalMethod_def)
next
  case True
  have "xd_struct_in (sMethods ! 4) = 0" by (simp add: sMethods_def)
  then have "xa_desc a = Some m \<Longrightarrow> md_length m = 0" for m using assms [OF True] by simp
  then have "\<exists>ret. sSubmit3DCommands e c (xa_desc a) u s = (ret, [], u, s) \<and> ret \<noteq> kIOReturnSuccess" for c
    by (cases "xa_desc a")
      (auto simp: sSubmit3DCommands_def accel_submit3DCommands_def executeCommands_def Let_def split: option.splits)
  then show ?thesis using True by (simp add: accel_externalMethod_def Let_def)
qed

section \<open>A sample run\<close>

definition sample_accel_env :: device_env where
  "sample_accel_env = sample_env\<lparr>kmalloc := (\<lambda>_ n. if n < 2 ^ 33 then Some (replicate n 0) else None)\<rparr>"

definition sample_accel :: accel where
  "sample_accel = \<lparr>ac_gpu = sample_gpu, ac_has_gpu = False, ac_framebuffer = False, ac_vram = Mapped (replicate 16 7), ac_device = Some (2, 2),
     ac_contexts = ([], 0), ac_surfaces = ([], 0), ac_next_context_id = 0, ac_next_surface_id = 0, ac_draw_calls = 0,
     ac_triangles_rendered = 0, ac_memory_used = 0, ac_commands_submitted = 0, ac_refs = (\<lambda>_. 0), ac_heap = 0\<rparr>"

definition sample_info :: "u32 \<Rightarrow> u32 \<Rightarrow> VM3DSurfaceInfo" where
  "sample_info w h = \<lparr>si_surface_id = 77, si_width = w, si_height = h, si_depth = 1, si_format = 21\<rparr>"

lemma sample_accel_good: "good_device sample_accel_env sample_gpu"
  using sample_good by (simp add: good_device_def serving_def sample_accel_env_def)

lemma sample_accel_bounded: "heap_bounded sample_accel_env"
  by (simp add: heap_bounded_def sample_accel_env_def)

lemma createRenderContext_good:
  assumes "good_device e g" "supports3D g"
  shows "\<exists>t. createRenderContext e g = (kIOReturnSuccess, Some (m_next_context_id g + 1), g\<lparr>m_next_context_id := m_next_context_id g + 1, g_tr := t\<rparr>)
     \<and> good_device e (g\<lparr>m_next_context_id := m_next_context_id g + 1, g_tr := t\<rparr>)"
proof -
  let ?c = "m_next_context_id g + 1" and ?g = "g\<lparr>m_next_context_id := m_next_context_id g + 1\<rparr>"
  obtain hdr where h: "initializeCommandHeader VIRTIO_GPU_CMD_CTX_CREATE ?c False ?g = (hdr, ?g)"
    by (simp add: initializeCommandHeader_def Let_def)
  have "good_device e ?g" using assms(1) by (simp add: good_device_def)
  then show ?thesis
    using send_hdr_ok [of e ?g "wire_encode hdr (Ctx_create (word_of_nat (length (ctx_name ?c))) 0 (snprintf64 (ctx_name ?c)))"] assms(2) h
    by (auto simp: createRenderContext_def Let_def length_wire_encode)
qed

lemma sample_accel_mem [simp]: "ac_mem sample_accel_env s n \<longleftrightarrow> n < 2 ^ 33"
  by (simp add: ac_mem_def sample_accel_env_def)

lemma free_index_replicate [simp]: "0 < n \<Longrightarrow> free_index (replicate n None) = Some 0"
  by (cases n) auto

lemma key_index_first [simp]: "0 < n \<Longrightarrow> key_index key (key x) ((replicate n None)[0 := Some x]) = Some 0"
  by (cases n) auto

lemma sample_context:
  obtains s1 t where "accel_create3DContext sample_accel_env 9 (snd (accel_start (Some sample_gpu) True (accel_init sample_accel)))
       = (kIOReturnSuccess, Some 2, s1)"
     "good_device sample_accel_env (ac_gpu s1)" "ac_gpu s1 = sample_gpu\<lparr>m_next_context_id := 2, g_tr := t\<rparr>"
     "accel_findContext 2 s1 = Some 0" "ac_has_gpu s1" "ac_surfaces s1 = (replicate 64 None, 0)" "ac_next_surface_id s1 = 1"
proof -
  let ?s = "snd (accel_start (Some sample_gpu) True (accel_init sample_accel))"
  have n: "supports3D sample_gpu" "m_next_context_id sample_gpu + 1 = 2" by (simp_all add: supports3D_def sample_gpu_def gpu_init_def)
  obtain t where t: "createRenderContext sample_accel_env sample_gpu = (kIOReturnSuccess, Some 2, sample_gpu\<lparr>m_next_context_id := 2, g_tr := t\<rparr>)"
    "good_device sample_accel_env (sample_gpu\<lparr>m_next_context_id := 2, g_tr := t\<rparr>)"
    using createRenderContext_good [OF sample_accel_good n(1)] unfolding n(2) by blast
  let ?c = "\<lparr>cx_context_id = 2, cx_gpu_context_id = 2, cx_command_buffer = None, cx_owning_task = 9, cx_bound_surface_ids = [],
       cx_bound_surface_capacity = 0\<rparr>"
  define s1 where "s1 = ac_blocks 1 (?s\<lparr>ac_gpu := sample_gpu\<lparr>m_next_context_id := 2, g_tr := t\<rparr>, ac_next_context_id := 2,
       ac_contexts := ((replicate 16 None)[0 := Some ?c], 1)\<rparr>)"
  have s: "ac_gpu ?s = sample_gpu" "ac_has_gpu ?s" "ac_next_context_id ?s = 1" "ac_contexts ?s = (replicate 16 None, 0)"
    "ac_surfaces ?s = (replicate 64 None, 0)" "ac_next_surface_id ?s = 1"
    by (simp_all add: accel_start_def accel_init_def)
  have "accel_create3DContext sample_accel_env 9 ?s = (kIOReturnSuccess, Some 2, s1)"
    by (simp add: accel_create3DContext_def s t Let_def poolAddContext_def pool_add_def s1_def)
  moreover have "accel_findContext 2 s1 = Some 0"
    using key_index_first [of 16 cx_context_id ?c] by (simp add: s1_def ac_blocks_def accel_findContext_def del: key_index_first)
  ultimately show thesis using t(2) s by (intro that [of s1 t]) (simp_all add: s1_def ac_blocks_def)
qed

lemma allocateResource3D_good:
  assumes "good_device e g" "supports3D g" "findResource g (m_next_resource_id g + 1) = None"
  shows "\<exists>g'. allocateResource3D e target fmt w h d g = (kIOReturnSuccess, m_next_resource_id g + 1, g')"
proof -
  let ?g = "g\<lparr>m_next_resource_id := m_next_resource_id g + 1\<rparr>"
  have "good_device e ?g" "supports3D ?g" "findResource ?g (m_next_resource_id g + 1) = None"
    using assms by (simp_all add: good_device_def supports3D_def findResource_def)
  then show ?thesis
    using send_hdr_ok [of e ?g "wire_encode (mk_hdr VIRTIO_GPU_CMD_RESOURCE_CREATE_3D 0) (create3d_body (m_next_resource_id g + 1) target fmt 0 w h d)"]
    by (auto simp: allocateResource3D_def createResource3D_def Let_def create3d_body_def length_wire_encode split: option.splits)
qed

lemma find_slot_free: "find_slot rid (replicate n free_slot) = None"
  by (induction n) (simp_all add: free_slot_def)

lemma sample_surface:
  obtains s1 s2 where "accel_create3DContext sample_accel_env 9 (snd (accel_start (Some sample_gpu) True (accel_init sample_accel)))
       = (kIOReturnSuccess, Some 2, s1)"
    "accel_create3DSurface sample_accel_env 2 (Some (sample_info 1 1)) s1 = (kIOReturnSuccess, s2)"
proof -
  obtain s1 t where s1: "accel_create3DContext sample_accel_env 9 (snd (accel_start (Some sample_gpu) True (accel_init sample_accel)))
       = (kIOReturnSuccess, Some 2, s1)"
     "good_device sample_accel_env (ac_gpu s1)" "ac_gpu s1 = sample_gpu\<lparr>m_next_context_id := 2, g_tr := t\<rparr>"
     "accel_findContext 2 s1 = Some 0" "ac_has_gpu s1" "ac_surfaces s1 = (replicate 64 None, 0)" "ac_next_surface_id s1 = 1"
    by (rule sample_context)
  have "findResource (ac_gpu s1) (m_next_resource_id (ac_gpu s1) + 1) = None" "supports3D (ac_gpu s1)"
    by (simp_all add: s1(3) sample_gpu_def gpu_init_def findResource_def find_slot_free supports3D_def)
  then obtain g' where g: "allocateResource3D sample_accel_env 1 21 1 1 1 (ac_gpu s1) = (kIOReturnSuccess, m_next_resource_id (ac_gpu s1) + 1, g')"
    using allocateResource3D_good [OF s1(2)] by blast
  have i: "si_format (sample_info 1 1) = 21" "si_width (sample_info 1 1) = 1" "si_height (sample_info 1 1) = 1"
    by (simp_all add: sample_info_def)
  have "bmd_alloc sample_accel_env n 4 = Some (sample_desc n 4)" for n by (simp add: sample_accel_env_def sample_env_def)
  then have "\<exists>s2. accel_create3DSurface sample_accel_env 2 (Some (sample_info 1 1)) s1 = (kIOReturnSuccess, s2)"
    by (simp add: accel_create3DSurface_def s1(4-7) i g Let_def accel_allocateSurfaceMemory_def accel_calculateSurfaceSize_def
        poolAddSurface_def pool_add_def)
  then show thesis using that s1(1) by blast
qed

lemma sample_accel_zero: "ac_heap sample_accel = 0" "ac_refs sample_accel = (\<lambda>_. 0)"
  by (simp_all add: sample_accel_def)

lemma sample_accel_run:
  obtains s1 s2 where "accel_create3DSurface sample_accel_env 2 (Some (sample_info 1 1)) s1 = (kIOReturnSuccess, s2)"
    "(accel_step sample_accel_env ^^ 1) (snd (accel_start (Some sample_gpu) True (accel_init sample_accel))) s1"
    "(accel_step sample_accel_env ^^ 2) (snd (accel_start (Some sample_gpu) True (accel_init sample_accel))) s2"
proof -
  let ?s = "snd (accel_start (Some sample_gpu) True (accel_init sample_accel))"
  obtain s1 s2 where s: "accel_create3DContext sample_accel_env 9 ?s = (kIOReturnSuccess, Some 2, s1)"
    "accel_create3DSurface sample_accel_env 2 (Some (sample_info 1 1)) s1 = (kIOReturnSuccess, s2)" by (rule sample_surface)
  have "accel_step sample_accel_env ?s s1" using create_context [of sample_accel_env ?s 9] s(1) by simp
  moreover have "accel_step sample_accel_env s1 s2" using create_surface [of sample_accel_env s1 2] s(2) by (metis snd_conv)
  ultimately show thesis using s(2) by (intro that [of s1 s2]) (auto simp: numeral_2_eq_2 relcompp_apply)
qed

theorem accel_tables_sound_witness:
  "\<exists>s. (accel_step sample_accel_env ^^ 2) (snd (accel_start (Some sample_gpu) True (accel_init sample_accel))) s
     \<and> distinct (map su_surface_id (live_surfaces s)) \<and> unat (snd (ac_surfaces s)) = length (live_surfaces s)"
proof -
  obtain s1 s2 where s: "(accel_step sample_accel_env ^^ 2) (snd (accel_start (Some sample_gpu) True (accel_init sample_accel))) s2"
    by (rule sample_accel_run)
  from accel_tables_sound [OF s sample_accel_zero sample_accel_bounded] s show ?thesis by auto
qed

theorem accel_stop_releases_witness:
  "\<exists>s. (accel_step sample_accel_env ^^ 2) (snd (accel_start (Some sample_gpu) True (accel_init sample_accel))) s
     \<and> ac_heap (accel_stop sample_accel_env s) = 0"
proof -
  obtain s1 s2 where s: "(accel_step sample_accel_env ^^ 2) (snd (accel_start (Some sample_gpu) True (accel_init sample_accel))) s2"
    by (rule sample_accel_run)
  from accel_stop_releases [OF s sample_accel_zero sample_accel_bounded] s show ?thesis by auto
qed

text \<open>A client whose context is 2, and one whose context is 3.\<close>

definition sample_client :: "u32 \<Rightarrow> accel_client" where
  "sample_client c = \<lparr>ucl_task = 9, ucl_context_id = c, ucl_has_context = True\<rparr>"

theorem accel_client_confined_witness:
  "\<exists>s ret out u' s'. accel_externalMethod (\<lambda>_ _. True) kIOReturnUnsupported sample_accel_env [] 1
        \<lparr>xa_scalars = [3], xa_struct = None, xa_struct_size = 0, xa_desc = None, xa_out_count = 0, xa_out_size = 0\<rparr>
        (sample_client 3) s = (ret, out, u', s')
     \<and> (\<forall>k. k \<noteq> 3 \<and> context_of s k \<noteq> None \<longrightarrow> context_of s' k = context_of s k)"
proof -
  let ?a = "\<lparr>xa_scalars = [3], xa_struct = None, xa_struct_size = 0, xa_desc = None, xa_out_count = 0, xa_out_size = 0\<rparr>"
  obtain s1 s2 where s: "(accel_step sample_accel_env ^^ 2) (snd (accel_start (Some sample_gpu) True (accel_init sample_accel))) s2"
    by (rule sample_accel_run)
  obtain ret out u' s' where x: "accel_externalMethod (\<lambda>_ _. True) kIOReturnUnsupported sample_accel_env [] 1 ?a (sample_client 3) s2
      = (ret, out, u', s')" by (rule prod_cases4)
  from accel_client_confined [OF s sample_accel_zero sample_accel_bounded _ x]
  have "\<forall>k. k \<noteq> 3 \<and> context_of s2 k \<noteq> None \<longrightarrow> context_of s' k = context_of s2 k" by (simp add: sample_client_def)
  then show ?thesis using x by blast
qed

theorem client_surfaces_leak_witness:
  "\<exists>s out u' s' r u'' s''. sCreate3DSurface sample_accel_env 2 (Some (sample_info 1 1)) (sample_client 2) s = (kIOReturnSuccess, out, u', s')
     \<and> out = [77] \<and> accel_clientClose sample_accel_env u' s' = (r, u'', s'') \<and> surface_of s'' (ac_next_surface_id s') \<noteq> None"
proof -
  obtain s1 s2 where s: "accel_create3DSurface sample_accel_env 2 (Some (sample_info 1 1)) s1 = (kIOReturnSuccess, s2)"
    "(accel_step sample_accel_env ^^ 1) (snd (accel_start (Some sample_gpu) True (accel_init sample_accel))) s1"
    by (rule sample_accel_run)
  have c: "sCreate3DSurface sample_accel_env 2 (Some (sample_info 1 1)) (sample_client 2) s1 = (kIOReturnSuccess, [77], sample_client 2, s2)"
    using s(1) by (simp add: sCreate3DSurface_def sample_client_def sample_info_def)
  obtain r u'' s'' where x: "accel_clientClose sample_accel_env (sample_client 2) s2 = (r, u'', s'')" by (rule prod_cases3)
  from client_surfaces_leak [OF s(2) sample_accel_zero sample_accel_bounded _ c x] c x show ?thesis by fastforce
qed

theorem submit_selector_dead_witness:
  "\<exists>ret. accel_externalMethod (\<lambda>d b. (case xa_desc b of None \<Rightarrow> xa_struct_size b | Some m \<Rightarrow> md_length m) = xd_struct_in d) kIOReturnUnsupported
     sample_accel_env [] 4 \<lparr>xa_scalars = [2], xa_struct = None, xa_struct_size = 0, xa_desc = Some (sample_desc 0 0), xa_out_count = 0, xa_out_size = 0\<rparr>
     (sample_client 2) sample_accel = (ret, [], sample_client 2, sample_accel) \<and> ret \<noteq> kIOReturnSuccess"
  by (rule submit_selector_dead) simp

text \<open>A screen of 2 by 2 pixels, and surfaces of 1 by 1 and 1 by 3.\<close>

definition sample_screen :: "u32 \<Rightarrow> u32 \<Rightarrow> accel" where
  "sample_screen h sh = sample_accel\<lparr>ac_framebuffer := True, ac_device := Some (2, sh),
     ac_contexts := ([Some \<lparr>cx_context_id = 2, cx_gpu_context_id = 2, cx_command_buffer = None, cx_owning_task = 9,
        cx_bound_surface_ids = [], cx_bound_surface_capacity = 0\<rparr>], 1),
     ac_surfaces := ([Some \<lparr>su_surface_id = 5, su_gpu_resource_id = 0, su_info = sample_info 1 h,
        su_backing_memory = Some ((sample_desc 0 (4 * unat h))\<lparr>md_map := Some (replicate (4 * unat h) 1)\<rparr>), su_is_render_target = False\<rparr>], 1)\<rparr>"

lemma sample_screen_facts:
  "accel_findContext 2 (sample_screen h sh) = Some 0" "accel_findSurface 5 (sample_screen h sh) = Some 0" "\<not> ac_has_gpu (sample_screen h sh)"
  "ac_framebuffer (sample_screen h sh)" "ac_vram (sample_screen h sh) = Mapped (replicate 16 7)" "ac_device (sample_screen h sh) = Some (2, sh)"
  "su_info (surface_at 0 (sample_screen h sh)) = sample_info 1 h"
  "su_backing_memory (surface_at 0 (sample_screen h sh)) = Some ((sample_desc 0 (4 * unat h))\<lparr>md_map := Some (replicate (4 * unat h) 1)\<rparr>)"
  by (simp_all add: sample_screen_def sample_accel_def accel_findContext_def accel_findSurface_def surface_at_def)

theorem present_centred_witness:
  "\<exists>s' vram'. accel_present3DSurface sample_accel_env [] 2 5 (sample_screen 1 2) = (kIOReturnSuccess, s') \<and> ac_vram s' = Mapped vram'
     \<and> vram' ! 0 = 1 \<and> vram' ! 4 = 7"
proof -
  have i: "si_width (sample_info 1 1) = 1" "si_height (sample_info 1 1) = 1" "si_format (sample_info 1 1) \<noteq> 23" by (simp_all add: sample_info_def)
  note f = sample_screen_facts [of 1 2]
  from present_centred [where e = sample_accel_env and junk = "[]" and src = "replicate 4 1", OF f(1,2) _ f(4-8)] i
  obtain s' v where v: "accel_present3DSurface sample_accel_env [] 2 5 (sample_screen 1 2) = (kIOReturnSuccess, s')" "ac_vram s' = Mapped v"
    "\<forall>j < 4. v ! j = replicate 4 1 ! j" "\<forall>p < 16. \<not> p < 4 \<longrightarrow> v ! p = replicate 16 7 ! p"
    by (auto simp: sample_screen_facts(3))
  then have "v ! 0 = 1" "v ! 4 = 7" by (simp_all del: replicate.simps)
  then show ?thesis using v by blast
qed

theorem present_escapes_vram_witness:
  "fst (accel_present3DSurface sample_accel_env [] 2 5 (sample_screen 3 1)) = Kernel_panic"
proof -
  have i: "si_width (sample_info 1 3) = 1" "si_height (sample_info 1 3) = 3" "si_format (sample_info 1 3) \<noteq> 23" by (simp_all add: sample_info_def)
  note f = sample_screen_facts [of 3 1]
  show ?thesis
    using present_escapes_vram [where e = sample_accel_env and junk = "[]" and src = "replicate 12 1" and k = 1 and gap = 2, OF f(1,2) _ f(4-8)] i
    by (simp add: sample_screen_facts(3))
qed

end
