(* ===== verification/Surface_Cache.thy ===== *)
theory Surface_Cache
  imports Prelude "HOL-Library.Multiset"
begin

text \<open>
  The discovery cache in front of the surface table (\<^verbatim>\<open>VMIOSurfaceManager_Helpers.cpp\<close>): 64 entries in file-scope
  statics, filled on every lookup that misses, extended by prefetching and by pre-warming, replaced least recently used
  first, and reordered by use. The table itself is a map from ids to objects; an object is named by a number, and the
  cache stores the bare pointer without a reference of its own.
\<close>

section \<open>State\<close>

record VMSurfaceCacheEntry =
  ce_surface_id :: u32
  ce_surface_object :: "nat option"
  ce_last_access_time :: u64
  ce_access_count :: u32
  ce_discovery_cost :: u32
  ce_is_prefetched :: bool
  ce_is_high_priority :: bool

text \<open>\<open>dc_entries\<close> are the first \<^verbatim>\<open>g_cache_size\<close> entries; the statistics that steer prefetching and the window.\<close>

record discovery =
  dc_entries :: "VMSurfaceCacheEntry list"
  dc_total_lookups :: u32
  dc_cache_hits :: u32
  dc_cache_misses :: u32
  dc_fast_path_hits :: u32
  dc_sequential :: u32
  dc_random :: u32
  dc_last_accessed :: u32
  dc_window :: u32

definition discovery_init :: discovery where
  "discovery_init = \<lparr>dc_entries = [], dc_total_lookups = 0, dc_cache_hits = 0, dc_cache_misses = 0, dc_fast_path_hits = 0,
     dc_sequential = 0, dc_random = 0, dc_last_accessed = 0, dc_window = 8\<rparr>"

section \<open>Lookup\<close>

fun cache_index :: "u32 \<Rightarrow> VMSurfaceCacheEntry list \<Rightarrow> nat option" where
  "cache_index sid [] = None"
| "cache_index sid (c # cs) =
     (if ce_surface_id c = sid \<and> ce_surface_object c \<noteq> None then Some 0 else map_option Suc (cache_index sid cs))"

definition note_access :: "u32 \<Rightarrow> discovery \<Rightarrow> discovery" where
  "note_access sid c =
     (let c1 = (if dc_last_accessed c = sid - 1 then c\<lparr>dc_sequential := dc_sequential c + 1\<rparr>
                else c\<lparr>dc_random := dc_random c + 1\<rparr>)
      in c1\<lparr>dc_last_accessed := sid\<rparr>)"

definition cache_hit :: "u64 \<Rightarrow> u32 \<Rightarrow> nat \<Rightarrow> discovery \<Rightarrow> discovery" where
  "cache_hit now sid i c =
     (let en = dc_entries c ! i;
          c1 = c\<lparr>dc_entries := (dc_entries c)[i := en\<lparr>ce_last_access_time := now, ce_access_count := ce_access_count en + 1\<rparr>],
                 dc_cache_hits := dc_cache_hits c + 1, dc_fast_path_hits := dc_fast_path_hits c + 1\<rparr>
      in note_access sid c1)"

text \<open>Prefetching the next id when the accesses look sequential; the products and sums are in 32 bits.\<close>

definition prefetch :: "u64 \<Rightarrow> u32 \<Rightarrow> (u32 \<Rightarrow> nat option) \<Rightarrow> discovery \<Rightarrow> discovery" where
  "prefetch now sid surfaces c =
     (if dc_sequential c > dc_random c * 2 \<and> sid + 1 < sid + dc_window c then
        case surfaces (sid + 1) of
          None \<Rightarrow> c
        | Some ob \<Rightarrow>
            if length (dc_entries c) < 64
            then c\<lparr>dc_entries := dc_entries c @ [\<lparr>ce_surface_id = sid + 1, ce_surface_object = Some ob,
                     ce_last_access_time = now, ce_access_count = 0, ce_discovery_cost = 0,
                     ce_is_prefetched = True, ce_is_high_priority = False\<rparr>]\<rparr>
            else c
      else c)"

text \<open>The index of the least recently used entry: the first with the smallest time.\<close>

fun lru_scan :: "VMSurfaceCacheEntry list \<Rightarrow> nat \<Rightarrow> nat \<Rightarrow> u64 \<Rightarrow> nat" where
  "lru_scan [] i best oldest = best"
| "lru_scan (c # cs) i best oldest =
     (if ce_last_access_time c < oldest then lru_scan cs (i + 1) i (ce_last_access_time c)
      else lru_scan cs (i + 1) best oldest)"

definition lru_index :: "VMSurfaceCacheEntry list \<Rightarrow> nat" where
  "lru_index cs = lru_scan (tl cs) 1 0 (ce_last_access_time (cs ! 0))"

definition cache_insert :: "u64 \<Rightarrow> u32 \<Rightarrow> nat \<Rightarrow> discovery \<Rightarrow> discovery" where
  "cache_insert now sid ob c =
     (let en = \<lparr>ce_surface_id = sid, ce_surface_object = Some ob, ce_last_access_time = now, ce_access_count = 1,
                ce_discovery_cost = 1, ce_is_prefetched = False, ce_is_high_priority = False\<rparr>
      in if length (dc_entries c) < 64 then c\<lparr>dc_entries := dc_entries c @ [en]\<rparr>
         else c\<lparr>dc_entries := (dc_entries c)[lru_index (dc_entries c) := en]\<rparr>)"

definition adapt_window :: "discovery \<Rightarrow> discovery" where
  "adapt_window c =
     (if dc_total_lookups c > 0 \<and> dc_total_lookups c mod 500 = 0 then
        if dc_cache_hits c > dc_cache_misses c * 3 then
          (if dc_window c < 16 then c\<lparr>dc_window := dc_window c + 1\<rparr> else c)
        else if dc_cache_misses c > dc_cache_hits c * 2 then
          (if dc_window c > 4 then c\<lparr>dc_window := dc_window c - 1\<rparr> else c)
        else c
      else c)"

text \<open>
  \<^verbatim>\<open>findSurface\<close>: the answer is the object pointer, from the cache when an entry has the id, else from the table.
  The check that the object's retain count is not 0 passes, because the table holds a reference. Time totals, which are only
  reported, are left out.
\<close>

definition find_cached :: "u64 \<Rightarrow> u32 \<Rightarrow> (u32 \<Rightarrow> nat option) \<Rightarrow> discovery \<Rightarrow> nat option \<times> discovery" where
  "find_cached now sid surfaces c =
     (if sid = 0 \<or> sid > 0x7FFFFFFF
      then (None, c\<lparr>dc_total_lookups := dc_total_lookups c + 1, dc_cache_misses := dc_cache_misses c + 1\<rparr>)
      else let c1 = c\<lparr>dc_total_lookups := dc_total_lookups c + 1\<rparr>
           in case cache_index sid (dc_entries c1) of
                Some i \<Rightarrow> (ce_surface_object (dc_entries c1 ! i), cache_hit now sid i c1)
              | None \<Rightarrow>
                  let c2 = prefetch now sid surfaces c1
                  in case surfaces sid of
                       None \<Rightarrow> (None, c2\<lparr>dc_cache_misses := dc_cache_misses c2 + 1, dc_last_accessed := sid\<rparr>)
                     | Some ob \<Rightarrow> (Some ob, (adapt_window (note_access sid (cache_insert now sid ob c2)))))"

section \<open>Management\<close>

definition flushDiscoveryCache :: "discovery \<Rightarrow> discovery" where
  "flushDiscoveryCache c = c\<lparr>dc_entries := [], dc_last_accessed := 0\<rparr>"

fun prewarm_loop :: "u32 list \<Rightarrow> (u32 \<Rightarrow> nat option) \<Rightarrow> VMSurfaceCacheEntry list \<Rightarrow> VMSurfaceCacheEntry list" where
  "prewarm_loop [] surfaces cs = cs"
| "prewarm_loop (sid # ids) surfaces cs =
     (if length cs < 64 then
        if sid = 0 then prewarm_loop ids surfaces cs
        else case surfaces sid of
               None \<Rightarrow> prewarm_loop ids surfaces cs
             | Some ob \<Rightarrow> prewarm_loop ids surfaces (cs @ [\<lparr>ce_surface_id = sid, ce_surface_object = Some ob,
                 ce_last_access_time = 0, ce_access_count = 0, ce_discovery_cost = 0,
                 ce_is_prefetched = True, ce_is_high_priority = True\<rparr>])
      else cs)"

definition prewarmDiscoveryCache :: "u32 list option \<Rightarrow> (u32 \<Rightarrow> nat option) \<Rightarrow> discovery \<Rightarrow> io_return \<times> discovery" where
  "prewarmDiscoveryCache ids surfaces c =
     (case ids of
        None \<Rightarrow> (kIOReturnBadArgument, c)
      | Some l \<Rightarrow> if l = [] then (kIOReturnBadArgument, c)
                  else (kIOReturnSuccess, c\<lparr>dc_entries := prewarm_loop l surfaces (dc_entries c)\<rparr>))"

text \<open>
  The bubble sort of \<^verbatim>\<open>optimizeDiscoveryCache\<close> by descending access count: \<open>bubble_pass n\<close> makes the first \<open>n\<close>
  comparisons of adjacent entries, \<open>bubble n\<close> the passes with \<open>n\<close>, \<open>n - 1\<close> and so on down to 1 comparisons.
\<close>

fun bubble_pass :: "nat \<Rightarrow> VMSurfaceCacheEntry list \<Rightarrow> VMSurfaceCacheEntry list" where
  "bubble_pass (Suc n) (x # y # cs) =
     (if ce_access_count x < ce_access_count y then y # bubble_pass n (x # cs) else x # bubble_pass n (y # cs))"
| "bubble_pass n cs = cs"

fun bubble :: "nat \<Rightarrow> VMSurfaceCacheEntry list \<Rightarrow> VMSurfaceCacheEntry list" where
  "bubble 0 cs = cs"
| "bubble (Suc n) cs = bubble n (bubble_pass (Suc n) cs)"

definition optimizeDiscoveryCache :: "discovery \<Rightarrow> discovery" where
  "optimizeDiscoveryCache c =
     (if dc_entries c = [] then c
      else let cs = bubble (length (dc_entries c) - 1) (dc_entries c); top = length cs div 4
           in c\<lparr>dc_entries := map (\<lambda>en. en\<lparr>ce_is_high_priority := True\<rparr>) (take top cs) @ drop top cs\<rparr>)"

section \<open>Coherence\<close>

text \<open>
  The cache is coherent with a table for a set of live objects when every entry that points to a live object agrees with
  the table. An entry may also point to an object that is gone.
\<close>

definition coherent :: "nat set \<Rightarrow> (u32 \<Rightarrow> nat option) \<Rightarrow> discovery \<Rightarrow> bool" where
  "coherent L surfaces c \<longleftrightarrow>
     (\<forall>en \<in> set (dc_entries c). \<forall>ob \<in> L. ce_surface_object en = Some ob \<longrightarrow> surfaces (ce_surface_id en) = Some ob)"

lemma cache_index_Some:
  "cache_index sid cs = Some i \<Longrightarrow> i < length cs \<and> ce_surface_id (cs ! i) = sid \<and> ce_surface_object (cs ! i) \<noteq> None"
  by (induction cs arbitrary: i) (auto split: if_splits)

lemma entries_frame [simp]:
  "dc_entries (note_access sid c) = dc_entries c" "dc_entries (adapt_window c) = dc_entries c"
  by (simp_all add: note_access_def adapt_window_def Let_def)

lemma coherent_cong: "dc_entries c' = dc_entries c \<Longrightarrow> coherent L m c' = coherent L m c"
  by (simp add: coherent_def)

lemma coherent_hit: "coherent L m c \<Longrightarrow> i < length (dc_entries c) \<Longrightarrow> coherent L m (cache_hit now sid i c)"
  by (fastforce simp: coherent_def cache_hit_def Let_def dest!: set_update_subset_insert [THEN subsetD])

lemma coherent_prefetch: "coherent L m c \<Longrightarrow> coherent L m (prefetch now sid m c)"
  by (auto simp: coherent_def prefetch_def split: option.splits)

lemma coherent_insert: "coherent L m c \<Longrightarrow> m sid = Some ob \<Longrightarrow> coherent L m (cache_insert now sid ob c)"
  by (auto simp: coherent_def cache_insert_def Let_def dest!: set_update_subset_insert [THEN subsetD])

lemma find_invalid: "sid = 0 \<or> sid > 0x7FFFFFFF \<Longrightarrow> fst (find_cached now sid m c) = None"
  by (simp add: find_cached_def)

text \<open>A lookup keeps the cache coherent, and when its answer is a live object it is the one in the table; when every
  object of the table and the cache is live, it is the lookup in the table.\<close>

lemma find_cached_coherent:
  assumes "coherent L m c"
  shows "coherent L m (snd (find_cached now sid m c))"
    and "fst (find_cached now sid m c) = Some ob \<Longrightarrow> ob \<in> L \<Longrightarrow> m sid = Some ob"
    and "\<not> (sid = 0 \<or> sid > 0x7FFFFFFF) \<Longrightarrow> fst (find_cached now sid m c) = None \<Longrightarrow> m sid = None"
proof -
  have upd: "coherent L m (c\<lparr>dc_total_lookups := t\<rparr>)" for t using assms by (simp add: coherent_def)
  note hit = coherent_hit [OF upd] and pre = coherent_prefetch [OF upd]
  note ins = coherent_insert [OF pre]
  have d: "coherent L m (x\<lparr>dc_cache_misses := t, dc_last_accessed := u\<rparr>) = coherent L m x"
    "coherent L m (x\<lparr>dc_total_lookups := t, dc_cache_misses := t'\<rparr>) = coherent L m x" for x t t' u by (simp_all add: coherent_def)
  have f: "coherent L m (adapt_window (note_access u x)) = coherent L m x" for u x by (rule coherent_cong) simp
  show "coherent L m (snd (find_cached now sid m c))"
  proof (cases "cache_index sid (dc_entries c)")
    case None
    then show ?thesis
      using assms pre ins by (auto simp: find_cached_def Let_def d f split: option.splits)
  next
    case (Some i)
    then show ?thesis
      using assms hit [of i] cache_index_Some [OF Some] by (auto simp: find_cached_def Let_def d)
  qed
  show "m sid = Some ob" if "fst (find_cached now sid m c) = Some ob" "ob \<in> L"
    using that assms
    by (fastforce simp: find_cached_def coherent_def Let_def split: if_splits option.splits dest: cache_index_Some nth_mem)
  show "m sid = None" if "\<not> (sid = 0 \<or> sid > 0x7FFFFFFF)" "fst (find_cached now sid m c) = None"
    using that by (auto simp: find_cached_def Let_def split: if_splits option.splits dest: cache_index_Some)
qed

text \<open>The pointers a lookup can leave in the cache.\<close>

definition cache_objects :: "discovery \<Rightarrow> nat set" where
  "cache_objects c = {ob. \<exists>en \<in> set (dc_entries c). ce_surface_object en = Some ob}"

lemma cache_objects_find: "cache_objects (snd (find_cached now sid m c)) \<subseteq> cache_objects c \<union> ran m"
  by (fastforce simp: cache_objects_def find_cached_def Let_def cache_hit_def prefetch_def cache_insert_def ran_def
      split: option.splits if_splits dest!: set_update_subset_insert [THEN subsetD] dest: nth_mem cache_index_Some)

lemma find_objects: "fst (find_cached now sid m c) = Some ob \<Longrightarrow> ob \<in> cache_objects c \<union> ran m"
  by (fastforce simp: cache_objects_def find_cached_def Let_def ran_def split: option.splits if_splits
      dest: nth_mem cache_index_Some)

lemma coherent_add: "coherent L m c \<Longrightarrow> ob \<notin> cache_objects c \<Longrightarrow> m sid = None \<Longrightarrow> coherent (insert ob L) (m(sid \<mapsto> ob)) c"
  by (fastforce simp: coherent_def cache_objects_def)

lemma coherent_del: "coherent L m c \<Longrightarrow> m sid = Some ob \<Longrightarrow> coherent (L - {ob}) (m(sid := None)) c"
  by (fastforce simp: coherent_def)

section \<open>A cached answer is repeated\<close>

lemma lru_scan_bound: "best < i \<Longrightarrow> lru_scan cs i best oldest < i + length cs"
proof (induction cs arbitrary: i best oldest)
  case (Cons a cs)
  then show ?case
    using Cons.IH [of i "i + 1" "ce_last_access_time a"] Cons.IH [of best "i + 1" oldest] by auto
qed simp

lemma lru_index_bound: "cs \<noteq> [] \<Longrightarrow> lru_index cs < length cs"
  using lru_scan_bound [of 0 1 "tl cs"] by (cases cs) (auto simp: lru_index_def)

lemma cache_index_append: "cache_index sid cs = None \<Longrightarrow> cache_index sid (cs @ cs') = map_option ((+) (length cs)) (cache_index sid cs')"
  by (cases "cache_index sid cs'"; induction cs) (auto split: if_splits)

lemma cache_index_update:
  "cache_index sid cs = None \<Longrightarrow> i < length cs \<Longrightarrow> ce_surface_id en = sid \<Longrightarrow> ce_surface_object en \<noteq> None \<Longrightarrow> cache_index sid (cs[i := en]) = Some i"
  by (induction cs arbitrary: i) (auto split: if_splits nat.splits)

lemma cache_index_prefetch: "cache_index sid (dc_entries c) = None \<Longrightarrow> cache_index sid (dc_entries (prefetch now sid m c)) = None"
  by (auto simp: prefetch_def cache_index_append split: option.splits)

lemma cache_index_insert:
  assumes "cache_index sid (dc_entries c) = None"
  shows "\<exists>i. cache_index sid (dc_entries (cache_insert now sid ob c)) = Some i
    \<and> ce_surface_object (dc_entries (cache_insert now sid ob c) ! i) = Some ob"
proof (cases "length (dc_entries c) < 64")
  case True
  then show ?thesis using assms by (simp add: cache_insert_def cache_index_append)
next
  case False
  then have "lru_index (dc_entries c) < length (dc_entries c)" by (intro lru_index_bound) auto
  then show ?thesis using assms False by (simp add: cache_insert_def cache_index_update)
qed

lemma cache_index_touch:
  "cache_index sid cs = Some i \<Longrightarrow> ce_surface_id en = ce_surface_id (cs ! i) \<Longrightarrow> ce_surface_object en = ce_surface_object (cs ! i)
   \<Longrightarrow> cache_index sid (cs[i := en]) = Some i"
  by (induction cs arbitrary: i) (auto split: if_splits)

lemma find_cached_hit: "cache_index sid (dc_entries c) = Some i \<Longrightarrow> \<not> (sid = 0 \<or> sid > 0x7FFFFFFF)
   \<Longrightarrow> fst (find_cached now sid m c) = ce_surface_object (dc_entries c ! i)"
  by (simp add: find_cached_def)

text \<open>Whatever happens to the table after a lookup, the next lookup of the same id repeats the answer.\<close>

lemma find_cached_again:
  assumes "fst (find_cached now sid m c) = Some ob"
  shows "fst (find_cached now' sid m' (snd (find_cached now sid m c))) = Some ob"
proof -
  have v: "\<not> (sid = 0 \<or> sid > 0x7FFFFFFF)" using assms by (auto simp: find_cached_def)
  have "\<exists>i. cache_index sid (dc_entries (snd (find_cached now sid m c))) = Some i
    \<and> ce_surface_object (dc_entries (snd (find_cached now sid m c)) ! i) = Some ob"
  proof (cases "cache_index sid (dc_entries c)")
    case None
    then have "cache_index sid (dc_entries (prefetch now sid m (c\<lparr>dc_total_lookups := dc_total_lookups c + 1\<rparr>))) = None"
      using cache_index_prefetch [of sid "c\<lparr>dc_total_lookups := dc_total_lookups c + 1\<rparr>"] by simp
    then show ?thesis using None v assms cache_index_insert by (auto simp: find_cached_def Let_def split: option.splits)
  next
    case (Some i)
    then show ?thesis using v assms cache_index_Some [OF Some] cache_index_touch [OF Some]
      by (auto simp: find_cached_def cache_hit_def Let_def)
  qed
  then show ?thesis using find_cached_hit [OF _ v] by auto
qed

section \<open>Sorting\<close>

lemma mset_bubble_pass [simp]: "mset (bubble_pass n cs) = mset cs"
  by (induction n cs rule: bubble_pass.induct) auto

lemma mset_bubble [simp]: "mset (bubble n cs) = mset cs"
  by (induction n arbitrary: cs) auto

lemma length_bubble_pass [simp]: "length (bubble_pass n cs) = length cs"
  by (metis mset_bubble_pass size_mset)

lemma bubble_pass_append: "length xs = Suc n \<Longrightarrow> bubble_pass n (xs @ ys) = bubble_pass n xs @ ys"
proof (induction n arbitrary: xs)
  case (Suc n)
  obtain x y zs where "xs = x # y # zs" using Suc.prems by (metis length_Suc_conv)
  then show ?case using Suc.IH [of "x # zs"] Suc.IH [of "y # zs"] Suc.prems by simp
qed simp

lemma bubble_pass_last: "length xs = Suc n \<Longrightarrow> x \<in> set xs \<Longrightarrow> ce_access_count (last (bubble_pass n xs)) \<le> ce_access_count x"
proof (induction n arbitrary: xs x)
  case 0
  then show ?case by (auto simp: length_Suc_conv)
next
  case (Suc n)
  obtain a b zs where xs: "xs = a # b # zs" using Suc.prems(1) by (metis length_Suc_conv)
  let ?k = "if ce_access_count a < ce_access_count b then a else b"
  have len: "length (?k # zs) = Suc n" using Suc.prems(1) xs by simp
  have "bubble_pass n (w # zs) \<noteq> []" for w using length_bubble_pass [of n "w # zs"] by force
  then have l: "last (bubble_pass (Suc n) xs) = last (bubble_pass n (?k # zs))" by (simp add: xs)
  have "ce_access_count (last (bubble_pass n (?k # zs))) \<le> ce_access_count ?k" using Suc.IH [OF len, of ?k] by simp
  moreover have "ce_access_count ?k \<le> ce_access_count a" "ce_access_count ?k \<le> ce_access_count b" by auto
  moreover have "ce_access_count (last (bubble_pass n (?k # zs))) \<le> ce_access_count x" if "x \<in> set zs"
    using Suc.IH [OF len, of x] that by simp
  moreover have "x = a \<or> x = b \<or> x \<in> set zs" using Suc.prems(2) xs by simp
  ultimately show ?case unfolding l by (blast intro: order_trans)
qed

lemma bubble_step:
  assumes "length xs = Suc (Suc n)"
  obtains zs k where "bubble_pass (Suc n) xs = zs @ [k]" "length zs = Suc n" "mset xs = mset zs + {#k#}"
    "\<And>x. x \<in> set zs \<Longrightarrow> ce_access_count k \<le> ce_access_count x"
proof -
  let ?p = "bubble_pass (Suc n) xs"
  have ne: "?p \<noteq> []" using assms by (metis length_0_conv length_bubble_pass nat.simps(3))
  then have p: "?p = butlast ?p @ [last ?p]" by simp
  have m: "mset xs = mset (butlast ?p) + {#last ?p#}" using mset_bubble_pass [of "Suc n" xs] p by (metis mset_append mset_single_iff_right)
  then have sub: "x \<in> set xs" if "x \<in> set (butlast ?p)" for x using that by (metis in_multiset_in_set union_iff)
  show thesis by (rule that [OF p _ m]) (use assms bubble_pass_last [OF assms] sub in auto)
qed

lemma length_bubble [simp]: "length (bubble n cs) = length cs"
  by (metis mset_bubble size_mset)

lemma bubble_append: "length xs = Suc n \<Longrightarrow> bubble n (xs @ ys) = bubble n xs @ ys"
proof (induction n arbitrary: xs ys)
  case (Suc n)
  from Suc.prems obtain zs k where z: "bubble_pass (Suc n) xs = zs @ [k]" "length zs = Suc n" by (rule bubble_step)
  have "bubble_pass (Suc n) (xs @ ys) = zs @ ([k] @ ys)" using bubble_pass_append [OF Suc.prems] z(1) by simp
  then show ?case using Suc.IH [OF z(2), of "[k] @ ys"] Suc.IH [OF z(2), of "[k]"] z(1) by simp
qed simp

lemma bubble_sorted: "length xs = Suc n \<Longrightarrow> sorted_wrt (\<lambda>a b. ce_access_count b \<le> ce_access_count a) (bubble n xs)"
proof (induction n arbitrary: xs)
  case 0
  then show ?case by (auto simp: length_Suc_conv)
next
  case (Suc n)
  from Suc.prems obtain zs k where z: "bubble_pass (Suc n) xs = zs @ [k]" "length zs = Suc n"
    "\<And>x. x \<in> set zs \<Longrightarrow> ce_access_count k \<le> ce_access_count x" by (rule bubble_step) blast
  have "set (bubble n zs) = set zs" by (metis mset_bubble set_mset_mset)
  then show ?case using z Suc.IH [OF z(2)] bubble_append [OF z(2), of "[k]"] by (simp add: sorted_wrt_append)
qed

lemma optimize_entries:
  assumes "dc_entries c = x # xs"
  defines "cs \<equiv> bubble (length xs) (dc_entries c)" and "k \<equiv> length (dc_entries c) div 4"
  shows "dc_entries (optimizeDiscoveryCache c) = map (\<lambda>en. en\<lparr>ce_is_high_priority := True\<rparr>) (take k cs) @ drop k cs"
    and "map ce_access_count (dc_entries (optimizeDiscoveryCache c)) = map ce_access_count cs"
proof -
  show o: "dc_entries (optimizeDiscoveryCache c) = map (\<lambda>en. en\<lparr>ce_is_high_priority := True\<rparr>) (take k cs) @ drop k cs"
    using assms by (simp add: optimizeDiscoveryCache_def Let_def)
  show "map ce_access_count (dc_entries (optimizeDiscoveryCache c)) = map ce_access_count cs"
    unfolding o map_append map_map comp_def by (simp add: take_map [symmetric] drop_map [symmetric])
qed

lemma optimize_mset:
  "mset (map (\<lambda>en. en\<lparr>ce_is_high_priority := False\<rparr>) (dc_entries (optimizeDiscoveryCache c)))
      = mset (map (\<lambda>en. en\<lparr>ce_is_high_priority := False\<rparr>) (dc_entries c))"
proof (cases "dc_entries c")
  case (Cons x xs)
  let ?cs = "bubble (length xs) (dc_entries c)"
  have "map (\<lambda>en. en\<lparr>ce_is_high_priority := False\<rparr>) (dc_entries (optimizeDiscoveryCache c)) = map (\<lambda>en. en\<lparr>ce_is_high_priority := False\<rparr>) ?cs"
    unfolding optimize_entries(1) [OF Cons] map_append map_map comp_def by (simp add: take_map [symmetric] drop_map [symmetric])
  then show ?thesis using mset_bubble [of "length xs" "dc_entries c"] by (simp add: mset_map)
qed (simp add: optimizeDiscoveryCache_def)

lemma coherent_optimize: "coherent L m c \<Longrightarrow> coherent L m (optimizeDiscoveryCache c)"
proof -
  assume c: "coherent L m c"
  have e: "\<exists>en' \<in> set (dc_entries c). ce_surface_object en = ce_surface_object en' \<and> ce_surface_id en = ce_surface_id en'"
    if "en \<in> set (dc_entries (optimizeDiscoveryCache c))" for en
  proof -
    have "en\<lparr>ce_is_high_priority := False\<rparr> \<in> set (map (\<lambda>en. en\<lparr>ce_is_high_priority := False\<rparr>) (dc_entries c))"
      using optimize_mset [of c] that by (metis (no_types, lifting) image_eqI list.set_map set_mset_mset)
    then obtain en' where "en' \<in> set (dc_entries c)" "en\<lparr>ce_is_high_priority := False\<rparr> = en'\<lparr>ce_is_high_priority := False\<rparr>" by auto
    then show ?thesis by (metis VMSurfaceCacheEntry.select_convs(1,2) VMSurfaceCacheEntry.surjective VMSurfaceCacheEntry.update_convs(7))
  qed
  show ?thesis unfolding coherent_def using e c by (fastforce simp: coherent_def)
qed

lemma cache_objects_optimize: "cache_objects (optimizeDiscoveryCache c) \<subseteq> cache_objects c"
proof
  fix ob assume "ob \<in> cache_objects (optimizeDiscoveryCache c)"
  then obtain en where en: "en \<in> set (dc_entries (optimizeDiscoveryCache c))" "ce_surface_object en = Some ob" by (auto simp: cache_objects_def)
  show "ob \<in> cache_objects c"
  proof (rule ccontr)
    assume a: "ob \<notin> cache_objects c"
    then have "coherent {ob} (\<lambda>_. None) c" by (auto simp: coherent_def cache_objects_def)
    then have "coherent {ob} (\<lambda>_. None) (optimizeDiscoveryCache c)" by (rule coherent_optimize)
    then show False using en by (auto simp: coherent_def)
  qed
qed

lemma coherent_prewarm: "coherent L m c \<Longrightarrow> coherent L m (c\<lparr>dc_entries := prewarm_loop ids m (dc_entries c)\<rparr>)"
proof (induction ids m "dc_entries c" arbitrary: c rule: prewarm_loop.induct)
  case (2 sid ids m)
  show ?case
  proof (cases "length (dc_entries c) < 64 \<and> sid \<noteq> 0 \<and> m sid \<noteq> None")
    case True
    then obtain ob where ob: "m sid = Some ob" by auto
    let ?c = "c\<lparr>dc_entries := dc_entries c @ [\<lparr>ce_surface_id = sid, ce_surface_object = Some ob,
                 ce_last_access_time = 0, ce_access_count = 0, ce_discovery_cost = 0,
                 ce_is_prefetched = True, ce_is_high_priority = True\<rparr>]\<rparr>"
    have "coherent L m ?c" using "2.prems" ob by (auto simp: coherent_def)
    from "2.hyps"(3) [OF _ _ ob _ this] True ob show ?thesis by simp
  qed (use 2 in \<open>auto split: option.splits\<close>)
qed simp

lemma cache_objects_prewarm: "cache_objects (c\<lparr>dc_entries := prewarm_loop ids m (dc_entries c)\<rparr>) \<subseteq> cache_objects c \<union> ran m"
proof (induction ids m "dc_entries c" arbitrary: c rule: prewarm_loop.induct)
  case (2 sid ids m)
  show ?case
  proof (cases "length (dc_entries c) < 64 \<and> sid \<noteq> 0 \<and> m sid \<noteq> None")
    case True
    then obtain ob where ob: "m sid = Some ob" by auto
    let ?c = "c\<lparr>dc_entries := dc_entries c @ [\<lparr>ce_surface_id = sid, ce_surface_object = Some ob,
                 ce_last_access_time = 0, ce_access_count = 0, ce_discovery_cost = 0,
                 ce_is_prefetched = True, ce_is_high_priority = True\<rparr>]\<rparr>"
    have "cache_objects ?c \<subseteq> cache_objects c \<union> ran m" using ob by (auto simp: cache_objects_def ran_def)
    moreover have "cache_objects (?c\<lparr>dc_entries := prewarm_loop ids m (dc_entries ?c)\<rparr>) \<subseteq> cache_objects ?c \<union> ran m"
      using "2.hyps"(3) [OF _ _ ob, of ?c] True by simp
    ultimately show ?thesis using True ob by auto
  qed (use 2 in \<open>auto split: option.splits\<close>)
qed auto

text \<open>Optimising the discovery cache only reorders its entries, most used first, and marks the first quarter: apart from the
  priority mark the multiset of entries is the same, and the access counts do not increase along the array.\<close>

theorem optimize_sorts:
  "mset (map (\<lambda>en. en\<lparr>ce_is_high_priority := False\<rparr>) (dc_entries (optimizeDiscoveryCache c)))
      = mset (map (\<lambda>en. en\<lparr>ce_is_high_priority := False\<rparr>) (dc_entries c))
   \<and> sorted_wrt (\<lambda>a b. ce_access_count b \<le> ce_access_count a) (dc_entries (optimizeDiscoveryCache c))"
proof (cases "dc_entries c")
  case (Cons x xs)
  have "sorted_wrt (\<lambda>a b. ce_access_count b \<le> ce_access_count a) (bubble (length xs) (dc_entries c))"
    using bubble_sorted [of "dc_entries c"] Cons by simp
  then have "sorted_wrt (\<ge>) (map ce_access_count (dc_entries (optimizeDiscoveryCache c)))"
    unfolding optimize_entries(2) [OF Cons] by (simp add: sorted_wrt_map)
  then show ?thesis using optimize_mset [of c] by (simp add: sorted_wrt_map)
qed (simp add: optimizeDiscoveryCache_def)

end
