(* ===== verification/Io_Surface.thy ===== *)
theory Io_Surface
  imports Surface_Cache
begin

text \<open>
  \<^verbatim>\<open>VMIOSurfaceManager\<close>: the table of surfaces, their memory and their locks.
  Surface objects are \<^verbatim>\<open>OSData\<close> blocks named by numbers; \<open>sm_objs\<close> holds the live ones, so following a pointer to a
  released object is visible as \<open>Kernel_panic\<close>. Pixel memory is a store of buffers by number, and an access outside a
  buffer is \<open>Kernel_panic\<close> too. Counters that are only reported, names and log output are left out; insertion into
  the collections is taken to succeed. The GPU hooks \<^verbatim>\<open>createGPUResource\<close>, \<^verbatim>\<open>destroyGPUResource\<close> and
  \<^verbatim>\<open>synchronizeSurface\<close> only log and succeed, so they do not appear.
\<close>

section \<open>Formats\<close>

abbreviation "PF_ARGB32 \<equiv> 0x41524742 :: u32"
abbreviation "PF_BGRA32 \<equiv> 0x42475241 :: u32"
abbreviation "PF_RGBA32 \<equiv> 0x52474241 :: u32"
abbreviation "PF_ABGR32 \<equiv> 0x41424752 :: u32"
abbreviation "PF_RGB24 \<equiv> 0x18 :: u32"
abbreviation "PF_RGB565 \<equiv> 0x52353635 :: u32"
abbreviation "PF_YUV420 \<equiv> 0x79343230 :: u32"
abbreviation "PF_NV12 \<equiv> 0x34323066 :: u32"
abbreviation "PF_P010 \<equiv> 0x70303130 :: u32"

definition getBytesPerPixel :: "u32 \<Rightarrow> u32" where
  "getBytesPerPixel f =
     (if f \<in> {PF_ARGB32, PF_BGRA32, PF_RGBA32, PF_ABGR32} then 4
      else if f = PF_RGB24 then 3
      else if f = PF_RGB565 then 2
      else if f \<in> {PF_YUV420, PF_NV12} then 1
      else if f = PF_P010 then 2
      else 0)"

definition getPlaneCount :: "u32 \<Rightarrow> u32" where
  "getPlaneCount f =
     (if f \<in> {PF_NV12, PF_P010} then 2 else if f = PF_YUV420 then 3 else 1)"

definition validatePixelFormat :: "bool \<Rightarrow> u32 \<Rightarrow> io_return" where
  "validatePixelFormat supports_yuv f =
     (if f \<in> {PF_ARGB32, PF_BGRA32, PF_RGBA32, PF_ABGR32, PF_RGB24, PF_RGB565} then kIOReturnSuccess
      else if f \<in> {PF_YUV420, PF_NV12, PF_P010} then (if supports_yuv then kIOReturnSuccess else kIOReturnUnsupported)
      else kIOReturnUnsupported)"

section \<open>Surfaces\<close>

record VMIOSurfacePlaneInfo =
  pl_width :: u32
  pl_height :: u32
  pl_bytes_per_element :: u32
  pl_bytes_per_row :: u32
  pl_element_width :: u32
  pl_element_height :: u32
  pl_offset :: u32
  pl_size :: u32

text \<open>
  \<open>sd_planes\<close> is the array of four planes. The fields of the descriptor and of the surface that nothing reads after
  creation (bytes per element, cache mode, depth, name) are left out. A null base address after a successful
  \<^verbatim>\<open>prepare\<close> takes the same error branch as a failed one, so the two are one case of the kernel.
\<close>

record VMIOSurfaceDescriptor =
  sd_width :: u32
  sd_height :: u32
  sd_pixel_format :: u32
  sd_bytes_per_row :: u32
  sd_plane_count :: u32
  sd_planes :: "VMIOSurfacePlaneInfo list"
  sd_alloc_size :: u32
  sd_usage_flags :: u32

datatype VMIOSurfaceMemoryPriority = Priority_low | Priority_normal | Priority_high | Priority_critical

record VMIOSurface =
  vs_surface_id :: u32
  vs_descriptor :: VMIOSurfaceDescriptor
  vs_memory :: "nat option"
  vs_lock_count :: u32
  vs_ref_count :: u32
  vs_is_locked :: bool
  vs_last_access_time :: u64
  vs_width :: u32
  vs_height :: u32
  vs_memory_size :: u32
  vs_memory_priority :: VMIOSurfaceMemoryPriority

definition calculateSurfaceSize :: "VMIOSurfaceDescriptor \<Rightarrow> u32" where
  "calculateSurfaceSize d =
     (if getBytesPerPixel (sd_pixel_format d) = 0 then 0
      else let total =
             (if getPlaneCount (sd_pixel_format d) = 1
              then (if sd_bytes_per_row d > 0 then sd_bytes_per_row d else sd_width d * getBytesPerPixel (sd_pixel_format d)) * sd_height d
              else sum_list (map pl_size (take (unat (getPlaneCount (sd_pixel_format d))) (sd_planes d))))
           in (total + 4095) AND NOT 4095)"

definition setupPlaneInfo :: "u32 \<Rightarrow> u32 \<Rightarrow> u32 \<Rightarrow> VMIOSurfacePlaneInfo list \<Rightarrow> io_return \<times> VMIOSurfacePlaneInfo list \<times> u32" where
  "setupPlaneInfo f w h planes =
     (if f \<in> {PF_ARGB32, PF_BGRA32, PF_RGBA32, PF_ABGR32} then
        (kIOReturnSuccess,
         planes[0 := \<lparr>pl_width = w, pl_height = h, pl_bytes_per_element = 4, pl_bytes_per_row = w * 4, pl_element_width = 1,
                      pl_element_height = 1, pl_offset = 0, pl_size = w * 4 * h\<rparr>], getPlaneCount f)
      else if f = PF_NV12 then
        (kIOReturnSuccess,
         planes[0 := \<lparr>pl_width = w, pl_height = h, pl_bytes_per_element = 1, pl_bytes_per_row = w, pl_element_width = 1,
                      pl_element_height = 1, pl_offset = 0, pl_size = w * h\<rparr>,
                1 := \<lparr>pl_width = w div 2, pl_height = h div 2, pl_bytes_per_element = 2, pl_bytes_per_row = w, pl_element_width = 2,
                      pl_element_height = 2, pl_offset = w * h, pl_size = w * h div 2\<rparr>], getPlaneCount f)
      else (kIOReturnUnsupported, planes, getPlaneCount f))"

section \<open>State\<close>

record iosm =
  sm_map :: "u32 \<Rightarrow> nat option"
  sm_list :: "nat list"
  sm_objs :: "nat \<Rightarrow> VMIOSurface option"
  sm_mem :: "nat \<Rightarrow> bytes option"
  sm_fresh :: nat
  sm_cache :: discovery
  sm_next_surface_id :: u32
  sm_released_ids :: "u32 list"
  sm_total_memory :: u64
  sm_allocated_memory :: u64
  sm_surface_count :: u32
  sm_peak_count :: u32
  sm_supports_hw :: bool
  sm_supports_yuv :: bool
  sm_structs :: nat
  sm_evicted :: nat
  sm_tick :: nat

text \<open>
  The kernel: the clock, and whether each kind of allocation succeeds at a moment. \<open>sm_structs\<close> counts the
  \<^verbatim>\<open>IOMalloc\<close>ed surface structures not freed; \<open>sm_evicted\<close>, which no operation reads, is the number of bytes that evictions
  have taken off the account; \<open>sm_tick\<close> counts the observations made so far.
\<close>

record iosm_env =
  ie_clock :: "nat \<Rightarrow> u64"
  ie_malloc :: "nat \<Rightarrow> bool"
  ie_buffer :: "nat \<Rightarrow> nat \<Rightarrow> bool"
  ie_prepare :: "nat \<Rightarrow> bool"
  ie_data :: "nat \<Rightarrow> bool"
  ie_number :: "nat \<Rightarrow> bool"

text \<open>\<^verbatim>\<open>initWithAccelerator\<close> followed by \<^verbatim>\<open>setupIOSurfaceSupport\<close>.\<close>

definition iosm_init :: "bool \<Rightarrow> iosm" where
  "iosm_init has_gpu = \<lparr>sm_map = Map.empty, sm_list = [], sm_objs = Map.empty, sm_mem = Map.empty, sm_fresh = 0,
     sm_cache = discovery_init, sm_next_surface_id = 1, sm_released_ids = [], sm_total_memory = 0x20000000,
     sm_allocated_memory = 0, sm_surface_count = 0, sm_peak_count = 0, sm_supports_hw = has_gpu, sm_supports_yuv = True,
     sm_structs = 0, sm_evicted = 0, sm_tick = 0\<rparr>"

definition allocateSurfaceId :: "iosm \<Rightarrow> u32 \<times> iosm" where
  "allocateSurfaceId s =
     (if sm_released_ids s \<noteq> [] then (last (sm_released_ids s), s\<lparr>sm_released_ids := butlast (sm_released_ids s)\<rparr>)
      else (sm_next_surface_id s, s\<lparr>sm_next_surface_id := sm_next_surface_id s + 1\<rparr>))"

definition releaseSurfaceId :: "iosm_env \<Rightarrow> u32 \<Rightarrow> iosm \<Rightarrow> iosm" where
  "releaseSurfaceId e sid s =
     (if sid = 0 then s
      else if length (sm_released_ids s) < 64 \<and> ie_number e (sm_tick s)
      then s\<lparr>sm_released_ids := sm_released_ids s @ [sid]\<rparr> else s)"

definition findSurface :: "iosm_env \<Rightarrow> u32 \<Rightarrow> iosm \<Rightarrow> nat option \<times> iosm" where
  "findSurface e sid s =
     (case find_cached (ie_clock e (sm_tick s)) sid (sm_map s) (sm_cache s) of
        (r, c) \<Rightarrow> (r, s\<lparr>sm_cache := c, sm_tick := sm_tick s + 1\<rparr>))"

text \<open>Find a surface and work on the object found; \<open>v\<close> is the value returned besides the code when there is none.\<close>

definition with_surface :: "iosm_env \<Rightarrow> u32 \<Rightarrow> 'v \<Rightarrow> iosm \<Rightarrow> (nat \<Rightarrow> VMIOSurface \<Rightarrow> iosm \<Rightarrow> io_return \<times> 'v \<times> iosm) \<Rightarrow> io_return \<times> 'v \<times> iosm" where
  "with_surface e sid v s k =
     (case findSurface e sid s of
        (None, s1) \<Rightarrow> (kIOReturnNotFound, v, s1)
      | (Some ob, s1) \<Rightarrow> (case sm_objs s1 ob of None \<Rightarrow> (Kernel_panic, v, s1) | Some x \<Rightarrow> k ob x s1))"

definition put_object :: "nat \<Rightarrow> VMIOSurface \<Rightarrow> iosm \<Rightarrow> iosm" where
  "put_object ob x s = s\<lparr>sm_objs := (sm_objs s)(ob \<mapsto> x)\<rparr>"

section \<open>Creation and destruction\<close>

definition undo_create :: "iosm_env \<Rightarrow> u32 \<Rightarrow> iosm \<Rightarrow> iosm" where
  "undo_create e sid s = releaseSurfaceId e sid (s\<lparr>sm_structs := sm_structs s - 1\<rparr>)"

definition create_register :: "VMIOSurface \<Rightarrow> nat \<Rightarrow> iosm \<Rightarrow> iosm" where
  "create_register x mem s =
     (let ob = sm_fresh s; n = sm_surface_count s + 1
      in s\<lparr>sm_objs := (sm_objs s)(ob \<mapsto> x), sm_list := sm_list s @ [ob], sm_map := (sm_map s)(vs_surface_id x \<mapsto> ob),
           sm_mem := (sm_mem s)(mem \<mapsto> zeros (unat (vs_memory_size x))), sm_fresh := sm_fresh s + 2,
           sm_surface_count := n, sm_peak_count := (if n > sm_peak_count s then n else sm_peak_count s),
           sm_allocated_memory := sm_allocated_memory s + ucast (vs_memory_size x)\<rparr>)"

text \<open>After the id and the structure: planes, memory, wiring, the \<^verbatim>\<open>OSData\<close> copy, registration. The structure itself is not freed.\<close>

definition create_build :: "iosm_env \<Rightarrow> VMIOSurfaceDescriptor \<Rightarrow> u32 \<Rightarrow> u32 \<Rightarrow> iosm \<Rightarrow> io_return \<times> iosm" where
  "create_build e d sz sid s =
     (case setupPlaneInfo (sd_pixel_format d) (sd_width d) (sd_height d) (sd_planes d) of (r, planes, n) \<Rightarrow>
        if r \<noteq> kIOReturnSuccess then (r, undo_create e sid s)
        else if \<not> ie_buffer e (sm_tick s) (unat sz) then (kIOReturnNoMemory, undo_create e sid s)
        else if \<not> ie_prepare e (sm_tick s) then (kIOReturnVMError, undo_create e sid s)
        else if \<not> ie_data e (sm_tick s) then (kIOReturnNoMemory, undo_create e sid s)
        else (kIOReturnSuccess,
              create_register \<lparr>vs_surface_id = sid, vs_descriptor = d\<lparr>sd_planes := planes, sd_plane_count := n\<rparr>,
                 vs_memory = Some (sm_fresh s + 1), vs_lock_count = 0, vs_ref_count = 1, vs_is_locked = False,
                 vs_last_access_time = ie_clock e (sm_tick s), vs_width = sd_width d, vs_height = sd_height d,
                 vs_memory_size = sz, vs_memory_priority = Priority_normal\<rparr> (sm_fresh s + 1) s))"

definition ios_createSurface :: "iosm_env \<Rightarrow> VMIOSurfaceDescriptor option \<Rightarrow> iosm \<Rightarrow> io_return \<times> u32 \<times> iosm" where
  "ios_createSurface e desc s =
     (case desc of
        None \<Rightarrow> (kIOReturnBadArgument, 0, s)
      | Some d \<Rightarrow>
          let valid = validatePixelFormat (sm_supports_yuv s) (sd_pixel_format d); sz = calculateSurfaceSize d in
          if valid \<noteq> kIOReturnSuccess then (valid, 0, s)
          else if sd_width d = 0 \<or> sd_height d = 0 \<or> sd_width d > 16384 \<or> sd_height d > 16384 then (kIOReturnBadArgument, 0, s)
          else if sz = 0 then (kIOReturnBadArgument, 0, s)
          else if sm_allocated_memory s + ucast sz > sm_total_memory s then (kIOReturnNoMemory, 0, s)
          else case allocateSurfaceId (s\<lparr>sm_tick := sm_tick s + 1\<rparr>) of (sid, s1) \<Rightarrow>
            if \<not> ie_malloc e (sm_tick s1) then (kIOReturnNoMemory, sid, releaseSurfaceId e sid s1)
            else case create_build e d sz sid (s1\<lparr>sm_structs := sm_structs s1 + 1\<rparr>) of (r, s2) \<Rightarrow> (r, sid, s2))"

text \<open>Dropping the references of both collections releases the object.\<close>

definition destroy_remove :: "iosm_env \<Rightarrow> u32 \<Rightarrow> nat \<Rightarrow> VMIOSurface \<Rightarrow> iosm \<Rightarrow> iosm" where
  "destroy_remove e sid ob x s =
     releaseSurfaceId e sid
       (s\<lparr>sm_mem := (case vs_memory x of None \<Rightarrow> sm_mem s | Some m \<Rightarrow> (sm_mem s)(m := None)),
          sm_map := (sm_map s)(sid := None), sm_list := remove1 ob (sm_list s), sm_objs := (sm_objs s)(ob := None),
          sm_surface_count := sm_surface_count s - 1, sm_allocated_memory := sm_allocated_memory s - ucast (vs_memory_size x)\<rparr>)"

definition ios_destroySurface :: "iosm_env \<Rightarrow> u32 \<Rightarrow> iosm \<Rightarrow> io_return \<times> iosm" where
  "ios_destroySurface e sid s =
     (if sid = 0 then (kIOReturnBadArgument, s)
      else case with_surface e sid () s (\<lambda>ob x s1.
        if vs_is_locked x \<or> vs_lock_count x > 0 then (kIOReturnBusy, (), s1)
        else let n = vs_ref_count x - 1
             in if n > 0 then (kIOReturnSuccess, (), put_object ob (x\<lparr>vs_ref_count := n\<rparr>) s1)
                else (kIOReturnSuccess, (), destroy_remove e sid ob x s1)) of (r, _, s2) \<Rightarrow> (r, s2))"

section \<open>Locking\<close>

text \<open>Bit 0 of the options is \<^verbatim>\<open>VM_IOSURFACE_LOCK_READ_ONLY\<close>.\<close>

definition lockSurface :: "iosm_env \<Rightarrow> u32 \<Rightarrow> u32 \<Rightarrow> iosm \<Rightarrow> io_return \<times> nat option \<times> iosm" where
  "lockSurface e sid options s =
     with_surface e sid None s (\<lambda>ob x s1.
       case vs_memory x of
         None \<Rightarrow> (kIOReturnNotReady, None, s1)
       | Some m \<Rightarrow>
           if vs_is_locked x \<and> options AND 1 = 0 then (kIOReturnBusy, None, s1)
           else (kIOReturnSuccess, Some m,
                 put_object ob (x\<lparr>vs_lock_count := vs_lock_count x + 1, vs_is_locked := True,
                                   vs_last_access_time := ie_clock e (sm_tick s1)\<rparr>) s1))"

definition unlock_object :: "iosm_env \<Rightarrow> nat \<Rightarrow> VMIOSurface \<Rightarrow> iosm \<Rightarrow> io_return \<times> unit \<times> iosm" where
  "unlock_object e ob x s1 =
     (if \<not> vs_is_locked x \<or> vs_lock_count x = 0 then (kIOReturnNotOpen, (), s1)
      else let n = vs_lock_count x - 1
           in (kIOReturnSuccess, (),
               put_object ob (x\<lparr>vs_lock_count := n, vs_is_locked := (if n = 0 then False else vs_is_locked x),
                                 vs_last_access_time := ie_clock e (sm_tick s1)\<rparr>) s1))"

definition unlockSurface :: "iosm_env \<Rightarrow> u32 \<Rightarrow> iosm \<Rightarrow> io_return \<times> unit \<times> iosm" where
  "unlockSurface e sid s = with_surface e sid () s (unlock_object e)"

text \<open>A plane is locked without a look at other locks; the address is the plane's offset in the memory.\<close>

definition lockSurfacePlane :: "iosm_env \<Rightarrow> u32 \<Rightarrow> u32 \<Rightarrow> iosm \<Rightarrow> io_return \<times> (nat \<times> u32) option \<times> iosm" where
  "lockSurfacePlane e sid plane s =
     (if plane \<ge> 4 then (kIOReturnBadArgument, None, s)
      else with_surface e sid None s (\<lambda>ob x s1.
        if plane \<ge> sd_plane_count (vs_descriptor x) then (kIOReturnBadArgument, None, s1)
        else case vs_memory x of
               None \<Rightarrow> (kIOReturnNotReady, None, s1)
             | Some m \<Rightarrow>
                 (kIOReturnSuccess, Some (m, pl_offset (sd_planes (vs_descriptor x) ! unat plane)),
                  put_object ob (x\<lparr>vs_lock_count := vs_lock_count x + 1, vs_is_locked := True,
                                    vs_last_access_time := ie_clock e (sm_tick s1)\<rparr>) s1)))"

definition unlockSurfacePlane :: "iosm_env \<Rightarrow> u32 \<Rightarrow> u32 \<Rightarrow> iosm \<Rightarrow> io_return \<times> unit \<times> iosm" where
  "unlockSurfacePlane e sid plane s =
     (if plane \<ge> 4 then (kIOReturnBadArgument, (), s)
      else with_surface e sid () s (\<lambda>ob x s1.
        if plane \<ge> sd_plane_count (vs_descriptor x) then (kIOReturnBadArgument, (), s1) else unlock_object e ob x s1))"

definition getSurfacePlaneInfo :: "iosm_env \<Rightarrow> u32 \<Rightarrow> u32 \<Rightarrow> iosm \<Rightarrow> io_return \<times> VMIOSurfacePlaneInfo option \<times> iosm" where
  "getSurfacePlaneInfo e sid plane s =
     (if plane \<ge> 4 then (kIOReturnBadArgument, None, s)
      else with_surface e sid None s (\<lambda>ob x s1.
        if plane \<ge> sd_plane_count (vs_descriptor x) then (kIOReturnBadArgument, None, s1)
        else (kIOReturnSuccess, Some (sd_planes (vs_descriptor x) ! unat plane), s1)))"

section \<open>The invariant\<close>

text \<open>The map, the array and the live objects describe the same surfaces, each under its own id.\<close>

definition table_ok :: "iosm \<Rightarrow> bool" where
  "table_ok s \<longleftrightarrow> distinct (sm_list s) \<and> set (sm_list s) = dom (sm_objs s)
     \<and> (\<forall>sid ob. sm_map s sid = Some ob \<longleftrightarrow> (\<exists>x. sm_objs s ob = Some x \<and> vs_surface_id x = sid))"

text \<open>Every surface owns a buffer of exactly its memory size, no two share one, and no other buffer is left.\<close>

definition memory_ok :: "iosm \<Rightarrow> bool" where
  "memory_ok s \<longleftrightarrow> dom (sm_mem s) = Suc ` dom (sm_objs s)
     \<and> (\<forall>ob x. sm_objs s ob = Some x \<longrightarrow> vs_memory x = Some (Suc ob)
          \<and> (\<forall>b. sm_mem s (Suc ob) = Some b \<longrightarrow> length b = unat (vs_memory_size x)))"

definition surface_bytes :: "(nat \<Rightarrow> VMIOSurface option) \<Rightarrow> nat \<Rightarrow> nat" where
  "surface_bytes objs ob = (case objs ob of None \<Rightarrow> 0 | Some x \<Rightarrow> unat (vs_memory_size x))"

definition total_bytes :: "iosm \<Rightarrow> nat" where
  "total_bytes s = sum_list (map (surface_bytes (sm_objs s)) (sm_list s))"

text \<open>The account misses exactly what evictions took off it; without evictions the surfaces stay within the total.\<close>

definition count_ok :: "iosm \<Rightarrow> bool" where
  "count_ok s \<longleftrightarrow> unat (sm_surface_count s) = length (sm_list s)
     \<and> sm_allocated_memory s + word_of_nat (sm_evicted s) = word_of_nat (total_bytes s)
     \<and> sm_total_memory s = 0x20000000 \<and> (sm_evicted s = 0 \<longrightarrow> total_bytes s \<le> 0x20000000)"

definition ids_ok :: "nat \<Rightarrow> iosm \<Rightarrow> bool" where
  "ids_ok n s \<longleftrightarrow> distinct (sm_released_ids s) \<and> 1 \<le> unat (sm_next_surface_id s) \<and> unat (sm_next_surface_id s) \<le> n + 1
     \<and> length (sm_list s) \<le> n
     \<and> (\<forall>i \<in> set (sm_released_ids s). 0 < i \<and> i < sm_next_surface_id s \<and> sm_map s i = None)
     \<and> (\<forall>i. sm_map s i \<noteq> None \<longrightarrow> 0 < i \<and> i < sm_next_surface_id s)"

definition locks_ok :: "nat \<Rightarrow> iosm \<Rightarrow> bool" where
  "locks_ok n s \<longleftrightarrow> (\<forall>x \<in> ran (sm_objs s). vs_is_locked x = (vs_lock_count x \<noteq> 0) \<and> unat (vs_lock_count x) \<le> n \<and> vs_ref_count x = 1)"

text \<open>The sides are in the accepted range and the format is one that creation sets planes up for.\<close>

definition shape_ok :: "VMIOSurface \<Rightarrow> bool" where
  "shape_ok x \<longleftrightarrow> 0 < vs_width x \<and> vs_width x \<le> 16384 \<and> 0 < vs_height x \<and> vs_height x \<le> 16384
     \<and> sd_pixel_format (vs_descriptor x) \<in> {PF_ARGB32, PF_BGRA32, PF_RGBA32, PF_ABGR32, PF_NV12} \<and> vs_memory_size x \<noteq> 0"

definition shapes_ok :: "iosm \<Rightarrow> bool" where
  "shapes_ok s \<longleftrightarrow> sm_supports_yuv s \<and> (\<forall>x \<in> ran (sm_objs s). shape_ok x)"

definition pointers_ok :: "iosm \<Rightarrow> bool" where
  "pointers_ok s \<longleftrightarrow> (\<forall>ob \<in> dom (sm_objs s) \<union> cache_objects (sm_cache s). ob < sm_fresh s)
     \<and> coherent (dom (sm_objs s)) (sm_map s) (sm_cache s)"

definition sm_inv :: "nat \<Rightarrow> iosm \<Rightarrow> bool" where
  "sm_inv n s \<longleftrightarrow> table_ok s \<and> memory_ok s \<and> count_ok s \<and> ids_ok n s \<and> locks_ok n s \<and> shapes_ok s \<and> pointers_ok s"

lemma iosm_init_inv: "sm_inv 0 (iosm_init g)"
  by (auto simp: sm_inv_def table_ok_def memory_ok_def count_ok_def total_bytes_def ids_ok_def locks_ok_def shapes_ok_def pointers_ok_def iosm_init_def
      coherent_def cache_objects_def discovery_init_def)

lemma count_exact:
  assumes "count_ok s" "sm_evicted s = 0"
  shows "unat (sm_allocated_memory s) = total_bytes s" "total_bytes s \<le> 0x20000000"
proof -
  show "total_bytes s \<le> 0x20000000" using assms by (simp add: count_ok_def)
  moreover have "sm_allocated_memory s = word_of_nat (total_bytes s)" using assms by (simp add: count_ok_def)
  ultimately show "unat (sm_allocated_memory s) = total_bytes s" by (simp add: unat_of_nat)
qed

lemma count_cong:
  "sm_surface_count t = sm_surface_count s \<Longrightarrow> length (sm_list t) = length (sm_list s) \<Longrightarrow> sm_allocated_memory t = sm_allocated_memory s
   \<Longrightarrow> sm_evicted t = sm_evicted s \<Longrightarrow> sm_total_memory t = sm_total_memory s \<Longrightarrow> total_bytes t = total_bytes s
   \<Longrightarrow> count_ok t = count_ok s"
  by (simp add: count_ok_def)

lemma total_bytes_simps [simp]:
  "total_bytes (s\<lparr>sm_cache := c\<rparr>) = total_bytes s" "total_bytes (s\<lparr>sm_tick := t\<rparr>) = total_bytes s"
  "total_bytes (s\<lparr>sm_mem := m\<rparr>) = total_bytes s" "total_bytes (s\<lparr>sm_released_ids := l\<rparr>) = total_bytes s"
  "total_bytes (s\<lparr>sm_next_surface_id := k\<rparr>) = total_bytes s" "total_bytes (s\<lparr>sm_structs := x\<rparr>) = total_bytes s"
  by (simp_all add: total_bytes_def)

lemma sm_inv_mono: "sm_inv n s \<Longrightarrow> n \<le> m \<Longrightarrow> sm_inv m s"
  by (fastforce simp: sm_inv_def ids_ok_def locks_ok_def)

lemma table_ran: "table_ok s \<Longrightarrow> ran (sm_map s) = dom (sm_objs s)"
  by (auto simp: table_ok_def ran_def dom_def)

text \<open>A lookup changes only the cache and the tick; a live answer is the table's.\<close>

lemma findSurface_frame: "findSurface e sid s = (r, s1) \<Longrightarrow> \<exists>c. s1 = s\<lparr>sm_cache := c, sm_tick := sm_tick s + 1\<rparr>"
  by (auto simp: findSurface_def split: prod.splits)

lemma findSurface_inv:
  assumes "sm_inv n s" "findSurface e sid s = (r, s1)"
  shows "sm_inv n s1"
    and "r = Some ob \<Longrightarrow> sm_objs s1 ob = Some x \<Longrightarrow> vs_surface_id x = sid \<and> sm_map s1 sid = Some ob"
proof -
  let ?now = "ie_clock e (sm_tick s)"
  have s1: "s1 = s\<lparr>sm_cache := snd (find_cached ?now sid (sm_map s) (sm_cache s)), sm_tick := sm_tick s + 1\<rparr>"
    and r: "r = fst (find_cached ?now sid (sm_map s) (sm_cache s))"
    using assms(2) by (auto simp: findSurface_def split: prod.splits)
  have c: "coherent (dom (sm_objs s)) (sm_map s) (sm_cache s)" and t: "table_ok s"
    using assms(1) by (auto simp: sm_inv_def pointers_ok_def)
  note f = find_cached_coherent [OF c]
  have "cache_objects (sm_cache s1) \<subseteq> cache_objects (sm_cache s) \<union> dom (sm_objs s)"
    using cache_objects_find [of ?now sid "sm_map s" "sm_cache s"] by (simp add: s1 table_ran [OF t])
  then have "pointers_ok s1" using assms(1) f(1) by (auto simp: sm_inv_def pointers_ok_def s1)
  then show "sm_inv n s1"
    using assms(1) by (simp add: sm_inv_def s1 table_ok_def memory_ok_def count_ok_def ids_ok_def locks_ok_def shapes_ok_def)
  show "vs_surface_id x = sid \<and> sm_map s1 sid = Some ob" if "r = Some ob" "sm_objs s1 ob = Some x"
  proof -
    have "sm_map s sid = Some ob" using f(2) that by (auto simp: r s1)
    then show ?thesis using t that by (auto simp: table_ok_def s1)
  qed
qed

text \<open>Updates of one surface that keep its identity.\<close>

lemma put_object_inv:
  assumes "sm_inv n s" "sm_objs s ob = Some x" "n \<le> m"
    and y: "vs_surface_id y = vs_surface_id x" "vs_memory y = vs_memory x" "vs_memory_size y = vs_memory_size x"
      "vs_is_locked y = (vs_lock_count y \<noteq> 0)" "unat (vs_lock_count y) \<le> m" "vs_ref_count y = 1" "shape_ok y"
  shows "sm_inv m (put_object ob y s)"
proof -
  have i: "sm_inv m s" using assms(1,3) by (rule sm_inv_mono)
  have b: "surface_bytes (sm_objs (put_object ob y s)) = surface_bytes (sm_objs s)"
    using assms(2) y(3) by (auto simp: surface_bytes_def put_object_def fun_eq_iff)
  have d: "dom (sm_objs (put_object ob y s)) = dom (sm_objs s)" using assms(2) by (auto simp: put_object_def)
  have "table_ok (put_object ob y s)"
    using i assms(2) y(1) d by (fastforce simp: sm_inv_def table_ok_def put_object_def)
  moreover have "memory_ok (put_object ob y s)"
    using i assms(2) y(2,3) d by (simp add: sm_inv_def memory_ok_def) (auto simp: put_object_def)
  moreover have "count_ok (put_object ob y s)"
  proof -
    have "count_ok (put_object ob y s) = count_ok s" by (rule count_cong) (simp_all add: total_bytes_def b, simp_all add: put_object_def)
    then show ?thesis using i by (simp add: sm_inv_def)
  qed
  moreover have "ids_ok m (put_object ob y s)" using i by (simp add: sm_inv_def ids_ok_def put_object_def)
  moreover have "locks_ok m (put_object ob y s)"
    using i y(4-6) by (auto simp: sm_inv_def locks_ok_def put_object_def ran_def split: if_splits)
  moreover have "shapes_ok (put_object ob y s)"
    using i y(7) by (auto simp: sm_inv_def shapes_ok_def put_object_def ran_def split: if_splits)
  moreover have "pointers_ok (put_object ob y s)"
    using i d by (simp add: sm_inv_def pointers_ok_def) (simp add: put_object_def)
  ultimately show ?thesis by (simp add: sm_inv_def)
qed

definition mem_like :: "(nat \<Rightarrow> bytes option) \<Rightarrow> (nat \<Rightarrow> bytes option) \<Rightarrow> bool" where
  "mem_like mem mem' \<longleftrightarrow> (\<forall>m. map_option length (mem' m) = map_option length (mem m))"

lemma mem_like_refl [simp]: "mem_like mem mem"
  by (simp add: mem_like_def)

lemma mem_like_trans: "mem_like a b \<Longrightarrow> mem_like b c \<Longrightarrow> mem_like a c"
  by (simp add: mem_like_def)

lemma mem_like_upd: "mem m = Some b \<Longrightarrow> length b' = length b \<Longrightarrow> mem_like mem (mem(m \<mapsto> b'))"
  by (simp add: mem_like_def)

lemma mem_like_inv:
  assumes "sm_inv n s" "mem_like (sm_mem s) mem"
  shows "sm_inv n (s\<lparr>sm_mem := mem\<rparr>)"
proof -
  have "mem m = None \<longleftrightarrow> sm_mem s m = None" for m
    using assms(2) unfolding mem_like_def by (metis option.map_disc_iff)
  then have d: "dom mem = dom (sm_mem s)" by (simp add: dom_def)
  have "length c = unat (vs_memory_size x)" if x: "sm_objs s ob = Some x" and c: "mem (Suc ob) = Some c" for ob x c
  proof -
    obtain b where b: "sm_mem s (Suc ob) = Some b" using c d by blast
    then have "length c = length b" using c assms(2) by (simp add: mem_like_def) (metis option.inject option.map(2))
    then show ?thesis using assms(1) x b by (auto simp: sm_inv_def memory_ok_def)
  qed
  then have "memory_ok (s\<lparr>sm_mem := mem\<rparr>)" using assms(1) d by (simp add: sm_inv_def memory_ok_def)
  then show ?thesis
    using assms(1) by (simp add: sm_inv_def table_ok_def count_ok_def ids_ok_def locks_ok_def shapes_ok_def pointers_ok_def)
qed

text \<open>An id that is neither in use nor waiting to be reused.\<close>

definition free_id :: "u32 \<Rightarrow> iosm \<Rightarrow> bool" where
  "free_id sid s \<longleftrightarrow> 0 < sid \<and> sid < sm_next_surface_id s \<and> sm_map s sid = None \<and> sid \<notin> set (sm_released_ids s)"

lemma sm_inv_ids: "sm_inv n s \<Longrightarrow> ids_ok m (s\<lparr>sm_released_ids := l, sm_next_surface_id := k\<rparr>)
   \<Longrightarrow> n \<le> m \<Longrightarrow> sm_inv m (s\<lparr>sm_released_ids := l, sm_next_surface_id := k\<rparr>)"
  by (drule sm_inv_mono, assumption)
     (simp add: sm_inv_def table_ok_def memory_ok_def count_ok_def locks_ok_def shapes_ok_def pointers_ok_def)


lemma unat_ucast64: "unat (ucast (w :: u32) :: u64) = unat w"
  using unat_bound32 [of w] by (simp add: unsigned_ucast_eq take_bit_nat_eq_self)

lemma word_suc_less: "unat (a :: u32) < 4294967295 \<Longrightarrow> unat (a + 1) = Suc (unat a)"
  by (simp add: unat_word_ariths)

lemma allocateSurfaceId_inv:
  assumes "sm_inv n s" "n < 2 ^ 31" "allocateSurfaceId s = (sid, s1)"
  shows "sm_inv (Suc n) s1" "free_id sid s1"
proof -
  have i: "ids_ok n s" using assms(1) by (simp add: sm_inv_def)
  have "ids_ok (Suc n) s1 \<and> free_id sid s1"
  proof (cases "sm_released_ids s = []")
    case False
    then obtain l where l: "sm_released_ids s = l @ [sid]" "s1 = s\<lparr>sm_released_ids := l\<rparr>"
      using assms(3) by (metis allocateSurfaceId_def append_butlast_last_id prod.inject)
    then show ?thesis using i by (auto simp: ids_ok_def free_id_def)
  next
    case True
    then have s1: "sid = sm_next_surface_id s" "s1 = s\<lparr>sm_next_surface_id := sm_next_surface_id s + 1\<rparr>"
      using assms(3) by (auto simp: allocateSurfaceId_def)
    have u: "unat (sm_next_surface_id s + 1) = Suc (unat (sm_next_surface_id s))"
      using i assms(2) by (intro word_suc_less) (simp add: ids_ok_def)
    then have "sm_next_surface_id s < sm_next_surface_id s + 1" by (simp add: word_less_nat_alt)
    then show ?thesis using i s1 u True
      by (auto simp: ids_ok_def free_id_def word_less_nat_alt)
  qed
  moreover have "s1 = s\<lparr>sm_released_ids := sm_released_ids s1, sm_next_surface_id := sm_next_surface_id s1\<rparr>"
    using assms(3) by (auto simp: allocateSurfaceId_def split: if_splits)
  ultimately show "sm_inv (Suc n) s1" "free_id sid s1"
    using sm_inv_ids [OF assms(1), of "Suc n" "sm_next_surface_id s1" "sm_released_ids s1"] by auto
qed

lemma releaseSurfaceId_inv: "sm_inv n s \<Longrightarrow> free_id sid s \<Longrightarrow> sm_inv n (releaseSurfaceId e sid s)"
  using sm_inv_ids [of n s n "sm_next_surface_id s" "sm_released_ids s @ [sid]"]
  by (auto simp: releaseSurfaceId_def sm_inv_def ids_ok_def free_id_def)

lemma sm_inv_aux: "sm_inv n (s\<lparr>sm_structs := k\<rparr>) = sm_inv n s" "sm_inv n (s\<lparr>sm_tick := t\<rparr>) = sm_inv n s"
    "free_id sid (s\<lparr>sm_structs := k\<rparr>) = free_id sid s" "free_id sid (s\<lparr>sm_tick := t\<rparr>) = free_id sid s"
  by (simp_all add: sm_inv_def table_ok_def memory_ok_def count_ok_def ids_ok_def locks_ok_def shapes_ok_def pointers_ok_def free_id_def)

lemma undo_create_inv: "sm_inv n s \<Longrightarrow> free_id sid s \<Longrightarrow> sm_inv n (undo_create e sid s)"
  by (simp add: undo_create_def releaseSurfaceId_inv sm_inv_aux)

lemma create_register_inv:
  assumes i: "sm_inv n s" and f: "free_id (vs_surface_id x) s" and n: "n < 2 ^ 31"
    and x: "vs_memory x = Some (Suc (sm_fresh s))" "vs_lock_count x = 0" "\<not> vs_is_locked x" "vs_ref_count x = 1" "shape_ok x"
    and size: "sm_allocated_memory s + ucast (vs_memory_size x) \<le> 0x20000000"
  shows "sm_inv (Suc n) (create_register x (Suc (sm_fresh s)) s)"
proof -
  let ?s = "create_register x (Suc (sm_fresh s)) s" and ?ob = "sm_fresh s"
  have fresh: "sm_objs s ?ob = None" "?ob \<notin> set (sm_list s)" "?ob \<notin> cache_objects (sm_cache s)"
    using i by (auto simp: sm_inv_def pointers_ok_def table_ok_def)
  have mem: "sm_mem s (Suc ?ob) = None" using i fresh(1) by (auto simp: sm_inv_def memory_ok_def)
  have t: "table_ok s" "memory_ok s" "count_ok s" "ids_ok n s" "locks_ok n s" "pointers_ok s" "shapes_ok s" using i by (auto simp: sm_inv_def)
  have "vs_surface_id y \<noteq> vs_surface_id x" if "sm_objs s ob = Some y" for ob y
    using t(1) f that unfolding table_ok_def free_id_def by (metis option.distinct(1))
  then have "table_ok ?s" using t(1) fresh f by (auto simp: table_ok_def create_register_def Let_def free_id_def)
  moreover have "memory_ok ?s" using t(2) x(1) mem by (auto simp: memory_ok_def create_register_def Let_def)
  moreover have "count_ok ?s"
  proof -
    have "sum_list (map (surface_bytes ((sm_objs s)(?ob \<mapsto> x))) (sm_list s)) = sum_list (map (surface_bytes (sm_objs s)) (sm_list s))"
      using fresh(2) by (intro arg_cong [where f = sum_list] map_cong) (auto simp: surface_bytes_def)
    moreover have "surface_bytes ((sm_objs s)(?ob \<mapsto> x)) ?ob = unat (vs_memory_size x)" by (simp add: surface_bytes_def)
    ultimately have tot: "total_bytes ?s = total_bytes s + unat (vs_memory_size x)"
      by (simp add: total_bytes_def create_register_def Let_def)
    have "(word_of_nat (unat (vs_memory_size x)) :: u64) = ucast (vs_memory_size x)" by simp
    then have "sm_allocated_memory ?s + word_of_nat (sm_evicted ?s) = word_of_nat (total_bytes ?s)"
      unfolding tot using t(3) by (simp add: count_ok_def create_register_def Let_def)
    moreover have "total_bytes ?s \<le> 0x20000000" if "sm_evicted ?s = 0"
    proof -
      have e: "sm_evicted s = 0" using that by (simp add: create_register_def Let_def)
      have "unat (sm_allocated_memory s + ucast (vs_memory_size x)) = unat (sm_allocated_memory s) + unat (vs_memory_size x)"
        using count_exact [OF t(3) e] unat_bound32 [of "vs_memory_size x"] by (simp add: unat_word_ariths unat_ucast64)
      then show ?thesis using count_exact(1) [OF t(3) e] size by (simp add: tot word_le_nat_alt)
    qed
    moreover have "unat (sm_surface_count s + 1) = Suc (length (sm_list s))"
      using t(3,4) n word_suc_less [of "sm_surface_count s"] by (simp add: count_ok_def ids_ok_def)
    ultimately show ?thesis
      using t(3) unfolding count_ok_def by (simp add: create_register_def Let_def)
  qed
  moreover have "ids_ok (Suc n) ?s" using t(4) f by (auto simp: ids_ok_def create_register_def Let_def free_id_def)
  moreover have "locks_ok (Suc n) ?s"
    using t(5) x by (auto simp: locks_ok_def create_register_def Let_def ran_def split: if_splits)
  moreover have "shapes_ok ?s"
    using t(7) x(5) by (auto simp: shapes_ok_def create_register_def Let_def ran_def split: if_splits)
  moreover have "pointers_ok ?s"
  proof -
    have "coherent (insert ?ob (dom (sm_objs s))) ((sm_map s)(vs_surface_id x \<mapsto> ?ob)) (sm_cache s)"
      using t(6) fresh f by (intro coherent_add) (auto simp: pointers_ok_def free_id_def)
    then show ?thesis using t(6) by (auto simp: pointers_ok_def create_register_def Let_def simp del: Un_iff intro: less_SucI)
  qed
  ultimately show ?thesis by (simp add: sm_inv_def)
qed

lemma destroy_remove_inv:
  assumes i: "sm_inv n s" and ob: "sm_map s sid = Some ob" "sm_objs s ob = Some x"
  shows "sm_inv n (destroy_remove e sid ob x s)"
proof -
  let ?s = "s\<lparr>sm_mem := (sm_mem s)(Suc ob := None), sm_map := (sm_map s)(sid := None), sm_list := remove1 ob (sm_list s),
      sm_objs := (sm_objs s)(ob := None), sm_surface_count := sm_surface_count s - 1,
      sm_allocated_memory := sm_allocated_memory s - ucast (vs_memory_size x)\<rparr>"
  have t: "table_ok s" "memory_ok s" "count_ok s" "ids_ok n s" "locks_ok n s" "pointers_ok s" "shapes_ok s" using i by (auto simp: sm_inv_def)
  have mem: "vs_memory x = Some (Suc ob)" using t(2) ob(2) by (simp add: memory_ok_def)
  have sid: "vs_surface_id x = sid" and inl: "ob \<in> set (sm_list s)" and d: "distinct (sm_list s)"
    using t(1) ob by (auto simp: table_ok_def)
  have "table_ok ?s"
    using t(1) d sid ob by (simp add: table_ok_def) (metis option.inject)
  moreover have "memory_ok ?s" using t(2) by (auto simp: memory_ok_def)
  moreover have "count_ok ?s"
  proof -
    have "ob' \<noteq> ob" if "ob' \<in> set (remove1 ob (sm_list s))" for ob' using that d by simp
    then have "sum_list (map (surface_bytes ((sm_objs s)(ob := None))) (remove1 ob (sm_list s)))
        = sum_list (map (surface_bytes (sm_objs s)) (remove1 ob (sm_list s)))"
      by (intro arg_cong [where f = sum_list] map_cong) (auto simp: surface_bytes_def)
    moreover have "surface_bytes (sm_objs s) ob = unat (vs_memory_size x)" using ob(2) by (simp add: surface_bytes_def)
    moreover have "sum_list (map (surface_bytes (sm_objs s)) (sm_list s))
        = surface_bytes (sm_objs s) ob + sum_list (map (surface_bytes (sm_objs s)) (remove1 ob (sm_list s)))"
      using inl by (rule sum_list_map_remove1)
    ultimately have tot: "total_bytes s = unat (vs_memory_size x) + total_bytes ?s" by (simp add: total_bytes_def)
    have "(word_of_nat (unat (vs_memory_size x)) :: u64) = ucast (vs_memory_size x)" by simp
    then have acc: "sm_allocated_memory ?s + word_of_nat (sm_evicted ?s) = word_of_nat (total_bytes ?s)"
      using t(3) [unfolded count_ok_def tot] by (simp add: algebra_simps)
    have "unat (sm_surface_count s - 1) = length (sm_list s) - 1"
    proof -
      have "1 \<le> sm_surface_count s" using t(3) inl by (cases "sm_list s") (simp_all add: count_ok_def word_le_nat_alt)
      then show ?thesis using t(3) by (simp only: unat_sub count_ok_def) simp
    qed
    moreover have "sm_evicted s = 0 \<longrightarrow> total_bytes ?s \<le> 0x20000000" using t(3) tot unfolding count_ok_def by linarith
    ultimately show ?thesis
      using t(3) inl acc unfolding count_ok_def by (simp add: length_remove1)
  qed
  moreover have "ids_ok n ?s" using t(4) inl by (auto simp: ids_ok_def length_remove1)
  moreover have "locks_ok n ?s" using t(5) by (auto simp: locks_ok_def ran_def)
  moreover have "shapes_ok ?s" using t(7) by (auto simp: shapes_ok_def ran_def)
  moreover have "pointers_ok ?s"
    using t(6) coherent_del [of "dom (sm_objs s)" "sm_map s" "sm_cache s" sid ob] ob(1)
    by (simp add: pointers_ok_def) (metis (no_types, lifting) DiffD1 Un_iff)
  ultimately have "sm_inv n ?s" by (simp add: sm_inv_def)
  moreover have "free_id sid ?s" using t(4) ob(1) by (auto simp: ids_ok_def free_id_def)
  ultimately show ?thesis using releaseSurfaceId_inv by (simp add: destroy_remove_def mem)
qed

section \<open>The operations keep the invariant\<close>

text \<open>
  \<open>sm_kept n\<close> says of the outcome of an operation that, unless it crashed, the invariant holds for one step more.
\<close>

definition sm_kept :: "nat \<Rightarrow> io_return \<times> 'v \<times> iosm \<Rightarrow> bool" where
  "sm_kept n out \<longleftrightarrow> (case out of (r, _, s') \<Rightarrow> r \<noteq> Kernel_panic \<longrightarrow> sm_inv (Suc n) s')"

lemma sm_kept_same [intro]: "sm_inv n s \<Longrightarrow> sm_kept n (r, v, s)"
  by (auto simp: sm_kept_def intro: sm_inv_mono)

lemma kept_panic [simp]: "sm_kept n (Kernel_panic, v, s)"
  by (simp add: sm_kept_def)

lemma with_surface_kept:
  assumes "sm_inv n s"
    and "\<And>ob x s1. sm_inv n s1 \<Longrightarrow> sm_map s1 sid = Some ob \<Longrightarrow> sm_objs s1 ob = Some x \<Longrightarrow> sm_kept n (k ob x s1)"
  shows "sm_kept n (with_surface e sid v s k)"
proof -
  obtain r s1 where f: "findSurface e sid s = (r, s1)" by fastforce
  note i = findSurface_inv [OF assms(1) f]
  show ?thesis
  proof (cases r)
    case None
    then show ?thesis using i(1) by (auto simp: with_surface_def f)
  next
    case (Some ob)
    then show ?thesis using i assms(2) by (auto simp: with_surface_def f split: option.splits)
  qed
qed

lemma kept_put:
  assumes "sm_inv n s" "sm_objs s ob = Some x"
    and "vs_surface_id y = vs_surface_id x" "vs_memory y = vs_memory x" "vs_memory_size y = vs_memory_size x"
      "vs_is_locked y = (vs_lock_count y \<noteq> 0)" "unat (vs_lock_count y) \<le> Suc n" "vs_ref_count y = 1" "shape_ok y"
  shows "sm_kept n (r, v, put_object ob y s)"
  using put_object_inv [OF assms(1,2), of "Suc n" y] assms(3-) by (simp add: sm_kept_def)

lemma sm_inv_lock: "sm_inv n s \<Longrightarrow> sm_objs s ob = Some x \<Longrightarrow> vs_is_locked x = (vs_lock_count x \<noteq> 0) \<and> unat (vs_lock_count x) \<le> n \<and> vs_ref_count x = 1"
  by (auto simp: sm_inv_def locks_ok_def ran_def)

lemma sm_inv_buffer:
  assumes "sm_inv n s" "sm_objs s ob = Some x"
  obtains b where "sm_mem s (Suc ob) = Some b" "vs_memory x = Some (Suc ob)" "length b = unat (vs_memory_size x)"
proof -
  have "Suc ob \<in> dom (sm_mem s)" using assms by (auto simp: sm_inv_def memory_ok_def)
  then obtain b where "sm_mem s (Suc ob) = Some b" by blast
  then show thesis using assms by (intro that [of b]) (simp_all add: sm_inv_def memory_ok_def)
qed

lemma sm_inv_shape: "sm_inv n s \<Longrightarrow> sm_objs s ob = Some x \<Longrightarrow> shape_ok x"
  by (auto simp: sm_inv_def shapes_ok_def ran_def)

lemma shape_cong: "vs_width y = vs_width x \<Longrightarrow> vs_height y = vs_height x \<Longrightarrow> vs_descriptor y = vs_descriptor x
   \<Longrightarrow> vs_memory_size y = vs_memory_size x \<Longrightarrow> shape_ok x \<Longrightarrow> shape_ok y"
  by (simp add: shape_ok_def)

lemma kept_lock:
  assumes "sm_inv n s" "sm_objs s ob = Some x" "n < 2 ^ 31"
  shows "sm_kept n (r, v, put_object ob (x\<lparr>vs_lock_count := vs_lock_count x + 1, vs_is_locked := True, vs_last_access_time := t\<rparr>) s)"
proof (rule kept_put [OF assms(1,2)])
  have "unat (vs_lock_count x + 1) = Suc (unat (vs_lock_count x))"
    using sm_inv_lock [OF assms(1,2)] assms(3) by (intro word_suc_less) simp
  then show "vs_is_locked (x\<lparr>vs_lock_count := vs_lock_count x + 1, vs_is_locked := True, vs_last_access_time := t\<rparr>)
     = (vs_lock_count (x\<lparr>vs_lock_count := vs_lock_count x + 1, vs_is_locked := True, vs_last_access_time := t\<rparr>) \<noteq> 0)"
    "unat (vs_lock_count (x\<lparr>vs_lock_count := vs_lock_count x + 1, vs_is_locked := True, vs_last_access_time := t\<rparr>)) \<le> Suc n"
    using sm_inv_lock [OF assms(1,2)] by (auto simp: unat_eq_0 [symmetric] simp del: unat_eq_0)
  show "shape_ok (x\<lparr>vs_lock_count := vs_lock_count x + 1, vs_is_locked := True, vs_last_access_time := t\<rparr>)"
    by (rule shape_cong [OF _ _ _ _ sm_inv_shape [OF assms(1,2)]]) simp_all
qed (use sm_inv_lock [OF assms(1,2)] in simp_all)

lemma kept_unlock: 
  assumes "sm_inv n s" "sm_objs s ob = Some x"
  shows "sm_kept n (unlock_object e ob x s)"
proof (cases "vs_lock_count x = 0")
  case False
  then have "unat (vs_lock_count x - 1) = unat (vs_lock_count x) - 1" by (rule unat_minus_one)
  then show ?thesis using sm_inv_lock [OF assms]
    by (auto simp: unlock_object_def Let_def intro!: kept_put [OF assms] sm_kept_same [OF assms(1)]
        shape_cong [OF _ _ _ _ sm_inv_shape [OF assms]])
qed (use assms in \<open>auto simp: unlock_object_def\<close>)

lemma lockSurface_kept: "sm_inv n s \<Longrightarrow> n < 2 ^ 31 \<Longrightarrow> sm_kept n (lockSurface e sid opts s)"
  unfolding lockSurface_def by (rule with_surface_kept) (auto intro: kept_lock split: option.splits)

lemma unlockSurface_kept: "sm_inv n s \<Longrightarrow> sm_kept n (unlockSurface e sid s)"
  unfolding unlockSurface_def by (rule with_surface_kept) (auto intro: kept_unlock)

lemma lockSurfacePlane_kept: "sm_inv n s \<Longrightarrow> n < 2 ^ 31 \<Longrightarrow> sm_kept n (lockSurfacePlane e sid pl s)"
  by (cases "pl \<ge> 4", auto simp: lockSurfacePlane_def)
     (rule with_surface_kept, auto intro: kept_lock split: option.splits)

lemma unlockSurfacePlane_kept: "sm_inv n s \<Longrightarrow> sm_kept n (unlockSurfacePlane e sid pl s)"
  unfolding unlockSurfacePlane_def by (auto intro!: with_surface_kept intro: kept_unlock)

lemma getSurfacePlaneInfo_kept: "sm_inv n s \<Longrightarrow> sm_kept n (getSurfacePlaneInfo e sid pl s)"
  unfolding getSurfacePlaneInfo_def by (auto intro!: with_surface_kept)

lemma ios_destroySurface_kept:
  assumes "sm_inv n s" "ios_destroySurface e sid s = (r, s')" "r \<noteq> Kernel_panic"
  shows "sm_inv (Suc n) s'"
proof -
  let ?k = "\<lambda>ob x s1. if vs_is_locked x \<or> vs_lock_count x > 0 then (kIOReturnBusy, (), s1)
        else let n = vs_ref_count x - 1
             in if n > 0 then (kIOReturnSuccess, (), put_object ob (x\<lparr>vs_ref_count := n\<rparr>) s1)
                else (kIOReturnSuccess, (), destroy_remove e sid ob x s1)"
  have "sm_kept n (with_surface e sid () s ?k)"
  proof (rule with_surface_kept [OF assms(1)])
    fix ob x s1 assume a: "sm_inv n s1" "sm_map s1 sid = Some ob" "sm_objs s1 ob = Some x"
    then have "sm_inv (Suc n) (destroy_remove e sid ob x s1)" by (intro sm_inv_mono [OF destroy_remove_inv]) auto
    then show "sm_kept n (?k ob x s1)" using sm_inv_lock [OF a(1,3)] a(1) by (auto simp: sm_kept_def Let_def intro: sm_inv_mono)
  qed
  then show ?thesis
    using assms by (auto simp: ios_destroySurface_def sm_kept_def split: if_splits prod.splits intro: sm_inv_mono)
qed

lemma ios_createSurface_cases:
  assumes "ios_createSurface e desc s = (r, sid, s')"
  shows "s' = s \<or> (\<exists>d s1. desc = Some d \<and> allocateSurfaceId (s\<lparr>sm_tick := sm_tick s + 1\<rparr>) = (sid, s1)
    \<and> sm_allocated_memory s + ucast (calculateSurfaceSize d) \<le> sm_total_memory s
    \<and> \<not> (sd_width d = 0 \<or> sd_height d = 0 \<or> sd_width d > 16384 \<or> sd_height d > 16384) \<and> calculateSurfaceSize d \<noteq> 0
    \<and> s' = (if \<not> ie_malloc e (sm_tick s1) then releaseSurfaceId e sid s1
        else snd (create_build e d (calculateSurfaceSize d) sid (s1\<lparr>sm_structs := sm_structs s1 + 1\<rparr>))))"
proof (cases desc)
  case (Some d)
  obtain i s1 where a: "allocateSurfaceId (s\<lparr>sm_tick := sm_tick s + 1\<rparr>) = (i, s1)" by fastforce
  obtain r2 s2 where b: "create_build e d (calculateSurfaceSize d) i (s1\<lparr>sm_structs := sm_structs s1 + 1\<rparr>) = (r2, s2)" by fastforce
  show ?thesis using assms a b Some
    by (simp add: ios_createSurface_def Let_def not_less [symmetric] split: if_splits) (elim conjE, simp)?
qed (use assms in \<open>simp add: ios_createSurface_def\<close>)

lemma ios_createSurface_kept:
  assumes i: "sm_inv n s" and n: "n < 2 ^ 31 - 2" and c: "ios_createSurface e desc s = (r, sid, s')"
  shows "sm_inv (n + 2) s'"
proof (cases "s' = s")
  case True
  then show ?thesis using i by (auto intro: sm_inv_mono)
next
  case False
  then obtain d s1 where d: "desc = Some d" "allocateSurfaceId (s\<lparr>sm_tick := sm_tick s + 1\<rparr>) = (sid, s1)"
    "sm_allocated_memory s + ucast (calculateSurfaceSize d) \<le> sm_total_memory s"
    "\<not> (sd_width d = 0 \<or> sd_height d = 0 \<or> sd_width d > 16384 \<or> sd_height d > 16384)" "calculateSurfaceSize d \<noteq> 0"
    and s': "s' = (if \<not> ie_malloc e (sm_tick s1) then releaseSurfaceId e sid s1
        else snd (create_build e d (calculateSurfaceSize d) sid (s1\<lparr>sm_structs := sm_structs s1 + 1\<rparr>)))"
    using ios_createSurface_cases [OF c] by blast
  have i1: "sm_inv (Suc n) s1" "free_id sid s1"
    using allocateSurfaceId_inv [OF _ _ d(2), of n] i n by (simp_all add: sm_inv_aux)
  have frame: "sm_allocated_memory s1 = sm_allocated_memory s" using d(2) by (auto simp: allocateSurfaceId_def split: if_splits)
  have small: "sm_allocated_memory s + ucast (calculateSurfaceSize d) \<le> 0x20000000"
    using i d(3) by (simp add: sm_inv_def count_ok_def)
  have u: "sm_inv (Suc (Suc n)) (undo_create e sid (s1\<lparr>sm_structs := k\<rparr>))" for k
    using i1 by (intro sm_inv_mono [OF undo_create_inv, of "Suc n"]) (simp_all add: sm_inv_aux)
  have "sm_inv (Suc (Suc n)) (create_register x (Suc (sm_fresh (s1\<lparr>sm_structs := k\<rparr>))) (s1\<lparr>sm_structs := k\<rparr>))"
    if "vs_surface_id x = sid" "vs_memory x = Some (Suc (sm_fresh s1))" "vs_lock_count x = 0" "\<not> vs_is_locked x" "vs_ref_count x = 1"
      "vs_memory_size x = calculateSurfaceSize d" "shape_ok x" for x k
    using that i1 n small by (intro create_register_inv) (simp_all add: sm_inv_aux frame)
  note reg = this
  have rel: "sm_inv (Suc (Suc n)) (releaseSurfaceId e sid s1)" using i1 by (intro sm_inv_mono [OF releaseSurfaceId_inv, of "Suc n"]) simp_all
  show ?thesis
  proof (cases "setupPlaneInfo (sd_pixel_format d) (sd_width d) (sd_height d) (sd_planes d)")
    case (fields pr planes k)
    have "sd_pixel_format d \<in> {PF_ARGB32, PF_BGRA32, PF_RGBA32, PF_ABGR32, PF_NV12}" if "pr = kIOReturnSuccess"
      using fields that by (auto simp: setupPlaneInfo_def split: if_splits)
    then show ?thesis using d(4,5) fields u [of "sm_structs s1 + 1"] reg [of _ "sm_structs s1 + 1"] rel by (auto simp: s' create_build_def shape_ok_def not_less word_neq_0_conv)
  qed
qed

section \<open>Lookups that are sound, and lookups that are not\<close>

text \<open>The cache points to live objects only. Then a lookup is the lookup in the table.\<close>

definition cache_live :: "iosm \<Rightarrow> bool" where
  "cache_live s \<longleftrightarrow> cache_objects (sm_cache s) \<subseteq> dom (sm_objs s)"

lemma findSurface_live:
  assumes "sm_inv n s" "cache_live s" "n < 2 ^ 31 - 1" "findSurface e sid s = (r, s1)"
  shows "r = sm_map s sid" "cache_live s1"
proof -
  let ?f = "find_cached (ie_clock e (sm_tick s)) sid (sm_map s) (sm_cache s)"
  have r: "r = fst ?f" "s1 = s\<lparr>sm_cache := snd ?f, sm_tick := sm_tick s + 1\<rparr>"
    using assms(4) by (auto simp: findSurface_def split: prod.splits)
  have t: "ran (sm_map s) = dom (sm_objs s)" using assms(1) by (simp add: sm_inv_def table_ran)
  show "cache_live s1"
    using cache_objects_find [of "ie_clock e (sm_tick s)" sid "sm_map s" "sm_cache s"] assms(2) t
    by (auto simp: cache_live_def r)
  have c: "coherent (dom (sm_objs s)) (sm_map s) (sm_cache s)" using assms(1) by (simp add: sm_inv_def pointers_ok_def)
  note f = find_cached_coherent [OF c, where now = "ie_clock e (sm_tick s)" and sid = sid]
  show "r = sm_map s sid"
  proof (cases "sid = 0 \<or> sid > 0x7FFFFFFF")
    case True
    then have "sm_map s sid = None"
      using assms(1,3) by (fastforce simp: sm_inv_def ids_ok_def word_less_nat_alt)
    then show ?thesis using True find_invalid by (simp add: r)
  next
    case False
    show ?thesis
    proof (cases r)
      case None
      then show ?thesis using f(3) False by (simp add: r)
    next
      case (Some ob)
      then have "ob \<in> dom (sm_objs s)"
        using find_objects [of "ie_clock e (sm_tick s)" sid "sm_map s" "sm_cache s" ob] assms(2) t by (auto simp: r cache_live_def)
      then show ?thesis using f(2) Some by (simp add: r)
    qed
  qed
qed

lemma with_surface_live:
  assumes "sm_inv n s" "cache_live s" "n < 2 ^ 31 - 1" "sm_map s sid = Some ob"
  obtains x c where "sm_objs s ob = Some x" "vs_surface_id x = sid"
    "\<And>k v. with_surface e sid v s k = k ob x (s\<lparr>sm_cache := c, sm_tick := sm_tick s + 1\<rparr>)"
    "sm_inv n (s\<lparr>sm_cache := c, sm_tick := sm_tick s + 1\<rparr>)" "cache_live (s\<lparr>sm_cache := c, sm_tick := sm_tick s + 1\<rparr>)"
proof -
  obtain r s1 where f: "findSurface e sid s = (r, s1)" by fastforce
  obtain c where c: "s1 = s\<lparr>sm_cache := c, sm_tick := sm_tick s + 1\<rparr>" using findSurface_frame [OF f] by blast
  obtain x where x: "sm_objs s ob = Some x" "vs_surface_id x = sid" using assms(1,4) by (auto simp: sm_inv_def table_ok_def)
  show thesis
    by (rule that [OF x, of c])
       (use findSurface_live [OF assms(1-3) f] findSurface_inv(1) [OF assms(1) f] assms(4) x f c in \<open>auto simp: with_surface_def\<close>)
qed

lemma findSurface_repeats:
  assumes "findSurface e sid s = (Some ob, s1)" "sm_cache s2 = sm_cache s1"
  shows "fst (findSurface e sid s2) = Some ob"
proof -
  have "sm_cache s2 = snd (find_cached (ie_clock e (sm_tick s)) sid (sm_map s) (sm_cache s))"
    "fst (find_cached (ie_clock e (sm_tick s)) sid (sm_map s) (sm_cache s)) = Some ob"
    using assms by (auto simp: findSurface_def split: prod.splits)
  then show ?thesis using find_cached_again by (simp add: findSurface_def split: prod.splits) (metis fst_conv)
qed

text \<open>A destroyed surface stays in the cache: the next use of its id follows a pointer to a released object.\<close>

lemma destroyed_dangles:
  assumes "sm_inv n s" "ios_destroySurface e sid s = (kIOReturnSuccess, s1)"
  obtains ob where "ob < sm_fresh s1" "sm_objs s1 ob = None" "\<And>s2. sm_cache s2 = sm_cache s1 \<Longrightarrow> fst (findSurface e sid s2) = Some ob"
proof -
  obtain r s0 where f: "findSurface e sid s = (r, s0)" by fastforce
  note i = findSurface_inv [OF assms(1) f]
  obtain ob x where ob: "r = Some ob" "sm_objs s0 ob = Some x"
    using assms(2) f by (auto simp: ios_destroySurface_def with_surface_def split: option.splits if_splits)
  then have s1: "s1 = destroy_remove e sid ob x s0"
    using assms(2) f sm_inv_lock [OF i(1) ob(2)] by (auto simp: ios_destroySurface_def with_surface_def split: if_splits)
  have lt: "ob < sm_fresh s0" using i(1) ob(2) by (auto simp: sm_inv_def pointers_ok_def)
  have c: "sm_cache s1 = sm_cache s0" "sm_objs s1 ob = None" "sm_fresh s1 = sm_fresh s0"
    by (auto simp: s1 destroy_remove_def releaseSurfaceId_def)
  show thesis by (rule that [of ob]) (use c lt findSurface_repeats [OF f [unfolded ob(1)]] in auto)
qed

lemma ios_createSurface_frame:
  assumes "ios_createSurface e desc s = (r, sid, s')"
  shows "sm_cache s' = sm_cache s" "ob < sm_fresh s \<Longrightarrow> sm_objs s' ob = sm_objs s ob"
proof -
  have fr: "sm_cache s2 = sm_cache s1" "ob < sm_fresh s1 \<Longrightarrow> sm_objs s2 ob = sm_objs s1 ob"
    if "create_build e d k i s1 = (r2, s2)" for d k i s1 r2 s2
    using that by (auto simp: create_build_def create_register_def undo_create_def releaseSurfaceId_def Let_def split: prod.splits if_splits)
  have "sm_cache s' = sm_cache s \<and> (ob < sm_fresh s \<longrightarrow> sm_objs s' ob = sm_objs s ob)"
    using ios_createSurface_cases [OF assms]
  proof
    assume "\<exists>d s1. desc = Some d \<and> allocateSurfaceId (s\<lparr>sm_tick := sm_tick s + 1\<rparr>) = (sid, s1)
      \<and> sm_allocated_memory s + ucast (calculateSurfaceSize d) \<le> sm_total_memory s
      \<and> \<not> (sd_width d = 0 \<or> sd_height d = 0 \<or> sd_width d > 16384 \<or> sd_height d > 16384) \<and> calculateSurfaceSize d \<noteq> 0
      \<and> s' = (if \<not> ie_malloc e (sm_tick s1) then releaseSurfaceId e sid s1
        else snd (create_build e d (calculateSurfaceSize d) sid (s1\<lparr>sm_structs := sm_structs s1 + 1\<rparr>)))"
    then obtain d s1 where a: "allocateSurfaceId (s\<lparr>sm_tick := sm_tick s + 1\<rparr>) = (sid, s1)"
      and s': "s' = (if \<not> ie_malloc e (sm_tick s1) then releaseSurfaceId e sid s1
        else snd (create_build e d (calculateSurfaceSize d) sid (s1\<lparr>sm_structs := sm_structs s1 + 1\<rparr>)))" by blast
    have "sm_cache s1 = sm_cache s" "sm_objs s1 = sm_objs s" "sm_fresh s1 = sm_fresh s"
      using a by (auto simp: allocateSurfaceId_def split: if_splits)
    then show ?thesis using s' fr [of d "calculateSurfaceSize d" sid "s1\<lparr>sm_structs := sm_structs s1 + 1\<rparr>"]
      by (cases "create_build e d (calculateSurfaceSize d) sid (s1\<lparr>sm_structs := sm_structs s1 + 1\<rparr>)")
         (auto simp: releaseSurfaceId_def split: if_splits)
  qed simp
  then show "sm_cache s' = sm_cache s" "ob < sm_fresh s \<Longrightarrow> sm_objs s' ob = sm_objs s ob" by auto
qed

end
