(* ===== verification/Surface_Pixels.thy ===== *)
theory Surface_Pixels
  imports Io_Surface
begin

text \<open>
  The operations of \<^verbatim>\<open>VMIOSurfaceManager\<close> on pixel memory: copying, filling, regions and format conversion. The kernel's
  \<^verbatim>\<open>memcpy\<close> is its \<^verbatim>\<open>memmove\<close>, so a row is read whole before it is written. Offsets are computed as the code does:
  the products in 32 bits, their sum with the base address in 64.
\<close>

section \<open>Access to buffers\<close>

definition load_at :: "nat \<Rightarrow> nat \<Rightarrow> bytes \<Rightarrow> bytes option" where
  "load_at off n buf = (if off + n \<le> length buf then Some (take n (drop off buf)) else None)"

definition store_at :: "nat \<Rightarrow> bytes \<Rightarrow> bytes \<Rightarrow> bytes option" where
  "store_at off bs buf =
     (if off + length bs \<le> length buf then Some (take off buf @ bs @ drop (off + length bs) buf) else None)"

text \<open>\<open>n\<close> pixels of four bytes, one after the other.\<close>

fun fill_run :: "nat \<Rightarrow> nat \<Rightarrow> u32 \<Rightarrow> bytes \<Rightarrow> bytes option" where
  "fill_run 0 off c buf = Some buf"
| "fill_run (Suc n) off c buf = (case store_at off (le32 c) buf of None \<Rightarrow> None | Some b \<Rightarrow> fill_run n (off + 4) c b)"

text \<open>Rows of such runs; the offset of row \<open>r\<close> is \<open>r * stride\<close> in 32 bits.\<close>

fun fill_rows :: "u32 \<Rightarrow> nat \<Rightarrow> nat \<Rightarrow> u32 \<Rightarrow> nat \<Rightarrow> u32 \<Rightarrow> bytes \<Rightarrow> bytes option" where
  "fill_rows r 0 off stride w c buf = Some buf"
| "fill_rows r (Suc n) off stride w c buf =
     (case fill_run w (off + unat (r * stride)) c buf of
        None \<Rightarrow> None | Some b \<Rightarrow> fill_rows (r + 1) n off stride w c b)"

text \<open>
  \<open>n\<close> elements of \<open>len\<close> bytes from buffer \<open>m1\<close>, each put through \<open>f\<close> and written to buffer \<open>m2\<close>; the offsets advance by
  \<open>ss\<close> and \<open>ds\<close>. A row copy and a pixel conversion are both of this form.
\<close>

fun transfer :: "nat \<Rightarrow> nat \<Rightarrow> nat \<Rightarrow> nat \<Rightarrow> nat \<Rightarrow> nat \<Rightarrow> (bytes \<Rightarrow> bytes) \<Rightarrow> nat \<Rightarrow> nat \<Rightarrow> (nat \<Rightarrow> bytes option) \<Rightarrow> (nat \<Rightarrow> bytes option) option" where
  "transfer 0 len so ss do ds f m1 m2 mem = Some mem"
| "transfer (Suc n) len so ss do ds f m1 m2 mem =
     (case mem m1 of None \<Rightarrow> None | Some a \<Rightarrow>
        case load_at so len a of None \<Rightarrow> None | Some p \<Rightarrow>
        case mem m2 of None \<Rightarrow> None | Some b \<Rightarrow>
        case store_at do (f p) b of None \<Rightarrow> None | Some b' \<Rightarrow>
          transfer n len (so + ss) ss (do + ds) ds f m1 m2 (mem(m2 \<mapsto> b')))"

section \<open>Copying\<close>

text \<open>Follow both pointers; the source first.\<close>

definition deref_pair :: "nat \<Rightarrow> nat \<Rightarrow> iosm \<Rightarrow> (nat \<Rightarrow> VMIOSurface \<Rightarrow> nat \<Rightarrow> VMIOSurface \<Rightarrow> iosm \<Rightarrow> io_return \<times> unit \<times> iosm) \<Rightarrow> io_return \<times> unit \<times> iosm" where
  "deref_pair o1 o2 s k =
     (case sm_objs s o1 of None \<Rightarrow> (Kernel_panic, (), s) | Some x \<Rightarrow>
      case sm_objs s o2 of None \<Rightarrow> (Kernel_panic, (), s) | Some y \<Rightarrow> k o1 x o2 y s)"

definition with_source_dest :: "iosm_env \<Rightarrow> u32 \<Rightarrow> u32 \<Rightarrow> iosm \<Rightarrow> (nat \<Rightarrow> VMIOSurface \<Rightarrow> nat \<Rightarrow> VMIOSurface \<Rightarrow> iosm \<Rightarrow> io_return \<times> unit \<times> iosm) \<Rightarrow> io_return \<times> unit \<times> iosm" where
  "with_source_dest e sid did s k =
     (case findSurface e sid s of
        (None, s1) \<Rightarrow> (kIOReturnNotFound, (), s1)
      | (Some o1, s1) \<Rightarrow>
          (case findSurface e did s1 of
             (None, s2) \<Rightarrow> (kIOReturnNotFound, (), s2)
           | (Some o2, s2) \<Rightarrow> deref_pair o1 o2 s2 k))"

definition touch_surface :: "iosm_env \<Rightarrow> nat \<Rightarrow> VMIOSurface \<Rightarrow> iosm \<Rightarrow> iosm" where
  "touch_surface e ob x s = put_object ob (x\<lparr>vs_last_access_time := ie_clock e (sm_tick s)\<rparr>) s"

text \<open>The end of an operation that wrote memory: a write outside a buffer is a crash.\<close>

definition finish_write :: "iosm_env \<Rightarrow> nat \<Rightarrow> VMIOSurface \<Rightarrow> (nat \<Rightarrow> bytes option) option \<Rightarrow> iosm \<Rightarrow> io_return \<times> unit \<times> iosm" where
  "finish_write e ob x out s =
     (case out of None \<Rightarrow> (Kernel_panic, (), s) | Some mem \<Rightarrow> (kIOReturnSuccess, (), touch_surface e ob x (s\<lparr>sm_mem := mem\<rparr>)))"

definition copySurface :: "iosm_env \<Rightarrow> u32 \<Rightarrow> u32 \<Rightarrow> iosm \<Rightarrow> io_return \<times> unit \<times> iosm" where
  "copySurface e sid did s =
     (if sid = 0 \<or> did = 0 then (kIOReturnBadArgument, (), s)
      else if sid = did then (kIOReturnSuccess, (), s)
      else with_source_dest e sid did s (\<lambda>o1 x o2 y s1.
        if vs_width x \<noteq> vs_width y \<or> vs_height x \<noteq> vs_height y
           \<or> sd_pixel_format (vs_descriptor x) \<noteq> sd_pixel_format (vs_descriptor y) then (kIOReturnBadArgument, (), s1)
        else case (vs_memory x, vs_memory y) of
               (Some m1, Some m2) \<Rightarrow>
                 finish_write e o2 y
                   (transfer 1 (unat (min (vs_memory_size x) (vs_memory_size y))) 0 0 0 0 id m1 m2 (sm_mem s1)) s1
             | _ \<Rightarrow> (kIOReturnNotReady, (), s1)))"

definition copySurfaceRegion ::
  "iosm_env \<Rightarrow> u32 \<Rightarrow> u32 \<Rightarrow> u32 \<Rightarrow> u32 \<Rightarrow> u32 \<Rightarrow> u32 \<Rightarrow> u32 \<Rightarrow> u32 \<Rightarrow> iosm \<Rightarrow> io_return \<times> unit \<times> iosm" where
  "copySurfaceRegion e sid did src_x src_y dst_x dst_y w h s =
     (if sid = 0 \<or> did = 0 \<or> w = 0 \<or> h = 0 then (kIOReturnBadArgument, (), s)
      else case findSurface e sid s of (r1, s1) \<Rightarrow> case findSurface e did s1 of (r2, s2) \<Rightarrow>
        (case (r1, r2) of
           (Some a, Some b) \<Rightarrow> deref_pair a b s2 (\<lambda>o1 x o2 y s3.
             case (vs_memory x, vs_memory y) of
               (Some m1, Some m2) \<Rightarrow>
                 if src_x + w > vs_width x \<or> src_y + h > vs_height x \<or> dst_x + w > vs_width y \<or> dst_y + h > vs_height y
                 then (kIOReturnBadArgument, (), s3)
                 else if sd_pixel_format (vs_descriptor x) \<noteq> sd_pixel_format (vs_descriptor y) then (kIOReturnBadArgument, (), s3)
                 else let bpp = getBytesPerPixel (sd_pixel_format (vs_descriptor x));
                          ss = vs_width x * bpp; ds = vs_width y * bpp
                      in finish_write e o2 y
                           (transfer (unat h) (unat (w * bpp)) (unat (src_y * ss) + unat (src_x * bpp)) (unat ss)
                              (unat (dst_y * ds) + unat (dst_x * bpp)) (unat ds) id m1 m2 (sm_mem s3)) s3
             | _ \<Rightarrow> (kIOReturnNotReady, (), s3))
         | _ \<Rightarrow> (kIOReturnNotFound, (), s2)))"

section \<open>Filling\<close>

text \<open>Writing one buffer of the store.\<close>

definition on_buffer :: "nat \<Rightarrow> (bytes \<Rightarrow> bytes option) \<Rightarrow> (nat \<Rightarrow> bytes option) \<Rightarrow> (nat \<Rightarrow> bytes option) option" where
  "on_buffer m f mem = (case mem m of None \<Rightarrow> None | Some b \<Rightarrow> map_option (\<lambda>b'. mem(m \<mapsto> b')) (f b))"

definition fillSurface :: "iosm_env \<Rightarrow> u32 \<Rightarrow> u32 \<Rightarrow> iosm \<Rightarrow> io_return \<times> unit \<times> iosm" where
  "fillSurface e sid c s =
     with_surface e sid () s (\<lambda>ob x s1.
       case vs_memory x of
         None \<Rightarrow> (kIOReturnNotReady, (), s1)
       | Some m \<Rightarrow>
           let bpp = getBytesPerPixel (sd_pixel_format (vs_descriptor x))
           in if bpp = 0 then (kIOReturnUnsupported, (), s1)
              else finish_write e ob x (on_buffer m (fill_run (unat (vs_memory_size x div bpp)) 0 c) (sm_mem s1)) s1)"

definition fillSurfaceRegion :: "iosm_env \<Rightarrow> u32 \<Rightarrow> u32 \<Rightarrow> u32 \<Rightarrow> u32 \<Rightarrow> u32 \<Rightarrow> u32 \<Rightarrow> iosm \<Rightarrow> io_return \<times> unit \<times> iosm" where
  "fillSurfaceRegion e sid x y w h c s =
     (if sid = 0 \<or> w = 0 \<or> h = 0 then (kIOReturnBadArgument, (), s)
      else with_surface e sid () s (\<lambda>ob v s1.
        case vs_memory v of
          None \<Rightarrow> (kIOReturnNotReady, (), s1)
        | Some m \<Rightarrow>
            if x + w > vs_width v \<or> y + h > vs_height v then (kIOReturnBadArgument, (), s1)
            else let bpp = getBytesPerPixel (sd_pixel_format (vs_descriptor v)); stride = vs_width v * bpp
                 in if bpp = 0 then (kIOReturnUnsupported, (), s1)
                    else finish_write e ob v
                           (on_buffer m (fill_rows 0 (unat h) (unat (y * stride) + unat (x * bpp)) stride (unat w) c) (sm_mem s1)) s1))"

section \<open>Format conversion\<close>

definition byte_at :: "nat \<Rightarrow> u32 \<Rightarrow> u32" where
  "byte_at k p = drop_bit k p AND 0xFF"

definition bgra_to_rgba :: "u32 \<Rightarrow> u32" where
  "bgra_to_rgba p =
     (let b = byte_at 24 p; g = byte_at 16 p; r = byte_at 8 p; a = p AND 0xFF
      in push_bit 24 r OR push_bit 16 g OR push_bit 8 b OR a)"

definition rgba_to_bgra :: "u32 \<Rightarrow> u32" where
  "rgba_to_bgra p =
     (let r = byte_at 24 p; g = byte_at 16 p; b = byte_at 8 p; a = p AND 0xFF
      in push_bit 24 b OR push_bit 16 g OR push_bit 8 r OR a)"

definition bgra_to_rgb24 :: "u32 \<Rightarrow> bytes" where
  "bgra_to_rgb24 p = [ucast (byte_at 8 p), ucast (byte_at 16 p), ucast (byte_at 24 p)]"

definition rgb24_to_bgra :: "bytes \<Rightarrow> u32" where
  "rgb24_to_bgra px =
     (let r = ucast (px ! 0) :: u32; g = ucast (px ! 1) :: u32; b = ucast (px ! 2) :: u32
      in push_bit 24 b OR push_bit 16 g OR push_bit 8 r OR 0xFF)"

definition bgra_to_luminance :: "u32 \<Rightarrow> u8" where
  "bgra_to_luminance p = ucast ((299 * byte_at 8 p + 587 * byte_at 16 p + 114 * byte_at 24 p) div 1000 AND 0xFF)"

definition convertBGRAtoRGBA :: "nat \<Rightarrow> nat \<Rightarrow> u32 \<Rightarrow> (nat \<Rightarrow> bytes option) \<Rightarrow> (nat \<Rightarrow> bytes option) option" where
  "convertBGRAtoRGBA m1 m2 n = transfer (unat n) 4 0 4 0 4 (\<lambda>px. le32 (bgra_to_rgba (rd32 px))) m1 m2"

definition convertRGBAtoBGRA :: "nat \<Rightarrow> nat \<Rightarrow> u32 \<Rightarrow> (nat \<Rightarrow> bytes option) \<Rightarrow> (nat \<Rightarrow> bytes option) option" where
  "convertRGBAtoBGRA m1 m2 n = transfer (unat n) 4 0 4 0 4 (\<lambda>px. le32 (rgba_to_bgra (rd32 px))) m1 m2"

definition convertBGRAtoRGB24 :: "nat \<Rightarrow> nat \<Rightarrow> u32 \<Rightarrow> (nat \<Rightarrow> bytes option) \<Rightarrow> (nat \<Rightarrow> bytes option) option" where
  "convertBGRAtoRGB24 m1 m2 n = transfer (unat n) 4 0 4 0 3 (\<lambda>px. bgra_to_rgb24 (rd32 px)) m1 m2"

definition convertRGB24toBGRA :: "nat \<Rightarrow> nat \<Rightarrow> u32 \<Rightarrow> (nat \<Rightarrow> bytes option) \<Rightarrow> (nat \<Rightarrow> bytes option) option" where
  "convertRGB24toBGRA m1 m2 n = transfer (unat n) 3 0 3 0 4 (\<lambda>px. le32 (rgb24_to_bgra px)) m1 m2"

definition convertBGRAtoLuminance :: "nat \<Rightarrow> nat \<Rightarrow> u32 \<Rightarrow> (nat \<Rightarrow> bytes option) \<Rightarrow> (nat \<Rightarrow> bytes option) option" where
  "convertBGRAtoLuminance m1 m2 n = transfer (unat n) 4 0 4 0 1 (\<lambda>px. [bgra_to_luminance (rd32 px)]) m1 m2"

text \<open>
  The codes \<^verbatim>\<open>'RGB '\<close> and \<^verbatim>\<open>'L000'\<close> of the last three cases are formats that \<open>validatePixelFormat\<close> rejects, so no
  surface of the manager ever has one of them. \<open>Inl\<close> is a return code
  without a write, \<open>Inr\<close> the outcome of the writes.
\<close>

definition performPixelFormatConversion ::
  "nat \<Rightarrow> u32 \<Rightarrow> nat \<Rightarrow> u32 \<Rightarrow> u32 \<Rightarrow> u32 \<Rightarrow> (nat \<Rightarrow> bytes option) \<Rightarrow> io_return + (nat \<Rightarrow> bytes option) option" where
  "performPixelFormatConversion m1 sf m2 df w h mem =
     (if w = 0 \<or> h = 0 then Inl kIOReturnBadArgument
      else if sf = df then
        (if getBytesPerPixel sf = 0 then Inl kIOReturnUnsupported
         else Inr (transfer 1 (unat (w * h * getBytesPerPixel sf)) 0 0 0 0 id m1 m2 mem))
      else if sf = PF_BGRA32 \<and> df = PF_RGBA32 then Inr (convertBGRAtoRGBA m1 m2 (w * h) mem)
      else if sf = PF_RGBA32 \<and> df = PF_BGRA32 then Inr (convertRGBAtoBGRA m1 m2 (w * h) mem)
      else if sf = PF_BGRA32 \<and> df = 0x52474220 then Inr (convertBGRAtoRGB24 m1 m2 (w * h) mem)
      else if sf = 0x52474220 \<and> df = PF_BGRA32 then Inr (convertRGB24toBGRA m1 m2 (w * h) mem)
      else if sf = PF_BGRA32 \<and> df = 0x4C303030 then Inr (convertBGRAtoLuminance m1 m2 (w * h) mem)
      else Inl kIOReturnUnsupported)"

text \<open>The format of the destination becomes the requested one, whatever it was; the planes and the size stay.\<close>

definition convertSurfaceFormat :: "iosm_env \<Rightarrow> u32 \<Rightarrow> u32 \<Rightarrow> u32 \<Rightarrow> iosm \<Rightarrow> io_return \<times> unit \<times> iosm" where
  "convertSurfaceFormat e sid did df s =
     (let valid = validatePixelFormat (sm_supports_yuv s) df in
      if sid = 0 \<or> did = 0 then (kIOReturnBadArgument, (), s)
      else if sid = did then (kIOReturnSuccess, (), s)
      else if valid \<noteq> kIOReturnSuccess then (valid, (), s)
      else with_source_dest e sid did s (\<lambda>o1 x o2 y s1.
        case (vs_memory x, vs_memory y) of
          (Some m1, Some m2) \<Rightarrow>
            if vs_width x \<noteq> vs_width y \<or> vs_height x \<noteq> vs_height y then (kIOReturnBadArgument, (), s1)
            else if sd_pixel_format (vs_descriptor x) = df then (kIOReturnSuccess, (), s1)
            else (case performPixelFormatConversion m1 (sd_pixel_format (vs_descriptor x)) m2 df (vs_width x) (vs_height x) (sm_mem s1) of
                    Inl r \<Rightarrow> (r, (), s1)
                  | Inr out \<Rightarrow> finish_write e o2 (y\<lparr>vs_descriptor := (vs_descriptor y)\<lparr>sd_pixel_format := df\<rparr>\<rparr>) out s1)
        | _ \<Rightarrow> (kIOReturnNotReady, (), s1)))"

section \<open>Checks and priorities\<close>

definition validateSurface :: "iosm_env \<Rightarrow> u32 \<Rightarrow> iosm \<Rightarrow> io_return \<times> unit \<times> iosm" where
  "validateSurface e sid s =
     with_surface e sid () s (\<lambda>ob x s1.
       let r0 = (if vs_surface_id x \<noteq> sid then kIOReturnInternalError else kIOReturnSuccess);
           r1 = (if vs_width x = 0 \<or> vs_height x = 0 \<or> vs_width x > 16384 \<or> vs_height x > 16384 then kIOReturnBadArgument else r0);
           r2 = (if validatePixelFormat (sm_supports_yuv s1) (sd_pixel_format (vs_descriptor x)) \<noteq> kIOReturnSuccess then kIOReturnBadArgument else r1);
           r3 = (if vs_memory x = None then kIOReturnNotReady else r2)
       in (r3, (), s1))"

definition checkSurfaceIntegrity :: "iosm_env \<Rightarrow> u32 \<Rightarrow> iosm \<Rightarrow> io_return \<times> unit \<times> iosm" where
  "checkSurfaceIntegrity e sid s =
     with_surface e sid () s (\<lambda>ob x s1.
       let r0 = (case vs_memory x of
                   None \<Rightarrow> kIOReturnSuccess
                 | Some m \<Rightarrow> (case sm_mem s1 m of
                                None \<Rightarrow> Kernel_panic
                              | Some b \<Rightarrow> if length b \<noteq> unat (vs_memory_size x) then kIOReturnIOError else kIOReturnSuccess));
           r1 = (if r0 \<noteq> Kernel_panic \<and> vs_ref_count x = 0 then kIOReturnInternalError else r0);
           r2 = (if r0 \<noteq> Kernel_panic \<and> vs_is_locked x \<and> vs_lock_count x = 0 then kIOReturnInternalError else r1)
       in (r2, (), s1))"

text \<open>The priority is an enumeration of the caller, read as a number: 0 is low, 3 is critical.\<close>

definition priority_of :: "u32 \<Rightarrow> VMIOSurfaceMemoryPriority option" where
  "priority_of p = (if p = 0 then Some Priority_low else if p = 1 then Some Priority_normal else if p = 2 then Some Priority_high
     else if p = 3 then Some Priority_critical else None)"

definition setSurfaceMemoryPriority :: "iosm_env \<Rightarrow> u32 \<Rightarrow> u32 \<Rightarrow> iosm \<Rightarrow> io_return \<times> unit \<times> iosm" where
  "setSurfaceMemoryPriority e sid p s =
     (if sid = 0 then (kIOReturnBadArgument, (), s)
      else case priority_of p of
             None \<Rightarrow> (kIOReturnBadArgument, (), s)
           | Some q \<Rightarrow> with_surface e sid () s (\<lambda>ob x s1. (kIOReturnSuccess, (), put_object ob (x\<lparr>vs_memory_priority := q\<rparr>) s1)))"

section \<open>What the loops do\<close>

lemma length_store_at: "store_at off bs buf = Some b \<Longrightarrow> length b = length buf"
  by (auto simp: store_at_def split: if_splits)

lemma nth_store_at:
  "store_at off bs buf = Some b \<Longrightarrow> k < length buf \<Longrightarrow> b ! k = (if off \<le> k \<and> k < off + length bs then bs ! (k - off) else buf ! k)"
  by (auto simp: store_at_def nth_append split: if_splits)

text \<open>A run of pixels fits or crashes; there is no third outcome.\<close>

lemma fill_run_eq:
  "fill_run n off c buf =
     (if n = 0 \<or> off + 4 * n \<le> length buf
      then Some (take off buf @ concat (replicate n (le32 c)) @ drop (off + 4 * n) buf) else None)"
proof (induction n arbitrary: off buf)
  case (Suc n)
  show ?case
  proof (cases "off + 4 \<le> length buf")
    case True
    let ?b = "take off buf @ le32 c @ drop (off + 4) buf"
    have st: "store_at off (le32 c) buf = Some ?b" using True by (simp add: store_at_def)
    have t: "take (off + 4) ?b = take off buf @ le32 c" using True by simp
    have "drop (off + 4 + 4 * n) ?b = drop (off + 4 * Suc n) buf" using True by (simp add: ac_simps)
    then show ?thesis using Suc.IH [of "off + 4" ?b] True by (auto simp: st t)
  qed (simp add: store_at_def)
qed simp

lemma length_fill_run: "fill_run n off c buf = Some b \<Longrightarrow> length b = length buf"
  by (auto simp: fill_run_eq length_concat sum_list_replicate split: if_splits)

lemma length_fill_rows: "fill_rows r n off stride w c buf = Some b \<Longrightarrow> length b = length buf"
  by (induction n arbitrary: r buf) (auto split: option.splits dest!: length_fill_run)

lemma on_buffer_like: "on_buffer m f mem = Some mem' \<Longrightarrow> (\<And>b b'. f b = Some b' \<Longrightarrow> length b' = length b) \<Longrightarrow> mem_like mem mem'"
  by (auto simp: on_buffer_def intro: mem_like_upd split: option.splits)

lemma transfer_like: "transfer n len so ss do ds f m1 m2 mem = Some mem' \<Longrightarrow> mem_like mem mem' \<and> (\<forall>m. m \<noteq> m2 \<longrightarrow> mem' m = mem m)"
proof (induction n arbitrary: so "do" mem)
  case (Suc n)
  then obtain a p b b' where s: "mem m1 = Some a" "load_at so len a = Some p" "mem m2 = Some b" "store_at do (f p) b = Some b'"
    "transfer n len (so + ss) ss (do + ds) ds f m1 m2 (mem(m2 \<mapsto> b')) = Some mem'"
    by (auto split: option.splits)
  have "mem_like mem (mem(m2 \<mapsto> b'))" using s(3) length_store_at [OF s(4)] by (rule mem_like_upd)
  from mem_like_trans [OF this] have "mem_like mem mem'" using Suc.IH [OF s(5)] by blast
  moreover have "mem' m = mem m" if "m \<noteq> m2" for m using Suc.IH [OF s(5)] that by simp
  ultimately show ?case by simp
qed simp

text \<open>
  Between two buffers, a transfer in bounds succeeds; element \<open>r\<close> of the destination is the image of element \<open>r\<close> of the
  source, and the bytes between the elements are untouched.
\<close>

lemma transfer_spec:
  assumes "m1 \<noteq> m2" "mem m1 = Some a" "mem m2 = Some b" "\<And>p. length p = len \<Longrightarrow> length (f p) = dl" "dl \<le> ds"
    and "\<And>r. r < n \<Longrightarrow> so + r * ss + len \<le> length a" "\<And>r. r < n \<Longrightarrow> do + r * ds + dl \<le> length b"
  shows "\<exists>b'. transfer n len so ss do ds f m1 m2 mem = Some (mem(m2 \<mapsto> b')) \<and> length b' = length b
    \<and> (\<forall>r < n. \<forall>j < dl. b' ! (do + r * ds + j) = f (take len (drop (so + r * ss) a)) ! j)
    \<and> (\<forall>k < length b. (\<forall>r < n. k < do + r * ds \<or> do + r * ds + dl \<le> k) \<longrightarrow> b' ! k = b ! k)"
  using assms(2,3,6,7)
proof (induction n arbitrary: so "do" mem b)
  case 0
  then show ?case by (auto intro!: exI [of _ b])
next
  case (Suc n)
  let ?p = "take len (drop so a)"
  have l: "load_at so len a = Some ?p" using Suc.prems(3) [of 0] by (simp add: load_at_def)
  have lp: "length (f ?p) = dl" using Suc.prems(3) [of 0] by (intro assms(4)) simp
  then obtain c where c: "store_at do (f ?p) b = Some c" using Suc.prems(4) [of 0] by (simp add: store_at_def)
  note lc = length_store_at [OF c] and nc = nth_store_at [OF c, unfolded lp]
  have "\<exists>b'. transfer n len (so + ss) ss (do + ds) ds f m1 m2 (mem(m2 \<mapsto> c)) = Some ((mem(m2 \<mapsto> c))(m2 \<mapsto> b')) \<and> length b' = length c
    \<and> (\<forall>r < n. \<forall>j < dl. b' ! (do + ds + r * ds + j) = f (take len (drop (so + ss + r * ss) a)) ! j)
    \<and> (\<forall>k < length c. (\<forall>r < n. k < do + ds + r * ds \<or> do + ds + r * ds + dl \<le> k) \<longrightarrow> b' ! k = c ! k)"
  proof (rule Suc.IH)
    show "(mem(m2 \<mapsto> c)) m1 = Some a" "(mem(m2 \<mapsto> c)) m2 = Some c" using assms(1) Suc.prems(1) by auto
    show "so + ss + r * ss + len \<le> length a" "do + ds + r * ds + dl \<le> length c" if "r < n" for r
      using that Suc.prems(3,4) [of "Suc r"] by (auto simp: lc algebra_simps)
  qed
  then obtain b' where b': "transfer n len (so + ss) ss (do + ds) ds f m1 m2 (mem(m2 \<mapsto> c)) = Some (mem(m2 \<mapsto> b'))"
    "length b' = length c" "\<And>r j. r < n \<Longrightarrow> j < dl \<Longrightarrow> b' ! (do + ds + r * ds + j) = f (take len (drop (so + ss + r * ss) a)) ! j"
    "\<And>k. k < length c \<Longrightarrow> (\<forall>r < n. k < do + ds + r * ds \<or> do + ds + r * ds + dl \<le> k) \<Longrightarrow> b' ! k = c ! k" by auto
  have "transfer (Suc n) len so ss do ds f m1 m2 mem = Some (mem(m2 \<mapsto> b'))"
    using Suc.prems(1,2) l c b'(1) by simp
  moreover have "b' ! (do + r * ds + j) = f (take len (drop (so + r * ss) a)) ! j" if "r < Suc n" "j < dl" for r j
  proof (cases r)
    case 0
    have j: "do + j < length b" using Suc.prems(4) [of 0] that(2) by simp
    then have "b' ! (do + j) = c ! (do + j)" using that(2) assms(5) by (intro b'(4)) (auto simp: lc)
    then show ?thesis using 0 that(2) j by (simp add: nc)
  next
    case (Suc q)
    then show ?thesis using b'(3) [of q j] that by (simp add: algebra_simps)
  qed
  moreover have "b' ! k = b ! k" if kb: "k < length b" and k: "\<forall>r < Suc n. k < do + r * ds \<or> do + r * ds + dl \<le> k" for k
  proof -
    have "k < do + ds + r * ds \<or> do + ds + r * ds + dl \<le> k" if "r < n" for r
      using k [rule_format, of "Suc r"] that by (simp add: algebra_simps)
    then have "b' ! k = c ! k" using kb by (intro b'(4)) (auto simp: lc)
    then show ?thesis using k [rule_format, of 0] kb by (auto simp: nc)
  qed
  ultimately show ?case using b'(2) lc by (intro exI [of _ b']) auto
qed

lemma transfer_bounds:
  "transfer n len so ss do ds f m1 m2 mem = Some mem' \<Longrightarrow> mem m2 = Some b \<Longrightarrow> (\<And>p. length p = len \<Longrightarrow> length (f p) = dl)
   \<Longrightarrow> r < n \<Longrightarrow> do + r * ds + dl \<le> length b"
proof (induction n arbitrary: so "do" mem b r)
  case (Suc n)
  then obtain a p b' where s: "mem m1 = Some a" "load_at so len a = Some p" "store_at do (f p) b = Some b'"
    "transfer n len (so + ss) ss (do + ds) ds f m1 m2 (mem(m2 \<mapsto> b')) = Some mem'"
    by (auto split: option.splits)
  have lp: "length (f p) = dl" using s(2) by (intro Suc.prems(3)) (auto simp: load_at_def split: if_splits)
  show ?case
  proof (cases r)
    case 0
    then show ?thesis using s(3) lp by (auto simp: store_at_def split: if_splits)
  next
    case (Suc q)
    then show ?thesis using Suc.IH [OF s(4) _ Suc.prems(3), of b' q] Suc.prems(4) length_store_at [OF s(3)]
      by (simp add: algebra_simps)
  qed
qed simp

section \<open>The invariant is kept\<close>

lemma shape_touch: "shape_ok x \<Longrightarrow> shape_ok (x\<lparr>vs_last_access_time := t\<rparr>)"
  by (simp add: shape_ok_def)

text \<open>\<open>y\<close> is the surface \<open>x\<close> up to the times and the format.\<close>

lemma finish_write_kept:
  assumes i: "sm_inv n s" and ob: "sm_objs s ob = Some x" and like: "\<And>mem. out = Some mem \<Longrightarrow> mem_like (sm_mem s) mem"
    and y: "vs_surface_id y = vs_surface_id x" "vs_memory y = vs_memory x" "vs_memory_size y = vs_memory_size x"
      "vs_is_locked y = vs_is_locked x" "vs_lock_count y = vs_lock_count x" "vs_ref_count y = vs_ref_count x" "shape_ok y"
  shows "sm_kept n (finish_write e ob y out s)"
proof (cases out)
  case (Some mem)
  have "sm_inv n (s\<lparr>sm_mem := mem\<rparr>)" using mem_like_inv [OF i like [OF Some]] .
  then have "sm_kept n (r, v, put_object ob (y\<lparr>vs_last_access_time := t\<rparr>) (s\<lparr>sm_mem := mem\<rparr>))" for r v t
    by (rule kept_put [of _ _ _ x]) (use ob y sm_inv_lock [OF i ob] in \<open>auto intro: shape_touch\<close>)
  then show ?thesis by (simp add: finish_write_def Some touch_surface_def)
qed (simp add: finish_write_def)

lemma finish_write_kept_same:
  assumes "sm_inv n s" "sm_objs s ob = Some x" "\<And>mem. out = Some mem \<Longrightarrow> mem_like (sm_mem s) mem"
  shows "sm_kept n (finish_write e ob x out s)"
  by (rule finish_write_kept [OF assms]) (use sm_inv_shape [OF assms(1,2)] in simp_all)

lemma with_source_dest_kept:
  assumes "sm_inv n s"
    and "\<And>o1 x o2 y s1. sm_inv n s1 \<Longrightarrow> sm_objs s1 o1 = Some x \<Longrightarrow> sm_objs s1 o2 = Some y \<Longrightarrow> sm_kept n (k o1 x o2 y s1)"
  shows "sm_kept n (with_source_dest e sid did s k)"
proof -
  obtain r s1 where f: "findSurface e sid s = (r, s1)" by fastforce
  obtain r2 s2 where g: "findSurface e did s1 = (r2, s2)" by fastforce
  note i = findSurface_inv(1) [OF assms(1) f] 
  note j = findSurface_inv(1) [OF i g]
  show ?thesis using i j assms(2) [OF j]
    by (auto simp: with_source_dest_def f g deref_pair_def split: option.splits)
qed

lemma copySurface_kept: "sm_inv n s \<Longrightarrow> sm_kept n (copySurface e sid did s)"
  unfolding copySurface_def
  by (auto intro!: with_source_dest_kept finish_write_kept_same dest!: transfer_like simp del: transfer.simps One_nat_def split: option.splits)

lemma copySurfaceRegion_kept:
  assumes "sm_inv n s"
  shows "sm_kept n (copySurfaceRegion e sid did sx sy dx dy w h s)"
proof -
  obtain r s1 where f: "findSurface e sid s = (r, s1)" by fastforce
  obtain r2 s2 where g: "findSurface e did s1 = (r2, s2)" by fastforce
  note j = findSurface_inv(1) [OF findSurface_inv(1) [OF assms f] g]
  show ?thesis using j assms
    by (auto simp: copySurfaceRegion_def f g deref_pair_def Let_def dest!: transfer_like intro!: finish_write_kept_same split: option.splits)
qed

lemma fillSurface_kept: "sm_inv n s \<Longrightarrow> sm_kept n (fillSurface e sid c s)"
  unfolding fillSurface_def
  by (rule with_surface_kept)
     (auto simp: Let_def intro!: finish_write_kept_same elim!: on_buffer_like dest!: length_fill_run split: option.splits)

lemma fillSurfaceRegion_kept: "sm_inv n s \<Longrightarrow> sm_kept n (fillSurfaceRegion e sid x y w h c s)"
  unfolding fillSurfaceRegion_def
  by (auto simp: Let_def intro!: with_surface_kept finish_write_kept_same elim!: on_buffer_like dest!: length_fill_rows split: option.splits)

lemma conversion_like: "performPixelFormatConversion m1 sf m2 df w h mem = Inr (Some mem') \<Longrightarrow> mem_like mem mem'"
  by (auto simp: performPixelFormatConversion_def convertBGRAtoRGBA_def convertRGBAtoBGRA_def convertBGRAtoRGB24_def
      convertRGB24toBGRA_def convertBGRAtoLuminance_def dest!: transfer_like simp del: transfer.simps One_nat_def split: if_splits)

lemma conversion_format: "performPixelFormatConversion m1 sf m2 df w h mem = Inr out \<Longrightarrow> validatePixelFormat b df = kIOReturnSuccess \<Longrightarrow> sf \<noteq> df
   \<Longrightarrow> df \<in> {PF_BGRA32, PF_RGBA32}"
  by (auto simp: performPixelFormatConversion_def validatePixelFormat_def split: if_splits)

lemma convertSurfaceFormat_kept:
  assumes "sm_inv n s"
  shows "sm_kept n (convertSurfaceFormat e sid did df s)"
proof (cases "validatePixelFormat (sm_supports_yuv s) df = kIOReturnSuccess")
  case True
  have "sm_kept n (finish_write e ob (y\<lparr>vs_descriptor := (vs_descriptor y)\<lparr>sd_pixel_format := df\<rparr>\<rparr>) out s1)"
    if "sm_inv n s1" "sm_objs s1 ob = Some y" "performPixelFormatConversion m1 sf m2 df w h (sm_mem s1) = Inr out" "sf \<noteq> df" for s1 ob y m1 sf m2 w h out
  proof (rule finish_write_kept [OF that(1,2)])
    show "mem_like (sm_mem s1) mem" if "out = Some mem" for mem
      using conversion_like \<open>performPixelFormatConversion m1 sf m2 df w h (sm_mem s1) = Inr out\<close> that by blast
    have "df \<in> {PF_BGRA32, PF_RGBA32}" using conversion_format [OF that(3) True that(4)] .
    then show "shape_ok (y\<lparr>vs_descriptor := (vs_descriptor y)\<lparr>sd_pixel_format := df\<rparr>\<rparr>)"
      using sm_inv_shape [OF that(1,2)] by (auto simp: shape_ok_def)
  qed simp_all
  then show ?thesis using assms
    by (auto simp: convertSurfaceFormat_def Let_def intro!: with_source_dest_kept split: option.splits sum.splits)
qed (use assms in \<open>auto simp: convertSurfaceFormat_def Let_def\<close>)

lemma checks_kept:
  "sm_inv n s \<Longrightarrow> sm_kept n (validateSurface e sid s)" "sm_inv n s \<Longrightarrow> sm_kept n (checkSurfaceIntegrity e sid s)"
  unfolding validateSurface_def checkSurfaceIntegrity_def Let_def by (auto intro!: with_surface_kept)

lemma setSurfaceMemoryPriority_kept:
  assumes "sm_inv n s"
  shows "sm_kept n (setSurfaceMemoryPriority e sid p s)"
proof -
  have "sm_kept n (r, v, put_object ob (x\<lparr>vs_memory_priority := q\<rparr>) s1)" if "sm_inv n s1" "sm_objs s1 ob = Some x" for r v ob x q s1
    by (rule kept_put [OF that]) (use sm_inv_lock [OF that] sm_inv_shape [OF that] in \<open>simp_all add: shape_ok_def\<close>)
  then show ?thesis using assms by (auto simp: setSurfaceMemoryPriority_def intro!: with_surface_kept split: option.splits)
qed

end
