(* ===== verification/Surface_History.thy ===== *)
theory Surface_History
  imports Surface_Pixels
begin

text \<open>
  Histories of the surface manager: every operation on the table, the locks and the pixels and the upkeep of the
  discovery cache, in any order, as long as none of them crashed. The theorems are about all states such a history reaches.
\<close>

section \<open>Eviction\<close>

text \<open>Idle ticks divided by a million are compared with 60 000 000 000.\<close>

definition evictable :: "u64 \<Rightarrow> VMIOSurface \<Rightarrow> bool" where
  "evictable now x \<longleftrightarrow> \<not> vs_is_locked x \<and> vs_lock_count x = 0 \<and> vs_memory_priority x \<in> {Priority_low, Priority_normal}
     \<and> (now - vs_last_access_time x) div 1000000 > 60000000000"

fun evict_loop :: "nat list \<Rightarrow> (nat \<Rightarrow> VMIOSurface option) \<Rightarrow> u32 \<Rightarrow> u64 \<Rightarrow> (nat \<Rightarrow> VMIOSurface option) \<times> u32 \<times> u64" where
  "evict_loop [] objs n freed = (objs, n, freed)"
| "evict_loop (ob # obs) objs n freed =
     (case objs ob of
        None \<Rightarrow> evict_loop obs objs n freed
      | Some x \<Rightarrow>
          if vs_is_locked x \<or> vs_lock_count x > 0 then evict_loop obs objs n freed
          else evict_loop obs (objs(ob \<mapsto> x\<lparr>vs_last_access_time := 0\<rparr>)) (n + 1) (freed + ucast (vs_memory_size x)))"

text \<open>
  \<^verbatim>\<open>evictUnusedSurfaces\<close> after its two allocations: the candidates, at most \<open>limit\<close> of them, are marked by their access time
  and their bytes come off the account; nothing is released. \<open>sm_evicted\<close> remembers the bytes.
\<close>

definition evict_surfaces :: "iosm_env \<Rightarrow> u32 \<Rightarrow> iosm \<Rightarrow> u32 \<times> iosm" where
  "evict_surfaces e limit s =
     (let now = ie_clock e (sm_tick s + 1);
          cands = filter (\<lambda>ob. case sm_objs s ob of None \<Rightarrow> False | Some x \<Rightarrow> evictable now x) (sm_list s);
          todo = (if limit = 0 then cands else take (unat limit) cands)
      in case evict_loop todo (sm_objs s) 0 0 of (objs, n, freed) \<Rightarrow>
           (n, s\<lparr>sm_objs := objs, sm_allocated_memory := sm_allocated_memory s - freed,
                 sm_evicted := sm_evicted s + unat freed, sm_tick := sm_tick s + 1\<rparr>))"

lemma evict_loop_inv:
  "evict_loop obs objs n freed = (objs', n', freed') \<Longrightarrow> sm_inv k (s\<lparr>sm_objs := objs\<rparr>)
     \<Longrightarrow> sm_inv k (s\<lparr>sm_objs := objs'\<rparr>) \<and> dom objs' = dom objs"
proof (induction obs arbitrary: objs n freed)
  case (Cons ob obs)
  show ?case
  proof (cases "objs ob")
    case None
    then show ?thesis using Cons by simp
  next
    case (Some x)
    let ?y = "x\<lparr>vs_last_access_time := 0\<rparr>"
    note lk = sm_inv_lock [OF Cons.prems(2), of ob x] and sh = sm_inv_shape [OF Cons.prems(2), of ob x]
    have "sm_inv k (put_object ob ?y (s\<lparr>sm_objs := objs\<rparr>))"
      by (rule put_object_inv [OF Cons.prems(2), of ob x]) (use Some lk sh in \<open>simp_all add: shape_ok_def\<close>)
    then have "sm_inv k (s\<lparr>sm_objs := objs(ob \<mapsto> ?y)\<rparr>)" by (simp add: put_object_def)
    moreover have "dom (objs(ob \<mapsto> ?y)) = dom objs" using Some by auto
    ultimately have mark: "evict_loop obs (objs(ob \<mapsto> ?y)) (n + 1) (freed + ucast (vs_memory_size x)) = (objs', n', freed')
      \<Longrightarrow> sm_inv k (s\<lparr>sm_objs := objs'\<rparr>) \<and> dom objs' = dom objs"
      using Cons.IH [of "objs(ob \<mapsto> ?y)"] by metis
    show ?thesis
    proof (cases "vs_is_locked x \<or> vs_lock_count x > 0")
      case True
      then have "evict_loop obs objs n freed = (objs', n', freed')" using Cons.prems(1) Some by simp
      then show ?thesis by (rule Cons.IH [OF _ Cons.prems(2)])
    next
      case False
      then show ?thesis using Cons.prems(1) Some by (intro mark) simp
    qed
  qed
qed simp

lemma evict_inv:
  assumes "sm_inv k s" "evict_surfaces e limit s = (n, s')"
  shows "sm_inv k s'" "dom (sm_objs s') = dom (sm_objs s)" "sm_map s' = sm_map s" "sm_cache s' = sm_cache s"
proof -
  obtain todo objs freed where ev: "evict_loop todo (sm_objs s) 0 0 = (objs, n, freed)"
    and s': "s' = s\<lparr>sm_objs := objs, sm_allocated_memory := sm_allocated_memory s - freed,
                 sm_evicted := sm_evicted s + unat freed, sm_tick := sm_tick s + 1\<rparr>"
    using assms(2) by (auto simp: evict_surfaces_def Let_def split: prod.splits)
  have i: "sm_inv k (s\<lparr>sm_objs := objs\<rparr>)" and d: "dom objs = dom (sm_objs s)"
    using evict_loop_inv [OF ev, of k s] assms(1) by simp_all
  have "total_bytes s' = total_bytes (s\<lparr>sm_objs := objs\<rparr>)" by (simp add: total_bytes_def s')
  then have "count_ok s'" using i by (auto simp: sm_inv_def count_ok_def s' algebra_simps)
  then show "sm_inv k s'" using i
    by (simp add: sm_inv_def s' table_ok_def memory_ok_def ids_ok_def locks_ok_def shapes_ok_def pointers_ok_def)
  show "dom (sm_objs s') = dom (sm_objs s)" "sm_map s' = sm_map s" "sm_cache s' = sm_cache s" using d by (simp_all add: s')
qed

section \<open>Histories\<close>

text \<open>
  What the operations that bind a surface to a texture or a buffer do to the table: they look the surface up and write its access
  time. Their own lists of bindings are not modelled.
\<close>

definition bind_found :: "iosm_env \<Rightarrow> u32 \<Rightarrow> iosm \<Rightarrow> io_return \<times> unit \<times> iosm" where
  "bind_found e sid s = with_surface e sid () s (\<lambda>ob x s1. (kIOReturnSuccess, (), touch_surface e ob x s1))"

text \<open>
  The operations of the manager on its table. \<open>Op_find\<close> stands for those that only look a surface up (sharing and its checks,
  descriptors, statistics, bindings that fail), \<open>Op_bind\<close> for the bindings that succeed. \<^verbatim>\<open>updateSurfaceDescriptor\<close>,
  \<^verbatim>\<open>setSurfaceProperty\<close> and \<^verbatim>\<open>getSurfaceProperty\<close> are not among them: they take the \<^verbatim>\<open>OSData\<close> objects of the array for
  surface structures, without \<^verbatim>\<open>getBytesNoCopy\<close>, so what they read and write are the insides of a class of the kernel's
  library. Compaction and video surfaces, which either hang or only look surfaces up, are in \<open>Surface_Sharing\<close>.
\<close>

datatype surface_op =
    Op_create "VMIOSurfaceDescriptor option"
  | Op_destroy u32
  | Op_lock u32 u32
  | Op_unlock u32
  | Op_lock_plane u32 u32
  | Op_unlock_plane u32 u32
  | Op_plane_info u32 u32
  | Op_copy u32 u32
  | Op_copy_region u32 u32 u32 u32 u32 u32 u32 u32
  | Op_fill u32 u32
  | Op_fill_region u32 u32 u32 u32 u32 u32
  | Op_convert u32 u32 u32
  | Op_validate u32
  | Op_check u32
  | Op_priority u32 u32
  | Op_flush
  | Op_prewarm "u32 list option"
  | Op_optimize
  | Op_evict u32
  | Op_find u32
  | Op_bind u32

definition code_state :: "io_return \<times> 'v \<times> iosm \<Rightarrow> io_return \<times> iosm" where
  "code_state out = (case out of (r, _, s) \<Rightarrow> (r, s))"

fun surface_exec :: "iosm_env \<Rightarrow> surface_op \<Rightarrow> iosm \<Rightarrow> io_return \<times> iosm" where
  "surface_exec e (Op_create d) s = code_state (ios_createSurface e d s)"
| "surface_exec e (Op_destroy sid) s = ios_destroySurface e sid s"
| "surface_exec e (Op_lock sid opts) s = code_state (lockSurface e sid opts s)"
| "surface_exec e (Op_unlock sid) s = code_state (unlockSurface e sid s)"
| "surface_exec e (Op_lock_plane sid pl) s = code_state (lockSurfacePlane e sid pl s)"
| "surface_exec e (Op_unlock_plane sid pl) s = code_state (unlockSurfacePlane e sid pl s)"
| "surface_exec e (Op_plane_info sid pl) s = code_state (getSurfacePlaneInfo e sid pl s)"
| "surface_exec e (Op_copy sid did) s = code_state (copySurface e sid did s)"
| "surface_exec e (Op_copy_region sid did sx sy dx dy w h) s = code_state (copySurfaceRegion e sid did sx sy dx dy w h s)"
| "surface_exec e (Op_fill sid c) s = code_state (fillSurface e sid c s)"
| "surface_exec e (Op_fill_region sid x y w h c) s = code_state (fillSurfaceRegion e sid x y w h c s)"
| "surface_exec e (Op_convert sid did df) s = code_state (convertSurfaceFormat e sid did df s)"
| "surface_exec e (Op_validate sid) s = code_state (validateSurface e sid s)"
| "surface_exec e (Op_check sid) s = code_state (checkSurfaceIntegrity e sid s)"
| "surface_exec e (Op_priority sid p) s = code_state (setSurfaceMemoryPriority e sid p s)"
| "surface_exec e Op_flush s = (kIOReturnSuccess, s\<lparr>sm_cache := flushDiscoveryCache (sm_cache s)\<rparr>)"
| "surface_exec e (Op_prewarm ids) s =
     (case prewarmDiscoveryCache ids (sm_map s) (sm_cache s) of (r, c) \<Rightarrow> (r, s\<lparr>sm_cache := c\<rparr>))"
| "surface_exec e Op_optimize s = (kIOReturnSuccess, s\<lparr>sm_cache := optimizeDiscoveryCache (sm_cache s)\<rparr>)"
| "surface_exec e (Op_evict limit) s = (kIOReturnSuccess, snd (evict_surfaces e limit s))"
| "surface_exec e (Op_find sid) s = (kIOReturnSuccess, snd (findSurface e sid s))"
| "surface_exec e (Op_bind sid) s = code_state (bind_found e sid s)"

inductive surface_reach :: "iosm_env \<Rightarrow> bool \<Rightarrow> nat \<Rightarrow> iosm \<Rightarrow> bool" for e g where
  start: "surface_reach e g 0 (iosm_init g)"
| step: "surface_reach e g n s \<Longrightarrow> surface_exec e op s = (r, s') \<Longrightarrow> r \<noteq> Kernel_panic \<Longrightarrow> surface_reach e g (Suc n) s'"

section \<open>Upkeep of the cache\<close>

lemma cache_inv:
  assumes "sm_inv n s" "coherent (dom (sm_objs s)) (sm_map s) c" "cache_objects c \<subseteq> cache_objects (sm_cache s) \<union> dom (sm_objs s)"
  shows "sm_inv n (s\<lparr>sm_cache := c\<rparr>)"
  using assms by (auto simp: sm_inv_def table_ok_def memory_ok_def count_ok_def ids_ok_def locks_ok_def shapes_ok_def pointers_ok_def)

lemma sm_inv_coherent: "sm_inv n s \<Longrightarrow> coherent (dom (sm_objs s)) (sm_map s) (sm_cache s)"
  by (simp add: sm_inv_def pointers_ok_def)

lemma flush_empty [simp]: "cache_objects (flushDiscoveryCache c) = {}" "coherent L m (flushDiscoveryCache c)"
  by (simp_all add: flushDiscoveryCache_def cache_objects_def coherent_def)

lemma flush_inv: "sm_inv n s \<Longrightarrow> sm_inv n (s\<lparr>sm_cache := flushDiscoveryCache (sm_cache s)\<rparr>)"
  by (rule cache_inv) simp_all

lemma optimize_inv: "sm_inv n s \<Longrightarrow> sm_inv n (s\<lparr>sm_cache := optimizeDiscoveryCache (sm_cache s)\<rparr>)"
  using cache_objects_optimize by (intro cache_inv coherent_optimize sm_inv_coherent) auto

lemma prewarm_inv:
  assumes "sm_inv n s" "prewarmDiscoveryCache ids (sm_map s) (sm_cache s) = (r, c)"
  shows "sm_inv n (s\<lparr>sm_cache := c\<rparr>)"
proof -
  have "ran (sm_map s) = dom (sm_objs s)" using assms(1) by (simp add: sm_inv_def table_ran)
  then show ?thesis
    using assms cache_objects_prewarm [where c = "sm_cache s" and m = "sm_map s"]
    by (auto simp: prewarmDiscoveryCache_def split: option.splits if_splits
        intro!: cache_inv coherent_prewarm sm_inv_coherent)
qed

section \<open>Every reachable state is sound\<close>

lemma bind_found_kept:
  assumes "sm_inv n s"
  shows "sm_kept n (bind_found e sid s)"
  unfolding bind_found_def
proof (rule with_surface_kept [OF assms])
  fix ob x s1 assume a: "sm_inv n s1" "sm_objs s1 ob = Some x"
  have "sm_kept n (finish_write e ob x (Some (sm_mem s1)) s1)" using a by (rule finish_write_kept_same) simp
  then show "sm_kept n (kIOReturnSuccess, (), touch_surface e ob x s1)" by (simp add: finish_write_def)
qed

lemma kept_code_state: "sm_kept n out \<Longrightarrow> code_state out = (r, s') \<Longrightarrow> r \<noteq> Kernel_panic \<Longrightarrow> sm_inv (Suc (Suc n)) s'"
  by (auto simp: sm_kept_def code_state_def split: prod.splits intro: sm_inv_mono)

lemmas kept_ops = lockSurface_kept unlockSurface_kept lockSurfacePlane_kept unlockSurfacePlane_kept getSurfacePlaneInfo_kept
  copySurface_kept copySurfaceRegion_kept fillSurface_kept fillSurfaceRegion_kept convertSurfaceFormat_kept checks_kept
  setSurfaceMemoryPriority_kept bind_found_kept

lemma surface_exec_inv:
  assumes i: "sm_inv n s" and n: "n < 2 ^ 31 - 2" and x: "surface_exec e op s = (r, s')" and r: "r \<noteq> Kernel_panic"
  shows "sm_inv (Suc (Suc n)) s'"
proof (cases op)
  case (Op_create d)
  then show ?thesis using x ios_createSurface_kept [OF i n] by (auto simp: code_state_def split: prod.splits)
next
  case (Op_destroy sid)
  then show ?thesis using x r ios_destroySurface_kept [OF i] by (auto intro: sm_inv_mono [of "Suc n"])
next
  case Op_flush
  then show ?thesis using x flush_inv [OF i] by (auto intro: sm_inv_mono)
next
  case (Op_prewarm ids)
  then show ?thesis using x by (auto split: prod.splits intro!: sm_inv_mono [OF prewarm_inv [OF i]])
next
  case Op_optimize
  then show ?thesis using x optimize_inv [OF i] by (auto intro: sm_inv_mono)
next
  case (Op_evict limit)
  then show ?thesis using x evict_inv(1) [OF i, of e limit] by (auto intro!: sm_inv_mono [OF evict_inv(1) [OF i]] prod.collapse [symmetric])
next
  case (Op_find sid)
  then show ?thesis using x findSurface_inv(1) [OF i, of e sid "fst (findSurface e sid s)" s'] by (auto intro: sm_inv_mono)
qed (use x r n kept_ops [OF i] in \<open>auto elim!: kept_code_state [rotated]\<close>)

lemma surface_reach_inv: "surface_reach e g n s \<Longrightarrow> n < 2 ^ 30 \<Longrightarrow> sm_inv (2 * n) s"
proof (induction rule: surface_reach.induct)
  case (step n s op r s')
  then show ?case using surface_exec_inv [of "2 * n" s e op r s'] by simp
qed (simp add: iosm_init_inv)

section \<open>A small history\<close>

definition demo_env :: iosm_env where
  "demo_env = \<lparr>ie_clock = (\<lambda>t. word_of_nat t), ie_malloc = (\<lambda>_. True), ie_buffer = (\<lambda>_ _. True), ie_prepare = (\<lambda>_. True),
     ie_data = (\<lambda>_. True), ie_number = (\<lambda>_. True)\<rparr>"

definition demo_plane :: VMIOSurfacePlaneInfo where
  "demo_plane = \<lparr>pl_width = 2, pl_height = 2, pl_bytes_per_element = 4, pl_bytes_per_row = 8, pl_element_width = 1,
     pl_element_height = 1, pl_offset = 0, pl_size = 16\<rparr>"

definition demo_desc :: VMIOSurfaceDescriptor where
  "demo_desc = \<lparr>sd_width = 2, sd_height = 2, sd_pixel_format = PF_BGRA32, sd_bytes_per_row = 0, sd_plane_count = 1,
     sd_planes = [demo_plane, demo_plane, demo_plane, demo_plane], sd_alloc_size = 0, sd_usage_flags = 0\<rparr>"

definition demo_surface :: "u32 \<Rightarrow> nat \<Rightarrow> u64 \<Rightarrow> VMIOSurface" where
  "demo_surface sid ob t = \<lparr>vs_surface_id = sid, vs_descriptor = demo_desc, vs_memory = Some (Suc ob), vs_lock_count = 0, vs_ref_count = 1,
     vs_is_locked = False, vs_last_access_time = t, vs_width = 2, vs_height = 2, vs_memory_size = 4096, vs_memory_priority = Priority_normal\<rparr>"

text \<open>Two-by-two BGRA surfaces, created one after the other.\<close>

definition demo1 :: iosm where
  "demo1 = (iosm_init False)\<lparr>sm_map := [1 \<mapsto> 0], sm_list := [0], sm_objs := [0 \<mapsto> demo_surface 1 0 1],
     sm_mem := [1 \<mapsto> zeros 4096], sm_fresh := 2, sm_next_surface_id := 2, sm_allocated_memory := 4096,
     sm_surface_count := 1, sm_peak_count := 1, sm_structs := 1, sm_tick := 1\<rparr>"

definition demo2 :: iosm where
  "demo2 = (iosm_init False)\<lparr>sm_map := [1 \<mapsto> 0, 2 \<mapsto> 2], sm_list := [0, 2],
     sm_objs := [0 \<mapsto> demo_surface 1 0 1, 2 \<mapsto> demo_surface 2 2 2],
     sm_mem := [1 \<mapsto> zeros 4096, 3 \<mapsto> zeros 4096], sm_fresh := 4, sm_next_surface_id := 3, sm_allocated_memory := 8192,
     sm_surface_count := 2, sm_peak_count := 2, sm_structs := 2, sm_tick := 2\<rparr>"

definition demo3 :: iosm where
  "demo3 = (iosm_init False)\<lparr>sm_map := [1 \<mapsto> 0, 2 \<mapsto> 2, 3 \<mapsto> 4], sm_list := [0, 2, 4],
     sm_objs := [0 \<mapsto> demo_surface 1 0 1, 2 \<mapsto> demo_surface 2 2 2, 4 \<mapsto> demo_surface 3 4 3],
     sm_mem := [1 \<mapsto> zeros 4096, 3 \<mapsto> zeros 4096, 5 \<mapsto> zeros 4096], sm_fresh := 6, sm_next_surface_id := 4,
     sm_allocated_memory := 12288, sm_surface_count := 3, sm_peak_count := 3, sm_structs := 3, sm_tick := 3\<rparr>"

lemma demo_size: "calculateSurfaceSize demo_desc = 4096"
  by (simp add: calculateSurfaceSize_def demo_desc_def getBytesPerPixel_def getPlaneCount_def)

lemma demo_fields: "sd_width demo_desc = 2" "sd_height demo_desc = 2" "sd_pixel_format demo_desc = PF_BGRA32" "ie_malloc demo_env t"
  by (simp_all add: demo_desc_def demo_env_def)

lemma demo_build:
  assumes "sm_tick s = t"
  shows "create_build demo_env demo_desc 4096 sid s =
   (kIOReturnSuccess, create_register (demo_surface sid (sm_fresh s) (word_of_nat t)) (Suc (sm_fresh s)) s)"
  using assms by (simp add: create_build_def setupPlaneInfo_def demo_desc_def demo_env_def getPlaneCount_def demo_surface_def demo_plane_def)

lemma demo_create:
  "sm_supports_yuv s \<Longrightarrow> \<not> sm_allocated_memory s + 4096 > sm_total_memory s \<Longrightarrow> sm_released_ids s = [] \<Longrightarrow>
   ios_createSurface demo_env (Some demo_desc) s = (kIOReturnSuccess, sm_next_surface_id s,
     create_register (demo_surface (sm_next_surface_id s) (sm_fresh s) (word_of_nat (sm_tick s + 1))) (Suc (sm_fresh s))
       (s\<lparr>sm_tick := sm_tick s + 1, sm_next_surface_id := sm_next_surface_id s + 1, sm_structs := sm_structs s + 1\<rparr>))"
  by (simp add: ios_createSurface_def demo_fields demo_size demo_build allocateSurfaceId_def validatePixelFormat_def)

lemma demo_steps:
  "ios_createSurface demo_env (Some demo_desc) (iosm_init False) = (kIOReturnSuccess, 1, demo1)"
  "ios_createSurface demo_env (Some demo_desc) demo1 = (kIOReturnSuccess, 2, demo2)"
  "ios_createSurface demo_env (Some demo_desc) demo2 = (kIOReturnSuccess, 3, demo3)"
  by (simp_all add: demo_create iosm_init_def demo1_def demo2_def demo3_def create_register_def)
     (simp_all add: demo_surface_def)

lemma demo_reach: "surface_reach demo_env False 1 demo1" "surface_reach demo_env False 2 demo2" "surface_reach demo_env False 3 demo3"
proof -
  note st = surface_reach.step [where op = "Op_create (Some demo_desc)" and r = kIOReturnSuccess]
  show 1: "surface_reach demo_env False 1 demo1"
    using st [OF surface_reach.start [of demo_env False], of demo1] by (simp add: code_state_def demo_steps)
  show 2: "surface_reach demo_env False 2 demo2" using st [OF 1, of demo2] by (simp add: code_state_def demo_steps numeral_2_eq_2)
  show "surface_reach demo_env False 3 demo3" using st [OF 2, of demo3] by (simp add: code_state_def demo_steps numeral_3_eq_3 numeral_2_eq_2)
qed

lemma demo_live: "cache_live demo1" "cache_live demo2" "cache_live demo3"
  by (simp_all add: cache_live_def demo1_def demo2_def demo3_def iosm_init_def discovery_init_def cache_objects_def)

lemma demo_destroy:
  defines "s1 \<equiv> snd (ios_destroySurface demo_env 1 demo1)"
  shows "ios_destroySurface demo_env 1 demo1 = (kIOReturnSuccess, s1)"
    "sm_released_ids s1 = [1]" "sm_supports_yuv s1" "sm_allocated_memory s1 = 0" "sm_total_memory s1 = 0x20000000"
  unfolding s1_def
  by (simp_all add: ios_destroySurface_def with_surface_def findSurface_def find_cached_def prefetch_def destroy_remove_def releaseSurfaceId_def
    demo1_def iosm_init_def discovery_init_def demo_surface_def demo_env_def)

section \<open>The table\<close>

text \<open>C35. The surface table is sound in every state that a history of fewer than 2^30 operations without a crash reaches, evictions
  included: the map, the array and the live objects name the same surfaces, each under its own id; the surface count is their
  number; and every surface has a buffer of its own of exactly its size. The account of memory, plus what evictions took off it,
  is the sum of the sizes (modulo 2^64); so after a history that evicted nothing the account is exact, and at most 512 MB.
  The descriptor and property updates, which take the wrong objects for surfaces, are not operations of the history.\<close>

theorem surface_table_sound:
  assumes "surface_reach e g n s" "n < 2 ^ 30"
  shows "(\<forall>sid ob. sm_map s sid = Some ob \<longleftrightarrow> (\<exists>x. sm_objs s ob = Some x \<and> vs_surface_id x = sid))
    \<and> distinct (sm_list s) \<and> set (sm_list s) = dom (sm_objs s) \<and> unat (sm_surface_count s) = length (sm_list s)
    \<and> sm_allocated_memory s + word_of_nat (sm_evicted s) = word_of_nat (\<Sum>ob\<leftarrow>sm_list s. surface_bytes (sm_objs s) ob)
    \<and> (sm_evicted s = 0 \<longrightarrow> unat (sm_allocated_memory s) = (\<Sum>ob\<leftarrow>sm_list s. surface_bytes (sm_objs s) ob)
         \<and> unat (sm_allocated_memory s) \<le> 2 ^ 29)
    \<and> (\<forall>ob x. sm_objs s ob = Some x \<longrightarrow> (\<exists>b. sm_mem s (Suc ob) = Some b \<and> vs_memory x = Some (Suc ob) \<and> length b = unat (vs_memory_size x)))"
proof -
  have i: "sm_inv (2 * n) s" using assms by (rule surface_reach_inv)
  have "\<exists>b. sm_mem s (Suc ob) = Some b \<and> vs_memory x = Some (Suc ob) \<and> length b = unat (vs_memory_size x)"
    if "sm_objs s ob = Some x" for ob x using sm_inv_buffer [OF i that] by metis
  moreover have "sm_evicted s = 0 \<Longrightarrow> unat (sm_allocated_memory s) = total_bytes s \<and> total_bytes s \<le> 2 ^ 29"
    using count_exact [of s] i by (simp add: sm_inv_def)
  ultimately show ?thesis using i by (auto simp: sm_inv_def table_ok_def count_ok_def total_bytes_def)
qed

theorem surface_table_sound_witness: "unat (sm_surface_count demo3) = length (sm_list demo3) \<and> unat (sm_allocated_memory demo3) \<le> 2 ^ 29"
  using surface_table_sound [OF demo_reach(3)] by (simp add: demo3_def iosm_init_def)

section \<open>Lookups\<close>

text \<open>What every operation but creation and a successful destruction leaves alone: the table, and the cache up to objects of the table.\<close>

definition cache_frame :: "iosm \<Rightarrow> iosm \<Rightarrow> bool" where
  "cache_frame s s' \<longleftrightarrow> sm_map s' = sm_map s \<and> cache_objects (sm_cache s') \<subseteq> cache_objects (sm_cache s) \<union> ran (sm_map s)"

lemma cache_frame_refl [simp]: "cache_frame s s"
  by (simp add: cache_frame_def)

lemma cache_frame_trans: "cache_frame s s1 \<Longrightarrow> cache_frame s1 s2 \<Longrightarrow> cache_frame s s2"
  by (auto simp: cache_frame_def)

lemma find_frame: "cache_frame s (snd (findSurface e sid s))"
  using cache_objects_find by (auto simp: cache_frame_def findSurface_def split: prod.splits) (metis UnE snd_conv subsetD)

lemma put_frame [simp]: "cache_frame s (put_object ob x s)" "cache_frame s (touch_surface e ob x s)" "cache_frame s (snd (snd (finish_write e ob x out s)))"
  "cache_frame s (snd (snd (unlock_object e ob x s)))"
  by (simp_all add: cache_frame_def put_object_def touch_surface_def finish_write_def unlock_object_def Let_def split: option.splits)

lemma with_surface_frame:
  assumes "\<And>ob x s1. cache_frame s1 (snd (snd (k ob x s1)))"
  shows "cache_frame s (snd (snd (with_surface e sid v s k)))"
  using find_frame [of s e sid] cache_frame_trans [OF find_frame [of s e sid] assms]
  by (auto simp: with_surface_def split: prod.splits option.splits)

lemma with_source_dest_frame:
  assumes "\<And>o1 x o2 y s1. cache_frame s1 (snd (snd (k o1 x o2 y s1)))"
  shows "cache_frame s (snd (snd (with_source_dest e sid did s k)))"
proof -
  obtain r s1 where f: "findSurface e sid s = (r, s1)" by fastforce
  obtain r2 s2 where g: "findSurface e did s1 = (r2, s2)" by fastforce
  have 1: "cache_frame s s1" using find_frame [of s e sid] by (simp add: f)
  have 2: "cache_frame s s2" using cache_frame_trans [OF 1] find_frame [of s1 e did] by (simp add: g)
  show ?thesis using 1 2 cache_frame_trans [OF 2 assms]
    by (simp add: with_source_dest_def f g deref_pair_def split: option.splits)
qed

lemma table_ops_frame:
  "cache_frame s (snd (snd (lockSurface e sid opts s)))" "cache_frame s (snd (snd (unlockSurface e sid s)))"
  "cache_frame s (snd (snd (lockSurfacePlane e sid pl s)))" "cache_frame s (snd (snd (unlockSurfacePlane e sid pl s)))"
  "cache_frame s (snd (snd (getSurfacePlaneInfo e sid pl s)))" "cache_frame s (snd (snd (validateSurface e sid s)))"
  "cache_frame s (snd (snd (checkSurfaceIntegrity e sid s)))" "cache_frame s (snd (snd (setSurfaceMemoryPriority e sid q s)))"
  "cache_frame s (snd (snd (bind_found e sid s)))"
  unfolding lockSurface_def unlockSurface_def lockSurfacePlane_def unlockSurfacePlane_def getSurfacePlaneInfo_def validateSurface_def
    checkSurfaceIntegrity_def setSurfaceMemoryPriority_def bind_found_def
  by (auto simp: Let_def intro!: with_surface_frame split: option.splits)

lemma pixel_ops_frame:
  "cache_frame s (snd (snd (copySurface e sid did s)))" "cache_frame s (snd (snd (convertSurfaceFormat e sid did df s)))"
  "cache_frame s (snd (snd (fillSurface e sid c s)))" "cache_frame s (snd (snd (fillSurfaceRegion e sid x y w h c s)))"
  unfolding copySurface_def convertSurfaceFormat_def fillSurface_def fillSurfaceRegion_def
  by (auto simp: Let_def intro!: with_surface_frame with_source_dest_frame split: option.splits sum.splits)

lemma copySurfaceRegion_frame: "cache_frame s (snd (snd (copySurfaceRegion e sid did sx sy dx dy w h s)))"
proof -
  obtain r s1 where f: "findSurface e sid s = (r, s1)" by fastforce
  obtain r2 s2 where g: "findSurface e did s1 = (r2, s2)" by fastforce
  have 1: "cache_frame s s1" using find_frame [of s e sid] by (simp add: f)
  have 2: "cache_frame s s2" using cache_frame_trans [OF 1] find_frame [of s1 e did] by (simp add: g)
  show ?thesis using 2 cache_frame_trans [OF 2 put_frame(3)]
    by (simp add: copySurfaceRegion_def f g deref_pair_def Let_def split: option.splits)
qed

lemma destroy_frame:
  assumes "ios_destroySurface e sid s = (r, s')" "r \<noteq> kIOReturnSuccess"
  shows "cache_frame s s'"
  using assms find_frame [of s e sid]
  by (auto simp: ios_destroySurface_def with_surface_def Let_def split: if_splits prod.splits option.splits)

lemma evict_frame: "cache_frame s (snd (evict_surfaces e limit s))"
  by (simp add: evict_surfaces_def cache_frame_def Let_def split: prod.splits)

lemma upkeep_frame:
  "cache_frame s (s\<lparr>sm_cache := flushDiscoveryCache (sm_cache s)\<rparr>)" "cache_frame s (s\<lparr>sm_cache := optimizeDiscoveryCache (sm_cache s)\<rparr>)"
  "prewarmDiscoveryCache ids (sm_map s) (sm_cache s) = (r, c) \<Longrightarrow> cache_frame s (s\<lparr>sm_cache := c\<rparr>)"
  using cache_objects_optimize cache_objects_prewarm [where c = "sm_cache s" and m = "sm_map s"]
  by (auto simp: cache_frame_def prewarmDiscoveryCache_def split: option.splits if_splits)

lemma exec_frame:
  assumes "surface_exec e op s = (r, s')" "\<forall>d. op \<noteq> Op_create d" "(\<exists>sid. op = Op_destroy sid) \<longrightarrow> r \<noteq> kIOReturnSuccess"
  shows "cache_frame s s'"
proof -
  have cs: "code_state out = (r, s') \<Longrightarrow> s' = snd (snd out)" for out :: "io_return \<times> 'v \<times> iosm" by (auto simp: code_state_def split: prod.splits)
  show ?thesis using assms
    by (cases op) (auto dest!: cs destroy_frame upkeep_frame(3) simp: table_ops_frame pixel_ops_frame copySurfaceRegion_frame upkeep_frame(1,2)
      evict_frame find_frame split: prod.splits)
qed

lemma exec_live:
  assumes i: "sm_inv n s" and n: "n < 2 ^ 31 - 2" and l: "cache_live s" and x: "surface_exec e op s = (r, s')"
    and r: "r \<noteq> Kernel_panic" and d: "(\<exists>sid. op = Op_destroy sid) \<longrightarrow> r \<noteq> kIOReturnSuccess"
  shows "cache_live s'"
proof (cases "\<exists>d. op = Op_create d")
  case True
  then obtain d sid where c: "ios_createSurface e d s = (r, sid, s')" using x by (auto simp: code_state_def split: prod.splits)
  note fr = ios_createSurface_frame [OF c]
  have "ob \<in> dom (sm_objs s')" if "ob \<in> dom (sm_objs s)" for ob
    using fr(2) [of ob] i that by (fastforce simp: sm_inv_def pointers_ok_def)
  then have "dom (sm_objs s) \<subseteq> dom (sm_objs s')" by blast
  then show ?thesis using l fr(1) by (simp add: cache_live_def)
next
  case False
  then have f: "cache_frame s s'" using exec_frame [OF x] d by simp
  have "ran (sm_map s) = dom (sm_objs s)" "ran (sm_map s') = dom (sm_objs s')"
    using i surface_exec_inv [OF i n x r] by (simp_all add: sm_inv_def table_ran)
  then show ?thesis using f l by (auto simp: cache_frame_def cache_live_def)
qed

lemma findSurface_answer:
  assumes "sm_inv n s" "n < 2 ^ 31 - 1"
  shows "(fst (findSurface e sid s) = None \<longrightarrow> sm_map s sid = None)
    \<and> (\<forall>ob. fst (findSurface e sid s) = Some ob \<longrightarrow> sm_objs s ob \<noteq> None \<longrightarrow> sm_map s sid = Some ob)"
proof -
  have f: "fst (findSurface e sid s) = fst (find_cached (ie_clock e (sm_tick s)) sid (sm_map s) (sm_cache s))"
    by (simp add: findSurface_def split: prod.splits)
  note c = find_cached_coherent [OF sm_inv_coherent [OF assms(1)], where now = "ie_clock e (sm_tick s)" and sid = sid]
  have "sm_map s sid = None" if "sid = 0 \<or> sid > 0x7FFFFFFF"
    using assms that by (fastforce simp: sm_inv_def ids_ok_def word_less_nat_alt)
  then show ?thesis using c(2,3) by (auto simp: f)
qed

text \<open>Histories from a given state in which no destruction succeeds.\<close>

inductive quiet_run :: "iosm_env \<Rightarrow> nat \<Rightarrow> iosm \<Rightarrow> iosm \<Rightarrow> bool" for e where
  stay: "quiet_run e 0 s s"
| go: "quiet_run e k s s1 \<Longrightarrow> surface_exec e op s1 = (r, s2) \<Longrightarrow> r \<noteq> Kernel_panic
    \<Longrightarrow> (\<exists>sid. op = Op_destroy sid) \<longrightarrow> r \<noteq> kIOReturnSuccess \<Longrightarrow> quiet_run e (Suc k) s s2"

lemma quiet_run_live:
  "quiet_run e k s s' \<Longrightarrow> sm_inv n s \<Longrightarrow> cache_live s \<Longrightarrow> n + 2 * k < 2 ^ 31 - 1 \<Longrightarrow> sm_inv (n + 2 * k) s' \<and> cache_live s'"
proof (induction rule: quiet_run.induct)
  case (go k s s1 op r s2)
  then have i: "sm_inv (n + 2 * k) s1" "cache_live s1" and b: "n + 2 * k < 2 ^ 31 - 2" by auto
  show ?case using surface_exec_inv [OF i(1) b go.hyps(2,3)] exec_live [OF i(1) b i(2) go.hyps(2-4)] by simp
qed simp

text \<open>C36. From a flush of the discovery cache on, in any reachable state, and through any further operations among which no
  destruction succeeds (creations, lookups that fill the cache, move its entries, prefetch into it and evict from it, prewarming,
  optimising, evictions of surfaces), every lookup answers what the table says, for every id, and leaves the table alone. In a
  reachable state without such a flush an answer may be a destroyed object, but an answer that is a live object is the one
  in the table, and a valid id that is not found is not in the table.\<close>

theorem lookup_coherent:
  assumes "surface_reach e g n s" "quiet_run e k (s\<lparr>sm_cache := flushDiscoveryCache (sm_cache s)\<rparr>) s'" "n + k < 2 ^ 30 - 1"
  shows "fst (findSurface e sid s') = sm_map s' sid \<and> sm_map (snd (findSurface e sid s')) = sm_map s'
    \<and> (case fst (findSurface e sid s) of
          None \<Rightarrow> sm_map s sid = None
        | Some ob \<Rightarrow> sm_objs s ob \<noteq> None \<longrightarrow> sm_map s sid = Some ob)"
proof -
  let ?s = "s\<lparr>sm_cache := flushDiscoveryCache (sm_cache s)\<rparr>"
  have i0: "sm_inv (2 * n) s" using assms by (intro surface_reach_inv) auto
  have n0: "2 * n < 2 ^ 31 - 1" using assms(3) by simp
  have "cache_live ?s" by (simp add: cache_live_def)
  then have q: "sm_inv (2 * n + 2 * k) s'" "cache_live s'" using quiet_run_live [OF assms(2) flush_inv [OF i0]] assms(3) by auto
  have "fst (findSurface e sid s') = sm_map s' sid"
    using findSurface_live(1) [OF q, of e sid "fst (findSurface e sid s')" "snd (findSurface e sid s')"] assms(3) by simp
  moreover have "sm_map (snd (findSurface e sid s')) = sm_map s'" using find_frame by (simp add: cache_frame_def)
  moreover have "case fst (findSurface e sid s) of None \<Rightarrow> sm_map s sid = None | Some ob \<Rightarrow> sm_objs s ob \<noteq> None \<longrightarrow> sm_map s sid = Some ob"
    using findSurface_answer [OF i0 n0, of e sid] by (simp split: option.splits)
  ultimately show ?thesis by blast
qed

theorem lookup_coherent_witness:
  "fst (findSurface demo_env 1 (snd (findSurface demo_env 1 demo3))) = Some 0 \<and> dc_entries (sm_cache (snd (findSurface demo_env 1 demo3))) \<noteq> []"
proof -
  let ?s' = "snd (findSurface demo_env 1 demo3)"
  have f: "demo3\<lparr>sm_cache := flushDiscoveryCache (sm_cache demo3)\<rparr> = demo3"
    by (simp add: demo3_def iosm_init_def discovery_init_def flushDiscoveryCache_def)
  have "surface_exec demo_env (Op_find 1) demo3 = (kIOReturnSuccess, ?s')" by simp
  from quiet_run.go [OF quiet_run.stay this] have q: "quiet_run demo_env (Suc 0) (demo3\<lparr>sm_cache := flushDiscoveryCache (sm_cache demo3)\<rparr>) ?s'"
    unfolding f by simp
  have "sm_map ?s' = sm_map demo3" using find_frame by (simp add: cache_frame_def)
  then have "fst (findSurface demo_env 1 ?s') = Some 0" using lookup_coherent [OF demo_reach(3) q, of 1] by (simp add: demo3_def)
  moreover have "dc_entries (sm_cache ?s') \<noteq> []"
    by (simp add: findSurface_def find_cached_def prefetch_def cache_insert_def demo3_def iosm_init_def discovery_init_def Let_def)
  ultimately show ?thesis by blast
qed

text \<open>C37. Destroying a surface leaves its pointer in the discovery cache. When the next surface that is created gets the released id,
  the first operation on it follows the pointer to the destroyed object: locking a freshly created surface crashes.\<close>

theorem recycled_surface_crashes:
  assumes "surface_reach e g n s" "n < 2 ^ 30"
    and "ios_destroySurface e sid s = (kIOReturnSuccess, s1)" "ios_createSurface e desc s1 = (kIOReturnSuccess, sid, s2)"
  shows "fst (lockSurface e sid opts s2) = Kernel_panic"
proof -
  have i: "sm_inv (2 * n) s" using assms(1,2) by (rule surface_reach_inv)
  obtain ob where ob: "ob < sm_fresh s1" "sm_objs s1 ob = None"
    "\<And>s2. sm_cache s2 = sm_cache s1 \<Longrightarrow> fst (findSurface e sid s2) = Some ob" using destroyed_dangles [OF i assms(3)] by metis
  note fr = ios_createSurface_frame [OF assms(4)]
  obtain s3 where f: "findSurface e sid s2 = (Some ob, s3)" using ob(3) [OF fr(1)] by (cases "findSurface e sid s2") simp
  then have "sm_objs s3 ob = None" using findSurface_frame [OF f] fr(2) [OF ob(1)] ob(2) by auto
  then show ?thesis by (simp add: lockSurface_def with_surface_def f)
qed

theorem recycled_surface_crashes_witness:
  "fst (lockSurface demo_env 1 0 (snd (snd (ios_createSurface demo_env (Some demo_desc) (snd (ios_destroySurface demo_env 1 demo1)))))) = Kernel_panic"
proof -
  let ?s1 = "snd (ios_destroySurface demo_env 1 demo1)"
  let ?s2 = "snd (snd (ios_createSurface demo_env (Some demo_desc) ?s1))"
  have 2: "ios_createSurface demo_env (Some demo_desc) ?s1 = (kIOReturnSuccess, 1, ?s2)"
    using demo_destroy(2-5) by (simp add: ios_createSurface_def demo_fields demo_size demo_build allocateSurfaceId_def validatePixelFormat_def)
  show ?thesis by (rule recycled_surface_crashes [OF demo_reach(1) _ demo_destroy(1) 2]) simp
qed

text \<open>The two self-checks agree with the invariant: in a reachable state whose cache points to no destroyed surface, every
  surface of the table passes \<^verbatim>\<open>validateSurface\<close> and \<^verbatim>\<open>checkSurfaceIntegrity\<close>.\<close>

theorem surfaces_validate:
  assumes "surface_reach e g n s" "n < 2 ^ 30 - 1" "cache_live s" "sm_map s sid \<noteq> None"
  shows "fst (validateSurface e sid s) = kIOReturnSuccess \<and> fst (checkSurfaceIntegrity e sid s) = kIOReturnSuccess"
proof -
  have i: "sm_inv (2 * n) s" using assms(1,2) by (intro surface_reach_inv) auto
  obtain ob where m: "sm_map s sid = Some ob" using assms(4) by auto
  have n: "2 * n < 2 ^ 31 - 1" using assms(2) by simp
  obtain x c where x: "sm_objs s ob = Some x" "vs_surface_id x = sid"
    "\<And>k v. with_surface e sid (v :: unit) s k = k ob x (s\<lparr>sm_cache := c, sm_tick := sm_tick s + 1\<rparr>)"
    by (rule with_surface_live [OF i assms(3) n m, where e = e]) blast
  obtain b where "sm_mem s (Suc ob) = Some b" "vs_memory x = Some (Suc ob)" "length b = unat (vs_memory_size x)"
    using i x(1) by (rule sm_inv_buffer)
  moreover have "sm_supports_yuv s" using i by (simp add: sm_inv_def shapes_ok_def)
  ultimately show ?thesis using x(2,3) sm_inv_lock [OF i x(1)] sm_inv_shape [OF i x(1)]
    by (auto simp: validateSurface_def checkSurfaceIntegrity_def shape_ok_def validatePixelFormat_def not_less)
qed

theorem surfaces_validate_witness: "fst (validateSurface demo_env 2 demo3) = kIOReturnSuccess \<and> fst (checkSurfaceIntegrity demo_env 2 demo3) = kIOReturnSuccess"
  by (rule surfaces_validate [OF demo_reach(3) _ demo_live(3)]) (simp_all add: demo3_def)

end
