(* ===== verification/Surface_Regions.thy ===== *)
theory Surface_Regions
  imports Surface_History
begin

text \<open>
  What the pixel operations of the surface manager do to the images, in reachable states whose discovery cache points to no
  destroyed surface: region copies and fills pixel by pixel, format conversion, and the inputs for which the code writes
  outside its buffers.
\<close>

definition live_surface :: "iosm \<Rightarrow> u32 \<Rightarrow> nat \<Rightarrow> VMIOSurface \<Rightarrow> bool" where
  "live_surface s sid ob x \<longleftrightarrow> sm_map s sid = Some ob \<and> sm_objs s ob = Some x"

text \<open>The four bytes of the pixel in column \<open>px\<close> and row \<open>py\<close> of a surface of a 32-bit format.\<close>

definition surface_pixel :: "iosm \<Rightarrow> nat \<Rightarrow> nat \<Rightarrow> nat \<Rightarrow> bytes" where
  "surface_pixel s ob px py =
     (case (sm_objs s ob, sm_mem s (Suc ob)) of
        (Some x, Some b) \<Rightarrow> take 4 (drop (4 * (py * unat (vs_width x) + px)) b) | _ \<Rightarrow> [])"

text \<open>The memory holds every pixel of the image.\<close>

definition holds_image :: "VMIOSurface \<Rightarrow> bool" where
  "holds_image x \<longleftrightarrow> sd_pixel_format (vs_descriptor x) \<noteq> PF_NV12 \<and> 4 * (unat (vs_width x) * unat (vs_height x)) \<le> unat (vs_memory_size x)"

section \<open>Two lookups\<close>

lemma two_finds:
  assumes "sm_inv n s" "cache_live s" "n < 2 ^ 31 - 1"
  obtains c1 c where "findSurface e sid s = (sm_map s sid, s\<lparr>sm_cache := c1, sm_tick := sm_tick s + 1\<rparr>)"
    "findSurface e did (s\<lparr>sm_cache := c1, sm_tick := sm_tick s + 1\<rparr>) = (sm_map s did, s\<lparr>sm_cache := c, sm_tick := sm_tick s + 2\<rparr>)"
    "sm_inv n (s\<lparr>sm_cache := c, sm_tick := sm_tick s + 2\<rparr>)" "cache_live (s\<lparr>sm_cache := c, sm_tick := sm_tick s + 2\<rparr>)"
proof -
  obtain r s1 where f: "findSurface e sid s = (r, s1)" by fastforce
  obtain r2 s2 where g: "findSurface e did s1 = (r2, s2)" by fastforce
  obtain c1 where s1: "s1 = s\<lparr>sm_cache := c1, sm_tick := sm_tick s + 1\<rparr>" using findSurface_frame [OF f] by blast
  obtain c where s2: "s2 = s\<lparr>sm_cache := c, sm_tick := sm_tick s + 2\<rparr>" using findSurface_frame [OF g] by (auto simp: s1)
  note i = findSurface_inv(1) [OF assms(1) f] and l = findSurface_live [OF assms f]
  note i2 = findSurface_inv(1) [OF i g] and l2 = findSurface_live [OF i l(2) assms(3) g]
  show thesis by (rule that [of c1 c]) (use f g i2 l l2 in \<open>simp_all add: s1 s2\<close>)
qed

lemma with_source_dest_live:
  assumes "sm_inv n s" "cache_live s" "n < 2 ^ 31 - 1" "live_surface s sid o1 x" "live_surface s did o2 y"
  obtains c where "\<And>k. with_source_dest e sid did s k = k o1 x o2 y (s\<lparr>sm_cache := c, sm_tick := sm_tick s + 2\<rparr>)"
    "sm_inv n (s\<lparr>sm_cache := c, sm_tick := sm_tick s + 2\<rparr>)" "cache_live (s\<lparr>sm_cache := c, sm_tick := sm_tick s + 2\<rparr>)"
proof -
  obtain c1 c where f: "findSurface e sid s = (sm_map s sid, s\<lparr>sm_cache := c1, sm_tick := sm_tick s + 1\<rparr>)"
    "findSurface e did (s\<lparr>sm_cache := c1, sm_tick := sm_tick s + 1\<rparr>) = (sm_map s did, s\<lparr>sm_cache := c, sm_tick := sm_tick s + 2\<rparr>)"
    "sm_inv n (s\<lparr>sm_cache := c, sm_tick := sm_tick s + 2\<rparr>)" "cache_live (s\<lparr>sm_cache := c, sm_tick := sm_tick s + 2\<rparr>)"
    using two_finds [OF assms(1-3)] by metis
  show thesis by (rule that [of c]) (use f assms(4,5) in \<open>auto simp: with_source_dest_def deref_pair_def live_surface_def\<close>)
qed

lemma live_surface_distinct:
  assumes "sm_inv n s" "live_surface s sid o1 x" "live_surface s did o2 y" "sid \<noteq> did"
  shows "o1 \<noteq> o2"
  using assms unfolding live_surface_def sm_inv_def table_ok_def by (metis option.inject)

lemma memory_size_bound:
  assumes "sm_inv n s" "sm_objs s ob = Some x" "sm_evicted s = 0"
  shows "unat (vs_memory_size x) \<le> 2 ^ 29"
proof -
  have "ob \<in> set (sm_list s)" using assms by (auto simp: sm_inv_def table_ok_def)
  then have "surface_bytes (sm_objs s) ob \<le> total_bytes s" unfolding total_bytes_def by (intro member_le_sum_list) auto
  moreover have "total_bytes s \<le> 2 ^ 29" using count_exact [of s] assms by (simp add: sm_inv_def)
  ultimately show ?thesis using assms(2) by (simp add: surface_bytes_def)
qed

text \<open>What a reachable state says of one surface, and of a lookup of it.\<close>

lemma reach_surface:
  assumes "surface_reach e g n s" "n < 2 ^ 30 - 1" "cache_live s" "live_surface s sid ob x"
  obtains b k where "sm_inv (2 * n) s" "sm_mem s (Suc ob) = Some b" "vs_memory x = Some (Suc ob)" "length b = unat (vs_memory_size x)"
    "sid \<noteq> 0" "shape_ok x"
    "\<And>h v. with_surface e sid (v :: unit) s h = h ob x (s\<lparr>sm_cache := k, sm_tick := sm_tick s + 1\<rparr>)"
proof -
  have i: "sm_inv (2 * n) s" using assms(1,2) by (intro surface_reach_inv) auto
  have m: "sm_map s sid = Some ob" and ob: "sm_objs s ob = Some x" using assms(4) by (auto simp: live_surface_def)
  have n: "2 * n < 2 ^ 31 - 1" using assms(2) by simp
  obtain x' k where x: "sm_objs s ob = Some x'"
    "\<And>h v. with_surface e sid (v :: unit) s h = h ob x' (s\<lparr>sm_cache := k, sm_tick := sm_tick s + 1\<rparr>)"
    by (rule with_surface_live [OF i assms(3) n m, where e = e]) blast
  obtain b where b: "sm_mem s (Suc ob) = Some b" "vs_memory x = Some (Suc ob)" "length b = unat (vs_memory_size x)"
    using i ob by (rule sm_inv_buffer)
  have "sid \<noteq> 0" using i m by (auto simp: sm_inv_def ids_ok_def)
  then show thesis by (rule that [OF i b]) (use sm_inv_shape [OF i ob] ob x in auto)
qed

section \<open>Filling\<close>

text \<open>\<^verbatim>\<open>fillSurface\<close> sets every whole pixel of a surface of a 32-bit format to the colour and never fails; on an NV12 surface
  it counts one pixel per byte, writes four bytes for each, and runs past the end of the memory.\<close>

theorem fillSurface_outcome:
  assumes "surface_reach e g n s" "n < 2 ^ 30 - 1" "cache_live s" "live_surface s sid ob x"
  shows "(case fillSurface e sid c s of (r, _, s') \<Rightarrow>
     if sd_pixel_format (vs_descriptor x) = PF_NV12 then r = Kernel_panic
     else r = kIOReturnSuccess \<and> map_option (take (4 * (unat (vs_memory_size x) div 4))) (sm_mem s' (Suc ob))
            = Some (concat (replicate (unat (vs_memory_size x) div 4) (le32 c))))"
proof -
  obtain b k where b: "sm_mem s (Suc ob) = Some b" "vs_memory x = Some (Suc ob)" "length b = unat (vs_memory_size x)" and sh: "shape_ok x"
    and x: "\<And>h v. with_surface e sid (v :: unit) s h = h ob x (s\<lparr>sm_cache := k, sm_tick := sm_tick s + 1\<rparr>)"
    by (rule reach_surface [OF assms]) blast
  show ?thesis
  proof (cases "sd_pixel_format (vs_descriptor x) = PF_NV12")
    case True
    then show ?thesis using x b sh
      by (simp add: fillSurface_def getBytesPerPixel_def on_buffer_def fill_run_eq finish_write_def unat_eq_0 shape_ok_def)
  next
    case False
    then have bpp: "getBytesPerPixel (sd_pixel_format (vs_descriptor x)) = 4" using sh by (auto simp: getBytesPerPixel_def shape_ok_def)
    show ?thesis using x b bpp False
      by (simp add: fillSurface_def on_buffer_def fill_run_eq finish_write_def unat_div touch_surface_def put_object_def
          length_concat sum_list_replicate)
  qed
qed

theorem fillSurface_outcome_witness: "fst (fillSurface demo_env 1 7 demo1) = kIOReturnSuccess"
  using fillSurface_outcome [OF demo_reach(1) _ demo_live(1), of 1 0 "demo_surface 1 0 1" 7]
  by (simp add: live_surface_def demo1_def demo_surface_def demo_fields split: prod.splits)

text \<open>The bounds check of \<^verbatim>\<open>fillSurfaceRegion\<close> adds the corner and the size in 32 bits. A region of one pixel in the column
  $2^{32} - 1$ passes it for every surface, and, as long as no eviction has let the surfaces outgrow 512 MB, the write goes
  outside the memory.\<close>

theorem region_check_wraps:
  assumes "surface_reach e g n s" "n < 2 ^ 30 - 1" "cache_live s" "live_surface s sid ob x" "sm_evicted s = 0"
  shows "fst (fillSurfaceRegion e sid 0xFFFFFFFF 0 1 1 c s) = Kernel_panic"
proof -
  obtain b k where i: "sm_inv (2 * n) s" and b: "sm_mem s (Suc ob) = Some b" "vs_memory x = Some (Suc ob)" "length b = unat (vs_memory_size x)"
    and sh: "sid \<noteq> 0" "shape_ok x"
    and x: "\<And>h v. with_surface e sid (v :: unit) s h = h ob x (s\<lparr>sm_cache := k, sm_tick := sm_tick s + 1\<rparr>)"
    by (rule reach_surface [OF assms(1-4)]) blast
  have "\<not> vs_width x < 4294967296" by (simp add: word_less_nat_alt)
  moreover have "unat (vs_memory_size x) \<le> 536870912" using memory_size_bound [OF i] assms(4,5) by (auto simp: live_surface_def)
  ultimately show ?thesis using x b sh
    by (auto simp: fillSurfaceRegion_def getBytesPerPixel_def on_buffer_def finish_write_def store_at_def shape_ok_def)
qed

theorem region_check_wraps_witness: "fst (fillSurfaceRegion demo_env 1 0xFFFFFFFF 0 1 1 7 demo1) = Kernel_panic"
  by (rule region_check_wraps [OF demo_reach(1) _ demo_live(1), of 1 0 "demo_surface 1 0 1"]) (simp_all add: live_surface_def demo1_def iosm_init_def)

section \<open>Copying a region\<close>

lemma unat_mult_small: "unat (a :: u32) * unat b < 2 ^ 32 \<Longrightarrow> unat (a * b) = unat a * unat b"
  by (simp add: unat_word_ariths)

text \<open>Offsets into an image of \<open>W\<close> columns: where a row of a region lies, and that it meets no pixel outside the region.\<close>

lemma row_fits:
  assumes "r < h" "y + h \<le> H" "x + w \<le> (W :: nat)"
  shows "4 * (y * W + x) + r * (4 * W) + 4 * w \<le> 4 * (W * H)"
proof -
  have "(y + r + 1) * W \<le> H * W" using assms by (intro mult_right_mono) auto
  then show ?thesis using assms(3) by (simp add: algebra_simps)
qed

lemma row_outside:
  assumes "x + w \<le> (W :: nat)" "px < W" "c < 4" "\<not> (x \<le> px \<and> px < x + w \<and> py = y + r)"
  shows "4 * (py * W + px) + c < 4 * (y * W + x) + r * (4 * W) \<or> 4 * (y * W + x) + r * (4 * W) + 4 * w \<le> 4 * (py * W + px) + c"
proof -
  consider "py = y + r" | "py + 1 \<le> y + r" | "y + r + 1 \<le> py" by linarith
  then show ?thesis
  proof cases
    case 2
    then have "(py + 1) * W \<le> (y + r) * W" by (intro mult_right_mono) auto
    then show ?thesis using assms by (simp add: algebra_simps)
  next
    case 3
    then have "(y + r + 1) * W \<le> py * W" by (intro mult_right_mono) auto
    then show ?thesis using assms by (simp add: algebra_simps)
  qed (use assms in \<open>auto simp: algebra_simps\<close>)
qed

lemma take4_eqI:
  assumes "k + 4 \<le> length b" "k' + 4 \<le> length b'" "\<And>c. c < 4 \<Longrightarrow> b ! (k + c) = b' ! (k' + c)"
  shows "take 4 (drop k b) = take 4 (drop k' b')"
  using assms by (intro nth_equalityI) auto

lemma pixel_fits:
  assumes "px < W" "py < H"
  shows "4 * (py * W + px) + 4 \<le> 4 * (W * (H :: nat))"
proof -
  have "(py + 1) * W \<le> H * W" using assms by (intro mult_right_mono) auto
  then show ?thesis using assms(1) by (simp add: algebra_simps)
qed

text \<open>The row copy between two buffers that hold images of \<open>W1\<close> by \<open>H1\<close> and \<open>W2\<close> by \<open>H2\<close> pixels.\<close>

lemma transfer_image:
  assumes m: "m1 \<noteq> m2" "mem m1 = Some a" "mem m2 = Some b" "4 * (W1 * H1) \<le> length a" "4 * (W2 * H2) \<le> length b"
    and r: "sx + w \<le> W1" "sy + h \<le> H1" "dx + w \<le> W2" "dy + h \<le> H2"
  obtains b' where
    "transfer h (4 * w) (4 * (sy * W1 + sx)) (4 * W1) (4 * (dy * W2 + dx)) (4 * W2) id m1 m2 mem = Some (mem(m2 \<mapsto> b'))"
    "\<And>px py. px < W2 \<Longrightarrow> py < H2 \<Longrightarrow> take 4 (drop (4 * (py * W2 + px)) b') =
       (if dx \<le> px \<and> px < dx + w \<and> dy \<le> py \<and> py < dy + h then take 4 (drop (4 * ((py - dy + sy) * W1 + (px - dx + sx))) a)
        else take 4 (drop (4 * (py * W2 + px)) b))"
proof -
  have "\<exists>b'. transfer h (4 * w) (4 * (sy * W1 + sx)) (4 * W1) (4 * (dy * W2 + dx)) (4 * W2) id m1 m2 mem = Some (mem(m2 \<mapsto> b')) \<and> length b' = length b
    \<and> (\<forall>r < h. \<forall>j < 4 * w. b' ! (4 * (dy * W2 + dx) + r * (4 * W2) + j) = id (take (4 * w) (drop (4 * (sy * W1 + sx) + r * (4 * W1)) a)) ! j)
    \<and> (\<forall>k < length b. (\<forall>r < h. k < 4 * (dy * W2 + dx) + r * (4 * W2) \<or> 4 * (dy * W2 + dx) + r * (4 * W2) + 4 * w \<le> k) \<longrightarrow> b' ! k = b ! k)"
    using row_fits [OF _ r(2,1)] row_fits [OF _ r(4,3)] m(4,5) r(3) by (intro transfer_spec m(1-3)) (force intro: order_trans)+
  then obtain b' where b': "transfer h (4 * w) (4 * (sy * W1 + sx)) (4 * W1) (4 * (dy * W2 + dx)) (4 * W2) id m1 m2 mem = Some (mem(m2 \<mapsto> b'))"
    "length b' = length b"
    "\<And>r j. r < h \<Longrightarrow> j < 4 * w \<Longrightarrow> b' ! (4 * (dy * W2 + dx) + r * (4 * W2) + j) = take (4 * w) (drop (4 * (sy * W1 + sx) + r * (4 * W1)) a) ! j"
    "\<And>k. k < length b \<Longrightarrow> (\<And>r. r < h \<Longrightarrow> k < 4 * (dy * W2 + dx) + r * (4 * W2) \<or> 4 * (dy * W2 + dx) + r * (4 * W2) + 4 * w \<le> k) \<Longrightarrow> b' ! k = b ! k"
    by auto
  show thesis
  proof (rule that [OF b'(1)])
    fix px py assume p: "px < W2" "py < H2"
    note pf = order_trans [OF pixel_fits [OF p] m(5)]
    show "take 4 (drop (4 * (py * W2 + px)) b') =
       (if dx \<le> px \<and> px < dx + w \<and> dy \<le> py \<and> py < dy + h then take 4 (drop (4 * ((py - dy + sy) * W1 + (px - dx + sx))) a)
        else take 4 (drop (4 * (py * W2 + px)) b))"
    proof (cases "dx \<le> px \<and> px < dx + w \<and> dy \<le> py \<and> py < dy + h")
      case True
      then obtain i q where iq: "px = dx + i" "i < w" "py = dy + q" "q < h" by (metis add_less_cancel_left le_Suc_ex)
      have sf: "4 * ((q + sy) * W1 + (i + sx)) + 4 \<le> length a"
        using pixel_fits [of "i + sx" W1 "q + sy" H1] m(4) r iq by (intro order_trans [OF _ m(4)]) auto
      have "b' ! (4 * (py * W2 + px) + c) = a ! (4 * ((q + sy) * W1 + (i + sx)) + c)" if "c < 4" for c
      proof -
        have j: "4 * i + c < 4 * w" using iq(2) that by auto
        have e1: "4 * (py * W2 + px) + c = 4 * (dy * W2 + dx) + q * (4 * W2) + (4 * i + c)" by (simp add: iq algebra_simps)
        have e2: "4 * (sy * W1 + sx) + q * (4 * W1) + (4 * i + c) = 4 * ((q + sy) * W1 + (i + sx)) + c" by (simp add: algebra_simps)
        have "4 * (sy * W1 + sx) + q * (4 * W1) \<le> length a" using sf by (simp add: algebra_simps)
        then have "take (4 * w) (drop (4 * (sy * W1 + sx) + q * (4 * W1)) a) ! (4 * i + c)
            = a ! (4 * (sy * W1 + sx) + q * (4 * W1) + (4 * i + c))"
          by (simp only: nth_take [OF j] nth_drop)
        then show ?thesis unfolding e1 b'(3) [OF iq(4) j] e2 .
      qed
      then show ?thesis using True iq sf pf b'(2) by (auto intro!: take4_eqI)
    next
      case False
      have "b' ! (4 * (py * W2 + px) + c) = b ! (4 * (py * W2 + px) + c)" if "c < 4" for c
        using False p pf that by (intro b'(4) row_outside [OF r(3)]) auto
      then show ?thesis using False pf b'(2) by (auto intro!: take4_eqI)
    qed
  qed
qed

lemma word_region:
  "unat (a :: u32) + unat b \<le> unat c \<Longrightarrow> \<not> a + b > c"
  using unat_bound32 [of c] by (simp add: word_less_nat_alt unat_word_ariths not_less)

text \<open>Products of sides of at most 16384 with four bytes per pixel do not wrap.\<close>

lemma image_offset:
  assumes "W \<le> 16384" "unat y \<le> 16384" "unat x \<le> 16384"
  shows "unat ((y :: u32) * (W * 4)) + unat ((x :: u32) * 4) = 4 * (unat y * unat W + unat x)" "unat (W * 4) = 4 * unat W"
proof -
  have W: "unat W \<le> 16384" using assms(1) by (simp add: word_le_nat_alt)
  then show W4: "unat (W * 4) = 4 * unat W" by (simp add: unat_mult_small)
  have "unat y * (4 * unat W) \<le> 16384 * 65536" using W assms(2) by (intro mult_le_mono) auto
  then have "unat (y * (W * 4)) = unat y * (4 * unat W)" by (simp add: unat_mult_small W4)
  moreover have "unat (x * 4) = 4 * unat x" using assms(3) by (simp add: unat_mult_small)
  ultimately show "unat (y * (W * 4)) + unat (x * 4) = 4 * (unat y * unat W + unat x)" by (simp add: algebra_simps)
qed

text \<open>C38. \<^verbatim>\<open>copySurfaceRegion\<close> between two surfaces of the same 32-bit format whose memories hold their images, with the region inside
  both: it succeeds, every pixel of the destination inside the region becomes the corresponding pixel of the source, and every
  other pixel stays.\<close>

theorem copySurfaceRegion_pixels:
  assumes "surface_reach e g n s" "n < 2 ^ 30 - 1" "cache_live s"
    and "live_surface s sid o1 x" "live_surface s did o2 y" "sid \<noteq> did"
    and "sd_pixel_format (vs_descriptor x) = sd_pixel_format (vs_descriptor y)" "holds_image x" "holds_image y" "0 < w" "0 < h"
    and "unat sx + unat w \<le> unat (vs_width x)" "unat sy + unat h \<le> unat (vs_height x)"
    and "unat dx + unat w \<le> unat (vs_width y)" "unat dy + unat h \<le> unat (vs_height y)"
  shows "(case copySurfaceRegion e sid did sx sy dx dy w h s of (r, _, s') \<Rightarrow> r = kIOReturnSuccess
    \<and> (\<forall>px < unat (vs_width y). \<forall>py < unat (vs_height y). surface_pixel s' o2 px py =
         (if unat dx \<le> px \<and> px < unat dx + unat w \<and> unat dy \<le> py \<and> py < unat dy + unat h
          then surface_pixel s o1 (px - unat dx + unat sx) (py - unat dy + unat sy) else surface_pixel s o2 px py)))"
proof -
  obtain a where i: "sm_inv (2 * n) s" and a: "sm_mem s (Suc o1) = Some a" "vs_memory x = Some (Suc o1)" "length a = unat (vs_memory_size x)"
    "sid \<noteq> 0" "shape_ok x" by (rule reach_surface [OF assms(1-4)]) blast
  obtain b where b: "sm_mem s (Suc o2) = Some b" "vs_memory y = Some (Suc o2)" "length b = unat (vs_memory_size y)"
    "did \<noteq> 0" "shape_ok y" by (rule reach_surface [OF assms(1-3,5)]) blast
  have ob: "sm_map s sid = Some o1" "sm_objs s o1 = Some x" "sm_map s did = Some o2" "sm_objs s o2 = Some y"
    using assms(4,5) by (auto simp: live_surface_def)
  have ne: "Suc o1 \<noteq> Suc o2" using live_surface_distinct [OF i assms(4-6)] by simp
  have dims: "vs_width x \<le> 16384" "vs_width y \<le> 16384" "unat (vs_width x) \<le> 16384" "unat (vs_height x) \<le> 16384"
    "unat (vs_width y) \<le> 16384" "unat (vs_height y) \<le> 16384"
    using a(5) b(5) by (auto simp: shape_ok_def word_le_nat_alt)
  have bpp: "getBytesPerPixel (sd_pixel_format (vs_descriptor y)) = 4"
    using assms(9) b(5) by (auto simp: holds_image_def shape_ok_def getBytesPerPixel_def)
  obtain c1 c where f: "findSurface e sid s = (sm_map s sid, s\<lparr>sm_cache := c1, sm_tick := sm_tick s + 1\<rparr>)"
    "findSurface e did (s\<lparr>sm_cache := c1, sm_tick := sm_tick s + 1\<rparr>) = (sm_map s did, s\<lparr>sm_cache := c, sm_tick := sm_tick s + 2\<rparr>)"
    by (rule two_finds [OF i assms(3), where e = e and sid = sid and did = did]) (use assms(2) in \<open>simp; blast\<close>)+
  obtain b' where t: "transfer (unat h) (4 * unat w) (4 * (unat sy * unat (vs_width x) + unat sx)) (4 * unat (vs_width x))
      (4 * (unat dy * unat (vs_width y) + unat dx)) (4 * unat (vs_width y)) id (Suc o1) (Suc o2) (sm_mem s) = Some ((sm_mem s)(Suc o2 \<mapsto> b'))"
    and px: "\<And>px py. px < unat (vs_width y) \<Longrightarrow> py < unat (vs_height y) \<Longrightarrow> take 4 (drop (4 * (py * unat (vs_width y) + px)) b') =
       (if unat dx \<le> px \<and> px < unat dx + unat w \<and> unat dy \<le> py \<and> py < unat dy + unat h
        then take 4 (drop (4 * ((py - unat dy + unat sy) * unat (vs_width x) + (px - unat dx + unat sx))) a)
        else take 4 (drop (4 * (py * unat (vs_width y) + px)) b))"
    by (rule transfer_image [OF ne a(1) b(1) _ _ assms(12-15)]) (use assms(8,9) a(3) b(3) in \<open>auto simp: holds_image_def\<close>)
  note f2 = f(2) [unfolded One_nat_def add_Suc_right add_0_right]
  have "w \<noteq> 0" "h \<noteq> 0" using assms(10,11) by auto
  moreover have "unat (w * 4) = 4 * unat w" using assms(12) dims by (simp add: unat_mult_small)
  ultimately have "copySurfaceRegion e sid did sx sy dx dy w h s = (kIOReturnSuccess, (),
     touch_surface e o2 y (s\<lparr>sm_cache := c, sm_tick := sm_tick s + 2, sm_mem := (sm_mem s)(Suc o2 \<mapsto> b')\<rparr>))"
    using word_region [OF assms(12)] word_region [OF assms(13)] word_region [OF assms(14)] word_region [OF assms(15)] assms(7,12-15) dims
    by (simp add: copySurfaceRegion_def f f2 ob deref_pair_def a(2,4) b(2,4) bpp image_offset t [unfolded add_mult_distrib2] finish_write_def)
  then show ?thesis using ob a(1) b(1) ne px
    by (simp add: touch_surface_def put_object_def surface_pixel_def)
qed

theorem copySurfaceRegion_pixels_witness: "fst (copySurfaceRegion demo_env 1 2 0 1 1 0 1 1 demo2) = kIOReturnSuccess"
  using copySurfaceRegion_pixels [OF demo_reach(2) _ demo_live(2), of 1 0 "demo_surface 1 0 1" 2 2 "demo_surface 2 2 2" 1 1 0 1 1 0]
  by (simp add: live_surface_def demo2_def demo_surface_def demo_fields holds_image_def split: prod.splits)

section \<open>Conversion\<close>

lemma and_ff: "p AND (0xFF :: u32) = take_bit 8 p"
  by (simp add: take_bit_eq_mask mask_eq_exp_minus_1)

lemma bit_byte_at: "bit (byte_at k p) n \<longleftrightarrow> n < 8 \<and> bit p (k + n)"
  by (auto simp: byte_at_def and_ff bit_take_bit_iff bit_drop_bit_eq)

text \<open>Both conversions exchange the bytes 1 and 3.\<close>

lemma bit_bgra_to_rgba:
  "n < 32 \<Longrightarrow> bit (bgra_to_rgba p) n \<longleftrightarrow> bit p (if 24 \<le> n then n - 16 else if 8 \<le> n \<and> n < 16 then n + 16 else n)"
  by (auto simp: bgra_to_rgba_def Let_def bit_or_iff bit_push_bit_iff bit_byte_at and_ff bit_take_bit_iff algebra_simps)

lemma rgba_bgra [simp]: "rgba_to_bgra (bgra_to_rgba p) = p"
proof (rule bit_word_eqI)
  fix n assume "n < LENGTH(32)"
  then show "bit (rgba_to_bgra (bgra_to_rgba p)) n = bit p n"
    using bit_bgra_to_rgba [of n "bgra_to_rgba p"]
    by (auto simp: bit_bgra_to_rgba rgba_to_bgra_def bgra_to_rgba_def [of "bgra_to_rgba p"])
qed

lemma le_value_bound: "le_value bs < 256 ^ length bs"
proof (induction bs)
  case (Cons b bs)
  have "unat b < 256" using unsigned_less [of b, where ?'a = nat] by simp
  then show ?case using Cons by simp
qed simp

lemma le_bytes_le_value: "length bs = n \<Longrightarrow> le_bytes n (le_value bs) = bs"
proof (induction n arbitrary: bs)
  case (Suc n)
  then obtain b cs where bs: "bs = b # cs" "length cs = n" by (auto simp: length_Suc_conv)
  have b: "unat b < 256" using unsigned_less [of b, where ?'a = nat] by simp
  have z: "(256 :: 8 word) = 0" by (rule word_unat_eq_iff [THEN iffD2]) simp
  have "word_of_nat (unat b + 256 * le_value cs) = b" by (simp add: z)
  moreover have "(unat b + 256 * le_value cs) div 256 = le_value cs" using b by simp
  ultimately show ?case using Suc.IH [OF bs(2)] by (simp only: bs(1) le_value.simps le_bytes.simps)
qed simp

lemma le32_rd32: "length bs = 4 \<Longrightarrow> le32 (rd32 bs) = bs"
  using le_value_bound [of bs] by (simp add: le32_def rd32_def unat_of_nat le_bytes_le_value)
lemma transfer_pixels:
  assumes "m1 \<noteq> m2" "mem m1 = Some a" "mem m2 = Some b" "4 * k \<le> length a" "4 * k \<le> length b" "\<And>p. length (f p) = 4"
  obtains b' where "transfer k 4 0 4 0 4 f m1 m2 mem = Some (mem(m2 \<mapsto> b'))" "length b' = length b"
    "\<And>i. i < k \<Longrightarrow> take 4 (drop (4 * i) b') = f (take 4 (drop (4 * i) a))"
proof -
  have "\<exists>b'. transfer k 4 0 4 0 4 f m1 m2 mem = Some (mem(m2 \<mapsto> b')) \<and> length b' = length b
    \<and> (\<forall>r < k. \<forall>j < 4. b' ! (0 + r * 4 + j) = f (take 4 (drop (0 + r * 4) a)) ! j)
    \<and> (\<forall>q < length b. (\<forall>r < k. q < 0 + r * 4 \<or> 0 + r * 4 + 4 \<le> q) \<longrightarrow> b' ! q = b ! q)"
    using assms by (intro transfer_spec) auto
  then obtain b' where b': "transfer k 4 0 4 0 4 f m1 m2 mem = Some (mem(m2 \<mapsto> b'))" "length b' = length b"
    "\<And>r j. r < k \<Longrightarrow> j < 4 \<Longrightarrow> b' ! (r * 4 + j) = f (take 4 (drop (r * 4) a)) ! j" by auto
  show thesis
  proof (rule that [OF b'(1,2)])
    fix i assume i: "i < k"
    then show "take 4 (drop (4 * i) b') = f (take 4 (drop (4 * i) a))"
      using assms(5,6) b'(2) b'(3) [OF i] by (intro nth_equalityI) (auto simp: mult.commute)
  qed
qed

lemma conversion_swap:
  assumes "(sf, df, f) \<in> {(PF_BGRA32, PF_RGBA32, bgra_to_rgba), (PF_RGBA32, PF_BGRA32, rgba_to_bgra)}" "0 < w" "0 < h"
  shows "performPixelFormatConversion m1 sf m2 df w h mem = Inr (transfer (unat (w * h)) 4 0 4 0 4 (\<lambda>p. le32 (f (rd32 p))) m1 m2 mem)"
proof -
  have wh: "w \<noteq> 0" "h \<noteq> 0" using assms by auto
  consider "sf = PF_BGRA32" "df = PF_RGBA32" "f = bgra_to_rgba" | "sf = PF_RGBA32" "df = PF_BGRA32" "f = rgba_to_bgra" using assms(1) by blast
  then show ?thesis
    by cases (use wh in \<open>simp_all add: performPixelFormatConversion_def convertBGRAtoRGBA_def convertRGBAtoBGRA_def del: transfer.simps\<close>)
qed

lemma pixel_index: "px < W \<Longrightarrow> py < H \<Longrightarrow> py * W + px < W * (H :: nat)"
  using pixel_fits [of px W py H] by simp

text \<open>One conversion between two surfaces: what it makes of the destination, and what it leaves alone.\<close>

lemma convert_step:
  assumes i: "sm_inv n s" "cache_live s" "n < 2 ^ 31 - 1" and at: "live_surface s sid o1 x" "live_surface s did o2 y" "sid \<noteq> did"
    and fmt: "sd_pixel_format (vs_descriptor x) = sf" "(sf, df, f) \<in> {(PF_BGRA32, PF_RGBA32, bgra_to_rgba), (PF_RGBA32, PF_BGRA32, rgba_to_bgra)}"
    and dim: "vs_width x = vs_width y" "vs_height x = vs_height y"
    and big: "4 * (unat (vs_width y) * unat (vs_height y)) \<le> unat (vs_memory_size x)" "4 * (unat (vs_width y) * unat (vs_height y)) \<le> unat (vs_memory_size y)"
  obtains s' y' where "convertSurfaceFormat e sid did df s = (kIOReturnSuccess, (), s')" "sm_inv (Suc n) s'" "cache_live s'"
    "live_surface s' did o2 y'" "sd_pixel_format (vs_descriptor y') = df" "vs_width y' = vs_width y" "vs_height y' = vs_height y"
    "vs_memory_size y' = vs_memory_size y" "sm_map s' = sm_map s" "\<And>ob. ob \<noteq> o2 \<Longrightarrow> sm_objs s' ob = sm_objs s ob"
    "\<And>px py. px < unat (vs_width y) \<Longrightarrow> py < unat (vs_height y) \<Longrightarrow> surface_pixel s' o2 px py = le32 (f (rd32 (surface_pixel s o1 px py)))"
proof -
  have ob: "sm_map s sid = Some o1" "sm_objs s o1 = Some x" "sm_map s did = Some o2" "sm_objs s o2 = Some y"
    using at by (auto simp: live_surface_def)
  obtain a where a: "sm_mem s (Suc o1) = Some a" "vs_memory x = Some (Suc o1)" "length a = unat (vs_memory_size x)"
    using i(1) ob(2) by (rule sm_inv_buffer)
  obtain b where b: "sm_mem s (Suc o2) = Some b" "vs_memory y = Some (Suc o2)" "length b = unat (vs_memory_size y)"
    using i(1) ob(4) by (rule sm_inv_buffer)
  have ne: "Suc o1 \<noteq> Suc o2" using live_surface_distinct [OF i(1) at] by simp
  have ids: "sid \<noteq> 0" "did \<noteq> 0" and yuv: "sm_supports_yuv s" using i(1) ob by (auto simp: sm_inv_def ids_ok_def shapes_ok_def)
  have sh: "shape_ok x" using sm_inv_shape [OF i(1) ob(2)] .
  have wh: "unat (vs_width y * vs_height y) = unat (vs_width y) * unat (vs_height y)"
  proof (rule unat_mult_small)
    have "unat (vs_width y) * unat (vs_height y) \<le> 16384 * 16384" using sh dim by (intro mult_le_mono) (auto simp: shape_ok_def word_le_nat_alt)
    then show "unat (vs_width y) * unat (vs_height y) < 2 ^ 32" by simp
  qed
  obtain b' where t: "transfer (unat (vs_width y) * unat (vs_height y)) 4 0 4 0 4 (\<lambda>p. le32 (f (rd32 p))) (Suc o1) (Suc o2) (sm_mem s) = Some ((sm_mem s)(Suc o2 \<mapsto> b'))"
    "\<And>i. i < unat (vs_width y) * unat (vs_height y) \<Longrightarrow> take 4 (drop (4 * i) b') = le32 (f (rd32 (take 4 (drop (4 * i) a))))"
    using transfer_pixels [OF ne a(1) b(1), of "unat (vs_width y) * unat (vs_height y)" "\<lambda>p. le32 (f (rd32 p))"] big a(3) b(3) by (metis length_le32)
  obtain c where w: "\<And>k. with_source_dest e sid did s k = k o1 x o2 y (s\<lparr>sm_cache := c, sm_tick := sm_tick s + 2\<rparr>)"
    "cache_live (s\<lparr>sm_cache := c, sm_tick := sm_tick s + 2\<rparr>)" by (rule with_source_dest_live [OF i at(1,2), where e = e]) blast
  let ?y = "y\<lparr>vs_descriptor := (vs_descriptor y)\<lparr>sd_pixel_format := df\<rparr>\<rparr>"
  let ?s = "touch_surface e o2 ?y (s\<lparr>sm_cache := c, sm_tick := sm_tick s + 2, sm_mem := (sm_mem s)(Suc o2 \<mapsto> b')\<rparr>)"
  have "performPixelFormatConversion (Suc o1) sf (Suc o2) df (vs_width y) (vs_height y) (sm_mem s) = Inr (Some ((sm_mem s)(Suc o2 \<mapsto> b')))"
    using conversion_swap [OF fmt(2), of "vs_width y" "vs_height y"] sh dim t(1) wh by (simp add: shape_ok_def)
  then have r: "convertSurfaceFormat e sid did df s = (kIOReturnSuccess, (), ?s)"
    using fmt ids at(3) yuv dim a(2) b(2) by (auto simp: convertSurfaceFormat_def Let_def validatePixelFormat_def w finish_write_def)
  show thesis
  proof (rule that [OF r, of "?y\<lparr>vs_last_access_time := ie_clock e (sm_tick s + 2)\<rparr>"])
    show "sm_inv (Suc n) ?s" using convertSurfaceFormat_kept [OF i(1), of e sid did df] by (simp add: sm_kept_def r)
    show "cache_live ?s" using w(2) ob(4) by (auto simp: cache_live_def touch_surface_def put_object_def)
    show "surface_pixel ?s o2 px py = le32 (f (rd32 (surface_pixel s o1 px py)))" if "px < unat (vs_width y)" "py < unat (vs_height y)" for px py
      using t(2) [OF pixel_index [OF that]] ob a(1) dim by (simp add: surface_pixel_def touch_surface_def put_object_def)
  qed (use ob in \<open>simp_all add: live_surface_def touch_surface_def put_object_def\<close>)
qed

text \<open>C39. Format conversion loses nothing: converting a BGRA surface into a second surface as RGBA and that one into a third as BGRA
  succeeds and reproduces every pixel, for surfaces of equal sides whose memories hold four bytes per pixel.\<close>

theorem conversion_roundtrip:
  assumes "surface_reach e g n s" "n < 2 ^ 30 - 2" "cache_live s"
    and "live_surface s a oa x" "live_surface s b ob y" "live_surface s c oc z" "distinct [a, b, c]"
    and "sd_pixel_format (vs_descriptor x) = PF_BGRA32"
    and "vs_width x = vs_width z" "vs_height x = vs_height z" "vs_width y = vs_width z" "vs_height y = vs_height z"
    and "\<forall>v \<in> {x, y, z}. 4 * (unat (vs_width z) * unat (vs_height z)) \<le> unat (vs_memory_size v)"
  shows "\<exists>s1 s2. convertSurfaceFormat e a b PF_RGBA32 s = (kIOReturnSuccess, (), s1) \<and> convertSurfaceFormat e b c PF_BGRA32 s1 = (kIOReturnSuccess, (), s2)
    \<and> (\<forall>px < unat (vs_width z). \<forall>py < unat (vs_height z). surface_pixel s2 oc px py = surface_pixel s oa px py)"
proof -
  have i: "sm_inv (2 * n) s" using assms(1,2) by (intro surface_reach_inv) auto
  have n: "2 * n < 2 ^ 31 - 1" "Suc (2 * n) < 2 ^ 31 - 1" using assms(2) by auto
  have d: "a \<noteq> b" "b \<noteq> c" "oc \<noteq> ob" using assms(7) live_surface_distinct [OF i assms(6,5)] by auto
  have fmt: "(PF_BGRA32, PF_RGBA32, bgra_to_rgba) \<in> {(PF_BGRA32, PF_RGBA32, bgra_to_rgba), (PF_RGBA32, PF_BGRA32, rgba_to_bgra)}"
    "(PF_RGBA32, PF_BGRA32, rgba_to_bgra) \<in> {(PF_BGRA32, PF_RGBA32, bgra_to_rgba), (PF_RGBA32, PF_BGRA32, rgba_to_bgra)}" by simp_all
  have dim: "vs_width x = vs_width y" "vs_height x = vs_height y" "vs_width y = vs_width z" "vs_height y = vs_height z" using assms(9-12) by simp_all
  have big: "4 * (unat (vs_width y) * unat (vs_height y)) \<le> unat (vs_memory_size x)" "4 * (unat (vs_width y) * unat (vs_height y)) \<le> unat (vs_memory_size y)"
    "4 * (unat (vs_width z) * unat (vs_height z)) \<le> unat (vs_memory_size z)" "4 * (unat (vs_width z) * unat (vs_height z)) \<le> unat (vs_memory_size y)"
    using assms(11-13) by simp_all
  obtain s1 y' where 1: "convertSurfaceFormat e a b PF_RGBA32 s = (kIOReturnSuccess, (), s1)" "sm_inv (Suc (2 * n)) s1" "cache_live s1"
    "live_surface s1 b ob y'" "sd_pixel_format (vs_descriptor y') = PF_RGBA32" "vs_width y' = vs_width y" "vs_height y' = vs_height y"
    "vs_memory_size y' = vs_memory_size y" "sm_map s1 = sm_map s" "\<And>k. k \<noteq> ob \<Longrightarrow> sm_objs s1 k = sm_objs s k"
    "\<And>px py. px < unat (vs_width y) \<Longrightarrow> py < unat (vs_height y) \<Longrightarrow> surface_pixel s1 ob px py = le32 (bgra_to_rgba (rd32 (surface_pixel s oa px py)))"
    by (rule convert_step [OF i assms(3) n(1) assms(4,5) d(1) assms(8) fmt(1) dim(1,2) big(1,2), where e = e]) blast
  have at: "live_surface s1 c oc z" using assms(6) 1(9,10) d(3) by (simp add: live_surface_def)
  obtain s2 where 2: "convertSurfaceFormat e b c PF_BGRA32 s1 = (kIOReturnSuccess, (), s2)"
    "\<And>px py. px < unat (vs_width z) \<Longrightarrow> py < unat (vs_height z) \<Longrightarrow> surface_pixel s2 oc px py = le32 (rgba_to_bgra (rd32 (surface_pixel s1 ob px py)))"
    by (rule convert_step [OF 1(2,3) n(2) 1(4) at d(2) 1(5) fmt(2) _ _ _ big(3), where e = e]) (use 1(6-8) dim(3,4) big(4) in \<open>simp, simp, simp, blast\<close>)
  obtain m where m: "sm_mem s (Suc oa) = Some m" "length m = unat (vs_memory_size x)"
    by (rule sm_inv_buffer [OF i]) (use assms(4) in \<open>auto simp: live_surface_def\<close>)
  have "surface_pixel s2 oc px py = surface_pixel s oa px py" if p: "px < unat (vs_width z)" "py < unat (vs_height z)" for px py
  proof -
    have "length (surface_pixel s oa px py) = 4"
      using order_trans [OF pixel_fits [OF p], of "length m"] m assms(4,9,13) by (simp add: surface_pixel_def live_surface_def)
    then show ?thesis using 2(2) [OF p] 1(11) [of px py] p assms(11,12) rd32_le32 [of _ "[]"] by (simp add: le32_rd32)
  qed
  then show ?thesis using 1(1) 2(1) by blast
qed

theorem conversion_roundtrip_witness:
  "\<exists>s1 s2. convertSurfaceFormat demo_env 1 2 PF_RGBA32 demo3 = (kIOReturnSuccess, (), s1) \<and> convertSurfaceFormat demo_env 2 3 PF_BGRA32 s1 = (kIOReturnSuccess, (), s2)"
  using conversion_roundtrip [OF demo_reach(3) _ demo_live(3), of 1 0 "demo_surface 1 0 1" 2 2 "demo_surface 2 2 2" 3 4 "demo_surface 3 4 3"]
  by (simp add: live_surface_def demo3_def demo_surface_def demo_fields) blast

end
