(* ===== verification/Surface_Sharing.thy ===== *)
theory Surface_Sharing
  imports Surface_Regions
begin

text \<open>
  The rest of \<^verbatim>\<open>VMIOSurfaceManager\<close> that keeps state: clients and their ids, sharing of surfaces with clients, eviction and
  compaction, and the memory pools. Kernel allocations ask \<open>ie_malloc\<close> one after the other. The array of clients, which is only
  counted, names and registration times are left out.
\<close>

section \<open>State\<close>

record ClientInfo =
  ci_client_id :: u32
  ci_process_id :: u32
  ci_access_rights :: u32
  ci_surface_count :: u32
  ci_active :: bool

record SurfaceSharing =
  sg_surface_id :: u32
  sg_owner_client_id :: u32
  sg_shared_client_id :: u32
  sg_sharing_mode :: u32
  sg_active :: bool

record MemoryPool =
  mp_size :: u32
  mp_allocated :: u32
  mp_free_blocks :: u32
  mp_active :: bool

text \<open>The collections are created on first use: \<open>None\<close> is the null pointer.\<close>

record share =
  sh_sm :: iosm
  sh_have_clients :: bool
  sh_client_map :: "(u32 \<Rightarrow> ClientInfo option) option"
  sh_next_client_id :: u32
  sh_released_ids :: "u32 list option"
  sh_shared :: "SurfaceSharing list option"
  sh_pools :: "MemoryPool list option"
  sh_tick :: nat

definition share_init :: "bool \<Rightarrow> share" where
  "share_init has_gpu = \<lparr>sh_sm = iosm_init has_gpu, sh_have_clients = False, sh_client_map = None, sh_next_client_id = 0,
     sh_released_ids = None, sh_shared = None, sh_pools = None, sh_tick = 0\<rparr>"

definition alloc :: "iosm_env \<Rightarrow> share \<Rightarrow> bool \<times> share" where
  "alloc e s = (ie_malloc e (sh_tick s), s\<lparr>sh_tick := sh_tick s + 1\<rparr>)"

section \<open>Clients\<close>

record client_descriptor =
  cd_process_id :: u32
  cd_access_rights :: u32

definition allocateClientId :: "share \<Rightarrow> u32 \<times> share" where
  "allocateClientId s =
     (case sh_released_ids s of
        None \<Rightarrow> (sh_next_client_id s + 1, s\<lparr>sh_next_client_id := sh_next_client_id s + 1\<rparr>)
      | Some l \<Rightarrow>
          if l \<noteq> [] then (last l, s\<lparr>sh_released_ids := Some (butlast l)\<rparr>)
          else (sh_next_client_id s + 1, s\<lparr>sh_next_client_id := sh_next_client_id s + 1\<rparr>))"

definition releaseClientId :: "iosm_env \<Rightarrow> u32 \<Rightarrow> share \<Rightarrow> share" where
  "releaseClientId e cid s =
     (if cid = 0 then s
      else case (case sh_released_ids s of
                   Some l \<Rightarrow> s
                 | None \<Rightarrow> (case alloc e s of (ok, s1) \<Rightarrow> if ok then s1\<lparr>sh_released_ids := Some []\<rparr> else s1)) of s2 \<Rightarrow>
        (case sh_released_ids s2 of
           None \<Rightarrow> s2
         | Some l \<Rightarrow> (case alloc e s2 of (ok, s3) \<Rightarrow> if ok then s3\<lparr>sh_released_ids := Some (l @ [cid])\<rparr> else s3)))"

definition findClient :: "u32 \<Rightarrow> share \<Rightarrow> ClientInfo option" where
  "findClient cid s = (if cid = 0 then None else case sh_client_map s of None \<Rightarrow> None | Some m \<Rightarrow> m cid)"

text \<open>The two collections of clients, made when they are missing; \<open>None\<close> when an allocation fails.\<close>

definition ensure_clients :: "iosm_env \<Rightarrow> share \<Rightarrow> bool \<times> share" where
  "ensure_clients e s =
     (case (if sh_have_clients s then (True, s)
            else case alloc e s of (ok, s1) \<Rightarrow> (ok, if ok then s1\<lparr>sh_have_clients := True\<rparr> else s1)) of
        (False, s1) \<Rightarrow> (False, s1)
      | (True, s1) \<Rightarrow>
          if sh_client_map s1 \<noteq> None then (True, s1)
          else case alloc e s1 of (ok, s2) \<Rightarrow> (ok, if ok then s2\<lparr>sh_client_map := Some Map.empty\<rparr> else s2))"

definition registerClient :: "iosm_env \<Rightarrow> client_descriptor option \<Rightarrow> share \<Rightarrow> io_return \<times> u32 \<times> share" where
  "registerClient e desc s =
     (case desc of
        None \<Rightarrow> (kIOReturnBadArgument, 0, s)
      | Some d \<Rightarrow>
          (case ensure_clients e s of
             (False, s1) \<Rightarrow> (kIOReturnNoMemory, 0, s1)
           | (True, s1) \<Rightarrow>
               (case allocateClientId s1 of (cid, s2) \<Rightarrow>
                case alloc e s2 of
                  (False, s3) \<Rightarrow> (kIOReturnNoMemory, cid, releaseClientId e cid s3)
                | (True, s3) \<Rightarrow>
                    (case alloc e s3 of
                       (False, s4) \<Rightarrow> (kIOReturnNoMemory, cid, releaseClientId e cid s4)
                     | (True, s4) \<Rightarrow>
                         (kIOReturnSuccess, cid,
                          s4\<lparr>sh_client_map := map_option (\<lambda>m. m(cid \<mapsto> \<lparr>ci_client_id = cid, ci_process_id = cd_process_id d,
                                ci_access_rights = cd_access_rights d, ci_surface_count = 0, ci_active = True\<rparr>)) (sh_client_map s4)\<rparr>)))))"

text \<open>
  The entry is read once more for a log line after it was taken out of both collections, which held its only references:
  removal ends in a use of released memory.
\<close>

definition unregisterClient :: "iosm_env \<Rightarrow> u32 \<Rightarrow> share \<Rightarrow> io_return \<times> share" where
  "unregisterClient e cid s =
     (if cid = 0 then (kIOReturnBadArgument, s)
      else case sh_client_map s of
             None \<Rightarrow> (kIOReturnNotFound, s)
           | Some m \<Rightarrow>
               (case m cid of
                  None \<Rightarrow> (kIOReturnNotFound, s)
                | Some c \<Rightarrow>
                    if ci_surface_count c > 0 then (kIOReturnSuccess, s\<lparr>sh_client_map := Some (m(cid \<mapsto> c\<lparr>ci_active := False\<rparr>))\<rparr>)
                    else (Kernel_panic, releaseClientId e cid (s\<lparr>sh_client_map := Some (m(cid := None))\<rparr>))))"

definition getClientDescriptor :: "u32 \<Rightarrow> share \<Rightarrow> io_return \<times> ClientInfo option" where
  "getClientDescriptor cid s =
     (if cid = 0 then (kIOReturnBadArgument, None)
      else case findClient cid s of
             None \<Rightarrow> (kIOReturnNotFound, None)
           | Some c \<Rightarrow> if ci_active c then (kIOReturnSuccess, Some c) else (kIOReturnNotFound, None))"

definition setClientAccessRights :: "u32 \<Rightarrow> u32 \<Rightarrow> share \<Rightarrow> io_return \<times> share" where
  "setClientAccessRights cid rights s =
     (if cid = 0 then (kIOReturnBadArgument, s)
      else case findClient cid s of
             None \<Rightarrow> (kIOReturnNotFound, s)
           | Some c \<Rightarrow>
               if ci_active c
               then (kIOReturnSuccess, s\<lparr>sh_client_map := map_option (\<lambda>m. m(cid \<mapsto> c\<lparr>ci_access_rights := rights\<rparr>)) (sh_client_map s)\<rparr>)
               else (kIOReturnNotFound, s))"

section \<open>Sharing\<close>

text \<open>\<open>sd_allowed\<close> are the first \<^verbatim>\<open>client_count\<close> allowed clients, \<open>None\<close> when the pointer is null.\<close>

record sharing_descriptor =
  sd_surface_id :: u32
  sd_sharing_mode :: u32
  sd_allowed :: "u32 list option"

fun share_loop :: "iosm_env \<Rightarrow> u32 \<Rightarrow> u32 \<Rightarrow> u32 list \<Rightarrow> share \<Rightarrow> share" where
  "share_loop e sid mode [] s = s"
| "share_loop e sid mode (cid # cids) s =
     (if findClient cid s = None then share_loop e sid mode cids s
      else case alloc e s of
             (False, s1) \<Rightarrow> share_loop e sid mode cids s1
           | (True, s1) \<Rightarrow>
               (case alloc e s1 of
                  (False, s2) \<Rightarrow> share_loop e sid mode cids s2
                | (True, s2) \<Rightarrow> share_loop e sid mode cids
                    (s2\<lparr>sh_shared := map_option (\<lambda>l. l @ [\<lparr>sg_surface_id = sid, sg_owner_client_id = 0, sg_shared_client_id = cid,
                          sg_sharing_mode = mode, sg_active = True\<rparr>]) (sh_shared s2)\<rparr>)))"

definition find_in :: "iosm_env \<Rightarrow> u32 \<Rightarrow> share \<Rightarrow> nat option \<times> share" where
  "find_in e sid s = (case findSurface e sid (sh_sm s) of (r, sm) \<Rightarrow> (r, s\<lparr>sh_sm := sm\<rparr>))"

definition shareSurface :: "iosm_env \<Rightarrow> u32 \<Rightarrow> sharing_descriptor option \<Rightarrow> share \<Rightarrow> io_return \<times> share" where
  "shareSurface e sid desc s =
     (case desc of
        None \<Rightarrow> (kIOReturnBadArgument, s)
      | Some d \<Rightarrow>
          if sid = 0 \<or> sd_surface_id d \<noteq> sid then (kIOReturnBadArgument, s)
          else case find_in e sid s of
                 (None, s1) \<Rightarrow> (kIOReturnNotFound, s1)
               | (Some _, s1) \<Rightarrow>
                   (case (if sh_shared s1 \<noteq> None then (True, s1)
                          else case alloc e s1 of (ok, s2) \<Rightarrow> (ok, if ok then s2\<lparr>sh_shared := Some []\<rparr> else s2)) of
                      (False, s2) \<Rightarrow> (kIOReturnNoMemory, s2)
                    | (True, s2) \<Rightarrow>
                        (kIOReturnSuccess,
                         case sd_allowed d of None \<Rightarrow> s2 | Some cids \<Rightarrow> share_loop e sid (sd_sharing_mode d) cids s2)))"

definition grants :: "u32 \<Rightarrow> u32 \<Rightarrow> SurfaceSharing \<Rightarrow> bool" where
  "grants sid cid g \<longleftrightarrow> sg_surface_id g = sid \<and> (sg_owner_client_id g = cid \<or> sg_shared_client_id g = cid) \<and> sg_active g"

text \<open>The first matching entry is made inactive.\<close>

fun unshare_first :: "u32 \<Rightarrow> u32 \<Rightarrow> SurfaceSharing list \<Rightarrow> SurfaceSharing list option" where
  "unshare_first sid cid [] = None"
| "unshare_first sid cid (g # gs) =
     (if grants sid cid g then Some (g\<lparr>sg_active := False\<rparr> # gs) else map_option ((#) g) (unshare_first sid cid gs))"

definition unshareSurface :: "u32 \<Rightarrow> u32 \<Rightarrow> share \<Rightarrow> io_return \<times> share" where
  "unshareSurface sid cid s =
     (if sid = 0 \<or> cid = 0 then (kIOReturnBadArgument, s)
      else case sh_shared s of
             None \<Rightarrow> (kIOReturnNotFound, s)
           | Some l \<Rightarrow> (case unshare_first sid cid l of
                          None \<Rightarrow> (kIOReturnNotFound, s)
                        | Some l' \<Rightarrow> (kIOReturnSuccess, s\<lparr>sh_shared := Some l'\<rparr>)))"

text \<open>\<open>room\<close> is the size of the caller's array, \<open>None\<close> without one; the count returned is not limited by it.\<close>

definition getSurfaceClients :: "u32 \<Rightarrow> u32 option \<Rightarrow> share \<Rightarrow> io_return \<times> u32 list \<times> u32" where
  "getSurfaceClients sid room s =
     (if sid = 0 then (kIOReturnBadArgument, [], 0)
      else let found = map sg_shared_client_id
                 (filter (\<lambda>g. sg_active g \<and> sg_surface_id g = sid) (case sh_shared s of None \<Rightarrow> [] | Some l \<Rightarrow> l))
           in (kIOReturnSuccess, (case room of None \<Rightarrow> [] | Some k \<Rightarrow> take (unat k) found), word_of_nat (length found)))"

definition canClientAccessSurface :: "iosm_env \<Rightarrow> u32 \<Rightarrow> u32 \<Rightarrow> share \<Rightarrow> bool \<times> share" where
  "canClientAccessSurface e cid sid s =
     (if cid = 0 \<or> sid = 0 then (False, s)
      else if findClient cid s = None then (False, s)
      else case find_in e sid s of
             (None, s1) \<Rightarrow> (False, s1)
           | (Some _, s1) \<Rightarrow>
               (case sh_shared s1 of None \<Rightarrow> False | Some l \<Rightarrow> list_ex (grants sid cid) l, s1))"

section \<open>Eviction and compaction\<close>

definition evictUnusedSurfaces :: "iosm_env \<Rightarrow> u32 \<Rightarrow> share \<Rightarrow> io_return \<times> u32 \<times> share" where
  "evictUnusedSurfaces e limit s =
     (if sm_list (sh_sm s) = [] then (kIOReturnSuccess, 0, s)
      else case alloc e s of
             (False, s1) \<Rightarrow> (kIOReturnNoMemory, 0, s1)
           | (True, s1) \<Rightarrow>
               (case alloc e s1 of
                  (False, s2) \<Rightarrow> (kIOReturnNoMemory, 0, s2)
                | (True, s2) \<Rightarrow>
                    (case evict_surfaces e limit (sh_sm s2) of (n, sm) \<Rightarrow> (kIOReturnSuccess, n, s2\<lparr>sh_sm := sm\<rparr>))))"

definition shouldEvictSurface :: "iosm_env \<Rightarrow> u32 \<Rightarrow> iosm \<Rightarrow> (io_return + bool) \<times> iosm" where
  "shouldEvictSurface e sid s =
     (case findSurface e sid s of
        (None, s1) \<Rightarrow> (Inr False, s1)
      | (Some ob, s1) \<Rightarrow>
          (case sm_objs s1 ob of
             None \<Rightarrow> (Inl Kernel_panic, s1)
           | Some x \<Rightarrow>
               (Inr (\<not> (vs_is_locked x \<or> vs_lock_count x > 0) \<and> \<not> vs_ref_count x > 1
                     \<and> ie_clock e (sm_tick s1) - vs_last_access_time x > 10 * 1000000000), s1)))"

section \<open>The surface lock\<close>

text \<open>
  \<^verbatim>\<open>m_surface_lock\<close> is allocated with \<^verbatim>\<open>IOLockAlloc\<close>, so it is not recursive: a thread that takes it while it holds it waits for
  itself. The operations above run with the lock taken at their start and given back on every exit; they call nothing that
  takes it, and the lock is left out of them. It is modelled here, for the two operations that call one of them while
  they hold it. \<open>mg_held\<close> says that the calling thread holds the lock; \<open>None\<close> is a call that never returns.
\<close>

record mgr =
  mg_sm :: iosm
  mg_held :: bool

definition unlocked :: "iosm \<Rightarrow> mgr" where
  "unlocked s = \<lparr>mg_sm = s, mg_held = False\<rparr>"

definition IOLockLock :: "mgr \<Rightarrow> mgr option" where
  "IOLockLock m = (if mg_held m then None else Some (m\<lparr>mg_held := True\<rparr>))"

definition IOLockUnlock :: "mgr \<Rightarrow> mgr" where
  "IOLockUnlock m = m\<lparr>mg_held := False\<rparr>"

definition with_lock :: "(iosm \<Rightarrow> 'r \<times> iosm) \<Rightarrow> mgr \<Rightarrow> ('r \<times> mgr) option" where
  "with_lock body m =
     (case IOLockLock m of
        None \<Rightarrow> None
      | Some m1 \<Rightarrow> (case body (mg_sm m1) of (r, s) \<Rightarrow> Some (r, IOLockUnlock (m1\<lparr>mg_sm := s\<rparr>))))"

definition destroySurface_locked :: "iosm_env \<Rightarrow> u32 \<Rightarrow> mgr \<Rightarrow> (io_return \<times> mgr) option" where
  "destroySurface_locked e sid m =
     (if sid = 0 then Some (kIOReturnBadArgument, m) else with_lock (ios_destroySurface e sid) m)"

text \<open>\<^verbatim>\<open>createSurface\<close> checks the format and the sides before it takes the lock.\<close>

definition createSurface_locked :: "iosm_env \<Rightarrow> VMIOSurfaceDescriptor option \<Rightarrow> mgr \<Rightarrow> ((io_return \<times> u32) \<times> mgr) option" where
  "createSurface_locked e desc m =
     (case desc of
        None \<Rightarrow> Some ((kIOReturnBadArgument, 0), m)
      | Some d \<Rightarrow>
          let valid = validatePixelFormat (sm_supports_yuv (mg_sm m)) (sd_pixel_format d) in
          if valid \<noteq> kIOReturnSuccess then Some ((valid, 0), m)
          else if sd_width d = 0 \<or> sd_height d = 0 \<or> sd_width d > 16384 \<or> sd_height d > 16384 then Some ((kIOReturnBadArgument, 0), m)
          else with_lock (\<lambda>s. case ios_createSurface e desc s of (r, sid, s') \<Rightarrow> ((r, sid), s')) m)"

text \<open>
  \<^verbatim>\<open>compactSurfaceMemory\<close> visits the array from its end, index by index, and calls \<^verbatim>\<open>destroySurface\<close> on what it wants to evict.
  The code of that call is not looked at.
\<close>

fun compact_loop :: "iosm_env \<Rightarrow> nat \<Rightarrow> mgr \<Rightarrow> (io_return \<times> mgr) option" where
  "compact_loop e 0 m = Some (kIOReturnSuccess, m)"
| "compact_loop e (Suc i) m =
     (if i \<ge> length (sm_list (mg_sm m)) then compact_loop e i m
      else case sm_objs (mg_sm m) (sm_list (mg_sm m) ! i) of
        None \<Rightarrow> Some (Kernel_panic, m)
      | Some x \<Rightarrow>
          (case shouldEvictSurface e (vs_surface_id x) (mg_sm m) of
             (Inl r, s1) \<Rightarrow> Some (r, m\<lparr>mg_sm := s1\<rparr>)
           | (Inr evict, s1) \<Rightarrow>
               if evict \<and> vs_lock_count x = 0 \<and> vs_ref_count x \<le> 1
               then (case destroySurface_locked e (vs_surface_id x) (m\<lparr>mg_sm := s1\<rparr>) of
                       None \<Rightarrow> None
                     | Some (r, m1) \<Rightarrow> compact_loop e i m1)
               else compact_loop e i (m\<lparr>mg_sm := s1\<rparr>)))"

definition compactSurfaceMemory :: "iosm_env \<Rightarrow> mgr \<Rightarrow> (io_return \<times> mgr) option" where
  "compactSurfaceMemory e m =
     (case IOLockLock m of
        None \<Rightarrow> None
      | Some m1 \<Rightarrow>
          (case compact_loop e (length (sm_list (mg_sm m1))) m1 of
             None \<Rightarrow> None
           | Some (r, m2) \<Rightarrow> Some (r, IOLockUnlock m2)))"

text \<open>
  Video surfaces, which the set-up always enables: formats, then the surface under the lock. \<open>register\<close> is the book-keeping after it, the list of video surfaces
  with its allocations; it is reached only when the surface was created.
\<close>

definition validateVideoPixelFormat :: "bool \<Rightarrow> u32 \<Rightarrow> u32 \<Rightarrow> io_return" where
  "validateVideoPixelFormat supports_yuv f codec =
     (if f \<in> {0x79757634, 0x79757632, 0x79757620, 0x42475241, 0x52474241} then kIOReturnSuccess
      else if f \<in> {0x61766331, 0x48323634} then (if codec AND 0xFFFF = 0x264 then kIOReturnSuccess else kIOReturnBadArgument)
      else if f \<in> {0x68766331, 0x48323635} then (if codec AND 0xFFFF = 0x265 then kIOReturnSuccess else kIOReturnBadArgument)
      else validatePixelFormat supports_yuv f)"

definition createVideoSurface ::
  "(u32 \<Rightarrow> mgr \<Rightarrow> (io_return \<times> mgr) option) \<Rightarrow> iosm_env \<Rightarrow> VMIOSurfaceDescriptor option \<Rightarrow> u32 \<Rightarrow> mgr \<Rightarrow> (io_return \<times> mgr) option" where
  "createVideoSurface register e desc codec m =
     (case desc of
        None \<Rightarrow> Some (kIOReturnBadArgument, m)
      | Some d \<Rightarrow>
          (case IOLockLock m of
             None \<Rightarrow> None
           | Some m1 \<Rightarrow>
               let valid = validateVideoPixelFormat (sm_supports_yuv (mg_sm m1)) (sd_pixel_format d) codec;
                   flags = sd_usage_flags d OR 0x20 OR (if codec AND 0x80000000 \<noteq> 0 then 0x40 else 0)
               in if valid \<noteq> kIOReturnSuccess then Some (valid, IOLockUnlock m1)
                  else case createSurface_locked e (Some (d\<lparr>sd_usage_flags := flags\<rparr>)) m1 of
                         None \<Rightarrow> None
                       | Some ((r, sid), m2) \<Rightarrow>
                           if r \<noteq> kIOReturnSuccess then Some (r, IOLockUnlock m2)
                           else (case register sid m2 of None \<Rightarrow> None | Some (r2, m3) \<Rightarrow> Some (r2, IOLockUnlock m3))))"

section \<open>Memory pools\<close>

definition createMemoryPool :: "iosm_env \<Rightarrow> u32 \<Rightarrow> share \<Rightarrow> io_return \<times> u32 \<times> share" where
  "createMemoryPool e sz s =
     (if sz = 0 then (kIOReturnBadArgument, 0, s)
      else case sh_pools s of
             None \<Rightarrow> (kIOReturnNotReady, 0, s)
           | Some l \<Rightarrow>
               (case alloc e s of
                  (False, s1) \<Rightarrow> (kIOReturnNoMemory, 0, s1)
                | (True, s1) \<Rightarrow>
                    (case alloc e s1 of
                       (False, s2) \<Rightarrow> (kIOReturnNoMemory, 0, s2)
                     | (True, s2) \<Rightarrow>
                         (kIOReturnSuccess, word_of_nat (length l),
                          s2\<lparr>sh_pools := Some (l @ [\<lparr>mp_size = sz, mp_allocated = 0, mp_free_blocks = 1, mp_active = True\<rparr>])\<rparr>))))"

fun create_pools :: "iosm_env \<Rightarrow> u32 list \<Rightarrow> share \<Rightarrow> io_return \<times> share" where
  "create_pools e [] s = (kIOReturnSuccess, s)"
| "create_pools e (z # zs) s =
     (case createMemoryPool e z s of (r, _, s1) \<Rightarrow> if r = kIOReturnSuccess then create_pools e zs s1 else (r, s1))"

definition configureMemoryPools :: "iosm_env \<Rightarrow> share \<Rightarrow> io_return \<times> share" where
  "configureMemoryPools e s =
     (case alloc e s of
        (False, s1) \<Rightarrow> (kIOReturnNoMemory, s1\<lparr>sh_pools := None\<rparr>)
      | (True, s1) \<Rightarrow> create_pools e [0x100000, 0x400000, 0x20000000, 0x4000000] (s1\<lparr>sh_pools := Some []\<rparr>))"

fun best_pool :: "u32 \<Rightarrow> MemoryPool list \<Rightarrow> nat \<Rightarrow> nat option \<times> u32 \<Rightarrow> nat option" where
  "best_pool sz [] i (best, best_size) = best"
| "best_pool sz (p # ps) i (best, best_size) =
     (if mp_active p \<and> mp_size p - mp_allocated p \<ge> sz \<and> mp_size p < best_size then best_pool sz ps (i + 1) (Some i, mp_size p)
      else best_pool sz ps (i + 1) (best, best_size))"

definition findBestMemoryPool :: "u32 \<Rightarrow> share \<Rightarrow> io_return \<times> nat" where
  "findBestMemoryPool sz s =
     (if sz = 0 then (kIOReturnBadArgument, 0)
      else case sh_pools s of
             None \<Rightarrow> (kIOReturnNotFound, 0)
           | Some l \<Rightarrow>
               if l = [] then (kIOReturnNotFound, 0)
               else (case best_pool sz l 0 (None, 0xFFFFFFFF) of None \<Rightarrow> (kIOReturnNoSpace, 0) | Some i \<Rightarrow> (kIOReturnSuccess, i)))"

section \<open>The best pool\<close>

definition pool_fits :: "u32 \<Rightarrow> MemoryPool \<Rightarrow> bool" where
  "pool_fits sz p \<longleftrightarrow> mp_active p \<and> mp_size p - mp_allocated p \<ge> sz"

lemma best_pool_spec:
  assumes "best_pool sz ps i (best, m) = r"
  shows "r = best \<and> (\<forall>p \<in> set ps. pool_fits sz p \<longrightarrow> m \<le> mp_size p)
    \<or> (\<exists>k < length ps. r = Some (i + k) \<and> pool_fits sz (ps ! k) \<and> mp_size (ps ! k) < m
         \<and> (\<forall>p \<in> set ps. pool_fits sz p \<longrightarrow> mp_size (ps ! k) \<le> mp_size p))"
  using assms
proof (induction ps arbitrary: i best m)
  case (Cons p ps)
  show ?case
  proof (cases "pool_fits sz p \<and> mp_size p < m")
    case True
    then have "best_pool sz ps (i + 1) (Some i, mp_size p) = r" using Cons.prems by (simp add: pool_fits_def)
    from Cons.IH [OF this] show ?thesis
    proof (elim disjE exE conjE)
      assume "r = Some i" "\<forall>q \<in> set ps. pool_fits sz q \<longrightarrow> mp_size p \<le> mp_size q"
      then show ?thesis using True by (intro disjI2 exI [of _ 0]) auto
    next
      fix k assume "k < length ps" "r = Some (i + 1 + k)" "pool_fits sz (ps ! k)" "mp_size (ps ! k) < mp_size p"
        "\<forall>q \<in> set ps. pool_fits sz q \<longrightarrow> mp_size (ps ! k) \<le> mp_size q"
      then show ?thesis using True by (intro disjI2 exI [of _ "Suc k"]) auto
    qed
  next
    case False
    then have "best_pool sz ps (i + 1) (best, m) = r" using Cons.prems by (auto simp: pool_fits_def split: if_splits)
    from Cons.IH [OF this] show ?thesis
    proof (elim disjE exE conjE)
      assume "r = best" "\<forall>q \<in> set ps. pool_fits sz q \<longrightarrow> m \<le> mp_size q"
      then show ?thesis using False by auto
    next
      fix k assume k: "k < length ps" "r = Some (i + 1 + k)" "pool_fits sz (ps ! k)" "mp_size (ps ! k) < m"
        "\<forall>q \<in> set ps. pool_fits sz q \<longrightarrow> mp_size (ps ! k) \<le> mp_size q"
      then have "mp_size (ps ! k) \<le> mp_size p" if "pool_fits sz p" using False that by auto
      then show ?thesis using k by (intro disjI2 exI [of _ "Suc k"]) auto
    qed
  qed
qed simp

text \<open>\<^verbatim>\<open>findBestMemoryPool\<close> on a non-empty table of pools smaller than 2^32 - 1 bytes and a positive size: it answers the index of an active
  pool with room, no larger than any other such pool, or that there is no space when there is no such pool.\<close>

theorem findBestMemoryPool_least:
  assumes "sh_pools s = Some l" "l \<noteq> []" "sz \<noteq> 0" "\<forall>p \<in> set l. mp_size p < 0xFFFFFFFF"
  shows "(case findBestMemoryPool sz s of (r, i) \<Rightarrow>
     if \<exists>p \<in> set l. pool_fits sz p
     then r = kIOReturnSuccess \<and> i < length l \<and> pool_fits sz (l ! i) \<and> (\<forall>p \<in> set l. pool_fits sz p \<longrightarrow> mp_size (l ! i) \<le> mp_size p)
     else r = kIOReturnNoSpace)"
  using best_pool_spec [OF refl, of sz l 0 None "0xFFFFFFFF"] assms
  by (auto simp: findBestMemoryPool_def leD split: option.splits)

theorem findBestMemoryPool_least_witness:
  "findBestMemoryPool 5000 ((share_init False)\<lparr>sh_pools := Some [\<lparr>mp_size = 8192, mp_allocated = 0, mp_free_blocks = 1, mp_active = True\<rparr>]\<rparr>) = (kIOReturnSuccess, 0)"
  using findBestMemoryPool_least [of "(share_init False)\<lparr>sh_pools := Some [\<lparr>mp_size = 8192, mp_allocated = 0, mp_free_blocks = 1, mp_active = True\<rparr>]\<rparr>" _ 5000]
  by (simp add: pool_fits_def split: prod.splits)

section \<open>What a lookup promises\<close>

text \<open>
  The contract of a lookup by id that may change its own bookkeeping: in a sound state it answers what the table holds and
  leaves the table and the soundness alone.
\<close>

locale object_finder =
  fixes find :: "u32 \<Rightarrow> 's \<Rightarrow> 'o option \<times> 's"
    and table :: "'s \<Rightarrow> u32 \<Rightarrow> 'o option"
    and sound :: "'s \<Rightarrow> bool"
  assumes find_table: "sound s \<Longrightarrow> fst (find k s) = table s k"
    and find_keeps: "table (snd (find k s)) = table s"
    and find_sound: "sound s \<Longrightarrow> sound (snd (find k s))"
begin

lemma find_after_find: "sound s \<Longrightarrow> fst (find k (snd (find j s))) = fst (find k s)"
  by (simp add: find_table find_keeps find_sound)

lemma find_none: "sound s \<Longrightarrow> find k s = (None, s') \<Longrightarrow> table s' k = None"
  by (metis find_keeps find_table fst_conv snd_conv)

lemma find_some: "sound s \<Longrightarrow> find k s = (Some ob, s') \<Longrightarrow> table s' k = Some ob"
  by (metis find_keeps find_table fst_conv snd_conv)

end

definition surface_sound :: "share \<Rightarrow> bool" where
  "surface_sound s \<longleftrightarrow> (\<exists>n < 2 ^ 31 - 1. sm_inv n (sh_sm s)) \<and> cache_live (sh_sm s)"

interpretation surfaces: object_finder "find_in e" "\<lambda>s. sm_map (sh_sm s)" surface_sound for e
proof
  fix s :: share and k
  obtain r sm where f: "findSurface e k (sh_sm s) = (r, sm)" by fastforce
  show "sm_map (sh_sm (snd (find_in e k s))) = sm_map (sh_sm s)" using findSurface_frame [OF f] by (auto simp: find_in_def f)
  show "fst (find_in e k s) = sm_map (sh_sm s) k" "surface_sound (snd (find_in e k s))" if so: "surface_sound s"
  proof -
    obtain n where n: "n < 2 ^ 31 - 1" "sm_inv n (sh_sm s)" "cache_live (sh_sm s)" using so by (auto simp: surface_sound_def)
    note l = findSurface_live [OF n(2,3,1) f]
    show "fst (find_in e k s) = sm_map (sh_sm s) k" using l(1) by (simp add: find_in_def f)
    show "surface_sound (snd (find_in e k s))" using findSurface_inv(1) [OF n(2) f] l(2) n(1) by (auto simp: find_in_def f surface_sound_def)
  qed
qed

interpretation clients: object_finder "\<lambda>k s. (findClient k s, s)" "\<lambda>s k. findClient k s" "\<lambda>_. True"
  by unfold_locales simp_all

text \<open>Who may access what: in a reachable state whose cache points to no destroyed surface, \<^verbatim>\<open>canClientAccessSurface\<close> answers yes exactly when the
  client is registered, the surface is in the table and an active sharing entry names both.\<close>

theorem canClientAccessSurface_iff:
  assumes "surface_reach e g n (sh_sm s)" "n < 2 ^ 30 - 1" "cache_live (sh_sm s)"
  shows "fst (canClientAccessSurface e cid sid s) \<longleftrightarrow>
     findClient cid s \<noteq> None \<and> sm_map (sh_sm s) sid \<noteq> None
     \<and> (\<exists>l. sh_shared s = Some l \<and> (\<exists>x \<in> set l. sg_active x \<and> sg_surface_id x = sid \<and> cid \<in> {sg_owner_client_id x, sg_shared_client_id x}))"
proof -
  have i: "sm_inv (2 * n) (sh_sm s)" using assms(1,2) by (intro surface_reach_inv) auto
  then have "surface_sound s" using assms(2,3) by (auto simp: surface_sound_def intro!: exI [of _ "2 * n"])
  note t = surfaces.find_table [OF this, of e sid]
  have z: "sm_map (sh_sm s) 0 = None" "findClient 0 s = None" using i by (auto simp: sm_inv_def ids_ok_def findClient_def)
  obtain r s1 where f: "find_in e sid s = (r, s1)" by fastforce
  then have "sh_shared s1 = sh_shared s" by (auto simp: find_in_def split: prod.splits)
  then show ?thesis using z t f
    by (cases "cid = 0 \<or> sid = 0") (auto simp: canClientAccessSurface_def grants_def list_ex_iff split: option.splits)
qed

definition demo_sharing :: SurfaceSharing where
  "demo_sharing = \<lparr>sg_surface_id = 1, sg_owner_client_id = 0, sg_shared_client_id = 5, sg_sharing_mode = 0, sg_active = True\<rparr>"

definition demo_share :: share where
  "demo_share = (share_init False)\<lparr>sh_sm := demo1, sh_shared := Some [demo_sharing],
     sh_client_map := Some [5 \<mapsto> \<lparr>ci_client_id = 5, ci_process_id = 1, ci_access_rights = 0, ci_surface_count = 0, ci_active = True\<rparr>]\<rparr>"

lemma demo_share_simps:
  "sh_sm demo_share = demo1" "sh_shared demo_share = Some [demo_sharing]" "findClient 5 demo_share \<noteq> None" "findClient 6 demo_share = None"
  by (simp_all add: demo_share_def findClient_def)

theorem canClientAccessSurface_iff_witness:
  "fst (canClientAccessSurface demo_env 5 1 demo_share) \<and> \<not> fst (canClientAccessSurface demo_env 6 1 demo_share)
   \<and> \<not> fst (canClientAccessSurface demo_env 5 2 demo_share)"
proof -
  note iff = canClientAccessSurface_iff [of demo_env False 1 demo_share, unfolded demo_share_simps, OF demo_reach(1) _ demo_live(1)]
  show ?thesis using iff [of 5 1] iff [of 6 1] iff [of 5 2] by (simp add: demo_share_simps demo_sharing_def demo1_def)
qed

section \<open>Sharing outlives the surface\<close>

text \<open>Access survives destruction. When a client has been granted a surface and the surface is destroyed, \<^verbatim>\<open>canClientAccessSurface\<close> still
  says yes for the id: the lookup answers from the discovery cache and the sharing entry is never withdrawn.\<close>

theorem destroyed_surface_still_shared:
  assumes "surface_reach e g n (sh_sm s)" "n < 2 ^ 30" "ios_destroySurface e sid (sh_sm s) = (kIOReturnSuccess, sm')"
    and "findClient cid s \<noteq> None" "sh_shared s = Some l" "\<exists>x \<in> set l. grants sid cid x"
  shows "fst (canClientAccessSurface e cid sid (s\<lparr>sh_sm := sm'\<rparr>))"
proof -
  have i: "sm_inv (2 * n) (sh_sm s)" using assms(1,2) by (rule surface_reach_inv)
  obtain ob where ob: "\<And>s2. sm_cache s2 = sm_cache sm' \<Longrightarrow> fst (findSurface e sid s2) = Some ob" using destroyed_dangles [OF i assms(3)] by metis
  have "sid \<noteq> 0" using assms(3) by (auto simp: ios_destroySurface_def)
  moreover have "cid \<noteq> 0" "findClient cid (s\<lparr>sh_sm := sm'\<rparr>) \<noteq> None" using assms(4) by (auto simp: findClient_def split: if_splits)
  moreover obtain s2 where "findSurface e sid sm' = (Some ob, s2)" using ob [of sm'] by (cases "findSurface e sid sm'") auto
  ultimately show ?thesis using assms(5,6) by (simp add: canClientAccessSurface_def find_in_def list_ex_iff)
qed

theorem destroyed_surface_still_shared_witness:
  "fst (canClientAccessSurface demo_env 5 1 (demo_share\<lparr>sh_sm := snd (ios_destroySurface demo_env 1 demo1)\<rparr>))"
proof -
  have a1: "surface_reach demo_env False 1 (sh_sm demo_share)" unfolding demo_share_simps by (rule demo_reach(1))
  have a2: "ios_destroySurface demo_env 1 (sh_sm demo_share) = (kIOReturnSuccess, snd (ios_destroySurface demo_env 1 demo1))"
    unfolding demo_share_simps by (rule demo_destroy(1))
  have b: "\<exists>x \<in> set [demo_sharing]. grants 1 5 x" by (simp add: grants_def demo_sharing_def)
  show ?thesis by (rule destroyed_surface_still_shared [OF a1 _ a2 demo_share_simps(3,2) b]) simp
qed

text \<open>A client that was granted a surface twice keeps it after one \<^verbatim>\<open>unshareSurface\<close>.\<close>

lemma unshare_first_spec:
  "unshare_first sid cid l = Some l' \<Longrightarrow> length (filter (grants sid cid) l) = Suc (length (filter (grants sid cid) l'))"
proof (induction l arbitrary: l')
  case (Cons g l)
  then show ?case by (cases "grants sid cid g") (auto simp: grants_def)
qed simp

section \<open>Eviction frees nothing\<close>

lemma evict_loop_frame:
  "evict_loop obs objs n freed = (objs', n', freed') \<Longrightarrow> dom objs' = dom objs
    \<and> (\<forall>ob x. objs ob = Some x \<longrightarrow> (\<exists>t. objs' ob = Some (x\<lparr>vs_last_access_time := t\<rparr>)))"
proof (induction obs arbitrary: objs n freed)
  case Nil
  have "\<exists>t. x = x\<lparr>vs_last_access_time := t\<rparr>" for x :: VMIOSurface by (rule exI [of _ "vs_last_access_time x"]) simp
  then show ?case using Nil by auto
next
  case (Cons ob obs)
  show ?case
  proof (cases "objs ob = None \<or> vs_is_locked (the (objs ob)) \<or> vs_lock_count (the (objs ob)) > 0")
    case True
    then show ?thesis using Cons by (auto split: option.splits if_splits)
  next
    case False
    then obtain x where x: "objs ob = Some x" "\<not> (vs_is_locked x \<or> vs_lock_count x > 0)" by auto
    let ?objs = "objs(ob \<mapsto> x\<lparr>vs_last_access_time := 0\<rparr>)"
    have e: "evict_loop obs ?objs (n + 1) (freed + ucast (vs_memory_size x)) = (objs', n', freed')" using Cons.prems x by simp
    note ih = Cons.IH [OF e]
    have "\<exists>t. objs' o2 = Some (y\<lparr>vs_last_access_time := t\<rparr>)" if "objs o2 = Some y" for o2 y
    proof (cases "o2 = ob")
      case True
      then obtain t where "objs' ob = Some (x\<lparr>vs_last_access_time := 0\<rparr>\<lparr>vs_last_access_time := t\<rparr>)"
        using ih [THEN conjunct2, rule_format, of ob "x\<lparr>vs_last_access_time := 0\<rparr>"] by auto
      then show ?thesis using True that x by auto
    qed (use ih that in auto)
    moreover have "dom ?objs = dom objs" using x(1) by auto
    ultimately show ?thesis using ih by blast
  qed
qed

lemma evict_loop_sum:
  assumes "distinct obs" "\<And>ob. ob \<in> set obs \<Longrightarrow> \<exists>x. objs ob = Some x \<and> \<not> vs_is_locked x \<and> vs_lock_count x = 0"
  shows "snd (evict_loop obs objs n freed) = (n + word_of_nat (length obs), freed + (\<Sum>ob\<leftarrow>obs. word_of_nat (surface_bytes objs ob)))"
  using assms
proof (induction obs arbitrary: objs n freed)
  case (Cons ob obs)
  obtain x where x: "objs ob = Some x" "\<not> vs_is_locked x" "vs_lock_count x = 0" using Cons.prems(2) [of ob] by auto
  let ?objs = "objs(ob \<mapsto> x\<lparr>vs_last_access_time := 0\<rparr>)"
  have "snd (evict_loop obs ?objs (n + 1) (freed + ucast (vs_memory_size x))) = (n + 1 + word_of_nat (length obs),
      freed + ucast (vs_memory_size x) + (\<Sum>ob\<leftarrow>obs. word_of_nat (surface_bytes ?objs ob)))"
    using Cons.prems by (intro Cons.IH) auto
  moreover have "(\<Sum>k\<leftarrow>obs. word_of_nat (surface_bytes ?objs k)) = ((\<Sum>k\<leftarrow>obs. word_of_nat (surface_bytes objs k)) :: u64)"
    using Cons.prems(1) by (intro arg_cong [where f = sum_list] map_cong) (auto simp: surface_bytes_def)
  moreover have "(word_of_nat (surface_bytes objs ob) :: u64) = ucast (vs_memory_size x)" using x(1) by (simp add: surface_bytes_def)
  ultimately show ?case using x by (simp add: add.assoc)
qed simp

lemma unat_sum_words: "(\<Sum>k\<leftarrow>ks. f k) < 2 ^ 64 \<Longrightarrow> unat (\<Sum>k\<leftarrow>ks. (word_of_nat (f k) :: u64)) = (\<Sum>k\<leftarrow>ks. f k)"
  by (induction ks) (simp_all add: unat_word_ariths unat_of_nat)

lemma sum_list_sublist: "distinct ks \<Longrightarrow> distinct ls \<Longrightarrow> set ks \<subseteq> set ls \<Longrightarrow> (\<Sum>k\<leftarrow>ks. f k) \<le> (\<Sum>k\<leftarrow>ls. f k :: nat)"
  by (simp only: sum_list_distinct_conv_sum_set) (rule sum_mono2, simp_all)

lemma evict_loop_bytes:
  assumes "evict_loop obs objs n freed = (objs', n', freed')"
  shows "surface_bytes objs' = surface_bytes objs"
proof
  fix ob
  note fr = evict_loop_frame [OF assms]
  show "surface_bytes objs' ob = surface_bytes objs ob"
  proof (cases "objs ob")
    case None
    then have "objs' ob = None" using fr by (metis domIff)
    then show ?thesis using None by (simp add: surface_bytes_def)
  next
    case (Some x)
    then obtain t where "objs' ob = Some (x\<lparr>vs_last_access_time := t\<rparr>)" using fr by blast
    then show ?thesis using Some by (simp add: surface_bytes_def)
  qed
qed

text \<open>What an eviction that took something did: the surfaces \<open>todo\<close> are marked, and their sizes are taken off the account.\<close>

lemma evict_cases:
  assumes "distinct (sm_list (sh_sm s))" "evictUnusedSurfaces e limit s = (kIOReturnSuccess, k, s')" "k \<noteq> 0"
  obtains todo objs where "todo \<noteq> []" "distinct todo" "set todo \<subseteq> set (sm_list (sh_sm s))"
    "dom objs = dom (sm_objs (sh_sm s))" "surface_bytes objs = surface_bytes (sm_objs (sh_sm s))"
    "sh_sm s' = (sh_sm s)\<lparr>sm_objs := objs, sm_tick := sm_tick (sh_sm s) + 1,
       sm_allocated_memory := sm_allocated_memory (sh_sm s) - (\<Sum>ob\<leftarrow>todo. word_of_nat (surface_bytes (sm_objs (sh_sm s)) ob)),
       sm_evicted := sm_evicted (sh_sm s) + unat (\<Sum>ob\<leftarrow>todo. word_of_nat (surface_bytes (sm_objs (sh_sm s)) ob) :: u64)\<rparr>"
proof -
  let ?sm = "sh_sm s"
  let ?c = "filter (\<lambda>ob. case sm_objs ?sm ob of None \<Rightarrow> False | Some x \<Rightarrow> evictable (ie_clock e (Suc (sm_tick ?sm))) x) (sm_list ?sm)"
  let ?todo = "if limit = 0 then ?c else take (unat limit) ?c"
  obtain objs m freed where ev: "evict_loop ?todo (sm_objs ?sm) 0 0 = (objs, m, freed)" by (metis prod_cases3)
  have d: "distinct ?todo" "set ?todo \<subseteq> set (sm_list ?sm)" using assms(1) by (auto simp: distinct_take dest: in_set_takeD)
  have "\<exists>x. sm_objs ?sm ob = Some x \<and> \<not> vs_is_locked x \<and> vs_lock_count x = 0" if "ob \<in> set ?todo" for ob
    using that by (auto simp: evictable_def split: option.splits if_splits dest!: in_set_takeD)
  then have su: "m = word_of_nat (length ?todo)" "freed = (\<Sum>ob\<leftarrow>?todo. word_of_nat (surface_bytes (sm_objs ?sm) ob))"
    using evict_loop_sum [OF d(1), of "sm_objs ?sm" 0 0] ev by auto
  have l: "sm_list ?sm \<noteq> []" using assms(2,3) by (auto simp: evictUnusedSurfaces_def)
  have ok: "ie_malloc e (sh_tick s)"
    by (rule ccontr) (use assms(2) l in \<open>simp add: evictUnusedSurfaces_def alloc_def\<close>)
  have ok2: "ie_malloc e (Suc (sh_tick s))"
    by (rule ccontr) (use assms(2) l ok in \<open>simp add: evictUnusedSurfaces_def alloc_def\<close>)
  have r: "k = m \<and> sh_sm s' = ?sm\<lparr>sm_objs := objs, sm_allocated_memory := sm_allocated_memory ?sm - freed,
      sm_evicted := sm_evicted ?sm + unat freed, sm_tick := sm_tick ?sm + 1\<rparr>"
    using assms(2) l ok ok2 ev by (simp add: evictUnusedSurfaces_def evict_surfaces_def alloc_def Let_def) (elim conjE, hypsubst, simp)
  have "?todo \<noteq> []" using r su(1) assms(3) by force
  then show thesis
    by (rule that [of ?todo objs]) (use d r su(2) evict_loop_frame [OF ev] evict_loop_bytes [OF ev] in simp_all)
qed

text \<open>After the first eviction of at least one surface the books are wrong: every surface is still there with its memory, but the accounted
  memory is less than what the surfaces occupy, so that the 512 MB limit no longer binds.\<close>

theorem eviction_unbalances_accounts:
  assumes "surface_reach e g n (sh_sm s)" "n < 2 ^ 30" "evictUnusedSurfaces e limit s = (kIOReturnSuccess, k, s')" "k \<noteq> 0"
    "sm_evicted (sh_sm s) = 0"
  shows "sm_map (sh_sm s') = sm_map (sh_sm s) \<and> sm_mem (sh_sm s') = sm_mem (sh_sm s) \<and> dom (sm_objs (sh_sm s')) = dom (sm_objs (sh_sm s))
    \<and> unat (sm_allocated_memory (sh_sm s')) < sum_list (map (surface_bytes (sm_objs (sh_sm s'))) (sm_list (sh_sm s')))"
proof -
  have i: "sm_inv (2 * n) (sh_sm s)" using assms(1,2) by (rule surface_reach_inv)
  let ?sz = "surface_bytes (sm_objs (sh_sm s))"
  have l: "distinct (sm_list (sh_sm s))" "set (sm_list (sh_sm s)) = dom (sm_objs (sh_sm s))" using i by (auto simp: sm_inv_def table_ok_def)
  obtain todo objs where t: "todo \<noteq> []" "distinct todo" "set todo \<subseteq> set (sm_list (sh_sm s))"
    "dom objs = dom (sm_objs (sh_sm s))" "surface_bytes objs = ?sz"
    "sh_sm s' = (sh_sm s)\<lparr>sm_objs := objs, sm_tick := sm_tick (sh_sm s) + 1,
       sm_allocated_memory := sm_allocated_memory (sh_sm s) - (\<Sum>ob\<leftarrow>todo. word_of_nat (?sz ob)),
       sm_evicted := sm_evicted (sh_sm s) + unat (\<Sum>ob\<leftarrow>todo. word_of_nat (?sz ob) :: u64)\<rparr>"
    using l(1) assms(3,4) by (rule evict_cases)
  let ?freed = "(\<Sum>ob\<leftarrow>todo. word_of_nat (?sz ob)) :: u64"
  have le: "(\<Sum>ob\<leftarrow>todo. ?sz ob) \<le> (\<Sum>ob\<leftarrow>sm_list (sh_sm s). ?sz ob)" using l t by (intro sum_list_sublist) auto
  have total: "unat (sm_allocated_memory (sh_sm s)) = (\<Sum>ob\<leftarrow>sm_list (sh_sm s). ?sz ob)" "unat (sm_allocated_memory (sh_sm s)) \<le> 0x20000000"
    using count_exact [of "sh_sm s"] i assms(5) by (simp_all add: sm_inv_def total_bytes_def)
  have freed: "unat ?freed = (\<Sum>ob\<leftarrow>todo. ?sz ob)" by (rule unat_sum_words) (use le total in simp)
  obtain x where x: "sm_objs (sh_sm s) (hd todo) = Some x" using t(1,3) l(2) by (cases todo) auto
  then have "0 < ?sz (hd todo)" using sm_inv_shape [OF i x] by (simp add: surface_bytes_def shape_ok_def unat_gt_0)
  then have pos: "0 < unat ?freed" using t(1) unfolding freed by (cases todo) auto
  have "unat (sm_allocated_memory (sh_sm s) - ?freed) = unat (sm_allocated_memory (sh_sm s)) - unat ?freed"
    using le total freed by (intro unat_sub) (simp add: word_le_nat_alt)
  then have "unat (sm_allocated_memory (sh_sm s) - ?freed) < (\<Sum>ob\<leftarrow>sm_list (sh_sm s). ?sz ob)" using pos le total freed by simp
  then show ?thesis using t(4,5) by (simp add: t(6))
qed

text \<open>A clock that stands for two ticks and then jumps far ahead.\<close>

definition late_env :: iosm_env where
  "late_env = demo_env\<lparr>ie_clock := (\<lambda>t. if t \<le> 1 then 1 else 0x1000000000000000)\<rparr>"

lemma late_reach: "surface_reach late_env False 1 demo1"
proof -
  have f: "ie_malloc late_env = (\<lambda>_. True)" "ie_clock late_env (Suc 0) = 1" "ie_buffer late_env = (\<lambda>_ _. True)" "ie_prepare late_env = (\<lambda>_. True)"
    "ie_data late_env = (\<lambda>_. True)" by (simp_all add: late_env_def demo_env_def)
  have "create_build late_env demo_desc 4096 sid s = (kIOReturnSuccess, create_register (demo_surface sid (sm_fresh s) 1) (Suc (sm_fresh s)) s)"
    if "sm_tick s = Suc 0" for sid s
    using that by (simp add: create_build_def f setupPlaneInfo_def demo_desc_def getPlaneCount_def demo_surface_def demo_plane_def)
  then have "ios_createSurface late_env (Some demo_desc) (iosm_init False) = (kIOReturnSuccess, 1, demo1)"
    by (simp add: ios_createSurface_def demo_fields demo_size f allocateSurfaceId_def validatePixelFormat_def iosm_init_def demo1_def create_register_def)
       (simp add: demo_surface_def)
  then have "surface_exec late_env (Op_create (Some demo_desc)) (iosm_init False) = (kIOReturnSuccess, demo1)" by (simp add: code_state_def)
  from surface_reach.step [OF surface_reach.start this] show ?thesis by simp
qed

theorem eviction_unbalances_accounts_witness:
  "unat (sm_allocated_memory (sh_sm (snd (snd (evictUnusedSurfaces late_env 0 ((share_init False)\<lparr>sh_sm := demo1\<rparr>)))))) = 0
   \<and> dom (sm_mem (sh_sm (snd (snd (evictUnusedSurfaces late_env 0 ((share_init False)\<lparr>sh_sm := demo1\<rparr>)))))) = {1}"
proof -
  let ?s = "(share_init False)\<lparr>sh_sm := demo1\<rparr>" and ?out = "evictUnusedSurfaces late_env 0 ((share_init False)\<lparr>sh_sm := demo1\<rparr>)"
  have sm: "sh_sm ?s = demo1" by simp
  have r: "surface_reach late_env False 1 (sh_sm ?s)" unfolding sm by (rule late_reach)
  have "fst ?out = kIOReturnSuccess" "fst (snd ?out) = 1" "sm_allocated_memory (sh_sm (snd (snd ?out))) = 0"
    by (simp_all add: evictUnusedSurfaces_def evict_surfaces_def alloc_def late_env_def demo_env_def demo1_def evictable_def demo_surface_def iosm_init_def)
  then have ev: "?out = (kIOReturnSuccess, 1, snd (snd ?out))" and z: "sm_allocated_memory (sh_sm (snd (snd ?out))) = 0" by (metis prod.collapse)+
  have "sm_mem (sh_sm (snd (snd ?out))) = sm_mem (sh_sm ?s)"
    using eviction_unbalances_accounts [OF r _ ev] by (simp add: demo1_def iosm_init_def)
  then show ?thesis using z by (simp add: demo1_def)
qed

section \<open>Calls under the lock\<close>

lemma lock_unlocked [simp]: "IOLockLock (unlocked s) = Some \<lparr>mg_sm = s, mg_held = True\<rparr>"
  by (simp add: IOLockLock_def unlocked_def)

lemma destroy_under_lock: "mg_held m \<Longrightarrow> sid \<noteq> 0 \<Longrightarrow> destroySurface_locked e sid m = None"
  by (simp add: destroySurface_locked_def with_lock_def IOLockLock_def)

lemma destroy_without_lock: "sid \<noteq> 0 \<Longrightarrow> ios_destroySurface e sid s = (r, s') \<Longrightarrow> destroySurface_locked e sid (unlocked s) = Some (r, unlocked s')"
  by (simp add: destroySurface_locked_def with_lock_def) (simp add: IOLockUnlock_def unlocked_def)

lemma compact_loop_hangs:
  assumes "k < i" "i \<le> length (sm_list (mg_sm m))" "sm_list (mg_sm m) ! k = ob" "sm_objs (mg_sm m) ob = Some x" "\<not> vs_is_locked x"
    and "n < 2 ^ 31 - 1" "t \<le> sm_tick (mg_sm m)"
    and idle: "\<And>u. t < u \<Longrightarrow> ie_clock e u - vs_last_access_time x > 10 * 1000000000"
    and "sm_inv n (mg_sm m)" "cache_live (mg_sm m)" "mg_held m"
  shows "compact_loop e i m = None"
  using assms(1-4,7,9-)
proof (induction i arbitrary: m)
  case (Suc i)
  let ?s = "mg_sm m" and ?o = "sm_list (mg_sm m) ! i"
  have "?o \<in> dom (sm_objs ?s)" using Suc.prems(2,6) nth_mem [of i "sm_list ?s"] by (auto simp: sm_inv_def table_ok_def)
  then obtain y where y: "sm_objs ?s ?o = Some y" by blast
  have mp: "sm_map ?s (vs_surface_id y) = Some ?o" using Suc.prems(6) y by (auto simp: sm_inv_def table_ok_def)
  have nz: "vs_surface_id y \<noteq> 0" using Suc.prems(6) mp by (auto simp: sm_inv_def ids_ok_def)
  obtain r s1 where f: "findSurface e (vs_surface_id y) ?s = (r, s1)" by fastforce
  obtain c where s1: "s1 = ?s\<lparr>sm_cache := c, sm_tick := sm_tick ?s + 1\<rparr>" using findSurface_frame [OF f] by blast
  note l = findSurface_live [OF Suc.prems(6,7) assms(6) f] and inv = findSurface_inv(1) [OF Suc.prems(6) f]
  have call: "destroySurface_locked e (vs_surface_id y) (m\<lparr>mg_sm := s1\<rparr>) = None" using nz Suc.prems(8) by (simp add: destroy_under_lock)
  have rest: "compact_loop e i (m\<lparr>mg_sm := s1\<rparr>) = None" if "k < i"
    by (rule Suc.IH) (use that Suc.prems inv l in \<open>auto simp: s1\<close>)
  show ?case
  proof (cases "k = i")
    case True
    then have "y = x" using Suc.prems(3,4) y by simp
    moreover have "vs_lock_count x = 0" "vs_ref_count x = 1" using sm_inv_lock [OF Suc.prems(6,4)] assms(5) by auto
    ultimately show ?thesis using y f l(1) mp assms(5) idle [of "Suc (sm_tick ?s)"] Suc.prems(2,5) call
      by (simp add: shouldEvictSurface_def s1)
  next
    case False
    then show ?thesis using y f l(1) mp rest call Suc.prems(1,2) by (simp add: shouldEvictSurface_def s1)
  qed
qed simp

text \<open>A destruction that does not run under the lock, of an unlocked surface.\<close>

lemma destroy_succeeds:
  assumes "sm_inv n s" "cache_live s" "n < 2 ^ 31 - 1" "live_surface s sid ob x" "\<not> vs_is_locked x"
  shows "sid \<noteq> 0 \<and> (\<exists>s'. ios_destroySurface e sid s = (kIOReturnSuccess, s') \<and> sm_map s' sid = None)"
proof -
  have m: "sm_map s sid = Some ob" and ob: "sm_objs s ob = Some x" using assms(4) by (auto simp: live_surface_def)
  obtain x' c where x: "sm_objs s ob = Some x'"
    "\<And>h v. with_surface e sid (v :: unit) s h = h ob x' (s\<lparr>sm_cache := c, sm_tick := sm_tick s + 1\<rparr>)"
    by (rule with_surface_live [OF assms(1-3) m, where e = e]) blast
  have "sid \<noteq> 0" using assms(1) m by (auto simp: sm_inv_def ids_ok_def)
  moreover have "vs_lock_count x = 0" "vs_ref_count x = 1" using sm_inv_lock [OF assms(1) ob] assms(5) by auto
  ultimately show ?thesis using x ob assms(5) by (simp add: ios_destroySurface_def destroy_remove_def releaseSurfaceId_def)
qed

text \<open>C40. \<^verbatim>\<open>compactSurfaceMemory\<close>, called while nobody holds the surface lock, never returns when there is an unlocked surface that
  stays idle for more than ten seconds: it calls \<^verbatim>\<open>destroySurface\<close> with the lock held, and \<^verbatim>\<open>destroySurface\<close> takes it.
  Called by itself for the same surface, \<^verbatim>\<open>destroySurface\<close> succeeds and gives the lock back.\<close>

theorem compactSurfaceMemory_hangs:
  assumes "surface_reach e g n s" "n < 2 ^ 30 - 1" "cache_live s" "live_surface s sid ob x" "\<not> vs_is_locked x"
    and "\<And>u. sm_tick s < u \<Longrightarrow> ie_clock e u - vs_last_access_time x > 10 * 1000000000"
  shows "compactSurfaceMemory e (unlocked s) = None
    \<and> (\<exists>s'. destroySurface_locked e sid (unlocked s) = Some (kIOReturnSuccess, unlocked s') \<and> sm_map s' sid = None)"
proof -
  have i: "sm_inv (2 * n) s" using assms(1,2) by (intro surface_reach_inv) auto
  have n: "2 * n < 2 ^ 31 - 1" using assms(2) by simp
  have ob: "sm_objs s ob = Some x" using assms(4) by (simp add: live_surface_def)
  then have "ob \<in> set (sm_list s)" using i by (auto simp: sm_inv_def table_ok_def)
  then obtain k where k: "k < length (sm_list s)" "sm_list s ! k = ob" by (auto simp: in_set_conv_nth)
  have "compact_loop e (length (sm_list s)) \<lparr>mg_sm = s, mg_held = True\<rparr> = None"
    by (rule compact_loop_hangs [where k = k and t = "sm_tick s" and ob = ob and x = x]) (use k ob assms(3,5,6) i n in simp_all)
  then have "compactSurfaceMemory e (unlocked s) = None" by (simp add: compactSurfaceMemory_def)
  moreover have "\<exists>s'. destroySurface_locked e sid (unlocked s) = Some (kIOReturnSuccess, unlocked s') \<and> sm_map s' sid = None"
    using destroy_succeeds [OF i assms(3) n assms(4,5), of e] destroy_without_lock by blast
  ultimately show ?thesis ..
qed

theorem compactSurfaceMemory_hangs_witness: "compactSurfaceMemory late_env (unlocked demo1) = None"
  using compactSurfaceMemory_hangs [OF late_reach _ demo_live(1), of 1 0 "demo_surface 1 0 1"]
  by (simp add: live_surface_def demo1_def demo_surface_def late_env_def)

text \<open>Both functions accept the format, and the sides are in range.\<close>

definition video_accepted :: "iosm \<Rightarrow> VMIOSurfaceDescriptor \<Rightarrow> u32 \<Rightarrow> bool" where
  "video_accepted s d codec \<longleftrightarrow> validateVideoPixelFormat (sm_supports_yuv s) (sd_pixel_format d) codec = kIOReturnSuccess
     \<and> validatePixelFormat (sm_supports_yuv s) (sd_pixel_format d) = kIOReturnSuccess
     \<and> \<not> (sd_width d = 0 \<or> sd_height d = 0 \<or> sd_width d > 16384 \<or> sd_height d > 16384)"

text \<open>Video surfaces are never created. When the request is acceptable the call never returns: \<^verbatim>\<open>createVideoSurface\<close> calls
  \<^verbatim>\<open>createSurface\<close>, which takes the lock, with the lock held. Otherwise it fails, and nothing has changed.\<close>

theorem createVideoSurface_hangs:
  "case createVideoSurface reg e (Some d) codec (unlocked s) of
     None \<Rightarrow> video_accepted s d codec
   | Some (r, m) \<Rightarrow> \<not> video_accepted s d codec \<and> r \<noteq> kIOReturnSuccess \<and> m = unlocked s"
proof -
  have u: "IOLockUnlock \<lparr>mg_sm = s, mg_held = True\<rparr> = unlocked s" by (simp add: IOLockUnlock_def unlocked_def)
  have l: "IOLockLock \<lparr>mg_sm = s, mg_held = True\<rparr> = None" by (simp add: IOLockLock_def)
  show ?thesis
    by (simp add: createVideoSurface_def createSurface_locked_def with_lock_def Let_def video_accepted_def u l)
qed

end
