(* ===== verification/Ieee_Float.thy ===== *)
theory Ieee_Float
  imports Virgl_Probe Complex_Main
begin

text \<open>
  The floating-point arithmetic of \<^verbatim>\<open>VMOpenGLTranslator.cpp\<close>. A number is kept as its IEEE bit pattern, which is what
  \<^verbatim>\<open>virgl_pack_float\<close> and \<^verbatim>\<open>virgl_pack_double\<close> put into a command. Finite patterns denote \<open>\<plusminus> n * 2 ^ k\<close>; results are
  rounded to the nearest representable number with ties to even, overflow goes to infinity and small results are subnormal.
\<close>

section \<open>Packing and unpacking a magnitude\<close>

text \<open>A format has \<open>mb\<close> fraction bits and exponent bias \<open>bias\<close>: 23 and 127, or 52 and 1023.\<close>

fun bits :: "nat \<Rightarrow> nat" where
  "bits n = (if n = 0 then 0 else Suc (bits (n div 2)))"

declare bits.simps [simp del]

definition fp_pack :: "nat \<Rightarrow> nat \<Rightarrow> nat \<Rightarrow> int \<Rightarrow> nat" where
  "fp_pack mb bias n k =
     (if n = 0 then 0
      else let e = max (int (bits n) - 1 + k) (1 - int bias);
               sh = e - int mb - k;
               m = (if sh \<ge> 0 then round_even n (nat sh) else n * 2 ^ nat (- sh))
           in min (nat (e + int bias - 1) * 2 ^ mb + m) ((2 * bias + 1) * 2 ^ mb))"

definition fp_unpack :: "nat \<Rightarrow> nat \<Rightarrow> nat \<Rightarrow> nat \<times> int" where
  "fp_unpack mb bias u =
     (let ex = u div 2 ^ mb; fr = u mod 2 ^ mb
      in if ex = 0 then (fr, 1 - int bias - int mb) else (2 ^ mb + fr, int ex - int bias - int mb))"

definition dyadic :: "nat \<times> int \<Rightarrow> rat" where
  "dyadic x = of_nat (fst x) * 2 powi snd x"

lemma bits_bounds: "n \<noteq> 0 \<Longrightarrow> 2 ^ (bits n - 1) \<le> n \<and> n < 2 ^ bits n \<and> 0 < bits n"
proof (induction n rule: bits.induct)
  case (1 n)
  show ?case
  proof (cases "n div 2 = 0")
    case True
    then have "n = 1" using 1(2) by linarith
    then show ?thesis by (simp add: bits.simps)
  next
    case False
    then obtain b where b: "bits (n div 2) = Suc b" using 1(1) [OF 1(2)] by (cases "bits (n div 2)") auto
    have "2 ^ b \<le> n div 2" "n div 2 < 2 ^ Suc b" using 1(1) [OF 1(2) False] b by auto
    then have "2 ^ Suc b \<le> n" "n < 2 ^ Suc (Suc b)" by auto
    then show ?thesis using b 1(2) by (simp add: bits.simps [of n])
  qed
qed

lemma bits_le: "n < 2 ^ m \<Longrightarrow> bits n \<le> m"
proof (cases "n = 0")
  case False
  assume "n < 2 ^ m"
  then have "(2 :: nat) ^ (bits n - 1) < 2 ^ m" using bits_bounds [OF False] by linarith
  then have "bits n - 1 < m" by (rule power_less_imp_less_exp [rotated]) simp
  then show ?thesis using bits_bounds [OF False] by simp
qed (simp add: bits.simps)

text \<open>A number with at most \<open>mb + 1\<close> significant bits in the normal range is packed without loss.\<close>

lemma fp_pack_exact:
  assumes "n \<noteq> 0" "n < 2 ^ (mb + 1)" "1 - int bias \<le> int (bits n) - 1 + k" "int (bits n) - 1 + k \<le> int bias"
  shows "fp_pack mb bias n k div 2 ^ mb = nat (int (bits n) - 1 + k + int bias)"
    and "dyadic (fp_unpack mb bias (fp_pack mb bias n k)) = dyadic (n, k)"
    and "fp_pack mb bias n k < (2 * bias + 1) * 2 ^ mb"
proof -
  define e where "e = int (bits n) - 1 + k"
  define d where "d = mb + 1 - bits n"
  have b: "0 < bits n" "bits n \<le> mb + 1" "2 ^ (bits n - 1) \<le> n" "n < 2 ^ bits n"
    using bits_bounds [OF assms(1)] bits_le [OF assms(2)] by auto
  have sh: "e - int mb - k = - int d" using b(1,2) by (simp add: e_def d_def of_nat_diff)
  have mlo: "2 ^ mb \<le> n * 2 ^ d"
  proof -
    have "(2 :: nat) ^ (bits n - 1) * 2 ^ d = 2 ^ mb" using b(1,2) by (simp add: d_def flip: power_add)
    then show ?thesis using b(3) by (metis mult_le_mono1)
  qed
  have mhi: "n * 2 ^ d < 2 * 2 ^ mb"
  proof -
    have "(2 :: nat) ^ bits n * 2 ^ d = 2 * 2 ^ mb" using b(1,2) by (simp add: d_def flip: power_add power_Suc)
    then show ?thesis using b(4) by (metis mult_less_mono1 zero_less_power zero_less_numeral)
  qed
  define r where "r = nat (e + int bias - 1) * 2 ^ mb + n * 2 ^ d"
  have e: "1 - int bias \<le> e" "e \<le> int bias" using assms(3,4) by (simp_all add: e_def)
  have m: "(if e - int mb - k \<ge> 0 then round_even n (nat (e - int mb - k)) else n * 2 ^ nat (- (e - int mb - k))) = n * 2 ^ d"
    by (cases "d = 0") (auto simp: sh round_even_def)
  have lim: "r < (2 * bias + 1) * 2 ^ mb"
  proof -
    have "nat (e + int bias - 1) + 2 \<le> 2 * bias + 1" using e by linarith
    then have "(nat (e + int bias - 1) + 2) * 2 ^ mb \<le> (2 * bias + 1) * 2 ^ mb" by (rule mult_le_mono1)
    then show ?thesis using mhi by (simp add: r_def algebra_simps)
  qed
  have p: "fp_pack mb bias n k = r"
    unfolding fp_pack_def Let_def e_def [symmetric] max_absorb1 [OF e(1)] m using assms(1) lim by (simp add: r_def)
  have q: "r = nat (e + int bias) * 2 ^ mb + (n * 2 ^ d - 2 ^ mb)" "n * 2 ^ d - 2 ^ mb < 2 ^ mb"
  proof -
    have "nat (e + int bias) = nat (e + int bias - 1) + 1" using e(1) by linarith
    then show "r = nat (e + int bias) * 2 ^ mb + (n * 2 ^ d - 2 ^ mb)" using mlo by (simp add: r_def algebra_simps)
    show "n * 2 ^ d - 2 ^ mb < 2 ^ mb" using mhi mlo by linarith
  qed
  have dm: "r div 2 ^ mb = nat (e + int bias)" "r mod 2 ^ mb = n * 2 ^ d - 2 ^ mb"
    using q by simp_all
  then show "fp_pack mb bias n k div 2 ^ mb = nat (int (bits n) - 1 + k + int bias)" by (simp add: p e_def)
  show "fp_pack mb bias n k < (2 * bias + 1) * 2 ^ mb" using lim p by simp
  have "nat (e + int bias) \<noteq> 0" "int (nat (e + int bias)) = e + int bias" using e(1) by auto
  then have "fp_unpack mb bias r = (n * 2 ^ d, k - int d)"
    using dm mlo sh by (simp add: fp_unpack_def Let_def)
  moreover have "dyadic (n * 2 ^ d, k - int d) = dyadic (n, k)"
    by (simp add: dyadic_def power_int_diff)
  ultimately show "dyadic (fp_unpack mb bias (fp_pack mb bias n k)) = dyadic (n, k)" by (simp add: p)
qed

section \<open>Single precision\<close>

definition f32_neg :: "u32 \<Rightarrow> bool" where
  "f32_neg u \<longleftrightarrow> bit u 31"

definition f32_of :: "bool \<Rightarrow> nat \<Rightarrow> int \<Rightarrow> u32" where
  "f32_of neg n k = (if neg then 0x80000000 else 0) OR word_of_nat (fp_pack 23 127 n k)"

definition f32_mag :: "u32 \<Rightarrow> nat \<times> int" where
  "f32_mag u = fp_unpack 23 127 (unat (u AND 0x7FFFFFFF))"

text \<open>The signed integer conversion, the division by \<open>2.0f\<close>, addition and subtraction, on finite operands.\<close>

definition f32_of_int :: "int \<Rightarrow> u32" where
  "f32_of_int i = f32_of (i < 0) (nat \<bar>i\<bar>) 0"

definition f32_half :: "u32 \<Rightarrow> u32" where
  "f32_half u = (case f32_mag u of (n, k) \<Rightarrow> f32_of (f32_neg u) n (k - 1))"

definition f32_signed :: "u32 \<Rightarrow> int \<times> int" where
  "f32_signed u = (case f32_mag u of (n, k) \<Rightarrow> (if f32_neg u then - int n else int n, k))"

definition f32_add :: "u32 \<Rightarrow> u32 \<Rightarrow> u32" where
  "f32_add u v =
     (case (f32_signed u, f32_signed v) of ((a, i), (b, j)) \<Rightarrow>
        let k = min i j; s = a * 2 ^ nat (i - k) + b * 2 ^ nat (j - k)
        in f32_of (s < 0 \<or> (s = 0 \<and> f32_neg u \<and> f32_neg v)) (nat \<bar>s\<bar>) k)"

definition f32_sub :: "u32 \<Rightarrow> u32 \<Rightarrow> u32" where
  "f32_sub u v = f32_add u (v XOR 0x80000000)"

text \<open>The rational a finite pattern denotes.\<close>

definition f32_value :: "u32 \<Rightarrow> rat" where
  "f32_value u = (if f32_neg u then - dyadic (f32_mag u) else dyadic (f32_mag u))"

section \<open>Double precision\<close>

text \<open>
  The conversions between the formats: a double is rounded, a float is widened without loss. A not-a-number keeps its sign and
  the upper bits of its payload and becomes quiet.
\<close>

definition f32_of_f64 :: "u64 \<Rightarrow> u32" where
  "f32_of_f64 u =
     (let sg = (if bit u 63 then 0x80000000 else 0) :: u32; m = u AND 0x7FFFFFFFFFFFFFFF
      in if m > 0x7FF0000000000000 then sg OR 0x7FC00000 OR ucast (drop_bit 29 (m AND 0xFFFFFFFFFFFFF))
         else if m = 0x7FF0000000000000 then sg OR 0x7F800000
         else case fp_unpack 52 1023 (unat m) of (n, k) \<Rightarrow> f32_of (bit u 63) n k)"

definition f64_of_f32 :: "u32 \<Rightarrow> u64" where
  "f64_of_f32 u =
     (let sg = (if f32_neg u then 0x8000000000000000 else 0) :: u64; m = u AND 0x7FFFFFFF
      in if m > 0x7F800000 then sg OR 0x7FF8000000000000 OR push_bit 29 (ucast (m AND 0x7FFFFF))
         else if m = 0x7F800000 then sg OR 0x7FF0000000000000
         else case f32_mag u of (n, k) \<Rightarrow> sg OR word_of_nat (fp_pack 52 1023 n k))"

section \<open>Exact results\<close>

lemma f32_of_fields:
  assumes "fp_pack 23 127 n k < 2 ^ 31"
  shows "f32_neg (f32_of neg n k) = neg" "f32_mag (f32_of neg n k) = fp_unpack 23 127 (fp_pack 23 127 n k)"
proof -
  let ?p = "word_of_nat (fp_pack 23 127 n k) :: u32"
  have u: "unat ?p = fp_pack 23 127 n k" using assms by (simp add: unat_of_nat)
  have t: "take_bit 31 ?p = ?p" using assms by (simp add: take_bit_of_nat take_bit_nat_eq_self)
  have b: "\<not> bit ?p 31"
    by (metis bit_take_bit_iff less_irrefl t)
  show "f32_neg (f32_of neg n k) = neg"
    using b by (simp add: f32_neg_def f32_of_def bit_or_iff bit_simps)
  have "(0x80000000 :: u32) AND 0x7FFFFFFF = 0" by simp
  moreover have "?p AND 0x7FFFFFFF = ?p" using t by (simp add: take_bit_eq_mask mask_numeral)
  ultimately have "f32_of neg n k AND 0x7FFFFFFF = ?p" by (simp add: f32_of_def bit.conj_disj_distrib2)
  then show "f32_mag (f32_of neg n k) = fp_unpack 23 127 (fp_pack 23 127 n k)" by (simp add: f32_mag_def u)
qed

text \<open>Packing depends on the value only.\<close>

lemma bits_shift: "n \<noteq> 0 \<Longrightarrow> bits (n * 2 ^ t) = bits n + t"
proof (induction t)
  case (Suc t)
  have "n * 2 ^ Suc t div 2 = n * 2 ^ t" by simp
  then show ?case using Suc by (subst bits.simps) simp
qed simp

lemma round_even_shift: "round_even (n * 2 ^ t) (s + t) = round_even n s"
  by (simp add: round_even_def power_add Let_def flip: mult.assoc)

lemma round_even_whole: "round_even (n * 2 ^ t) s = n * 2 ^ (t - s)" if "s \<le> t"
proof -
  have "t = (t - s) + s" using that by simp
  then obtain u where "t = u + s" ..
  then show ?thesis by (simp add: round_even_def power_add flip: mult.assoc)
qed

lemma fp_pack_shift: "fp_pack mb bias (n * 2 ^ t) k = fp_pack mb bias n (k + int t)"
proof (cases "n = 0")
  case False
  define e where "e = max (int (bits n) - 1 + (k + int t)) (1 - int bias)"
  have e: "max (int (bits (n * 2 ^ t)) - 1 + k) (1 - int bias) = e" using False by (simp add: e_def bits_shift algebra_simps)
  let ?sh = "e - int mb - (k + int t)"
  have "(if e - int mb - k \<ge> 0 then round_even (n * 2 ^ t) (nat (e - int mb - k)) else n * 2 ^ t * 2 ^ nat (- (e - int mb - k)))
      = (if ?sh \<ge> 0 then round_even n (nat ?sh) else n * 2 ^ nat (- ?sh))" (is "?l = ?r")
  proof -
    consider "?sh \<ge> 0" | "?sh < 0" "e - int mb - k \<ge> 0" | "e - int mb - k < 0" by linarith
    then show ?thesis
    proof cases
      case 1
      then have "nat (e - int mb - k) = nat ?sh + t" "e - int mb - k \<ge> 0" by linarith+
      then show ?thesis using 1 by (simp only: round_even_shift if_True)
    next
      case 2
      then have "nat (e - int mb - k) \<le> t" "t - nat (e - int mb - k) = nat (- ?sh)" "\<not> 0 \<le> ?sh" by linarith+
      then show ?thesis using 2(2) by (simp only: round_even_whole if_True if_False)
    next
      case 3
      then have "\<not> 0 \<le> ?sh" "\<not> 0 \<le> e - int mb - k" "nat (- ?sh) = t + nat (- (e - int mb - k))" by linarith+
      then show ?thesis by (simp only: if_False power_add mult.assoc)
    qed
  qed
  then show ?thesis unfolding fp_pack_def Let_def e e_def [symmetric] using False by simp
qed (simp add: fp_pack_def)

lemma fp_pack_value:
  assumes "dyadic (n, k) = dyadic (m, j)"
  shows "fp_pack mb bias n k = fp_pack mb bias m j"
proof -
  have *: "fp_pack mb bias n k = fp_pack mb bias m j" if "k \<le> j" "dyadic (n, k) = dyadic (m, j)" for n k m j
  proof -
    define t where "t = nat (j - k)"
    have t: "j = k + int t" using that(1) by (simp add: t_def)
    have "(of_nat n :: rat) = of_nat (m * 2 ^ t)" using that(2) by (simp add: dyadic_def t power_int_add)
    then have "n = m * 2 ^ t" by (simp only: of_nat_eq_iff)
    then show ?thesis using fp_pack_shift [of mb bias m t k] t by simp
  qed
  show ?thesis using * [of k j n m] * [of j k m n] assms by (cases "k \<le> j") auto
qed

text \<open>The numbers with at most 24 significant bits and a moderate exponent; on them no operation rounds.\<close>

definition f32_fits :: "rat \<Rightarrow> bool" where
  "f32_fits q \<longleftrightarrow> (\<exists>m j. m < 2 ^ 24 \<and> - 100 \<le> j \<and> j \<le> 100 \<and> \<bar>q\<bar> = dyadic (m, j))"

lemma f32_of_value:
  assumes "f32_fits (dyadic (n, k))"
  shows "f32_value (f32_of neg n k) = (if neg then - dyadic (n, k) else dyadic (n, k))"
proof -
  have "0 \<le> dyadic (n, k)" by (simp add: dyadic_def)
  then obtain m j where m: "m < 2 ^ 24" "- 100 \<le> j" "j \<le> 100" "dyadic (n, k) = dyadic (m, j)"
    using assms by (auto simp: f32_fits_def)
  have p: "fp_pack 23 127 n k = fp_pack 23 127 m j" by (rule fp_pack_value) fact
  have "fp_pack 23 127 m j < 2 ^ 31 \<and> dyadic (fp_unpack 23 127 (fp_pack 23 127 m j)) = dyadic (m, j)"
  proof (cases "m = 0")
    case True
    then show ?thesis by (simp add: fp_pack_def fp_unpack_def dyadic_def)
  next
    case False
    have "m < 2 ^ (23 + 1)" "1 - int 127 \<le> int (bits m) - 1 + j" "int (bits m) - 1 + j \<le> int 127"
      using m bits_bounds [OF False] bits_le [OF m(1)] by auto
    from fp_pack_exact(2,3) [OF False this] show ?thesis by simp
  qed
  then show ?thesis using m(4) by (simp add: f32_value_def f32_of_fields p)
qed

lemma f32_signed_value: "f32_signed u = (a, i) \<Longrightarrow> f32_value u = of_int a * 2 powi i"
  by (auto simp: f32_signed_def f32_value_def dyadic_def split: prod.splits if_splits)

lemma f32_fits_abs: "f32_fits \<bar>q\<bar> = f32_fits q"
  by (simp add: f32_fits_def)

lemma f32_half_value: "f32_fits (f32_value u / 2) \<Longrightarrow> f32_value (f32_half u) = f32_value u / 2"
proof -
  assume f: "f32_fits (f32_value u / 2)"
  obtain n k where m: "f32_mag u = (n, k)" by fastforce
  have h: "dyadic (n, k - 1) = dyadic (n, k) / 2" by (simp add: dyadic_def power_int_diff)
  have "\<bar>f32_value u / 2\<bar> = dyadic (n, k - 1)" by (simp add: f32_value_def m h) (simp add: dyadic_def)
  then have "f32_fits (dyadic (n, k - 1))" using f by (metis f32_fits_abs)
  then show ?thesis by (simp add: f32_half_def m f32_of_value) (simp add: f32_value_def m h)
qed

lemma f32_of_int_value: "f32_fits (of_int i) \<Longrightarrow> f32_value (f32_of_int i) = of_int i"
proof -
  have d: "dyadic (nat \<bar>i\<bar>, 0) = of_int \<bar>i\<bar>" by (simp add: dyadic_def of_nat_nat)
  assume "f32_fits (of_int i)"
  then have "f32_fits (dyadic (nat \<bar>i\<bar>, 0))" unfolding d by (simp add: f32_fits_abs)
  from f32_of_value [OF this, of "i < 0"] show ?thesis unfolding d f32_of_int_def by auto
qed

lemma f32_add_value:
  assumes "f32_fits (f32_value u + f32_value v)"
  shows "f32_value (f32_add u v) = f32_value u + f32_value v"
proof -
  obtain a i b j where s: "f32_signed u = (a, i)" "f32_signed v = (b, j)" by fastforce
  define k where "k = min i j"
  define z where "z = a * 2 ^ nat (i - k) + b * 2 ^ nat (j - k)"
  have "(2 :: rat) ^ nat (l - k) * 2 powi k = 2 powi l" if "k \<le> l" for l
    using that power_int_add [of "2 :: rat" "l - k" k] by (simp add: power_int_def)
  then have "(2 :: rat) ^ nat (i - k) * 2 powi k = 2 powi i" "(2 :: rat) ^ nat (j - k) * 2 powi k = 2 powi j"
    by (simp_all add: k_def)
  then have v: "f32_value u + f32_value v = of_int z * 2 powi k"
    by (simp add: f32_signed_value [OF s(1)] f32_signed_value [OF s(2)] z_def distrib_right mult.assoc)
  have d: "dyadic (nat \<bar>z\<bar>, k) = of_int \<bar>z\<bar> * 2 powi k" by (simp add: dyadic_def of_nat_nat)
  have "\<bar>f32_value u + f32_value v\<bar> = dyadic (nat \<bar>z\<bar>, k)" by (simp add: v d abs_mult)
  then have "f32_fits (dyadic (nat \<bar>z\<bar>, k))" using assms by (metis f32_fits_abs)
  note x = f32_of_value [OF this, unfolded d]
  show ?thesis using x [of "z < 0 \<or> (z = 0 \<and> f32_neg u \<and> f32_neg v)"]
    by (auto simp: f32_add_def s Let_def k_def [symmetric] z_def [symmetric] v split: if_splits)
qed

lemma f32_fitsI: "f32_fits q" if "m < 2 ^ 24" "- 100 \<le> j" "j \<le> 100" "\<bar>q\<bar> = dyadic (m, j)"
  unfolding f32_fits_def using that by blast

lemma f32_fits_int:
  assumes "\<bar>i\<bar> < 2 ^ 24"
  shows "f32_fits (of_int i)" "f32_fits (of_int i / 2)"
proof -
  have m: "nat \<bar>i\<bar> < 2 ^ 24" using assms by simp
  have "\<bar>of_int i :: rat\<bar> = dyadic (nat \<bar>i\<bar>, 0)" by (simp add: dyadic_def of_nat_nat)
  from f32_fitsI [OF m _ _ this] show "f32_fits (of_int i)" by simp
  have "\<bar>of_int i / 2 :: rat\<bar> = dyadic (nat \<bar>i\<bar>, - 1)" by (simp add: dyadic_def of_nat_nat power_int_minus)
  from f32_fitsI [OF m _ _ this] show "f32_fits (of_int i / 2)" by simp
qed

lemma f32_constants: "f32_value 0 = 0" "f32_value 0x80000000 = 0" "f32_value 0x3F800000 = 1"
  by (simp_all add: f32_value_def f32_neg_def f32_mag_def fp_unpack_def dyadic_def power_int_minus)

end
