(* ===== verification/Gl_Translator.thy ===== *)
theory Gl_Translator
  imports Ieee_Float Client_Safety
begin

text \<open>
  The translator from OpenGL calls to virgl commands (\<^verbatim>\<open>VMOpenGLTranslator.cpp\<close>): immediate-mode batching, clears, the
  viewport, the render target and the state flags, on top of the driver object's \<^verbatim>\<open>createResource3D\<close> and
  \<^verbatim>\<open>executeCommands\<close>. Floats are bit patterns.
\<close>

section \<open>State\<close>

text \<open>
  \<^verbatim>\<open>VMGLState\<close>, as far as the code of the class reads or writes it. \<open>gl_vertex_data\<close> is the block of
  \<^verbatim>\<open>MAX_BATCH_VERTICES * 12\<close> floats.
\<close>

record VMGLState =
  gl_primitive_mode :: u32
  gl_vertex_data :: "u32 list"
  gl_vertex_count :: u32
  gl_in_begin_end :: bool
  gl_current_color :: "u32 list"
  gl_current_texcoord :: "u32 list"
  gl_current_normal :: "u32 list"
  gl_modelview_matrix :: "u32 list"
  gl_projection_matrix :: "u32 list"
  gl_matrix_mode :: u32
  gl_viewport_x :: u32
  gl_viewport_y :: u32
  gl_viewport_width :: u32
  gl_viewport_height :: u32
  gl_depth_near :: u32
  gl_depth_far :: u32
  gl_current_fbo :: u32
  gl_color_buffer_handle :: u32
  gl_depth_buffer_handle :: u32
  gl_current_texture_unit :: u32
  gl_texture_enabled :: "bool list"
  gl_blend_enabled :: bool
  gl_blend_src_factor :: u32
  gl_blend_dst_factor :: u32
  gl_depth_test_enabled :: bool
  gl_depth_write_enabled :: bool
  gl_cull_face_enabled :: bool
  gl_clear_color :: "u32 list"
  gl_clear_depth :: u32
  gl_clear_stencil :: u32

text \<open>
  \<open>gt_gpu\<close> is the driver object behind the accelerator, reachable when \<open>gt_has_gpu\<close>. \<open>gt_command_buffer\<close>: the pointer is
  non-null; \<open>gt_vertex_block\<close>: so is the pointer to the vertices. \<open>gt_blocks\<close> counts the blocks allocated and not freed.
\<close>

record VMOpenGLTranslator =
  gt_accelerator :: bool
  gt_has_gpu :: bool
  gt_gpu :: gpu
  gt_context_id :: u32
  gt_state :: VMGLState
  gt_next_handle :: u32
  gt_shaders_created :: bool
  gt_command_buffer :: bool
  gt_vertex_block :: bool
  gt_blocks :: int

abbreviation "F32_ZERO \<equiv> 0 :: u32"
abbreviation "F32_ONE \<equiv> 0x3F800000 :: u32"
abbreviation (input) MAX_BATCH_VERTICES :: u32 where "MAX_BATCH_VERTICES \<equiv> 10000"
abbreviation "GL_MODELVIEW \<equiv> 0x1700 :: u32"
abbreviation "GL_BLEND \<equiv> 0x0BE2 :: u32"
abbreviation "GL_DEPTH_TEST \<equiv> 0x0B71 :: u32"
abbreviation "GL_CULL_FACE \<equiv> 0x0B44 :: u32"
abbreviation "GL_TEXTURE_2D \<equiv> 0x0DE1 :: u32"
abbreviation "VIRGL_CCMD_BIND_OBJECT \<equiv> 2 :: u32"
abbreviation "VIRGL_CCMD_SET_VIEWPORT_STATE \<equiv> 4 :: u32"
abbreviation "VIRGL_CCMD_SET_VERTEX_BUFFERS \<equiv> 6 :: u32"
abbreviation "VIRGL_CCMD_DRAW_VBO \<equiv> 8 :: u32"
abbreviation "VIRGL_CCMD_RESOURCE_INLINE_WRITE \<equiv> 9 :: u32"
abbreviation "VIRGL_OBJECT_VERTEX_ELEMENTS \<equiv> 5 :: u32"
abbreviation "VIRGL_BIND_VERTEX_BUFFER \<equiv> 16 :: u32"
abbreviation "VIRGL_FORMAT_R8G8B8A8_UNORM \<equiv> 67 :: u32"
abbreviation "PIPE_FORMAT_R32G32B32A32_FLOAT \<equiv> 3 :: u32"

abbreviation upd_state :: "(VMGLState \<Rightarrow> VMGLState) \<Rightarrow> VMOpenGLTranslator \<Rightarrow> VMOpenGLTranslator" where
  "upd_state f t \<equiv> t\<lparr>gt_state := f (gt_state t)\<rparr>"

section \<open>Matrices and initialisation\<close>

definition identity_matrix :: "u32 list" where
  "identity_matrix = (replicate 16 F32_ZERO)[0 := F32_ONE, 5 := F32_ONE, 10 := F32_ONE, 15 := F32_ONE]"

definition glLoadIdentity :: "VMOpenGLTranslator \<Rightarrow> io_return \<times> VMOpenGLTranslator" where
  "glLoadIdentity t = (kIOReturnSuccess,
     upd_state (\<lambda>st. if gl_matrix_mode st = GL_MODELVIEW then st\<lparr>gl_modelview_matrix := identity_matrix\<rparr>
                     else st\<lparr>gl_projection_matrix := identity_matrix\<rparr>) t)"

definition glMatrixMode :: "u32 \<Rightarrow> VMOpenGLTranslator \<Rightarrow> io_return \<times> VMOpenGLTranslator" where
  "glMatrixMode mode t = (kIOReturnSuccess, upd_state (gl_matrix_mode_update (\<lambda>_. mode)) t)"

text \<open>The words a block holds.\<close>

fun mem_words :: "nat \<Rightarrow> bytes \<Rightarrow> u32 list" where
  "mem_words 0 mem = []"
| "mem_words (Suc n) mem = rd32 mem # mem_words n (drop 4 mem)"

definition gl_state_init :: VMGLState where
  "gl_state_init = \<lparr>gl_primitive_mode = 0, gl_vertex_data = [], gl_vertex_count = 0, gl_in_begin_end = False,
     gl_current_color = [F32_ONE, F32_ONE, F32_ONE, F32_ONE], gl_current_texcoord = [0, 0, 0, 0], gl_current_normal = [0, 0, 0],
     gl_modelview_matrix = replicate 16 0, gl_projection_matrix = replicate 16 0, gl_matrix_mode = 0,
     gl_viewport_x = 0, gl_viewport_y = 0, gl_viewport_width = 0, gl_viewport_height = 0,
     gl_depth_near = F32_ZERO, gl_depth_far = F32_ONE, gl_current_fbo = 0, gl_color_buffer_handle = 0, gl_depth_buffer_handle = 0,
     gl_current_texture_unit = 0, gl_texture_enabled = replicate 32 False,
     gl_blend_enabled = False, gl_blend_src_factor = 1, gl_blend_dst_factor = 17, gl_depth_test_enabled = False,
     gl_depth_write_enabled = True, gl_cull_face_enabled = False,
     gl_clear_color = [F32_ZERO, F32_ZERO, F32_ZERO, F32_ONE], gl_clear_depth = F32_ONE, gl_clear_stencil = 0\<rparr>"

text \<open>\<^verbatim>\<open>init\<close>, for a driver object \<open>g\<close>; the command buffer of 16384 words is never used afterwards.\<close>

definition gt_init :: "device_env \<Rightarrow> gpu \<Rightarrow> bool \<times> VMOpenGLTranslator" where
  "gt_init e g =
     (let t0 = \<lparr>gt_accelerator = False, gt_has_gpu = False, gt_gpu = g, gt_context_id = 0, gt_state = gl_state_init,
                gt_next_handle = 100, gt_shaders_created = False, gt_command_buffer = False, gt_vertex_block = False, gt_blocks = 0\<rparr>
      in case kmalloc e (tr_tick (g_tr g)) (16384 * 4) of
           None \<Rightarrow> (False, t0)
         | Some _ \<Rightarrow>
             (case kmalloc e (Suc (tr_tick (g_tr g))) (10000 * 12 * 4) of
                None \<Rightarrow> (False, t0\<lparr>gt_command_buffer := True\<rparr>)
              | Some mem \<Rightarrow>
                  (True, snd (glLoadIdentity (upd_state (gl_vertex_data_update (\<lambda>_. mem_words 120000 mem))
                     (t0\<lparr>gt_command_buffer := True, gt_vertex_block := True, gt_blocks := 2\<rparr>))))))"

definition gt_free :: "VMOpenGLTranslator \<Rightarrow> VMOpenGLTranslator" where
  "gt_free t =
     (let t1 = (if gt_command_buffer t then t\<lparr>gt_command_buffer := False, gt_blocks := gt_blocks t - 1\<rparr> else t)
      in if gt_vertex_block t1 then t1\<lparr>gt_vertex_block := False, gt_blocks := gt_blocks t1 - 1\<rparr> else t1)"

section \<open>Sending commands\<close>

definition allocateHandle :: "VMOpenGLTranslator \<Rightarrow> u32 \<times> VMOpenGLTranslator" where
  "allocateHandle t = (gt_next_handle t, t\<lparr>gt_next_handle := gt_next_handle t + 1\<rparr>)"

definition submit_block :: "device_env \<Rightarrow> bytes \<Rightarrow> VMOpenGLTranslator \<Rightarrow> io_return \<times> VMOpenGLTranslator" where
  "submit_block e cmd t =
     (if \<not> gt_accelerator t \<or> \<not> gt_has_gpu t then (kIOReturnNotReady, t)
      else case bytes_desc e (tr_tick (g_tr (gt_gpu t))) cmd of
        None \<Rightarrow> (kIOReturnNoMemory, t)
      | Some d \<Rightarrow>
          (case executeCommands e (gt_context_id t) (Some d) (md_retain d (gt_gpu t)) of
             (ret, g) \<Rightarrow> (ret, t\<lparr>gt_gpu := md_release d g\<rparr>)))"

definition submitVirglCommand :: "device_env \<Rightarrow> u32 list \<Rightarrow> VMOpenGLTranslator \<Rightarrow> io_return \<times> VMOpenGLTranslator" where
  "submitVirglCommand e cmd t = submit_block e (word_bytes cmd) t"

definition createVirglBuffer :: "device_env \<Rightarrow> u32 \<Rightarrow> u32 \<Rightarrow> u32 \<Rightarrow> VMOpenGLTranslator \<Rightarrow> io_return \<times> VMOpenGLTranslator" where
  "createVirglBuffer e len bind_flags handle t =
     (if \<not> gt_accelerator t \<or> \<not> gt_has_gpu t then (kIOReturnNotReady, t)
      else case createResource3D e handle 0 VIRGL_FORMAT_R8G8B8A8_UNORM bind_flags len 1 1 (gt_gpu t) of
             (ret, g) \<Rightarrow> (ret, t\<lparr>gt_gpu := g\<rparr>))"

text \<open>
  The upload: a block of \<open>12 + (size + 3) / 4\<close> words in 32-bit arithmetic, eleven parameter words and a copy of \<open>len\<close> bytes. A
  copy that reads past \<open>data\<close> or writes past the block is a panic.
\<close>

definition upload_header :: "u32 \<Rightarrow> u32 \<Rightarrow> u32 \<Rightarrow> u32 \<Rightarrow> u32 list" where
  "upload_header handle words len off =
     [VIRGL_CMD_HDR VIRGL_CCMD_RESOURCE_INLINE_WRITE (words - 1), handle, 0, 0, 0, 0, off, 0, 0, len, 1, 1]"

definition uploadBufferData ::
  "device_env \<Rightarrow> u32 \<Rightarrow> bytes option \<Rightarrow> u32 \<Rightarrow> u32 \<Rightarrow> VMOpenGLTranslator \<Rightarrow> io_return \<times> VMOpenGLTranslator" where
  "uploadBufferData e handle data len off t =
     (case data of
        None \<Rightarrow> (kIOReturnBadArgument, t)
      | Some src \<Rightarrow>
          if \<not> gt_accelerator t then (kIOReturnBadArgument, t)
          else let words = 12 + (len + 3) div 4
               in case kmalloc e (tr_tick (g_tr (gt_gpu t))) (unat words * 4) of
                    None \<Rightarrow> (kIOReturnNoMemory, t)
                  | Some mem \<Rightarrow>
                      if unat len > length src \<or> 48 + unat len > unat words * 4 then (Kernel_panic, t)
                      else submit_block e (word_bytes (upload_header handle words len off) @ take (unat len) src
                             @ drop (48 + unat len) (buf_read (unat words * 4) mem)) t)"

definition elements_words :: "u32 \<Rightarrow> u32 list" where
  "elements_words handle =
     [VIRGL_CMD_HDR VIRGL_CCMD_CREATE_OBJECT 14, handle, VIRGL_OBJECT_VERTEX_ELEMENTS,
      0, 0, 0, PIPE_FORMAT_R32G32B32A32_FLOAT, 16, 0, 0, PIPE_FORMAT_R32G32B32A32_FLOAT, 32, 0, 0, PIPE_FORMAT_R32G32B32A32_FLOAT]"

text \<open>The handle the caller allocated is replaced by a second one.\<close>

definition createVertexElements :: "device_env \<Rightarrow> VMOpenGLTranslator \<Rightarrow> io_return \<times> u32 \<times> VMOpenGLTranslator" where
  "createVertexElements e t =
     (case allocateHandle t of (handle, t1) \<Rightarrow>
        case submitVirglCommand e (elements_words handle) t1 of (ret, t2) \<Rightarrow> (ret, handle, t2))"

definition glPrimitiveToVirgl :: "u32 \<Rightarrow> u32" where
  "glPrimitiveToVirgl mode = (if mode \<le> 9 then mode else 4)"

definition bind_words :: "u32 \<Rightarrow> u32 list" where
  "bind_words ve = [VIRGL_CMD_HDR VIRGL_CCMD_BIND_OBJECT 2, ve, VIRGL_OBJECT_VERTEX_ELEMENTS]"

definition buffers_words :: "u32 \<Rightarrow> u32 list" where
  "buffers_words vbo = [VIRGL_CMD_HDR VIRGL_CCMD_SET_VERTEX_BUFFERS 4, 48, 0, vbo, 0]"

definition draw_words :: "u32 \<Rightarrow> u32 \<Rightarrow> u32 list" where
  "draw_words count mode =
     [VIRGL_CMD_HDR VIRGL_CCMD_DRAW_VBO 11, 0, count, glPrimitiveToVirgl mode, 0, 1, 0, 0, 0, 0, 0, count - 1]"

definition flushVertexBatch :: "device_env \<Rightarrow> VMOpenGLTranslator \<Rightarrow> io_return \<times> VMOpenGLTranslator" where
  "flushVertexBatch e t =
     (let st = gt_state t; n = gl_vertex_count st
      in if n = 0 then (kIOReturnSuccess, t)
         else if \<not> gt_accelerator t then (kIOReturnNotReady, t)
         else case allocateHandle t of (vbo, t1) \<Rightarrow>
           case createVirglBuffer e (n * 12 * 4) VIRGL_BIND_VERTEX_BUFFER vbo t1 of (r1, t2) \<Rightarrow>
             if r1 \<noteq> kIOReturnSuccess then (r1, t2)
             else case uploadBufferData e vbo (Some (word_bytes (gl_vertex_data st))) (n * 12 * 4) 0 t2 of (r2, t3) \<Rightarrow>
               if r2 \<noteq> kIOReturnSuccess then (r2, t3)
               else case allocateHandle t3 of (_, t4) \<Rightarrow>
                 case createVertexElements e t4 of (r3, ve, t5) \<Rightarrow>
                   if r3 \<noteq> kIOReturnSuccess then (r3, t5)
                   else let t6 = snd (submitVirglCommand e (bind_words ve) t5);
                            t7 = snd (submitVirglCommand e (buffers_words vbo) t6)
                        in submitVirglCommand e (draw_words n (gl_primitive_mode st)) t7)"

section \<open>Immediate mode\<close>

definition glBegin :: "u32 \<Rightarrow> VMOpenGLTranslator \<Rightarrow> io_return \<times> VMOpenGLTranslator" where
  "glBegin mode t =
     (if gl_in_begin_end (gt_state t) then (kIOReturnError, t)
      else (kIOReturnSuccess,
            upd_state (\<lambda>st. st\<lparr>gl_in_begin_end := True, gl_primitive_mode := mode, gl_vertex_count := 0\<rparr>) t))"

definition glEnd :: "device_env \<Rightarrow> VMOpenGLTranslator \<Rightarrow> io_return \<times> VMOpenGLTranslator" where
  "glEnd e t =
     (if \<not> gl_in_begin_end (gt_state t) then (kIOReturnError, t)
      else flushVertexBatch e (upd_state (gl_in_begin_end_update (\<lambda>_. False)) t))"

text \<open>Twelve floats at \<open>vertex_count * 12\<close>; outside the block is a panic. The result of a flush of a full batch is ignored.\<close>

definition put_vertex :: "u32 list \<Rightarrow> VMGLState \<Rightarrow> VMGLState option" where
  "put_vertex pos st =
     (let off = unat (gl_vertex_count st * 12)
      in if off + 12 \<le> length (gl_vertex_data st)
         then Some (st\<lparr>gl_vertex_data := take off (gl_vertex_data st) @ pos @ gl_current_color st @ gl_current_texcoord st
                                          @ drop (off + 12) (gl_vertex_data st),
                       gl_vertex_count := gl_vertex_count st + 1\<rparr>)
         else None)"

definition glVertex4f :: "device_env \<Rightarrow> u32 \<Rightarrow> u32 \<Rightarrow> u32 \<Rightarrow> u32 \<Rightarrow> VMOpenGLTranslator \<Rightarrow> io_return \<times> VMOpenGLTranslator" where
  "glVertex4f e x y z w t =
     (if \<not> gl_in_begin_end (gt_state t) then (kIOReturnError, t)
      else let t1 = (if gl_vertex_count (gt_state t) \<ge> MAX_BATCH_VERTICES
                     then upd_state (gl_vertex_count_update (\<lambda>_. 0)) (snd (flushVertexBatch e t)) else t)
           in case put_vertex [x, y, z, w] (gt_state t1) of
                None \<Rightarrow> (Kernel_panic, t1)
              | Some st \<Rightarrow> (kIOReturnSuccess, t1\<lparr>gt_state := st\<rparr>))"

definition glVertex2f :: "device_env \<Rightarrow> u32 \<Rightarrow> u32 \<Rightarrow> VMOpenGLTranslator \<Rightarrow> io_return \<times> VMOpenGLTranslator" where
  "glVertex2f e x y t = glVertex4f e x y F32_ZERO F32_ONE t"

definition glVertex3f :: "device_env \<Rightarrow> u32 \<Rightarrow> u32 \<Rightarrow> u32 \<Rightarrow> VMOpenGLTranslator \<Rightarrow> io_return \<times> VMOpenGLTranslator" where
  "glVertex3f e x y z t = glVertex4f e x y z F32_ONE t"

definition glColor4f :: "u32 \<Rightarrow> u32 \<Rightarrow> u32 \<Rightarrow> u32 \<Rightarrow> VMOpenGLTranslator \<Rightarrow> io_return \<times> VMOpenGLTranslator" where
  "glColor4f r g b a t = (kIOReturnSuccess, upd_state (gl_current_color_update (\<lambda>_. [r, g, b, a])) t)"

definition glColor3f :: "u32 \<Rightarrow> u32 \<Rightarrow> u32 \<Rightarrow> VMOpenGLTranslator \<Rightarrow> io_return \<times> VMOpenGLTranslator" where
  "glColor3f r g b t = glColor4f r g b F32_ONE t"

definition glTexCoord3f :: "u32 \<Rightarrow> u32 \<Rightarrow> u32 \<Rightarrow> VMOpenGLTranslator \<Rightarrow> io_return \<times> VMOpenGLTranslator" where
  "glTexCoord3f a b c t = (kIOReturnSuccess, upd_state (gl_current_texcoord_update (\<lambda>_. [a, b, c, F32_ONE])) t)"

definition glTexCoord2f :: "u32 \<Rightarrow> u32 \<Rightarrow> VMOpenGLTranslator \<Rightarrow> io_return \<times> VMOpenGLTranslator" where
  "glTexCoord2f a b t = glTexCoord3f a b F32_ZERO t"

definition glNormal3f :: "u32 \<Rightarrow> u32 \<Rightarrow> u32 \<Rightarrow> VMOpenGLTranslator \<Rightarrow> io_return \<times> VMOpenGLTranslator" where
  "glNormal3f x y z t = (kIOReturnSuccess, upd_state (gl_current_normal_update (\<lambda>_. [x, y, z])) t)"

section \<open>Clears, viewport and render target\<close>

definition clear_buffers :: "u32 \<Rightarrow> u32" where
  "clear_buffers msk = (if msk AND 0x4000 \<noteq> 0 then 4 else 0) OR (if msk AND 0x100 \<noteq> 0 then 1 else 0)
     OR (if msk AND 0x400 \<noteq> 0 then 2 else 0)"

definition glClear :: "device_env \<Rightarrow> u32 \<Rightarrow> VMOpenGLTranslator \<Rightarrow> io_return \<times> VMOpenGLTranslator" where
  "glClear e msk t =
     (if \<not> gt_accelerator t then (kIOReturnNotReady, t)
      else let st = gt_state t; c = gl_clear_color st; d = f64_of_f32 (gl_clear_depth st)
           in submitVirglCommand e [VIRGL_CMD_HDR VIRGL_CCMD_CLEAR 8, clear_buffers msk, c ! 0, c ! 1, c ! 2, c ! 3,
                ucast d, ucast (drop_bit 32 d), gl_clear_stencil st] t)"

definition glClearColor :: "u32 \<Rightarrow> u32 \<Rightarrow> u32 \<Rightarrow> u32 \<Rightarrow> VMOpenGLTranslator \<Rightarrow> io_return \<times> VMOpenGLTranslator" where
  "glClearColor r g b a t = (kIOReturnSuccess, upd_state (gl_clear_color_update (\<lambda>_. [r, g, b, a])) t)"

text \<open>The depth is a double stored in a float.\<close>

definition glClearDepth :: "u64 \<Rightarrow> VMOpenGLTranslator \<Rightarrow> io_return \<times> VMOpenGLTranslator" where
  "glClearDepth d t = (kIOReturnSuccess, upd_state (gl_clear_depth_update (\<lambda>_. f32_of_f64 d)) t)"

definition viewport_words :: "VMGLState \<Rightarrow> u32 list" where
  "viewport_words st =
     (let sx = f32_half (f32_of_int (sint (gl_viewport_width st)));
          sy = f32_half (f32_of_int (sint (gl_viewport_height st)));
          sz = f32_half (f32_sub (gl_depth_far st) (gl_depth_near st));
          tx = f32_add (f32_of_int (sint (gl_viewport_x st))) sx;
          ty = f32_add (f32_of_int (sint (gl_viewport_y st))) sy;
          tz = f32_half (f32_add (gl_depth_far st) (gl_depth_near st))
      in [VIRGL_CMD_HDR VIRGL_CCMD_SET_VIEWPORT_STATE 7, 0, sx, sy, sz, tx, ty, tz])"

definition updateViewport :: "device_env \<Rightarrow> VMOpenGLTranslator \<Rightarrow> io_return \<times> VMOpenGLTranslator" where
  "updateViewport e t =
     (if \<not> gt_accelerator t then (kIOReturnNotReady, t) else submitVirglCommand e (viewport_words (gt_state t)) t)"

definition glViewport :: "device_env \<Rightarrow> u32 \<Rightarrow> u32 \<Rightarrow> u32 \<Rightarrow> u32 \<Rightarrow> VMOpenGLTranslator \<Rightarrow> io_return \<times> VMOpenGLTranslator" where
  "glViewport e x y w h t =
     updateViewport e (upd_state (\<lambda>st. st\<lparr>gl_viewport_x := x, gl_viewport_y := y, gl_viewport_width := w, gl_viewport_height := h\<rparr>) t)"

definition createDefaultShaders :: "VMOpenGLTranslator \<Rightarrow> io_return \<times> VMOpenGLTranslator" where
  "createDefaultShaders t =
     (if gt_shaders_created t then (kIOReturnSuccess, t)
      else if \<not> gt_accelerator t \<or> \<not> gt_has_gpu t then (kIOReturnNotReady, t)
      else (kIOReturnSuccess, t\<lparr>gt_shaders_created := True\<rparr>))"

definition setupRenderTarget :: "device_env \<Rightarrow> VMOpenGLTranslator \<Rightarrow> io_return \<times> VMOpenGLTranslator" where
  "setupRenderTarget e t =
     (if \<not> gt_accelerator t \<or> \<not> gt_has_gpu t then (kIOReturnNotReady, t)
      else case submitVirglCommand e [VIRGL_CMD_HDR VIRGL_CCMD_SET_FRAMEBUFFER_STATE 10, 1, 3, 2, 0, 0, 0, 0, 0, 0, 0] t of (ret, t1) \<Rightarrow>
        (ret, if ret = kIOReturnSuccess
              then upd_state (\<lambda>st. st\<lparr>gl_current_fbo := 1, gl_color_buffer_handle := 2, gl_depth_buffer_handle := 3\<rparr>) t1 else t1))"

definition initWithAccelerator :: "device_env \<Rightarrow> bool \<Rightarrow> bool \<Rightarrow> u32 \<Rightarrow> VMOpenGLTranslator \<Rightarrow> bool \<times> VMOpenGLTranslator" where
  "initWithAccelerator e accel has_gpu ctx t =
     (let t1 = t\<lparr>gt_accelerator := accel, gt_has_gpu := has_gpu, gt_context_id := ctx\<rparr>;
          t2 = snd (createDefaultShaders t1);
          t3 = snd (setupRenderTarget e t2)
      in (True, snd (glViewport e 0 0 640 480 t3)))"

section \<open>State flags\<close>

definition set_capability :: "bool \<Rightarrow> u32 \<Rightarrow> VMOpenGLTranslator \<Rightarrow> io_return \<times> VMOpenGLTranslator" where
  "set_capability b cap t =
     (if cap = GL_BLEND then (kIOReturnSuccess, upd_state (gl_blend_enabled_update (\<lambda>_. b)) t)
      else if cap = GL_DEPTH_TEST then (kIOReturnSuccess, upd_state (gl_depth_test_enabled_update (\<lambda>_. b)) t)
      else if cap = GL_CULL_FACE then (kIOReturnSuccess, upd_state (gl_cull_face_enabled_update (\<lambda>_. b)) t)
      else if cap = GL_TEXTURE_2D then
        (if unat (gl_current_texture_unit (gt_state t)) < length (gl_texture_enabled (gt_state t))
         then (kIOReturnSuccess,
               upd_state (\<lambda>st. st\<lparr>gl_texture_enabled := (gl_texture_enabled st)[unat (gl_current_texture_unit st) := b]\<rparr>) t)
         else (Kernel_panic, t))
      else (kIOReturnSuccess, t))"

definition glEnable :: "u32 \<Rightarrow> VMOpenGLTranslator \<Rightarrow> io_return \<times> VMOpenGLTranslator" where
  "glEnable cap t = set_capability True cap t"

definition glDisable :: "u32 \<Rightarrow> VMOpenGLTranslator \<Rightarrow> io_return \<times> VMOpenGLTranslator" where
  "glDisable cap t = set_capability False cap t"

text \<open>A program: the calls of the class that do something; the others return success and change nothing.\<close>

datatype gl_call =
    Begin u32 | End | Vertex2 u32 u32 | Vertex3 u32 u32 u32 | Vertex4 u32 u32 u32 u32
  | Color3 u32 u32 u32 | Color4 u32 u32 u32 u32 | Texcoord2 u32 u32 | Texcoord3 u32 u32 u32 | Normal3 u32 u32 u32
  | Clear u32 | Clear_color u32 u32 u32 u32 | Clear_depth u64 | Viewport u32 u32 u32 u32
  | Load_identity | Matrix_mode u32 | Enable u32 | Disable u32 | Idle

fun gl_exec :: "device_env \<Rightarrow> gl_call \<Rightarrow> VMOpenGLTranslator \<Rightarrow> io_return \<times> VMOpenGLTranslator" where
  "gl_exec e (Begin mode) = glBegin mode"
| "gl_exec e End = glEnd e"
| "gl_exec e (Vertex2 x y) = glVertex2f e x y"
| "gl_exec e (Vertex3 x y z) = glVertex3f e x y z"
| "gl_exec e (Vertex4 x y z w) = glVertex4f e x y z w"
| "gl_exec e (Color3 r g b) = glColor3f r g b"
| "gl_exec e (Color4 r g b a) = glColor4f r g b a"
| "gl_exec e (Texcoord2 a b) = glTexCoord2f a b"
| "gl_exec e (Texcoord3 a b c) = glTexCoord3f a b c"
| "gl_exec e (Normal3 x y z) = glNormal3f x y z"
| "gl_exec e (Clear msk) = glClear e msk"
| "gl_exec e (Clear_color r g b a) = glClearColor r g b a"
| "gl_exec e (Clear_depth d) = glClearDepth d"
| "gl_exec e (Viewport x y w h) = glViewport e x y w h"
| "gl_exec e Load_identity = glLoadIdentity"
| "gl_exec e (Matrix_mode m) = glMatrixMode m"
| "gl_exec e (Enable cap) = glEnable cap"
| "gl_exec e (Disable cap) = glDisable cap"
| "gl_exec e Idle = (\<lambda>t. (kIOReturnSuccess, t))"

fun gl_run :: "device_env \<Rightarrow> gl_call list \<Rightarrow> VMOpenGLTranslator \<Rightarrow> io_return list \<times> VMOpenGLTranslator" where
  "gl_run e [] t = ([], t)"
| "gl_run e (c # cs) t =
     (case gl_exec e c t of (r, t1) \<Rightarrow> case gl_run e cs t1 of (rs, t2) \<Rightarrow> (r # rs, t2))"

end
