(* ===== verification/Gl_Drawing.thy ===== *)
theory Gl_Drawing
  imports Gl_Translator "HOL-Library.Sublist"
begin

text \<open>
  What the GL translator guarantees: no program of GL calls leaves the vertex block, the calls between \<^verbatim>\<open>glBegin\<close> and
  \<^verbatim>\<open>glEnd\<close> reach the host as the vertices they describe, the viewport floats are exact, and where the length field of an upload
  stops being right.
\<close>

section \<open>What the host reads\<close>

fun bytes_words :: "bytes \<Rightarrow> u32 list" where
  "bytes_words (a # b # c # d # bs) = rd32 [a, b, c, d] # bytes_words bs"
| "bytes_words _ = []"

lemma bytes_words_inverse [simp]: "bytes_words (word_bytes ws) = ws"
proof (induction ws)
  case (Cons w ws)
  have "length (le32 w) = 4" by simp
  then obtain a b c d where l: "le32 w = [a, b, c, d]" by (auto simp: length_Suc_conv eval_nat_numeral simp del: length_le32)
  then have "rd32 [a, b, c, d] = w" using rd32_le32 [of w "[]"] by simp
  then show ?case using Cons l by (simp add: word_bytes_def)
qed (simp add: word_bytes_def)

lemma word_bytes_append: "word_bytes (xs @ ys) = word_bytes xs @ word_bytes ys"
  by (simp add: word_bytes_def)

lemma take_word_bytes: "take (4 * k) (word_bytes ws) = word_bytes (take k ws)"
proof (induction ws arbitrary: k)
  case (Cons w ws)
  then show ?case by (cases k) (simp_all add: word_bytes_def)
qed (simp add: word_bytes_def)

text \<open>A command as the host sees it: the creation of a resource, or the words submitted to a context.\<close>

datatype host_command = Host_create u32 u32 | Host_virgl u32 "u32 list" | Host_other

fun host_view :: "(virtio_gpu_ctrl_hdr \<times> gpu_body) option \<Rightarrow> host_command" where
  "host_view (Some (h, Resource_create_3d rid _ _ _ w _ _ _ _ _ _)) = Host_create rid w"
| "host_view (Some (h, Cmd_submit _ _ payload)) = Host_virgl (hdr_ctx_id h) (bytes_words payload)"
| "host_view _ = Host_other"

definition host_log :: "gpu \<Rightarrow> host_command list" where
  "host_log g = map host_view (seen g)"

text \<open>\<^verbatim>\<open>withBytes\<close> makes a descriptor of the bytes it is given.\<close>

definition bytes_contract :: "device_env \<Rightarrow> bool" where
  "bytes_contract e \<longleftrightarrow> (\<forall>n bs d. bytes_desc e n bs = Some d \<longrightarrow> md_map d = Some bs \<and> md_length d = length bs)"

section \<open>One submission\<close>

lemma sent_publish: "submit_publish e cmd resp c r temp cp rp t = (ret, resp', t') \<Longrightarrow> tr_sent t' = tr_sent t @ [(Control, cmd)]"
proof -
  assume a: "submit_publish e cmd resp c r temp cp rp t = (ret, resp', t')"
  let ?p = "publish Control c r cmd cp rp (min (resp_size resp) VIRTIO_GPU_RESP_BUF_SIZE) t"
  let ?t2 = "?p\<lparr>m_notify_count := m_notify_count ?p + 1\<rparr>"
  have s: "tr_sent ?t2 = tr_sent t @ [(Control, cmd)]" by (simp add: publish_def)
  show ?thesis
  proof (cases "notify_device Control ?t2")
    case None
    with a s show ?thesis by (auto simp: submit_publish_def Let_def)
  next
    case (Some t3)
    obtain b t4 where q: "poll_used e Control 150 t3 = (b, t4)" by fastforce
    note f = notify_device_Some [OF Some] poll_frame [OF q]
    show ?thesis using a s f Some q
      by (cases b) (auto simp: submit_publish_def Let_def submit_complete_def release_temp_def split: if_splits)
  qed
qed

lemma sent_submit:
  assumes "submitCommand e (Some cmd) resp t = (ret, resp', t')"
  shows "tr_sent t' = tr_sent t \<or> tr_sent t' = tr_sent t @ [(Control, cmd)]"
proof -
  have phys: "tr_sent u' = tr_sent u \<or> tr_sent u' = tr_sent u @ [(Control, cmd)]"
    if "submit_phys e cmd resp c r temp cp u = (ret, resp', u')" for c r temp cp u u' resp' ret
    using that sent_publish by (fastforce simp: submit_phys_def release_temp_def split: if_splits option.splits)
  have stage: "tr_sent u' = tr_sent u \<or> tr_sent u' = tr_sent u @ [(Control, cmd)]"
    if "submit_stage e cmd resp c r u = (ret, resp', u')" for c r u u' resp' ret
    using that phys by (fastforce simp: submit_stage_def split: if_splits option.splits)
  show ?thesis
    using assms by (auto simp: submitCommand_def submit_locked_def Let_def device_runs_def split: if_splits option.splits sum.splits prod.splits dest!: stage)
qed

lemma host_log_tr: "g_tr g = g_tr h \<Longrightarrow> host_log g = host_log h"
  by (simp add: host_log_def seen_def)

lemma host_log_refs [simp]: "host_log (md_retain d g) = host_log g" "host_log (md_release d g) = host_log g"
  by (rule host_log_tr, simp)+

text \<open>The driver without the references on descriptors.\<close>

lemma execute_log:
  assumes "executeCommands e ctx (Some d) g = (ret, g')" "md_map d = Some bs" "md_length d = length bs" "length bs < 2 ^ 32"
  shows "host_log g' = host_log g \<or> host_log g' = host_log g @ [Host_virgl ctx (bytes_words bs)]"
    and "ret = kIOReturnSuccess \<Longrightarrow> host_log g' = host_log g @ [Host_virgl ctx (bytes_words bs)]"
proof -
  have *: "(host_log g' = host_log g \<or> host_log g' = host_log g @ [Host_virgl ctx (bytes_words bs)])
     \<and> (ret = kIOReturnSuccess \<longrightarrow> host_log g' = host_log g @ [Host_virgl ctx (bytes_words bs)])"
  proof (cases "supports3D g \<and> bs \<noteq> [] \<and> kmalloc e (tr_tick (g_tr g)) (32 + md_length d) \<noteq> None")
    case True
    then obtain mem where mem: "kmalloc e (tr_tick (g_tr g)) (32 + md_length d) = Some mem" by blast
    let ?c = "submit3d_command mem ctx (buf_read (md_length d) bs)"
    obtain ty where s: "send_hdr e ?c g = (ret, ty, g')"
      using assms(1-3) True mem by (auto simp: executeCommands_def split: prod.splits)
    obtain resp where r: "submitCommand e (Some ?c) (Some (zeros 24)) (g_tr g) = (ret, resp, g_tr g')"
      using s by (auto simp: send_hdr_def send_def split: prod.splits)
    have d: "host_view (wire_decode ?c) = Host_virgl ctx (bytes_words bs)"
    proof -
      let ?m = "buf_read 32 mem"
      let ?h = "\<lparr>hdr_type = ctrl_code VIRTIO_GPU_CMD_SUBMIT_3D, hdr_flags = rd32 (drop 4 ?m), hdr_fence_id = rd64 (drop 8 ?m),
        hdr_ctx_id = ctx, hdr_ring_idx = ?m ! 20, hdr_padding = (?m ! 21, ?m ! 22, ?m ! 23)\<rparr>"
      let ?b = "Cmd_submit (word_of_nat (length bs)) (rd32 (drop 28 ?m)) bs"
      have "body_ok (hdr_type ?h) ?b" using assms(4) by (simp add: unat_of_nat)
      then have "wire_decode (wire_encode ?h ?b) = Some (?h, ?b)" by (rule wire_dec_enc)
      moreover have "?c = wire_encode ?h ?b" using assms(3) by (simp add: submit3d_command_def Let_def buf_read_def)
      ultimately show ?thesis by simp
    qed
    have l: "host_log g' = host_log g @ [Host_virgl ctx (bytes_words bs)]" if "tr_sent (g_tr g') = tr_sent (g_tr g) @ [(Control, ?c)]"
      using that d by (simp add: host_log_def seen_def)
    have n: "host_log g' = host_log g" if "tr_sent (g_tr g') = tr_sent (g_tr g)" using that by (simp add: host_log_def seen_def)
    have "ret = kIOReturnSuccess \<Longrightarrow> tr_sent (g_tr g') = tr_sent (g_tr g) @ [(Control, ?c)]"
      using effect_submitCommand [OF r] by (simp add: submit_effect_def)
    then show ?thesis using sent_submit [OF r] l n by blast
  next
    case False
    then show ?thesis using assms(1-3) by (auto simp: executeCommands_def split: if_splits option.splits)
  qed
  then show "host_log g' = host_log g \<or> host_log g' = host_log g @ [Host_virgl ctx (bytes_words bs)]"
    "ret = kIOReturnSuccess \<Longrightarrow> host_log g' = host_log g @ [Host_virgl ctx (bytes_words bs)]" by auto
qed

lemma create3d_log:
  assumes "createResource3D e rid target fmt bnd w h d g = (ret, g')" "ret = kIOReturnSuccess"
  shows "host_log g' = host_log g @ [Host_create rid w]"
proof -
  let ?c = "wire_encode (mk_hdr VIRTIO_GPU_CMD_RESOURCE_CREATE_3D 0) (create3d_body rid target fmt bnd w h d)"
  obtain r ty g1 where s: "send_hdr e ?c g = (r, ty, g1)" by (rule prod_cases3)
  have t: "g_tr g' = g_tr g1" "r = kIOReturnSuccess"
    using assms s pool_register_tr by (auto simp: createResource3D_def Let_def split: if_splits option.splits)
  have "host_view (wire_decode ?c) = Host_create rid w" by (simp add: create3d_body_def wire_dec_enc mk_hdr_def)
  then show ?thesis using send_hdr_sent [OF s] t by (simp add: host_log_def seen_def)
qed

lemma submit_block_log:
  assumes "submit_block e c t = (ret, t')" "bytes_contract e" "length c < 2 ^ 32"
  shows "host_log (gt_gpu t') = host_log (gt_gpu t) \<or> host_log (gt_gpu t') = host_log (gt_gpu t) @ [Host_virgl (gt_context_id t) (bytes_words c)]"
    and "ret = kIOReturnSuccess \<Longrightarrow> host_log (gt_gpu t') = host_log (gt_gpu t) @ [Host_virgl (gt_context_id t) (bytes_words c)]"
proof -
  obtain d g where "(ret \<noteq> kIOReturnSuccess \<and> t' = t) \<or> (bytes_desc e (tr_tick (g_tr (gt_gpu t))) c = Some d
      \<and> executeCommands e (gt_context_id t) (Some d) (md_retain d (gt_gpu t)) = (ret, g) \<and> gt_gpu t' = md_release d g)"
    using assms(1) by (fastforce simp: submit_block_def split: if_splits option.splits prod.splits)
  moreover have "md_map d = Some c \<and> md_length d = length c" if "bytes_desc e n c = Some d" for n
    using that assms(2) by (simp add: bytes_contract_def)
  ultimately show "host_log (gt_gpu t') = host_log (gt_gpu t) \<or> host_log (gt_gpu t') = host_log (gt_gpu t) @ [Host_virgl (gt_context_id t) (bytes_words c)]"
    "ret = kIOReturnSuccess \<Longrightarrow> host_log (gt_gpu t') = host_log (gt_gpu t) @ [Host_virgl (gt_context_id t) (bytes_words c)]"
    using execute_log [of e "gt_context_id t" d "md_retain d (gt_gpu t)" ret g c] assms(3) by auto
qed

section \<open>A batch\<close>

text \<open>The shape of the state: the vertex block and the counter, the current attributes, the texture flags and the depth
  range, which no call changes.\<close>

definition gl_ok :: "VMOpenGLTranslator \<Rightarrow> bool" where
  "gl_ok t \<longleftrightarrow> length (gl_vertex_data (gt_state t)) = 120000 \<and> unat (gl_vertex_count (gt_state t)) \<le> 10000
     \<and> length (gl_current_color (gt_state t)) = 4 \<and> length (gl_current_texcoord (gt_state t)) = 4
     \<and> gl_current_texture_unit (gt_state t) = 0 \<and> length (gl_texture_enabled (gt_state t)) = 32
     \<and> gl_depth_near (gt_state t) = F32_ZERO \<and> gl_depth_far (gt_state t) = F32_ONE"

lemma batch_sizes:
  assumes "unat (n :: u32) \<le> 10000"
  shows "unat (n * 12 * 4) = 48 * unat n" "unat (12 + (n * 12 * 4 + 3) div 4) = 12 + 12 * unat n" "unat (n * 12) = 12 * unat n"
proof -
  define k where "k = unat n"
  have n: "n = word_of_nat k" by (simp add: k_def)
  have k: "k \<le> 10000" using assms by (simp add: k_def)
  have m: "n * 12 * 4 = word_of_nat (48 * k)" "n * 12 = word_of_nat (12 * k)" by (simp_all add: n)
  have w: "unat (word_of_nat (48 * k) :: u32) = 48 * k" "unat (word_of_nat (12 * k) :: u32) = 12 * k"
    using k by (subst unat_of_nat, simp)+
  show s: "unat (n * 12 * 4) = 48 * unat n" "unat (n * 12) = 12 * unat n" using w m by (metis k_def)+
  have "unat (n * 12 * 4 + 3) = 48 * k + 3" unfolding unat_plus_if' s(1) k_def [symmetric] using k by simp
  then have "unat ((n * 12 * 4 + 3) div 4) = 12 * k" by (simp add: unat_div)
  then show "unat (12 + (n * 12 * 4 + 3) div 4) = 12 + 12 * unat n" using k by (simp add: unat_word_ariths k_def)
qed

definition upload_words :: "u32 \<Rightarrow> u32 \<Rightarrow> u32 list \<Rightarrow> u32 list" where
  "upload_words handle n data = upload_header handle (12 + (n * 12 * 4 + 3) div 4) (n * 12 * 4) 0 @ take (12 * unat n) data"

lemma upload_eq:
  assumes "unat n \<le> 10000" "12 * unat n \<le> length data"
  shows "uploadBufferData e h (Some (word_bytes data)) (n * 12 * 4) 0 t =
    (if \<not> gt_accelerator t then (kIOReturnBadArgument, t)
     else if kmalloc e (tr_tick (g_tr (gt_gpu t))) (unat (12 + (n * 12 * 4 + 3) div 4) * 4) = None then (kIOReturnNoMemory, t)
     else submit_block e (word_bytes (upload_words h n data)) t)"
proof -
  note sz = batch_sizes [OF assms(1)]
  have "take (48 * unat n) (word_bytes data) = word_bytes (take (12 * unat n) data)" using take_word_bytes [of "12 * unat n" data] by simp
  then have w: "word_bytes (upload_words h n data) = word_bytes (upload_header h (12 + (n * 12 * 4 + 3) div 4) (n * 12 * 4) 0)
      @ take (48 * unat n) (word_bytes data)" by (simp add: upload_words_def word_bytes_append)
  have "drop (48 + 48 * unat n) (buf_read ((12 + 12 * unat n) * 4) mem) = []" for mem by (simp add: buf_read_def)
  then show ?thesis using assms(2) by (auto simp: uploadBufferData_def Let_def w sz [simplified] split: option.splits)
qed

lemma upload_batch:
  assumes "uploadBufferData e h (Some (word_bytes data)) (n * 12 * 4) 0 t = (ret, t')" "unat n \<le> 10000" "12 * unat n \<le> length data"
  shows "ret \<noteq> kIOReturnSuccess \<and> ret \<noteq> Kernel_panic \<and> t' = t \<or> submit_block e (word_bytes (upload_words h n data)) t = (ret, t')"
  using assms(1) unfolding upload_eq [OF assms(2,3)] by (auto split: if_splits)

text \<open>A step that touches only the driver object, without a panic of the driver's.\<close>

definition gl_fixed :: "VMOpenGLTranslator \<Rightarrow> bool \<times> bool \<times> u32 \<times> VMGLState \<times> bool \<times> bool \<times> bool \<times> int" where
  "gl_fixed t = (gt_accelerator t, gt_has_gpu t, gt_context_id t, gt_state t, gt_shaders_created t, gt_command_buffer t, gt_vertex_block t, gt_blocks t)"

definition gl_step :: "VMOpenGLTranslator \<Rightarrow> io_return \<times> VMOpenGLTranslator \<Rightarrow> bool" where
  "gl_step t x \<longleftrightarrow> gl_fixed (snd x) = gl_fixed t \<and> gt_next_handle (snd x) = gt_next_handle t \<and> safe (fst x) (gt_gpu t) (gt_gpu (snd x))"

lemma submit_block_step: "gl_step t (submit_block e c t)"
  using safe_executeCommands by (fastforce simp: submit_block_def gl_step_def gl_fixed_def safe_def split: option.splits prod.splits)

lemma submit_step: "gl_step t (submitVirglCommand e c t)"
  unfolding submitVirglCommand_def by (rule submit_block_step)

lemma upload_step:
  assumes "unat n \<le> 10000" "12 * unat n \<le> length data"
  shows "gl_step t (uploadBufferData e h (Some (word_bytes data)) (n * 12 * 4) 0 t)"
proof -
  obtain r t' where s: "uploadBufferData e h (Some (word_bytes data)) (n * 12 * 4) 0 t = (r, t')" by fastforce
  show ?thesis unfolding s
    using upload_batch [OF s assms] submit_block_step [of t e "word_bytes (upload_words h n data)"] by (auto simp: gl_step_def)
qed

lemma create_buffer_step: "gl_step t (createVirglBuffer e len bnd h t)"
  using safe_createResource3D by (fastforce simp: createVirglBuffer_def gl_step_def gl_fixed_def split: prod.splits)

lemma create_buffer_log:
  assumes "fst (createVirglBuffer e len bnd h t) = kIOReturnSuccess"
  shows "host_log (gt_gpu (snd (createVirglBuffer e len bnd h t))) = host_log (gt_gpu t) @ [Host_create h len]"
  using assms create3d_log by (fastforce simp: createVirglBuffer_def split: if_splits prod.splits)

lemma gl_step_trans: "gl_step t x \<Longrightarrow> gl_step (snd x) y \<Longrightarrow> gl_step t y"
  by (simp add: gl_step_def safe_def)

text \<open>The run of a flush: every intermediate translator, and the stage at which it ended.\<close>

definition flush_stages ::
  "device_env \<Rightarrow> VMOpenGLTranslator \<Rightarrow> io_return \<times> VMOpenGLTranslator \<Rightarrow> io_return \<times> VMOpenGLTranslator \<Rightarrow> io_return \<times> VMOpenGLTranslator
     \<Rightarrow> VMOpenGLTranslator \<Rightarrow> VMOpenGLTranslator \<Rightarrow> io_return \<times> VMOpenGLTranslator \<Rightarrow> bool" where
  "flush_stages e t c u v t6 t7 d \<longleftrightarrow>
     (let st = gt_state t; n = gl_vertex_count st; vbo = gt_next_handle t
      in c = createVirglBuffer e (n * 12 * 4) VIRGL_BIND_VERTEX_BUFFER vbo (t\<lparr>gt_next_handle := vbo + 1\<rparr>)
       \<and> u = uploadBufferData e vbo (Some (word_bytes (gl_vertex_data st))) (n * 12 * 4) 0 (snd c)
       \<and> v = submitVirglCommand e (elements_words (gt_next_handle (snd u) + 1))
               ((snd u)\<lparr>gt_next_handle := gt_next_handle (snd u) + 1 + 1\<rparr>)
       \<and> t6 = snd (submitVirglCommand e (bind_words (gt_next_handle (snd u) + 1)) (snd v))
       \<and> t7 = snd (submitVirglCommand e (buffers_words vbo) t6)
       \<and> d = submitVirglCommand e (draw_words n (gl_primitive_mode st)) t7)"

lemma flush_unfold:
  assumes "gl_vertex_count (gt_state t) \<noteq> 0" "gt_accelerator t" "flush_stages e t c u v t6 t7 d"
  shows "flushVertexBatch e t = (if fst c \<noteq> kIOReturnSuccess then c else if fst u \<noteq> kIOReturnSuccess then u
           else if fst v \<noteq> kIOReturnSuccess then v else d)"
  using assms
  by (auto simp: flushVertexBatch_def flush_stages_def Let_def allocateHandle_def createVertexElements_def split: prod.splits)

lemma flush_stages_ex: "\<exists>c u v t6 t7 d. flush_stages e t c u v t6 t7 d"
  unfolding flush_stages_def Let_def by blast

lemma submit_log:
  assumes "bytes_contract e" "length c < 2 ^ 30"
  shows "\<exists>xs. host_log (gt_gpu (snd (submitVirglCommand e c t))) = host_log (gt_gpu t) @ xs \<and> subseq xs [Host_virgl (gt_context_id t) c]"
    and "fst (submitVirglCommand e c t) = kIOReturnSuccess \<Longrightarrow>
           host_log (gt_gpu (snd (submitVirglCommand e c t))) = host_log (gt_gpu t) @ [Host_virgl (gt_context_id t) c]"
proof -
  obtain r t' where s: "submit_block e (word_bytes c) t = (r, t')" by fastforce
  have "length (word_bytes c) < 2 ^ 32" using assms(2) by simp
  note l = submit_block_log [OF s assms(1) this]
  show "\<exists>xs. host_log (gt_gpu (snd (submitVirglCommand e c t))) = host_log (gt_gpu t) @ xs \<and> subseq xs [Host_virgl (gt_context_id t) c]"
    using l(1) s by (auto simp: submitVirglCommand_def)
  show "host_log (gt_gpu (snd (submitVirglCommand e c t))) = host_log (gt_gpu t) @ [Host_virgl (gt_context_id t) c]"
    if "fst (submitVirglCommand e c t) = kIOReturnSuccess" using l(2) s that by (simp add: submitVirglCommand_def)
qed

lemma flush_step:
  assumes "gl_ok t"
  shows "gl_fixed (snd (flushVertexBatch e t)) = gl_fixed t" "safe (fst (flushVertexBatch e t)) (gt_gpu t) (gt_gpu (snd (flushVertexBatch e t)))"
proof -
  have "gl_fixed (snd (flushVertexBatch e t)) = gl_fixed t \<and> safe (fst (flushVertexBatch e t)) (gt_gpu t) (gt_gpu (snd (flushVertexBatch e t)))"
  proof (cases "gl_vertex_count (gt_state t) = 0 \<or> \<not> gt_accelerator t")
    case True
    then show ?thesis by (auto simp: flushVertexBatch_def Let_def)
  next
    case False
    obtain c u v t6 t7 d where s: "flush_stages e t c u v t6 t7 d" using flush_stages_ex by blast
    have n: "unat (gl_vertex_count (gt_state t)) \<le> 10000" "12 * unat (gl_vertex_count (gt_state t)) \<le> length (gl_vertex_data (gt_state t))"
      using assms by (simp_all add: gl_ok_def)
    let ?h = "\<lambda>k t. t\<lparr>gt_next_handle := k\<rparr>"
    have h: "gl_fixed (?h k t) = gl_fixed t" "gt_gpu (?h k t) = gt_gpu t" for k t by (simp_all add: gl_fixed_def)
    note st = s [unfolded flush_stages_def Let_def]
    have 1: "gl_step (?h (gt_next_handle t + 1) t) c" using st create_buffer_step by blast
    have 2: "gl_step (snd c) u" using st upload_step [OF n] by blast
    have 3: "gl_step (?h (gt_next_handle (snd u) + 1 + 1) (snd u)) v" using st submit_step by blast
    have 4: "gl_step (snd v) (submitVirglCommand e k (snd v))" "gl_step t6 (submitVirglCommand e k t6)" "gl_step t7 d" for k
      using st submit_step by blast+
    have cu: "gl_fixed (snd c) = gl_fixed t" "safe (fst c) (gt_gpu t) (gt_gpu (snd c))" "gl_fixed (snd u) = gl_fixed t" "safe (fst u) (gt_gpu t) (gt_gpu (snd u))"
      "gl_fixed (snd v) = gl_fixed t" "safe (fst v) (gt_gpu t) (gt_gpu (snd v))"
      using 1 2 3 by (auto simp: gl_step_def h safe_def)
    have "gl_fixed t6 = gl_fixed t" "bufs_ok (m_vq (g_tr (gt_gpu t))) \<longrightarrow> bufs_ok (m_vq (g_tr (gt_gpu t6)))"
      using 4(1) cu st by (auto simp: gl_step_def safe_def)
    moreover from this have "gl_fixed t7 = gl_fixed t" "bufs_ok (m_vq (g_tr (gt_gpu t))) \<longrightarrow> bufs_ok (m_vq (g_tr (gt_gpu t7)))"
      using 4(2) st by (auto simp: gl_step_def safe_def)
    ultimately have "gl_fixed (snd d) = gl_fixed t" "safe (fst d) (gt_gpu t) (gt_gpu (snd d))" using 4(3) by (auto simp: gl_step_def safe_def)
    then show ?thesis using flush_unfold [OF _ _ s] False cu by simp
  qed
  then show "gl_fixed (snd (flushVertexBatch e t)) = gl_fixed t"
    "safe (fst (flushVertexBatch e t)) (gt_gpu t) (gt_gpu (snd (flushVertexBatch e t)))" by simp_all
qed

text \<open>What a flush of the vertices \<open>vs\<close> shows the host; \<open>xs\<close> is what arrives of the two commands whose outcome is ignored.\<close>

definition drawn :: "u32 \<Rightarrow> u32 \<Rightarrow> u32 \<Rightarrow> u32 list list \<Rightarrow> host_command list \<Rightarrow> host_command list" where
  "drawn ctx h mode vs xs =
     (let n = word_of_nat (length vs)
      in [Host_create h (n * 12 * 4), Host_virgl ctx (upload_header h (12 + (n * 12 * 4 + 3) div 4) (n * 12 * 4) 0 @ concat vs),
          Host_virgl ctx (elements_words (h + 1 + 1))] @ xs @ [Host_virgl ctx (draw_words n mode)])"

lemma words_length [simp]:
  "length (elements_words h) = 15" "length (bind_words h) = 3" "length (buffers_words h) = 5" "length (draw_words n mode) = 12"
  by (simp_all add: elements_words_def bind_words_def buffers_words_def draw_words_def)

lemma flush_log:
  assumes "gl_ok t" "bytes_contract e" "flushVertexBatch e t = (kIOReturnSuccess, t')" "gl_vertex_count (gt_state t) \<noteq> 0"
    and vs: "take (12 * unat (gl_vertex_count (gt_state t))) (gl_vertex_data (gt_state t)) = concat vs" "length vs = unat (gl_vertex_count (gt_state t))"
  shows "\<exists>xs. subseq xs [Host_virgl (gt_context_id t) (bind_words (gt_next_handle t + 1 + 1)), Host_virgl (gt_context_id t) (buffers_words (gt_next_handle t))]
     \<and> host_log (gt_gpu t') = host_log (gt_gpu t) @ drawn (gt_context_id t) (gt_next_handle t) (gl_primitive_mode (gt_state t)) vs xs"
proof -
  let ?h = "gt_next_handle t" and ?n = "gl_vertex_count (gt_state t)" and ?x = "gt_context_id t"
  obtain c u v t6 t7 d where s: "flush_stages e t c u v t6 t7 d" using flush_stages_ex by blast
  note st = s [unfolded flush_stages_def Let_def]
  have n: "unat ?n \<le> 10000" "12 * unat ?n \<le> length (gl_vertex_data (gt_state t))" using assms(1) by (simp_all add: gl_ok_def)
  have acc: "gt_accelerator t" using assms(3,4) by (auto simp: flushVertexBatch_def Let_def split: if_splits)
  have ok: "fst c = kIOReturnSuccess" "fst u = kIOReturnSuccess" "fst v = kIOReturnSuccess" "d = (kIOReturnSuccess, t')"
    using trans [OF flush_unfold [OF assms(4) acc s, symmetric] assms(3)] by (auto split: if_splits)
  have f: "gl_step (t\<lparr>gt_next_handle := ?h + 1\<rparr>) c" "gl_step (snd c) u" using st create_buffer_step upload_step [OF n] by blast+
  have hu: "gt_next_handle (snd u) = ?h + 1" "gt_context_id (snd c) = ?x" "gt_context_id (snd u) = ?x"
    using f by (auto simp: gl_step_def gl_fixed_def)
  have v: "v = submitVirglCommand e (elements_words (?h + 1 + 1)) ((snd u)\<lparr>gt_next_handle := ?h + 1 + 1 + 1\<rparr>)" using st hu(1) by simp
  have t6: "t6 = snd (submitVirglCommand e (bind_words (?h + 1 + 1)) (snd v))" using st hu(1) by simp
  have t7: "t7 = snd (submitVirglCommand e (buffers_words ?h) t6)" "d = submitVirglCommand e (draw_words ?n (gl_primitive_mode (gt_state t))) t7"
    using st by blast+
  have x: "gt_context_id (snd v) = ?x" "gt_context_id t6 = ?x" "gt_context_id t7 = ?x"
    using submit_step [of "(snd u)\<lparr>gt_next_handle := ?h + 1 + 1 + 1\<rparr>" e "elements_words (?h + 1 + 1)"]
      submit_step [of "snd v" e "bind_words (?h + 1 + 1)"] submit_step [of t6 e "buffers_words ?h"] v t6 t7 hu
    by (auto simp: gl_step_def gl_fixed_def)
  have lc: "host_log (gt_gpu (snd c)) = host_log (gt_gpu t) @ [Host_create ?h (?n * 12 * 4)]"
    using create_buffer_log [of e "?n * 12 * 4" VIRGL_BIND_VERTEX_BUFFER ?h "t\<lparr>gt_next_handle := ?h + 1\<rparr>"] ok(1) st by simp
  have lu: "host_log (gt_gpu (snd u)) = host_log (gt_gpu (snd c)) @ [Host_virgl ?x (upload_words ?h ?n (gl_vertex_data (gt_state t)))]"
  proof -
    have ub: "uploadBufferData e ?h (Some (word_bytes (gl_vertex_data (gt_state t)))) (?n * 12 * 4) 0 (snd c) = (kIOReturnSuccess, snd u)"
      using st ok(2) by (metis prod.collapse)
    from upload_batch [OF ub n] have sb: "submit_block e (word_bytes (upload_words ?h ?n (gl_vertex_data (gt_state t)))) (snd c) = (kIOReturnSuccess, snd u)" by simp
    have "length (word_bytes (upload_words ?h ?n (gl_vertex_data (gt_state t)))) < 2 ^ 32"
      using n by (simp add: upload_words_def upload_header_def min_def)
    from submit_block_log(2) [OF sb assms(2) this] show ?thesis using hu(2) by simp
  qed
  have lv: "host_log (gt_gpu (snd v)) = host_log (gt_gpu (snd u)) @ [Host_virgl ?x (elements_words (?h + 1 + 1))]"
    using submit_log(2) [OF assms(2), of "elements_words (?h + 1 + 1)" "(snd u)\<lparr>gt_next_handle := ?h + 1 + 1 + 1\<rparr>"] v ok(3) hu(3)
    by simp
  obtain xs where xs: "host_log (gt_gpu t6) = host_log (gt_gpu (snd v)) @ xs" "subseq xs [Host_virgl ?x (bind_words (?h + 1 + 1))]"
    using submit_log(1) [OF assms(2), of "bind_words (?h + 1 + 1)" "snd v"] t6 x(1) by auto
  obtain ys where ys: "host_log (gt_gpu t7) = host_log (gt_gpu t6) @ ys" "subseq ys [Host_virgl ?x (buffers_words ?h)]"
    using submit_log(1) [OF assms(2), of "buffers_words ?h" t6] t7(1) x(2) by auto
  have ld: "host_log (gt_gpu t') = host_log (gt_gpu t7) @ [Host_virgl ?x (draw_words ?n (gl_primitive_mode (gt_state t)))]"
    using submit_log(2) [OF assms(2), of "draw_words ?n (gl_primitive_mode (gt_state t))" t7] trans [OF t7(2) [symmetric] ok(4)] x(3) by simp
  have "subseq (xs @ ys) [Host_virgl ?x (bind_words (?h + 1 + 1)), Host_virgl ?x (buffers_words ?h)]"
    using list_emb_append_mono [OF xs(2) ys(2)] by simp
  moreover have "word_of_nat (length vs) = ?n" by (simp add: vs(2))
  ultimately show ?thesis
    using lc lu lv xs(1) ys(1) ld by (intro exI [of _ "xs @ ys"]) (simp add: drawn_def Let_def upload_words_def vs(1))
qed

section \<open>No program leaves the vertex block\<close>

lemma gl_ok_fixed: "gl_fixed t' = gl_fixed t \<Longrightarrow> gl_ok t' = gl_ok t"
  by (simp add: gl_ok_def gl_fixed_def)

lemma vertex_ok:
  assumes "gl_ok t"
  shows "gl_ok (snd (glVertex4f e x y z w t))" "safe (fst (glVertex4f e x y z w t)) (gt_gpu t) (gt_gpu (snd (glVertex4f e x y z w t)))"
proof -
  define t1 where "t1 = (if gl_vertex_count (gt_state t) \<ge> MAX_BATCH_VERTICES
    then upd_state (gl_vertex_count_update (\<lambda>_. 0)) (snd (flushVertexBatch e t)) else t)"
  have f: "gl_ok (snd (flushVertexBatch e t))" using gl_ok_fixed [OF flush_step(1) [OF assms]] assms by simp
  have 1: "gl_ok t1" "unat (gl_vertex_count (gt_state t1)) < 10000" "\<exists>r. safe r (gt_gpu t) (gt_gpu t1)"
    using assms f flush_step(2) [OF assms, of e] by (auto simp: t1_def gl_ok_def safe_def word_le_nat_alt)
  define off where "off = 12 * unat (gl_vertex_count (gt_state t1))"
  have o: "unat (gl_vertex_count (gt_state t1) * 12) = off" using batch_sizes(3) [of "gl_vertex_count (gt_state t1)"] 1(2) by (simp add: off_def)
  have "off + 12 \<le> length (gl_vertex_data (gt_state t1))" using 1(1,2) by (simp add: gl_ok_def off_def)
  then obtain st where p: "put_vertex [x, y, z, w] (gt_state t1) = Some st" "length (gl_vertex_data st) = length (gl_vertex_data (gt_state t1))"
    "gl_vertex_count st = gl_vertex_count (gt_state t1) + 1" "gl_current_color st = gl_current_color (gt_state t1)"
    "gl_current_texcoord st = gl_current_texcoord (gt_state t1)" "gl_current_texture_unit st = gl_current_texture_unit (gt_state t1)"
    "gl_texture_enabled st = gl_texture_enabled (gt_state t1)" "gl_depth_near st = gl_depth_near (gt_state t1)"
    "gl_depth_far st = gl_depth_far (gt_state t1)"
    using 1(1) by (simp add: put_vertex_def Let_def o gl_ok_def)
  have c: "unat (gl_vertex_count (gt_state t1) + 1) = unat (gl_vertex_count (gt_state t1)) + 1"
    using 1(2) by (simp add: unat_plus_if')
  have g: "glVertex4f e x y z w t = (if \<not> gl_in_begin_end (gt_state t) then (kIOReturnError, t) else (kIOReturnSuccess, t1\<lparr>gt_state := st\<rparr>))"
    by (simp add: glVertex4f_def t1_def [symmetric] p(1) Let_def)
  have "gl_ok (t1\<lparr>gt_state := st\<rparr>)" using 1(1,2) c p by (simp add: gl_ok_def)
  then show "gl_ok (snd (glVertex4f e x y z w t))" using assms by (simp add: g)
  show "safe (fst (glVertex4f e x y z w t)) (gt_gpu t) (gt_gpu (snd (glVertex4f e x y z w t)))"
    using 1(3) by (auto simp: g safe_def)
qed

lemma submit_keeps_ok:
  assumes "gl_ok t"
  shows "gl_ok (snd (submitVirglCommand e c t))" "safe (fst (submitVirglCommand e c t)) (gt_gpu t) (gt_gpu (snd (submitVirglCommand e c t)))"
  using submit_step [of t e c] gl_ok_fixed [of "snd (submitVirglCommand e c t)" t] assms by (simp_all add: gl_step_def)

lemma viewport_ok:
  assumes "gl_ok t"
  shows "gl_ok (snd (glViewport e x y w h t))" "safe (fst (glViewport e x y w h t)) (gt_gpu t) (gt_gpu (snd (glViewport e x y w h t)))"
proof -
  let ?t = "upd_state (\<lambda>st. st\<lparr>gl_viewport_x := x, gl_viewport_y := y, gl_viewport_width := w, gl_viewport_height := h\<rparr>) t"
  have "gl_ok ?t" "gt_gpu ?t = gt_gpu t" using assms by (simp_all add: gl_ok_def)
  then show "gl_ok (snd (glViewport e x y w h t))" "safe (fst (glViewport e x y w h t)) (gt_gpu t) (gt_gpu (snd (glViewport e x y w h t)))"
    using submit_keeps_ok [of ?t e] by (simp_all add: glViewport_def updateViewport_def safe_def)
qed

lemma exec_ok:
  assumes "gl_ok t"
  shows "gl_ok (snd (gl_exec e c t)) \<and> safe (fst (gl_exec e c t)) (gt_gpu t) (gt_gpu (snd (gl_exec e c t)))"
proof (cases c)
  case End
  let ?t = "upd_state (gl_in_begin_end_update (\<lambda>_. False)) t"
  have t: "gl_ok ?t" "gt_gpu ?t = gt_gpu t" using assms by (simp_all add: gl_ok_def)
  have "gl_ok (snd (flushVertexBatch e ?t))" using gl_ok_fixed [OF flush_step(1) [OF t(1)]] t(1) by blast
  then show ?thesis using flush_step(2) [OF t(1), of e] assms by (simp add: End glEnd_def safe_def)
next
  case (Clear m)
  then show ?thesis using submit_keeps_ok [OF assms] assms by (simp add: glClear_def Let_def safe_def)
next
  case (Enable cap)
  then show ?thesis using assms by (auto simp: glEnable_def set_capability_def gl_ok_def)
next
  case (Disable cap)
  then show ?thesis using assms by (auto simp: glDisable_def set_capability_def gl_ok_def)
next
  case (Viewport x y w h)
  then show ?thesis using viewport_ok [OF assms] by simp
qed (use assms vertex_ok [OF assms] in \<open>simp_all add: glVertex2f_def glVertex3f_def glBegin_def glColor3f_def glColor4f_def glTexCoord2f_def
       glTexCoord3f_def glNormal3f_def glClearColor_def glClearDepth_def glLoadIdentity_def glMatrixMode_def gl_ok_def\<close>)

lemma run_ok:
  "gl_ok t \<Longrightarrow> bufs_ok (m_vq (g_tr (gt_gpu t))) \<Longrightarrow> gl_run e cs t = (rs, t') \<Longrightarrow> Kernel_panic \<notin> set rs \<and> gl_ok t'"
proof (induction cs arbitrary: t rs)
  case (Cons c cs)
  obtain r t1 where c: "gl_exec e c t = (r, t1)" by fastforce
  obtain rs1 where cs: "gl_run e cs t1 = (rs1, t')" "rs = r # rs1" using Cons.prems(3) c by (auto split: prod.splits)
  have "gl_ok t1" "r \<noteq> Kernel_panic" "bufs_ok (m_vq (g_tr (gt_gpu t1)))"
    using exec_ok [OF Cons.prems(1), of e c] c Cons.prems(2) by (auto simp: safe_def)
  then show ?case using Cons.IH [OF _ _ cs(1)] cs(2) by auto
qed simp

lemma mem_words_length [simp]: "length (mem_words n mem) = n"
  by (induction n arbitrary: mem) simp_all

lemma render_target_ok:
  assumes "gl_ok t"
  shows "gl_ok (snd (setupRenderTarget e t))" "bufs_ok (m_vq (g_tr (gt_gpu t))) \<Longrightarrow> bufs_ok (m_vq (g_tr (gt_gpu (snd (setupRenderTarget e t)))))"
proof -
  let ?c = "[VIRGL_CMD_HDR VIRGL_CCMD_SET_FRAMEBUFFER_STATE 10, 1, 3, 2, 0, 0, 0, 0, 0, 0, 0]"
  obtain r t1 where s: "submitVirglCommand e ?c t = (r, t1)" by fastforce
  have "gl_ok t1" "safe r (gt_gpu t) (gt_gpu t1)" using submit_keeps_ok [OF assms, of e ?c] s by simp_all
  then show "gl_ok (snd (setupRenderTarget e t))" "bufs_ok (m_vq (g_tr (gt_gpu t))) \<Longrightarrow> bufs_ok (m_vq (g_tr (gt_gpu (snd (setupRenderTarget e t)))))"
    using s assms by (auto simp: setupRenderTarget_def gl_ok_def safe_def)
qed

lemma init_ok:
  assumes "gt_init e g = (True, t0)" "initWithAccelerator e accel has_gpu ctx t0 = (b, t1)"
  shows "gl_ok t1" "bufs_ok (m_vq (g_tr g)) \<Longrightarrow> bufs_ok (m_vq (g_tr (gt_gpu t1)))"
proof -
  let ?a = "\<lambda>t. t\<lparr>gt_accelerator := accel, gt_has_gpu := has_gpu, gt_context_id := ctx\<rparr>"
  let ?s = "snd (createDefaultShaders (?a t0))"
  have 0: "gl_ok ?s" "gt_gpu ?s = g"
    using assms(1) by (auto simp: gt_init_def Let_def glLoadIdentity_def gl_ok_def gl_state_init_def createDefaultShaders_def split: option.splits)
  note 1 = render_target_ok [OF 0(1), of e]
  have t1: "t1 = snd (glViewport e 0 0 640 480 (snd (setupRenderTarget e ?s)))" using assms(2) by (simp add: initWithAccelerator_def Let_def)
  show "gl_ok t1" using viewport_ok(1) [OF 1(1)] t1 by simp
  show "bufs_ok (m_vq (g_tr (gt_gpu t1)))" if "bufs_ok (m_vq (g_tr g))"
    using that 1(2) 0(2) viewport_ok(2) [OF 1(1), of e 0 0 640 480] t1 by (auto simp: safe_def)
qed

section \<open>The vertices a program describes\<close>

text \<open>
  The specification of immediate mode: every vertex call emits its position with the colour and the texture coordinates that are
  current at that moment.
\<close>

fun gl_vertices :: "u32 list \<Rightarrow> u32 list \<Rightarrow> gl_call list \<Rightarrow> u32 list list" where
  "gl_vertices col tex [] = []"
| "gl_vertices col tex (Vertex4 x y z w # cs) = ([x, y, z, w] @ col @ tex) # gl_vertices col tex cs"
| "gl_vertices col tex (Vertex3 x y z # cs) = ([x, y, z, F32_ONE] @ col @ tex) # gl_vertices col tex cs"
| "gl_vertices col tex (Vertex2 x y # cs) = ([x, y, F32_ZERO, F32_ONE] @ col @ tex) # gl_vertices col tex cs"
| "gl_vertices col tex (Color4 r g b a # cs) = gl_vertices [r, g, b, a] tex cs"
| "gl_vertices col tex (Color3 r g b # cs) = gl_vertices [r, g, b, F32_ONE] tex cs"
| "gl_vertices col tex (Texcoord3 a b c # cs) = gl_vertices col [a, b, c, F32_ONE] cs"
| "gl_vertices col tex (Texcoord2 a b # cs) = gl_vertices col [a, b, F32_ZERO, F32_ONE] cs"
| "gl_vertices col tex (_ # cs) = gl_vertices col tex cs"

fun attribute_call :: "gl_call \<Rightarrow> bool" where
  "attribute_call (Vertex2 _ _) = True"
| "attribute_call (Vertex3 _ _ _) = True"
| "attribute_call (Vertex4 _ _ _ _) = True"
| "attribute_call (Color3 _ _ _) = True"
| "attribute_call (Color4 _ _ _ _) = True"
| "attribute_call (Texcoord2 _ _) = True"
| "attribute_call (Texcoord3 _ _ _) = True"
| "attribute_call (Normal3 _ _ _) = True"
| "attribute_call _ = False"

definition pending :: "VMOpenGLTranslator \<Rightarrow> u32 list" where
  "pending t = take (12 * unat (gl_vertex_count (gt_state t))) (gl_vertex_data (gt_state t))"

text \<open>The translator after the vertices \<open>vs\<close> have joined the batch.\<close>

definition batched :: "VMOpenGLTranslator \<Rightarrow> u32 list list \<Rightarrow> VMOpenGLTranslator \<Rightarrow> bool" where
  "batched t vs t' \<longleftrightarrow> gt_gpu t' = gt_gpu t \<and> gt_next_handle t' = gt_next_handle t \<and> gt_accelerator t' = gt_accelerator t
     \<and> gt_has_gpu t' = gt_has_gpu t \<and> gt_context_id t' = gt_context_id t \<and> gl_in_begin_end (gt_state t')
     \<and> gl_primitive_mode (gt_state t') = gl_primitive_mode (gt_state t)
     \<and> unat (gl_vertex_count (gt_state t')) = unat (gl_vertex_count (gt_state t)) + length vs
     \<and> pending t' = pending t @ concat vs \<and> gl_ok t'"

lemma batched_trans: "batched t vs t1 \<Longrightarrow> batched t1 ws t2 \<Longrightarrow> batched t (vs @ ws) t2"
  by (simp add: batched_def)

lemma vertex_batched:
  assumes "gl_ok t" "gl_in_begin_end (gt_state t)" "unat (gl_vertex_count (gt_state t)) < 10000"
  shows "\<exists>t'. glVertex4f e x y z w t = (kIOReturnSuccess, t')
     \<and> batched t [[x, y, z, w] @ gl_current_color (gt_state t) @ gl_current_texcoord (gt_state t)] t'
     \<and> gl_current_color (gt_state t') = gl_current_color (gt_state t) \<and> gl_current_texcoord (gt_state t') = gl_current_texcoord (gt_state t)"
proof -
  let ?st = "gt_state t" and ?k = "12 * unat (gl_vertex_count (gt_state t))"
  let ?v = "[x, y, z, w] @ gl_current_color ?st @ gl_current_texcoord ?st"
  have o: "unat (gl_vertex_count ?st * 12) = ?k" using batch_sizes(3) [of "gl_vertex_count ?st"] assms(3) by simp
  have l: "?k + 12 \<le> length (gl_vertex_data ?st)" "length ?v = 12" using assms(1,3) by (simp_all add: gl_ok_def)
  define st where "st = ?st\<lparr>gl_vertex_data := take ?k (gl_vertex_data ?st) @ ?v @ drop (?k + 12) (gl_vertex_data ?st),
    gl_vertex_count := gl_vertex_count ?st + 1\<rparr>"
  have c: "unat (gl_vertex_count ?st + 1) = unat (gl_vertex_count ?st) + 1" using assms(3) by (simp add: unat_plus_if')
  have "put_vertex [x, y, z, w] ?st = Some st" using l(1) by (simp add: put_vertex_def Let_def o st_def)
  moreover have "\<not> MAX_BATCH_VERTICES \<le> gl_vertex_count ?st" using assms(3) by (simp add: word_le_nat_alt)
  ultimately have g: "glVertex4f e x y z w t = (kIOReturnSuccess, t\<lparr>gt_state := st\<rparr>)" using assms(2) by (simp add: glVertex4f_def)
  have p: "pending (t\<lparr>gt_state := st\<rparr>) = pending t @ ?v" using l by (simp add: pending_def st_def c min_def)
  have "gl_ok (t\<lparr>gt_state := st\<rparr>)" using vertex_ok(1) [OF assms(1), of e x y z w] g by simp
  then have "batched t [?v] (t\<lparr>gt_state := st\<rparr>)" using p assms(2) c by (simp add: batched_def) (simp add: st_def)
  then show ?thesis using g by (intro exI [of _ "t\<lparr>gt_state := st\<rparr>"]) (simp add: st_def)
qed

lemma run_vertices:
  assumes "gl_ok t" "gl_in_begin_end (gt_state t)" "list_all attribute_call cs"
    and "unat (gl_vertex_count (gt_state t)) + length (gl_vertices (gl_current_color (gt_state t)) (gl_current_texcoord (gt_state t)) cs) \<le> 10000"
  shows "\<exists>t'. gl_run e cs t = (replicate (length cs) kIOReturnSuccess, t')
     \<and> batched t (gl_vertices (gl_current_color (gt_state t)) (gl_current_texcoord (gt_state t)) cs) t'"
  using assms
proof (induction cs arbitrary: t)
  case Nil
  then show ?case by (simp add: batched_def)
next
  case (Cons c cs)
  let ?col = "gl_current_color (gt_state t)" and ?tex = "gl_current_texcoord (gt_state t)"
  have step: ?case if "gl_exec e c t = (kIOReturnSuccess, t1)" "batched t vs t1"
      "gl_vertices ?col ?tex (c # cs) = vs @ gl_vertices (gl_current_color (gt_state t1)) (gl_current_texcoord (gt_state t1)) cs" for t1 vs
  proof -
    have "gl_ok t1" "gl_in_begin_end (gt_state t1)" "list_all attribute_call cs"
      "unat (gl_vertex_count (gt_state t1)) + length (gl_vertices (gl_current_color (gt_state t1)) (gl_current_texcoord (gt_state t1)) cs) \<le> 10000"
      using that Cons.prems(3,4) by (auto simp: batched_def)
    from Cons.IH [OF this] obtain t2 where "gl_run e cs t1 = (replicate (length cs) kIOReturnSuccess, t2)"
      "batched t1 (gl_vertices (gl_current_color (gt_state t1)) (gl_current_texcoord (gt_state t1)) cs) t2" by blast
    then show ?thesis using that batched_trans [OF that(2)] by auto
  qed
  have attr: ?case if "gl_exec e c t = (kIOReturnSuccess, upd_state f t)" "batched t [] (upd_state f t)"
      "gl_vertices ?col ?tex (c # cs) = gl_vertices (gl_current_color (f (gt_state t))) (gl_current_texcoord (f (gt_state t))) cs" for f
    using step [of "upd_state f t" "[]"] that by simp
  have vert: ?case if "gl_exec e c t = glVertex4f e x y z w t" "gl_vertices ?col ?tex (c # cs) = ([x, y, z, w] @ ?col @ ?tex) # gl_vertices ?col ?tex cs" for x y z w
  proof -
    have "unat (gl_vertex_count (gt_state t)) < 10000" using Cons.prems(4) that(2) by simp
    from vertex_batched [OF Cons.prems(1,2) this, of e x y z w] show ?thesis
      using step [of _ "[[x, y, z, w] @ ?col @ ?tex]"] that by auto
  qed
  note defs = pending_def glVertex2f_def glVertex3f_def glColor3f_def glColor4f_def glTexCoord2f_def glTexCoord3f_def glNormal3f_def batched_def gl_ok_def
  show ?case
  proof (cases c)
    case (Vertex2 x y) then show ?thesis by (intro vert [of x y 0 F32_ONE]) (simp_all add: glVertex2f_def)
  next
    case (Vertex3 x y z) then show ?thesis by (intro vert [of x y z F32_ONE]) (simp_all add: glVertex3f_def)
  next
    case (Vertex4 x y z w) then show ?thesis by (intro vert [of x y z w]) simp_all
  next
    case (Color3 r g b) then show ?thesis using Cons.prems by (intro attr [of "gl_current_color_update (\<lambda>_. [r, g, b, F32_ONE])"]) (simp_all add: defs)
  next
    case (Color4 r g b a) then show ?thesis using Cons.prems by (intro attr [of "gl_current_color_update (\<lambda>_. [r, g, b, a])"]) (simp_all add: defs)
  next
    case (Texcoord2 a b) then show ?thesis using Cons.prems by (intro attr [of "gl_current_texcoord_update (\<lambda>_. [a, b, F32_ZERO, F32_ONE])"]) (simp_all add: defs)
  next
    case (Texcoord3 a b d) then show ?thesis using Cons.prems by (intro attr [of "gl_current_texcoord_update (\<lambda>_. [a, b, d, F32_ONE])"]) (simp_all add: defs)
  next
    case (Normal3 x y z) then show ?thesis using Cons.prems by (intro attr [of "gl_current_normal_update (\<lambda>_. [x, y, z])"]) (simp_all add: defs)
  qed (use Cons.prems(3) in simp_all)
qed

lemma run_append:
  "gl_run e (cs @ ds) t = (case gl_run e cs t of (rs, t1) \<Rightarrow> case gl_run e ds t1 of (ss, t2) \<Rightarrow> (rs @ ss, t2))"
  by (induction cs arbitrary: t) (auto split: prod.splits)

lemma begin_run:
  assumes "gl_ok t" "\<not> gl_in_begin_end (gt_state t)" "list_all attribute_call cs"
    and vs: "vs = gl_vertices (gl_current_color (gt_state t)) (gl_current_texcoord (gt_state t)) cs" "length vs \<le> 10000"
  shows "\<exists>t1. gl_run e (Begin mode # cs @ [End]) t = (replicate (Suc (length cs)) kIOReturnSuccess @ [fst (flushVertexBatch e t1)], snd (flushVertexBatch e t1))
     \<and> gl_ok t1 \<and> gt_gpu t1 = gt_gpu t \<and> gt_next_handle t1 = gt_next_handle t \<and> gt_accelerator t1 = gt_accelerator t \<and> gt_has_gpu t1 = gt_has_gpu t
     \<and> gt_context_id t1 = gt_context_id t \<and> gl_primitive_mode (gt_state t1) = mode \<and> unat (gl_vertex_count (gt_state t1)) = length vs \<and> pending t1 = concat vs"
proof -
  let ?b = "upd_state (\<lambda>st. st\<lparr>gl_in_begin_end := True, gl_primitive_mode := mode, gl_vertex_count := 0\<rparr>) t"
  have b: "gl_ok ?b" "glBegin mode t = (kIOReturnSuccess, ?b)" using assms(1,2) by (simp_all add: gl_ok_def glBegin_def)
  from run_vertices [OF b(1) _ assms(3), of e] vs obtain t2 where
    t2: "gl_run e cs ?b = (replicate (length cs) kIOReturnSuccess, t2)" "batched ?b vs t2" by auto
  let ?t1 = "upd_state (gl_in_begin_end_update (\<lambda>_. False)) t2"
  have "pending ?t1 = pending t2" "pending ?b = []" by (simp_all add: pending_def)
  then have "pending ?t1 = concat vs" using t2(2) by (simp add: batched_def)
  moreover have "gl_ok ?t1" using t2(2) by (simp add: batched_def gl_ok_def)
  moreover have "gl_run e [End] t2 = ([fst (flushVertexBatch e ?t1)], snd (flushVertexBatch e ?t1))"
    using t2(2) by (simp add: batched_def glEnd_def split: prod.splits)
  ultimately show ?thesis using t2 b(2) by (intro exI [of _ ?t1]) (simp add: run_append batched_def)
qed

section \<open>A device that accepts everything\<close>

definition gl_live :: "device_env \<Rightarrow> VMOpenGLTranslator \<Rightarrow> bool" where
  "gl_live e t \<longleftrightarrow> good_device e (gt_gpu t) \<and> supports3D (gt_gpu t) \<and> gt_accelerator t \<and> gt_has_gpu t
     \<and> bytes_contract e \<and> (\<forall>n bs. bytes_desc e n bs \<noteq> None) \<and> (\<forall>n k. kmalloc e n k \<noteq> None)"

lemma good_execute:
  assumes "good_device e g" "supports3D g" "md_map d = Some bs" "md_length d = length bs" "0 < length bs" "length bs \<le> 4000" "\<forall>n k. kmalloc e n k \<noteq> None"
  shows "\<exists>t. executeCommands e ctx (Some d) g = (kIOReturnSuccess, g\<lparr>g_tr := t\<rparr>) \<and> good_device e (g\<lparr>g_tr := t\<rparr>)"
proof -
  obtain mem where m: "kmalloc e (tr_tick (g_tr g)) (32 + md_length d) = Some mem" using assms(7) by fastforce
  let ?c = "submit3d_command mem ctx (buf_read (md_length d) bs)"
  have "length ?c = 32 + length bs" using assms(4) by (simp add: submit3d_command_def Let_def length_wire_encode buf_read_def)
  then have "24 \<le> length ?c" "length ?c \<le> 4096" using assms(6) by auto
  from send_hdr_ok [OF assms(1) this] obtain t where "send_hdr e ?c g = (kIOReturnSuccess, ctrl_code VIRTIO_GPU_RESP_OK_NODATA, g\<lparr>g_tr := t\<rparr>)"
    "good_device e (g\<lparr>g_tr := t\<rparr>)" by blast
  then show ?thesis using assms(2-5) m by (auto simp: executeCommands_def)
qed

lemma live_submit:
  assumes "gl_live e t" "c \<noteq> []" "length c \<le> 1000"
  shows "\<exists>t'. submitVirglCommand e c t = (kIOReturnSuccess, t') \<and> gl_live e t'"
proof -
  obtain d where d: "bytes_desc e (tr_tick (g_tr (gt_gpu t))) (word_bytes c) = Some d" "md_map d = Some (word_bytes c)" "md_length d = length (word_bytes c)"
    using assms(1) by (fastforce simp: gl_live_def bytes_contract_def)
  let ?g = "md_retain d (gt_gpu t)"
  have g: "good_device e ?g" "supports3D ?g" using assms(1) by (simp_all add: gl_live_def good_device_def supports3D_def md_retain_def)
  have "0 < length (word_bytes c)" "length (word_bytes c) \<le> 4000" using assms(2,3) by auto
  moreover have "\<forall>n k. kmalloc e n k \<noteq> None" using assms(1) by (simp add: gl_live_def)
  ultimately obtain u where
    "executeCommands e (gt_context_id t) (Some d) ?g = (kIOReturnSuccess, ?g\<lparr>g_tr := u\<rparr>)" "good_device e (?g\<lparr>g_tr := u\<rparr>)"
    using good_execute [OF g d(2,3)] by blast
  then show ?thesis using assms(1) d(1)
    by (simp add: submitVirglCommand_def submit_block_def gl_live_def good_device_def supports3D_def md_release_def md_retain_def)
qed

lemma live_fixed: "gl_live e t \<Longrightarrow> gt_gpu t' = gt_gpu t \<Longrightarrow> gt_accelerator t' = gt_accelerator t \<Longrightarrow> gt_has_gpu t' = gt_has_gpu t \<Longrightarrow> gl_live e t'"
  by (simp add: gl_live_def)

lemma live_create:
  assumes "gl_live e t" "findResource (gt_gpu t) h = None"
  shows "\<exists>t'. createVirglBuffer e len bnd h t = (kIOReturnSuccess, t') \<and> gl_live e t'"
proof -
  let ?c = "wire_encode (mk_hdr VIRTIO_GPU_CMD_RESOURCE_CREATE_3D 0) (create3d_body h 0 VIRGL_FORMAT_R8G8B8A8_UNORM bnd len 1 1)"
  have "24 \<le> length ?c" "length ?c \<le> 4096" by (simp_all add: create3d_body_def length_wire_encode)
  with assms(1) obtain u where u: "send_hdr e ?c (gt_gpu t) = (kIOReturnSuccess, ctrl_code VIRTIO_GPU_RESP_OK_NODATA, (gt_gpu t)\<lparr>g_tr := u\<rparr>)"
    "good_device e ((gt_gpu t)\<lparr>g_tr := u\<rparr>)" using send_hdr_ok [of e "gt_gpu t" ?c] by (auto simp: gl_live_def)
  obtain mem where m: "kmalloc e (tr_tick u) 32 = Some mem" using assms(1) by (fastforce simp: gl_live_def)
  have p: "g_tr g2 = g_tr g1 \<and> supports3D g2 = supports3D g1" if "pool_register x g1 = Some g2" for x g1 g2
    using that by (auto simp: pool_register_def supports3D_def Let_def split: option.splits)
  have "\<exists>g. createResource3D e h 0 VIRGL_FORMAT_R8G8B8A8_UNORM bnd len 1 1 (gt_gpu t) = (kIOReturnSuccess, g) \<and> g_tr g = u \<and> supports3D g"
    using assms u(1) m p by (auto simp: createResource3D_def gl_live_def Let_def split: option.splits) (simp_all add: supports3D_def)
  then show ?thesis using assms(1) u(2) by (auto simp: createVirglBuffer_def gl_live_def good_device_def)
qed

lemma live_upload:
  assumes "gl_live e t" "unat n \<le> 80" "12 * unat n \<le> length data"
  shows "\<exists>t'. uploadBufferData e h (Some (word_bytes data)) (n * 12 * 4) 0 t = (kIOReturnSuccess, t') \<and> gl_live e t'"
proof -
  have w: "upload_words h n data \<noteq> []" "length (upload_words h n data) \<le> 1000" using assms(2) by (simp_all add: upload_words_def upload_header_def)
  have n: "unat n \<le> 10000" using assms(2) by simp
  show ?thesis using live_submit [OF assms(1) w] assms(1) unfolding upload_eq [OF n assms(3)]
    by (auto simp: submitVirglCommand_def gl_live_def)
qed

lemma flush_live:
  assumes "gl_ok t" "gl_live e t" "findResource (gt_gpu t) (gt_next_handle t) = None" "gl_vertex_count (gt_state t) \<noteq> 0" "unat (gl_vertex_count (gt_state t)) \<le> 80"
  shows "\<exists>t'. flushVertexBatch e t = (kIOReturnSuccess, t') \<and> gl_live e t'"
proof -
  let ?n = "gl_vertex_count (gt_state t)"
  have n: "12 * unat ?n \<le> length (gl_vertex_data (gt_state t))" using assms(1) by (simp add: gl_ok_def)
  obtain c u v t6 t7 d where s: "flush_stages e t c u v t6 t7 d" using flush_stages_ex by blast
  note st = s [unfolded flush_stages_def Let_def]
  have sub: "fst (submitVirglCommand e k x) = kIOReturnSuccess \<and> gl_live e (snd (submitVirglCommand e k x))"
    if "gl_live e x" "k \<noteq> []" "length k \<le> 1000" for k x using live_submit [OF that] by auto
  have ne: "elements_words h \<noteq> []" "bind_words h \<noteq> []" "buffers_words h \<noteq> []" "draw_words m h \<noteq> []" for h m
    by (metis length_0_conv words_length zero_neq_numeral)+
  have "gl_live e (t\<lparr>gt_next_handle := gt_next_handle t + 1\<rparr>)" using assms(2) by (rule live_fixed) simp_all
  then have c: "fst c = kIOReturnSuccess" "gl_live e (snd c)"
    using live_create [of e "t\<lparr>gt_next_handle := gt_next_handle t + 1\<rparr>" "gt_next_handle t" "?n * 12 * 4" VIRGL_BIND_VERTEX_BUFFER] assms(3) st by auto
  have "u = uploadBufferData e (gt_next_handle t) (Some (word_bytes (gl_vertex_data (gt_state t)))) (?n * 12 * 4) 0 (snd c)"
    using st by blast
  then have u: "fst u = kIOReturnSuccess" "gl_live e (snd u)" using live_upload [OF c(2) assms(5) n, of "gt_next_handle t"] by auto
  have "gl_live e ((snd u)\<lparr>gt_next_handle := k\<rparr>)" for k using u(2) by (rule live_fixed) simp_all
  then have v: "fst v = kIOReturnSuccess" "gl_live e (snd v)" using sub ne st by auto
  have "gl_live e t6" "gl_live e t7" using sub v(2) ne st by auto
  then have d: "fst d = kIOReturnSuccess" "gl_live e (snd d)" using sub ne st by auto
  have "gt_accelerator t" using assms(2) by (simp add: gl_live_def)
  then have "flushVertexBatch e t = d" using flush_unfold [OF assms(4) _ s] c u v by simp
  then show ?thesis using d by (cases d) auto
qed

section \<open>Properties\<close>

text \<open>C26. No GL program leaves the vertex block: from a translator that initialised, with any device and any failing allocation, no
  call of any sequence of calls writes outside the block of 10000 vertices or reads outside it when a batch is flushed, and the
  number of waiting vertices never exceeds the block.\<close>

theorem gl_program_safe:
  assumes "gt_init e g = (True, t0)" "initWithAccelerator e accel has_gpu ctx t0 = (b, t1)" "bufs_ok (m_vq (g_tr g))"
    and "gl_run e cs t1 = (rs, t')"
  shows "Kernel_panic \<notin> set rs \<and> length (gl_vertex_data (gt_state t')) = 120000 \<and> unat (gl_vertex_count (gt_state t')) \<le> 10000"
  using run_ok [OF init_ok(1) [OF assms(1,2)] init_ok(2) [OF assms(1-3)] assms(4)] by (simp add: gl_ok_def)

text \<open>The length field of an upload is right up to 5460 vertices and wrong for every larger batch, although a batch holds 10000:
  the field has 16 bits, and the shift of a longer length loses its upper bits.\<close>

theorem upload_length_field:
  assumes "unat n \<le> 10000" "12 * unat n \<le> length data"
  shows "unat (drop_bit 16 (hd (upload_words h n data))) = length (tl (upload_words h n data)) \<longleftrightarrow> unat n \<le> 5460"
proof -
  let ?len = "(12 + (n * 12 * 4 + 3) div 4) - 1 :: u32"
  have "12 + (n * 12 * 4 + 3) div 4 \<noteq> (0 :: u32)" using batch_sizes(2) [OF assms(1)] by (metis add_is_0 unat_0 zero_neq_numeral)
  then have len: "unat ?len = 11 + 12 * unat n" using batch_sizes(2) [OF assms(1)] unat_minus_one by fastforce
  have b: "drop_bit 16 (push_bit 16 w OR 9) = take_bit 16 w" for w :: u32
    by (rule bit_word_eqI) (auto simp: bit_simps)
  have "hd (upload_words h n data) = push_bit 16 ?len OR 9" by (simp add: upload_words_def upload_header_def VIRGL_CMD_HDR_def)
  then have "unat (drop_bit 16 (hd (upload_words h n data))) = (11 + 12 * unat n) mod 2 ^ 16"
    by (simp only: b unsigned_take_bit_eq) (simp only: take_bit_eq_mod len)
  moreover have "length (tl (upload_words h n data)) = 11 + 12 * unat n"
    using assms(2) by (simp add: upload_words_def upload_header_def min_def)
  moreover have "(11 + 12 * unat n) mod 2 ^ 16 = 11 + 12 * unat n \<longleftrightarrow> unat n \<le> 5460"
  proof
    have "(11 + 12 * unat n) mod 2 ^ 16 < 2 ^ 16" by (rule mod_less_divisor) simp
    then show "unat n \<le> 5460" if "(11 + 12 * unat n) mod 2 ^ 16 = 11 + 12 * unat n" unfolding that by simp
  qed (rule mod_less, simp)
  ultimately show ?thesis by (simp only:)
qed

text \<open>
  How the host splits the submitted words: the upper half of the first word is the number of words that follow, its
  second byte the type of the object a creation or binding is about.
\<close>

fun framed :: "host_command \<Rightarrow> bool" where
  "framed (Host_virgl ctx ws) = (ws \<noteq> [] \<and> unat (drop_bit 16 (hd ws)) = length (tl ws))"
| "framed _ = True"

definition object_type :: "u32 list \<Rightarrow> u32" where
  "object_type ws = take_bit 8 (drop_bit 8 (hd ws))"

lemma drawn_framed:
  assumes "length vs \<le> 10000" "length (concat vs) = 12 * length vs"
    and "subseq xs [Host_virgl c1 (bind_words v), Host_virgl c2 (buffers_words b)]"
  shows "list_all framed (drawn ctx h mode vs xs) \<longleftrightarrow> length vs \<le> 5460"
proof -
  let ?n = "word_of_nat (length vs) :: u32"
  have n: "unat ?n = length vs" using assms(1) by (simp add: unat_of_nat)
  have "upload_header h (12 + (?n * 12 * 4 + 3) div 4) (?n * 12 * 4) 0 @ concat vs = upload_words h ?n (concat vs)"
    using assms(2) n by (simp add: upload_words_def)
  moreover have "upload_words h ?n (concat vs) \<noteq> []" by (simp add: upload_words_def upload_header_def)
  ultimately have up: "framed (Host_virgl ctx (upload_header h (12 + (?n * 12 * 4 + 3) div 4) (?n * 12 * 4) 0 @ concat vs))
      \<longleftrightarrow> length vs \<le> 5460"
    using upload_length_field [of ?n "concat vs" h] assms(1,2) n by simp
  have two: "framed (Host_virgl c1 (bind_words v))" "framed (Host_virgl c2 (buffers_words b))"
    by (simp_all add: bind_words_def buffers_words_def VIRGL_CMD_HDR_def)
  have "x \<in> {Host_virgl c1 (bind_words v), Host_virgl c2 (buffers_words b)}" if "x \<in> set xs" for x
    by (rule list_emb_set [OF assms(3) that]) simp
  then have "list_all framed xs" using two by (auto simp only: list_all_iff)
  moreover have "framed (Host_virgl ctx (elements_words k))" "framed (Host_virgl ctx (draw_words m mode))" for k m
    by (simp_all add: elements_words_def draw_words_def VIRGL_CMD_HDR_def)
  ultimately show ?thesis
    unfolding drawn_def Let_def list.pred_inject list_all_append using up by (simp only: framed.simps(2) list.pred_inject simp_thms)
qed

text \<open>C27. What immediate mode submits. Between \<^verbatim>\<open>glBegin\<close> and \<^verbatim>\<open>glEnd\<close>, at most 10000 vertices (one batch) with their
  colours and texture coordinates: when \<^verbatim>\<open>glEnd\<close> reports success, the commands published to the host are, in order and in
  the context of the translator, the creation of a buffer of exactly the vertices' size, an upload whose payload is exactly
  their floats, the words of a vertex layout, and a draw of exactly their number in the requested mode. Only the two
  commands in between, the binding of the layout and of the buffer, may be missing: their outcome is ignored. The length
  fields of all these commands match their payloads exactly when there are at most 5460 vertices; the one of a larger
  upload does not. And the layout is created with the object type 0 (\<^verbatim>\<open>VIRGL_OBJECT_NULL\<close>) in its header, which
  \<^verbatim>\<open>virgl_protocol.h\<close> says the host rejects: the theorem is about what is submitted, not about what the host draws.\<close>

theorem immediate_mode_submitted:
  assumes "gl_ok t" "bytes_contract e" "\<not> gl_in_begin_end (gt_state t)" "list_all attribute_call cs"
    and "vs = gl_vertices (gl_current_color (gt_state t)) (gl_current_texcoord (gt_state t)) cs" "vs \<noteq> []" "length vs \<le> 10000"
    and "gl_run e (Begin mode # cs @ [End]) t = (rs, t')" "last rs = kIOReturnSuccess"
  shows "\<exists>xs. subseq xs [Host_virgl (gt_context_id t) (bind_words (gt_next_handle t + 1 + 1)), Host_virgl (gt_context_id t) (buffers_words (gt_next_handle t))]
     \<and> host_log (gt_gpu t') = host_log (gt_gpu t) @ drawn (gt_context_id t) (gt_next_handle t) mode vs xs
     \<and> (list_all framed (drawn (gt_context_id t) (gt_next_handle t) mode vs xs) \<longleftrightarrow> length vs \<le> 5460)
     \<and> object_type (elements_words (gt_next_handle t + 1 + 1)) = 0"
proof -
  obtain t1 where t1: "gl_run e (Begin mode # cs @ [End]) t
      = (replicate (Suc (length cs)) kIOReturnSuccess @ [fst (flushVertexBatch e t1)], snd (flushVertexBatch e t1))"
    "gl_ok t1" "gt_gpu t1 = gt_gpu t" "gt_next_handle t1 = gt_next_handle t" "gt_context_id t1 = gt_context_id t"
    "gl_primitive_mode (gt_state t1) = mode" "unat (gl_vertex_count (gt_state t1)) = length vs" "pending t1 = concat vs"
    using begin_run [OF assms(1,3,4,5,7), of e mode] by blast
  have r: "rs = replicate (Suc (length cs)) kIOReturnSuccess @ [fst (flushVertexBatch e t1)]" "t' = snd (flushVertexBatch e t1)"
    using trans [OF assms(8) [symmetric] t1(1)] by (simp_all only: prod.inject)
  have f: "flushVertexBatch e t1 = (kIOReturnSuccess, t')" using r assms(9) by (cases "flushVertexBatch e t1") simp
  have "gl_vertex_count (gt_state t1) \<noteq> 0" using t1(7) assms(6) by auto
  from flush_log [OF t1(2) assms(2) f this t1(8) [unfolded pending_def] t1(7) [symmetric], unfolded t1(3-6)]
  obtain xs where xs: "subseq xs [Host_virgl (gt_context_id t) (bind_words (gt_next_handle t + 1 + 1)), Host_virgl (gt_context_id t) (buffers_words (gt_next_handle t))]"
    "host_log (gt_gpu t') = host_log (gt_gpu t) @ drawn (gt_context_id t) (gt_next_handle t) mode vs xs" by blast
  have "length (pending t1) = 12 * length vs"
    using t1(2,7) assms(7) by (simp add: pending_def gl_ok_def)
  then have "length (concat vs) = 12 * length vs" by (simp only: t1(8))
  from drawn_framed [OF assms(7) this xs(1)] xs show ?thesis
    by (intro exI [of _ xs]) (simp add: object_type_def elements_words_def VIRGL_CMD_HDR_def)
qed

text \<open>C28. The viewport transformation is exact. For corners below 2^22 and sizes below 2^23 in magnitude, when \<^verbatim>\<open>glViewport\<close>
  reports success the host has read a viewport command whose floats denote exactly half the size as the scale, the corner plus
  half the size as the translation, and one half for the depth: no rounding happens.\<close>

theorem viewport_exact:
  assumes "gl_ok t" "bytes_contract e" "glViewport e x y w h t = (kIOReturnSuccess, t')"
    and "\<bar>sint x\<bar> < 2 ^ 22" "\<bar>sint y\<bar> < 2 ^ 22" "\<bar>sint w\<bar> < 2 ^ 23" "\<bar>sint h\<bar> < 2 ^ 23"
  shows "\<exists>sx sy sz tx ty tz. host_log (gt_gpu t') = host_log (gt_gpu t)
        @ [Host_virgl (gt_context_id t) [VIRGL_CMD_HDR VIRGL_CCMD_SET_VIEWPORT_STATE 7, 0, sx, sy, sz, tx, ty, tz]]
     \<and> f32_value sx = of_int (sint w) / 2 \<and> f32_value sy = of_int (sint h) / 2 \<and> f32_value sz = 1 / 2
     \<and> f32_value tx = of_int (sint x) + of_int (sint w) / 2 \<and> f32_value ty = of_int (sint y) + of_int (sint h) / 2 \<and> f32_value tz = 1 / 2"
proof -
  let ?t = "upd_state (\<lambda>st. st\<lparr>gl_viewport_x := x, gl_viewport_y := y, gl_viewport_width := w, gl_viewport_height := h\<rparr>) t"
  have half: "f32_value (f32_half (f32_of_int i)) = of_int i / 2" if "\<bar>i\<bar> < 2 ^ 23" for i
  proof -
    have b: "\<bar>i\<bar> < 2 ^ 24" using that by simp
    have "f32_value (f32_of_int i) = of_int i" by (rule f32_of_int_value [OF f32_fits_int(1) [OF b]])
    then show ?thesis using f32_half_value [of "f32_of_int i"] f32_fits_int(2) [OF b] by simp
  qed
  have trans: "f32_value (f32_add (f32_of_int p) (f32_half (f32_of_int i))) = of_int p + of_int i / 2" if "\<bar>p\<bar> < 2 ^ 22" "\<bar>i\<bar> < 2 ^ 23" for p i
  proof -
    have b: "\<bar>p\<bar> < 2 ^ 24" "\<bar>2 * p + i\<bar> < 2 ^ 24" using that by simp_all
    have h: "of_int p + of_int i / 2 = (of_int (2 * p + i) :: rat) / 2" by (simp add: add_divide_distrib)
    have "f32_fits (of_int p + of_int i / 2)" unfolding h by (rule f32_fits_int(2) [OF b(2)])
    then show ?thesis
      using f32_add_value [of "f32_of_int p" "f32_half (f32_of_int i)"] f32_of_int_value [OF f32_fits_int(1) [OF b(1)]] half [OF that(2)] by simp
  qed
  have one: "f32_fits 1" "f32_fits (1 / 2)" using f32_fits_int [of 1] by simp_all
  have depth: "f32_value (f32_half (f32_sub F32_ONE F32_ZERO)) = 1 / 2" "f32_value (f32_half (f32_add F32_ONE F32_ZERO)) = 1 / 2"
  proof -
    have "f32_value (f32_sub F32_ONE F32_ZERO) = 1" "f32_value (f32_add F32_ONE F32_ZERO) = 1"
      using f32_add_value [of F32_ONE "0x80000000"] f32_add_value [of F32_ONE F32_ZERO] one(1) by (simp_all add: f32_sub_def f32_constants)
    then show "f32_value (f32_half (f32_sub F32_ONE F32_ZERO)) = 1 / 2" "f32_value (f32_half (f32_add F32_ONE F32_ZERO)) = 1 / 2"
      using f32_half_value one(2) by simp_all
  qed
  have d: "gl_depth_near (gt_state ?t) = F32_ZERO" "gl_depth_far (gt_state ?t) = F32_ONE" using assms(1) by (simp_all add: gl_ok_def)
  have s: "submitVirglCommand e (viewport_words (gt_state ?t)) ?t = (kIOReturnSuccess, t')"
    using assms(3) by (simp add: glViewport_def updateViewport_def split: if_splits)
  have "length (viewport_words (gt_state ?t)) < 2 ^ 30" by (simp add: viewport_words_def Let_def)
  from submit_log(2) [OF assms(2) this, of ?t] s
  have "host_log (gt_gpu t') = host_log (gt_gpu t) @ [Host_virgl (gt_context_id t) (viewport_words (gt_state ?t))]" by simp
  then show ?thesis
    using half [OF assms(6)] half [OF assms(7)] trans [OF assms(4,6)] trans [OF assms(5,7)] depth
    unfolding viewport_words_def Let_def d by simp
qed

section \<open>Witnesses\<close>

definition sample_gl :: VMOpenGLTranslator where
  "sample_gl = \<lparr>gt_accelerator = True, gt_has_gpu = True, gt_gpu = sample_gpu, gt_context_id = 2,
     gt_state = gl_state_init\<lparr>gl_vertex_data := replicate 120000 0\<rparr>, gt_next_handle = 100, gt_shaders_created = True,
     gt_command_buffer = True, gt_vertex_block = True, gt_blocks = 2\<rparr>"

lemma sample_gl_ok: "gl_ok sample_gl" "\<not> gl_in_begin_end (gt_state sample_gl)" "gt_context_id sample_gl = 2" "gt_next_handle sample_gl = 100"
  "gl_current_color (gt_state sample_gl) = [F32_ONE, F32_ONE, F32_ONE, F32_ONE]" "gl_current_texcoord (gt_state sample_gl) = [0, 0, 0, 0]"
  by (simp_all add: sample_gl_def gl_ok_def gl_state_init_def)

lemma sample_gl_contract: "bytes_contract sample_env"
  by (simp add: bytes_contract_def sample_env_def sample_desc_def)

lemma sample_gl_live: "gl_live sample_env sample_gl" "findResource (gt_gpu sample_gl) (gt_next_handle sample_gl) = None"
proof -
  show "gl_live sample_env sample_gl"
    using sample_good sample_gl_contract by (simp add: gl_live_def sample_gl_def) (simp add: supports3D_def sample_gpu_def sample_env_def)
  have "find_slot k (replicate n free_slot) = None" for k n by (induction n) (simp_all add: free_slot_def)
  then show "findResource (gt_gpu sample_gl) (gt_next_handle sample_gl) = None"
    by (simp add: findResource_def sample_gl_def sample_gpu_def gpu_init_def)
qed

text \<open>A device that accepts everything draws a batch of at most 80 vertices, one page of commands.\<close>

lemma immediate_mode_succeeds:
  assumes "gl_ok t" "gl_live e t" "findResource (gt_gpu t) (gt_next_handle t) = None" "\<not> gl_in_begin_end (gt_state t)" "list_all attribute_call cs"
    and "vs = gl_vertices (gl_current_color (gt_state t)) (gl_current_texcoord (gt_state t)) cs" "vs \<noteq> []" "length vs \<le> 80"
  shows "\<exists>t'. gl_run e (Begin mode # cs @ [End]) t = (replicate (Suc (Suc (length cs))) kIOReturnSuccess, t')"
proof -
  have "length vs \<le> 10000" using assms(8) by simp
  then obtain t1 where t1: "gl_run e (Begin mode # cs @ [End]) t
      = (replicate (Suc (length cs)) kIOReturnSuccess @ [fst (flushVertexBatch e t1)], snd (flushVertexBatch e t1))"
    "gl_ok t1" "gt_gpu t1 = gt_gpu t" "gt_next_handle t1 = gt_next_handle t" "gt_accelerator t1 = gt_accelerator t" "gt_has_gpu t1 = gt_has_gpu t"
    "unat (gl_vertex_count (gt_state t1)) = length vs"
    using begin_run [OF assms(1,4,5,6), of e mode] by blast
  have "gl_live e t1" using assms(2) t1(3,5,6) by (rule live_fixed)
  moreover have "findResource (gt_gpu t1) (gt_next_handle t1) = None" using assms(3) by (simp only: t1(3,4))
  moreover have "gl_vertex_count (gt_state t1) \<noteq> 0" using t1(7) assms(7) by auto
  moreover have "unat (gl_vertex_count (gt_state t1)) \<le> 80" using t1(7) assms(8) by simp
  ultimately obtain t' where "flushVertexBatch e t1 = (kIOReturnSuccess, t')" using flush_live [OF t1(2)] by blast
  then show ?thesis unfolding t1(1) by (intro exI [of _ t']) (simp add: replicate_append_same)
qed

text \<open>A red triangle.\<close>

definition triangle :: "gl_call list" where
  "triangle = [Color3 F32_ONE 0 0, Vertex2 0 0, Vertex2 F32_ONE 0, Vertex2 0 F32_ONE]"

definition triangle_vertices :: "u32 list list" where
  "triangle_vertices = map (\<lambda>(x, y). [x, y, 0, F32_ONE, F32_ONE, 0, 0, F32_ONE, 0, 0, 0, 0]) [(0, 0), (F32_ONE, 0), (0, F32_ONE)]"

lemma triangle_facts: "list_all attribute_call triangle" "triangle_vertices = gl_vertices [F32_ONE, F32_ONE, F32_ONE, F32_ONE] [0, 0, 0, 0] triangle"
  "triangle_vertices \<noteq> []" "length triangle_vertices = 3"
  by (simp_all add: triangle_def triangle_vertices_def)

theorem immediate_mode_submitted_witness:
  "\<exists>t' xs. gl_run sample_env (Begin 4 # triangle @ [End]) sample_gl = (replicate 6 kIOReturnSuccess, t')
     \<and> host_log (gt_gpu t') = host_log (gt_gpu sample_gl) @ drawn 2 100 4 triangle_vertices xs
     \<and> list_all framed (drawn 2 100 4 triangle_vertices xs)"
proof -
  have v: "triangle_vertices = gl_vertices (gl_current_color (gt_state sample_gl)) (gl_current_texcoord (gt_state sample_gl)) triangle"
    by (simp only: sample_gl_ok triangle_facts)
  obtain t' where r: "gl_run sample_env (Begin 4 # triangle @ [End]) sample_gl = (replicate (Suc (Suc (length triangle))) kIOReturnSuccess, t')"
    using immediate_mode_succeeds [OF sample_gl_ok(1) sample_gl_live sample_gl_ok(2) triangle_facts(1) v triangle_facts(3)] triangle_facts(4) by auto
  have "length triangle_vertices \<le> 10000" using triangle_facts(4) by simp
  moreover have "last (replicate (Suc (Suc (length triangle))) kIOReturnSuccess) = kIOReturnSuccess" by simp
  ultimately obtain xs where "host_log (gt_gpu t') = host_log (gt_gpu sample_gl) @ drawn 2 100 4 triangle_vertices xs"
    "list_all framed (drawn 2 100 4 triangle_vertices xs)"
    using immediate_mode_submitted [OF sample_gl_ok(1) sample_gl_contract sample_gl_ok(2) triangle_facts(1) v triangle_facts(3) _ r] by (auto simp: sample_gl_ok triangle_facts(4))
  moreover have n: "Suc (Suc (length triangle)) = 6" by (simp add: triangle_def)
  ultimately show ?thesis using r [unfolded n] by (intro exI [of _ t'] exI [of _ xs] conjI)
qed

theorem gl_program_safe_witness:
  "Kernel_panic \<notin> set (fst (gl_run sample_env [Begin 4, Vertex2 0 0, End, Enable 0x0DE1]
     (snd (initWithAccelerator sample_env True True 2 (snd (gt_init sample_env sample_gpu))))))"
proof -
  have i: "gt_init sample_env sample_gpu = (True, snd (gt_init sample_env sample_gpu))" by (simp add: gt_init_def Let_def sample_env_def)
  have b: "bufs_ok (m_vq (g_tr sample_gpu))" by (simp add: sample_gpu_def sample_transport_def sample_bufs)
  show ?thesis using gl_program_safe [OF i prod.collapse [symmetric] b prod.collapse [symmetric]] by blast
qed

theorem upload_length_field_witness:
  "unat (drop_bit 16 (hd (upload_words 7 1 (replicate 12 0)))) = length (tl (upload_words 7 1 (replicate 12 0)))"
  using upload_length_field [of 1 "replicate 12 0" 7] by simp

theorem viewport_exact_witness:
  "\<exists>(t' :: VMOpenGLTranslator) sx sy sz tx ty tz. host_log (gt_gpu t') = host_log (gt_gpu sample_gl)
        @ [Host_virgl 2 [VIRGL_CMD_HDR VIRGL_CCMD_SET_VIEWPORT_STATE 7, 0, sx, sy, sz, tx, ty, tz]]
     \<and> f32_value sx = 320 \<and> f32_value tx = 325"
proof -
  let ?t = "upd_state (\<lambda>st. st\<lparr>gl_viewport_x := 5, gl_viewport_y := 0, gl_viewport_width := 640, gl_viewport_height := 480\<rparr>) sample_gl"
  have "gl_live sample_env ?t" using sample_gl_live(1) by (rule live_fixed) simp_all
  from live_submit [OF this, of "viewport_words (gt_state ?t)"] obtain t' where v: "glViewport sample_env 5 0 640 480 sample_gl = (kIOReturnSuccess, t')"
    using sample_gl_live(1) by (auto simp: glViewport_def updateViewport_def gl_live_def viewport_words_def Let_def)
  from viewport_exact [OF sample_gl_ok(1) sample_gl_contract v] obtain sx sy sz tx ty tz
    where "host_log (gt_gpu t') = host_log (gt_gpu sample_gl) @ [Host_virgl 2 [VIRGL_CMD_HDR VIRGL_CCMD_SET_VIEWPORT_STATE 7, 0, sx, sy, sz, tx, ty, tz]]"
      "f32_value sx = 320" "f32_value tx = 325" by (auto simp: sample_gl_ok)
  then show ?thesis by blast
qed

end
