(* ===== verification/Cgl_Context.thy ===== *)
theory Cgl_Context
  imports Accel_Client External_Method
begin

text \<open>
  The CGL user client (\<^verbatim>\<open>VMCGLContext.cpp\<close>): one accelerator context per client, its current surface, shared memory, and the
  dispatch of its selectors through the table the kernel checks, on top of the accelerator.
\<close>

section \<open>State\<close>

text \<open>
  \<open>cc_accelerator\<close>: the pointer is non-null. \<open>cc_refs\<close> and \<open>cc_wired\<close>, bookkeeping of the model: references held on and
  preparations made of the descriptors of shared memory, by descriptor. The members that no code assigns anything but null
  are left out.
\<close>

record cgl_context =
  cc_task :: nat
  cc_accelerator :: bool
  cc_context_id :: u32
  cc_cgl_context_id :: u32
  cc_context_valid :: bool
  cc_current_surface_id :: u32
  cc_shared_memory_desc :: "memdesc option"
  cc_refs :: "nat \<Rightarrow> int"
  cc_wired :: "nat \<Rightarrow> int"

definition cgl_initWithTask :: "nat \<Rightarrow> (nat \<Rightarrow> int) \<Rightarrow> (nat \<Rightarrow> int) \<Rightarrow> cgl_context" where
  "cgl_initWithTask task refs wired = \<lparr>cc_task = task, cc_accelerator = False, cc_context_id = 0, cc_cgl_context_id = 0,
     cc_context_valid = False, cc_current_surface_id = 0, cc_shared_memory_desc = None, cc_refs = refs, cc_wired = wired\<rparr>"

text \<open>\<open>is_accel\<close>: the provider is a \<^verbatim>\<open>VMQemuVGAAccelerator\<close>.\<close>

definition cgl_start :: "bool \<Rightarrow> cgl_context \<Rightarrow> bool \<times> cgl_context" where
  "cgl_start is_accel c = (is_accel, c\<lparr>cc_accelerator := is_accel\<rparr>)"

section \<open>The operations\<close>

definition cglCreateContext :: "device_env \<Rightarrow> cgl_context \<Rightarrow> accel \<Rightarrow> io_return \<times> cgl_context \<times> accel" where
  "cglCreateContext e c s =
     (if cc_context_valid c then (kIOReturnExclusiveAccess, c, s)
      else if \<not> cc_accelerator c then (kIOReturnNoDevice, c, s)
      else case accel_create3DContext e (cc_task c) s of (ret, new, s1) \<Rightarrow>
        let c1 = (case new of None \<Rightarrow> c | Some cid \<Rightarrow> c\<lparr>cc_context_id := cid\<rparr>)
        in if ret \<noteq> kIOReturnSuccess then (ret, c1, s1)
           else (kIOReturnSuccess, c1\<lparr>cc_cgl_context_id := cc_context_id c1, cc_context_valid := True\<rparr>, s1))"

definition cglDestroyContext :: "device_env \<Rightarrow> cgl_context \<Rightarrow> accel \<Rightarrow> io_return \<times> cgl_context \<times> accel" where
  "cglDestroyContext e c s =
     (if \<not> cc_context_valid c then (kIOReturnNotOpen, c, s)
      else if \<not> cc_accelerator c then (kIOReturnNoDevice, c, s)
      else case accel_destroy3DContext e (cc_context_id c) s of (ret, s1) \<Rightarrow>
        if ret \<noteq> kIOReturnSuccess then (ret, c, s1)
        else (kIOReturnSuccess, c\<lparr>cc_context_valid := False, cc_context_id := 0, cc_cgl_context_id := 0\<rparr>, s1))"

definition cglSetSurface :: "u32 \<Rightarrow> cgl_context \<Rightarrow> io_return \<times> cgl_context" where
  "cglSetSurface surface_id c =
     (if \<not> cc_context_valid c then (kIOReturnNotOpen, c) else (kIOReturnSuccess, c\<lparr>cc_current_surface_id := surface_id\<rparr>))"

definition cglFlushContext :: "device_env \<Rightarrow> bytes \<Rightarrow> cgl_context \<Rightarrow> accel \<Rightarrow> io_return \<times> accel" where
  "cglFlushContext e junk c s =
     (if \<not> cc_context_valid c then (kIOReturnNotOpen, s)
      else if \<not> cc_accelerator c then (kIOReturnNoDevice, s)
      else if cc_current_surface_id c \<noteq> 0 then accel_present3DSurface e junk (cc_context_id c) (cc_current_surface_id c) s
      else (kIOReturnSuccess, s))"

definition cglSubmitCommands :: "device_env \<Rightarrow> memdesc \<Rightarrow> cgl_context \<Rightarrow> accel \<Rightarrow> io_return \<times> accel" where
  "cglSubmitCommands e commands c s =
     (if \<not> cc_context_valid c then (kIOReturnNotOpen, s)
      else if \<not> cc_accelerator c then (kIOReturnBadArgument, s)
      else accel_submit3DCommands e (cc_context_id c) (Some commands) s)"

definition cglSetParameter :: "u32 \<Rightarrow> u32 list \<Rightarrow> cgl_context \<Rightarrow> io_return" where
  "cglSetParameter param_name params c =
     (if \<not> cc_context_valid c then kIOReturnNotOpen else if params = [] then kIOReturnBadArgument else kIOReturnSuccess)"

definition cglGetParameter :: "u32 \<Rightarrow> cgl_context \<Rightarrow> (io_return, u32 \<times> u32) sum" where
  "cglGetParameter param_name c =
     (if \<not> cc_context_valid c then Inl kIOReturnNotOpen
      else Inr (if param_name = 222 then 1
                else if param_name = 309 then 0x24600
                else if param_name = 310 \<or> param_name = 311 then 1
                else if param_name = 314 then (if cc_current_surface_id c \<noteq> 0 then 1 else 0)
                else 0, 1))"

definition cglSetVirtualScreen :: "u32 \<Rightarrow> cgl_context \<Rightarrow> io_return" where
  "cglSetVirtualScreen screen_id c = (if \<not> cc_context_valid c then kIOReturnNotOpen else kIOReturnSuccess)"

definition cglGetVirtualScreen :: "cgl_context \<Rightarrow> (io_return, u32) sum" where
  "cglGetVirtualScreen c = (if \<not> cc_context_valid c then Inl kIOReturnNotOpen else Inr 0)"

definition cglUpdateContext :: "cgl_context \<Rightarrow> io_return" where
  "cglUpdateContext c = (if \<not> cc_context_valid c then kIOReturnNotOpen else kIOReturnSuccess)"

definition cglLockContext :: "cgl_context \<Rightarrow> io_return" where
  "cglLockContext c = (if \<not> cc_context_valid c then kIOReturnNotOpen else kIOReturnSuccess)"

definition cglUnlockContext :: "cgl_context \<Rightarrow> io_return" where
  "cglUnlockContext c = (if \<not> cc_context_valid c then kIOReturnNotOpen else kIOReturnSuccess)"

definition cglClearDrawable :: "cgl_context \<Rightarrow> io_return \<times> cgl_context" where
  "cglClearDrawable c = (if \<not> cc_context_valid c then (kIOReturnNotOpen, c) else (kIOReturnSuccess, c\<lparr>cc_current_surface_id := 0\<rparr>))"

definition cc_release :: "memdesc option \<Rightarrow> cgl_context \<Rightarrow> cgl_context" where
  "cc_release m c = (case m of None \<Rightarrow> c | Some d \<Rightarrow> c\<lparr>cc_refs := (cc_refs c)(md_id d := cc_refs c (md_id d) - 1)\<rparr>)"

text \<open>A descriptor that is replaced is released but never completed.\<close>

definition cglSetupSharedMemory :: "device_env \<Rightarrow> nat \<Rightarrow> u64 \<Rightarrow> u64 \<Rightarrow> cgl_context \<Rightarrow> io_return \<times> cgl_context" where
  "cglSetupSharedMemory e tick address len c =
     (if \<not> cc_context_valid c then (kIOReturnNotOpen, c)
      else let c1 = (cc_release (cc_shared_memory_desc c) c)\<lparr>cc_shared_memory_desc := None\<rparr>
           in case user_desc e tick address len of
                None \<Rightarrow> (kIOReturnNoMemory, c1)
              | Some d \<Rightarrow>
                  let c2 = c1\<lparr>cc_shared_memory_desc := Some d, cc_refs := (cc_refs c1)(md_id d := cc_refs c1 (md_id d) + 1)\<rparr>
                  in if md_prepare d \<noteq> kIOReturnSuccess
                     then (md_prepare d, (cc_release (Some d) c2)\<lparr>cc_shared_memory_desc := None\<rparr>)
                     else (kIOReturnSuccess, c2\<lparr>cc_wired := (cc_wired c2)(md_id d := cc_wired c2 (md_id d) + 1)\<rparr>))"

section \<open>Life cycle\<close>

definition cgl_stop :: "device_env \<Rightarrow> cgl_context \<Rightarrow> accel \<Rightarrow> cgl_context \<times> accel" where
  "cgl_stop e c s = (if cc_context_valid c then snd (cglDestroyContext e c s) else (c, s))"

definition cgl_clientClose :: "device_env \<Rightarrow> cgl_context \<Rightarrow> accel \<Rightarrow> io_return \<times> cgl_context \<times> accel" where
  "cgl_clientClose e c s = (kIOReturnSuccess, if cc_context_valid c then snd (cglDestroyContext e c s) else (c, s))"

definition cgl_clientDied :: "device_env \<Rightarrow> cgl_context \<Rightarrow> accel \<Rightarrow> io_return \<times> cgl_context \<times> accel" where
  "cgl_clientDied e c s = cgl_clientClose e c s"

definition cgl_free :: "cgl_context \<Rightarrow> cgl_context" where
  "cgl_free c = (cc_release (cc_shared_memory_desc c) c)\<lparr>cc_shared_memory_desc := None\<rparr>"

section \<open>Selectors\<close>

type_synonym cgl_result = "io_return \<times> External_Method.ext_args \<times> cgl_context \<times> accel"

text \<open>
  A handler runs \<open>body\<close> when the counts are those it asks for; reading or writing an array that is not there is a panic.
\<close>

definition cgl_guard :: "nat option \<Rightarrow> nat option \<Rightarrow> External_Method.ext_args \<Rightarrow> cgl_context \<Rightarrow> accel \<Rightarrow> cgl_result \<Rightarrow> cgl_result" where
  "cgl_guard n m a c s body =
     (if (case n of None \<Rightarrow> False | Some k \<Rightarrow> scalarInputCount a \<noteq> k) \<or> (case m of None \<Rightarrow> False | Some k \<Rightarrow> scalarOutputCount a \<noteq> k)
      then (kIOReturnBadArgument, a, c, s)
      else if \<not> in_mem (case n of None \<Rightarrow> 0 | Some k \<Rightarrow> k) a \<or> \<not> out_mem (case m of None \<Rightarrow> 0 | Some k \<Rightarrow> k) a
      then (Kernel_panic, a, c, s) else body)"

definition sCGLCreateContext :: "device_env \<Rightarrow> External_Method.ext_args \<Rightarrow> cgl_context \<Rightarrow> accel \<Rightarrow> cgl_result" where
  "sCGLCreateContext e a c s =
     cgl_guard (Some 2) (Some 1) a c s
       (case cglCreateContext e c s of (ret, c1, s1) \<Rightarrow>
          (ret, if ret = kIOReturnSuccess then set_out 0 (ucast (cc_cgl_context_id c1)) a else a, c1, s1))"

definition sCGLDestroyContext :: "device_env \<Rightarrow> External_Method.ext_args \<Rightarrow> cgl_context \<Rightarrow> accel \<Rightarrow> cgl_result" where
  "sCGLDestroyContext e a c s = (case cglDestroyContext e c s of (ret, c1, s1) \<Rightarrow> (ret, a, c1, s1))"

definition sCGLSetSurface :: "External_Method.ext_args \<Rightarrow> cgl_context \<Rightarrow> accel \<Rightarrow> cgl_result" where
  "sCGLSetSurface a c s =
     cgl_guard (Some 3) None a c s (case cglSetSurface (arg a 0) c of (ret, c1) \<Rightarrow> (ret, a, c1, s))"

definition sCGLFlushContext :: "device_env \<Rightarrow> bytes \<Rightarrow> External_Method.ext_args \<Rightarrow> cgl_context \<Rightarrow> accel \<Rightarrow> cgl_result" where
  "sCGLFlushContext e junk a c s = (case cglFlushContext e junk c s of (ret, s1) \<Rightarrow> (ret, a, c, s1))"

text \<open>\<open>kdesc\<close>: what \<^verbatim>\<open>IOMemoryDescriptor::withAddress\<close> makes of bytes in the kernel.\<close>

definition sCGLSubmitCommands ::
  "(bytes \<Rightarrow> memdesc option) \<Rightarrow> device_env \<Rightarrow> External_Method.ext_args \<Rightarrow> cgl_context \<Rightarrow> accel \<Rightarrow> cgl_result" where
  "sCGLSubmitCommands kdesc e a c s =
     cgl_guard (Some 1) None a c s
       (case structureInput a of
          None \<Rightarrow> (kIOReturnBadArgument, a, c, s)
        | Some bs \<Rightarrow>
            if structureInputSize a = 0 then (kIOReturnBadArgument, a, c, s)
            else case kdesc (take (structureInputSize a) bs) of
                   None \<Rightarrow> (kIOReturnNoMemory, a, c, s)
                 | Some d \<Rightarrow> (case cglSubmitCommands e d c s of (ret, s1) \<Rightarrow> (ret, a, c, s1)))"

definition sCGLSetParameter :: "External_Method.ext_args \<Rightarrow> cgl_context \<Rightarrow> accel \<Rightarrow> cgl_result" where
  "sCGLSetParameter a c s = cgl_guard (Some 2) None a c s (cglSetParameter (arg a 0) [arg a 1] c, a, c, s)"

definition sCGLGetParameter :: "External_Method.ext_args \<Rightarrow> cgl_context \<Rightarrow> accel \<Rightarrow> cgl_result" where
  "sCGLGetParameter a c s =
     cgl_guard (Some 1) (Some 2) a c s
       (case cglGetParameter (arg a 0) c of
          Inl ret \<Rightarrow> (ret, a, c, s)
        | Inr (v, n) \<Rightarrow> (kIOReturnSuccess, set_out 1 (ucast n) (set_out 0 (scast v) a), c, s))"

definition sCGLSetVirtualScreen :: "External_Method.ext_args \<Rightarrow> cgl_context \<Rightarrow> accel \<Rightarrow> cgl_result" where
  "sCGLSetVirtualScreen a c s = cgl_guard (Some 1) None a c s (cglSetVirtualScreen (arg a 0) c, a, c, s)"

definition sCGLGetVirtualScreen :: "External_Method.ext_args \<Rightarrow> cgl_context \<Rightarrow> accel \<Rightarrow> cgl_result" where
  "sCGLGetVirtualScreen a c s =
     cgl_guard None (Some 1) a c s
       (case cglGetVirtualScreen c of Inl ret \<Rightarrow> (ret, a, c, s) | Inr v \<Rightarrow> (kIOReturnSuccess, set_out 0 (ucast v) a, c, s))"

definition sCGLUpdateContext :: "External_Method.ext_args \<Rightarrow> cgl_context \<Rightarrow> accel \<Rightarrow> cgl_result" where
  "sCGLUpdateContext a c s = (cglUpdateContext c, a, c, s)"

definition sCGLLockContext :: "External_Method.ext_args \<Rightarrow> cgl_context \<Rightarrow> accel \<Rightarrow> cgl_result" where
  "sCGLLockContext a c s = (cglLockContext c, a, c, s)"

definition sCGLUnlockContext :: "External_Method.ext_args \<Rightarrow> cgl_context \<Rightarrow> accel \<Rightarrow> cgl_result" where
  "sCGLUnlockContext a c s = (cglUnlockContext c, a, c, s)"

definition sCGLClearDrawable :: "External_Method.ext_args \<Rightarrow> cgl_context \<Rightarrow> accel \<Rightarrow> cgl_result" where
  "sCGLClearDrawable a c s = (case cglClearDrawable c of (ret, c1) \<Rightarrow> (ret, a, c1, s))"

definition sCGLSetupSharedMemory :: "device_env \<Rightarrow> nat \<Rightarrow> External_Method.ext_args \<Rightarrow> cgl_context \<Rightarrow> accel \<Rightarrow> cgl_result" where
  "sCGLSetupSharedMemory e tick a c s =
     cgl_guard (Some 2) None a c s (case cglSetupSharedMemory e tick (arg64 a 0) (arg64 a 1) c of (ret, c1) \<Rightarrow> (ret, a, c1, s))"

text \<open>
  The table: scalar inputs, bytes of structure input, scalar outputs, bytes of structure output. \<open>0xFFFFFFFF\<close> stands for any
  size.
\<close>

definition cgl_dispatchTable :: "ext_dispatch_entry list" where
  "cgl_dispatchTable = map (\<lambda>(a, b, c, d). \<lparr>xd_scalar_in = a, xd_struct_in = b, xd_scalar_out = c, xd_struct_out = d\<rparr>)
     [(2, 1, 0, 0), (0, 0, 0, 0), (3, 0, 0, 0), (0, 0, 0, 0), (1, 0, 0, 0xFFFFFFFF), (2, 0, 0, 0), (1, 2, 0, 0),
      (1, 0, 0, 0), (0, 1, 0, 0), (0, 0, 0, 0), (0, 0, 0, 0), (0, 0, 0, 0), (0, 0, 0, 0), (2, 0, 0, 0)]"

text \<open>
  \<^verbatim>\<open>externalMethod\<close>. \<open>check\<close> is the argument check of \<^verbatim>\<open>IOUserClient::externalMethod\<close> against the entry, which belongs to the kernel.
\<close>

record cgl_env =
  ce_check :: "ext_dispatch_entry \<Rightarrow> External_Method.ext_args \<Rightarrow> bool"
  ce_kdesc :: "bytes \<Rightarrow> memdesc option"
  ce_device :: device_env
  ce_junk :: bytes
  ce_tick :: nat

definition cgl_externalMethod :: "cgl_env \<Rightarrow> u32 \<Rightarrow> External_Method.ext_args \<Rightarrow> cgl_context \<Rightarrow> accel \<Rightarrow> cgl_result" where
  "cgl_externalMethod ce selector a c s =
     (let e = ce_device ce in
      if selector \<ge> 14 then (kIOReturnBadArgument, a, c, s)
      else if \<not> ce_check ce (cgl_dispatchTable ! unat selector) a then (kIOReturnBadArgument, a, c, s)
      else if selector = 0 then sCGLCreateContext e a c s
      else if selector = 1 then sCGLDestroyContext e a c s
      else if selector = 2 then sCGLSetSurface a c s
      else if selector = 3 then sCGLFlushContext e (ce_junk ce) a c s
      else if selector = 4 then sCGLSubmitCommands (ce_kdesc ce) e a c s
      else if selector = 5 then sCGLSetParameter a c s
      else if selector = 6 then sCGLGetParameter a c s
      else if selector = 7 then sCGLSetVirtualScreen a c s
      else if selector = 8 then sCGLGetVirtualScreen a c s
      else if selector = 9 then sCGLUpdateContext a c s
      else if selector = 10 then sCGLClearDrawable a c s
      else if selector = 11 then sCGLLockContext a c s
      else if selector = 12 then sCGLUnlockContext a c s
      else sCGLSetupSharedMemory e (ce_tick ce) a c s)"

text \<open>A history of calls, each with its own kernel and device.\<close>

fun cgl_run :: "(cgl_env \<times> u32 \<times> External_Method.ext_args) list \<Rightarrow> cgl_context \<Rightarrow> accel \<Rightarrow> io_return list \<times> cgl_context \<times> accel" where
  "cgl_run [] c s = ([], c, s)"
| "cgl_run ((ce, selector, a) # calls) c s =
     (case cgl_externalMethod ce selector a c s of (ret, _, c1, s1) \<Rightarrow>
        case cgl_run calls c1 s1 of (rs, c2, s2) \<Rightarrow> (ret # rs, c2, s2))"

end
