(* ===== verification/Cgl_Client.thy ===== *)
theory Cgl_Client
  imports Cgl_Context
begin

text \<open>
  What a CGL client does to the accelerator: it holds at most one context and takes it along when it closes, whatever it calls;
  and what the dispatch table lets through.
\<close>

section \<open>One client, one context\<close>

lemma create_context_result:
  assumes "accel_create3DContext e task s = (ret, new, s')" "accel_inv b s" "heap_bounded e" "b + 1 < 2 ^ 32"
  shows "accel_inv (b + 1) s'" "ac_surfaces s' = ac_surfaces s"
    "ret \<noteq> kIOReturnSuccess \<Longrightarrow> new = None \<and> context_of s' = context_of s"
    "ret = kIOReturnSuccess \<Longrightarrow> \<exists>cid x. new = Some cid \<and> context_of s cid = None \<and> context_of s' = (context_of s)(cid \<mapsto> x) \<and> cx_owning_task x = task"
proof -
  show "accel_inv (b + 1) s'" using inv_create_context [OF assms(2-4), of task] assms(1) by simp
  show "ac_surfaces s' = ac_surfaces s" using create_context_keeps(2) [OF assms] .
  obtain r gcid g where r: "createRenderContext e (ac_gpu s) = (r, gcid, g)" by (metis surj_pair)
  let ?s = "s\<lparr>ac_gpu := g\<rparr>"
  let ?c = "\<lparr>cx_context_id = ac_next_context_id s + 1, cx_gpu_context_id = the gcid, cx_command_buffer = None, cx_owning_task = task,
       cx_bound_surface_ids = [], cx_bound_surface_capacity = 0\<rparr>"
  have inv: "accel_inv b ?s" using assms(2) by simp
  have add: "context_of s (ac_next_context_id s + 1) = None \<and> context_of (ac_blocks 1 t) = (context_of s)(ac_next_context_id s + 1 \<mapsto> ?c)"
    if "poolAddContext e ?c (?s\<lparr>ac_next_context_id := ac_next_context_id s + 1\<rparr>) = Some t" for t
    using inv_add_context(2,3) [OF inv assms(3,4), of ?c t] that
    by (auto simp: bound_ok_def ac_blocks_def poolAddContext_def)
  show "ret \<noteq> kIOReturnSuccess \<Longrightarrow> new = None \<and> context_of s' = context_of s"
    using assms(1) by (auto simp: accel_create3DContext_def r Let_def on_accel_gpu_def split: if_splits option.splits)
  show "ret = kIOReturnSuccess \<Longrightarrow> \<exists>cid x. new = Some cid \<and> context_of s cid = None \<and> context_of s' = (context_of s)(cid \<mapsto> x) \<and> cx_owning_task x = task"
    using assms(1) add by (force simp: accel_create3DContext_def r Let_def on_accel_gpu_def split: if_splits option.splits)
qed

text \<open>
  The client's own context, when it has one, is the only difference between the table before the client came (\<open>s0\<close>) and now;
  the references it holds are those of its shared memory.
\<close>

definition cgl_tidy :: "accel \<Rightarrow> (nat \<Rightarrow> int) \<Rightarrow> nat \<Rightarrow> nat \<Rightarrow> cgl_context \<Rightarrow> accel \<Rightarrow> bool" where
  "cgl_tidy s0 refs task b c s \<longleftrightarrow> accel_inv b s \<and> cc_accelerator c \<and> cc_task c = task \<and> keeps_surfaces s0 s
     \<and> cc_refs (cgl_free c) = refs
     \<and> (if cc_context_valid c
        then context_of s0 (cc_context_id c) = None
           \<and> (\<exists>x. context_of s = (context_of s0)(cc_context_id c \<mapsto> x) \<and> cx_owning_task x = task)
        else context_of s = context_of s0)"

lemma keeps_surfaces_trans: "keeps_surfaces s t \<Longrightarrow> keeps_surfaces t u \<Longrightarrow> keeps_surfaces s u"
proof -
  assume a: "keeps_surfaces s t" "keeps_surfaces t u"
  show "keeps_surfaces s u" unfolding keeps_surfaces_def
  proof (intro allI impI)
    fix k x assume "surface_of s k = Some x"
    then obtain r where "surface_of t k = Some (x\<lparr>su_is_render_target := r\<rparr>)" using a(1) unfolding keeps_surfaces_def by blast
    then obtain q where "surface_of u k = Some (x\<lparr>su_is_render_target := r\<rparr>\<lparr>su_is_render_target := q\<rparr>)"
      using a(2) unfolding keeps_surfaces_def by blast
    then show "\<exists>q. surface_of u k = Some (x\<lparr>su_is_render_target := q\<rparr>)" by auto
  qed
qed

text \<open>What does not touch the context or the shared memory of the client.\<close>

lemma tidy_frame:
  assumes "cgl_tidy s0 refs task b c s" "accel_inv b' s'" "ac_contexts s' = ac_contexts s" "keeps_surfaces s s'"
  shows "cgl_tidy s0 refs task b' c s'"
  using assms keeps_surfaces_trans [of s0 s s'] by (simp add: cgl_tidy_def)

lemma tidy_client:
  assumes "cgl_tidy s0 refs task b c s" "cc_accelerator c' = cc_accelerator c" "cc_context_valid c' = cc_context_valid c"
    "cc_context_id c' = cc_context_id c" "cc_task c' = cc_task c" "cc_refs (cgl_free c') = cc_refs (cgl_free c)"
  shows "cgl_tidy s0 refs task b c' s"
  using assms by (simp add: cgl_tidy_def)

lemma tidy_weaken: "cgl_tidy s0 refs task b c s \<Longrightarrow> cgl_tidy s0 refs task (b + k) c s"
  using accel_inv_mono [of b s "b + k"] by (simp add: cgl_tidy_def)

lemma tidy_create:
  assumes "cgl_tidy s0 refs task b c s" "heap_bounded e" "b + 1 < 2 ^ 32" "cglCreateContext e c s = (ret, c', s')"
  shows "cgl_tidy s0 refs task (b + 1) c' s'"
proof (cases "cc_context_valid c")
  case True
  then show ?thesis using assms tidy_weaken [OF assms(1), of 1] by (simp add: cglCreateContext_def)
next
  case False
  obtain r new s1 where r: "accel_create3DContext e (cc_task c) s = (r, new, s1)" by (metis surj_pair)
  have i: "accel_inv b s" "cc_accelerator c" "context_of s = context_of s0" "keeps_surfaces s0 s" "cc_refs (cgl_free c) = refs" "cc_task c = task"
    using assms(1) False by (simp_all add: cgl_tidy_def)
  note res = create_context_result [OF r i(1) assms(2,3)]
  have ks: "keeps_surfaces s0 s1" using keeps_surfaces_trans [OF i(4)] keeps_refl(1) [OF res(2)] .
  have f: "cc_refs (cgl_free (c\<lparr>cc_context_id := k, cc_cgl_context_id := k, cc_context_valid := True\<rparr>)) = refs" for k
    using i(5) by (simp add: cgl_free_def cc_release_def split: option.splits)
  show ?thesis
  proof (cases "r = kIOReturnSuccess")
    case True
    from res(4) [OF this] obtain cid x where n: "new = Some cid" "context_of s cid = None" "context_of s1 = (context_of s)(cid \<mapsto> x)"
      "cx_owning_task x = cc_task c" by blast
    have "c' = c\<lparr>cc_context_id := cid, cc_cgl_context_id := cid, cc_context_valid := True\<rparr>" "s' = s1"
      using assms(4) False True i(2) n(1) by (simp_all add: cglCreateContext_def r)
    moreover have "\<exists>y. context_of s1 = (context_of s0)(cid \<mapsto> y) \<and> cx_owning_task y = task" using n(3,4) i(3,6) by auto
    ultimately show ?thesis using res(1) i(2,3,6) ks f n(2) by (simp add: cgl_tidy_def)
  next
    case fail: False
    then have "c' = c" "s' = s1" using assms(4) False i(2) res(3) by (simp_all add: cglCreateContext_def r)
    then show ?thesis using res(1,3) fail False i ks by (simp add: cgl_tidy_def)
  qed
qed

lemma tidy_destroy:
  assumes "cgl_tidy s0 refs task b c s" "cglDestroyContext e c s = (ret, c', s')"
  shows "cgl_tidy s0 refs task b c' s'" "\<not> cc_context_valid c'"
proof -
  have "cgl_tidy s0 refs task b c' s' \<and> \<not> cc_context_valid c'"
  proof (cases "cc_context_valid c")
    case False
    then show ?thesis using assms by (simp add: cglDestroyContext_def)
  next
    case True
    let ?k = "cc_context_id c"
    have i: "accel_inv b s" "cc_accelerator c" "keeps_surfaces s0 s" "cc_refs (cgl_free c) = refs" "context_of s0 ?k = None" "cc_task c = task"
      using assms(1) True by (simp_all add: cgl_tidy_def)
    obtain x where x: "context_of s = (context_of s0)(?k \<mapsto> x)" using assms(1) True by (auto simp: cgl_tidy_def)
    have found: "accel_findContext ?k s \<noteq> None" using fun_cong [OF x, of ?k] by (auto simp: pool_look_def accel_findContext_def split: option.splits)
    then have ok: "accel_destroy3DContext e ?k s = (kIOReturnSuccess, snd (destroyContextInternal e ?k s))"
      by (auto simp: accel_destroy3DContext_def destroyContextInternal_def Let_def split: option.splits)
    let ?s = "snd (destroyContextInternal e ?k s)"
    have "context_of ?s = context_of s0" using destroy_context_of(1) [OF i(1), of e ?k] x i(5) by (simp add: fun_upd_idem)
    moreover have "keeps_surfaces s0 ?s" using keeps_surfaces_trans [OF i(3)] keeps_refl(1) destroy_context_of(2) [OF i(1)] by blast
    moreover have "accel_inv b ?s" by (rule inv_destroy_context [OF i(1)])
    moreover have "cc_refs (cgl_free (c\<lparr>cc_context_valid := False, cc_context_id := 0, cc_cgl_context_id := 0\<rparr>)) = refs"
      using i(4) by (simp add: cgl_free_def cc_release_def split: option.splits)
    ultimately show ?thesis using assms(2) True i(2,6) by (auto simp: cglDestroyContext_def ok cgl_tidy_def)
  qed
  then show "cgl_tidy s0 refs task b c' s'" "\<not> cc_context_valid c'" by auto
qed

lemma shared_refs: "cc_refs (cgl_free (snd (cglSetupSharedMemory e tick a l c))) = cc_refs (cgl_free c)"
  by (auto simp: cglSetupSharedMemory_def cgl_free_def cc_release_def Let_def fun_eq_iff split: option.splits)

lemma shared_same:
  "cc_accelerator (snd (cglSetupSharedMemory e tick a l c)) = cc_accelerator c" "cc_context_valid (snd (cglSetupSharedMemory e tick a l c)) = cc_context_valid c"
  "cc_context_id (snd (cglSetupSharedMemory e tick a l c)) = cc_context_id c" "cc_task (snd (cglSetupSharedMemory e tick a l c)) = cc_task c"
  by (auto simp: cglSetupSharedMemory_def cc_release_def Let_def split: option.splits)

lemma surface_same: "cgl_tidy s0 refs task b (c\<lparr>cc_current_surface_id := k\<rparr>) s = cgl_tidy s0 refs task b c s"
  by (auto simp: cgl_tidy_def cgl_free_def cc_release_def split: option.splits)

lemma tidy_present:
  assumes "cgl_tidy s0 refs task b c s"
  shows "cgl_tidy s0 refs task b c (snd (accel_present3DSurface e junk k sid s))"
proof -
  have i: "accel_inv b s" using assms by (simp add: cgl_tidy_def)
  show ?thesis by (rule tidy_frame [OF assms inv_present [OF i] present_keeps(2,1) [OF i]])
qed

lemma tidy_submit:
  assumes "cgl_tidy s0 refs task b c s"
  shows "cgl_tidy s0 refs task b c (snd (accel_submit3DCommands e k cmds s))"
proof -
  let ?t = "snd (accel_submit3DCommands e k cmds s)"
  have i: "accel_inv b s" using assms by (simp add: cgl_tidy_def)
  have "accel_inv b ?t" "ac_contexts ?t = ac_contexts s" "ac_surfaces ?t = ac_surfaces s"
    using i by (auto simp: accel_submit3DCommands_def Let_def split: option.splits prod.splits)
  then show ?thesis using tidy_frame [OF assms] keeps_refl(1) by blast
qed

lemma tidy_call:
  assumes "cgl_tidy s0 refs task b c s" "heap_bounded (ce_device ce)" "b + 1 < 2 ^ 32" "cgl_externalMethod ce selector a c s = (ret, a', c', s')"
  shows "cgl_tidy s0 refs task (b + 1) c' s'"
proof -
  define K where "K r = cgl_tidy s0 refs task (b + 1) (fst (snd (snd r))) (snd (snd (snd r)))" for r :: cgl_result
  have self: "K (r, x, c, s)" for r x using tidy_weaken [OF assms(1), of 1] by (simp add: K_def)
  have guard: "K body \<Longrightarrow> K (cgl_guard n m a c s body)" for n m body using self by (simp add: cgl_guard_def)
  have clientK: "K (r, x, c1, s)" if "cgl_tidy s0 refs task b c1 s" for r x c1 using tidy_weaken [OF that, of 1] by (simp add: K_def)
  have accelK: "K (r, x, c, s1)" if "cgl_tidy s0 refs task b c s1" for r x s1 using tidy_weaken [OF that, of 1] by (simp add: K_def)
  let ?e = "ce_device ce"
  have 0: "K (sCGLCreateContext ?e a c s)"
    unfolding sCGLCreateContext_def
    using tidy_create [OF assms(1-3)] by (intro guard, cases "cglCreateContext ?e c s") (simp add: K_def)
  have 1: "K (sCGLDestroyContext ?e a c s)"
    using tidy_weaken [OF tidy_destroy(1) [OF assms(1)], of ?e _ _ _ 1] by (cases "cglDestroyContext ?e c s") (simp add: sCGLDestroyContext_def K_def)
  have 2: "K (sCGLSetSurface a c s)"
    unfolding sCGLSetSurface_def by (rule guard) (auto simp: cglSetSurface_def surface_same assms(1) intro: clientK)
  have 3: "K (sCGLFlushContext ?e (ce_junk ce) a c s)"
    unfolding sCGLFlushContext_def cglFlushContext_def
    using self accelK [OF tidy_present [OF assms(1)]] by (simp add: case_prod_beta)
  have 4: "K (sCGLSubmitCommands (ce_kdesc ce) ?e a c s)"
    unfolding sCGLSubmitCommands_def cglSubmitCommands_def
    using self accelK [OF tidy_submit [OF assms(1)]] by (intro guard) (simp add: case_prod_beta split: option.splits)
  have 5: "K (sCGLSetParameter a c s)" "K (sCGLSetVirtualScreen a c s)"
    unfolding sCGLSetParameter_def sCGLSetVirtualScreen_def by (rule guard, rule self)+
  have 6: "K (sCGLGetParameter a c s)" "K (sCGLGetVirtualScreen a c s)"
    unfolding sCGLGetParameter_def sCGLGetVirtualScreen_def using self by (intro guard; simp split: sum.splits)+
  have 9: "K (sCGLUpdateContext a c s)" "K (sCGLLockContext a c s)" "K (sCGLUnlockContext a c s)"
    unfolding sCGLUpdateContext_def sCGLLockContext_def sCGLUnlockContext_def by (rule self)+
  have 10: "K (sCGLClearDrawable a c s)"
    unfolding sCGLClearDrawable_def cglClearDrawable_def using self surface_same assms(1) by (auto intro: clientK)
  have 13: "K (sCGLSetupSharedMemory ?e (ce_tick ce) a c s)"
    unfolding sCGLSetupSharedMemory_def
    using clientK [OF tidy_client [OF assms(1) shared_same shared_refs]] by (intro guard) (simp add: case_prod_beta)
  have "K (cgl_externalMethod ce selector a c s)"
    using self 0 1 2 3 4 5 6 9 10 13 by (simp add: cgl_externalMethod_def Let_def)
  then show ?thesis unfolding K_def assms(4) by simp
qed

lemma tidy_run:
  assumes "cgl_tidy s0 refs task b c s" "\<forall>(ce, _) \<in> set calls. heap_bounded (ce_device ce)" "b + length calls < 2 ^ 32" "cgl_run calls c s = (rs, c', s')"
  shows "cgl_tidy s0 refs task (b + length calls) c' s'"
  using assms
proof (induction calls c s arbitrary: b rs rule: cgl_run.induct)
  case (2 ce selector a calls c s)
  obtain ret a1 c1 s1 where x: "cgl_externalMethod ce selector a c s = (ret, a1, c1, s1)" by (metis surj_pair)
  obtain rs' where y: "cgl_run calls c1 s1 = (rs', c', s')" using 2(5) by (auto simp: x split: prod.splits)
  have "cgl_tidy s0 refs task (b + 1) c1 s1" using tidy_call [OF 2(2) _ _ x] 2(3,4) by simp
  then have "cgl_tidy s0 refs task (b + 1 + length calls) c' s'"
    using 2(1) [OF x [symmetric] refl refl, of "b + 1"] 2(3,4) y by simp
  then show ?case by simp
qed simp

text \<open>C29. A CGL client cleans up after itself. Whatever selectors it calls, with whatever arguments, kernel check, device
  and failing allocations, and after any history of the accelerator: when it has closed and is freed, the table of contexts is
  what it was before the client was opened, no surface has disappeared or changed its contents, and every reference to shared
  memory has been given back. In between the table differs in one entry at most, which belongs to the client's task.\<close>

theorem cgl_client_tidy:
  assumes "(accel_step e ^^ n) (snd (accel_start dev True (accel_init a0))) s0" "ac_heap a0 = 0" "ac_refs a0 = (\<lambda>_. 0)" "heap_bounded e"
    and "\<forall>(ce, _) \<in> set calls. heap_bounded (ce_device ce)" "n < 2 ^ 30" "length calls < 2 ^ 30"
    and "cgl_run calls (snd (cgl_start True (cgl_initWithTask task refs wired))) s0 = (rs, c, s)" "cgl_clientClose e' c s = (r, c', s')"
  shows "context_of s' = context_of s0 \<and> (\<forall>k x. surface_of s0 k = Some x \<longrightarrow> (\<exists>t. surface_of s' k = Some (x\<lparr>su_is_render_target := t\<rparr>)))
     \<and> cc_refs (cgl_free c') = refs
     \<and> (\<forall>k. context_of s k \<noteq> context_of s0 k \<longrightarrow> k = cc_context_id c \<and> map_option cx_owning_task (context_of s k) = Some task)"
proof -
  have "accel_inv (1 + 2 * n) s0"
    using accel_run_inv [OF assms(1) accel_start_inv [OF assms(2,3)] assms(4)] assms(6) by simp
  then have "cgl_tidy s0 refs task (1 + 2 * n) (snd (cgl_start True (cgl_initWithTask task refs wired))) s0"
    using keeps_refl(1) [of s0 s0] by (simp add: cgl_tidy_def cgl_start_def cgl_initWithTask_def cgl_free_def cc_release_def)
  from tidy_run [OF this assms(5) _ assms(8)] assms(6,7) have t: "cgl_tidy s0 refs task (1 + 2 * n + length calls) c s" by simp
  obtain r1 where d: "cglDestroyContext e' c s = (r1, c', s') \<or> (c' = c \<and> s' = s \<and> \<not> cc_context_valid c)"
    using assms(9) by (auto simp: cgl_clientClose_def split: if_splits) (metis prod.collapse)
  then have "cgl_tidy s0 refs task (1 + 2 * n + length calls) c' s' \<and> \<not> cc_context_valid c'" using tidy_destroy [OF t] t by auto
  moreover have "\<forall>k. context_of s k \<noteq> context_of s0 k \<longrightarrow> k = cc_context_id c \<and> map_option cx_owning_task (context_of s k) = Some task"
    using t by (auto simp: cgl_tidy_def split: if_splits)
  ultimately show ?thesis by (simp add: cgl_tidy_def keeps_surfaces_def)
qed

section \<open>The dispatch table shuts the client out\<close>

text \<open>
  The check \<^verbatim>\<open>IOUserClient::externalMethod\<close> is documented to make: every count of the entry, in the order scalar inputs, structure
  input, scalar outputs, structure output, is the one of the call or stands for any size.
\<close>

definition iokit_check :: "ext_dispatch_entry \<Rightarrow> External_Method.ext_args \<Rightarrow> bool" where
  "iokit_check d a \<longleftrightarrow>
     (xd_scalar_in d = 0xFFFFFFFF \<or> scalarInputCount a = xd_scalar_in d)
     \<and> (xd_struct_in d = 0xFFFFFFFF
        \<or> (case structureInputDescriptor a of None \<Rightarrow> structureInputSize a | Some m \<Rightarrow> md_length m) = xd_struct_in d)
     \<and> (xd_scalar_out d = 0xFFFFFFFF \<or> scalarOutputCount a = xd_scalar_out d)
     \<and> (xd_struct_out d = 0xFFFFFFFF
        \<or> (case structureOutputDescriptor a of None \<Rightarrow> structureOutputSize a | Some m \<Rightarrow> length m) = xd_struct_out d)"

lemma closed_call:
  assumes "\<And>d b. ce_check ce d b \<Longrightarrow> iokit_check d b" "\<not> cc_context_valid c"
  shows "\<exists>ret a'. cgl_externalMethod ce selector a c s = (ret, a', c, s) \<and> ret \<noteq> kIOReturnSuccess"
proof -
  define N where "N r \<longleftrightarrow> (\<exists>ret a'. r = (ret, a', c, s) \<and> ret \<noteq> kIOReturnSuccess)" for r :: cgl_result
  have guard: "N body \<Longrightarrow> N (cgl_guard n m a c s body)" for n m body by (auto simp: cgl_guard_def N_def)
  have fail: "N (ret, b, c, s)" if "ret \<noteq> kIOReturnSuccess" for ret b using that by (simp add: N_def)
  have create: "N (sCGLCreateContext e a c s)" if "ce_check ce (cgl_dispatchTable ! 0) a" for e
  proof -
    have "scalarOutputCount a = 0" using assms(1) [OF that] by (simp add: iokit_check_def cgl_dispatchTable_def)
    then show ?thesis by (simp add: sCGLCreateContext_def cgl_guard_def N_def)
  qed
  have 1: "N (sCGLDestroyContext e a c s)" for e using assms(2) by (simp add: sCGLDestroyContext_def cglDestroyContext_def N_def)
  have 2: "N (sCGLSetSurface a c s)" unfolding sCGLSetSurface_def using assms(2) by (intro guard) (simp add: cglSetSurface_def N_def)
  have 3: "N (sCGLFlushContext e junk a c s)" for e junk using assms(2) by (simp add: sCGLFlushContext_def cglFlushContext_def N_def)
  have 4: "N (sCGLSubmitCommands kdesc e a c s)" for kdesc e
    unfolding sCGLSubmitCommands_def using assms(2) by (intro guard) (simp add: cglSubmitCommands_def N_def split: option.splits)
  have 5: "N (sCGLSetParameter a c s)" "N (sCGLSetVirtualScreen a c s)" "N (sCGLGetParameter a c s)" "N (sCGLGetVirtualScreen a c s)"
    unfolding sCGLSetParameter_def sCGLSetVirtualScreen_def sCGLGetParameter_def sCGLGetVirtualScreen_def using assms(2)
    by (intro guard; simp add: cglSetParameter_def cglSetVirtualScreen_def cglGetParameter_def cglGetVirtualScreen_def N_def)+
  have 9: "N (sCGLUpdateContext a c s)" "N (sCGLLockContext a c s)" "N (sCGLUnlockContext a c s)"
    using assms(2) by (simp_all add: sCGLUpdateContext_def sCGLLockContext_def sCGLUnlockContext_def cglUpdateContext_def
      cglLockContext_def cglUnlockContext_def N_def)
  have 10: "N (sCGLClearDrawable a c s)" using assms(2) by (simp add: sCGLClearDrawable_def cglClearDrawable_def N_def)
  have 13: "N (sCGLSetupSharedMemory e tick a c s)" for e tick
    unfolding sCGLSetupSharedMemory_def using assms(2) by (intro guard) (simp add: cglSetupSharedMemory_def N_def)
  have "N (cgl_externalMethod ce selector a c s)"
    using create 1 2 3 4 5 9 10 13 fail by (simp add: cgl_externalMethod_def Let_def)
  then show ?thesis by (simp add: N_def)
qed

text \<open>C30. The CGL interface cannot be opened. The table gives the output count of the create call in the place of its structure
  input, so a kernel that makes the documented check admits the call only with no room for the result, and the handler then
  refuses it: no call of any history succeeds, and neither the client nor the accelerator ever changes.\<close>

theorem cgl_never_opens:
  assumes "\<forall>(ce, _) \<in> set calls. \<forall>d b. ce_check ce d b \<longrightarrow> iokit_check d b" "\<not> cc_context_valid c"
  shows "\<exists>rs. cgl_run calls c s = (rs, c, s) \<and> length rs = length calls \<and> kIOReturnSuccess \<notin> set rs"
  using assms
proof (induction calls c s rule: cgl_run.induct)
  case (2 ce selector a calls c s)
  obtain ret a' where r: "cgl_externalMethod ce selector a c s = (ret, a', c, s)" "ret \<noteq> kIOReturnSuccess"
    using closed_call [of ce c selector a s] 2(2,3) by auto
  then obtain rs where "cgl_run calls c s = (rs, c, s)" "length rs = length calls" "kIOReturnSuccess \<notin> set rs"
    using 2(1) [OF r(1) [symmetric] refl refl] 2(2,3) by auto
  then show ?case using r by simp
qed simp

section \<open>Witnesses\<close>

definition sample_cgl_env :: cgl_env where
  "sample_cgl_env = \<lparr>ce_check = (\<lambda>_ _. True), ce_kdesc = (\<lambda>_. None), ce_device = sample_accel_env, ce_junk = [], ce_tick = 0\<rparr>"

definition create_args :: External_Method.ext_args where
  "create_args = \<lparr>scalarInput = Some [0, 0], scalarInputCount = 2, scalarOutput = Some [0], scalarOutputCount = 1, structureInput = None,
     structureInputSize = 0, structureInputDescriptor = None, structureOutput = None, structureOutputSize = 0, structureOutputDescriptor = None\<rparr>"

text \<open>A kernel without the check lets the client create its context; closing it leaves none.\<close>

theorem cgl_client_tidy_witness:
  "\<exists>s0 c s c' s'. cgl_run [(sample_cgl_env, 0, create_args)] (snd (cgl_start True (cgl_initWithTask 9 (\<lambda>_. 0) (\<lambda>_. 0)))) s0 = ([kIOReturnSuccess], c, s)
     \<and> context_of s 2 \<noteq> context_of s0 2 \<and> cgl_clientClose sample_accel_env c s = (kIOReturnSuccess, c', s') \<and> context_of s' = context_of s0"
proof -
  let ?s0 = "snd (accel_start (Some sample_gpu) True (accel_init sample_accel))"
  let ?c0 = "snd (cgl_start True (cgl_initWithTask 9 (\<lambda>_. 0) (\<lambda>_. 0)))"
  obtain s1 t where x: "accel_create3DContext sample_accel_env 9 ?s0 = (kIOReturnSuccess, Some 2, s1)" "accel_findContext 2 s1 = Some 0"
    by (rule sample_context)
  define c where "c = ?c0\<lparr>cc_context_id := 2, cc_cgl_context_id := 2, cc_context_valid := True\<rparr>"
  have f: "\<not> cc_context_valid ?c0" "cc_accelerator ?c0" "cc_task ?c0 = 9" by (simp_all add: cgl_start_def cgl_initWithTask_def)
  have "cglCreateContext sample_accel_env ?c0 ?s0 = (kIOReturnSuccess, c, s1)" by (simp add: cglCreateContext_def f x c_def)
  then have run: "cgl_run [(sample_cgl_env, 0, create_args)] ?c0 ?s0 = ([kIOReturnSuccess], c, s1)"
    by (simp add: cgl_externalMethod_def sCGLCreateContext_def cgl_guard_def sample_cgl_env_def create_args_def in_mem_def out_mem_def)
  obtain c' s' where close: "cgl_clientClose sample_accel_env c s1 = (kIOReturnSuccess, c', s')"
    unfolding cgl_clientClose_def by (metis surj_pair)
  have "(accel_step sample_accel_env ^^ 0) ?s0 ?s0" by simp
  from cgl_client_tidy [OF this sample_accel_zero sample_accel_bounded _ _ _ run close]
  have "context_of s' = context_of ?s0" by (simp add: sample_cgl_env_def sample_accel_bounded)
  moreover have "context_of s1 2 \<noteq> context_of ?s0 2"
    using create_context_result(4) [OF x(1) accel_start_inv [OF sample_accel_zero] sample_accel_bounded] by auto
  ultimately show ?thesis using run close by blast
qed

theorem cgl_never_opens_witness:
  "\<exists>rs. cgl_run [(sample_cgl_env\<lparr>ce_check := iokit_check\<rparr>, 0, create_args)] (snd (cgl_start True (cgl_initWithTask 9 (\<lambda>_. 0) (\<lambda>_. 0)))) sample_accel
       = (rs, snd (cgl_start True (cgl_initWithTask 9 (\<lambda>_. 0) (\<lambda>_. 0))), sample_accel) \<and> kIOReturnSuccess \<notin> set rs"
  using cgl_never_opens [of "[(sample_cgl_env\<lparr>ce_check := iokit_check\<rparr>, 0, create_args)]" "snd (cgl_start True (cgl_initWithTask 9 (\<lambda>_. 0) (\<lambda>_. 0)))" sample_accel]
  by (auto simp: cgl_start_def cgl_initWithTask_def)

end
