(* ===== verification/Accel_Drawing.thy ===== *)
theory Accel_Drawing
  imports Accel_Client
begin

text \<open>
  The drawing operations of \<^verbatim>\<open>VMQemuVGAAccelerator.cpp\<close> that the window server uses: copying and filling rectangles, drawing
  primitives, statistics, on top of the driver object's \<^verbatim>\<open>blitRect\<close> and \<^verbatim>\<open>fillRect\<close>.
\<close>

section \<open>Surfaces and rectangles\<close>

text \<open>
  \<^verbatim>\<open>IOAccelSurfaceInformation\<close>, the members the code uses, and \<^verbatim>\<open>IOAccelBounds\<close>, whose members are signed 16-bit integers.
\<close>

record IOAccelSurfaceInformation =
  as_address :: u64
  as_rowBytes :: u32

record IOAccelBounds =
  ab_x :: u16
  ab_y :: u16
  ab_w :: u16
  ab_h :: u16

text \<open>
  The address of the corner of a rectangle. The row is multiplied in unsigned 32-bit arithmetic, the column in signed.
\<close>

definition corner :: "IOAccelSurfaceInformation \<Rightarrow> IOAccelBounds \<Rightarrow> u64" where
  "corner f r = as_address f + ucast ((word_of_int (sint (ab_y r)) :: u32) * as_rowBytes f) + word_of_int (sint (ab_x r) * 4)"

section \<open>Copying\<close>

text \<open>
  Memory is the list of bytes at the addresses from 0 on. A \<^verbatim>\<open>memcpy\<close> has no defined result when a byte is not there or its
  ranges overlap.
\<close>

definition copy_line :: "nat \<Rightarrow> u64 \<Rightarrow> u64 \<Rightarrow> bytes \<Rightarrow> bytes option" where
  "copy_line n s d mem =
     (if n = 0 then Some mem
      else if unat s + n \<le> length mem \<and> unat d + n \<le> length mem \<and> (unat s + n \<le> unat d \<or> unat d + n \<le> unat s)
      then Some (take (unat d) mem @ take n (drop (unat s) mem) @ drop (unat d + n) mem)
      else None)"

fun blit_lines :: "nat \<Rightarrow> nat \<Rightarrow> u32 \<Rightarrow> u32 \<Rightarrow> u64 \<Rightarrow> u64 \<Rightarrow> bytes \<Rightarrow> bytes option" where
  "blit_lines 0 n rs rd s d mem = Some mem"
| "blit_lines (Suc k) n rs rd s d mem =
     (case copy_line n s d mem of
        None \<Rightarrow> None
      | Some mem' \<Rightarrow> blit_lines k n rs rd (s + ucast rs) (d + ucast rd) mem')"

definition count_draw :: "accel \<Rightarrow> accel" where
  "count_draw s = s\<lparr>ac_draw_calls := ac_draw_calls s + 1\<rparr>"

definition blitSurfaceAccelerated ::
  "IOAccelSurfaceInformation option \<Rightarrow> IOAccelSurfaceInformation option \<Rightarrow> IOAccelBounds option \<Rightarrow> IOAccelBounds option
     \<Rightarrow> bytes \<Rightarrow> accel \<Rightarrow> io_return \<times> bytes \<times> accel" where
  "blitSurfaceAccelerated src dest srcRect destRect mem s =
     (case (src, dest, srcRect, destRect) of
        (Some f, Some g, Some r, Some q) \<Rightarrow>
          if ac_has_gpu s \<and> \<not> m_is_mock_device (ac_gpu s) \<and> blitRect (ac_gpu s) = kIOReturnSuccess
          then (kIOReturnSuccess, mem, count_draw s)
          else (case blit_lines (nat (sint (ab_h r))) (unat (word_of_int (sint (ab_w r) * 4) :: u32)) (as_rowBytes f) (as_rowBytes g)
                       (corner f r) (corner g q) mem of
                  None \<Rightarrow> (Kernel_panic, mem, s)
                | Some mem' \<Rightarrow> (kIOReturnSuccess, mem', count_draw s))
      | _ \<Rightarrow> (kIOReturnBadArgument, mem, s))"

section \<open>Filling\<close>

definition fill_line :: "nat \<Rightarrow> u32 \<Rightarrow> u64 \<Rightarrow> bytes \<Rightarrow> bytes option" where
  "fill_line w color d mem =
     (if w = 0 then Some mem
      else if unat d + 4 * w \<le> length mem
      then Some (take (unat d) mem @ concat (replicate w (le32 color)) @ drop (unat d + 4 * w) mem)
      else None)"

fun fill_lines :: "nat \<Rightarrow> nat \<Rightarrow> u32 \<Rightarrow> u32 \<Rightarrow> u64 \<Rightarrow> bytes \<Rightarrow> bytes option" where
  "fill_lines 0 w color rb d mem = Some mem"
| "fill_lines (Suc k) w color rb d mem =
     (case fill_line w color d mem of None \<Rightarrow> None | Some mem' \<Rightarrow> fill_lines k w color rb (d + ucast rb) mem')"

definition fillSurfaceAccelerated ::
  "IOAccelSurfaceInformation option \<Rightarrow> IOAccelBounds option \<Rightarrow> u32 \<Rightarrow> bytes \<Rightarrow> accel \<Rightarrow> io_return \<times> bytes \<times> accel" where
  "fillSurfaceAccelerated surface rect color mem s =
     (case (surface, rect) of
        (Some f, Some r) \<Rightarrow>
          if ac_has_gpu s \<and> \<not> m_is_mock_device (ac_gpu s) \<and> fillRect (ac_gpu s) = kIOReturnSuccess
          then (kIOReturnSuccess, mem, count_draw s)
          else (case fill_lines (nat (sint (ab_h r))) (nat (sint (ab_w r))) color (as_rowBytes f) (corner f r) mem of
                  None \<Rightarrow> (Kernel_panic, mem, s)
                | Some mem' \<Rightarrow> (kIOReturnSuccess, mem', count_draw s))
      | _ \<Rightarrow> (kIOReturnBadArgument, mem, s))"

section \<open>Primitives and statistics\<close>

definition drawPrimitives :: "device_env \<Rightarrow> u32 \<Rightarrow> u32 \<Rightarrow> accel \<Rightarrow> io_return \<times> accel" where
  "drawPrimitives e cid vertex_count s =
     (case accel_findContext cid s of
        None \<Rightarrow> (kIOReturnNotFound, s)
      | Some i \<Rightarrow>
          if \<not> ac_has_gpu s then (Kernel_panic, s)
          else case executeCommands e (cx_gpu_context_id (context_at i s)) None (ac_gpu s) of (ret, g) \<Rightarrow>
            let s1 = s\<lparr>ac_gpu := g\<rparr>
            in (ret, if ret = kIOReturnSuccess
                     then s1\<lparr>ac_draw_calls := ac_draw_calls s1 + 1, ac_triangles_rendered := ac_triangles_rendered s1 + vertex_count div 3\<rparr>
                     else s1))"

text \<open>The six counters, 48 bytes; the caller gives the size of its buffer and gets back the size needed.\<close>

definition getPerformanceStats :: "bytes option \<Rightarrow> nat option \<Rightarrow> accel \<Rightarrow> io_return \<times> bytes option \<times> nat option" where
  "getPerformanceStats stats_buffer buffer_size s =
     (case (stats_buffer, buffer_size) of
        (Some buf, Some n) \<Rightarrow>
          if n < 48 then (kIOReturnNoSpace, stats_buffer, Some 48)
          else (kIOReturnSuccess,
                Some (overwrite (concat (map le64 [ucast (snd (ac_contexts s)), ucast (snd (ac_surfaces s)), ucast (ac_commands_submitted s),
                   ucast (ac_draw_calls s), ucast (ac_triangles_rendered s), ac_memory_used s])) buf), Some 48)
      | _ \<Rightarrow> (kIOReturnBadArgument, stats_buffer, buffer_size))"

section \<open>Addresses\<close>

lemma unat_nonneg: "0 \<le> i \<Longrightarrow> nat i < 2 ^ LENGTH('a) \<Longrightarrow> unat (word_of_int i :: 'a::len word) = nat i"
  by (simp add: unat_eq_nat_uint uint_word_of_int nat_less_iff take_bit_eq_mod mod_pos_pos_trivial)

lemma unat_u64_add: "unat (a :: u64) + unat b < 2 ^ 64 \<Longrightarrow> unat (a + b) = unat a + unat b"
  by (simp add: unat_word_ariths)

lemma unat_up: "unat (ucast (w :: u32) :: u64) = unat w"
  using unat_bound32 [of w] by (simp add: unsigned_ucast_eq take_bit_nat_eq_self)

lemma corner_exact:
  assumes "0 \<le> sint (ab_x r)" "0 \<le> sint (ab_y r)" "nat (sint (ab_y r)) * unat (as_rowBytes f) < 2 ^ 32"
    and "unat (as_address f) + nat (sint (ab_y r)) * unat (as_rowBytes f) + 4 * nat (sint (ab_x r)) < 2 ^ 64"
  shows "unat (corner f r) = unat (as_address f) + nat (sint (ab_y r)) * unat (as_rowBytes f) + 4 * nat (sint (ab_x r))"
proof -
  have lt: "sint (ab_x r) < 2 ^ 15" "sint (ab_y r) < 2 ^ 15" using sint_lt [of "ab_x r"] sint_lt [of "ab_y r"] by simp_all
  have y: "unat (word_of_int (sint (ab_y r)) :: u32) = nat (sint (ab_y r))" using assms(2) lt(2) by (intro unat_nonneg) simp_all
  have x: "unat (word_of_int (sint (ab_x r) * 4) :: u64) = 4 * nat (sint (ab_x r))"
    using assms(1) lt(1) unat_nonneg [of "sint (ab_x r) * 4", where 'a = 64] by (simp add: nat_mult_distrib)
  have p: "unat ((word_of_int (sint (ab_y r)) :: u32) * as_rowBytes f) = nat (sint (ab_y r)) * unat (as_rowBytes f)"
    using unat_mult_exact [of "word_of_int (sint (ab_y r))" "as_rowBytes f"] assms(3) unfolding y by blast
  have q: "unat (as_address f + ucast ((word_of_int (sint (ab_y r)) :: u32) * as_rowBytes f)) = unat (as_address f) + nat (sint (ab_y r)) * unat (as_rowBytes f)"
    using unat_u64_add [of "as_address f" "ucast ((word_of_int (sint (ab_y r)) :: u32) * as_rowBytes f)"] assms(4) unfolding unat_up p by simp
  show ?thesis unfolding corner_def using unat_u64_add [OF assms(4) [unfolded q [symmetric] x [symmetric]]] unfolding q x .
qed

section \<open>Copies of equal length, one after the other\<close>

definition apart :: "nat \<Rightarrow> nat \<Rightarrow> nat \<Rightarrow> bool" where
  "apart n a b \<longleftrightarrow> a + n \<le> b \<or> b + n \<le> a"

definition copy_at :: "nat \<Rightarrow> nat \<Rightarrow> nat \<Rightarrow> bytes \<Rightarrow> bytes option" where
  "copy_at n so do mem =
     (if so + n \<le> length mem \<and> do + n \<le> length mem \<and> apart n so do
      then Some (take do mem @ take n (drop so mem) @ drop (do + n) mem) else None)"

fun run_lines :: "nat \<Rightarrow> (nat \<times> nat) list \<Rightarrow> bytes \<Rightarrow> bytes option" where
  "run_lines n [] mem = Some mem"
| "run_lines n ((so, do) # xs) mem = (case copy_at n so do mem of None \<Rightarrow> None | Some mem' \<Rightarrow> run_lines n xs mem')"

lemma run_lines_append: "run_lines n (xs @ ys) mem = (case run_lines n xs mem of None \<Rightarrow> None | Some m \<Rightarrow> run_lines n ys m)"
  by (induction n xs mem rule: run_lines.induct) (auto split: option.splits)

text \<open>The loop over the lines in exact arithmetic.\<close>

lemma blit_lines_exact:
  assumes "0 < n" "\<forall>i < k. unat s + i * unat rs + n \<le> length mem \<and> unat d + i * unat rd + n \<le> length mem" "length mem < 2 ^ 64"
  shows "blit_lines k n rs rd s d mem = run_lines n (map (\<lambda>i. (unat s + i * unat rs, unat d + i * unat rd)) [0..<k]) mem"
  using assms
proof (induction k n rs rd s d mem rule: blit_lines.induct)
  case (2 k n rs rd s d mem)
  have z: "unat s + n \<le> length mem" "unat d + n \<le> length mem" using 2(3) by auto
  have line: "copy_line n s d mem = copy_at n (unat s) (unat d) mem"
    using 2(2) by (auto simp: copy_line_def copy_at_def apart_def)
  have m: "map (\<lambda>i. (unat s + i * unat rs, unat d + i * unat rd)) [0..<Suc k]
      = (unat s, unat d) # map (\<lambda>i. (unat s + unat rs + i * unat rs, unat d + unat rd + i * unat rd)) [0..<k]"
    by (simp add: upt_conv_Cons map_Suc_upt [symmetric] add.assoc del: upt_Suc)
  show ?case
  proof (cases "copy_line n s d mem")
    case None
    then show ?thesis unfolding m using line by simp
  next
    case (Some mem')
    then have l: "length mem' = length mem" using line by (auto simp: copy_at_def split: if_splits)
    show ?thesis
    proof (cases "k = 0")
      case True
      then show ?thesis using Some line by simp
    next
      case False
      then have "unat s + unat rs + n \<le> length mem" "unat d + unat rd + n \<le> length mem" using spec [OF 2(3), of 1] by simp_all
      then have u: "unat (s + ucast rs) = unat s + unat rs" "unat (d + ucast rd) = unat d + unat rd"
        using unat_u64_add [of s "ucast rs"] unat_u64_add [of d "ucast rd"] 2(4) unfolding unat_up by linarith+
      have "unat s + unat rs + i * unat rs + n \<le> length mem' \<and> unat d + unat rd + i * unat rd + n \<le> length mem'" if "i < k" for i
        using spec [OF 2(3), of "Suc i"] that by (simp add: l)
      then show ?thesis using 2(1) [OF Some 2(2)] 2(4) Some line unfolding m by (simp add: u l)
    qed
  qed
qed simp

text \<open>Lines that do not disturb each other: every line arrives, and nothing else changes.\<close>

lemma run_lines_spec:
  assumes "\<forall>i < k. S i + n \<le> length mem \<and> D i + n \<le> length mem \<and> apart n (S i) (D i)"
    and "\<forall>j < k. \<forall>i < j. apart n (D i) (S j) \<and> apart n (D i) (D j)"
  shows "\<exists>m. run_lines n (map (\<lambda>i. (S i, D i)) [0..<k]) mem = Some m \<and> length m = length mem
     \<and> (\<forall>i < k. \<forall>j < n. m ! (D i + j) = mem ! (S i + j))
     \<and> (\<forall>p < length mem. (\<forall>i < k. \<not> (D i \<le> p \<and> p < D i + n)) \<longrightarrow> m ! p = mem ! p)"
  using assms
proof (induction k)
  case (Suc k)
  then obtain m where m: "run_lines n (map (\<lambda>i. (S i, D i)) [0..<k]) mem = Some m" "length m = length mem"
    "\<forall>i < k. \<forall>j < n. m ! (D i + j) = mem ! (S i + j)"
    "\<forall>p < length mem. (\<forall>i < k. \<not> (D i \<le> p \<and> p < D i + n)) \<longrightarrow> m ! p = mem ! p" by auto
  have b: "S k + n \<le> length m" "D k + n \<le> length m" "apart n (S k) (D k)" using Suc.prems(1) m(2) by simp_all
  let ?m = "take (D k) m @ take n (drop (S k) m) @ drop (D k + n) m"
  note nth = copy_nth [OF b(1,2)]
  have run: "run_lines n (map (\<lambda>i. (S i, D i)) [0..<Suc k]) mem = Some ?m"
    using m(1) b by (simp add: run_lines_append copy_at_def)
  have len: "length ?m = length mem" using copy_length [OF b(1,2)] m(2) by simp
  have src: "m ! (S k + j) = mem ! (S k + j)" if "j < n" for j
  proof -
    have "\<not> (D i \<le> S k + j \<and> S k + j < D i + n)" if "i < k" for i
      using Suc.prems(2) [rule_format, of k i] that \<open>j < n\<close> by (auto simp: apart_def)
    then show ?thesis using m(4) b(1) m(2) that by simp
  qed
  have "?m ! (D i + j) = mem ! (S i + j)" if "i < Suc k" "j < n" for i j
  proof (cases "i = k")
    case True
    then show ?thesis using nth [of "D k + j"] b that src by simp
  next
    case False
    then have "i < k" using that by simp
    moreover have "apart n (D i) (D k)" using Suc.prems(2) \<open>i < k\<close> by simp
    moreover have "D i + j < length m" using Suc.prems(1) \<open>i < k\<close> that m(2) by (metis add_less_cancel_left less_SucI less_le_trans)
    ultimately show ?thesis using nth [of "D i + j"] m(3) that by (auto simp: apart_def)
  qed
  moreover have "?m ! p = mem ! p" if "p < length mem" "\<forall>i < Suc k. \<not> (D i \<le> p \<and> p < D i + n)" for p
    using nth [of p] m(2,4) that by auto
  ultimately show ?case using run len by blast
qed simp

text \<open>Lines of one surface, copied \<open>q\<close> lines down: from the second on the copies read what the first have written.\<close>

lemma run_lines_down:
  assumes "\<forall>i < k. a + (i + q) * rb + n \<le> length mem" "n \<le> rb" "0 < q"
  shows "\<exists>m. run_lines n (map (\<lambda>i. (a + i * rb, a + (i + q) * rb)) [0..<k]) mem = Some m \<and> length m = length mem
     \<and> (\<forall>i < k. \<forall>j < n. m ! (a + (i + q) * rb + j) = mem ! (a + (i mod q) * rb + j))
     \<and> (\<forall>p < length mem. (\<forall>i < k. \<not> (a + (i + q) * rb \<le> p \<and> p < a + (i + q) * rb + n)) \<longrightarrow> m ! p = mem ! p)"
  using assms(1)
proof (induction k)
  case (Suc k)
  have rows: "apart n (a + i * rb) (a + j * rb)" if "i < j" for i j
  proof -
    have "Suc i * rb \<le> j * rb" using that by (intro mult_le_mono1) simp
    then show ?thesis using assms(2) by (simp add: apart_def)
  qed
  obtain m where m: "run_lines n (map (\<lambda>i. (a + i * rb, a + (i + q) * rb)) [0..<k]) mem = Some m" "length m = length mem"
    "\<forall>i < k. \<forall>j < n. m ! (a + (i + q) * rb + j) = mem ! (a + (i mod q) * rb + j)"
    "\<forall>p < length mem. (\<forall>i < k. \<not> (a + (i + q) * rb \<le> p \<and> p < a + (i + q) * rb + n)) \<longrightarrow> m ! p = mem ! p" using Suc by auto
  have "a + (k + q) * rb + n \<le> length m" using Suc.prems m(2) by simp
  moreover have "k * rb \<le> (k + q) * rb" by (rule mult_le_mono1) simp
  ultimately have b: "a + k * rb + n \<le> length m" "a + (k + q) * rb + n \<le> length m" "apart n (a + k * rb) (a + (k + q) * rb)"
    using rows [of k "k + q"] assms(3) by linarith+
  let ?m = "take (a + (k + q) * rb) m @ take n (drop (a + k * rb) m) @ drop (a + (k + q) * rb + n) m"
  note nth = copy_nth [OF b(1,2)]
  have run: "run_lines n (map (\<lambda>i. (a + i * rb, a + (i + q) * rb)) [0..<Suc k]) mem = Some ?m"
    using m(1) b by (simp add: run_lines_append copy_at_def)
  have len: "length ?m = length mem" using copy_length [OF b(1,2)] m(2) by simp
  have src: "m ! (a + k * rb + j) = mem ! (a + (k mod q) * rb + j)" if "j < n" for j
  proof (cases "k < q")
    case True
    have "\<not> (a + (i + q) * rb \<le> a + k * rb + j \<and> a + k * rb + j < a + (i + q) * rb + n)" if "i < k" for i
      using rows [of k "i + q"] True \<open>j < n\<close> by (auto simp: apart_def)
    then show ?thesis using m(2,4) b(1) that True by simp
  next
    case False
    then have "k - q < k" "k - q + q = k" using assms(3) by simp_all
    moreover have "(k - q) mod q = k mod q" using False by (metis le_mod_geq not_less)
    ultimately show ?thesis using m(3) [rule_format, of "k - q" j] that by simp
  qed
  have "?m ! (a + (i + q) * rb + j) = mem ! (a + (i mod q) * rb + j)" if "i < Suc k" "j < n" for i j
  proof (cases "i = k")
    case True
    then show ?thesis using nth [of "a + (k + q) * rb + j"] b that src by simp
  next
    case False
    then have "i < k" using that by simp
    moreover have "apart n (a + (i + q) * rb) (a + (k + q) * rb)" using rows [of "i + q" "k + q"] \<open>i < k\<close> by simp
    moreover have "a + (i + q) * rb + n \<le> length m" using Suc.prems \<open>i < k\<close> m(2) by simp
    ultimately show ?thesis using nth [of "a + (i + q) * rb + j"] m(3) that by (auto simp: apart_def)
  qed
  moreover have "?m ! p = mem ! p" if "p < length mem" "\<forall>i < Suc k. \<not> (a + (i + q) * rb \<le> p \<and> p < a + (i + q) * rb + n)" for p
    using nth [of p] m(2,4) that by auto
  ultimately show ?case using run len by blast
qed simp

section \<open>Rectangles inside a surface\<close>

text \<open>The address of line \<open>i\<close> of a rectangle, and a rectangle whose lines are in the memory of the surface.\<close>

definition line :: "IOAccelSurfaceInformation \<Rightarrow> IOAccelBounds \<Rightarrow> nat \<Rightarrow> nat" where
  "line f r i = unat (as_address f) + (nat (sint (ab_y r)) + i) * unat (as_rowBytes f) + 4 * nat (sint (ab_x r))"

definition rect_end :: "IOAccelSurfaceInformation \<Rightarrow> IOAccelBounds \<Rightarrow> nat" where
  "rect_end f r = unat (as_address f) + (nat (sint (ab_y r)) + nat (sint (ab_h r))) * unat (as_rowBytes f)"

definition rect_in :: "bytes \<Rightarrow> IOAccelSurfaceInformation \<Rightarrow> IOAccelBounds \<Rightarrow> bool" where
  "rect_in mem f r \<longleftrightarrow> 0 \<le> sint (ab_x r) \<and> 0 \<le> sint (ab_y r) \<and> 0 \<le> sint (ab_w r) \<and> 0 \<le> sint (ab_h r)
     \<and> 4 * (nat (sint (ab_x r)) + nat (sint (ab_w r))) \<le> unat (as_rowBytes f) \<and> rect_end f r \<le> length mem \<and> length mem < 2 ^ 64
     \<and> (nat (sint (ab_y r)) + nat (sint (ab_h r))) * unat (as_rowBytes f) < 2 ^ 32"

lemma line_step: "line f r i = line f r 0 + i * unat (as_rowBytes f)"
  by (simp add: line_def algebra_simps)

lemma rect_corner: "rect_in mem f r \<Longrightarrow> 0 < nat (sint (ab_h r)) \<Longrightarrow> 0 < nat (sint (ab_w r)) \<Longrightarrow> unat (corner f r) = line f r 0"
proof -
  let ?y = "nat (sint (ab_y r))" and ?x = "nat (sint (ab_x r))" and ?rb = "unat (as_rowBytes f)" and ?A = "unat (as_address f)"
  assume r: "rect_in mem f r" "0 < nat (sint (ab_h r))" "0 < nat (sint (ab_w r))"
  have m: "?y * ?rb + ?rb \<le> (?y + nat (sint (ab_h r))) * ?rb" proof -
    have "Suc ?y * ?rb \<le> (?y + nat (sint (ab_h r))) * ?rb" using r(2) by (intro mult_le_mono1) linarith
    then show ?thesis unfolding mult_Suc by linarith
  qed
  have e: "?A + (?y + nat (sint (ab_h r))) * ?rb < 2 ^ 64" "(?y + nat (sint (ab_h r))) * ?rb < 2 ^ 32" "4 * ?x \<le> ?rb"
    using r(1) by (auto simp: rect_in_def rect_end_def)
  then have "?y * ?rb < 2 ^ 32" "?A + ?y * ?rb + 4 * ?x < 2 ^ 64" using m by linarith+
  then show ?thesis using corner_exact [of r f] r(1) by (simp add: rect_in_def line_def)
qed

lemma line_inside:
  assumes "rect_in mem f r" "i < nat (sint (ab_h r))"
  shows "line f r i + 4 * nat (sint (ab_w r)) \<le> rect_end f r" "unat (as_address f) + (nat (sint (ab_y r)) + i) * unat (as_rowBytes f) \<le> line f r i"
    "line f r i + 4 * nat (sint (ab_w r)) \<le> unat (as_address f) + Suc (nat (sint (ab_y r)) + i) * unat (as_rowBytes f)"
proof -
  let ?y = "nat (sint (ab_y r))" and ?rb = "unat (as_rowBytes f)"
  have w: "4 * nat (sint (ab_x r)) + 4 * nat (sint (ab_w r)) \<le> ?rb" using assms(1) by (simp add: rect_in_def)
  have "Suc (?y + i) * ?rb \<le> (?y + nat (sint (ab_h r))) * ?rb" using assms(2) by (intro mult_le_mono1) simp
  then show "line f r i + 4 * nat (sint (ab_w r)) \<le> rect_end f r" using w unfolding line_def rect_end_def mult_Suc by linarith
  show "unat (as_address f) + (?y + i) * ?rb \<le> line f r i" by (simp add: line_def)
  show "line f r i + 4 * nat (sint (ab_w r)) \<le> unat (as_address f) + Suc (?y + i) * ?rb" using w unfolding line_def mult_Suc by linarith
qed

text \<open>Lines of different rows of one surface do not overlap.\<close>

lemma lines_apart:
  assumes "rect_in mem f r" "rect_in mem f q" "i < nat (sint (ab_h r))" "j < nat (sint (ab_h q))" "sint (ab_w r) = sint (ab_w q)"
    and "nat (sint (ab_y r)) + i \<noteq> nat (sint (ab_y q)) + j"
  shows "apart (4 * nat (sint (ab_w r))) (line f r i) (line f q j)"
proof -
  let ?rb = "unat (as_rowBytes f)"
  have m: "a < b \<Longrightarrow> Suc a * ?rb \<le> b * ?rb" for a b by (intro mult_le_mono1) simp
  consider "nat (sint (ab_y r)) + i < nat (sint (ab_y q)) + j" | "nat (sint (ab_y q)) + j < nat (sint (ab_y r)) + i" using assms(6) by linarith
  then show ?thesis
  proof cases
    case 1
    then show ?thesis using m [OF 1] line_inside(3) [OF assms(1,3)] line_inside(2) [OF assms(2,4)] unfolding apart_def by linarith
  next
    case 2
    then show ?thesis using m [OF 2] line_inside(3) [OF assms(2,4)] line_inside(2) [OF assms(1,3)] unfolding apart_def assms(5) by linarith
  qed
qed

text \<open>The driver object offers no hardware path: every copy and every fill is made by the processor.\<close>

lemma no_hardware [simp]: "blitRect g \<noteq> kIOReturnSuccess" "fillRect g \<noteq> kIOReturnSuccess"
  by (simp_all add: blitRect_def fillRect_def)

definition move_to :: "IOAccelBounds \<Rightarrow> IOAccelBounds \<Rightarrow> IOAccelBounds" where
  "move_to q r = q\<lparr>ab_w := ab_w r, ab_h := ab_h r\<rparr>"

lemma move_to_simps [simp]: "ab_x (move_to q r) = ab_x q" "ab_y (move_to q r) = ab_y q" "ab_w (move_to q r) = ab_w r" "ab_h (move_to q r) = ab_h r"
  "corner g (move_to q r) = corner g q" "line g (move_to q r) = line g q"
  by (simp_all add: move_to_def corner_def line_def fun_eq_iff)

lemma width_bytes: "rect_in mem f r \<Longrightarrow> unat (word_of_int (sint (ab_w r) * 4) :: u32) = 4 * nat (sint (ab_w r))"
  using sint_lt [of "ab_w r"] unat_nonneg [of "sint (ab_w r) * 4", where 'a = 32] by (simp add: rect_in_def nat_mult_distrib)

lemma blit_nothing: "blit_lines k 0 rs rd s d mem = Some mem"
  by (induction k arbitrary: s d) (simp_all add: copy_line_def)

lemma blit_as_lines:
  assumes "rect_in mem f r" "rect_in mem g (move_to q r)" "0 < nat (sint (ab_w r))"
  shows "blitSurfaceAccelerated (Some f) (Some g) (Some r) (Some q) mem s =
    (case run_lines (4 * nat (sint (ab_w r))) (map (\<lambda>i. (line f r i, line g q i)) [0..<nat (sint (ab_h r))]) mem of
       None \<Rightarrow> (Kernel_panic, mem, s) | Some m \<Rightarrow> (kIOReturnSuccess, m, count_draw s))"
proof (cases "nat (sint (ab_h r)) = 0")
  case True
  then show ?thesis by (simp add: blitSurfaceAccelerated_def)
next
  case False
  let ?n = "4 * nat (sint (ab_w r))" and ?k = "nat (sint (ab_h r))"
  have c: "unat (corner f r) = line f r 0" "unat (corner g q) = line g q 0"
    using rect_corner [OF assms(1)] rect_corner [OF assms(2)] False assms(3) by simp_all
  have e: "rect_end f r \<le> length mem" "rect_end g (move_to q r) \<le> length mem" "length mem < 2 ^ 64" using assms by (simp_all add: rect_in_def)
  have in_f: "line f r i + ?n \<le> length mem" and in_g: "line g q i + ?n \<le> length mem" if "i < ?k" for i
    using line_inside(1) [OF assms(1) that] line_inside(1) [OF assms(2), of i] that e by simp_all
  have "\<forall>i < ?k. unat (corner f r) + i * unat (as_rowBytes f) + ?n \<le> length mem \<and> unat (corner g q) + i * unat (as_rowBytes g) + ?n \<le> length mem"
    using in_f in_g unfolding c line_step [symmetric] by blast
  from blit_lines_exact [OF _ this e(3)] assms(3)
  have "blit_lines ?k ?n (as_rowBytes f) (as_rowBytes g) (corner f r) (corner g q) mem
      = run_lines ?n (map (\<lambda>i. (line f r i, line g q i)) [0..<?k]) mem"
    unfolding c line_step [symmetric] by simp
  then show ?thesis using width_bytes [OF assms(1)] by (simp add: blitSurfaceAccelerated_def)
qed

section \<open>Fills\<close>

fun run_fills :: "bytes \<Rightarrow> nat list \<Rightarrow> bytes \<Rightarrow> bytes option" where
  "run_fills blk [] mem = Some mem"
| "run_fills blk (d # ds) mem =
     (if d + length blk \<le> length mem then run_fills blk ds (take d mem @ blk @ drop (d + length blk) mem) else None)"

lemma run_fills_append: "run_fills blk (xs @ ys) mem = (case run_fills blk xs mem of None \<Rightarrow> None | Some m \<Rightarrow> run_fills blk ys m)"
  by (induction blk xs mem rule: run_fills.induct) auto

lemma run_fills_spec:
  assumes "\<forall>i < k. D i + length blk \<le> length mem" "\<forall>j < k. \<forall>i < j. apart (length blk) (D i) (D j)"
  shows "\<exists>m. run_fills blk (map D [0..<k]) mem = Some m \<and> length m = length mem
     \<and> (\<forall>i < k. \<forall>j < length blk. m ! (D i + j) = blk ! j)
     \<and> (\<forall>p < length mem. (\<forall>i < k. \<not> (D i \<le> p \<and> p < D i + length blk)) \<longrightarrow> m ! p = mem ! p)"
  using assms
proof (induction k)
  case (Suc k)
  let ?n = "length blk"
  obtain m where m: "run_fills blk (map D [0..<k]) mem = Some m" "length m = length mem"
    "\<forall>i < k. \<forall>j < ?n. m ! (D i + j) = blk ! j"
    "\<forall>p < length mem. (\<forall>i < k. \<not> (D i \<le> p \<and> p < D i + ?n)) \<longrightarrow> m ! p = mem ! p" using Suc by auto
  have b: "D k + ?n \<le> length m" using Suc.prems(1) m(2) by simp
  let ?m = "take (D k) m @ blk @ drop (D k + ?n) m"
  have run: "run_fills blk (map D [0..<Suc k]) mem = Some ?m" using m(1) b by (simp add: run_fills_append)
  have nth: "?m ! p = (if D k \<le> p \<and> p < D k + ?n then blk ! (p - D k) else m ! p)" if "p < length m" for p
    using that b by (auto simp: nth_append min_def less_diff_conv2 not_less add.commute)
  have "?m ! (D i + j) = blk ! j" if "i < Suc k" "j < ?n" for i j
  proof (cases "i = k")
    case True
    then show ?thesis using nth [of "D k + j"] b that by simp
  next
    case False
    then have "i < k" using that by simp
    moreover have "apart ?n (D i) (D k)" "D i + ?n \<le> length m" using Suc.prems \<open>i < k\<close> m(2) by simp_all
    ultimately show ?thesis using nth [of "D i + j"] m(3) that by (auto simp: apart_def)
  qed
  moreover have "?m ! p = mem ! p" if "p < length mem" "\<forall>i < Suc k. \<not> (D i \<le> p \<and> p < D i + ?n)" for p
    using nth [of p] m(2,4) that by auto
  ultimately show ?case using run b m(2) by auto
qed simp

lemma length_pixels [simp]: "length (concat (replicate w (le32 color))) = 4 * w"
  by (induction w) simp_all

lemma nth_pixels: "x < w \<Longrightarrow> j < 4 \<Longrightarrow> concat (replicate w (le32 color)) ! (4 * x + j) = le32 color ! j"
proof (induction w arbitrary: x)
  case (Suc w)
  then show ?case by (cases x) (simp_all add: nth_append)
qed simp

lemma fill_lines_exact:
  assumes "0 < w" "\<forall>i < k. unat d + i * unat rb + 4 * w \<le> length mem" "length mem < 2 ^ 64"
  shows "fill_lines k w color rb d mem = run_fills (concat (replicate w (le32 color))) (map (\<lambda>i. unat d + i * unat rb) [0..<k]) mem"
  using assms
proof (induction k w color rb d mem rule: fill_lines.induct)
  case (2 k w color rb d mem)
  let ?blk = "concat (replicate w (le32 color))"
  let ?mem = "take (unat d) mem @ ?blk @ drop (unat d + 4 * w) mem"
  have z: "unat d + 4 * w \<le> length mem" using spec [OF 2(3), of 0] by simp
  have line: "fill_line w color d mem = Some ?mem" using 2(2) z by (simp add: fill_line_def)
  have l: "length ?mem = length mem" using z by simp
  have m: "map (\<lambda>i. unat d + i * unat rb) [0..<Suc k] = unat d # map (\<lambda>i. unat d + unat rb + i * unat rb) [0..<k]"
    by (simp add: upt_conv_Cons map_Suc_upt [symmetric] add.assoc del: upt_Suc)
  show ?case
  proof (cases "k = 0")
    case True
    then show ?thesis using line z by simp
  next
    case False
    then have "unat d + unat rb + 4 * w \<le> length mem" using spec [OF 2(3), of 1] by simp
    then have u: "unat (d + ucast rb) = unat d + unat rb" using unat_u64_add [of d "ucast rb"] 2(4) unfolding unat_up by linarith
    have "unat d + unat rb + i * unat rb + 4 * w \<le> length ?mem" if "i < k" for i
      using spec [OF 2(3), of "Suc i"] that unfolding l by simp
    then show ?thesis using 2(1) [OF line 2(2)] 2(4) z unfolding m l by (simp add: u line)
  qed
qed simp

section \<open>What the window server gets\<close>

text \<open>C25. A copy between surfaces moves the rectangle. For rectangles that lie in their surfaces, when the surfaces share no memory
  or the copy goes upwards in one surface, the call succeeds, every byte of the destination rectangle becomes the corresponding
  byte of the source rectangle, and every other byte of memory stays.\<close>

theorem blit_moves_rectangle:
  assumes "rect_in mem f r" "rect_in mem g (move_to q r)"
    and "rect_end f r \<le> unat (as_address g) \<or> rect_end g (move_to q r) \<le> unat (as_address f) \<or> (f = g \<and> sint (ab_y q) < sint (ab_y r))"
  shows "\<exists>m. blitSurfaceAccelerated (Some f) (Some g) (Some r) (Some q) mem s = (kIOReturnSuccess, m, count_draw s) \<and> length m = length mem
     \<and> (\<forall>i < nat (sint (ab_h r)). \<forall>j < 4 * nat (sint (ab_w r)). m ! (line g q i + j) = mem ! (line f r i + j))
     \<and> (\<forall>p < length mem. (\<forall>i < nat (sint (ab_h r)). \<not> (line g q i \<le> p \<and> p < line g q i + 4 * nat (sint (ab_w r)))) \<longrightarrow> m ! p = mem ! p)"
proof (cases "nat (sint (ab_w r)) = 0")
  case True
  have "unat (word_of_int (sint (ab_w r) * 4) :: u32) = 0" using width_bytes [OF assms(1)] True by simp
  then show ?thesis using True by (simp add: blitSurfaceAccelerated_def blit_nothing)
next
  case False
  let ?n = "4 * nat (sint (ab_w r))" and ?k = "nat (sint (ab_h r))"
  have y: "0 \<le> sint (ab_y q)" "0 \<le> sint (ab_y r)" using assms(1,2) by (simp_all add: rect_in_def)
  have "rect_end f r \<le> length mem" "rect_end g (move_to q r) \<le> length mem" using assms(1,2) by (simp_all add: rect_in_def)
  then have b: "line f r i + ?n \<le> length mem \<and> line g q i + ?n \<le> length mem" if "i < ?k" for i
    using line_inside(1) [OF assms(1) that] line_inside(1) [OF assms(2), of i] that by simp
  have a: "apart ?n (line f r i) (line g q j)" if "i < ?k" "j < ?k" "j \<le> i" for i j
    using assms(3)
  proof (elim disjE conjE)
    assume "rect_end f r \<le> unat (as_address g)"
    then show ?thesis using line_inside(1) [OF assms(1) that(1)] line_inside(2) [OF assms(2), of j] that(2) by (simp add: apart_def)
  next
    assume "rect_end g (move_to q r) \<le> unat (as_address f)"
    then show ?thesis using line_inside(1) [OF assms(2), of j] line_inside(2) [OF assms(1) that(1)] that(2) by (simp add: apart_def)
  next
    assume d: "f = g" "sint (ab_y q) < sint (ab_y r)"
    then have "nat (sint (ab_y r)) + i \<noteq> nat (sint (ab_y q)) + j" using that(3) y by linarith
    then show ?thesis using lines_apart [OF assms(1), of "move_to q r" i j] assms(2) d(1) that by simp
  qed
  have d: "apart ?n (line g q i) (line g q j)" if "i < j" "j < ?k" for i j
    using lines_apart [OF assms(2,2), of i j] that by simp
  have sym: "apart ?n x z \<Longrightarrow> apart ?n z x" for x z by (auto simp: apart_def)
  have h1: "\<forall>i < ?k. line f r i + ?n \<le> length mem \<and> line g q i + ?n \<le> length mem \<and> apart ?n (line f r i) (line g q i)" using a b by simp
  have h2: "\<forall>j < ?k. \<forall>i < j. apart ?n (line g q i) (line f r j) \<and> apart ?n (line g q i) (line g q j)"
  proof (intro allI impI)
    fix j i assume "j < ?k" "i < j"
    then show "apart ?n (line g q i) (line f r j) \<and> apart ?n (line g q i) (line g q j)" using sym [OF a [of j i]] d [of i j] by simp
  qed
  from run_lines_spec [OF h1 h2] obtain m where "run_lines ?n (map (\<lambda>i. (line f r i, line g q i)) [0..<?k]) mem = Some m \<and> length m = length mem
     \<and> (\<forall>i < ?k. \<forall>j < ?n. m ! (line g q i + j) = mem ! (line f r i + j))
     \<and> (\<forall>p < length mem. (\<forall>i < ?k. \<not> (line g q i \<le> p \<and> p < line g q i + ?n)) \<longrightarrow> m ! p = mem ! p)"
    by blast
  then show ?thesis using blit_as_lines [OF assms(1,2)] False by simp
qed

text \<open>Scrolling down repeats the first lines. When a rectangle is copied \<open>d\<close> lines down in one surface the call reports success,
  but line \<open>i\<close> of the copy is line \<open>i mod d\<close> of the source instead of line \<open>i\<close>: lines are copied from the top, so from line \<open>d\<close> on
  the copy reads what it has just written.\<close>

theorem blit_down_smears:
  assumes "rect_in mem f r" "rect_in mem f (move_to q r)" "ab_x q = ab_x r" "sint (ab_y q) = sint (ab_y r) + int d" "0 < d"
  shows "\<exists>m. blitSurfaceAccelerated (Some f) (Some f) (Some r) (Some q) mem s = (kIOReturnSuccess, m, count_draw s)
     \<and> (\<forall>i < nat (sint (ab_h r)). \<forall>j < 4 * nat (sint (ab_w r)). m ! (line f q i + j) = mem ! (line f r (i mod d) + j))"
proof (cases "nat (sint (ab_w r)) = 0")
  case True
  have "unat (word_of_int (sint (ab_w r) * 4) :: u32) = 0" using width_bytes [OF assms(1)] True by simp
  then show ?thesis using True by (simp add: blitSurfaceAccelerated_def blit_nothing)
next
  case False
  let ?n = "4 * nat (sint (ab_w r))" and ?k = "nat (sint (ab_h r))" and ?rb = "unat (as_rowBytes f)"
  have y: "0 \<le> sint (ab_y r)" "?n \<le> ?rb" using assms(1) by (simp_all add: rect_in_def)
  have yq: "nat (sint (ab_y q)) = nat (sint (ab_y r)) + d" using assms(4) y(1) by simp
  have q: "line f q i = line f r 0 + (i + d) * ?rb" for i by (simp add: line_def yq assms(3) algebra_simps)
  have "rect_end f (move_to q r) \<le> length mem" using assms(2) by (simp add: rect_in_def)
  then have "\<forall>i < ?k. line f r 0 + (i + d) * ?rb + ?n \<le> length mem"
    using line_inside(1) [OF assms(2)] unfolding q [symmetric] by (fastforce intro: order_trans)
  moreover have q': "line f q i = line f r (i + d)" for i by (simp add: line_def yq assms(3) algebra_simps)
  ultimately obtain m where
    "run_lines ?n (map (\<lambda>i. (line f r i, line f q i)) [0..<?k]) mem = Some m"
    "\<forall>i < ?k. \<forall>j < ?n. m ! (line f q i + j) = mem ! (line f r (i mod d) + j)"
    using run_lines_down [of ?k "line f r 0" d ?rb ?n mem] y(2) assms(5) unfolding q' line_step [symmetric] by blast
  then show ?thesis using blit_as_lines [OF assms(1,2)] False by simp
qed

text \<open>A fill colours the rectangle. For a rectangle that lies in its surface the call succeeds, every pixel of the rectangle has the
  colour, and every other byte of memory stays.\<close>

theorem fill_colours_rectangle:
  assumes "rect_in mem f r"
  shows "\<exists>m. fillSurfaceAccelerated (Some f) (Some r) color mem s = (kIOReturnSuccess, m, count_draw s) \<and> length m = length mem
     \<and> (\<forall>i < nat (sint (ab_h r)). \<forall>x < nat (sint (ab_w r)). \<forall>j < 4. m ! (line f r i + 4 * x + j) = le32 color ! j)
     \<and> (\<forall>p < length mem. (\<forall>i < nat (sint (ab_h r)). \<not> (line f r i \<le> p \<and> p < line f r i + 4 * nat (sint (ab_w r)))) \<longrightarrow> m ! p = mem ! p)"
proof (cases "nat (sint (ab_w r)) = 0 \<or> nat (sint (ab_h r)) = 0")
  case True
  have "fill_lines k 0 color rb d mem = Some mem" for k rb d by (induction k arbitrary: d) (simp_all add: fill_line_def)
  then show ?thesis using True by (auto simp: fillSurfaceAccelerated_def)
next
  case False
  let ?w = "nat (sint (ab_w r))" and ?k = "nat (sint (ab_h r))"
  let ?blk = "concat (replicate ?w (le32 color))"
  have c: "unat (corner f r) = line f r 0" using rect_corner [OF assms] False by simp
  have e: "rect_end f r \<le> length mem" "length mem < 2 ^ 64" using assms by (simp_all add: rect_in_def)
  then have b: "\<forall>i < ?k. line f r i + 4 * ?w \<le> length mem" using line_inside(1) [OF assms] by (meson order_trans)
  then have "\<forall>i < ?k. unat (corner f r) + i * unat (as_rowBytes f) + 4 * ?w \<le> length mem" unfolding c line_step [symmetric] .
  from fill_lines_exact [OF _ this e(2)] False
  have run: "fill_lines ?k ?w color (as_rowBytes f) (corner f r) mem = run_fills ?blk (map (line f r) [0..<?k]) mem"
    unfolding c line_step [symmetric] by simp
  have "\<forall>j < ?k. \<forall>i < j. apart (length ?blk) (line f r i) (line f r j)" using lines_apart [OF assms assms] by simp
  moreover have "\<forall>i < ?k. line f r i + length ?blk \<le> length mem" using b by simp
  ultimately obtain m where m: "run_fills ?blk (map (line f r) [0..<?k]) mem = Some m" "length m = length mem"
    "\<forall>i < ?k. \<forall>j < 4 * ?w. m ! (line f r i + j) = ?blk ! j"
    "\<forall>p < length mem. (\<forall>i < ?k. \<not> (line f r i \<le> p \<and> p < line f r i + 4 * ?w)) \<longrightarrow> m ! p = mem ! p"
    using run_fills_spec [of ?k "line f r" ?blk mem] by (auto simp: length_pixels)
  have "m ! (line f r i + 4 * x + j) = le32 color ! j" if "i < ?k" "x < ?w" "j < 4" for i x j
    using m(3) [rule_format, OF that(1), of "4 * x + j"] nth_pixels [OF that(2,3)] that by (simp add: add.assoc)
  then show ?thesis using m run by (simp add: fillSurfaceAccelerated_def)
qed

text \<open>A draw call never draws: it passes no commands on, which the driver object refuses.\<close>

theorem drawPrimitives_refused:
  "ac_has_gpu s \<Longrightarrow> accel_findContext cid s \<noteq> None \<Longrightarrow> drawPrimitives e cid n s = (kIOReturnBadArgument, s)"
  by (auto simp: drawPrimitives_def executeCommands_def Let_def)

section \<open>Witnesses\<close>

text \<open>A surface of four lines of two pixels at address 8.\<close>

definition small_surface :: IOAccelSurfaceInformation where
  "small_surface = \<lparr>as_address = 8, as_rowBytes = 8\<rparr>"

definition small_memory :: bytes where
  "small_memory = map word_of_nat [0..<40]"

definition column :: "u16 \<Rightarrow> u16 \<Rightarrow> IOAccelBounds" where
  "column y h = \<lparr>ab_x = 1, ab_y = y, ab_w = 1, ab_h = h\<rparr>"

lemma column_in: "rect_in small_memory small_surface (column 0 3)" "rect_in small_memory small_surface (column 1 3)"
  "move_to (column y 0) (column z h) = column y h"
  by (simp_all add: rect_in_def rect_end_def small_surface_def small_memory_def column_def move_to_def)

lemma column_facts:
  "nat (sint (ab_h (column y 3))) = 3" "nat (sint (ab_w (column y h))) = 1" "ab_x (column y h) = ab_x (column z k)"
  "sint (ab_y (column 0 h)) = 0" "sint (ab_y (column 1 h)) = 1"
  "line small_surface (column 0 h) i = 12 + 8 * i" "line small_surface (column 1 h) i = 20 + 8 * i"
  by (simp_all add: column_def line_def small_surface_def)

lemma small_memory_nth: "i < 40 \<Longrightarrow> small_memory ! i = word_of_nat i" "length small_memory = 40"
  by (simp_all add: small_memory_def)

theorem blit_moves_rectangle_witness:
  "\<exists>m. blitSurfaceAccelerated (Some small_surface) (Some small_surface) (Some (column 1 3)) (Some (column 0 0)) small_memory sample_accel
       = (kIOReturnSuccess, m, count_draw sample_accel) \<and> m ! 12 = 20"
proof -
  have "rect_in small_memory small_surface (move_to (column 0 0) (column 1 3))" using column_in by simp
  from blit_moves_rectangle [OF column_in(2) this, of sample_accel] column_facts(4,5) obtain m where
    m: "blitSurfaceAccelerated (Some small_surface) (Some small_surface) (Some (column 1 3)) (Some (column 0 0)) small_memory sample_accel
       = (kIOReturnSuccess, m, count_draw sample_accel)"
    "\<forall>i < 3. \<forall>j < 4. m ! (line small_surface (column 0 0) i + j) = small_memory ! (line small_surface (column 1 3) i + j)"
    by (auto simp: column_facts)
  from m(2) [rule_format, of 0 0] m(1) show ?thesis by (simp add: column_facts small_memory_nth)
qed

theorem blit_down_smears_witness:
  "\<exists>m. blitSurfaceAccelerated (Some small_surface) (Some small_surface) (Some (column 0 3)) (Some (column 1 0)) small_memory sample_accel
       = (kIOReturnSuccess, m, count_draw sample_accel) \<and> m ! 36 = 12"
proof -
  have "rect_in small_memory small_surface (move_to (column 1 0) (column 0 3))" using column_in by simp
  from blit_down_smears [OF column_in(1) this column_facts(3), of 1 sample_accel] obtain m where
    m: "blitSurfaceAccelerated (Some small_surface) (Some small_surface) (Some (column 0 3)) (Some (column 1 0)) small_memory sample_accel
       = (kIOReturnSuccess, m, count_draw sample_accel)"
    "\<forall>i < 3. \<forall>j < 4. m ! (line small_surface (column 1 0) i + j) = small_memory ! (line small_surface (column 0 3) (i mod 1) + j)"
    by (auto simp: column_facts)
  from m(2) [rule_format, of 2 0] m(1) show ?thesis by (simp add: column_facts small_memory_nth)
qed

theorem fill_colours_rectangle_witness:
  "\<exists>m. fillSurfaceAccelerated (Some small_surface) (Some (column 1 3)) 0x01020304 small_memory sample_accel
       = (kIOReturnSuccess, m, count_draw sample_accel) \<and> m ! 20 = 4 \<and> m ! 19 = 19"
proof -
  from fill_colours_rectangle [OF column_in(2), of "0x01020304" sample_accel] obtain m where
    m: "fillSurfaceAccelerated (Some small_surface) (Some (column 1 3)) 0x01020304 small_memory sample_accel = (kIOReturnSuccess, m, count_draw sample_accel)"
    "\<forall>i < 3. \<forall>x < 1. \<forall>j < 4. m ! (line small_surface (column 1 3) i + 4 * x + j) = le32 0x01020304 ! j"
    "\<forall>p < 40. (\<forall>i < 3. \<not> (line small_surface (column 1 3) i \<le> p \<and> p < line small_surface (column 1 3) i + 4)) \<longrightarrow> m ! p = small_memory ! p"
    by (auto simp: column_facts small_memory_nth)
  have "m ! 20 = 4" using m(2) [rule_format, of 0 0 0] using le_bytes.simps(2) [of 3 16909060] by (simp add: column_facts le32_def)
  moreover have "m ! 19 = 19" using m(3) [rule_format, of 19] by (simp add: column_facts small_memory_nth)
  ultimately show ?thesis using m(1) by blast
qed

end
