(* ===== verification/Accel_Clear.thy ===== *)
theory Accel_Clear
  imports Accel_Client Ieee_Float
begin

text \<open>
  Clearing the colour buffer: the virgl command of \<^verbatim>\<open>VMVirtIOGPUAccelerator::submitClearCommand\<close> and the software path of
  \<^verbatim>\<open>VMQemuVGAAccelerator::clearColorBuffer\<close>, which turns floats into pixels.
\<close>

section \<open>The command\<close>


text \<open>\<open>attached\<close>: the accelerator has its device. The depth is a double.\<close>

definition clear_command :: "u32 \<Rightarrow> u32 \<Rightarrow> u32 \<Rightarrow> u32 \<Rightarrow> u64 \<Rightarrow> u32 \<Rightarrow> u32 \<Rightarrow> u32 list" where
  "clear_command r g b a depth stencil buffers =
     [VIRGL_CMD_HDR VIRGL_CCMD_CLEAR 8, buffers, r, g, b, a, ucast (depth AND 0xFFFFFFFF), ucast (drop_bit 32 depth), stencil]"

definition submitClearCommand :: "device_env \<Rightarrow> bool \<Rightarrow> u32 \<Rightarrow> u32 list \<Rightarrow> gpu \<Rightarrow> io_return \<times> gpu" where
  "submitClearCommand e attached ctx cmd g =
     (if \<not> attached then (kIOReturnNotAttached, g)
      else case bytes_desc e (tr_tick (g_tr g)) (word_bytes cmd) of
             None \<Rightarrow> (kIOReturnNoMemory, g)
           | Some d \<Rightarrow> (case executeCommands e ctx (Some d) (md_retain d g) of (ret, g1) \<Rightarrow> (ret, md_release d g1)))"

section \<open>From floats to pixels\<close>

definition f32_mul :: "u32 \<Rightarrow> u32 \<Rightarrow> u32" where
  "f32_mul u v = (case (f32_mag u, f32_mag v) of ((n, i), (m, j)) \<Rightarrow> f32_of (f32_neg u \<noteq> f32_neg v) (n * m) (i + j))"

text \<open>The conversion to an unsigned integer drops the fraction; what does not fit has no defined value.\<close>

definition f32_trunc :: "u32 \<Rightarrow> u32 option" where
  "f32_trunc u =
     (case f32_mag u of (n, k) \<Rightarrow>
        let v = (if k \<ge> 0 then n * 2 ^ nat k else n div 2 ^ nat (- k))
        in if u AND 0x7F800000 = 0x7F800000 \<or> (f32_neg u \<and> v \<noteq> 0) \<or> v \<ge> 2 ^ 32 then None else Some (word_of_nat v))"

text \<open>\<open>wild\<close>: what the machine yields for such a value.\<close>

definition channel :: "(u32 \<Rightarrow> u32) \<Rightarrow> u32 \<Rightarrow> u32" where
  "channel wild c = (let p = f32_mul c 0x437F0000 in case f32_trunc p of None \<Rightarrow> wild p | Some v \<Rightarrow> v)"

definition clear_pixel :: "(u32 \<Rightarrow> u32) \<Rightarrow> u32 \<Rightarrow> u32 \<Rightarrow> u32 \<Rightarrow> u32 \<Rightarrow> u32" where
  "clear_pixel wild r g b a = push_bit 24 (channel wild a) OR push_bit 16 (channel wild r) OR push_bit 8 (channel wild g) OR channel wild b"

text \<open>
  The pixels written, in 32-bit arithmetic; a colour of zero goes through \<^verbatim>\<open>bzero\<close>. Past the end of the video memory is a
  panic.
\<close>

definition clear_vram :: "u32 \<Rightarrow> u32 \<Rightarrow> u32 \<Rightarrow> bytes \<Rightarrow> bytes option" where
  "clear_vram w h color v =
     (if color = 0
      then (let n = unat (w * h * 4) in if n \<le> length v then Some (replicate n 0 @ drop n v) else None)
      else (let n = unat (w * h) in if 4 * n \<le> length v then Some (concat (replicate n (le32 color)) @ drop (4 * n) v) else None))"

text \<open>\<open>child\<close>: the accelerator found among the children of the driver object, and whether it has its device.\<close>

definition clear_hardware :: "device_env \<Rightarrow> bool option \<Rightarrow> AccelContext \<Rightarrow> u32 \<Rightarrow> u32 \<Rightarrow> u32 \<Rightarrow> u32 \<Rightarrow> accel \<Rightarrow> io_return \<times> accel" where
  "clear_hardware e child c r g b a s =
     (if ac_has_gpu s \<and> supports3D (ac_gpu s) \<and> cx_gpu_context_id c \<noteq> 0
      then (case child of
              None \<Rightarrow> (kIOReturnSuccess, s)
            | Some attached \<Rightarrow>
                (case submitClearCommand e attached (cx_gpu_context_id c) (clear_command r g b a 0x3FF0000000000000 0 4) (ac_gpu s) of
                   (ret, g1) \<Rightarrow> (ret, s\<lparr>ac_gpu := g1\<rparr>)))
      else (kIOReturnSuccess, s))"

definition clearColorBuffer ::
  "(u32 \<Rightarrow> u32) \<Rightarrow> device_env \<Rightarrow> bool option \<Rightarrow> u32 \<Rightarrow> u32 \<Rightarrow> u32 \<Rightarrow> u32 \<Rightarrow> u32 \<Rightarrow> accel \<Rightarrow> io_return \<times> accel" where
  "clearColorBuffer wild e child cid r g b a s =
     (case accel_findContext cid s of
        None \<Rightarrow> (kIOReturnNotFound, s)
      | Some i \<Rightarrow>
          case clear_hardware e child (context_at i s) r g b a s of (ret, s1) \<Rightarrow>
            if (ret \<noteq> kIOReturnSuccess \<or> \<not> ac_has_gpu s1) \<and> ac_framebuffer s1
            then (case (ac_vram s1, ac_device s1) of
                    (Mapped v, Some (w, h)) \<Rightarrow>
                      (case clear_vram w h (clear_pixel wild r g b a) v of
                         None \<Rightarrow> (Kernel_panic, s1)
                       | Some v' \<Rightarrow> (kIOReturnSuccess, s1\<lparr>ac_vram := Mapped v'\<rparr>))
                  | _ \<Rightarrow> (ret, s1))
            else (ret, s1))"

section \<open>What a clear does\<close>

lemma concat_zero: "concat (replicate n (le32 0)) = replicate (4 * n) 0"
proof (induction n)
  case (Suc n)
  have "le_bytes k 0 = replicate k 0" for k by (induction k) simp_all
  then have z: "le32 0 = replicate 4 0" by (simp add: le32_def)
  have m: "4 * Suc n = 4 + 4 * n" by simp
  show ?case unfolding replicate_Suc concat.simps m replicate_add by (simp only: Suc) (simp only: z)
qed simp

text \<open>A frame buffer that fits the video memory is filled, whichever way the pixels are written.\<close>

lemma clear_vram_fills:
  assumes "4 * (unat w * unat h) \<le> length v" "4 * (unat w * unat h) < 2 ^ 32"
  shows "clear_vram w h color v = Some (concat (replicate (unat w * unat h) (le32 color)) @ drop (4 * (unat w * unat h)) v)"
proof -
  have n: "unat (w * h) = unat w * unat h" using assms(2) by (intro unat_mult_exact) linarith
  have "unat (w * h) * unat (4 :: u32) < 2 ^ 32" unfolding n using assms(2) by simp
  then have "unat (w * h * 4) = 4 * (unat w * unat h)" using unat_mult_exact [of "w * h" 4] n by simp
  then show ?thesis using assms(1) by (simp add: clear_vram_def Let_def n concat_zero)
qed

lemma clear_hardware_frame:
  "clear_hardware e child c r g b a s = (ret, s1) \<Longrightarrow> \<exists>gp. s1 = s\<lparr>ac_gpu := gp\<rparr>"
proof -
  have "\<exists>gp. s = s\<lparr>ac_gpu := gp\<rparr>" by (rule exI [of _ "ac_gpu s"]) simp
  then show "clear_hardware e child c r g b a s = (ret, s1) \<Longrightarrow> \<exists>gp. s1 = s\<lparr>ac_gpu := gp\<rparr>"
    by (auto simp: clear_hardware_def split: if_splits option.splits prod.splits)
qed

text \<open>A clear that reports success has coloured the screen or had the host do it, or else there is a GPU that could do
  neither. For a screen that fits the video memory: without a GPU, or when the command fails, every pixel of the screen gets the
  colour and the rest of the video memory stays; in all other cases the video memory stays as it is, and the call reports success
  even when the GPU has no 3D support, no context or no accelerator attached, so that nothing was cleared at all.\<close>

theorem clear_outcome:
  assumes "accel_findContext cid s = Some i" "ac_framebuffer s" "ac_vram s = Mapped v" "ac_device s = Some (w, h)"
    and "4 * (unat w * unat h) \<le> length v" "4 * (unat w * unat h) < 2 ^ 32"
    and "clear_hardware e child (context_at i s) r g b a s = (hw, s1)" "clearColorBuffer wild e child cid r g b a s = (ret, s')"
  shows "ret = kIOReturnSuccess \<and>
    (if \<not> ac_has_gpu s \<or> hw \<noteq> kIOReturnSuccess
     then ac_vram s' = Mapped (concat (replicate (unat w * unat h) (le32 (clear_pixel wild r g b a))) @ drop (4 * (unat w * unat h)) v)
     else ac_vram s' = Mapped v \<and> (\<not> supports3D (ac_gpu s) \<or> cx_gpu_context_id (context_at i s) = 0 \<or> child = None \<longrightarrow> s' = s))"
proof -
  obtain gp where s1: "s1 = s\<lparr>ac_gpu := gp\<rparr>" using clear_hardware_frame [OF assms(7)] by blast
  have f: "ac_has_gpu s1 = ac_has_gpu s" "ac_framebuffer s1" "ac_vram s1 = Mapped v" "ac_device s1 = Some (w, h)" using assms(2-4) by (simp_all add: s1)
  have dead: "\<not> supports3D (ac_gpu s) \<or> cx_gpu_context_id (context_at i s) = 0 \<or> child = None \<Longrightarrow> s1 = s"
    using assms(7) by (auto simp: clear_hardware_def split: if_splits)
  show ?thesis
    using assms(8) clear_vram_fills [OF assms(5,6)] dead f
    by (auto simp: clearColorBuffer_def assms(1,7) split: if_splits)
qed

text \<open>Values that fill the channels exactly; a component of 2 is not clamped and spills into the next channel.\<close>

lemma clear_pixel_values:
  "clear_pixel wild 0x3F800000 0 0 0x3F800000 = 0xFFFF0000" "clear_pixel wild 0 0 0 0 = 0" "clear_pixel wild 0x3F000000 0x3F000000 0x3F000000 0 = 0x007F7F7F"
  "clear_pixel wild 0 0 0x40000000 0 = 0x000001FE"
  by (simp_all add: clear_pixel_def channel_def f32_mul_def f32_trunc_def f32_mag_def fp_unpack_def f32_of_def fp_pack_def f32_neg_def round_even_def bits.simps)

section \<open>Witness\<close>

definition clear_accel :: accel where
  "clear_accel = \<lparr>ac_gpu = sample_gpu, ac_has_gpu = False, ac_framebuffer = True, ac_vram = Mapped (replicate 20 7), ac_device = Some (2, 2),
     ac_contexts = ([Some \<lparr>cx_context_id = 5, cx_gpu_context_id = 1, cx_command_buffer = None, cx_owning_task = 9,
       cx_bound_surface_ids = [], cx_bound_surface_capacity = 0\<rparr>], 1), ac_surfaces = ([], 0), ac_next_context_id = 5, ac_next_surface_id = 0,
     ac_draw_calls = 0, ac_triangles_rendered = 0, ac_memory_used = 0, ac_commands_submitted = 0, ac_refs = (\<lambda>_. 0), ac_heap = 1\<rparr>"

theorem clear_outcome_witness:
  "\<exists>s'. clearColorBuffer (\<lambda>_. 0) sample_accel_env None 5 0x3F800000 0 0 0x3F800000 clear_accel = (kIOReturnSuccess, s')
     \<and> ac_vram s' = Mapped (concat (replicate 4 (le32 0xFFFF0000)) @ replicate 4 7)"
proof -
  have f: "accel_findContext 5 clear_accel = Some 0" "ac_framebuffer clear_accel" "ac_vram clear_accel = Mapped (replicate 20 7)"
    "ac_device clear_accel = Some (2, 2)" "\<not> ac_has_gpu clear_accel"
    by (simp_all add: clear_accel_def accel_findContext_def)
  have h: "clear_hardware sample_accel_env None (context_at 0 clear_accel) 0x3F800000 0 0 0x3F800000 clear_accel = (kIOReturnSuccess, clear_accel)"
    using f(5) by (simp add: clear_hardware_def)
  obtain ret s' where x: "clearColorBuffer (\<lambda>_. 0) sample_accel_env None 5 0x3F800000 0 0 0x3F800000 clear_accel = (ret, s')" by (metis surj_pair)
  from clear_outcome [OF f(1-4) _ _ h x] f(5) show ?thesis by (simp add: x clear_pixel_values)
qed

end
