(* ===== verification/Command_Buffer.thy ===== *)
theory Command_Buffer
  imports Prelude "HOL-Library.Multiset"
begin

text \<open>
  Command buffers and their pool (\<^verbatim>\<open>VMCommandBuffer.cpp\<close>): creation and release of a buffer, recording, and the pool that hands
  buffers out and takes them back, with the reference counts of the objects it shares with its clients.
\<close>

section \<open>A command buffer\<close>

datatype VMCommandBufferState =
    VM_COMMAND_BUFFER_STATE_INITIAL | VM_COMMAND_BUFFER_STATE_RECORDING | VM_COMMAND_BUFFER_STATE_EXECUTABLE
  | VM_COMMAND_BUFFER_STATE_PENDING | VM_COMMAND_BUFFER_STATE_INVALID

text \<open>
  The first four fields say whether the pointer is non-null. \<open>cb_prepared\<close>: preparations of the buffer memory not completed.
  \<open>cb_commands\<close> and \<open>cb_resources\<close> count the objects in the two arrays.
\<close>

record VMCommandBuffer =
  cb_has_commands :: bool
  cb_has_resources :: bool
  cb_has_lock :: bool
  cb_has_memory :: bool
  cb_prepared :: nat
  cb_context_id :: u32
  cb_commands :: nat
  cb_resources :: nat
  cb_current_size :: u64
  cb_command_count :: u32
  cb_state :: VMCommandBufferState

text \<open>The allocations of \<^verbatim>\<open>init\<close>, in their order: the two arrays, the lock, the buffer memory.\<close>

definition cb_init :: "bool \<Rightarrow> bool \<Rightarrow> bool \<Rightarrow> bool \<Rightarrow> u32 \<Rightarrow> bool \<times> VMCommandBuffer" where
  "cb_init commands resources lock memory context_id =
     (let b = \<lparr>cb_has_commands = commands, cb_has_resources = resources, cb_has_lock = lock, cb_has_memory = memory,
               cb_prepared = (if memory then 1 else 0), cb_context_id = context_id, cb_commands = 0, cb_resources = 0,
               cb_current_size = 0, cb_command_count = 0, cb_state = VM_COMMAND_BUFFER_STATE_INITIAL\<rparr>
      in if \<not> memory then (False, b) else (commands \<and> resources \<and> lock \<and> memory, b))"

definition cb_free :: "VMCommandBuffer \<Rightarrow> VMCommandBuffer" where
  "cb_free b =
     (if cb_has_lock b
      then b\<lparr>cb_has_commands := False, cb_commands := (if cb_has_commands b then 0 else cb_commands b), cb_has_resources := False,
             cb_prepared := (if cb_has_memory b then cb_prepared b - 1 else cb_prepared b), cb_has_memory := False, cb_has_lock := False\<rparr>
      else b)"

text \<open>\<^verbatim>\<open>withAccelerator\<close>: what is left when the buffer could not be initialised has been freed.\<close>

definition cb_withAccelerator :: "bool \<Rightarrow> bool \<Rightarrow> bool \<Rightarrow> bool \<Rightarrow> bool \<Rightarrow> u32 \<Rightarrow> VMCommandBuffer option \<times> VMCommandBuffer option" where
  "cb_withAccelerator object commands resources lock memory context_id =
     (if \<not> object then (None, None)
      else case cb_init commands resources lock memory context_id of (ok, b) \<Rightarrow>
        if ok then (Some b, None) else (None, Some (cb_free b)))"

definition cb_reset :: "VMCommandBuffer \<Rightarrow> io_return \<times> VMCommandBuffer" where
  "cb_reset b =
     (if cb_state b = VM_COMMAND_BUFFER_STATE_PENDING then (kIOReturnBusy, b)
      else (kIOReturnSuccess, b\<lparr>cb_commands := 0, cb_resources := 0, cb_current_size := 0, cb_command_count := 0,
                                cb_state := VM_COMMAND_BUFFER_STATE_INITIAL\<rparr>))"

text \<open>
  Recording. The block of a command has room for its header of 16 bytes only, so the copy of the descriptor leaves it, and the
  array then retains a block that is not an object: an execution that gets that far is a panic. \<open>memory\<close>: the block could be
  allocated.
\<close>

definition addCommand :: "bool \<Rightarrow> nat option \<Rightarrow> VMCommandBuffer \<Rightarrow> io_return \<times> VMCommandBuffer" where
  "addCommand memory descriptor b =
     (case descriptor of
        None \<Rightarrow> (kIOReturnBadArgument, b)
      | Some len \<Rightarrow>
          if cb_state b \<noteq> VM_COMMAND_BUFFER_STATE_INITIAL then (kIOReturnNotPermitted, b)
          else if cb_command_count b \<ge> 256 then (kIOReturnNoSpace, b)
          else if \<not> memory then (kIOReturnNoMemory, b)
          else if 16 + len > 16 then (Kernel_panic, b\<lparr>cb_command_count := cb_command_count b + 1\<rparr>)
          else (kIOReturnSuccess, b\<lparr>cb_command_count := cb_command_count b + 1, cb_commands := cb_commands b + 1,
                                    cb_current_size := cb_current_size b + word_of_nat len\<rparr>))"

definition addDrawCommand :: "bool \<Rightarrow> bool \<Rightarrow> VMCommandBuffer \<Rightarrow> io_return \<times> VMCommandBuffer" where
  "addDrawCommand memory descriptor b = addCommand memory (if descriptor then Some 16 else None) b"

definition addComputeCommand :: "bool \<Rightarrow> bool \<Rightarrow> VMCommandBuffer \<Rightarrow> io_return \<times> VMCommandBuffer" where
  "addComputeCommand memory descriptor b = addCommand memory (if descriptor then Some 16 else None) b"

definition addResourceBinding :: "bool \<Rightarrow> VMCommandBuffer \<Rightarrow> io_return \<times> VMCommandBuffer" where
  "addResourceBinding memory b =
     (if cb_state b \<noteq> VM_COMMAND_BUFFER_STATE_INITIAL then (kIOReturnNotPermitted, b)
      else if \<not> memory then (kIOReturnNoMemory, b) else (Kernel_panic, b))"

text \<open>A buffer that cannot be initialised is freed completely unless it is the lock that is missing: then \<^verbatim>\<open>free\<close> does nothing.\<close>

lemma failed_init_leaks:
  assumes "cb_withAccelerator True commands resources lock memory context_id = (r, Some b)"
  shows "r = None" "(cb_has_commands b \<or> cb_has_resources b \<or> cb_has_memory b) = (\<not> lock \<and> (commands \<or> resources \<or> memory))"
  using assms by (auto simp: cb_withAccelerator_def cb_init_def cb_free_def Let_def split: if_splits)

section \<open>The pool\<close>

text \<open>
  Buffers are named by numbers, \<open>bp_next\<close> the next one to be created. An array holds one reference on each of its entries;
  \<open>bp_refs\<close> are the references held in all.
\<close>

record VMCommandBufferPool =
  bp_available :: "nat list"
  bp_active :: "nat list"
  bp_max_buffers :: nat
  bp_refs :: "nat \<Rightarrow> int"
  bp_next :: nat
  bp_buffers :: "nat \<Rightarrow> VMCommandBuffer"

definition bp_add_ref :: "int \<Rightarrow> nat \<Rightarrow> VMCommandBufferPool \<Rightarrow> VMCommandBufferPool" where
  "bp_add_ref d b p = p\<lparr>bp_refs := (bp_refs p)(b := bp_refs p b + d)\<rparr>"

definition pool_init :: "nat \<Rightarrow> (nat \<Rightarrow> VMCommandBuffer) \<Rightarrow> VMCommandBufferPool" where
  "pool_init max_buffers none = \<lparr>bp_available = [], bp_active = [], bp_max_buffers = max_buffers, bp_refs = (\<lambda>_. 0), bp_next = 0, bp_buffers = none\<rparr>"

text \<open>\<open>created\<close>: the new buffer, if one could be created; it comes with one reference, its caller's.\<close>

definition allocateCommandBuffer :: "VMCommandBuffer option \<Rightarrow> VMCommandBufferPool \<Rightarrow> io_return \<times> nat option \<times> VMCommandBufferPool" where
  "allocateCommandBuffer created p =
     (let (buffer, p1) =
        (case bp_available p of
           b # rest \<Rightarrow> (Some b, bp_add_ref (- 1) b ((bp_add_ref 1 b p)\<lparr>bp_available := rest\<rparr>))
         | [] \<Rightarrow> (case created of
                    Some x \<Rightarrow>
                      if length (bp_active p) < bp_max_buffers p
                      then (Some (bp_next p), bp_add_ref 1 (bp_next p)
                              (p\<lparr>bp_next := Suc (bp_next p), bp_buffers := (bp_buffers p)(bp_next p := x)\<rparr>))
                      else (None, p)
                  | None \<Rightarrow> (None, p)))
      in case buffer of
           None \<Rightarrow> (kIOReturnNoSpace, None, p1)
         | Some b \<Rightarrow> (kIOReturnSuccess, Some b, bp_add_ref 1 b (p1\<lparr>bp_active := bp_active p1 @ [b]\<rparr>)))"

definition releaseCommandBuffer :: "nat option \<Rightarrow> VMCommandBufferPool \<Rightarrow> io_return \<times> VMCommandBufferPool" where
  "releaseCommandBuffer buffer p =
     (case buffer of
        None \<Rightarrow> (kIOReturnBadArgument, p)
      | Some b \<Rightarrow>
          let p1 = (if b \<in> set (bp_active p) then bp_add_ref (- 1) b (p\<lparr>bp_active := remove1 b (bp_active p)\<rparr>) else p);
              p2 = bp_add_ref 1 b (p1\<lparr>bp_buffers := (bp_buffers p1)(b := snd (cb_reset (bp_buffers p1 b))), bp_available := bp_available p1 @ [b]\<rparr>)
          in (kIOReturnSuccess, bp_add_ref (- 1) b p2))"

definition resetPool :: "VMCommandBufferPool \<Rightarrow> io_return \<times> VMCommandBufferPool" where
  "resetPool p =
     (kIOReturnSuccess, p\<lparr>bp_available := [], bp_active := [],
        bp_refs := (\<lambda>b. bp_refs p b - int (count_list (bp_available p) b) - int (count_list (bp_active p) b))\<rparr>)"

section \<open>Clients that keep to the rules\<close>

text \<open>
  Clients hold the buffers they got and give each of them back once. A buffer with no references left is gone.
\<close>

inductive pool_step :: "VMCommandBufferPool \<times> nat list \<Rightarrow> VMCommandBufferPool \<times> nat list \<Rightarrow> bool" where
  got: "allocateCommandBuffer created p = (r, Some b, p') \<Longrightarrow> pool_step (p, held) (p', b # held)"
| refused: "allocateCommandBuffer created p = (r, None, p') \<Longrightarrow> pool_step (p, held) (p', held)"
| returned: "b \<in> set held \<Longrightarrow> releaseCommandBuffer (Some b) p = (r, p') \<Longrightarrow> pool_step (p, held) (p', remove1 b held)"

definition pool_inv :: "nat \<Rightarrow> VMCommandBufferPool \<times> nat list \<Rightarrow> bool" where
  "pool_inv n = (\<lambda>(p, held). bp_max_buffers p = n \<and> distinct (bp_available p @ held) \<and> mset (bp_active p) = mset held
     \<and> (\<forall>b \<in> set (bp_available p @ held). b < bp_next p) \<and> length (bp_available p) + length held \<le> n
     \<and> bp_refs p = (\<lambda>b. (if b \<in> set (bp_available p) then 1 else 0) + (if b \<in> set held then 2 else 0)))"

lemma pool_inv_init: "pool_inv n (pool_init n none, [])"
  by (simp add: pool_inv_def pool_init_def)

lemma pool_step_inv: "pool_step s s' \<Longrightarrow> pool_inv n s \<Longrightarrow> pool_inv n s'"
proof (induction rule: pool_step.induct)
  case (got created p r b p' held)
  have len: "length (bp_active p) = length held" using got(2) mset_eq_length by (auto simp: pool_inv_def)
  show ?case
  proof (cases "bp_available p")
    case Nil
    then obtain x where "b = bp_next p" "length (bp_active p) < bp_max_buffers p"
      "p' = p\<lparr>bp_next := Suc b, bp_buffers := (bp_buffers p)(b := x), bp_active := bp_active p @ [b], bp_refs := (bp_refs p)(b := 2 + bp_refs p b)\<rparr>"
      using got(1) by (auto simp: allocateCommandBuffer_def bp_add_ref_def split: if_splits option.splits)
    then show ?thesis using got(2) Nil len by (auto simp: pool_inv_def fun_eq_iff less_Suc_eq)
  next
    case (Cons c rest)
    then have "b = c" "p' = p\<lparr>bp_available := rest, bp_active := bp_active p @ [b], bp_refs := (bp_refs p)(b := bp_refs p b + 1)\<rparr>"
      using got(1) by (auto simp: allocateCommandBuffer_def bp_add_ref_def)
    then show ?thesis using got(2) Cons by (auto simp: pool_inv_def fun_eq_iff)
  qed
next
  case (refused created p r p' held)
  then have "p' = p" by (auto simp: allocateCommandBuffer_def split: list.splits if_splits option.splits)
  then show ?case using refused by simp
next
  case (returned b held p r p')
  have "b \<in> set (bp_active p)" using returned(1,3) mset_eq_setD by (auto simp: pool_inv_def)
  then have p': "p' = p\<lparr>bp_active := remove1 b (bp_active p), bp_buffers := (bp_buffers p)(b := snd (cb_reset (bp_buffers p b))), bp_available := bp_available p @ [b], bp_refs := (bp_refs p)(b := bp_refs p b - 1)\<rparr>"
    using returned(2) by (auto simp: releaseCommandBuffer_def bp_add_ref_def Let_def)
  have "set (remove1 b held) = set held - {b}" "length (remove1 b held) = length held - 1" "held \<noteq> []" "distinct (remove1 b held)"
    using returned(1,3) by (auto simp: pool_inv_def length_remove1 distinct_remove1)
  then show ?case using returned(1,3) unfolding p' by (auto simp: pool_inv_def fun_eq_iff Suc_leI)
qed

text \<open>C31. The pool hands every buffer to one client at a time. While clients give back each buffer they got once, after any number of
  allocations and releases: no buffer is held twice or is available while it is held, there are at most \<open>max_buffers\<close> buffers in all,
  and each has exactly the references that the array it is in and its holder keep, so none is destroyed early and none leaks.\<close>

theorem pool_hands_out_once:
  assumes "pool_step\<^sup>*\<^sup>* (pool_init n none, []) (p, held)"
  shows "distinct (bp_available p @ held) \<and> length (bp_available p @ held) \<le> n
     \<and> (\<forall>b. bp_refs p b = (if b \<in> set (bp_available p) then 1 else 0) + (if b \<in> set held then 2 else 0))"
proof -
  have "pool_inv n s'" if "pool_step\<^sup>*\<^sup>* s s'" "pool_inv n s" for s s'
    using that by (induction rule: rtranclp_induct) (auto intro: pool_step_inv)
  from this [OF assms pool_inv_init] show ?thesis by (simp add: pool_inv_def)
qed

text \<open>A second release of the same buffer makes the pool give it to two clients at once, with fewer references than holders.\<close>

theorem double_release_aliases:
  assumes "bp_available p = []" "b \<notin> set (bp_active p)" "releaseCommandBuffer (Some b) p = (r1, p1)" "releaseCommandBuffer (Some b) p1 = (r2, p2)"
  shows "\<exists>p3 p4. allocateCommandBuffer c1 p2 = (kIOReturnSuccess, Some b, p3) \<and> allocateCommandBuffer c2 p3 = (kIOReturnSuccess, Some b, p4)"
  using assms by (auto simp: allocateCommandBuffer_def releaseCommandBuffer_def bp_add_ref_def Let_def)

definition sample_buffer :: VMCommandBuffer where
  "sample_buffer = snd (cb_init True True True True 1)"

theorem pool_hands_out_once_witness:
  "\<exists>p held. pool_step\<^sup>*\<^sup>* (pool_init 1 (\<lambda>_. sample_buffer), []) (p, held) \<and> held = [0] \<and> bp_refs p 0 = 2"
proof -
  obtain p r where "allocateCommandBuffer (Some sample_buffer) (pool_init 1 (\<lambda>_. sample_buffer)) = (r, Some 0, p)"
    by (simp add: allocateCommandBuffer_def pool_init_def)
  then have "pool_step\<^sup>*\<^sup>* (pool_init 1 (\<lambda>_. sample_buffer), []) (p, [0])" by (intro r_into_rtranclp pool_step.got)
  with pool_hands_out_once [OF this] show ?thesis by auto
qed

end
