(* ===== verification/Spec2Isabelle.thy ===== *)
theory Spec2Isabelle
  imports Bring_Up Vga_Modes Framebuffer Accel_Client Surface_Sharing Gl_Drawing Cgl_Client Accel_Drawing Accel_Clear Command_Buffer
begin

text \<open>
  VMQemuVGA: graphics drivers of a Mac OS X guest for the display devices of QEMU. This development models the C++ code under
  \<^verbatim>\<open>src/FB\<close> that keeps state and talks to the device, and proves what makes it correct. The properties are the theorems
  whose text starts with a number, C1 to C40; the manifest lists them in the order of their importance.

  \<^bold>\<open>The program.\<close> The driver object \<^verbatim>\<open>VMVirtIOGPU\<close> brings a virtio-gpu device up and sends it commands over two
  virtqueues. Three kinds of callers use it: its own user client \<^verbatim>\<open>VMVirtIOGPUUserClient\<close>, which gives processes resources,
  contexts and virgl commands and wires their buffers; the framebuffer service \<^verbatim>\<open>VMVirtIOFramebuffer\<close>, which shows one buffer
  on the screen; and the accelerator \<^verbatim>\<open>VMQemuVGAAccelerator\<close> with its clients \<^verbatim>\<open>VMQemuVGA3DUserClient\<close> and
  \<^verbatim>\<open>VMCGLContext\<close>, the translator \<^verbatim>\<open>VMOpenGLTranslator\<close> and the command buffers of \<^verbatim>\<open>VMCommandBuffer\<close>. The older
  \<^verbatim>\<open>VMQemuVGA\<close> and \<^verbatim>\<open>QemuVGADevice\<close> drive the VBE registers of the Bochs and QXL cards. \<^verbatim>\<open>VMIOSurfaceManager\<close> keeps
  surfaces in memory and shares them between processes.

  \<^bold>\<open>How the model is built.\<close> A structure or class is a record whose fields have the names of the members, an enumeration a datatype,
  a C integer a word of its width, a return code a constructor of \<open>io_return\<close>. An operation is a function from the state to its
  results and the new state, with every early return as a branch. What the kernel decides (allocations, memory descriptors, mappings)
  and what the device does are parameters, collected in the records \<open>device_env\<close>, \<open>setup_env\<close>, \<open>bring_env\<close>, \<open>pci_dev\<close>
  and \<open>iosm_env\<close>, so a theorem holds for all of their behaviours; what a theorem needs of them is a named hypothesis, such as
  \<open>seg_contract\<close> for the segments of a descriptor or \<open>serving\<close> for a device that answers. An access outside its bounds or through a null
  pointer, where the code does not rule it out by a check, is the result \<open>Kernel_panic\<close>. Code under a lock is one step. Reference counts
  and wired pages are counted per descriptor in the state.
\<close>

text \<open>
  \<^bold>\<open>The theories: shared parts.\<close>

  \<^item> \<open>Prelude\<close>: word types, \<open>io_return\<close>, little-endian bytes, fixed buffers, the table of slots with key 0 for free ones, the locale
    \<open>keyed_table\<close> (look up, insert, delete), and the collections of facts \<open>wire_simps\<close>, \<open>frame_simps\<close>, \<open>safe_rules\<close> and \<open>inv_intros\<close>.
  \<^item> \<open>Object_Pool\<close>: the growing arrays of object pointers of the accelerator and the locale \<open>object_table\<close>.
  \<^item> \<open>Ieee_Float\<close>: single precision addition, multiplication and conversion with rounding to even, on bit patterns, and where they are exact.

  \<^bold>\<open>The theories: \<^verbatim>\<open>VMVirtIOGPU.cpp\<close>, \<^verbatim>\<open>VMVirtIOGPU.h\<close>, \<^verbatim>\<open>virtio_gpu.h\<close>, \<^verbatim>\<open>virgl_protocol.h\<close>.\<close>

  \<^item> \<open>Virtqueue\<close>: descriptor free list, rings, memory layout (\<^verbatim>\<open>vringFreeDepth\<close>, the arithmetic of the queue set-up). The layout is disjoint
    and does not overflow; the free list is a permutation of the descriptors.
  \<^item> \<open>Wire\<close>: every structure the driver sends, as bytes, with the device's decoder; it reads back exactly the structures that belong to
    the type of their header and whose counts match.
  \<^item> \<open>Transport\<close>: \<^verbatim>\<open>submitCommand\<close> and \<^verbatim>\<open>submitCursorCommand\<close> stage by stage against a device that may change the shared memory whenever the
    driver looks. The locale \<open>command_channel\<close> states what both queues promise; it is interpreted for both as \<open>ctl\<close> and \<open>cur\<close>. Against a
    serving device a submission is a remote procedure call.
  \<^item> \<open>Gpu\<close>: the state of the driver object, command headers, the walk over the segments of a descriptor.
  \<^item> \<open>Resources\<close>: \<^verbatim>\<open>createResource2D\<close>, \<^verbatim>\<open>createResource3D\<close>, \<^verbatim>\<open>attachBacking\<close>, \<^verbatim>\<open>deallocateResource\<close>, \<^verbatim>\<open>mapGuestMemory\<close> and the self-check, as refinements
    of a finite map (interpretation \<open>pool\<close> of \<open>keyed_table\<close>).
  \<^item> \<open>Contexts\<close>: rendering contexts and \<^verbatim>\<open>executeCommands\<close>. \<open>Display\<close>: transfers, flushes, scanouts, cursor and feature queries.
  \<^item> \<open>User_Client\<close>: every operation of the user client, its table of wired buffers (interpretation \<open>backing\<close>), its life cycle.
    \<open>External_Method\<close>: argument checks and dispatch of \<^verbatim>\<open>externalMethod\<close>. \<open>Client_Safety\<close>: no selector panics, and the memory a client
    wires is accounted for and released, by rule induction over its calls.
  \<^item> \<open>Pci_Caps\<close>: capability list, BAR mappings and the place of the registers. \<open>Queue_Setup\<close>: feature negotiation, set-up and teardown of
    the queues as register writes, and what they leave in a device that keeps its registers as the specification says. \<open>Bring_Up\<close>: \<^verbatim>\<open>initVirtIOGPU\<close> and the stages it composes, and \<^verbatim>\<open>getVRAMRange\<close>; bring-up returns, and
    it connects the doorbell to the register the device describes.
  \<^item> \<open>Virgl_Probe\<close>: \<^verbatim>\<open>probeTransport3D\<close>, its verdict and its clean-up.

  \<^bold>\<open>The theories: displays.\<close>

  \<^item> \<open>Framebuffer\<close>: \<^verbatim>\<open>VMVirtIOFramebuffer.cpp\<close> from start to free, over the driver object; the calls of the window server are the step
    relation \<open>fb_step\<close>, and in every reachable state the aperture is the memory the screen's resource is attached to when it is set up.
  \<^item> \<open>Vga_Modes\<close>: \<^verbatim>\<open>QemuVGADevice.cpp\<close>, \<^verbatim>\<open>modes.cpp\<close> and the mode handling of \<^verbatim>\<open>VMQemuVGA.cpp\<close>; the step relation \<open>vga_step\<close> interleaves clients,
    the window server and the delayed restore.
\<close>

text \<open>
  \<^bold>\<open>The theories: acceleration.\<close>

  \<^item> \<open>Accelerator\<close>: both object tables of \<^verbatim>\<open>VMQemuVGAAccelerator.cpp\<close> (interpretations \<open>context_table\<close> and \<open>surface_table\<close> of \<open>object_table\<close>),
    their operations, the selectors of \<^verbatim>\<open>VMQemuVGA3DUserClient.cpp\<close>, the step relation \<open>accel_step\<close> and its invariant. \<open>Accel_Client\<close>: what stop
    releases, how far a client reaches, presentation.
  \<^item> \<open>Accel_Drawing\<close>: copying and filling of rectangles, draw calls. \<open>Accel_Clear\<close>: \<^verbatim>\<open>submitClearCommand\<close> and \<^verbatim>\<open>clearColorBuffer\<close>.
  \<^item> \<open>Gl_Translator\<close> and \<open>Gl_Drawing\<close>: \<^verbatim>\<open>VMOpenGLTranslator.cpp\<close>; programs of GL calls stay inside their tables, and what is given
    between \<^verbatim>\<open>glBegin\<close> and \<^verbatim>\<open>glEnd\<close> is what is submitted to the host.
  \<^item> \<open>Cgl_Context\<close> and \<open>Cgl_Client\<close>: \<^verbatim>\<open>VMCGLContext.cpp\<close>, its dispatch table and the references it gives back.
  \<^item> \<open>Command_Buffer\<close>: \<^verbatim>\<open>VMCommandBuffer.cpp\<close>, the pool as the step relation \<open>pool_step\<close>.

  \<^bold>\<open>The theories: \<^verbatim>\<open>VMIOSurfaceManager.cpp\<close> and \<^verbatim>\<open>VMIOSurfaceManager_Helpers.cpp\<close>.\<close>

  \<^item> \<open>Surface_Cache\<close>: the discovery cache in front of the table. \<open>Io_Surface\<close>: formats, planes, ids, creation, destruction, locks, and the
    invariant \<open>sm_inv\<close>. \<open>Surface_Pixels\<close>: copies, fills and conversions on memory that may be shared with the kernel's own.
  \<^item> \<open>Surface_History\<close>: eviction, and all histories of operations as the inductive relation \<open>surface_reach\<close>: the table is sound in them, and the
    cache agrees with it as long as nothing is destroyed. \<open>Surface_Regions\<close>: what the pixel operations do to the images.
    \<open>Surface_Sharing\<close>: clients, access rights, eviction, memory pools; the surface lock, and the two operations that call into it while
    they hold it; the locale \<open>object_finder\<close>, interpreted for surfaces and for clients. \<^verbatim>\<open>updateSurfaceDescriptor\<close>,
    \<^verbatim>\<open>setSurfaceProperty\<close> and \<^verbatim>\<open>getSurfaceProperty\<close> take objects of the kernel's library for surfaces and have no model, so no history
    contains them.

  \<^bold>\<open>Bounds and fuel.\<close> The walk over the segments of a descriptor has its length plus one as fuel, and \<open>seg_terminates\<close> shows that to be enough for
  every descriptor that keeps the contract. The capability walks have 189, one more than there are places for a capability; a list that
  ends is walked to its end (\<open>capability_first_match\<close>), and a cyclic one hangs the code (\<open>capability_cycle_hangs\<close>). Polling is bounded by 150
  in the code itself. Histories of the accelerator are bounded by \<open>2 ^ 31\<close> steps, those of a CGL client by \<open>2 ^ 30\<close>, those of the surface manager by
  \<open>2 ^ 30\<close>: the counters of ids are 32-bit words and would wrap. \<open>heap_bounded\<close> says that one allocation is below \<open>2 ^ 33\<close> bytes; the surface
  manager's own limit of 512 MB is in its model, and binds until the first eviction. A GL batch has 10000 vertices as in the code; only \<open>immediate_mode_succeeds\<close>, which shows
  that drawing succeeds on a device that accepts everything, takes at most 80 vertices, one page of commands. Copies are stated for
  memory that does not cross \<open>2 ^ 64\<close>.

  \<^bold>\<open>What the theorems show to be wrong.\<close> Several theorems describe behaviour the code does not intend: a late completion taken for the next answer,
  a recycled surface id that follows a pointer into freed memory, a compaction and a creation of video surfaces that wait for their own lock, a copy downwards that repeats lines, a
  CGL dispatch table that refuses every call, a device without 3D taken for one with it. The manifest lists them as findings.
\<close>

text \<open>
  \<^bold>\<open>Not modelled.\<close>

  \<^item> IOKit glue: \<^verbatim>\<open>probe\<close>, \<^verbatim>\<open>start\<close> and \<^verbatim>\<open>stop\<close> of the services beyond the state described above, \<^verbatim>\<open>newUserClient\<close>, registry properties,
    logging, work loops. These publish constants and matching dictionaries to the kernel; their code has no state of its own.
    \<^verbatim>\<open>VMVirtIOGPUAccelerator\<close>, \<^verbatim>\<open>VMVirtIOAGDC\<close>, \<^verbatim>\<open>VMVirtIOGPUWrangler\<close> and \<^verbatim>\<open>VMMetalPlugin\<close> consist of it. \<^verbatim>\<open>VMAccelSurfaceClient\<close>
    answers Unsupported.
  \<^item> \<^verbatim>\<open>clientMemoryForType\<close> of the user client, which hands a descriptor to the kernel and returns.
  \<^item> \<^verbatim>\<open>beginRenderPass\<close>, \<^verbatim>\<open>endRenderPass\<close>, \<^verbatim>\<open>enableBlending\<close>, \<^verbatim>\<open>enableDepthTest\<close>, \<^verbatim>\<open>clearDepthBuffer\<close> and \<^verbatim>\<open>garbageCollectTextures\<close> of the
    accelerator: they send descriptions of state that no virgl host reads, and log results they make up.
  \<^item> \<^verbatim>\<open>VMShaderManager.cpp\<close> and \<^verbatim>\<open>VMTextureManager.cpp\<close>: most of their length is text about compilation, optimisation and memory analysis written to the
    log with made-up numbers; the little state they keep is not read by any modelled part.
  \<^item> \<^verbatim>\<open>VMOpenGLBridge.cpp\<close>, \<^verbatim>\<open>VMMetalBridge.cpp\<close>, \<^verbatim>\<open>VMCoreAnimationAccelerator.cpp\<close>, \<^verbatim>\<open>VMPhase3Manager.cpp\<close>: compatibility layers that keep arrays of
    descriptions and log; they do not reach the device.
  \<^item> The property cache, statistics, benchmarks, and the lists of video surfaces, decoders and texture bindings of \<^verbatim>\<open>VMIOSurfaceManager\<close>: stubs and counters.
  \<^item> \<^verbatim>\<open>src/IOGraphics\<close> and the kernel headers are third-party code; the programs under \<^verbatim>\<open>src\<close> that run in user space only call the selectors.
\<close>

end
